(* ===== verification/Prelude.thy ===== *)
theory Prelude
  imports Main "HOL-Library.Multiset" "HOL-Library.Sublist" "HOL-Library.Word"
begin

text \<open>
  Shared ground of the development: the result type of fallible Go functions, the model of the
  operations of Go's package strings that the gateway uses, and the facts on lists and maps that
  more than one component needs.

  A Go string is a sequence of bytes, and here it is the list of its bytes as characters
  (\<^typ>\<open>string\<close>, 8 bits per character). White space is what \<^verbatim>\<open>unicode.IsSpace\<close> accepts,
  by the UTF-8 encodings of those code points, so that trimming and splitting are exact for
  every byte string: no encoding in the list begins with a continuation byte, and so a scan by
  bytes and a scan by runes find the same spaces. Case folding is modelled on ASCII letters only.
\<close>

section \<open>Results\<close>

text \<open>A Go function that returns a value and an error: \<^verbatim>\<open>Inl\<close> is the error.\<close>

type_synonym ('e, 'a) result = "'e + 'a"

named_theorems result_simps

definition bind_result :: "('e, 'a) result \<Rightarrow> ('a \<Rightarrow> ('e, 'b) result) \<Rightarrow> ('e, 'b) result" where
  "bind_result r f = (case r of Inl e \<Rightarrow> Inl e | Inr x \<Rightarrow> f x)"

definition guard :: "bool \<Rightarrow> 'e \<Rightarrow> ('e, unit) result" where
  "guard c e = (if c then Inr () else Inl e)"

fun is_ok :: "('e, 'a) result \<Rightarrow> bool" where
  "is_ok (Inl _) = False"
| "is_ok (Inr _) = True"

lemma bind_result_simps [simp, result_simps]:
  "bind_result (Inl e) f = Inl e"
  "bind_result (Inr x) f = f x"
  by (simp_all add: bind_result_def)

lemma bind_result_Inr_iff [result_simps]:
  "bind_result r f = Inr y \<longleftrightarrow> (\<exists>x. r = Inr x \<and> f x = Inr y)"
  by (cases r) auto

lemma bind_result_Inl_iff [result_simps]:
  "bind_result r f = Inl e \<longleftrightarrow> r = Inl e \<or> (\<exists>x. r = Inr x \<and> f x = Inl e)"
  by (cases r) auto

lemma guard_Inr_iff [simp, result_simps]: "guard c e = Inr u \<longleftrightarrow> c"
  by (simp add: guard_def)

lemma guard_Inl_iff [simp, result_simps]: "guard c e = Inl e' \<longleftrightarrow> \<not> c \<and> e' = e"
  by (auto simp: guard_def)

lemma is_ok_iff [result_simps]: "is_ok r \<longleftrightarrow> (\<exists>x. r = Inr x)"
  by (cases r) auto

section \<open>Go strings\<close>

subsection \<open>White space\<close>

definition space_encodings :: "string list" where
  "space_encodings =
     [[CHR 0x20], [CHR 0x09], [CHR 0x0A], [CHR 0x0B], [CHR 0x0C], [CHR 0x0D],
      [CHR 0xC2, CHR 0x85], [CHR 0xC2, CHR 0xA0], [CHR 0xE1, CHR 0x9A, CHR 0x80],
      [CHR 0xE2, CHR 0x80, CHR 0x80], [CHR 0xE2, CHR 0x80, CHR 0x81],
      [CHR 0xE2, CHR 0x80, CHR 0x82], [CHR 0xE2, CHR 0x80, CHR 0x83],
      [CHR 0xE2, CHR 0x80, CHR 0x84], [CHR 0xE2, CHR 0x80, CHR 0x85],
      [CHR 0xE2, CHR 0x80, CHR 0x86], [CHR 0xE2, CHR 0x80, CHR 0x87],
      [CHR 0xE2, CHR 0x80, CHR 0x88], [CHR 0xE2, CHR 0x80, CHR 0x89],
      [CHR 0xE2, CHR 0x80, CHR 0x8A], [CHR 0xE2, CHR 0x80, CHR 0xA8],
      [CHR 0xE2, CHR 0x80, CHR 0xA9], [CHR 0xE2, CHR 0x80, CHR 0xAF],
      [CHR 0xE2, CHR 0x81, CHR 0x9F], [CHR 0xE3, CHR 0x80, CHR 0x80]]"

text \<open>The number of bytes of the word of \<^term>\<open>encs\<close> at the front of a string, 0 for none.\<close>

definition word_len :: "string list \<Rightarrow> string \<Rightarrow> nat" where
  "word_len encs s = (case find (\<lambda>e. prefix e s) encs of None \<Rightarrow> 0 | Some e \<Rightarrow> length e)"

function strip_words :: "string list \<Rightarrow> string \<Rightarrow> string" where
  "strip_words encs s =
     (if word_len encs s = 0 \<or> s = [] then s else strip_words encs (drop (word_len encs s) s))"
  by pat_completeness auto
termination by (relation "measure (\<lambda>(_, s). length s)") auto

declare strip_words.simps [simp del]

definition trim_space_left :: "string \<Rightarrow> string" where
  "trim_space_left s = strip_words space_encodings s"

definition trim_space_right :: "string \<Rightarrow> string" where
  "trim_space_right s = rev (strip_words (map rev space_encodings) (rev s))"

definition trim_space :: "string \<Rightarrow> string" where
  "trim_space s = trim_space_right (trim_space_left s)"

abbreviation blank :: "string \<Rightarrow> bool" where
  "blank s \<equiv> trim_space s = []"

text \<open>\<^verbatim>\<open>strings.Fields\<close>: the maximal runs of bytes that are not white space.\<close>

function go_fields_from :: "string \<Rightarrow> string \<Rightarrow> string list" where
  "go_fields_from acc [] = (if acc = [] then [] else [rev acc])"
| "go_fields_from acc (c # cs) =
     (if word_len space_encodings (c # cs) = 0 then go_fields_from (c # acc) cs
      else (if acc = [] then [] else [rev acc])
           @ go_fields_from [] (drop (word_len space_encodings (c # cs)) (c # cs)))"
  by pat_completeness auto
termination by (relation "measure (\<lambda>(_, s). length s)") auto

definition go_fields :: "string \<Rightarrow> string list" where
  "go_fields s = go_fields_from [] s"

subsection \<open>Prefixes, suffixes and parts\<close>

abbreviation has_prefix :: "string \<Rightarrow> string \<Rightarrow> bool" where
  "has_prefix s p \<equiv> prefix p s"

definition trim_prefix :: "string \<Rightarrow> string \<Rightarrow> string" where
  "trim_prefix s p = (if prefix p s then drop (length p) s else s)"

definition trim_right :: "char \<Rightarrow> string \<Rightarrow> string" where
  "trim_right c s = rev (dropWhile (\<lambda>x. x = c) (rev s))"

definition trim_left :: "char \<Rightarrow> string \<Rightarrow> string" where
  "trim_left c s = dropWhile (\<lambda>x. x = c) s"

definition trim_both :: "char \<Rightarrow> string \<Rightarrow> string" where
  "trim_both c s = trim_right c (trim_left c s)"

definition contains_char :: "string \<Rightarrow> char \<Rightarrow> bool" where
  "contains_char s c = (c \<in> set s)"

definition before_char :: "char \<Rightarrow> string \<Rightarrow> string" where
  "before_char c s = takeWhile (\<lambda>x. x \<noteq> c) s"

text \<open>\<^verbatim>\<open>strings.Split\<close> with a separator of one byte.\<close>

fun split_char :: "char \<Rightarrow> string \<Rightarrow> string list" where
  "split_char c [] = [[]]"
| "split_char c (x # xs) =
     (if x = c then [] # split_char c xs
      else case split_char c xs of [] \<Rightarrow> [[x]] | w # ws \<Rightarrow> (x # w) # ws)"

text \<open>\<^verbatim>\<open>strings.Join\<close>.\<close>

fun join :: "string \<Rightarrow> string list \<Rightarrow> string" where
  "join sep [] = []"
| "join sep [w] = w"
| "join sep (w # v # ws) = w @ sep @ join sep (v # ws)"

definition to_lower_char :: "char \<Rightarrow> char" where
  "to_lower_char c =
     (let n = (of_char c :: nat) in if 65 \<le> n \<and> n \<le> 90 then char_of (n + 32) else c)"

definition to_upper_char :: "char \<Rightarrow> char" where
  "to_upper_char c =
     (let n = (of_char c :: nat) in if 97 \<le> n \<and> n \<le> 122 then char_of (n - 32) else c)"

definition to_lower :: "string \<Rightarrow> string" where
  "to_lower s = map to_lower_char s"

definition to_upper :: "string \<Rightarrow> string" where
  "to_upper s = map to_upper_char s"

definition equal_fold :: "string \<Rightarrow> string \<Rightarrow> bool" where
  "equal_fold s t = (to_lower s = to_lower t)"

text \<open>The same on the bits of a character, for evaluation.\<close>

lemma to_lower_char_code [code]:
  "to_lower_char (Char b0 b1 b2 b3 b4 b5 b6 b7) =
     (if \<not> b7 \<and> b6 \<and> \<not> b5 \<and> (b0 \<or> b1 \<or> b2 \<or> b3 \<or> b4) \<and> \<not> (b4 \<and> b3 \<and> (b2 \<or> b1 \<and> b0))
      then Char b0 b1 b2 b3 b4 True b6 b7 else Char b0 b1 b2 b3 b4 b5 b6 b7)"
  by (cases b0; cases b1; cases b2; cases b3; cases b4; cases b5; cases b6; cases b7)
     (simp_all add: to_lower_char_def char_of_def bit_Suc_0_iff)

lemma to_upper_char_code [code]:
  "to_upper_char (Char b0 b1 b2 b3 b4 b5 b6 b7) =
     (if \<not> b7 \<and> b6 \<and> b5 \<and> (b0 \<or> b1 \<or> b2 \<or> b3 \<or> b4) \<and> \<not> (b4 \<and> b3 \<and> (b2 \<or> b1 \<and> b0))
      then Char b0 b1 b2 b3 b4 False b6 b7 else Char b0 b1 b2 b3 b4 b5 b6 b7)"
  by (cases b0; cases b1; cases b2; cases b3; cases b4; cases b5; cases b6; cases b7)
     (simp_all add: to_upper_char_def char_of_def bit_Suc_0_iff)

subsection \<open>Decimal numerals\<close>

definition digit_char :: "nat \<Rightarrow> char" where
  "digit_char d = char_of (48 + d)"

fun decimal :: "nat \<Rightarrow> string" where
  "decimal n = (if n < 10 then [digit_char n] else decimal (n div 10) @ [digit_char (n mod 10)])"

declare decimal.simps [simp del]

lemma decimal_nonempty [simp]: "decimal n \<noteq> []"
  by (subst decimal.simps) simp

section \<open>Facts on strings\<close>

lemma word_len_positive_prefix:
  assumes "word_len encs s \<noteq> 0"
  shows "\<exists>e \<in> set encs. prefix e s \<and> e \<noteq> []"
  using assms by (auto simp: word_len_def find_Some_iff split: option.splits)

lemma word_len_zero_iff:
  assumes "[] \<notin> set encs"
  shows "word_len encs s = 0 \<longleftrightarrow> (\<forall>e \<in> set encs. \<not> prefix e s)"
  using assms
  by (auto simp: word_len_def find_Some_iff find_None_iff split: option.splits) (metis nth_mem)+

lemma space_encodings_nonempty: "[] \<notin> set space_encodings" "[] \<notin> set (map rev space_encodings)"
  by (auto simp: space_encodings_def)

lemma strip_words_done [simp]: "word_len encs s = 0 \<Longrightarrow> strip_words encs s = s"
  by (simp add: strip_words.simps)

lemma strip_words_Nil [simp]: "strip_words encs [] = []"
  by (simp add: strip_words.simps)

lemma word_len_Nil [simp]: "[] \<notin> set encs \<Longrightarrow> word_len encs [] = 0"
  by (auto simp: word_len_zero_iff)

lemma strip_words_clean:
  assumes "[] \<notin> set encs"
  shows "word_len encs (strip_words encs s) = 0"
  using assms
proof (induction encs s rule: strip_words.induct)
  case (1 encs s)
  show ?case
  proof (cases "word_len encs s = 0 \<or> s = []")
    case True
    then show ?thesis using 1(2) by auto
  next
    case False
    then show ?thesis using 1 by (subst strip_words.simps) simp
  qed
qed

lemma strip_words_suffix: "suffix (strip_words encs s) s"
proof (induction encs s rule: strip_words.induct)
  case (1 encs s)
  then show ?case
    by (subst strip_words.simps) (auto intro: suffix_order.trans suffix_drop)
qed

lemma trim_space_left_suffix: "suffix (trim_space_left s) s"
  by (simp add: trim_space_left_def strip_words_suffix)

lemma trim_space_right_prefix: "prefix (trim_space_right s) s"
  using strip_words_suffix[of "map rev space_encodings" "rev s"]
  by (simp add: trim_space_right_def suffix_to_prefix)

lemma word_len_prefix_zero:
  assumes "[] \<notin> set encs" "word_len encs s = 0" "prefix p s"
  shows "word_len encs p = 0"
  using assms by (auto simp: word_len_zero_iff dest: prefix_order.trans)

lemma trim_space_idem [simp]: "trim_space (trim_space s) = trim_space s"
proof -
  let ?l = "trim_space_left s"
  have left: "word_len space_encodings (trim_space_right ?l) = 0"
  proof (rule word_len_prefix_zero[OF space_encodings_nonempty(1) _ trim_space_right_prefix])
    show "word_len space_encodings ?l = 0"
      unfolding trim_space_left_def by (rule strip_words_clean[OF space_encodings_nonempty(1)])
  qed
  have right: "trim_space_right (trim_space_right ?l) = trim_space_right ?l"
    unfolding trim_space_right_def rev_rev_ident
    by (simp only: strip_words_done strip_words_clean[OF space_encodings_nonempty(2)])
  show ?thesis
    using left right by (simp add: trim_space_def trim_space_left_def)
qed

lemma trim_space_Nil [simp]: "trim_space [] = []"
  by (simp add: trim_space_def trim_space_left_def trim_space_right_def)

lemma set_trim_space: "set (trim_space s) \<subseteq> set s"
proof -
  have "set (trim_space_right t) \<subseteq> set t" for t
    using trim_space_right_prefix set_mono_prefix by blast
  moreover have "set (trim_space_left s) \<subseteq> set s"
    using trim_space_left_suffix set_mono_suffix by blast
  ultimately show ?thesis unfolding trim_space_def by blast
qed

text \<open>A byte that begins and ends no space: printable ASCII, for instance.\<close>

definition solid :: "char \<Rightarrow> bool" where
  "solid c = (33 \<le> (of_char c :: nat) \<and> (of_char c :: nat) < 128)"

lemma solid_not_in_space: "solid c \<Longrightarrow> e \<in> set space_encodings \<Longrightarrow> c \<notin> set e"
  by (auto simp: space_encodings_def solid_def)

lemma prefix_head_in: "prefix e (c # s) \<Longrightarrow> e \<noteq> [] \<Longrightarrow> c \<in> set e"
  by (auto simp: prefix_Cons)

lemma word_len_solid:
  assumes "solid c"
  shows "word_len space_encodings (c # s) = 0" "word_len (map rev space_encodings) (c # s) = 0"
proof -
  have "\<not> prefix e (c # s)" if "e \<in> set space_encodings" for e
    using prefix_head_in[of e c s] solid_not_in_space[OF assms that] that
      space_encodings_nonempty(1) by metis
  moreover have "\<not> prefix (rev e) (c # s)" if "e \<in> set space_encodings" for e
    using prefix_head_in[of "rev e" c s] solid_not_in_space[OF assms that] that
      space_encodings_nonempty(1) by (metis rev_is_Nil_conv set_rev)
  ultimately show "word_len space_encodings (c # s) = 0"
    "word_len (map rev space_encodings) (c # s) = 0"
    using space_encodings_nonempty by (auto simp: word_len_zero_iff)
qed

lemma trim_space_solid:
  assumes "s = [] \<or> solid (hd s) \<and> solid (last s)"
  shows "trim_space s = s"
proof (cases s)
  case (Cons c cs)
  then have "word_len space_encodings s = 0" using assms word_len_solid(1) by auto
  moreover have "word_len (map rev space_encodings) (rev s) = 0"
    using assms Cons word_len_solid(2)[of "last s"]
    by (metis append_butlast_last_id list.simps(3) rev.simps(2) rev_append rev_rev_ident
        rev_singleton_conv append_Cons append_Nil)
  ultimately show ?thesis
    by (simp add: trim_space_def trim_space_left_def trim_space_right_def)
qed simp

corollary trim_space_all_solid: "\<forall>c \<in> set s. solid c \<Longrightarrow> trim_space s = s"
  by (rule trim_space_solid) (cases s, auto)

lemma go_fields_from_solid:
  "\<forall>c \<in> set s. solid c \<Longrightarrow> go_fields_from acc s = (if rev acc @ s = [] then [] else [rev acc @ s])"
  by (induction s arbitrary: acc) (auto simp: word_len_solid)

lemma go_fields_solid: "\<forall>c \<in> set s. solid c \<Longrightarrow> s \<noteq> [] \<Longrightarrow> go_fields s = [s]"
  by (simp add: go_fields_def go_fields_from_solid)

lemma go_fields_from_nonempty: "w \<in> set (go_fields_from acc s) \<Longrightarrow> w \<noteq> []"
  by (induction acc s rule: go_fields_from.induct) (auto split: if_splits)

lemma go_fields_nonempty: "w \<in> set (go_fields s) \<Longrightarrow> w \<noteq> []"
  unfolding go_fields_def by (rule go_fields_from_nonempty)

subsection \<open>Words\<close>

text \<open>A string in which no white space begins: what \<^verbatim>\<open>strings.Fields\<close> returns.\<close>

definition space_free :: "string \<Rightarrow> bool" where
  "space_free w = (\<forall>n < length w. word_len space_encodings (drop n w) = 0)"

lemma space_free_Cons: "space_free (c # w) \<longleftrightarrow> word_len space_encodings (c # w) = 0 \<and> space_free w"
  unfolding space_free_def by (auto simp: less_Suc_eq_0_disj)

lemma space_free_Nil [simp]: "space_free []"
  by (simp add: space_free_def)

lemma go_fields_from_space_free:
  assumes "\<forall>n < length acc. word_len space_encodings (drop n (rev acc @ s)) = 0"
    "w \<in> set (go_fields_from acc s)"
  shows "space_free w"
  using assms
proof (induction acc s rule: go_fields_from.induct)
  case (1 acc)
  then show ?case by (auto simp: space_free_def split: if_splits)
next
  case (2 acc c cs)
  show ?case
  proof (cases "word_len space_encodings (c # cs) = 0")
    case True
    have "\<forall>n < length (c # acc). word_len space_encodings (drop n (rev (c # acc) @ cs)) = 0"
      using 2(3) True by (simp add: less_Suc_eq)
    then show ?thesis using 2(1)[OF True] 2(4) True by simp
  next
    case False
    have "space_free (rev acc)"
      unfolding space_free_def
    proof (intro allI impI)
      fix n assume "n < length (rev acc)"
      then have "word_len space_encodings (drop n (rev acc) @ c # cs) = 0" using 2(3) by simp
      then show "word_len space_encodings (drop n (rev acc)) = 0"
        by (rule word_len_prefix_zero[OF space_encodings_nonempty(1)]) simp
    qed
    moreover have "space_free w"
      if "w \<in> set (go_fields_from [] (drop (word_len space_encodings (c # cs)) (c # cs)))"
      by (rule 2(2)[OF False _ that]) simp
    ultimately show ?thesis using 2(4) False by (cases "acc = []") auto
  qed
qed

lemma go_fields_space_free: "w \<in> set (go_fields s) \<Longrightarrow> space_free w"
  unfolding go_fields_def by (rule go_fields_from_space_free[of "[]"]) simp_all

lemma space_in_encoding: "e \<in> set space_encodings \<Longrightarrow> CHR 0x20 \<in> set e \<Longrightarrow> length e = 1"
  by (auto simp: space_encodings_def)

lemma word_len_before_space:
  assumes "word_len space_encodings t = 0" "t \<noteq> []"
  shows "word_len space_encodings (t @ CHR 0x20 # r) = 0"
proof -
  have "\<not> prefix e (t @ CHR 0x20 # r)" if e: "e \<in> set space_encodings" for e
  proof
    assume p: "prefix e (t @ CHR 0x20 # r)"
    have "\<not> prefix e t" using assms(1) e by (simp add: word_len_zero_iff space_encodings_nonempty)
    then obtain us where us: "e = t @ us" "prefix us (CHR 0x20 # r)" "us \<noteq> []"
      using p unfolding prefix_append by auto
    then have "CHR 0x20 \<in> set us" by (cases us) auto
    then have "CHR 0x20 \<in> set e" "length e > 1"
      using us assms(2) by (cases us; cases t; simp)+
    then show False using space_in_encoding[OF e] by simp
  qed
  then show ?thesis by (simp add: word_len_zero_iff space_encodings_nonempty)
qed

lemma go_fields_from_word:
  "space_free w \<Longrightarrow> rev acc @ w \<noteq> [] \<Longrightarrow>
   go_fields_from acc (w @ CHR 0x20 # r) = (rev acc @ w) # go_fields r"
proof (induction w arbitrary: acc)
  case Nil
  have "word_len space_encodings (CHR 0x20 # r) = 1"
    by (simp add: word_len_def space_encodings_def)
  then show ?case using Nil by (simp add: go_fields_def)
next
  case (Cons c w)
  then have "word_len space_encodings (c # w @ CHR 0x20 # r) = 0"
    using word_len_before_space[of "c # w" r] by (simp add: space_free_Cons)
  then show ?case using Cons by (simp add: space_free_Cons)
qed

lemma go_fields_from_last:
  "space_free w \<Longrightarrow> rev acc @ w \<noteq> [] \<Longrightarrow> go_fields_from acc w = [rev acc @ w]"
  by (induction w arbitrary: acc) (auto simp: space_free_Cons)

lemma go_fields_join:
  "\<forall>w \<in> set ws. space_free w \<and> w \<noteq> [] \<Longrightarrow> go_fields (join '' '' ws) = ws"
  by (induction "'' ''" ws rule: join.induct) (auto simp: go_fields_def go_fields_from_word go_fields_from_last)

lemma trim_space_space_free:
  assumes "space_free w"
  shows "trim_space w = w"
proof (cases "w = []")
  case False
  then have "word_len space_encodings w = 0" using assms by (force simp: space_free_def)
  moreover have "word_len (map rev space_encodings) (rev w) = 0"
  proof -
    have "\<not> prefix (rev e) (rev w)" if e: "e \<in> set space_encodings" for e
    proof
      assume "prefix (rev e) (rev w)"
      then obtain u where u: "w = u @ e" by (auto simp: suffix_to_prefix[symmetric] suffix_def)
      have "e \<noteq> []" using e space_encodings_nonempty(1) by auto
      then have "word_len space_encodings e = 0"
        using assms u unfolding space_free_def by (metis append_eq_conv_conj length_append
          length_greater_0_conv less_add_same_cancel1)
      then show False using e by (auto simp: word_len_zero_iff space_encodings_nonempty)
    qed
    then show ?thesis by (subst word_len_zero_iff) (auto simp: space_encodings_nonempty)
  qed
  ultimately show ?thesis by (simp add: trim_space_def trim_space_left_def trim_space_right_def)
qed simp

lemma trim_space_go_fields [simp]: "w \<in> set (go_fields s) \<Longrightarrow> trim_space w = w"
  by (simp add: go_fields_space_free trim_space_space_free)

lemma strip_words_empty:
  "strip_words encs t = [] \<Longrightarrow> \<exists>es. set es \<subseteq> set encs \<and> t = concat es"
proof (induction encs t rule: strip_words.induct)
  case (1 encs t)
  show ?case
  proof (cases "word_len encs t = 0 \<or> t = []")
    case True
    then have "t = []" using 1(2) by auto
    then show ?thesis by (intro exI[of _ "[]"]) simp
  next
    case False
    then have "strip_words encs (drop (word_len encs t) t) = []"
      using 1(2) by (subst (asm) strip_words.simps) simp
    then obtain es where es: "set es \<subseteq> set encs" "drop (word_len encs t) t = concat es"
      using 1(1)[OF False] by blast
    obtain e where e: "e \<in> set encs" "prefix e t" "word_len encs t = length e"
    proof (cases "find (\<lambda>e. prefix e t) encs")
      case (Some e)
      then show thesis using that[of e] find_Some_iff[of "\<lambda>e. prefix e t" encs e]
        by (auto simp: word_len_def)
    qed (use False in \<open>simp add: word_len_def\<close>)
    then have "t = concat (e # es)"
      using es(2) by (metis append_eq_conv_conj append_take_drop_id concat.simps(2) prefix_def)
    then show ?thesis using e(1) es(1) by (intro exI[of _ "e # es"]) simp
  qed
qed

text \<open>A blank string is empty or begins with a space.\<close>

lemma blank_head:
  assumes "blank s" "s \<noteq> []"
  shows "word_len space_encodings s \<noteq> 0"
proof
  assume z: "word_len space_encodings s = 0"
  then have "strip_words (map rev space_encodings) (rev s) = []"
    using assms(1) by (simp add: trim_space_def trim_space_left_def trim_space_right_def)
  then obtain es where es: "set es \<subseteq> set (map rev space_encodings)" "rev s = concat es"
    using strip_words_empty by blast
  then have s: "s = concat (map rev (rev es))" by (metis rev_concat rev_map rev_rev_ident)
  then obtain f fs where "map rev (rev es) = f # fs" using assms(2) by (cases "map rev (rev es)") auto
  then have "prefix f s" "f \<in> set (map rev (rev es))" using s by auto
  moreover have "set (map rev (rev es)) \<subseteq> set space_encodings" using es(1) by auto
  ultimately show False
    using z by (auto simp: word_len_zero_iff space_encodings_nonempty)
qed

lemma join_head:
  assumes "\<forall>w \<in> set ws. space_free w \<and> w \<noteq> []" "ws \<noteq> []"
  shows "\<not> blank (join '' '' ws)"
proof
  assume b: "blank (join '' '' ws)"
  obtain w vs where ws: "ws = w # vs" using assms(2) by (cases ws) auto
  have w: "word_len space_encodings w = 0" "w \<noteq> []"
    using assms(1) ws by (force simp: space_free_def)+
  then have "word_len space_encodings (join '' '' ws) = 0"
    using word_len_before_space[OF w] ws by (cases vs) auto
  moreover have "join '' '' ws \<noteq> []" using w(2) ws by (cases vs) auto
  ultimately show False using blank_head[OF b] by simp
qed

lemma trim_prefix_append [simp]: "trim_prefix (p @ s) p = s"
  by (simp add: trim_prefix_def)

lemma trim_right_no_suffix: "trim_right c s \<noteq> [] \<Longrightarrow> last (trim_right c s) \<noteq> c"
  unfolding trim_right_def using hd_dropWhile[of "\<lambda>x. x = c" "rev s"] by (simp add: last_rev)

lemma trim_right_id: "s = [] \<or> last s \<noteq> c \<Longrightarrow> trim_right c s = s"
  by (cases s rule: rev_cases) (auto simp: trim_right_def)

lemma trim_right_idem [simp]: "trim_right c (trim_right c s) = trim_right c s"
  by (rule trim_right_id) (auto simp: trim_right_no_suffix)

lemma trim_right_prefix: "prefix (trim_right c s) s"
  by (metis rev_rev_ident suffix_dropWhile suffix_to_prefix trim_right_def)

lemma trim_both_id: "s = [] \<or> hd s \<noteq> c \<and> last s \<noteq> c \<Longrightarrow> trim_both c s = s"
  by (cases s) (auto simp: trim_both_def trim_left_def trim_right_id)

lemma takeWhile_append_sep:
  "c \<notin> set s \<Longrightarrow> takeWhile (\<lambda>x. x \<noteq> c) (s @ c # t) = s"
  by (induction s) auto

lemma sep_injective:
  assumes "c \<notin> set s" "c \<notin> set s'" "s @ c # t = s' @ c # t'"
  shows "s = s' \<and> t = t'"
proof -
  have "s = s'" using takeWhile_append_sep assms by metis
  then show ?thesis using assms(3) by simp
qed

lemma split_char_nonempty [simp]: "split_char c s \<noteq> []"
  by (cases s) (auto split: list.splits)

lemma split_char_append:
  "c \<notin> set s \<Longrightarrow> split_char c (s @ c # t) = s # split_char c t"
  by (induction s) auto

lemma split_char_no_sep: "c \<notin> set s \<Longrightarrow> split_char c s = [s]"
  by (induction s) auto

lemma split_char_join:
  assumes "ws \<noteq> []" "\<forall>w \<in> set ws. c \<notin> set w"
  shows "split_char c (join [c] ws) = ws"
  using assms by (induction "[c]" ws rule: join.induct) (auto simp: split_char_no_sep split_char_append)

section \<open>First occurrences\<close>

text \<open>The loop with a set of seen keys that keeps the first occurrence of each value.\<close>

fun dedup_from :: "'a list \<Rightarrow> 'a list \<Rightarrow> 'a list" where
  "dedup_from seen [] = []"
| "dedup_from seen (x # xs) =
     (if x \<in> set seen then dedup_from seen xs else x # dedup_from (x # seen) xs)"

definition dedup :: "'a list \<Rightarrow> 'a list" where
  "dedup xs = dedup_from [] xs"

lemma set_dedup_from: "set (dedup_from seen xs) = set xs - set seen"
  by (induction seen xs rule: dedup_from.induct) auto

lemma distinct_dedup_from: "distinct (dedup_from seen xs)"
  by (induction seen xs rule: dedup_from.induct) (auto simp: set_dedup_from)

lemma set_dedup [simp]: "set (dedup xs) = set xs"
  by (simp add: dedup_def set_dedup_from)

lemma distinct_dedup [simp]: "distinct (dedup xs)"
  by (simp add: dedup_def distinct_dedup_from)

lemma dedup_from_distinct: "distinct xs \<Longrightarrow> set xs \<inter> set seen = {} \<Longrightarrow> dedup_from seen xs = xs"
  by (induction seen xs rule: dedup_from.induct) auto

lemma dedup_distinct: "distinct xs \<Longrightarrow> dedup xs = xs"
  by (simp add: dedup_def dedup_from_distinct)

lemma dedup_Nil_iff [simp]: "dedup xs = [] \<longleftrightarrow> xs = []"
  by (metis set_dedup set_empty)

section \<open>Lists and maps\<close>

lemma find_first:
  "find P xs = Some x \<Longrightarrow> x \<in> set xs \<and> P x"
  by (auto simp: find_Some_iff)

lemma find_unique:
  assumes "\<And>x y. x \<in> set xs \<Longrightarrow> y \<in> set xs \<Longrightarrow> P x \<Longrightarrow> P y \<Longrightarrow> x = y" "a \<in> set xs" "P a"
  shows "find P xs = Some a"
  using assms by (metis find_None_iff find_first option.exhaust)

lemma map_upd_cases: "(m(k \<mapsto> v)) k' = Some w \<longleftrightarrow> (if k' = k then v = w else m k' = Some w)"
  by auto

definition clamp_some :: "'a option \<Rightarrow> 'a \<Rightarrow> 'a" where
  "clamp_some x d = (case x of None \<Rightarrow> d | Some y \<Rightarrow> y)"

lemma clamp_some_simps [simp]: "clamp_some None d = d" "clamp_some (Some x) d = x"
  by (simp_all add: clamp_some_def)

end
