(* ===== verification/Faults.thy ===== *)
theory Faults
  imports Prelude
begin

text \<open>
  Errors (\<^verbatim>\<open>internal/platform/faults\<close>): the codes of the service and their translation to the
  codes of the errbuilder library, the two constructors \<^verbatim>\<open>New\<close> and \<^verbatim>\<open>Wrap\<close>, and the
  normalisation of the key/value fields of an error.  The details that an error carries are not
  part of the error value here: no code of the gateway reads them back.
\<close>

section \<open>Codes\<close>

datatype code =
    CodeUnknown
  | CodeConfigRequired
  | CodeConfigInvalid
  | CodeDependencyMissing
  | CodeValidationFailed
  | CodeInvariantFailed
  | CodeUnreachable
  | CodeNotFound
  | CodeAuthorizationDenied
  | CodeResourceLimit
  | CodeDatabaseOpen
  | CodeDatabaseRead
  | CodeDatabaseWrite
  | CodeDatabaseClose
  | CodeDatabaseMigration
  | CodeOther string

text \<open>The codes of errbuilder that the program names.\<close>

datatype err_code =
    ErrInvalidArgument
  | ErrNotFound
  | ErrPermissionDenied
  | ErrResourceExhausted
  | ErrFailedPrecondition
  | ErrUnavailable
  | ErrInternal
  | ErrCanceled
  | ErrDeadlineExceeded
  | ErrUnknown

fun code_string :: "code \<Rightarrow> string" where
  "code_string CodeUnknown = ''unknown''"
| "code_string CodeConfigRequired = ''config.required''"
| "code_string CodeConfigInvalid = ''config.invalid''"
| "code_string CodeDependencyMissing = ''dependency.missing''"
| "code_string CodeValidationFailed = ''validation.failed''"
| "code_string CodeInvariantFailed = ''invariant.failed''"
| "code_string CodeUnreachable = ''unreachable''"
| "code_string CodeNotFound = ''not_found''"
| "code_string CodeAuthorizationDenied = ''authorization.denied''"
| "code_string CodeResourceLimit = ''resource.limit''"
| "code_string CodeDatabaseOpen = ''database.open''"
| "code_string CodeDatabaseRead = ''database.read''"
| "code_string CodeDatabaseWrite = ''database.write''"
| "code_string CodeDatabaseClose = ''database.close''"
| "code_string CodeDatabaseMigration = ''database.migration''"
| "code_string (CodeOther s) = (if s = [] then ''unknown'' else s)"

fun ErrCode :: "code \<Rightarrow> err_code" where
  "ErrCode CodeConfigRequired = ErrInvalidArgument"
| "ErrCode CodeConfigInvalid = ErrInvalidArgument"
| "ErrCode CodeValidationFailed = ErrInvalidArgument"
| "ErrCode CodeNotFound = ErrNotFound"
| "ErrCode CodeAuthorizationDenied = ErrPermissionDenied"
| "ErrCode CodeResourceLimit = ErrResourceExhausted"
| "ErrCode CodeDependencyMissing = ErrFailedPrecondition"
| "ErrCode CodeDatabaseOpen = ErrUnavailable"
| "ErrCode CodeInvariantFailed = ErrInternal"
| "ErrCode CodeUnreachable = ErrInternal"
| "ErrCode CodeDatabaseRead = ErrInternal"
| "ErrCode CodeDatabaseWrite = ErrInternal"
| "ErrCode CodeDatabaseClose = ErrInternal"
| "ErrCode CodeDatabaseMigration = ErrInternal"
| "ErrCode _ = ErrUnknown"

section \<open>Error values\<close>

text \<open>
  The errors that flow through the program: \<^verbatim>\<open>fmt.Errorf\<close> and \<^verbatim>\<open>errors.New\<close> with their message,
  the two sentinels of package context, the sentinel \<^verbatim>\<open>sql.ErrNoRows\<close>, and a fault with its code,
  label, message and cause.
\<close>

datatype go_error =
    Errorf string
  | ContextCanceled
  | ContextDeadlineExceeded
  | SqlNoRows
  | Fault err_code string string "go_error"

fun errors_is :: "go_error \<Rightarrow> go_error \<Rightarrow> bool" where
  "errors_is (Fault c l m cause) target = (Fault c l m cause = target \<or> errors_is cause target)"
| "errors_is e target = (e = target)"

definition errCodeForCause :: "code \<Rightarrow> go_error \<Rightarrow> err_code" where
  "errCodeForCause c cause =
     (if errors_is cause ContextCanceled then ErrCanceled
      else if errors_is cause ContextDeadlineExceeded then ErrDeadlineExceeded
      else ErrCode c)"

definition faults_New :: "code \<Rightarrow> string \<Rightarrow> go_error" where
  "faults_New c msg = Fault (ErrCode c) (code_string c) msg (Errorf msg)"

definition faults_Wrap :: "code \<Rightarrow> string \<Rightarrow> go_error option \<Rightarrow> go_error option" where
  "faults_Wrap c msg cause =
     (case cause of
        None \<Rightarrow> None
      | Some e \<Rightarrow> Some (Fault (errCodeForCause c e) (code_string c) msg e))"

lemma code_string_nonempty: "code_string c \<noteq> []"
  by (cases c) auto

lemma wrap_none_iff: "faults_Wrap c msg cause = None \<longleftrightarrow> cause = None"
  by (auto simp: faults_Wrap_def split: option.splits)

lemma wrap_preserves_is:
  "faults_Wrap c msg (Some e) = Some w \<Longrightarrow> errors_is e t \<Longrightarrow> errors_is w t"
  by (auto simp: faults_Wrap_def)

lemma wrap_cancelled_code:
  "errors_is e ContextCanceled \<Longrightarrow>
   faults_Wrap c msg (Some e) = Some (Fault ErrCanceled (code_string c) msg e)"
  by (simp add: faults_Wrap_def errCodeForCause_def)

section \<open>Fields\<close>

text \<open>
  A field is a dynamic value or nil; \<^verbatim>\<open>fmt.Sprint\<close> is a parameter. A pair whose value is missing
  holds the marker of the code.
\<close>

datatype 'v field_value = FieldNote string | FieldGiven "'v option"

function normalize_from ::
  "('v \<Rightarrow> string) \<Rightarrow> nat \<Rightarrow> 'v option list \<Rightarrow> (string \<times> 'v field_value) list" where
  "normalize_from sprint i [] = []"
| "normalize_from sprint i (k # rest) =
     (let fallback = ''field_'' @ decimal (i div 2);
          key0 = (case k of None \<Rightarrow> fallback | Some v \<Rightarrow> sprint v);
          key = (if key0 = [] then fallback else key0);
          val = (case rest of [] \<Rightarrow> FieldNote ''<missing>'' | v # _ \<Rightarrow> FieldGiven v)
      in (key, val) # normalize_from sprint (i + 2) (drop 1 rest))"
  by pat_completeness auto
termination by (relation "measure (\<lambda>(_, _, xs). length xs)") auto

definition normalizeFields ::
  "('v \<Rightarrow> string) \<Rightarrow> 'v option list \<Rightarrow> (string \<times> 'v field_value) list" where
  "normalizeFields sprint fs =
     (if length fs mod 2 \<noteq> 0 then [(''fault_field_error'', FieldNote ''odd field count'')] else [])
     @ normalize_from sprint 0 fs"

lemma length_normalize_from: "length (normalize_from sprint i fs) = (length fs + 1) div 2"
  by (induction sprint i fs rule: normalize_from.induct) (auto simp: Let_def split: list.splits)

lemma normalizeFields_length:
  "length (normalizeFields sprint fs) = (length fs + 1) div 2 + length fs mod 2"
  by (auto simp: normalizeFields_def length_normalize_from)

lemma normalize_from_keys: "(k, v) \<in> set (normalize_from sprint i fs) \<Longrightarrow> k \<noteq> []"
  by (induction sprint i fs rule: normalize_from.induct)
     (auto simp: Let_def split: option.splits if_splits)

lemma normalizeFields_keys: "(k, v) \<in> set (normalizeFields sprint fs) \<Longrightarrow> k \<noteq> []"
  by (auto simp: normalizeFields_def dest: normalize_from_keys split: if_splits)

section \<open>Recovered panics\<close>

datatype 'v panic_value = PanicNil | PanicError go_error | PanicString string | PanicOther 'v

fun recoveredError :: "('v \<Rightarrow> string) \<Rightarrow> 'v panic_value \<Rightarrow> go_error option" where
  "recoveredError sprint PanicNil = None"
| "recoveredError sprint (PanicError e) = Some e"
| "recoveredError sprint (PanicString s) = Some (Errorf s)"
| "recoveredError sprint (PanicOther v) = Some (Errorf (''panic: '' @ sprint v))"

end
