(* ===== verification/Policy.thy ===== *)
theory Policy
  imports Faults
begin

text \<open>
  The policy package (\<^verbatim>\<open>internal/policy\<close>): the scope grammar \<^verbatim>\<open>mcp:<service>[:<kind>:<name>]\<close>, its
  parsing and its composition, and the engine that turns service grants into decisions.  The
  interface \<^verbatim>\<open>ServiceGrantAuthorizer\<close> that the engine consults is the locale \<^verbatim>\<open>grant_source\<close>; the
  stores of the edge interpret it (theory EdgeGrants).
\<close>

section \<open>Scopes\<close>

definition mcp_prefix :: string where
  "mcp_prefix = ''mcp:''"

definition colon :: char where
  "colon = CHR 0x3A"

definition ServiceScope :: "string \<Rightarrow> string" where
  "ServiceScope serviceID =
     (let sid = trim_space serviceID in if sid = [] then [] else mcp_prefix @ sid)"

definition capabilityScope :: "string \<Rightarrow> string \<Rightarrow> string \<Rightarrow> string" where
  "capabilityScope serviceID kind name =
     (let sid = trim_space serviceID; n = trim_space name in
      if sid = [] \<or> n = [] then []
      else mcp_prefix @ sid @ [colon] @ kind @ [colon] @ n)"

definition ToolScope :: "string \<Rightarrow> string \<Rightarrow> string" where
  "ToolScope serviceID tool = capabilityScope serviceID ''tool'' tool"

definition PromptScope :: "string \<Rightarrow> string \<Rightarrow> string" where
  "PromptScope serviceID prompt = capabilityScope serviceID ''prompt'' prompt"

definition ResourceScope :: "string \<Rightarrow> string \<Rightarrow> string" where
  "ResourceScope serviceID pat = capabilityScope serviceID ''resource'' pat"

definition ScopeIncludes :: "string \<Rightarrow> string \<Rightarrow> bool" where
  "ScopeIncludes scope targetScope =
     (let t = trim_space targetScope in t \<noteq> [] \<and> t \<in> set (go_fields scope))"

text \<open>The loop of \<^verbatim>\<open>ServiceIDsFromScope\<close>: a list of what it has seen, in any order.\<close>

fun service_ids_loop :: "string list \<Rightarrow> string list \<Rightarrow> string list" where
  "service_ids_loop seen [] = []"
| "service_ids_loop seen (entry # rest) =
     (if \<not> has_prefix entry mcp_prefix then service_ids_loop seen rest
      else let sid = before_char colon (trim_space (trim_prefix entry mcp_prefix)) in
        if sid = [] \<or> sid \<in> set seen then service_ids_loop seen rest
        else sid # service_ids_loop (sid # seen) rest)"

definition ServiceIDsFromScope :: "string \<Rightarrow> string list" where
  "ServiceIDsFromScope scope = service_ids_loop [] (go_fields scope)"

text \<open>
  The loop of \<^verbatim>\<open>RequestedServiceScopes\<close>, which gives up on the first entry that is not exactly one
  service scope.
\<close>

fun requested_loop :: "string list \<Rightarrow> string list \<Rightarrow> string list option" where
  "requested_loop seen [] = Some []"
| "requested_loop seen (entry # rest) =
     (if \<not> has_prefix entry mcp_prefix then None
      else let sid = trim_space (trim_prefix entry mcp_prefix) in
        if sid = [] \<or> contains_char sid colon then None
        else if sid \<in> set seen then requested_loop seen rest
        else map_option (\<lambda>ids. sid # ids) (requested_loop (sid # seen) rest))"

definition RequestedServiceScopes :: "string \<Rightarrow> string list \<times> bool" where
  "RequestedServiceScopes scope =
     (if blank scope then ([], False)
      else case requested_loop [] (go_fields scope) of
          None \<Rightarrow> ([], False)
        | Some ids \<Rightarrow> (ids, ids \<noteq> []))"

text \<open>What one entry of a scope asks for.\<close>

definition entry_service :: "string \<Rightarrow> string" where
  "entry_service entry = trim_space (trim_prefix entry mcp_prefix)"

definition entry_ok :: "string \<Rightarrow> bool" where
  "entry_ok entry =
     (has_prefix entry mcp_prefix \<and> entry_service entry \<noteq> [] \<and> colon \<notin> set (entry_service entry))"

lemma requested_loop_eq:
  "requested_loop seen es =
     (if list_all entry_ok es then Some (dedup_from seen (map entry_service es)) else None)"
  by (induction seen es rule: requested_loop.induct)
     (auto simp: Let_def entry_ok_def entry_service_def[symmetric] contains_char_def)

lemma RequestedServiceScopes_eq:
  "RequestedServiceScopes scope =
     (if \<not> blank scope \<and> list_all entry_ok (go_fields scope) \<and> go_fields scope \<noteq> []
      then (dedup (map entry_service (go_fields scope)), True) else ([], False))"
  by (auto simp: RequestedServiceScopes_def requested_loop_eq dedup_def[symmetric])

lemma RequestedServiceScopes_True:
  assumes "RequestedServiceScopes scope = (ids, True)"
  shows "ids \<noteq> []" "distinct ids" "\<And>i. i \<in> set ids \<Longrightarrow> i \<noteq> [] \<and> colon \<notin> set i"
    "set ids = entry_service ` set (go_fields scope)" "list_all entry_ok (go_fields scope)"
  using assms
  by (force simp: RequestedServiceScopes_eq entry_ok_def list_all_iff split: if_splits)+

lemma before_char_no_sep: "c \<notin> set s \<Longrightarrow> before_char c s = s"
  by (induction s) (auto simp: before_char_def)

text \<open>On the scopes both parsers accept they give the same services, in the same order.\<close>

lemma service_ids_loop_ok:
  "list_all entry_ok es \<Longrightarrow> service_ids_loop seen es = dedup_from seen (map entry_service es)"
  by (induction seen es rule: service_ids_loop.induct)
     (auto simp: Let_def entry_ok_def entry_service_def[symmetric] before_char_no_sep)

lemma service_ids_loop_distinct:
  "distinct (service_ids_loop seen es) \<and> set (service_ids_loop seen es) \<inter> set seen = {}"
  by (induction seen es rule: service_ids_loop.induct) (auto simp: Let_def)

lemma service_ids_loop_elem:
  "i \<in> set (service_ids_loop seen es) \<Longrightarrow>
   i \<noteq> [] \<and> colon \<notin> set i \<and> (\<exists>e \<in> set es. has_prefix e mcp_prefix)"
  by (induction seen es rule: service_ids_loop.induct)
     (auto simp: Let_def before_char_def dest: set_takeWhileD split: if_splits)

text \<open>The characters of service identifiers: \<^verbatim>\<open>^[a-z0-9][a-z0-9_-]*$\<close>.\<close>

definition id_char :: "char \<Rightarrow> bool" where
  "id_char c = (let n = (of_char c :: nat) in
     (97 \<le> n \<and> n \<le> 122) \<or> (48 \<le> n \<and> n \<le> 57) \<or> n = 95 \<or> n = 45)"

definition id_start :: "char \<Rightarrow> bool" where
  "id_start c = (let n = (of_char c :: nat) in (97 \<le> n \<and> n \<le> 122) \<or> (48 \<le> n \<and> n \<le> 57))"

definition service_id_ok :: "string \<Rightarrow> bool" where
  "service_id_ok s = (case s of [] \<Rightarrow> False | c # cs \<Rightarrow> id_start c \<and> list_all id_char cs)"

lemma id_char_solid: "id_char c \<Longrightarrow> solid c"
  by (auto simp: id_char_def solid_def Let_def)

lemma id_start_char: "id_start c \<Longrightarrow> id_char c"
  by (auto simp: id_char_def id_start_def Let_def)

lemma service_id_chars: "service_id_ok s \<Longrightarrow> c \<in> set s \<Longrightarrow> id_char c"
  by (cases s) (auto simp: service_id_ok_def id_start_char list_all_iff)

lemma service_id_solid: "service_id_ok s \<Longrightarrow> \<forall>c \<in> set s. solid c"
  using service_id_chars id_char_solid by blast

lemma service_id_no: "service_id_ok s \<Longrightarrow> colon \<notin> set s" "service_id_ok s \<Longrightarrow> CHR 0x2F \<notin> set s"
  using service_id_chars by (force simp: id_char_def colon_def)+

lemma service_id_trim: "service_id_ok s \<Longrightarrow> trim_space s = s"
  by (rule trim_space_all_solid) (rule service_id_solid)

lemma service_id_nonempty: "service_id_ok s \<Longrightarrow> s \<noteq> []"
  by (auto simp: service_id_ok_def)

lemma mcp_scope_solid: "service_id_ok s \<Longrightarrow> \<forall>c \<in> set (mcp_prefix @ s). solid c"
  using service_id_solid by (auto simp: mcp_prefix_def solid_def)

lemma ServiceScope_ok: "service_id_ok s \<Longrightarrow> ServiceScope s = mcp_prefix @ s"
  by (simp add: ServiceScope_def service_id_trim service_id_nonempty)

lemma requested_round_trip:
  assumes "service_id_ok s"
  shows "RequestedServiceScopes (ServiceScope s) = ([s], True)"
proof -
  let ?t = "mcp_prefix @ s"
  have "?t \<noteq> []" by (simp add: mcp_prefix_def)
  then have f: "go_fields ?t = [?t]" by (rule go_fields_solid[OF mcp_scope_solid[OF assms]])
  have t: "trim_space ?t = ?t" by (rule trim_space_all_solid[OF mcp_scope_solid[OF assms]])
  have e: "entry_service ?t = s" by (simp add: entry_service_def service_id_trim[OF assms])
  show ?thesis
    unfolding ServiceScope_ok[OF assms] RequestedServiceScopes_eq f
    using assms by (simp add: t e entry_ok_def service_id_no service_id_nonempty dedup_def)
qed

section \<open>Requests and decisions\<close>

datatype effect = EffectAllow | EffectDeny

record decision =
  Effect :: effect
  Reason :: string

definition Allow :: "string \<Rightarrow> decision" where
  "Allow r = \<lparr>Effect = EffectAllow, Reason = r\<rparr>"

definition Deny :: "string \<Rightarrow> decision" where
  "Deny r = \<lparr>Effect = EffectDeny, Reason = r\<rparr>"

definition decision_allowed :: "decision \<Rightarrow> bool" where
  "decision_allowed d = (Effect d = EffectAllow)"

datatype capability_type =
  CapabilityService | CapabilityTool | CapabilityPrompt | CapabilityResource | CapabilityOther string

datatype action =
    ActionOAuthAuthorize | ActionOAuthDeviceApprove | ActionOAuthTokenRefresh
  | ActionServiceInvoke | ActionToolCall | ActionPromptGet | ActionResourceRead
  | ActionStreamOpen | ActionStreamResume | ActionSessionTerminate | ActionOther string

record policy_request =
  SubjectSub :: string
  ServiceRefID :: string
  CapabilityType :: capability_type
  CapabilityName :: string
  RequestAction :: action

lemma decision_simps [simp]:
  "decision_allowed (Allow r)" "\<not> decision_allowed (Deny r)"
  "Allow r \<noteq> Deny r'" "Deny r' \<noteq> Allow r" "Allow r = Allow s \<longleftrightarrow> r = s" "Deny r = Deny s \<longleftrightarrow> r = s"
  by (simp_all add: decision_allowed_def Allow_def Deny_def)

section \<open>The engine\<close>

text \<open>The two questions a grant source answers.  A missing engine or source is \<^verbatim>\<open>None\<close>.\<close>

type_synonym allowed_fn = "string \<Rightarrow> string \<Rightarrow> (go_error, bool) result"

record authorizer =
  auth_allowed :: allowed_fn
  auth_scopes :: allowed_fn

definition no_authorizer :: go_error where
  "no_authorizer = Errorf ''service grant policy authorizer is required''"

definition request_service :: "policy_request \<Rightarrow> string" where
  "request_service req =
     (if ServiceRefID req = [] \<and> CapabilityType req = CapabilityService
      then CapabilityName req else ServiceRefID req)"

definition Evaluate :: "authorizer option \<Rightarrow> policy_request \<Rightarrow> (go_error, decision) result" where
  "Evaluate e req =
     (case e of
        None \<Rightarrow> Inl no_authorizer
      | Some a \<Rightarrow>
          if SubjectSub req = [] then Inr (Deny ''missing_subject'')
          else let serviceID = request_service req in
            if serviceID = [] then Inr (Deny ''missing_service'')
            else bind_result (auth_allowed a (SubjectSub req) serviceID) (\<lambda>ok.
              if \<not> ok then Inr (Deny ''service_not_granted'') else Inr (Allow ''service_grant'')))"

definition EvaluateScopes ::
  "authorizer option \<Rightarrow> string \<Rightarrow> string \<Rightarrow> (go_error, decision) result" where
  "EvaluateScopes e subjectSub scope =
     (case e of
        None \<Rightarrow> Inl no_authorizer
      | Some a \<Rightarrow>
          if subjectSub = [] then Inr (Deny ''missing_subject'')
          else bind_result (auth_scopes a subjectSub scope) (\<lambda>ok.
            if \<not> ok then Inr (Deny ''scope_not_granted'') else Inr (Allow ''service_scope_grant'')))"

text \<open>The wrapper of the edge, \<^verbatim>\<open>policyGrantAuthorizer\<close>, which is a grant source again.\<close>

definition newPolicyGrantAuthorizer :: "authorizer option \<Rightarrow> (go_error, authorizer option) result" where
  "newPolicyGrantAuthorizer a =
     (if a = None then Inl (Errorf ''policy grant authorizer requires a service grant source'')
      else Inr a)"

definition policyAllowed :: "authorizer option \<Rightarrow> allowed_fn" where
  "policyAllowed e subjectSub serviceID =
     bind_result
       (Evaluate e \<lparr>SubjectSub = subjectSub, ServiceRefID = serviceID,
          CapabilityType = CapabilityService, CapabilityName = serviceID,
          RequestAction = ActionServiceInvoke\<rparr>)
       (\<lambda>d. Inr (decision_allowed d))"

definition policyAllowedScopes :: "authorizer option \<Rightarrow> allowed_fn" where
  "policyAllowedScopes e subjectSub scope =
     bind_result (EvaluateScopes e subjectSub scope) (\<lambda>d. Inr (decision_allowed d))"

lemma Evaluate_allow_iff:
  "Evaluate (Some a) req = Inr (Allow r) \<longleftrightarrow>
     r = ''service_grant'' \<and> SubjectSub req \<noteq> [] \<and> request_service req \<noteq> []
     \<and> auth_allowed a (SubjectSub req) (request_service req) = Inr True"
  by (auto simp: Evaluate_def Let_def result_simps)

lemma policyAllowed_iff:
  "policyAllowed (Some a) sub sid = Inr True \<longleftrightarrow> sub \<noteq> [] \<and> sid \<noteq> [] \<and> auth_allowed a sub sid = Inr True"
  by (cases "auth_allowed a sub sid")
     (auto simp: policyAllowed_def Evaluate_def request_service_def Let_def)

lemma policyAllowedScopes_iff:
  "policyAllowedScopes (Some a) sub scope = Inr True \<longleftrightarrow> sub \<noteq> [] \<and> auth_scopes a sub scope = Inr True"
  by (cases "auth_scopes a sub scope") (auto simp: policyAllowedScopes_def EvaluateScopes_def)

lemma policy_fails_closed:
  "policyAllowed None sub sid = Inl no_authorizer"
  "policyAllowedScopes None sub scope = Inl no_authorizer"
  by (simp_all add: policyAllowed_def policyAllowedScopes_def Evaluate_def EvaluateScopes_def)

section \<open>The interface\<close>

text \<open>
  What the gateway relies on in a source of grants: a scope is granted exactly if it parses as a
  list of service scopes and each of its services is granted.  \<^verbatim>\<open>inv\<close> is the invariant of the
  source's state.
\<close>

locale grant_source =
  fixes inv :: "'s \<Rightarrow> bool"
    and allowed :: "'s \<Rightarrow> allowed_fn"
    and allowed_scopes :: "'s \<Rightarrow> allowed_fn"
  assumes scopes_iff:
    "inv st \<Longrightarrow> allowed_scopes st sub scope = Inr True \<longleftrightarrow>
       snd (RequestedServiceScopes scope)
       \<and> (\<forall>sid \<in> set (fst (RequestedServiceScopes scope)). allowed st sub sid = Inr True)"
begin

definition source :: "'s \<Rightarrow> authorizer" where
  "source st = \<lparr>auth_allowed = allowed st, auth_scopes = allowed_scopes st\<rparr>"

lemma single_scope:
  assumes "inv st" "service_id_ok sid"
  shows "allowed_scopes st sub (ServiceScope sid) = Inr True \<longleftrightarrow> allowed st sub sid = Inr True"
  using scopes_iff[OF assms(1)] requested_round_trip[OF assms(2)] by simp

text \<open>The engine over a source keeps the law, and so does the edge's wrapper around the engine.\<close>

lemma engine_scopes_iff:
  assumes "inv st"
  shows "policyAllowedScopes (Some (source st)) sub scope = Inr True \<longleftrightarrow>
     snd (RequestedServiceScopes scope)
     \<and> (\<forall>sid \<in> set (fst (RequestedServiceScopes scope)).
           policyAllowed (Some (source st)) sub sid = Inr True)"
proof (cases "snd (RequestedServiceScopes scope)")
  case True
  then obtain ids where ids: "RequestedServiceScopes scope = (ids, True)"
    by (metis prod.collapse)
  then have "ids \<noteq> []" "\<And>i. i \<in> set ids \<Longrightarrow> i \<noteq> []" using RequestedServiceScopes_True by blast+
  then show ?thesis
    using scopes_iff[OF assms, of sub scope] ids
    by (auto simp: policyAllowedScopes_iff policyAllowed_iff source_def)
next
  case False
  then show ?thesis
    using scopes_iff[OF assms, of sub scope] by (auto simp: policyAllowedScopes_iff source_def)
qed

text \<open>A scope that is granted grants each service of it, also by the looser parser.\<close>

lemma granted_scope_services:
  assumes "inv st" "allowed_scopes st sub scope = Inr True" "sid \<in> set (ServiceIDsFromScope scope)"
  shows "allowed st sub sid = Inr True"
proof -
  obtain ids where ids: "RequestedServiceScopes scope = (ids, True)"
    using assms scopes_iff by (metis prod.collapse)
  from RequestedServiceScopes_True[OF this]
  have "set (ServiceIDsFromScope scope) = set ids"
    by (simp add: ServiceIDsFromScope_def service_ids_loop_ok set_dedup_from)
  then show ?thesis using assms ids scopes_iff by auto
qed

end

end
