(* ===== verification/Catalog.thy ===== *)
theory Catalog
  imports Policy "HOL-Library.List_Lexorder" "HOL-Library.Char_ord"
begin

text \<open>
  The data of the service catalog (\<^verbatim>\<open>internal/catalog\<close>) and of tenants and subjects
  (\<^verbatim>\<open>internal/domain\<close>).  The string-valued enumerations of the source are datatypes with its
  constants and one constructor for any other string.  The free-form metadata of a capability is
  not modelled: nothing in the program reads it.
\<close>

type_synonym time = int
type_synonym duration = int

text \<open>Times are nanoseconds; 0 is Go's zero time, \<^verbatim>\<open>t.IsZero()\<close>. Durations are nanoseconds.\<close>

abbreviation second :: duration where
  "second \<equiv> 1000000000"

abbreviation minute :: duration where
  "minute \<equiv> 60000000000"

abbreviation hour :: duration where
  "hour \<equiv> 3600000000000"

section \<open>Catalog entries\<close>

datatype transport_type = TransportStreamableHTTP | TransportSSE | TransportOther string

datatype adapter_requirement =
  AdapterNone | AdapterPathTranslation | AdapterSSEToStreamableHTTP | AdapterOther string

datatype identity_context_mode = ModeUnset | ModeNone | ModeSignedHeaders | ModeOther string

definition ModeNormalized :: "identity_context_mode \<Rightarrow> identity_context_mode" where
  "ModeNormalized m = (if m = ModeUnset then ModeNone else m)"

definition ModeEnabled :: "identity_context_mode \<Rightarrow> bool" where
  "ModeEnabled m = (ModeNormalized m \<noteq> ModeNone)"

lemma ModeNormalized_idem [simp]: "ModeNormalized (ModeNormalized m) = ModeNormalized m"
  by (simp add: ModeNormalized_def)

lemma ModeEnabled_normalized [simp]: "ModeEnabled (ModeNormalized m) = ModeEnabled m"
  by (simp add: ModeEnabled_def)

datatype capability_risk = RiskRead | RiskWrite | RiskAdmin | RiskSensitive | RiskOther string

datatype default_capability_policy =
  DefaultAllowWithServiceGrant | DefaultRequireExplicitGrant | DefaultDeny | DefaultOther string

record secret_definition =
  SecretKey :: string
  SecretRequired :: bool

record service_capability =
  CapType :: capability_type
  CapName :: string
  CapScope :: string
  CapRisk :: capability_risk
  CapPolicy :: default_capability_policy

record catalog_entry =
  ServiceID :: string
  DisplayName :: string
  UpstreamServiceName :: string
  TransportType :: transport_type
  InternalPort :: int
  PublicPath :: string
  InternalUpstreamPath :: string
  HealthPath :: string
  HealthProbeExpectation :: string
  ResourceProfile :: string
  PersistencePolicy :: string
  AdapterRequirement :: adapter_requirement
  SecretContract :: "secret_definition list"
  IdentityContext :: identity_context_mode
  Capabilities :: "service_capability list"

definition DefaultCatalogV1 :: "catalog_entry list" where
  "DefaultCatalogV1 = []"

section \<open>Tenants and subjects\<close>

datatype tenant_desired_state = DesiredEnabled | DesiredDisabled | DesiredDeleted | DesiredOther string

datatype tenant_runtime_state =
    RuntimeProvisioning | RuntimeReady | RuntimeDegraded | RuntimeDisabled | RuntimeDeleting
  | RuntimeOther string

definition BuildTenantInstanceName :: "string \<Rightarrow> string \<Rightarrow> string" where
  "BuildTenantInstanceName serviceID subjectKey = ''mcp-'' @ serviceID @ ''-'' @ subjectKey"

definition BuildTenantSecretPath :: "string \<Rightarrow> string \<Rightarrow> string \<Rightarrow> string" where
  "BuildTenantSecretPath subjectKey serviceID secretKey =
     ''/subjects/'' @ subjectKey @ ''/services/'' @ serviceID @ ''/'' @ secretKey"

text \<open>\<^verbatim>\<open>DeriveSubjectKey\<close>, with the hexadecimal SHA-256 digest as a parameter.\<close>

definition DeriveSubjectKey :: "(string \<Rightarrow> string) \<Rightarrow> string \<Rightarrow> string" where
  "DeriveSubjectKey sha256_hex sub = ''u-'' @ take 16 (sha256_hex sub)"

lemma BuildTenantSecretPath_inject:
  assumes "CHR ''/'' \<notin> set k" "CHR ''/'' \<notin> set k'" "CHR ''/'' \<notin> set s" "CHR ''/'' \<notin> set s'"
    "BuildTenantSecretPath k s x = BuildTenantSecretPath k' s' x'"
  shows "k = k' \<and> s = s' \<and> x = x'"
proof -
  have "k @ CHR ''/'' # (''services/'' @ s @ CHR ''/'' # x)
      = k' @ CHR ''/'' # (''services/'' @ s' @ CHR ''/'' # x')"
    using assms(5) by (simp add: BuildTenantSecretPath_def)
  from sep_injective[OF assms(1,2) this] have k: "k = k'"
    and "s @ CHR ''/'' # x = s' @ CHR ''/'' # x'" by auto
  with sep_injective[OF assms(3,4)] show ?thesis by blast
qed

lemma BuildTenantInstanceName_inject:
  assumes "length k = 18" "length k' = 18"
    "BuildTenantInstanceName s k = BuildTenantInstanceName s' k'"
  shows "s = s' \<and> k = k'"
proof -
  have "(s @ ''-'') @ k = (s' @ ''-'') @ k'" using assms(3) by (simp add: BuildTenantInstanceName_def)
  then show ?thesis using assms(1,2) by (metis append_eq_append_conv same_append_eq append_same_eq)
qed

end
