(* ===== verification/CatalogCache.thy ===== *)
theory CatalogCache
  imports Catalog
begin

text \<open>
  The edge's catalog cache (\<^verbatim>\<open>internal/edge/catalog_cache.go\<close>): building and checking a snapshot
  from the rows of the store, matching a request path against the public paths, and the refresh
  that keeps the last good snapshot.
\<close>

section \<open>Paths\<close>

definition slash :: char where
  "slash = CHR 0x2F"

definition path_under :: "string \<Rightarrow> string \<Rightarrow> bool" where
  "path_under path base = (path = base \<or> has_prefix path (base @ [slash]))"

definition reserved_roots :: "string list" where
  "reserved_roots =
     [''/health'', ''/health/live'', ''/health/ready'', ''/auth'', ''/oauth'', ''/.well-known'']"

definition publicPathReserved :: "string \<Rightarrow> bool" where
  "publicPathReserved publicPath = list_ex (path_under publicPath) reserved_roots"

definition clean_path :: "string \<Rightarrow> string" where
  "clean_path p = trim_right slash (trim_space p)"

section \<open>Snapshots\<close>

record snapshot =
  entries :: "catalog_entry list"
  byServiceID :: "string \<rightharpoonup> catalog_entry"
  publicPaths :: "string list"
  byPublicPath :: "string \<rightharpoonup> catalog_entry"
  scopes :: "string list"
  loadedAt :: time

definition empty_snapshot :: "time \<Rightarrow> snapshot" where
  "empty_snapshot t =
     \<lparr>entries = [], byServiceID = Map.empty, publicPaths = [], byPublicPath = Map.empty,
      scopes = [], loadedAt = t\<rparr>"

text \<open>The body of the loop over the rows.\<close>

definition add_entry :: "snapshot \<Rightarrow> catalog_entry \<Rightarrow> (go_error, snapshot) result" where
  "add_entry s entry =
     (let serviceID = trim_space (ServiceID entry); publicPath = clean_path (PublicPath entry) in
      if serviceID = [] then Inl (Errorf ''service catalog entry has empty service_id'')
      else if \<not> service_id_ok serviceID
      then Inl (Errorf ''service catalog entry has invalid service_id'')
      else if byServiceID s serviceID \<noteq> None
      then Inl (Errorf ''duplicate service catalog service_id'')
      else if publicPath = [] \<or> \<not> has_prefix publicPath [slash]
      then Inl (Errorf ''service has invalid public path'')
      else if publicPathReserved publicPath
      then Inl (Errorf ''service public path conflicts with a reserved edge route'')
      else if byPublicPath s publicPath \<noteq> None
      then Inl (Errorf ''duplicate service catalog public path'')
      else let e = entry\<lparr>ServiceID := serviceID, PublicPath := publicPath\<rparr> in
        Inr (s\<lparr>entries := entries s @ [e],
               byServiceID := (byServiceID s)(serviceID \<mapsto> e),
               byPublicPath := (byPublicPath s)(publicPath \<mapsto> e),
               publicPaths := publicPaths s @ [publicPath],
               scopes := scopes s @ [mcp_prefix @ serviceID]\<rparr>))"

fun add_entries :: "snapshot \<Rightarrow> catalog_entry list \<Rightarrow> (go_error, snapshot) result" where
  "add_entries s [] = Inr s"
| "add_entries s (e # es) = bind_result (add_entry s e) (\<lambda>s'. add_entries s' es)"

text \<open>
  Go's \<^verbatim>\<open>slices.SortFunc\<close> leaves the order of paths of equal length open; the model takes the
  stable one, and \<^verbatim>\<open>match_any_order\<close> below shows that no lookup depends on the choice.
\<close>

definition newCatalogSnapshot :: "catalog_entry list \<Rightarrow> time \<Rightarrow> (go_error, snapshot) result" where
  "newCatalogSnapshot es t =
     bind_result (add_entries (empty_snapshot t) es) (\<lambda>s.
       Inr (s\<lparr>publicPaths := sort_key (\<lambda>p. - int (length p)) (publicPaths s),
              scopes := sort (scopes s)\<rparr>))"

definition snapshot_ServiceByID :: "snapshot \<Rightarrow> string \<Rightarrow> catalog_entry option" where
  "snapshot_ServiceByID s serviceID = byServiceID s serviceID"

definition snapshot_MatchPublicPath :: "snapshot \<Rightarrow> string \<Rightarrow> catalog_entry option" where
  "snapshot_MatchPublicPath s path =
     (case find (path_under path) (publicPaths s) of
        None \<Rightarrow> None
      | Some p \<Rightarrow> byPublicPath s p)"

section \<open>What a snapshot satisfies\<close>

definition entry_valid :: "catalog_entry \<Rightarrow> bool" where
  "entry_valid e =
     (service_id_ok (ServiceID e) \<and> has_prefix (PublicPath e) [slash]
      \<and> trim_right slash (PublicPath e) = PublicPath e
      \<and> \<not> publicPathReserved (PublicPath e))"

definition snapshot_ok :: "snapshot \<Rightarrow> bool" where
  "snapshot_ok s =
     (list_all entry_valid (entries s)
      \<and> distinct (map ServiceID (entries s)) \<and> distinct (map PublicPath (entries s))
      \<and> byServiceID s = map_of (map (\<lambda>e. (ServiceID e, e)) (entries s))
      \<and> byPublicPath s = map_of (map (\<lambda>e. (PublicPath e, e)) (entries s))
      \<and> mset (publicPaths s) = mset (map PublicPath (entries s))
      \<and> mset (scopes s) = mset (map (\<lambda>e. mcp_prefix @ ServiceID e) (entries s)))"

lemma snapshot_ok_empty: "snapshot_ok (empty_snapshot t)"
  by (simp add: snapshot_ok_def empty_snapshot_def)

lemma map_add_new_key: "m k = None \<Longrightarrow> [k \<mapsto> e] ++ m = m(k \<mapsto> e)"
  by (auto simp: map_add_def fun_eq_iff split: option.splits)

lemma map_of_None_keys: "map_of (map (\<lambda>e. (f e, e)) es) k = None \<longleftrightarrow> k \<notin> f ` set es"
  by (force simp: map_of_eq_None_iff)

lemma add_entry_ok:
  assumes "snapshot_ok s" "add_entry s e = Inr s'"
  shows "snapshot_ok s'"
  using assms
  by (auto simp: add_entry_def snapshot_ok_def Let_def entry_valid_def clean_path_def
      map_add_new_key map_of_None_keys image_iff split: if_splits)

lemma add_entries_ok: "snapshot_ok s \<Longrightarrow> add_entries s es = Inr s' \<Longrightarrow> snapshot_ok s'"
  by (induction es arbitrary: s) (auto simp: result_simps dest: add_entry_ok)

lemma newCatalogSnapshot_ok:
  assumes "newCatalogSnapshot es t = Inr s"
  shows "snapshot_ok s \<and> sorted (map (\<lambda>p. - int (length p)) (publicPaths s)) \<and> sorted (scopes s)"
  using assms add_entries_ok[OF snapshot_ok_empty]
  by (force simp: newCatalogSnapshot_def result_simps snapshot_ok_def)

text \<open>The exact condition under which a list of rows is accepted, and what is then stored.\<close>

definition clean_entry :: "catalog_entry \<Rightarrow> catalog_entry" where
  "clean_entry e = e\<lparr>ServiceID := trim_space (ServiceID e), PublicPath := clean_path (PublicPath e)\<rparr>"

lemma add_entry_iff:
  assumes "snapshot_ok s"
  shows "(\<exists>s'. add_entry s e = Inr s') \<longleftrightarrow>
    entry_valid (clean_entry e) \<and> ServiceID (clean_entry e) \<notin> ServiceID ` set (entries s)
    \<and> PublicPath (clean_entry e) \<notin> PublicPath ` set (entries s)"
  using assms
  by (auto simp: add_entry_def Let_def snapshot_ok_def clean_entry_def entry_valid_def clean_path_def
      map_of_None_keys[symmetric] service_id_nonempty dest: service_id_nonempty
      split: if_splits)

lemma add_entry_entries: "add_entry s e = Inr s' \<Longrightarrow> entries s' = entries s @ [clean_entry e]"
  by (auto simp: add_entry_def Let_def clean_entry_def split: if_splits)

lemma add_entry_loadedAt: "add_entry s e = Inr s' \<Longrightarrow> loadedAt s' = loadedAt s"
  by (auto simp: add_entry_def Let_def split: if_splits)

lemma add_entries_iff:
  assumes "snapshot_ok s"
  shows "(\<exists>s'. add_entries s es = Inr s') \<longleftrightarrow>
    list_all entry_valid (map clean_entry es)
    \<and> distinct (map ServiceID (entries s @ map clean_entry es))
    \<and> distinct (map PublicPath (entries s @ map clean_entry es))"
  using assms
proof (induction es arbitrary: s)
  case Nil
  then show ?case by (simp add: snapshot_ok_def)
next
  case (Cons e es)
  show ?case
  proof (cases "add_entry s e")
    case (Inl err)
    then have "\<not> (\<exists>s'. add_entry s e = Inr s')" by simp
    then show ?thesis using Inl unfolding add_entry_iff[OF Cons.prems] by auto
  next
    case (Inr s')
    then show ?thesis
      using Cons.IH[OF add_entry_ok[OF Cons.prems Inr]] add_entry_iff[OF Cons.prems, of e]
      by (auto simp: add_entry_entries[OF Inr])
  qed
qed

lemma add_entries_entries:
  "add_entries s es = Inr s' \<Longrightarrow>
   entries s' = entries s @ map clean_entry es \<and> loadedAt s' = loadedAt s"
  by (induction es arbitrary: s) (auto simp: result_simps add_entry_entries add_entry_loadedAt)

lemma newCatalogSnapshot_iff:
  "(\<exists>s. newCatalogSnapshot es t = Inr s) \<longleftrightarrow>
    list_all entry_valid (map clean_entry es)
    \<and> distinct (map ServiceID (map clean_entry es)) \<and> distinct (map PublicPath (map clean_entry es))"
  using add_entries_iff[OF snapshot_ok_empty, of t es]
  by (simp add: newCatalogSnapshot_def result_simps) (simp add: empty_snapshot_def)

lemma newCatalogSnapshot_entries:
  "newCatalogSnapshot es t = Inr s \<Longrightarrow> entries s = map clean_entry es \<and> loadedAt s = t"
  by (auto simp: newCatalogSnapshot_def result_simps empty_snapshot_def dest!: add_entries_entries)

section \<open>Lookups\<close>

lemma snapshot_paths: "snapshot_ok s \<Longrightarrow> set (publicPaths s) = PublicPath ` set (entries s)"
  by (metis snapshot_ok_def set_mset_mset set_map)

lemma byPublicPath_iff:
  assumes "snapshot_ok s"
  shows "byPublicPath s p = Some e \<longleftrightarrow> e \<in> set (entries s) \<and> PublicPath e = p"
proof -
  have "distinct (map fst (map (\<lambda>e. (PublicPath e, e)) (entries s)))"
    using assms by (simp add: snapshot_ok_def comp_def)
  then show ?thesis using assms by (auto simp: snapshot_ok_def)
qed

lemma byServiceID_iff:
  assumes "snapshot_ok s"
  shows "byServiceID s i = Some e \<longleftrightarrow> e \<in> set (entries s) \<and> ServiceID e = i"
proof -
  have "distinct (map fst (map (\<lambda>e. (ServiceID e, e)) (entries s)))"
    using assms by (simp add: snapshot_ok_def comp_def)
  then show ?thesis using assms by (auto simp: snapshot_ok_def)
qed

lemma path_under_prefix: "path_under path p \<Longrightarrow> prefix p path"
  by (auto simp: path_under_def dest: append_prefixD)

lemma path_under_same_length:
  assumes "path_under path p" "path_under path q" "length p = length q"
  shows "p = q"
  using path_under_prefix[OF assms(1)] path_under_prefix[OF assms(2)] assms(3)
  by (metis append_eq_conv_conj prefix_def)

text \<open>The first match in any list ordered by falling length is the longest match.\<close>

lemma find_longest:
  assumes "sorted (map (\<lambda>p. - int (length p)) ps)" "find P ps = Some p"
  shows "p \<in> set ps \<and> P p \<and> (\<forall>q \<in> set ps. P q \<longrightarrow> length q \<le> length p)"
  using assms by (induction ps) (auto split: if_splits)

definition best_match :: "snapshot \<Rightarrow> string \<Rightarrow> catalog_entry \<Rightarrow> bool" where
  "best_match s path e =
     (e \<in> set (entries s) \<and> path_under path (PublicPath e)
      \<and> list_all (\<lambda>e'. path_under path (PublicPath e') \<longrightarrow>
           length (PublicPath e') \<le> length (PublicPath e)) (entries s))"

lemma best_match_unique:
  assumes "snapshot_ok s" "best_match s path e" "best_match s path e'"
  shows "e = e'"
proof -
  have "length (PublicPath e) = length (PublicPath e')"
    using assms(2,3) by (auto simp: best_match_def list_all_iff intro: order_antisym)
  then have "PublicPath e = PublicPath e'"
    using assms(2,3) path_under_same_length by (auto simp: best_match_def)
  then show ?thesis
    using assms byPublicPath_iff[OF assms(1)] by (metis best_match_def option.inject)
qed

lemma match_any_order:
  assumes ok: "snapshot_ok s" and ps: "mset ps = mset (publicPaths s)"
    and sorted: "sorted (map (\<lambda>p. - int (length p)) ps)"
  shows "(case find (path_under path) ps of None \<Rightarrow> None | Some p \<Rightarrow> byPublicPath s p) = Some e
    \<longleftrightarrow> best_match s path e"
proof -
  have set: "set ps = PublicPath ` set (entries s)"
    using ps snapshot_paths[OF ok] by (metis set_mset_mset)
  show ?thesis
  proof
    assume "(case find (path_under path) ps of None \<Rightarrow> None | Some p \<Rightarrow> byPublicPath s p) = Some e"
    then obtain p where p: "find (path_under path) ps = Some p" "byPublicPath s p = Some e"
      by (auto split: option.splits)
    then show "best_match s path e"
      using find_longest[OF sorted p(1)] byPublicPath_iff[OF ok] set
      by (auto simp: best_match_def list_all_iff)
  next
    assume best: "best_match s path e"
    then obtain p where p: "find (path_under path) ps = Some p"
      using set by (cases "find (path_under path) ps") (auto simp: best_match_def find_None_iff)
    then obtain e' where e': "e' \<in> set (entries s)" "PublicPath e' = p"
      using find_longest[OF sorted p] set by auto
    then have "best_match s path e'"
      using find_longest[OF sorted p] set by (auto simp: best_match_def list_all_iff)
    then have "e' = e" using best_match_unique[OF ok _ best] by blast
    then show "(case find (path_under path) ps of None \<Rightarrow> None | Some p \<Rightarrow> byPublicPath s p) = Some e"
      using p e' byPublicPath_iff[OF ok] by auto
  qed
qed

lemma match_best:
  assumes "newCatalogSnapshot es t = Inr s"
  shows "snapshot_MatchPublicPath s path = Some e \<longleftrightarrow> best_match s path e"
  unfolding snapshot_MatchPublicPath_def
  using match_any_order[of s "publicPaths s"] newCatalogSnapshot_ok[OF assms] by blast

lemma match_none:
  assumes "newCatalogSnapshot es t = Inr s"
  shows "snapshot_MatchPublicPath s path = None \<longleftrightarrow>
    (\<forall>e \<in> set (entries s). \<not> path_under path (PublicPath e))"
proof -
  have ok: "snapshot_ok s" using newCatalogSnapshot_ok[OF assms] by blast
  have "byPublicPath s p \<noteq> None" if "p \<in> set (publicPaths s)" for p
    using that byPublicPath_iff[OF ok] snapshot_paths[OF ok] by fastforce
  then have "snapshot_MatchPublicPath s path = None \<longleftrightarrow> find (path_under path) (publicPaths s) = None"
    using find_first[of "path_under path" "publicPaths s"]
    by (auto simp: snapshot_MatchPublicPath_def split: option.splits)
  then show ?thesis using snapshot_paths[OF ok] by (auto simp: find_None_iff)
qed

subsection \<open>Reserved routes\<close>

lemma segment_prefix:
  assumes "path_under path p" "path_under path (slash # r)" "slash \<notin> set r" "has_prefix p [slash]"
    "last p \<noteq> slash"
  shows "path_under p (slash # r)"
proof -
  let ?r = "slash # r"
  have "prefix (p @ [slash]) (path @ [slash])" "prefix (?r @ [slash]) (path @ [slash])"
    using assms(1,2) by (auto simp: path_under_def)
  then have "prefix (p @ [slash]) (?r @ [slash]) \<or> prefix (?r @ [slash]) (p @ [slash])"
    using prefix_same_cases by blast
  then show ?thesis
  proof
    assume pr: "prefix (p @ [slash]) (?r @ [slash])"
    obtain q where q: "p = slash # q" using assms(4) by (cases p) auto
    from pr q have "prefix (q @ [slash]) (r @ [slash])" by simp
    then have "q = r"
      using assms(3) by (metis append_prefixD last_snoc list.distinct(1) prefix_order.eq_iff
        prefix_snoc set_mono_prefix last_in_set subsetD snoc_eq_iff_butlast)
    then show ?thesis using q by (simp add: path_under_def)
  next
    assume "prefix (?r @ [slash]) (p @ [slash])"
    then show ?thesis by (auto simp: path_under_def prefix_snoc)
  qed
qed

lemma reserved_by_segment:
  "publicPathReserved p \<longleftrightarrow> path_under p ''/health'' \<or> path_under p ''/auth''
     \<or> path_under p ''/oauth'' \<or> path_under p ''/.well-known''"
proof -
  have "path_under p ''/health/live'' \<Longrightarrow> path_under p ''/health''"
    "path_under p ''/health/ready'' \<Longrightarrow> path_under p ''/health''"
    by (auto simp: path_under_def slash_def prefix_def)
  then show ?thesis by (auto simp: publicPathReserved_def reserved_roots_def)
qed

lemma reserved_not_valid:
  assumes "publicPathReserved path" "path_under path p" "has_prefix p [slash]" "last p \<noteq> slash"
  shows "publicPathReserved p"
proof -
  have "path_under p (slash # r)" if "path_under path (slash # r)" "slash \<notin> set r" for r
    using segment_prefix[OF assms(2) that assms(3,4)] .
  from this[of "''health''"] this[of "''auth''"] this[of "''oauth''"] this[of "''.well-known''"]
  show ?thesis using assms(1) by (auto simp: reserved_by_segment slash_def)
qed

lemma valid_path_last: "entry_valid e \<Longrightarrow> PublicPath e \<noteq> [] \<and> last (PublicPath e) \<noteq> slash"
  by (auto simp: entry_valid_def) (metis list.distinct(1) prefix_Nil trim_right_no_suffix)

lemma reserved_unmatched:
  assumes "newCatalogSnapshot es t = Inr s" "publicPathReserved path"
  shows "snapshot_MatchPublicPath s path = None"
  unfolding match_none[OF assms(1)]
proof
  fix e assume "e \<in> set (entries s)"
  then have "entry_valid e"
    using newCatalogSnapshot_ok[OF assms(1)] by (auto simp: snapshot_ok_def list_all_iff)
  then show "\<not> path_under path (PublicPath e)"
    using reserved_not_valid[OF assms(2)] valid_path_last by (auto simp: entry_valid_def)
qed

section \<open>The cache\<close>

record catalog_cache =
  current :: "snapshot option"
  lastError :: "string option"

definition NewCatalogCache :: catalog_cache where
  "NewCatalogCache = \<lparr>current = None, lastError = None\<rparr>"

text \<open>
  \<^verbatim>\<open>Refresh\<close>: the answer of the store's query and the time are arguments, the rendering of an
  error is a parameter.  The new state is returned with the error, if any.
\<close>

definition Refresh :: "(go_error \<Rightarrow> string) \<Rightarrow> catalog_cache \<Rightarrow> (go_error, catalog_entry list) result
    \<Rightarrow> time \<Rightarrow> catalog_cache \<times> go_error option" where
  "Refresh render c rows now =
     (case rows of
        Inl err \<Rightarrow> (c\<lparr>lastError := Some (render err)\<rparr>, Some err)
      | Inr es \<Rightarrow>
          (case newCatalogSnapshot es now of
             Inl err \<Rightarrow> (c\<lparr>lastError := Some (render err)\<rparr>, Some err)
           | Inr s \<Rightarrow> (c\<lparr>current := Some s, lastError := Some []\<rparr>, None)))"

text \<open>The refresh loop, as the sequence of what the ticks find in the store.\<close>

fun RunRefreshLoop :: "(go_error \<Rightarrow> string) \<Rightarrow> catalog_cache
    \<Rightarrow> ((go_error, catalog_entry list) result \<times> time) list \<Rightarrow> catalog_cache" where
  "RunRefreshLoop render c [] = c"
| "RunRefreshLoop render c ((rows, now) # ticks) =
     RunRefreshLoop render (fst (Refresh render c rows now)) ticks"

definition refresh_interval :: "duration \<Rightarrow> duration" where
  "refresh_interval d = (if d \<le> 0 then 15 * second else d)"

definition cache_Len :: "catalog_cache \<Rightarrow> nat" where
  "cache_Len c = (case current c of Some s \<Rightarrow> length (entries s) | None \<Rightarrow> 0)"

definition cache_LastError :: "catalog_cache \<Rightarrow> string" where
  "cache_LastError c = (case lastError c of Some m \<Rightarrow> m | None \<Rightarrow> [])"

definition cache_LoadedAt :: "catalog_cache \<Rightarrow> time option" where
  "cache_LoadedAt c = map_option loadedAt (current c)"

definition cache_ServiceByID :: "catalog_cache \<Rightarrow> string \<Rightarrow> catalog_entry option" where
  "cache_ServiceByID c i =
     (case current c of Some s \<Rightarrow> snapshot_ServiceByID s i | None \<Rightarrow> None)"

definition cache_MatchPublicPath :: "catalog_cache \<Rightarrow> string \<Rightarrow> catalog_entry option" where
  "cache_MatchPublicPath c path =
     (case current c of Some s \<Rightarrow> snapshot_MatchPublicPath s path | None \<Rightarrow> None)"

definition cache_Scopes :: "catalog_cache \<Rightarrow> string list" where
  "cache_Scopes c = (case current c of Some s \<Rightarrow> scopes s | None \<Rightarrow> [])"

text \<open>A cache whose snapshot, if there is one, was accepted by \<^const>\<open>newCatalogSnapshot\<close>.\<close>

definition cache_ok :: "catalog_cache \<Rightarrow> bool" where
  "cache_ok c = (\<forall>s. current c = Some s \<longrightarrow> (\<exists>es t. newCatalogSnapshot es t = Inr s))"

lemma cache_ok_new: "cache_ok NewCatalogCache"
  by (simp add: cache_ok_def NewCatalogCache_def)

lemma cache_ok_Refresh: "cache_ok c \<Longrightarrow> cache_ok (fst (Refresh render c rows now))"
  by (auto simp: cache_ok_def Refresh_def split: sum.splits)

lemma cache_ok_loop: "cache_ok c \<Longrightarrow> cache_ok (RunRefreshLoop render c ticks)"
  by (induction render c ticks rule: RunRefreshLoop.induct) (auto simp: cache_ok_Refresh)

lemma Refresh_failed:
  "snd (Refresh render c rows now) = Some err \<Longrightarrow>
   current (fst (Refresh render c rows now)) = current c
   \<and> cache_LastError (fst (Refresh render c rows now)) = render err"
  by (auto simp: Refresh_def cache_LastError_def split: sum.splits)

lemma Refresh_succeeded:
  "snd (Refresh render c rows now) = None \<Longrightarrow>
   \<exists>es s. rows = Inr es \<and> newCatalogSnapshot es now = Inr s
     \<and> current (fst (Refresh render c rows now)) = Some s
     \<and> cache_LastError (fst (Refresh render c rows now)) = []"
  by (auto simp: Refresh_def cache_LastError_def split: sum.splits)

lemma loop_keeps_last_good:
  assumes "\<forall>(rows, now) \<in> set ticks. \<not> (\<exists>es s. rows = Inr es \<and> newCatalogSnapshot es now = Inr s)"
  shows "current (RunRefreshLoop render c ticks) = current c"
  using assms
  by (induction render c ticks rule: RunRefreshLoop.induct) (auto simp: Refresh_def split: sum.splits)

end
