(* ===== verification/Directory.thy ===== *)
theory Directory
  imports CatalogCache
begin

text \<open>
  The service directory (\<^verbatim>\<open>internal/edge/service_directory.go\<close>): from a service identifier, a path, a
  scope or a resource indicator to the canonical URLs of a service.  The directory and its
  catalog may both be nil pointers; \<^verbatim>\<open>None\<close> stands for nil.
\<close>

record service_directory =
  publicBaseURL :: string
  dir_catalog :: "catalog_cache option"

record service_resolution =
  rService :: catalog_entry
  rServiceID :: string
  rScope :: string
  rResource :: string
  rPublicURL :: string
  rProtectedResourceMetadataURL :: string
  rAuthorizationServerIssuer :: string
  rAuthorizationEndpoint :: string
  rDeviceAuthorizationEndpoint :: string
  rRegistrationEndpoint :: string

definition NewServiceDirectory :: "string \<Rightarrow> catalog_cache option \<Rightarrow> service_directory" where
  "NewServiceDirectory base c =
     \<lparr>publicBaseURL = trim_right slash (trim_space base), dir_catalog = c\<rparr>"

definition resolve :: "service_directory \<Rightarrow> catalog_entry \<Rightarrow> service_resolution" where
  "resolve d service =
     (let serviceID = trim_space (ServiceID service);
          base = publicBaseURL d;
          publicURL = base @ PublicPath service
      in \<lparr>rService = service, rServiceID = serviceID, rScope = mcp_prefix @ serviceID,
          rResource = publicURL, rPublicURL = publicURL,
          rProtectedResourceMetadataURL = base @ ''/.well-known/oauth-protected-resource/'' @ serviceID,
          rAuthorizationServerIssuer = base @ ''/'' @ trim_both slash serviceID,
          rAuthorizationEndpoint = base @ ''/oauth/authorize/'' @ serviceID,
          rDeviceAuthorizationEndpoint = base @ ''/oauth/device_authorization/'' @ serviceID,
          rRegistrationEndpoint = base @ ''/oauth/register/'' @ serviceID\<rparr>)"

definition with_catalog :: "service_directory option \<Rightarrow> (service_directory \<times> catalog_cache) option" where
  "with_catalog d =
     (case d of None \<Rightarrow> None | Some d' \<Rightarrow> map_option (\<lambda>c. (d', c)) (dir_catalog d'))"

definition ResolveByID :: "service_directory option \<Rightarrow> string \<Rightarrow> service_resolution option" where
  "ResolveByID d serviceID =
     (case with_catalog d of
        None \<Rightarrow> None
      | Some (d', c) \<Rightarrow> map_option (resolve d') (cache_ServiceByID c (trim_space serviceID)))"

definition ResolveByPublicPath :: "service_directory option \<Rightarrow> string \<Rightarrow> service_resolution option" where
  "ResolveByPublicPath d path =
     (case with_catalog d of
        None \<Rightarrow> None
      | Some (d', c) \<Rightarrow> map_option (resolve d') (cache_MatchPublicPath c path))"

text \<open>
  \<^verbatim>\<open>ResolveWellKnownRef\<close> returns the resolution, whether the path names a service at all, and an
  error; the resolution is meaningful only with a true flag and no error.
\<close>

definition not_registered :: go_error where
  "not_registered = Errorf ''requested service is not registered''"

definition ResolveWellKnownRef :: "service_directory option \<Rightarrow> string \<Rightarrow> string
    \<Rightarrow> bool \<times> (go_error, service_resolution option) result" where
  "ResolveWellKnownRef d path pre =
     (if path = pre then (False, Inr None)
      else if \<not> has_prefix path (pre @ [slash])
      then (False, Inl (Errorf ''unsupported service-scoped path''))
      else let serviceRef = trim_both slash (trim_prefix path (pre @ [slash])) in
        if serviceRef = [] then (True, Inl not_registered)
        else case (if contains_char serviceRef slash then None else ResolveByID d serviceRef) of
            Some r \<Rightarrow> (True, Inr (Some r))
          | None \<Rightarrow>
              (case ResolveByPublicPath d (slash # serviceRef) of
                 Some r \<Rightarrow> (True, Inr (Some r))
               | None \<Rightarrow> (True, Inl not_registered)))"

definition one_scope_required :: go_error where
  "one_scope_required = Errorf ''exactly one mcp:<service> scope is required''"

fun single_service_loop :: "string \<Rightarrow> string list \<Rightarrow> (go_error, string) result" where
  "single_service_loop serviceID [] = Inr serviceID"
| "single_service_loop serviceID (entry # rest) =
     (if \<not> has_prefix entry mcp_prefix then single_service_loop serviceID rest
      else if serviceID \<noteq> [] then Inl one_scope_required
      else single_service_loop (trim_prefix entry mcp_prefix) rest)"

definition singleServiceFromScope :: "string \<Rightarrow> (go_error, string) result" where
  "singleServiceFromScope scope =
     bind_result (single_service_loop [] (go_fields scope)) (\<lambda>sid.
       if sid = [] then Inl one_scope_required else Inr sid)"

definition ResolveScope :: "service_directory option \<Rightarrow> string \<Rightarrow> (go_error, service_resolution) result" where
  "ResolveScope d scope =
     bind_result (singleServiceFromScope scope) (\<lambda>sid.
       case ResolveByID d sid of
         None \<Rightarrow> Inl (Errorf ''requested resource scope is not supported'')
       | Some r \<Rightarrow> Inr r)"

definition ResolveResource :: "service_directory option \<Rightarrow> string \<Rightarrow> (go_error, service_resolution) result" where
  "ResolveResource d resource =
     (let res = trim_right slash (trim_space resource) in
      if res = [] then Inl (Errorf ''resource indicator is required'')
      else case with_catalog d of
          None \<Rightarrow> Inl (Errorf ''service catalog is unavailable'')
        | Some (d', c) \<Rightarrow>
            (case (case current c of
                     None \<Rightarrow> None
                   | Some s \<Rightarrow> find (\<lambda>service. res = rResource (resolve d' service)) (entries s)) of
               Some service \<Rightarrow> Inr (resolve d' service)
             | None \<Rightarrow> Inl (Errorf ''resource indicator is not registered on this edge'')))"

definition directory_Scopes :: "service_directory option \<Rightarrow> string list" where
  "directory_Scopes d = (case with_catalog d of None \<Rightarrow> [] | Some (_, c) \<Rightarrow> cache_Scopes c)"

section \<open>What a resolution is\<close>

text \<open>The entries a directory knows.\<close>

definition directory_entries :: "service_directory option \<Rightarrow> catalog_entry list" where
  "directory_entries d =
     (case with_catalog d of
        None \<Rightarrow> []
      | Some (_, c) \<Rightarrow> (case current c of None \<Rightarrow> [] | Some s \<Rightarrow> entries s))"

definition directory_ok :: "service_directory option \<Rightarrow> bool" where
  "directory_ok d =
     (case with_catalog d of None \<Rightarrow> True | Some (d', c) \<Rightarrow>
        (\<forall>s. current c = Some s \<longrightarrow> snapshot_ok s))"

lemma directory_ok_cache: "cache_ok c \<Longrightarrow> directory_ok (Some (NewServiceDirectory base (Some c)))"
  using newCatalogSnapshot_ok
  by (fastforce simp: directory_ok_def with_catalog_def NewServiceDirectory_def cache_ok_def)

lemma in_directory_iff:
  "e \<in> set (directory_entries d) \<longleftrightarrow>
   (\<exists>d' c s. with_catalog d = Some (d', c) \<and> current c = Some s \<and> e \<in> set (entries s))"
proof (cases "with_catalog d")
  case (Some p)
  then show ?thesis by (cases p, cases "current (snd p)") (auto simp: directory_entries_def)
qed (simp add: directory_entries_def)

lemma with_catalog_dir: "with_catalog (Some d) = Some (d', c) \<Longrightarrow> d' = d"
  by (auto simp: with_catalog_def)

lemma in_directoryE:
  assumes "e \<in> set (directory_entries (Some d))"
  obtains c s where "with_catalog (Some d) = Some (d, c)" "current c = Some s"
    "directory_entries (Some d) = entries s"
proof (cases "dir_catalog d")
  case None
  then show ?thesis using assms by (simp add: directory_entries_def with_catalog_def)
next
  case (Some c)
  then show ?thesis
    using assms that by (cases "current c") (auto simp: directory_entries_def with_catalog_def)
qed

lemma directory_entry_valid:
  "directory_ok d \<Longrightarrow> e \<in> set (directory_entries d) \<Longrightarrow> entry_valid e"
  by (auto simp: in_directory_iff directory_ok_def snapshot_ok_def list_all_iff)

lemma directory_entry_id:
  assumes "directory_ok d" "e \<in> set (directory_entries d)"
  shows "service_id_ok (ServiceID e)" "trim_space (ServiceID e) = ServiceID e"
  using directory_entry_valid[OF assms] by (auto simp: entry_valid_def service_id_trim)

lemma ResolveByID_iff:
  assumes "directory_ok d"
  shows "ResolveByID d i = Some r \<longleftrightarrow>
    (\<exists>d' e. d = Some d' \<and> e \<in> set (directory_entries d) \<and> ServiceID e = trim_space i \<and> r = resolve d' e)"
  using assms
  by (auto simp: ResolveByID_def directory_entries_def directory_ok_def with_catalog_def
      cache_ServiceByID_def snapshot_ServiceByID_def byServiceID_iff
      split: option.splits prod.splits)

lemma ResolveScope_of_service:
  assumes "directory_ok (Some d)" "e \<in> set (directory_entries (Some d))"
  shows "ResolveScope (Some d) (rScope (resolve d e)) = Inr (resolve d e)"
proof -
  note id = directory_entry_id[OF assms]
  have "go_fields (mcp_prefix @ ServiceID e) = [mcp_prefix @ ServiceID e]"
    by (rule go_fields_solid[OF mcp_scope_solid[OF id(1)]]) (simp add: mcp_prefix_def)
  then have "singleServiceFromScope (mcp_prefix @ ServiceID e) = Inr (ServiceID e)"
    by (simp add: singleServiceFromScope_def service_id_nonempty[OF id(1)])
  moreover have "ResolveByID (Some d) (ServiceID e) = Some (resolve d e)"
    using ResolveByID_iff[OF assms(1)] assms(2) id by auto
  moreover have "rScope (resolve d e) = mcp_prefix @ ServiceID e"
    by (simp add: resolve_def Let_def id)
  ultimately show ?thesis by (simp add: ResolveScope_def)
qed

lemma singleServiceFromScope_elem:
  assumes "singleServiceFromScope scope = Inr sid"
  shows "mcp_prefix @ sid \<in> set (go_fields scope)"
proof -
  have "single_service_loop acc es = Inr s \<Longrightarrow> s = acc \<or> mcp_prefix @ s \<in> set es" for acc es s
    by (induction acc es rule: single_service_loop.induct)
       (auto simp: trim_prefix_def prefix_def split: if_splits)
  from this[of "[]" "go_fields scope" sid] show ?thesis
    using assms by (auto simp: singleServiceFromScope_def result_simps split: if_splits)
qed

lemma ResolveResource_sound:
  assumes "ResolveResource d resource = Inr r"
  shows "\<exists>d' e. d = Some d' \<and> e \<in> set (directory_entries d) \<and> r = resolve d' e
    \<and> rResource r = trim_right slash (trim_space resource)"
  using assms
  by (auto simp: ResolveResource_def directory_entries_def with_catalog_def Let_def
      split: if_splits option.splits prod.splits dest!: find_first)

text \<open>Two services of one directory never share a resource, an identifier or a scope.\<close>

lemma resolution_inject:
  assumes "directory_ok (Some d)" "e \<in> set (directory_entries (Some d))"
    "e' \<in> set (directory_entries (Some d))"
  shows "rResource (resolve d e) = rResource (resolve d e') \<Longrightarrow> e = e'"
    and "rScope (resolve d e) = rScope (resolve d e') \<Longrightarrow> e = e'"
proof -
  obtain c s where s: "with_catalog (Some d) = Some (d, c)" "current c = Some s"
    "directory_entries (Some d) = entries s" by (rule in_directoryE[OF assms(2)])
  have ok: "snapshot_ok s" using assms(1) s by (simp add: directory_ok_def)
  have es: "e \<in> set (entries s)" "e' \<in> set (entries s)" using assms(2,3) s(3) by auto
  show "rResource (resolve d e) = rResource (resolve d e') \<Longrightarrow> e = e'"
    using es byPublicPath_iff[OF ok] by (auto simp: resolve_def Let_def) (metis option.inject)
  show "rScope (resolve d e) = rScope (resolve d e') \<Longrightarrow> e = e'"
    using es byServiceID_iff[OF ok] directory_entry_id(2)[OF assms(1,2)]
      directory_entry_id(2)[OF assms(1,3)]
    by (auto simp: resolve_def Let_def) (metis option.inject)
qed

lemma ResolveResource_of_service:
  assumes "directory_ok (Some d)" "e \<in> set (directory_entries (Some d))"
    "trim_right slash (trim_space (rResource (resolve d e))) = rResource (resolve d e)"
  shows "ResolveResource (Some d) (rResource (resolve d e)) = Inr (resolve d e)"
proof -
  obtain c s where s: "with_catalog (Some d) = Some (d, c)" "current c = Some s"
    "directory_entries (Some d) = entries s"
    by (rule in_directoryE[OF assms(2)])
  have "find (\<lambda>x. rResource (resolve d e) = rResource (resolve d x)) (entries s) = Some e"
    using assms resolution_inject(1)[OF assms(1)] s(3) by (intro find_unique) auto
  moreover have "rResource (resolve d e) \<noteq> []"
    using directory_entry_valid[OF assms(1,2)] by (auto simp: resolve_def Let_def entry_valid_def)
  ultimately show ?thesis using s assms(3) by (simp add: ResolveResource_def Let_def)
qed

end
