(* ===== verification/Ids.thy ===== *)
theory Ids
  imports Faults
begin

text \<open>
  Identifiers (\<^verbatim>\<open>internal/ids\<close>): 16-byte UUIDs of version 7, their validation, their canonical text
  form, and the construction of new and derived identifiers.  A UUID is the list of its 16 bytes
  (\<^verbatim>\<open>wf_uuid\<close>); the random bytes of \<^verbatim>\<open>New\<close> and the digest of \<^verbatim>\<open>DeriveV7\<close> come from parameters.
\<close>

unbundle bit_operations_syntax

type_synonym byte = "8 word"
type_synonym uuid = "byte list"

definition wf_uuid :: "uuid \<Rightarrow> bool" where
  "wf_uuid u = (length u = 16)"

definition zero_uuid :: uuid where
  "zero_uuid = replicate 16 0"

definition byte_char :: "byte \<Rightarrow> char" where
  "byte_char b = char_of (unat b)"

definition char_byte :: "char \<Rightarrow> byte" where
  "char_byte c = word_of_nat (of_char c)"

lemma char_byte_inverse [simp]: "byte_char (char_byte c) = c" "char_byte (byte_char b) = b"
proof -
  have lt: "(of_char c :: nat) < 256" for c :: char by (metis of_char_of nat_of_char_less_256)
  show "byte_char (char_byte c) = c"
    using lt[of c] by (simp add: byte_char_def char_byte_def unat_of_nat)
  have "unat b < 256" using unsigned_less[of b, where ?'a=nat] by simp
  then show "char_byte (byte_char b) = b"
    by (simp add: byte_char_def char_byte_def)
qed

section \<open>Validation\<close>

definition IsZero :: "uuid \<Rightarrow> bool" where
  "IsZero u = list_all (\<lambda>b. b = 0) u"

definition IsV7 :: "uuid \<Rightarrow> bool" where
  "IsV7 u = ((u ! 6) AND 0xf0 = 0x70 \<and> (u ! 8) AND 0xc0 = 0x80)"

definition Validate :: "uuid \<Rightarrow> go_error option" where
  "Validate u =
     (if IsZero u then Some (faults_New CodeValidationFailed ''uuid is required'')
      else if (u ! 6) AND 0xf0 \<noteq> 0x70
      then Some (faults_New CodeValidationFailed ''invalid uuid version'')
      else if (u ! 8) AND 0xc0 \<noteq> 0x80
      then Some (faults_New CodeValidationFailed ''invalid uuid variant'')
      else None)"

lemma zero_not_v7: "wf_uuid u \<Longrightarrow> IsZero u \<Longrightarrow> \<not> IsV7 u"
  by (auto simp: wf_uuid_def IsZero_def IsV7_def list_all_length)

lemma Validate_None_iff: "wf_uuid u \<Longrightarrow> Validate u = None \<longleftrightarrow> IsV7 u"
  using zero_not_v7 by (auto simp: Validate_def IsV7_def)

section \<open>Text form\<close>

definition hex_digit :: "byte \<Rightarrow> char" where
  "hex_digit b = ''0123456789abcdef'' ! unat b"

definition hex_byte :: "byte \<Rightarrow> string" where
  "hex_byte b = [hex_digit (drop_bit 4 b), hex_digit (b AND 0x0f)]"

definition hex_bytes :: "byte list \<Rightarrow> string" where
  "hex_bytes bs = concat (map hex_byte bs)"

definition encodeCanonical :: "uuid \<Rightarrow> string" where
  "encodeCanonical u =
     hex_bytes (take 4 u) @ ''-'' @ hex_bytes (take 2 (drop 4 u)) @ ''-''
     @ hex_bytes (take 2 (drop 6 u)) @ ''-'' @ hex_bytes (take 2 (drop 8 u)) @ ''-''
     @ hex_bytes (take 6 (drop 10 u))"

definition isCanonicalHex :: "char \<Rightarrow> bool" where
  "isCanonicalHex c =
     (let n = (of_char c :: nat) in (48 \<le> n \<and> n \<le> 57) \<or> (97 \<le> n \<and> n \<le> 102))"

text \<open>\<^verbatim>\<open>hex.DecodeString\<close> of the standard library: both cases of letters, an even length.\<close>

definition from_hex_char :: "char \<Rightarrow> byte option" where
  "from_hex_char c =
     (let n = (of_char c :: nat) in
      if 48 \<le> n \<and> n \<le> 57 then Some (word_of_nat (n - 48))
      else if 97 \<le> n \<and> n \<le> 102 then Some (word_of_nat (n - 87))
      else if 65 \<le> n \<and> n \<le> 70 then Some (word_of_nat (n - 55))
      else None)"

fun hex_decode :: "string \<Rightarrow> byte list option" where
  "hex_decode [] = Some []"
| "hex_decode [c] = None"
| "hex_decode (c # d # rest) =
     (case (from_hex_char c, from_hex_char d) of
        (Some h, Some l) \<Rightarrow>
          (case hex_decode rest of None \<Rightarrow> None | Some bs \<Rightarrow> Some ((push_bit 4 h OR l) # bs))
      | _ \<Rightarrow> None)"

definition dash :: char where
  "dash = CHR 0x2D"

definition invalid_format :: go_error where
  "invalid_format = faults_New CodeValidationFailed ''invalid uuid format''"

text \<open>
  The buffer \<^verbatim>\<open>s\<close> of 32 bytes is filled from the left with the characters that are not dashes; what
  is not filled stays 0, which the decoder rejects.
\<close>

definition ToBytes :: "string \<Rightarrow> (go_error, uuid) result" where
  "ToBytes u =
     (if length u \<noteq> 36 then Inl (faults_New CodeValidationFailed ''invalid uuid length'')
      else if u ! 8 \<noteq> dash \<or> u ! 13 \<noteq> dash \<or> u ! 18 \<noteq> dash \<or> u ! 23 \<noteq> dash
      then Inl invalid_format
      else let cs = filter (\<lambda>c. c \<noteq> dash) u in
        if \<not> list_all isCanonicalHex cs then Inl invalid_format
        else case hex_decode (cs @ replicate (32 - length cs) (CHR 0x00)) of
            None \<Rightarrow> Inl (Fault ErrInvalidArgument ''validation.failed'' ''decode uuid''
                          (Errorf ''encoding/hex: invalid byte: U+0000''))
          | Some b \<Rightarrow> (case Validate b of Some e \<Rightarrow> Inl e | None \<Rightarrow> Inr b))"

definition Parse :: "string \<Rightarrow> (go_error, uuid) result" where
  "Parse s = bind_result (ToBytes s) (\<lambda>b. case Validate b of Some e \<Rightarrow> Inl e | None \<Rightarrow> Inr b)"

definition ParseBytes :: "byte list \<Rightarrow> (go_error, uuid) result" where
  "ParseBytes b =
     (if length b \<noteq> 16 then Inl (faults_New CodeValidationFailed ''invalid uuid blob length'')
      else case Validate b of Some e \<Rightarrow> Inl e | None \<Rightarrow> Inr b)"

text \<open>The kinds of value a database driver hands to \<^verbatim>\<open>Scan\<close>.\<close>

datatype scan_source = ScanNil | ScanBytes "byte list" | ScanString string | ScanOther

fun Scan :: "uuid \<Rightarrow> scan_source \<Rightarrow> (go_error, uuid) result" where
  "Scan u ScanNil = Inr u"
| "Scan u (ScanBytes v) =
     (if length v = 36 then Parse (map byte_char v)
      else if length v \<noteq> 16 then Inl (faults_New CodeValidationFailed ''invalid uuid blob length'')
      else ParseBytes v)"
| "Scan u (ScanString v) = Parse v"
| "Scan u ScanOther = Inl (faults_New CodeValidationFailed ''unsupported uuid scan source type'')"

text \<open>\<^verbatim>\<open>NullUUID\<close>: \<^verbatim>\<open>None\<close> is the value with \<^verbatim>\<open>Valid = false\<close>.\<close>

definition NullUUID_Scan :: "scan_source \<Rightarrow> (go_error, uuid option) result" where
  "NullUUID_Scan src =
     (if src = ScanNil then Inr None
      else bind_result (Scan zero_uuid src) (\<lambda>u. Inr (Some u)))"

definition NullUUID_Value :: "uuid option \<Rightarrow> byte list option" where
  "NullUUID_Value n = n"

section \<open>Construction\<close>

definition time_bytes :: "64 word \<Rightarrow> byte list" where
  "time_bytes ms =
     [ucast (drop_bit 40 ms), ucast (drop_bit 32 ms), ucast (drop_bit 24 ms),
      ucast (drop_bit 16 ms), ucast (drop_bit 8 ms), ucast ms]"

text \<open>The assignments to \<^verbatim>\<open>u[6]\<close> and \<^verbatim>\<open>u[8]\<close> that both constructors end with.\<close>

definition set_version :: "uuid \<Rightarrow> uuid" where
  "set_version u = (u[6 := ((u ! 6) AND 0x0f) OR 0x70])[8 := ((u ! 8) AND 0x3f) OR 0x80]"

definition NewV7 :: "64 word \<Rightarrow> byte list \<Rightarrow> uuid" where
  "NewV7 ms random = set_version (time_bytes ms @ take 10 random)"

definition DeriveV7 :: "(string \<Rightarrow> byte list) \<Rightarrow> 64 word \<Rightarrow> string \<Rightarrow> string \<Rightarrow> uuid" where
  "DeriveV7 sha256 ms namespace seed =
     set_version (time_bytes ms @ take 10 (sha256 (namespace @ [CHR 0x00] @ seed)))"

section \<open>Round trips\<close>

lemma hex_table:
  assumes "n < 16"
  shows "(of_char (''0123456789abcdef'' ! n) :: nat) = (if n < 10 then 48 + n else 87 + n)"
proof -
  have "list_all (\<lambda>n. (of_char (''0123456789abcdef'' ! n) :: nat)
    = (if n < 10 then 48 + n else 87 + n)) [0..<16]" by code_simp
  then show ?thesis using assms by (simp add: list_all_iff del: upt_Suc)
qed

lemma hex_digit_cases:
  assumes "unat (b :: byte) < 16"
  shows "from_hex_char (hex_digit b) = Some b \<and> isCanonicalHex (hex_digit b)"
  using hex_table[OF assms] assms
  by (auto simp: from_hex_char_def hex_digit_def isCanonicalHex_def Let_def split: if_splits)

lemma low_nibble: "b AND 0x0f = take_bit 4 (b :: byte)"
  by (simp add: take_bit_eq_mask mask_eq_exp_minus_1)

lemma nibble_take_bit: "unat (h :: byte) < 16 \<longleftrightarrow> take_bit 4 h = h"
proof -
  have "take_bit 4 h = h \<longleftrightarrow> unat (take_bit 4 h) = unat h" by (simp add: word_unat_eq_iff)
  also have "\<dots> \<longleftrightarrow> unat h mod 16 = unat h"
    by (simp add: unsigned_take_bit_eq take_bit_nat_def)
  finally show ?thesis by (metis mod_less mod_less_divisor zero_less_numeral)
qed

lemma nibble_bounds: "unat (drop_bit 4 (b :: byte)) < 16" "unat (b AND 0x0f) < 16"
proof -
  have "unat b < 256" using unsigned_less[of b, where ?'a=nat] by simp
  then show "unat (drop_bit 4 b) < 16"
    using unat_drop_bit_eq[of 4 b] by (simp add: drop_bit_nat_def less_mult_imp_div_less)
  show "unat (b AND 0x0f) < 16"
    unfolding nibble_take_bit low_nibble by simp
qed

lemma byte_halves: "push_bit 4 (drop_bit 4 b) OR (b AND 0x0f) = (b :: byte)"
  unfolding low_nibble
  by (metis bits_ident or.commute disjunctive_add take_bit_push_bit bit_take_bit_iff
      bit_push_bit_iff leD)

lemma halves_byte:
  assumes "unat (h :: byte) < 16" "unat (l :: byte) < 16"
  shows "drop_bit 4 (push_bit 4 h OR l) = h" "(push_bit 4 h OR l) AND 0x0f = l"
proof -
  have h: "bit h n \<Longrightarrow> n < 4" and l: "bit l n \<Longrightarrow> n < 4" for n
    using assms unfolding nibble_take_bit by (metis bit_take_bit_iff)+
  have "\<not> bit l (4 + n)" for n using l[of "4 + n"] by auto
  then show "drop_bit 4 (push_bit 4 h OR l) = h"
    using h by (auto intro!: bit_word_eqI simp: bit_simps simp del: drop_bit_or)
  show "(push_bit 4 h OR l) AND 0x0f = l"
    unfolding low_nibble using l
    by (auto intro!: bit_word_eqI simp: bit_simps)
qed

lemma hex_decode_bytes [simp]: "hex_decode (hex_bytes bs @ rest) =
  (case hex_decode rest of None \<Rightarrow> None | Some cs \<Rightarrow> Some (bs @ cs))"
  by (induction bs)
     (auto simp: hex_bytes_def hex_byte_def hex_digit_cases nibble_bounds byte_halves
       split: option.splits)

lemma canonical_hex_bytes: "list_all isCanonicalHex (hex_bytes bs)"
  by (induction bs) (auto simp: hex_bytes_def hex_byte_def hex_digit_cases nibble_bounds)

lemma length_hex_bytes [simp]: "length (hex_bytes bs) = 2 * length bs"
  by (induction bs) (auto simp: hex_bytes_def hex_byte_def)

lemma canonical_not_dash: "isCanonicalHex c \<Longrightarrow> c \<noteq> dash"
  by (auto simp: isCanonicalHex_def dash_def)

lemma filter_hex [simp]: "filter (\<lambda>c. c \<noteq> dash) (hex_bytes bs) = hex_bytes bs"
  using canonical_hex_bytes[of bs] canonical_not_dash
  by (auto simp: list_all_iff intro!: filter_True)

lemma hex_bytes_append: "hex_bytes (xs @ ys) = hex_bytes xs @ hex_bytes ys"
  by (simp add: hex_bytes_def)

lemma uuid_split:
  assumes "wf_uuid u"
  shows "take 4 u @ take 2 (drop 4 u) @ take 2 (drop 6 u) @ take 2 (drop 8 u)
    @ take 6 (drop 10 u) = u"
proof -
  have "take 6 (drop 10 u) = drop 10 u" using assms by (simp add: wf_uuid_def)
  moreover have "take 2 (drop 8 u) @ drop 10 u = drop 8 u"
    by (metis append_take_drop_id drop_drop numeral_plus_numeral add_num_simps(2,3,4,5,6)
        add.commute)
  moreover have "take 2 (drop 6 u) @ drop 8 u = drop 6 u"
    using append_take_drop_id[of 2 "drop 6 u"] by simp
  moreover have "take 2 (drop 4 u) @ drop 6 u = drop 4 u"
    using append_take_drop_id[of 2 "drop 4 u"] by simp
  ultimately show ?thesis by simp
qed

lemma length_encode: "wf_uuid u \<Longrightarrow> length (encodeCanonical u) = 36"
  by (simp add: encodeCanonical_def wf_uuid_def)

lemma encode_dashes:
  assumes "wf_uuid u"
  shows "encodeCanonical u ! 8 = dash" "encodeCanonical u ! 13 = dash"
    "encodeCanonical u ! 18 = dash" "encodeCanonical u ! 23 = dash"
  using assms by (simp_all add: encodeCanonical_def wf_uuid_def nth_append dash_def)

lemma encode_digits:
  assumes "wf_uuid u"
  shows "filter (\<lambda>c. c \<noteq> dash) (encodeCanonical u) = hex_bytes u"
proof -
  have "filter (\<lambda>c. c \<noteq> dash) ''-'' = []" by (simp add: dash_def)
  then show ?thesis
    unfolding encodeCanonical_def
    by (simp only: filter_append filter_hex append_Nil hex_bytes_append[symmetric]
        uuid_split[OF assms])
qed

text \<open>The text form of an identifier decodes to it, or to its validation error.\<close>

lemma ToBytes_encode:
  assumes "wf_uuid u"
  shows "ToBytes (encodeCanonical u) = (case Validate u of Some e \<Rightarrow> Inl e | None \<Rightarrow> Inr u)"
  using assms canonical_hex_bytes[of u] hex_decode_bytes[of u "[]"]
  by (simp add: ToBytes_def length_encode encode_dashes encode_digits wf_uuid_def)

text \<open>Conversely, what decodes is canonical text.\<close>

lemma hex_char_back:
  assumes "isCanonicalHex c"
  shows "\<exists>h. from_hex_char c = Some h \<and> unat h < 16 \<and> hex_digit h = c"
proof -
  define n where "n = (of_char c :: nat)"
  have c: "c = char_of n" by (simp add: n_def)
  define m where "m = (if n \<le> 57 then n - 48 else n - 87)"
  have m: "m < 16" "(if m < 10 then 48 + m else 87 + m) = n"
    using assms by (auto simp: isCanonicalHex_def m_def n_def Let_def)
  have "from_hex_char c = Some (word_of_nat m)"
    using assms by (auto simp: from_hex_char_def isCanonicalHex_def m_def n_def Let_def)
  moreover have "unat (word_of_nat m :: byte) = m" using m by (simp add: unat_of_nat)
  moreover have "''0123456789abcdef'' ! m = c"
    using hex_table[OF m(1)] m(2) unfolding c by (metis char_of_char)
  ultimately show ?thesis using m(1) by (auto simp: hex_digit_def)
qed

lemma hex_pair:
  assumes "isCanonicalHex c" "isCanonicalHex d"
  shows "\<exists>h l. from_hex_char c = Some h \<and> from_hex_char d = Some l
    \<and> hex_byte (push_bit 4 h OR l) = [c, d]"
  using hex_char_back[OF assms(1)] hex_char_back[OF assms(2)]
  by (auto simp: hex_byte_def halves_byte simp del: drop_bit_or)

lemma hex_decode_canonical:
  "hex_decode s = Some bs \<Longrightarrow> list_all isCanonicalHex s \<Longrightarrow> hex_bytes bs = s"
proof (induction s arbitrary: bs rule: hex_decode.induct)
  case (3 c d rest)
  then show ?case
    using hex_pair[of c d] by (auto simp: hex_bytes_def split: option.splits)
qed (auto simp: hex_bytes_def)

lemma hex_decode_no_nul: "hex_decode s = Some bs \<Longrightarrow> CHR 0x00 \<notin> set s"
  by (induction s arbitrary: bs rule: hex_decode.induct)
     (auto simp: from_hex_char_def Let_def split: option.splits if_splits)

lemma dash_segments:
  assumes "length s = 36" "s ! 8 = dash" "s ! 13 = dash" "s ! 18 = dash" "s ! 23 = dash"
  shows "s = take 8 s @ dash # take 4 (drop 9 s) @ dash # take 4 (drop 14 s) @ dash
    # take 4 (drop 19 s) @ dash # drop 24 s"
proof -
  have cut: "drop n s = take k (drop n s) @ dash # drop (Suc (k + n)) s"
    if "s ! (n + k) = dash" "n + k < 36" for n k
    using id_take_nth_drop[of k "drop n s"] that assms(1) by simp
  from cut[of 0 8] cut[of 9 4] cut[of 14 4] cut[of 19 4] assms show ?thesis by simp
qed

lemma filter_length_full: "length (filter P xs) = length xs \<Longrightarrow> filter P xs = xs"
  by (metis filter_True length_filter_less less_irrefl)

lemma ToBytes_canonical:
  assumes "ToBytes s = Inr u"
  shows "wf_uuid u \<and> encodeCanonical u = s \<and> Validate u = None"
proof -
  let ?F = "filter (\<lambda>c. c \<noteq> dash)"
  let ?cs = "?F s"
  from assms have s: "length s = 36" "s ! 8 = dash" "s ! 13 = dash" "s ! 18 = dash" "s ! 23 = dash"
    and can: "list_all isCanonicalHex ?cs"
    and dec: "hex_decode (?cs @ replicate (32 - length ?cs) (CHR 0x00)) = Some u"
    and val: "Validate u = None"
    by (auto simp: ToBytes_def Let_def split: if_splits option.splits)
  define a b c d e where parts: "a = take 8 s" "b = take 4 (drop 9 s)" "c = take 4 (drop 14 s)"
    "d = take 4 (drop 19 s)" "e = drop 24 s"
  have seg: "s = a @ dash # b @ dash # c @ dash # d @ dash # e"
    unfolding parts by (rule dash_segments[OF s])
  have len: "length a = 8" "length b = 4" "length c = 4" "length d = 4" "length e = 12"
    using s(1) by (simp_all add: parts)
  have "32 - length ?cs = 0"
    using hex_decode_no_nul[OF dec] by (cases "32 - length ?cs") auto
  then have full: "length ?cs \<ge> 32" by simp
  have cs: "?cs = ?F a @ ?F b @ ?F c @ ?F d @ ?F e" by (subst seg) simp
  have le: "length (?F a) \<le> 8" "length (?F b) \<le> 4" "length (?F c) \<le> 4"
    "length (?F d) \<le> 4" "length (?F e) \<le> 12"
    using len length_filter_le by metis+
  then have "length (?F a) = length a" "length (?F b) = length b" "length (?F c) = length c"
    "length (?F d) = length d" "length (?F e) = length e"
    using full cs len by auto
  then have "?F a = a" "?F b = b" "?F c = c" "?F d = d" "?F e = e"
    by (auto intro: filter_length_full)
  then have cs': "?cs = a @ b @ c @ d @ e" using cs by simp
  then have hex: "hex_bytes u = a @ b @ c @ d @ e"
    using hex_decode_canonical[OF dec] can len by simp
  then have wf: "wf_uuid u"
    using length_hex_bytes[of u] len by (simp add: wf_uuid_def)
  have "hex_bytes (take 4 u) @ hex_bytes (take 2 (drop 4 u)) @ hex_bytes (take 2 (drop 6 u))
    @ hex_bytes (take 2 (drop 8 u)) @ hex_bytes (take 6 (drop 10 u)) = a @ b @ c @ d @ e"
    using hex uuid_split[OF wf] by (metis hex_bytes_append)
  then have "hex_bytes (take 4 u) = a" "hex_bytes (take 2 (drop 4 u)) = b"
    "hex_bytes (take 2 (drop 6 u)) = c" "hex_bytes (take 2 (drop 8 u)) = d"
    "hex_bytes (take 6 (drop 10 u)) = e"
    using wf len by (simp_all add: append_eq_append_conv wf_uuid_def)
  then have "encodeCanonical u = s"
    unfolding encodeCanonical_def by (subst seg) (simp add: dash_def)
  then show ?thesis using wf val by simp
qed


section \<open>Properties\<close>

lemma Parse_ToBytes: "Parse s = Inr u \<longleftrightarrow> ToBytes s = Inr u"
  using ToBytes_canonical[of s] by (auto simp: Parse_def result_simps split: option.splits)

theorem Parse_iff_canonical:
  "Parse s = Inr u \<longleftrightarrow> wf_uuid u \<and> IsV7 u \<and> s = encodeCanonical u"
  using ToBytes_canonical[of s u] ToBytes_encode[of u]
  by (auto simp: Parse_ToBytes Validate_None_iff split: option.splits)

lemma set_version_v7:
  assumes "wf_uuid u"
  shows "wf_uuid (set_version u) \<and> IsV7 (set_version u)"
proof -
  have "((b AND 0x0f) OR 0x70) AND 0xf0 = (0x70 :: byte)"
    "((b AND 0x3f) OR 0x80) AND 0xc0 = (0x80 :: byte)" for b :: byte
    by (simp_all add: bit.conj_disj_distrib2 and.assoc)
  then show ?thesis using assms by (simp add: set_version_def wf_uuid_def IsV7_def)
qed

lemma NewV7_valid: "length random \<ge> 10 \<Longrightarrow> wf_uuid (NewV7 ms random) \<and> IsV7 (NewV7 ms random)"
  unfolding NewV7_def by (rule set_version_v7) (simp add: wf_uuid_def time_bytes_def)

lemma DeriveV7_valid:
  "length (sha256 (namespace @ [CHR 0x00] @ seed)) = 32 \<Longrightarrow>
   wf_uuid (DeriveV7 sha256 ms namespace seed) \<and> IsV7 (DeriveV7 sha256 ms namespace seed)"
  unfolding DeriveV7_def by (rule set_version_v7) (simp add: wf_uuid_def time_bytes_def)

text \<open>The six leading bytes are the 48 low bits of the time, the most significant byte first.\<close>

definition be_value :: "byte list \<Rightarrow> nat" where
  "be_value bs = foldl (\<lambda>n b. 256 * n + unat b) 0 bs"

lemma take_set_version: "length u = 16 \<Longrightarrow> take 6 (set_version u) = take 6 u"
  by (simp add: set_version_def)

lemma time_bytes_value: "be_value (time_bytes ms) = unat ms mod 2 ^ 48"
proof -
  define n where "n = unat ms"
  have "n < 2 ^ 64" using unsigned_less[of ms, where ?'a=nat] by (simp add: n_def)
  then have byte: "unat (ucast (drop_bit k ms) :: byte) = n div 2 ^ k mod 256" for k
    unfolding n_def by (simp add: unsigned_drop_bit_eq drop_bit_nat_def unsigned_ucast_eq
        take_bit_nat_def)
  have b0: "unat (ucast ms :: byte) = n mod 256" using byte[of 0] by simp
  have step: "n div 2 ^ k mod (256 * m) = 256 * (n div 2 ^ (k + 8) mod m) + n div 2 ^ k mod 256"
    for k m by (simp add: mod_mult2_eq div_mult2_eq power_add)
  have "n mod 2 ^ 48 = n div 2 ^ 0 mod (256 * (256 * (256 * (256 * (256 * (256 * 1))))))" by simp
  also have "\<dots> = be_value (time_bytes ms)"
    unfolding step by (simp add: be_value_def time_bytes_def byte b0)
  finally show ?thesis by (simp add: n_def)
qed

text \<open>Derived and fresh identifiers carry the milliseconds of their time, modulo \<^verbatim>\<open>2^48\<close>.\<close>

lemma length_time_bytes [simp]: "length (time_bytes ms) = 6"
  by (simp add: time_bytes_def)

lemma uuid_timestamp:
  assumes "length rest = 10"
  shows "be_value (take 6 (set_version (time_bytes ms @ rest))) = unat ms mod 2 ^ 48"
  using assms by (simp only: take_set_version length_append length_time_bytes) (simp add: time_bytes_value)

end
