(* ===== verification/DeviceStore.thy ===== *)
theory DeviceStore
  imports Ids Catalog
begin

text \<open>
  Device authorizations (\<^verbatim>\<open>internal/edge/state_store.go\<close>): the record, its state machine, and the two
  stores that keep it, the in-memory one with its three maps and the SQLite one with its table and
  the queries of \<^verbatim>\<open>platformdb/edge.sql.go\<close>.  The contract both give to the OAuth handlers is the
  locale \<^verbatim>\<open>device_store\<close>, interpreted on each; what holds along every sequence of operations
  (a terminal status stays, a code is consumed at most once) is proved once in it.

  Times of the SQLite store are written in a fixed-width format, whose order as text is the order
  of the times, so the comparisons of the queries are comparisons of times here.
\<close>

section \<open>The record\<close>

datatype device_status =
    StatusUnset | StatusPending | StatusApproved | StatusDenied | StatusExpired | StatusConsumed
  | StatusOther string

record device_authorization =
  dID :: uuid
  dClientID :: string
  dSubjectSub :: "string option"
  dServiceID :: string
  dResource :: string
  dScope :: string
  dDeviceCodeHash :: string
  dUserCodeHash :: string
  dUserCodeDisplay :: string
  dStatus :: device_status
  dInterval :: duration
  dLastPollAt :: "time option"
  dPollCount :: int
  dApprovedAt :: "time option"
  dDeniedAt :: "time option"
  dExpiresAt :: time
  dConsumedAt :: "time option"
  dCreatedAt :: time
  dUpdatedAt :: time

definition nullableString :: "string \<Rightarrow> string option" where
  "nullableString v = (let t = trim_space v in if t = [] then None else Some t)"

definition normalizeUserCode :: "string \<Rightarrow> string" where
  "normalizeUserCode v =
     filter (\<lambda>c. c \<noteq> CHR 0x2D \<and> c \<noteq> CHR 0x20) (to_upper (trim_space v))"

definition durationToSeconds :: "duration \<Rightarrow> int" where
  "durationToSeconds d = (if d \<le> 0 then 0 else d div second)"

definition durationFromSeconds :: "int \<Rightarrow> duration" where
  "durationFromSeconds n = (if n \<le> 0 then 0 else n * second)"

lemma duration_round_trip:
  "durationFromSeconds (durationToSeconds d) \<le> max 0 d"
  "d > 0 \<Longrightarrow> d < durationFromSeconds (durationToSeconds d) + second"
  by (auto simp: durationFromSeconds_def durationToSeconds_def max_def)

section \<open>The state machine\<close>

text \<open>
  The changes of one record, as the closures of the in-memory store and the WHERE clauses of the
  SQLite store state them: \<^verbatim>\<open>None\<close> where the guard fails.
\<close>

datatype device_event =
    EvApprove string time
  | EvDeny time
  | EvConsume time
  | EvPoll time
  | EvSlowDown time duration

definition has_subject :: "device_authorization \<Rightarrow> bool" where
  "has_subject d = (case dSubjectSub d of None \<Rightarrow> False | Some s \<Rightarrow> \<not> blank s)"

fun device_step ::
  "(string \<Rightarrow> string option) \<Rightarrow> device_event \<Rightarrow> device_authorization \<Rightarrow> device_authorization option" where
  "device_step subject (EvApprove sub t) d =
     (if blank sub \<or> dStatus d \<noteq> StatusPending \<or> \<not> t < dExpiresAt d then None
      else Some (d\<lparr>dSubjectSub := subject sub, dStatus := StatusApproved, dApprovedAt := Some t,
                   dUpdatedAt := t\<rparr>))"
| "device_step subject (EvDeny t) d =
     (if dStatus d \<noteq> StatusPending \<or> \<not> t < dExpiresAt d then None
      else Some (d\<lparr>dStatus := StatusDenied, dDeniedAt := Some t, dUpdatedAt := t\<rparr>))"
| "device_step subject (EvConsume t) d =
     (if dStatus d \<noteq> StatusApproved \<or> \<not> has_subject d \<or> \<not> t < dExpiresAt d then None
      else Some (d\<lparr>dStatus := StatusConsumed, dConsumedAt := Some t, dUpdatedAt := t\<rparr>))"
| "device_step subject (EvPoll t) d =
     Some (d\<lparr>dLastPollAt := Some t, dPollCount := dPollCount d + 1, dUpdatedAt := t\<rparr>)"
| "device_step subject (EvSlowDown t inc) d =
     Some (d\<lparr>dLastPollAt := Some t, dPollCount := dPollCount d + 1,
             dInterval := dInterval d + inc, dUpdatedAt := t\<rparr>)"

definition expire_due :: "time \<Rightarrow> device_authorization \<Rightarrow> bool" where
  "expire_due now d =
     ((dStatus d = StatusPending \<or> dStatus d = StatusApproved) \<and> \<not> now < dExpiresAt d)"

definition expire_one :: "time \<Rightarrow> device_authorization \<Rightarrow> device_authorization" where
  "expire_one now d =
     (if expire_due now d then d\<lparr>dStatus := StatusExpired, dUpdatedAt := now\<rparr> else d)"

definition prune_due :: "time \<Rightarrow> device_authorization \<Rightarrow> bool" where
  "prune_due cutoff d =
     (dStatus d \<in> {StatusExpired, StatusDenied, StatusConsumed} \<and> dUpdatedAt d \<le> cutoff)"

definition terminal :: "device_status \<Rightarrow> bool" where
  "terminal st = (st \<in> {StatusExpired, StatusDenied, StatusConsumed})"

text \<open>The status graph as a relation.\<close>

inductive status_next :: "device_status \<Rightarrow> device_status \<Rightarrow> bool" where
  approve: "status_next StatusPending StatusApproved"
| deny: "status_next StatusPending StatusDenied"
| expire_pending: "status_next StatusPending StatusExpired"
| expire_approved: "status_next StatusApproved StatusExpired"
| consume: "status_next StatusApproved StatusConsumed"
| stay: "status_next st st"

code_pred status_next .

inductive_cases status_next_fromE: "status_next st st'"

inductive_simps status_next_terminal:
  "status_next StatusConsumed st" "status_next StatusDenied st" "status_next StatusExpired st"

lemma device_step_status: "device_step f ev d = Some d' \<Longrightarrow> status_next (dStatus d) (dStatus d')"
  by (cases ev) (auto intro: status_next.intros split: if_splits)

lemma expire_one_status: "status_next (dStatus d) (dStatus (expire_one now d))"
  by (auto simp: expire_one_def expire_due_def intro: status_next.intros)

lemma device_step_keeps:
  assumes "device_step f ev d = Some d'"
  shows "dID d' = dID d" "dClientID d' = dClientID d" "dServiceID d' = dServiceID d"
    "dResource d' = dResource d" "dScope d' = dScope d" "dExpiresAt d' = dExpiresAt d"
    "dDeviceCodeHash d' = dDeviceCodeHash d" "dUserCodeHash d' = dUserCodeHash d"
  using assms by (cases ev; auto split: if_splits)+

lemma expire_one_keeps [simp]:
  "dID (expire_one t d) = dID d" "dExpiresAt (expire_one t d) = dExpiresAt d"
  "dDeviceCodeHash (expire_one t d) = dDeviceCodeHash d" "dUserCodeHash (expire_one t d) = dUserCodeHash d"
  "dSubjectSub (expire_one t d) = dSubjectSub d" "has_subject (expire_one t d) = has_subject d"
  by (simp_all add: expire_one_def has_subject_def)

lemma terminal_stays: "terminal st \<Longrightarrow> status_next st st' \<Longrightarrow> st' = st"
  by (auto simp: terminal_def status_next_terminal)

lemma consume_once_step:
  "device_step f (EvConsume t) d = Some d' \<Longrightarrow>
   dStatus d = StatusApproved \<and> dStatus d' = StatusConsumed \<and> has_subject d \<and> t < dExpiresAt d"
  by (auto split: if_splits)

section \<open>The in-memory store\<close>

text \<open>
  The three maps.  The records are an association list so that the loops over them compute; its
  keys are the text forms of the identifiers.
\<close>

record device_maps =
  devByID :: "(string \<times> device_authorization) list"
  devByCode :: "string \<rightharpoonup> string"
  devByUser :: "string \<rightharpoonup> string"

definition empty_devices :: device_maps where
  "empty_devices = \<lparr>devByID = [], devByCode = Map.empty, devByUser = Map.empty\<rparr>"

fun put :: "'k \<Rightarrow> 'v \<Rightarrow> ('k \<times> 'v) list \<Rightarrow> ('k \<times> 'v) list" where
  "put k v [] = [(k, v)]"
| "put k v ((k', v') # xs) = (if k' = k then (k, v) # xs else (k', v') # put k v xs)"

lemma map_of_put [simp]: "map_of (put k v xs) = (map_of xs)(k \<mapsto> v)"
  by (induction k v xs rule: put.induct) (auto simp: fun_eq_iff)

lemma keys_put: "fst ` set (put k v xs) = insert k (fst ` set xs)"
  by (induction k v xs rule: put.induct) auto

lemma distinct_put: "distinct (map fst xs) \<Longrightarrow> distinct (map fst (put k v xs))"
proof (induction k v xs rule: put.induct)
  case (2 k v k' v' xs)
  then show ?case using keys_put[of k v xs] by (auto simp: image_iff)
qed simp

definition mem_CreateDeviceAuthorization ::
  "time \<Rightarrow> device_maps \<Rightarrow> device_authorization \<Rightarrow> (go_error, device_maps) result" where
  "mem_CreateDeviceAuthorization now s record =
     (if IsZero (dID record) then Inl (Errorf ''device authorization id is required'')
      else
        let r1 = (if dStatus record = StatusUnset then record\<lparr>dStatus := StatusPending\<rparr> else record);
            r2 = (if dInterval r1 \<le> 0 then r1\<lparr>dInterval := 5 * second\<rparr> else r1);
            r3 = (if dCreatedAt r2 = 0 then r2\<lparr>dCreatedAt := now\<rparr> else r2);
            r4 = (if dUpdatedAt r3 = 0 then r3\<lparr>dUpdatedAt := dCreatedAt r3\<rparr> else r3);
            key = encodeCanonical (dID r4)
        in Inr (s\<lparr>devByID := put key r4 (devByID s),
                  devByCode := (devByCode s)(dDeviceCodeHash r4 \<mapsto> key),
                  devByUser := (devByUser s)(dUserCodeHash r4 \<mapsto> key)\<rparr>))"

definition getDeviceAuthorizationByHash ::
  "device_maps \<Rightarrow> string \<Rightarrow> bool \<Rightarrow> device_authorization option" where
  "getDeviceAuthorizationByHash s hash deviceCode =
     (case (if deviceCode then devByCode s else devByUser s) hash of
        None \<Rightarrow> None
      | Some key \<Rightarrow> map_of (devByID s) key)"

definition mem_GetByDeviceCode ::
  "(string \<Rightarrow> string) \<Rightarrow> device_maps \<Rightarrow> string \<Rightarrow> device_authorization option" where
  "mem_GetByDeviceCode hash s code = getDeviceAuthorizationByHash s (hash code) True"

definition mem_GetByUserCode ::
  "(string \<Rightarrow> string) \<Rightarrow> device_maps \<Rightarrow> string \<Rightarrow> device_authorization option" where
  "mem_GetByUserCode hash s code = getDeviceAuthorizationByHash s (hash (normalizeUserCode code)) False"

text \<open>\<^verbatim>\<open>updateDeviceAuthorization\<close>: the closure is a partial function, undefined where it declines.\<close>

definition updateDeviceAuthorization ::
  "device_maps \<Rightarrow> uuid \<Rightarrow> time \<Rightarrow> (device_authorization \<Rightarrow> device_authorization option)
    \<Rightarrow> device_maps \<times> bool" where
  "updateDeviceAuthorization s i updatedAt mutate =
     (let key = encodeCanonical i in
      case map_of (devByID s) key of
        None \<Rightarrow> (s, False)
      | Some record \<Rightarrow>
          (case mutate record of
             None \<Rightarrow> (s, False)
           | Some r \<Rightarrow> (s\<lparr>devByID := put key (r\<lparr>dUpdatedAt := updatedAt\<rparr>) (devByID s)\<rparr>, True)))"

definition mem_Approve :: "device_maps \<Rightarrow> uuid \<Rightarrow> string \<Rightarrow> time \<Rightarrow> device_maps \<times> (go_error, bool) result" where
  "mem_Approve s i subjectSub approvedAt =
     (if blank subjectSub then (s, Inl (Errorf ''device authorization approval requires subject''))
      else map_prod id Inr (updateDeviceAuthorization s i approvedAt (\<lambda>record.
        if dStatus record \<noteq> StatusPending \<or> \<not> approvedAt < dExpiresAt record then None
        else Some (record\<lparr>dSubjectSub := nullableString subjectSub, dStatus := StatusApproved,
                          dApprovedAt := Some approvedAt\<rparr>))))"

definition mem_Deny :: "device_maps \<Rightarrow> uuid \<Rightarrow> time \<Rightarrow> device_maps \<times> bool" where
  "mem_Deny s i deniedAt =
     updateDeviceAuthorization s i deniedAt (\<lambda>record.
       if dStatus record \<noteq> StatusPending \<or> \<not> deniedAt < dExpiresAt record then None
       else Some (record\<lparr>dStatus := StatusDenied, dDeniedAt := Some deniedAt\<rparr>))"

definition mem_Consume :: "device_maps \<Rightarrow> uuid \<Rightarrow> time \<Rightarrow> device_maps \<times> bool" where
  "mem_Consume s i consumedAt =
     updateDeviceAuthorization s i consumedAt (\<lambda>record.
       if dStatus record \<noteq> StatusApproved \<or> \<not> has_subject record
          \<or> \<not> consumedAt < dExpiresAt record then None
       else Some (record\<lparr>dStatus := StatusConsumed, dConsumedAt := Some consumedAt\<rparr>))"

definition mem_UpdatePoll :: "device_maps \<Rightarrow> uuid \<Rightarrow> time \<Rightarrow> device_maps \<times> bool" where
  "mem_UpdatePoll s i polledAt =
     updateDeviceAuthorization s i polledAt (\<lambda>record.
       Some (record\<lparr>dLastPollAt := Some polledAt, dPollCount := dPollCount record + 1\<rparr>))"

definition mem_SlowDown :: "device_maps \<Rightarrow> uuid \<Rightarrow> time \<Rightarrow> duration \<Rightarrow> device_maps \<times> bool" where
  "mem_SlowDown s i polledAt increment =
     updateDeviceAuthorization s i polledAt (\<lambda>record.
       Some (record\<lparr>dLastPollAt := Some polledAt, dPollCount := dPollCount record + 1,
                    dInterval := dInterval record + increment\<rparr>))"

definition mem_MarkExpired :: "device_maps \<Rightarrow> time \<Rightarrow> device_maps \<times> nat" where
  "mem_MarkExpired s now =
     (s\<lparr>devByID := map (\<lambda>(k, r). (k, expire_one now r)) (devByID s)\<rparr>,
      length (filter (\<lambda>(k, r). expire_due now r) (devByID s)))"

definition mem_Prune :: "device_maps \<Rightarrow> time \<Rightarrow> device_maps \<times> nat" where
  "mem_Prune s cutoff =
     (let gone = filter (\<lambda>(k, r). prune_due cutoff r) (devByID s);
          codes = map (\<lambda>(k, r). dDeviceCodeHash r) gone;
          users = map (\<lambda>(k, r). dUserCodeHash r) gone
      in (\<lparr>devByID = filter (\<lambda>(k, r). \<not> prune_due cutoff r) (devByID s),
           devByCode = (\<lambda>h. if h \<in> set codes then None else devByCode s h),
           devByUser = (\<lambda>h. if h \<in> set users then None else devByUser s h)\<rparr>, length gone))"

section \<open>The SQLite store\<close>

text \<open>The table: a list of rows; a row is the record with the interval in whole seconds.\<close>

type_synonym device_table = "device_authorization list"

definition sql_update :: "(device_authorization \<Rightarrow> device_authorization option) \<Rightarrow> device_table
    \<Rightarrow> device_table \<times> nat" where
  "sql_update upd t =
     (map (\<lambda>r. case upd r of None \<Rightarrow> r | Some r' \<Rightarrow> r') t, length (filter (\<lambda>r. upd r \<noteq> None) t))"

definition q_CreateDeviceAuthorization ::
  "device_table \<Rightarrow> device_authorization \<Rightarrow> int \<Rightarrow> (go_error, device_table) result" where
  "q_CreateDeviceAuthorization t r interval_seconds =
     (if \<exists>x \<in> set t. dID x = dID r \<or> dDeviceCodeHash x = dDeviceCodeHash r
          \<or> dUserCodeHash x = dUserCodeHash r
      then Inl (Errorf ''UNIQUE constraint failed'')
      else Inr (t @ [\<lparr>dID = dID r, dClientID = dClientID r, dSubjectSub = None,
          dServiceID = dServiceID r, dResource = dResource r, dScope = dScope r,
          dDeviceCodeHash = dDeviceCodeHash r, dUserCodeHash = dUserCodeHash r,
          dUserCodeDisplay = dUserCodeDisplay r, dStatus = StatusPending,
          dInterval = durationFromSeconds interval_seconds, dLastPollAt = None, dPollCount = 0,
          dApprovedAt = None, dDeniedAt = None, dExpiresAt = dExpiresAt r, dConsumedAt = None,
          dCreatedAt = dCreatedAt r, dUpdatedAt = dCreatedAt r\<rparr>]))"

definition sql_CreateDeviceAuthorization ::
  "time \<Rightarrow> device_table \<Rightarrow> device_authorization \<Rightarrow> (go_error, device_table) result" where
  "sql_CreateDeviceAuthorization now t record =
     (if IsZero (dID record) then Inl (Errorf ''device authorization id is required'')
      else
        let r1 = (if dCreatedAt record = 0 then record\<lparr>dCreatedAt := now\<rparr> else record);
            r2 = (if dInterval r1 \<le> 0 then r1\<lparr>dInterval := 5 * second\<rparr> else r1)
        in q_CreateDeviceAuthorization t r2 (durationToSeconds (dInterval r2)))"

definition q_ApproveDeviceAuthorization ::
  "device_table \<Rightarrow> uuid \<Rightarrow> string option \<Rightarrow> time \<Rightarrow> time \<Rightarrow> device_table \<times> nat" where
  "q_ApproveDeviceAuthorization t i sub approvedAt now =
     sql_update (\<lambda>r. if dID r = i \<and> dStatus r = StatusPending \<and> now < dExpiresAt r
       then Some (r\<lparr>dSubjectSub := sub, dStatus := StatusApproved, dApprovedAt := Some approvedAt,
                    dUpdatedAt := approvedAt\<rparr>) else None) t"

definition q_DenyDeviceAuthorization :: "device_table \<Rightarrow> uuid \<Rightarrow> time \<Rightarrow> time \<Rightarrow> device_table \<times> nat" where
  "q_DenyDeviceAuthorization t i deniedAt now =
     sql_update (\<lambda>r. if dID r = i \<and> dStatus r = StatusPending \<and> now < dExpiresAt r
       then Some (r\<lparr>dStatus := StatusDenied, dDeniedAt := Some deniedAt, dUpdatedAt := deniedAt\<rparr>)
       else None) t"

definition q_ConsumeDeviceAuthorization :: "device_table \<Rightarrow> uuid \<Rightarrow> time \<Rightarrow> time \<Rightarrow> device_table \<times> nat" where
  "q_ConsumeDeviceAuthorization t i consumedAt now =
     sql_update (\<lambda>r. if dID r = i \<and> dStatus r = StatusApproved \<and> dSubjectSub r \<noteq> None
         \<and> now < dExpiresAt r
       then Some (r\<lparr>dStatus := StatusConsumed, dConsumedAt := Some consumedAt,
                    dUpdatedAt := consumedAt\<rparr>) else None) t"

definition q_UpdateDeviceAuthorizationPoll :: "device_table \<Rightarrow> uuid \<Rightarrow> time \<Rightarrow> device_table \<times> nat" where
  "q_UpdateDeviceAuthorizationPoll t i polledAt =
     sql_update (\<lambda>r. if dID r = i
       then Some (r\<lparr>dLastPollAt := Some polledAt, dPollCount := dPollCount r + 1,
                    dUpdatedAt := polledAt\<rparr>) else None) t"

definition q_SlowDownDeviceAuthorizationPoll ::
  "device_table \<Rightarrow> uuid \<Rightarrow> time \<Rightarrow> int \<Rightarrow> device_table \<times> nat" where
  "q_SlowDownDeviceAuthorizationPoll t i polledAt inc =
     sql_update (\<lambda>r. if dID r = i
       then Some (r\<lparr>dLastPollAt := Some polledAt, dPollCount := dPollCount r + 1,
                    dInterval := dInterval r + inc * second, dUpdatedAt := polledAt\<rparr>) else None) t"

definition q_MarkExpiredDeviceAuthorizations :: "device_table \<Rightarrow> time \<Rightarrow> device_table \<times> nat" where
  "q_MarkExpiredDeviceAuthorizations t now =
     sql_update (\<lambda>r. if (dStatus r = StatusPending \<or> dStatus r = StatusApproved) \<and> dExpiresAt r \<le> now
       then Some (r\<lparr>dStatus := StatusExpired, dUpdatedAt := now\<rparr>) else None) t"

definition q_PruneExpiredDeviceAuthorizations :: "device_table \<Rightarrow> time \<Rightarrow> device_table \<times> nat" where
  "q_PruneExpiredDeviceAuthorizations t cutoff =
     (filter (\<lambda>r. \<not> prune_due cutoff r) t, length (filter (prune_due cutoff) t))"

definition q_GetDeviceAuthorizationByDeviceCodeHash ::
  "device_table \<Rightarrow> string \<Rightarrow> device_authorization option" where
  "q_GetDeviceAuthorizationByDeviceCodeHash t h = find (\<lambda>r. dDeviceCodeHash r = h) t"

definition q_GetDeviceAuthorizationByUserCodeHash ::
  "device_table \<Rightarrow> string \<Rightarrow> device_authorization option" where
  "q_GetDeviceAuthorizationByUserCodeHash t h = find (\<lambda>r. dUserCodeHash r = h) t"

definition sql_Approve :: "device_table \<Rightarrow> uuid \<Rightarrow> string \<Rightarrow> time \<Rightarrow> device_table \<times> (go_error, bool) result" where
  "sql_Approve t i subjectSub approvedAt =
     (if blank subjectSub then (t, Inl (Errorf ''device authorization approval requires subject''))
      else let (t', rows) = q_ApproveDeviceAuthorization t i (Some subjectSub) approvedAt approvedAt
        in (t', Inr (rows > 0)))"

definition sql_Deny :: "device_table \<Rightarrow> uuid \<Rightarrow> time \<Rightarrow> device_table \<times> bool" where
  "sql_Deny t i deniedAt =
     (let (t', rows) = q_DenyDeviceAuthorization t i deniedAt deniedAt in (t', rows > 0))"

definition sql_Consume :: "device_table \<Rightarrow> uuid \<Rightarrow> time \<Rightarrow> device_table \<times> bool" where
  "sql_Consume t i consumedAt =
     (let (t', rows) = q_ConsumeDeviceAuthorization t i consumedAt consumedAt in (t', rows > 0))"

definition sql_UpdatePoll :: "device_table \<Rightarrow> uuid \<Rightarrow> time \<Rightarrow> device_table \<times> bool" where
  "sql_UpdatePoll t i polledAt =
     (let (t', rows) = q_UpdateDeviceAuthorizationPoll t i polledAt in (t', rows > 0))"

definition sql_SlowDown :: "device_table \<Rightarrow> uuid \<Rightarrow> time \<Rightarrow> duration \<Rightarrow> device_table \<times> bool" where
  "sql_SlowDown t i polledAt increment =
     (let (t', rows) = q_SlowDownDeviceAuthorizationPoll t i polledAt (durationToSeconds increment)
      in (t', rows > 0))"

section \<open>The contract\<close>

text \<open>What a caller can ask of either store about existing records.\<close>

datatype store_op = OpRun uuid device_event | OpMark time | OpPrune time

fun event_ok :: "device_event \<Rightarrow> bool" where
  "event_ok (EvSlowDown t inc) = (0 \<le> inc \<and> inc mod second = 0)"
| "event_ok _ = True"

fun op_ok :: "store_op \<Rightarrow> bool" where
  "op_ok (OpRun i ev) = (wf_uuid i \<and> event_ok ev)"
| "op_ok _ = True"

fun exec_op :: "('s \<Rightarrow> uuid \<Rightarrow> device_event \<Rightarrow> 's \<times> bool) \<Rightarrow> ('s \<Rightarrow> time \<Rightarrow> 's \<times> nat)
    \<Rightarrow> ('s \<Rightarrow> time \<Rightarrow> 's \<times> nat) \<Rightarrow> 's \<Rightarrow> store_op \<Rightarrow> 's" where
  "exec_op run mark prune s (OpRun i ev) = fst (run s i ev)"
| "exec_op run mark prune s (OpMark t) = fst (mark s t)"
| "exec_op run mark prune s (OpPrune t) = fst (prune s t)"

fun is_consume :: "uuid \<Rightarrow> store_op \<Rightarrow> bool" where
  "is_consume i (OpRun j (EvConsume t)) = (j = i)"
| "is_consume i _ = False"

definition consume_hit :: "('s \<Rightarrow> uuid \<Rightarrow> device_event \<Rightarrow> 's \<times> bool) \<Rightarrow> uuid \<Rightarrow> 's \<Rightarrow> store_op \<Rightarrow> nat" where
  "consume_hit run i s op =
     (case op of
        OpRun j ev \<Rightarrow> if is_consume i op \<and> snd (run s j ev) then 1 else 0
      | _ \<Rightarrow> 0)"

lemma consume_hit_cases:
  obtains "consume_hit run i s op = 0"
  | t where "op = OpRun i (EvConsume t)" "snd (run s i (EvConsume t))" "consume_hit run i s op = 1"
proof (cases op)
  case (OpRun j ev)
  then show ?thesis
    using that by (cases ev; cases "j = i \<and> snd (run s j ev)") (auto simp: consume_hit_def)
qed (auto simp: consume_hit_def intro: that)

text \<open>How many consumptions of one authorization succeed along a sequence of operations.\<close>

fun consumes :: "('s \<Rightarrow> uuid \<Rightarrow> device_event \<Rightarrow> 's \<times> bool) \<Rightarrow> ('s \<Rightarrow> time \<Rightarrow> 's \<times> nat)
    \<Rightarrow> ('s \<Rightarrow> time \<Rightarrow> 's \<times> nat) \<Rightarrow> uuid \<Rightarrow> 's \<Rightarrow> store_op list \<Rightarrow> nat" where
  "consumes run mark prune i s [] = 0"
| "consumes run mark prune i s (op # ops) =
     consume_hit run i s op
     + consumes run mark prune i (exec_op run mark prune s op) ops"

locale device_store =
  fixes inv :: "'s \<Rightarrow> bool"
    and get :: "'s \<Rightarrow> uuid \<Rightarrow> device_authorization option"
    and run :: "'s \<Rightarrow> uuid \<Rightarrow> device_event \<Rightarrow> 's \<times> bool"
    and mark :: "'s \<Rightarrow> time \<Rightarrow> 's \<times> nat"
    and prune :: "'s \<Rightarrow> time \<Rightarrow> 's \<times> nat"
    and subject :: "string \<Rightarrow> string option"
  assumes run_inv: "inv s \<Longrightarrow> event_ok ev \<Longrightarrow> inv (fst (run s i ev))"
    and run_get: "inv s \<Longrightarrow> event_ok ev \<Longrightarrow> wf_uuid i \<Longrightarrow> wf_uuid j \<Longrightarrow>
      get (fst (run s i ev)) j =
        (if j = i
         then (case get s i of
                 None \<Rightarrow> None
               | Some d \<Rightarrow> Some (case device_step subject ev d of None \<Rightarrow> d | Some d' \<Rightarrow> d'))
         else get s j)"
    and run_result: "inv s \<Longrightarrow> event_ok ev \<Longrightarrow> wf_uuid i \<Longrightarrow>
      snd (run s i ev) \<longleftrightarrow> (\<exists>d d'. get s i = Some d \<and> device_step subject ev d = Some d')"
    and mark_inv: "inv s \<Longrightarrow> inv (fst (mark s t))"
    and mark_get: "inv s \<Longrightarrow> wf_uuid j \<Longrightarrow> get (fst (mark s t)) j = map_option (expire_one t) (get s j)"
    and prune_inv: "inv s \<Longrightarrow> inv (fst (prune s t))"
    and prune_get: "inv s \<Longrightarrow> wf_uuid j \<Longrightarrow>
      get (fst (prune s t)) j =
        (case get s j of None \<Rightarrow> None | Some d \<Rightarrow> if prune_due t d then None else Some d)"
begin

abbreviation exec where "exec \<equiv> exec_op run mark prune"

lemma exec_inv: "inv s \<Longrightarrow> op_ok op \<Longrightarrow> inv (exec s op)"
  by (cases op) (auto simp: run_inv mark_inv prune_inv)

text \<open>One operation moves the status of a record along the status graph, or removes a record.\<close>

lemma exec_status:
  assumes "inv s" "op_ok op" "wf_uuid j" "get (exec s op) j = Some d'"
  shows "\<exists>d. get s j = Some d \<and> status_next (dStatus d) (dStatus d') \<and> dExpiresAt d' = dExpiresAt d"
  using assms
  by (cases op)
     (auto simp: run_get mark_get prune_get expire_one_status intro: status_next.stay
       split: if_splits option.splits dest: device_step_status device_step_keeps)

lemma exec_absent: "inv s \<Longrightarrow> op_ok op \<Longrightarrow> wf_uuid j \<Longrightarrow> get s j = None \<Longrightarrow> get (exec s op) j = None"
  using exec_status by (metis option.distinct(1) option.exhaust)

lemma exec_terminal:
  assumes "inv s" "op_ok op" "wf_uuid j" "\<forall>d. get s j = Some d \<longrightarrow> terminal (dStatus d)"
  shows "\<forall>d. get (exec s op) j = Some d \<longrightarrow> terminal (dStatus d)"
  using exec_status[OF assms(1-3)] assms(4) terminal_stays by metis

lemma terminal_trace:
  assumes "inv s" "list_all op_ok ops" "wf_uuid j" "get s j = Some d" "terminal (dStatus d)"
    "get (foldl exec s ops) j = Some d'"
  shows "dStatus d' = dStatus d"
  using assms
proof (induction ops arbitrary: s d)
  case (Cons op ops)
  then have op: "inv s" "op_ok op" by auto
  show ?case
  proof (cases "get (exec s op) j")
    case None
    have "get (foldl exec st ops) j = None" if "inv st" "get st j = None" for st
      using that Cons.prems(2,3)
    proof (induction ops arbitrary: st)
      case (Cons op' ops')
      then show ?case using exec_absent[of st op' j] exec_inv[of st op'] by simp
    qed simp
    from this[OF exec_inv[OF op] None] Cons.prems(6) show ?thesis by simp
  next
    case (Some d1)
    then have "dStatus d1 = dStatus d"
      using exec_status[OF op Cons.prems(3) Some] Cons.prems(4,5) terminal_stays by auto
    then show ?thesis
      using Cons.IH[OF exec_inv[OF op] _ _ Some] Cons.prems by simp
  qed
qed simp

lemma consumes_terminal:
  assumes "inv s" "list_all op_ok ops" "wf_uuid i" "\<forall>d. get s i = Some d \<longrightarrow> terminal (dStatus d)"
  shows "consumes run mark prune i s ops = 0"
  using assms
proof (induction ops arbitrary: s)
  case (Cons op ops)
  then have op: "inv s" "op_ok op" "list_all op_ok ops" by auto
  have "consume_hit run i s op = 0"
  proof (rule consume_hit_cases[of run i s op])
    fix t assume t: "op = OpRun i (EvConsume t)" "snd (run s i (EvConsume t))"
    then obtain d d' where "get s i = Some d" "device_step subject (EvConsume t) d = Some d'"
      using run_result[OF op(1), of "EvConsume t" i] Cons.prems(3) by auto
    then have "terminal (dStatus d)" "dStatus d = StatusApproved"
      using Cons.prems(4) consume_once_step[of subject t d d'] by blast+
    then show ?thesis by (simp add: terminal_def)
  qed
  then show ?case
    using Cons.IH[OF exec_inv[OF op(1,2)] op(3) Cons.prems(3)
        exec_terminal[OF op(1,2) Cons.prems(3,4)]] by simp
qed simp

theorem consumed_at_most_once:
  assumes "inv s" "list_all op_ok ops" "wf_uuid i"
  shows "consumes run mark prune i s ops \<le> 1"
  using assms
proof (induction ops arbitrary: s)
  case (Cons op ops)
  then have op: "inv s" "op_ok op" "list_all op_ok ops" by auto
  note IH = Cons.IH[OF exec_inv[OF op(1,2)] op(3) Cons.prems(3)]
  show ?case
  proof (rule consume_hit_cases[of run i s op])
    assume "consume_hit run i s op = 0"
    then show ?thesis using IH by simp
  next
    fix t assume t: "op = OpRun i (EvConsume t)" "snd (run s i (EvConsume t))"
      "consume_hit run i s op = 1"
    then obtain d d' where d: "get s i = Some d" "device_step subject (EvConsume t) d = Some d'"
      using run_result[OF op(1), of "EvConsume t" i] Cons.prems(3) by auto
    then have "get (exec s op) i = Some d'" "dStatus d' = StatusConsumed"
      using run_get[OF op(1), of "EvConsume t" i i] Cons.prems(3) t(1)
        consume_once_step[of subject t d d'] by (simp_all del: device_step.simps)
    then have "consumes run mark prune i (exec s op) ops = 0"
      by (intro consumes_terminal[OF exec_inv[OF op(1,2)] op(3) Cons.prems(3)]) (simp add: terminal_def)
    then show ?thesis using t(3) by simp
  qed
qed simp

end

section \<open>Both stores keep the contract\<close>

definition dev_key :: "uuid \<Rightarrow> string" where
  "dev_key i = encodeCanonical i"

lemma encode_inject:
  assumes "wf_uuid u" "wf_uuid v" "encodeCanonical u = encodeCanonical v"
  shows "u = v"
proof -
  have "hex_bytes u = hex_bytes v" using assms encode_digits by metis
  then show ?thesis
    using hex_decode_bytes[of u "[]"] hex_decode_bytes[of v "[]"] by simp
qed

subsection \<open>In memory\<close>

definition mem_get :: "device_maps \<Rightarrow> uuid \<Rightarrow> device_authorization option" where
  "mem_get s i = map_of (devByID s) (encodeCanonical i)"

fun mem_run :: "device_maps \<Rightarrow> uuid \<Rightarrow> device_event \<Rightarrow> device_maps \<times> bool" where
  "mem_run s i (EvApprove sub t) = map_prod id (\<lambda>r. r = Inr True) (mem_Approve s i sub t)"
| "mem_run s i (EvDeny t) = mem_Deny s i t"
| "mem_run s i (EvConsume t) = mem_Consume s i t"
| "mem_run s i (EvPoll t) = mem_UpdatePoll s i t"
| "mem_run s i (EvSlowDown t inc) = mem_SlowDown s i t inc"

definition mem_inv :: "device_maps \<Rightarrow> bool" where
  "mem_inv s = distinct (map fst (devByID s))"

lemma mem_run_update:
  "mem_run s i ev =
     (case map_of (devByID s) (encodeCanonical i) of
        None \<Rightarrow> (s, False)
      | Some d \<Rightarrow>
          (case device_step nullableString ev d of
             None \<Rightarrow> (s, False)
           | Some d' \<Rightarrow> (s\<lparr>devByID := put (encodeCanonical i) d' (devByID s)\<rparr>, True)))"
  by (cases ev)
     (auto simp: mem_Approve_def mem_Deny_def mem_Consume_def mem_UpdatePoll_def mem_SlowDown_def
       updateDeviceAuthorization_def Let_def split: option.splits)

lemma map_of_map_snd: "map_of (map (\<lambda>(k, v). (k, f v)) xs) k = map_option f (map_of xs k)"
  by (induction xs) auto

lemma map_of_filter_snd:
  "distinct (map fst xs) \<Longrightarrow>
   map_of (filter (\<lambda>(k, v). P v) xs) k = (case map_of xs k of None \<Rightarrow> None | Some v \<Rightarrow> if P v then Some v else None)"
  by (induction xs) (auto simp: map_of_eq_None_iff split: option.splits intro!: map_of_eq_None_iff[THEN iffD2])

interpretation mem: device_store mem_inv mem_get mem_run mem_MarkExpired mem_Prune nullableString
proof
  fix s ev i
  show "mem_inv s \<Longrightarrow> mem_inv (fst (mem_run s i ev))"
    by (auto simp: mem_run_update mem_inv_def distinct_put split: option.splits)
next
  fix s ev i j
  assume "wf_uuid i" "wf_uuid j"
  then show "mem_get (fst (mem_run s i ev)) j =
      (if j = i then (case mem_get s i of None \<Rightarrow> None
         | Some d \<Rightarrow> Some (case device_step nullableString ev d of None \<Rightarrow> d | Some d' \<Rightarrow> d'))
       else mem_get s j)"
    using encode_inject by (auto simp: mem_run_update mem_get_def split: option.splits)
next
  fix s ev i
  show "snd (mem_run s i ev) \<longleftrightarrow>
      (\<exists>d d'. mem_get s i = Some d \<and> device_step nullableString ev d = Some d')"
    by (auto simp: mem_run_update mem_get_def split: option.splits)
next
  fix s t
  show "mem_inv s \<Longrightarrow> mem_inv (fst (mem_MarkExpired s t))"
    by (simp add: mem_inv_def mem_MarkExpired_def comp_def case_prod_unfold)
next
  fix s t j
  show "mem_get (fst (mem_MarkExpired s t)) j = map_option (expire_one t) (mem_get s j)"
    by (simp add: mem_get_def mem_MarkExpired_def map_of_map_snd)
next
  fix s t
  show "mem_inv s \<Longrightarrow> mem_inv (fst (mem_Prune s t))"
    by (simp add: mem_inv_def mem_Prune_def Let_def distinct_map_filter)
next
  fix s t j
  show "mem_inv s \<Longrightarrow> mem_get (fst (mem_Prune s t)) j =
      (case mem_get s j of None \<Rightarrow> None | Some d \<Rightarrow> if prune_due t d then None else Some d)"
    by (auto simp: mem_get_def mem_Prune_def Let_def mem_inv_def map_of_filter_snd split: option.splits)
qed

subsection \<open>SQLite\<close>

definition sql_get :: "device_table \<Rightarrow> uuid \<Rightarrow> device_authorization option" where
  "sql_get t i = find (\<lambda>r. dID r = i) t"

fun sql_run :: "device_table \<Rightarrow> uuid \<Rightarrow> device_event \<Rightarrow> device_table \<times> bool" where
  "sql_run t i (EvApprove sub now) = map_prod id (\<lambda>r. r = Inr True) (sql_Approve t i sub now)"
| "sql_run t i (EvDeny now) = sql_Deny t i now"
| "sql_run t i (EvConsume now) = sql_Consume t i now"
| "sql_run t i (EvPoll now) = sql_UpdatePoll t i now"
| "sql_run t i (EvSlowDown now inc) = sql_SlowDown t i now inc"

text \<open>Primary key, and approvals never store a blank subject.\<close>

definition sql_inv :: "device_table \<Rightarrow> bool" where
  "sql_inv t =
     (distinct (map dID t) \<and> list_all (\<lambda>r. dSubjectSub r = None \<or> has_subject r) t)"

definition row_step :: "uuid \<Rightarrow> device_event \<Rightarrow> device_authorization \<Rightarrow> device_authorization option" where
  "row_step i ev r = (if dID r = i then device_step Some ev r else None)"

lemma seconds_exact: "0 \<le> inc \<Longrightarrow> inc mod second = 0 \<Longrightarrow> durationToSeconds inc * second = inc"
  by (auto simp: durationToSeconds_def)

lemma sql_update_cong:
  "(\<And>r. r \<in> set t \<Longrightarrow> f r = g r) \<Longrightarrow> sql_update f t = sql_update g t"
  by (auto simp: sql_update_def cong: filter_cong)

lemma sql_run_update:
  assumes "event_ok ev" "sql_inv t"
  shows "sql_run t i ev = map_prod id (\<lambda>n. n > 0) (sql_update (row_step i ev) t)"
proof -
  have subj: "dSubjectSub r \<noteq> None \<longleftrightarrow> has_subject r" if "r \<in> set t" for r
    using that assms(2) by (auto simp: sql_inv_def list_all_iff has_subject_def split: option.splits)
  show ?thesis
  proof (cases ev)
    case (EvApprove sub now)
    show ?thesis
    proof (cases "blank sub")
      case True
      then have "row_step i ev = (\<lambda>r. None)"
        using EvApprove by (simp add: row_step_def fun_eq_iff)
      then have "sql_update (row_step i ev) t = (t, 0)"
        by (simp add: sql_update_def)
      then show ?thesis using True EvApprove by (simp add: sql_Approve_def)
    next
      case False
      then have "sql_update (row_step i ev) t
          = q_ApproveDeviceAuthorization t i (Some sub) now now"
        unfolding q_ApproveDeviceAuthorization_def EvApprove
        by (intro sql_update_cong) (auto simp: row_step_def)
      then show ?thesis
        using False by (simp add: EvApprove sql_Approve_def case_prod_unfold map_prod_def Let_def)
    qed
  next
    case (EvConsume now)
    have "sql_update (row_step i ev) t = q_ConsumeDeviceAuthorization t i now now"
      unfolding q_ConsumeDeviceAuthorization_def EvConsume
      using subj by (intro sql_update_cong) (simp add: row_step_def del: not_None_eq)
    then show ?thesis by (simp add: EvConsume sql_Consume_def case_prod_unfold map_prod_def Let_def)
  next
    case (EvDeny now)
    have "sql_update (row_step i ev) t = q_DenyDeviceAuthorization t i now now"
      unfolding q_DenyDeviceAuthorization_def EvDeny
      by (rule sql_update_cong) (auto simp: row_step_def)
    then show ?thesis by (simp add: EvDeny sql_Deny_def case_prod_unfold map_prod_def Let_def)
  next
    case (EvPoll now)
    have "sql_update (row_step i ev) t = q_UpdateDeviceAuthorizationPoll t i now"
      unfolding q_UpdateDeviceAuthorizationPoll_def EvPoll
      by (rule sql_update_cong) (auto simp: row_step_def)
    then show ?thesis by (simp add: EvPoll sql_UpdatePoll_def case_prod_unfold map_prod_def Let_def)
  next
    case (EvSlowDown now inc)
    have "sql_update (row_step i ev) t
        = q_SlowDownDeviceAuthorizationPoll t i now (durationToSeconds inc)"
      unfolding q_SlowDownDeviceAuthorizationPoll_def EvSlowDown
      using assms(1) EvSlowDown by (intro sql_update_cong) (auto simp: row_step_def seconds_exact)
    then show ?thesis by (simp add: EvSlowDown sql_SlowDown_def case_prod_unfold map_prod_def Let_def)
  qed
qed

lemma row_step_id: "row_step i ev r = Some r' \<Longrightarrow> dID r' = dID r \<and> dID r = i"
  by (auto simp: row_step_def split: if_splits dest: device_step_keeps)

definition row_upd :: "uuid \<Rightarrow> device_event \<Rightarrow> device_authorization \<Rightarrow> device_authorization" where
  "row_upd i ev r = (case row_step i ev r of None \<Rightarrow> r | Some r' \<Rightarrow> r')"

lemma row_upd_id [simp]: "dID (row_upd i ev r) = dID r"
  by (auto simp: row_upd_def dest: row_step_id split: option.splits)

lemma device_step_subject:
  "device_step Some ev d = Some d' \<Longrightarrow> dSubjectSub d = None \<or> has_subject d \<Longrightarrow>
   dSubjectSub d' = None \<or> has_subject d'"
  by (cases ev) (auto simp: has_subject_def split: if_splits)

lemma row_upd_subject:
  "dSubjectSub r = None \<or> has_subject r \<Longrightarrow> dSubjectSub (row_upd i ev r) = None \<or> has_subject (row_upd i ev r)"
  by (auto simp: row_upd_def row_step_def split: option.splits if_splits dest: device_step_subject)

lemma find_map_key:
  "(\<And>r. dID (f r) = dID r) \<Longrightarrow> find (\<lambda>r. dID r = j) (map f t) = map_option f (find (\<lambda>r. dID r = j) t)"
  by (induction t) auto

lemma fst_sql_run: "event_ok ev \<Longrightarrow> sql_inv t \<Longrightarrow> fst (sql_run t i ev) = map (row_upd i ev) t"
  by (simp add: sql_run_update sql_update_def row_upd_def)

lemma find_filter_key:
  "distinct (map dID t) \<Longrightarrow>
   find (\<lambda>r. dID r = j) (filter P t) =
     (case find (\<lambda>r. dID r = j) t of None \<Rightarrow> None | Some r \<Rightarrow> if P r then Some r else None)"
proof (induction t)
  case (Cons r t)
  have "find (\<lambda>x. dID x = dID r) t = None"
    using Cons.prems by (simp add: find_None_iff image_iff) metis
  then show ?case using Cons by auto
qed simp

lemma sql_get_id: "sql_get t j = Some r \<Longrightarrow> dID r = j"
  by (auto simp: sql_get_def dest: find_first)

lemma mark_rows:
  "fst (q_MarkExpiredDeviceAuthorizations t now) = map (expire_one now) t"
  by (auto simp: q_MarkExpiredDeviceAuthorizations_def sql_update_def expire_one_def expire_due_def)

interpretation sql: device_store sql_inv sql_get sql_run q_MarkExpiredDeviceAuthorizations
  q_PruneExpiredDeviceAuthorizations Some
proof
  fix t ev i
  assume a: "sql_inv t" "event_ok ev"
  then have "list_all (\<lambda>r. dSubjectSub r = None \<or> has_subject r) (map (row_upd i ev) t)"
    using row_upd_subject by (simp add: sql_inv_def list_all_iff)
  then show "sql_inv (fst (sql_run t i ev))"
    using a by (simp add: sql_inv_def fst_sql_run comp_def)
next
  fix t ev i j
  assume "sql_inv t" "event_ok ev"
  then have "sql_get (fst (sql_run t i ev)) j = map_option (row_upd i ev) (sql_get t j)"
    unfolding sql_get_def by (simp only: fst_sql_run find_map_key[of "row_upd i ev", OF row_upd_id])
  then show "sql_get (fst (sql_run t i ev)) j =
      (if j = i then (case sql_get t i of None \<Rightarrow> None
         | Some d \<Rightarrow> Some (case device_step Some ev d of None \<Rightarrow> d | Some d' \<Rightarrow> d'))
       else sql_get t j)"
    using sql_get_id[of t j]
    by (cases "sql_get t j") (auto simp: row_upd_def row_step_def split: option.splits)
next
  fix t ev i
  assume a: "sql_inv t" "event_ok ev"
  have "snd (sql_run t i ev) \<longleftrightarrow> (\<exists>r \<in> set t. row_step i ev r \<noteq> None)"
    using a by (auto simp: sql_run_update sql_update_def filter_empty_conv)
  also have "\<dots> \<longleftrightarrow> (\<exists>d d'. sql_get t i = Some d \<and> device_step Some ev d = Some d')"
  proof -
    have "sql_get t i = Some r" if "r \<in> set t" "dID r = i" for r
      unfolding sql_get_def using a that
      by (intro find_unique) (auto simp: sql_inv_def distinct_map inj_on_def)
    then show ?thesis
      by (auto simp: row_step_def sql_get_def split: if_splits dest: find_first)
  qed
  finally show "snd (sql_run t i ev) \<longleftrightarrow>
      (\<exists>d d'. sql_get t i = Some d \<and> device_step Some ev d = Some d')" .
next
  fix t now
  show "sql_inv t \<Longrightarrow> sql_inv (fst (q_MarkExpiredDeviceAuthorizations t now))"
    by (simp add: sql_inv_def mark_rows comp_def list_all_iff)
next
  fix t now j
  show "sql_get (fst (q_MarkExpiredDeviceAuthorizations t now)) j
      = map_option (expire_one now) (sql_get t j)"
    by (simp add: mark_rows sql_get_def find_map_key)
next
  fix t cutoff
  show "sql_inv t \<Longrightarrow> sql_inv (fst (q_PruneExpiredDeviceAuthorizations t cutoff))"
    by (auto simp: sql_inv_def q_PruneExpiredDeviceAuthorizations_def distinct_map_filter list_all_iff)
next
  fix t cutoff j
  show "sql_inv t \<Longrightarrow> sql_get (fst (q_PruneExpiredDeviceAuthorizations t cutoff)) j =
      (case sql_get t j of None \<Rightarrow> None | Some d \<Rightarrow> if prune_due cutoff d then None else Some d)"
    by (auto simp: sql_get_def q_PruneExpiredDeviceAuthorizations_def sql_inv_def find_filter_key
        split: option.splits)
qed

end
