(* ===== verification/EdgeTypes.thy ===== *)
theory EdgeTypes
  imports Directory DeviceStore
begin

text \<open>
  The values the edge's stores and handlers exchange: identity claims and group grants
  (\<^verbatim>\<open>internal/edge/auth.go\<close>), OAuth clients with the checks on scopes, grant types and secrets
  (\<^verbatim>\<open>oauth.go\<close>, \<^verbatim>\<open>state_store.go\<close>), and token values with their extension fields.
\<close>

section \<open>Identity and group grants\<close>

record identity_claims =
  cSub :: string
  cSubjectKey :: string
  cEmail :: string
  cName :: string
  cPreferredUsername :: string
  cAccountBindingID :: string
  cAccountBindingClaim :: string
  cGroups :: "string list"

definition groupMCPAdmin :: string where "groupMCPAdmin = ''mcp-admin''"

definition groupMCPUsers :: string where "groupMCPUsers = ''mcp-users''"

definition grantGroupForService :: "string \<Rightarrow> string" where
  "grantGroupForService serviceID = ''mcp-service-'' @ serviceID"

definition identityHasGrant :: "identity_claims \<Rightarrow> string \<Rightarrow> bool" where
  "identityHasGrant claims serviceID =
     (if groupMCPAdmin \<in> set (cGroups claims) then True
      else if groupMCPUsers \<notin> set (cGroups claims) then False
      else grantGroupForService serviceID \<in> set (cGroups claims))"

fun firstNonEmpty :: "string list \<Rightarrow> string" where
  "firstNonEmpty [] = []"
| "firstNonEmpty (v # vs) = (if \<not> blank v then trim_space v else firstNonEmpty vs)"

section \<open>Clients\<close>

record confidential_client =
  ccID :: string
  ccDomain :: string
  ccUserID :: string
  ccSecret :: string
  ccSecretHash :: string
  ccScopes :: "string list"
  ccGrantTypes :: "string list"

text \<open>
  What the client interface can hold: nothing, the gateway's own client, or the client of the
  OAuth library, which lists no scopes and no grant types and verifies no password.
\<close>

datatype client_info =
    NilClient
  | Confidential confidential_client
  | LibraryClient string string bool \<comment> \<open>identifier, secret, public\<close>

definition ccIsPublic :: "confidential_client \<Rightarrow> bool" where
  "ccIsPublic c = (ccSecret c = [] \<and> ccSecretHash c = [])"

definition VerifyPassword :: "(string \<Rightarrow> string) \<Rightarrow> confidential_client \<Rightarrow> string \<Rightarrow> bool" where
  "VerifyPassword hash c secret =
     (if ccSecretHash c = [] then ccSecret c = secret else ccSecretHash c = hash secret)"

definition scopeStringAllowed :: "string \<Rightarrow> string list \<Rightarrow> bool" where
  "scopeStringAllowed scope allowed =
     (if blank scope then True else list_all (\<lambda>requested. requested \<in> set allowed) (go_fields scope))"

fun clientAllowsScope :: "client_info \<Rightarrow> string \<Rightarrow> bool" where
  "clientAllowsScope ci scope =
     (if blank scope then True
      else case ci of Confidential c \<Rightarrow> scopeStringAllowed scope (ccScopes c) | _ \<Rightarrow> False)"

definition grantAuthorizationCode :: string where "grantAuthorizationCode = ''authorization_code''"

definition grantRefreshToken :: string where "grantRefreshToken = ''refresh_token''"

definition grantDeviceCode :: string where
  "grantDeviceCode = ''urn:ietf:params:oauth:grant-type:device_code''"

definition clientAllowsGrant :: "client_info \<Rightarrow> string \<Rightarrow> bool" where
  "clientAllowsGrant ci grantType =
     (let g = trim_space grantType in
      if g = [] then False
      else case ci of
          Confidential c \<Rightarrow> g \<in> set (ccGrantTypes c)
        | _ \<Rightarrow> g = grantAuthorizationCode \<or> g = grantRefreshToken)"

fun verifyClientSecretForTokenRequest :: "(string \<Rightarrow> string) \<Rightarrow> client_info \<Rightarrow> string \<Rightarrow> bool" where
  "verifyClientSecretForTokenRequest hash NilClient secret = False"
| "verifyClientSecretForTokenRequest hash (Confidential c) secret = VerifyPassword hash c secret"
| "verifyClientSecretForTokenRequest hash (LibraryClient i s public) secret =
     (if public then blank secret else s \<noteq> [] \<and> s = secret)"

definition redirectURIDomain :: "string list \<Rightarrow> string" where
  "redirectURIDomain values = (if values = [] then [] else join [CHR 0x0A] values)"

text \<open>A registration as the endpoints hand it to the store.\<close>

datatype auth_method = MethodNone | MethodClientPost | MethodClientBasic | MethodOther string

record registered_client =
  rcID :: string
  rcSecret :: string
  rcName :: string
  rcRedirectURIs :: "string list"
  rcGrantTypes :: "string list"
  rcResponseTypes :: "string list"
  rcAuthMethod :: auth_method
  rcScopes :: "string list"
  rcCreatedAt :: time

lemma scopeStringAllowed_mono:
  "scopeStringAllowed scope xs \<Longrightarrow> set xs \<subseteq> set ys \<Longrightarrow> scopeStringAllowed scope ys"
  by (auto simp: scopeStringAllowed_def list_all_iff)

lemma identityHasGrant_iff:
  "identityHasGrant c s \<longleftrightarrow>
     groupMCPAdmin \<in> set (cGroups c)
     \<or> groupMCPUsers \<in> set (cGroups c) \<and> grantGroupForService s \<in> set (cGroups c)"
  by (auto simp: identityHasGrant_def)

section \<open>Tokens\<close>

text \<open>The fields of the library's token; the extension holds one value for each key.\<close>

record token =
  tClientID :: string
  tUserID :: string
  tRedirectURI :: string
  tScope :: string
  tCode :: string
  tCodeCreateAt :: time
  tCodeExpiresIn :: duration
  tCodeChallenge :: string
  tCodeChallengeMethod :: string
  tAccess :: string
  tAccessCreateAt :: time
  tAccessExpiresIn :: duration
  tRefresh :: string
  tRefreshCreateAt :: time
  tRefreshExpiresIn :: duration
  tExtension :: "(string \<times> string) list"

definition new_token :: token where
  "new_token =
     \<lparr>tClientID = [], tUserID = [], tRedirectURI = [], tScope = [], tCode = [], tCodeCreateAt = 0,
      tCodeExpiresIn = 0, tCodeChallenge = [], tCodeChallengeMethod = [], tAccess = [],
      tAccessCreateAt = 0, tAccessExpiresIn = 0, tRefresh = [], tRefreshCreateAt = 0,
      tRefreshExpiresIn = 0, tExtension = []\<rparr>"

definition ext_get :: "token \<Rightarrow> string \<Rightarrow> string" where
  "ext_get t k = clamp_some (map_of (tExtension t) k) []"

definition ext_set :: "string \<Rightarrow> string \<Rightarrow> token \<Rightarrow> token" where
  "ext_set k v t = t\<lparr>tExtension := put k v (tExtension t)\<rparr>"

lemma ext_get_set [simp]: "ext_get (ext_set k v t) k' = (if k' = k then v else ext_get t k')"
  by (simp add: ext_get_def ext_set_def)

lemma ext_set_keeps [simp]:
  "tClientID (ext_set k v t) = tClientID t" "tUserID (ext_set k v t) = tUserID t"
  "tScope (ext_set k v t) = tScope t" "tAccess (ext_set k v t) = tAccess t"
  "tRefresh (ext_set k v t) = tRefresh t" "tCode (ext_set k v t) = tCode t"
  "tRedirectURI (ext_set k v t) = tRedirectURI t"
  "tCodeCreateAt (ext_set k v t) = tCodeCreateAt t" "tCodeExpiresIn (ext_set k v t) = tCodeExpiresIn t"
  "tCodeChallenge (ext_set k v t) = tCodeChallenge t"
  "tCodeChallengeMethod (ext_set k v t) = tCodeChallengeMethod t"
  "tAccessCreateAt (ext_set k v t) = tAccessCreateAt t"
  "tAccessExpiresIn (ext_set k v t) = tAccessExpiresIn t"
  "tRefreshCreateAt (ext_set k v t) = tRefreshCreateAt t"
  "tRefreshExpiresIn (ext_set k v t) = tRefreshExpiresIn t"
  by (simp_all add: ext_set_def)

lemma ext_get_update [simp]:
  "ext_get (tClientID_update f t) k = ext_get t k"
  "ext_get (tUserID_update f t) k = ext_get t k"
  "ext_get (tRedirectURI_update f t) k = ext_get t k"
  "ext_get (tScope_update f t) k = ext_get t k"
  "ext_get (tCode_update f t) k = ext_get t k"
  "ext_get (tCodeCreateAt_update g t) k = ext_get t k"
  "ext_get (tCodeExpiresIn_update g t) k = ext_get t k"
  "ext_get (tCodeChallenge_update f t) k = ext_get t k"
  "ext_get (tCodeChallengeMethod_update f t) k = ext_get t k"
  "ext_get (tAccess_update f t) k = ext_get t k"
  "ext_get (tAccessCreateAt_update g t) k = ext_get t k"
  "ext_get (tAccessExpiresIn_update g t) k = ext_get t k"
  "ext_get (tRefresh_update f t) k = ext_get t k"
  "ext_get (tRefreshCreateAt_update g t) k = ext_get t k"
  "ext_get (tRefreshExpiresIn_update g t) k = ext_get t k"
  by (simp_all add: ext_get_def)

definition tokenInfoSessionID :: "token \<Rightarrow> string" where
  "tokenInfoSessionID t = trim_space (ext_get t ''sid'')"

definition clean_resource :: "string \<Rightarrow> string" where
  "clean_resource r = trim_right slash (trim_space r)"

definition tokenInfoResource :: "token \<Rightarrow> string" where
  "tokenInfoResource t = clean_resource (ext_get t ''resource'')"

definition tokenInfoIssuedVia :: "token \<Rightarrow> string" where
  "tokenInfoIssuedVia t = trim_space (ext_get t ''issued_via'')"

definition tokenInfoOperatorReason :: "token \<Rightarrow> string" where
  "tokenInfoOperatorReason t = trim_space (ext_get t ''operator_reason'')"

definition tokenInfoAuthorizationDetails :: "token \<Rightarrow> string" where
  "tokenInfoAuthorizationDetails t = trim_space (ext_get t ''authorization_details'')"

definition tokenInfoPolicyBindingID :: "token \<Rightarrow> string" where
  "tokenInfoPolicyBindingID t = trim_space (ext_get t ''policy_binding_id'')"

definition tokenInfoShareID :: "token \<Rightarrow> (go_error, uuid option) result" where
  "tokenInfoShareID t =
     (let v = trim_space (ext_get t ''share_id'') in
      if v = [] then Inr None else bind_result (Parse v) (\<lambda>u. Inr (Some u)))"

definition setTokenInfoResource :: "token \<Rightarrow> string \<Rightarrow> token" where
  "setTokenInfoResource t resource =
     (let r = clean_resource resource in if r = [] then t else ext_set ''resource'' r t)"

definition setTokenInfoSessionID :: "token \<Rightarrow> string \<Rightarrow> token" where
  "setTokenInfoSessionID t sid = ext_set ''sid'' sid t"

definition setTokenInfoIssuedVia :: "token \<Rightarrow> string \<Rightarrow> token" where
  "setTokenInfoIssuedVia t via = ext_set ''issued_via'' (trim_space via) t"

definition setTokenInfoOperatorReason :: "token \<Rightarrow> string \<Rightarrow> token" where
  "setTokenInfoOperatorReason t reason =
     (let r = trim_space reason in if r = [] then t else ext_set ''operator_reason'' r t)"

definition setTokenInfoAuthorizationMetadata ::
  "token \<Rightarrow> string \<Rightarrow> string option \<Rightarrow> uuid option \<Rightarrow> token" where
  "setTokenInfoAuthorizationMetadata t details policyBindingID shareID =
     (let t1 = (if blank details then t else ext_set ''authorization_details'' (trim_space details) t);
          t2 = (case policyBindingID of
                  Some p \<Rightarrow> if blank p then t1 else ext_set ''policy_binding_id'' (trim_space p) t1
                | None \<Rightarrow> t1)
      in case shareID of
           Some u \<Rightarrow> if IsZero u then t2 else ext_set ''share_id'' (encodeCanonical u) t2
         | None \<Rightarrow> t2)"

text \<open>The closure \<^verbatim>\<open>add\<close> and its three uses, in the code's order.\<close>

definition add_expiry :: "time \<Rightarrow> duration \<Rightarrow> time \<Rightarrow> time" where
  "add_expiry start duration expiry =
     (if start = 0 \<or> duration \<le> 0 then expiry
      else let candidate = start + duration in
        if expiry = 0 \<or> candidate > expiry then candidate else expiry)"

definition buildTokenSessionExpiry :: "token \<Rightarrow> time option" where
  "buildTokenSessionExpiry t =
     (let e1 = add_expiry (tCodeCreateAt t) (tCodeExpiresIn t) 0;
          e2 = add_expiry (tAccessCreateAt t) (tAccessExpiresIn t) e1;
          e3 = add_expiry (tRefreshCreateAt t) (tRefreshExpiresIn t) e2
      in if e3 = 0 then None else Some e3)"

definition validateExpectedResourceBinding :: "string \<Rightarrow> string \<Rightarrow> (go_error, unit) result" where
  "validateExpectedResourceBinding expected tokenResource =
     guard (clean_resource expected = [] \<or> clean_resource expected = clean_resource tokenResource)
       (Errorf ''token was not issued for this MCP resource'')"

definition validateRefreshClientBinding :: "string \<Rightarrow> string \<Rightarrow> (go_error, unit) result" where
  "validateRefreshClientBinding expectedClientID tokenClientID =
     guard (expectedClientID = [] \<or> expectedClientID = tokenClientID)
       (Errorf ''refresh token was not issued to this OAuth client'')"

end
