(* ===== verification/Sessions.thy ===== *)
theory Sessions
  imports EdgeTypes
begin

text \<open>
  OAuth sessions in SQLite (\<^verbatim>\<open>internal/edge/state_store.go\<close> and the queries of
  \<^verbatim>\<open>platformdb/edge.sql.go\<close>): the row built from a token, the upsert, the lookups by hash, the
  one-time consumption of authorization codes and refresh tokens, and the token built back from
  a row.  The digest \<^verbatim>\<open>hash\<close>, the cipher (\<^verbatim>\<open>enc\<close>, \<^verbatim>\<open>dec\<close>) and the length of a JSON array are
  parameters: they belong to the standard library.
\<close>

record oauth_session =
  oSessionID :: uuid
  oSubjectSub :: "string option"
  oClientID :: string
  oServiceID :: "string option"
  oResource :: string
  oRedirectURI :: string
  oScope :: string
  oCodeChallenge :: "string option"
  oCodeChallengeMethod :: "string option"
  oCodeHash :: "string option"
  oCodeCipher :: string
  oAccessHash :: "string option"
  oAccessCipher :: string
  oRefreshHash :: "string option"
  oRefreshCipher :: string
  oCodeCreateAt :: "time option"
  oCodeExpiresIn :: int
  oAccessCreateAt :: "time option"
  oAccessExpiresIn :: int
  oRefreshCreateAt :: "time option"
  oRefreshExpiresIn :: int
  oExpiresAt :: "time option"
  oIssuedVia :: string
  oOperatorReason :: "string option"
  oAuthorizationDetails :: string
  oPolicyBindingID :: "string option"
  oShareID :: "uuid option"
  oConsumed :: bool

type_synonym session_table = "oauth_session list"

definition nullif_empty :: "string \<Rightarrow> string option" where
  "nullif_empty s = (if s = [] then None else Some s)"

definition sqliteNullTime :: "time \<Rightarrow> time option" where
  "sqliteNullTime t = (if t = 0 then None else Some t)"

definition encryptOpaqueValue :: "(string \<Rightarrow> string) \<Rightarrow> (string \<Rightarrow> string) \<Rightarrow> string \<Rightarrow> string option \<times> string" where
  "encryptOpaqueValue hash enc value =
     (let v = trim_space value in if v = [] then (None, []) else (Some (hash v), enc v))"

definition singleServiceIDFromScope :: "string \<Rightarrow> string" where
  "singleServiceIDFromScope scope =
     (case RequestedServiceScopes scope of
        (ids, valid) \<Rightarrow> if \<not> valid \<or> length ids \<noteq> 1 then [] else hd ids)"

definition normalizeAuthorizationDetailsJSON ::
  "(string \<Rightarrow> (go_error, nat option) result) \<Rightarrow> string \<Rightarrow> (go_error, string) result" where
  "normalizeAuthorizationDetailsJSON json_array raw =
     (let r = trim_space raw in
      if r = [] then Inr ''[]''
      else case json_array r of
          Inl e \<Rightarrow> Inl (Errorf ''authorization_details must be valid JSON array'')
        | Inr None \<Rightarrow> Inl (Errorf ''authorization_details must be a JSON array'')
        | Inr (Some n) \<Rightarrow>
            if n > 0 then Inl (Errorf ''authorization_details contains unsupported entries'')
            else Inr ''[]'')"

record crypto =
  cr_hash :: "string \<Rightarrow> string"
  cr_enc :: "string \<Rightarrow> string"
  cr_dec :: "string \<Rightarrow> string option"
  cr_json_array :: "string \<Rightarrow> (go_error, nat option) result"

text \<open>
  The row of a token.  A token without a session identifier gets the fresh one \<^verbatim>\<open>newID\<close>, and the
  token is changed accordingly; the write of the subject is in \<^verbatim>\<open>sql_ensureSubject\<close>.
\<close>

definition buildUpsertOAuthSessionParams ::
  "crypto \<Rightarrow> uuid \<Rightarrow> token \<Rightarrow> (go_error, oauth_session \<times> token) result" where
  "buildUpsertOAuthSessionParams cr newID info =
     (let sid0 = tokenInfoSessionID info;
          sid = (if sid0 = [] then encodeCanonical newID else sid0);
          info' = (if sid0 = [] then setTokenInfoSessionID info sid else info)
      in bind_result (Parse sid) (\<lambda>parsed.
         let (codeHash, codeCipher) = encryptOpaqueValue (cr_hash cr) (cr_enc cr) (tCode info');
             (accessHash, accessCipher) = encryptOpaqueValue (cr_hash cr) (cr_enc cr) (tAccess info');
             (refreshHash, refreshCipher) = encryptOpaqueValue (cr_hash cr) (cr_enc cr) (tRefresh info');
             via = tokenInfoIssuedVia info'
         in bind_result (normalizeAuthorizationDetailsJSON (cr_json_array cr) (tokenInfoAuthorizationDetails info'))
           (\<lambda>details. bind_result (tokenInfoShareID info') (\<lambda>share.
           Inr (\<lparr>oSessionID = parsed,
             oSubjectSub = nullif_empty (tUserID info'),
             oClientID = tClientID info',
             oServiceID = nullif_empty (singleServiceIDFromScope (tScope info')),
             oResource = tokenInfoResource info',
             oRedirectURI = tRedirectURI info',
             oScope = tScope info',
             oCodeChallenge = nullif_empty (tCodeChallenge info'),
             oCodeChallengeMethod = nullif_empty (tCodeChallengeMethod info'),
             oCodeHash = codeHash, oCodeCipher = codeCipher,
             oAccessHash = accessHash, oAccessCipher = accessCipher,
             oRefreshHash = refreshHash, oRefreshCipher = refreshCipher,
             oCodeCreateAt = sqliteNullTime (tCodeCreateAt info'),
             oCodeExpiresIn = durationToSeconds (tCodeExpiresIn info'),
             oAccessCreateAt = sqliteNullTime (tAccessCreateAt info'),
             oAccessExpiresIn = durationToSeconds (tAccessExpiresIn info'),
             oRefreshCreateAt = sqliteNullTime (tRefreshCreateAt info'),
             oRefreshExpiresIn = durationToSeconds (tRefreshExpiresIn info'),
             oExpiresAt = buildTokenSessionExpiry info',
             oIssuedVia = (if via = [] then ''oauth'' else via),
             oOperatorReason = nullif_empty (tokenInfoOperatorReason info'),
             oAuthorizationDetails = details,
             oPolicyBindingID = nullif_empty (tokenInfoPolicyBindingID info'),
             oShareID = (case share of Some u \<Rightarrow> if IsZero u then None else Some u | None \<Rightarrow> None),
             oConsumed = False\<rparr>, info')))))"

section \<open>The queries\<close>

definition clash :: "('r \<Rightarrow> string option) \<Rightarrow> 'r \<Rightarrow> 'r \<Rightarrow> bool" where
  "clash col r x = (col r \<noteq> None \<and> col x = col r)"

text \<open>\<^verbatim>\<open>UpsertOAuthSession\<close>, with the unique indexes on the three hashes.\<close>

definition q_UpsertOAuthSession :: "session_table \<Rightarrow> oauth_session \<Rightarrow> (go_error, session_table) result" where
  "q_UpsertOAuthSession t r =
     (let others = filter (\<lambda>x. oSessionID x \<noteq> oSessionID r) t in
      if list_ex (\<lambda>x. clash oCodeHash r x \<or> clash oAccessHash r x \<or> clash oRefreshHash r x) others
      then Inl (Errorf ''UNIQUE constraint failed'')
      else if list_ex (\<lambda>x. oSessionID x = oSessionID r) t
      then Inr (map (\<lambda>x. if oSessionID x = oSessionID r then r\<lparr>oConsumed := False\<rparr> else x) t)
      else Inr (t @ [r\<lparr>oConsumed := False\<rparr>]))"

definition q_get :: "(oauth_session \<Rightarrow> string option) \<Rightarrow> session_table \<Rightarrow> string \<Rightarrow> oauth_session option" where
  "q_get col t h = find (\<lambda>x. col x = Some h) t"

definition q_GetOAuthSessionByCodeHash :: "session_table \<Rightarrow> string \<Rightarrow> oauth_session option" where
  "q_GetOAuthSessionByCodeHash = q_get oCodeHash"

definition q_GetOAuthSessionByAccessHash :: "session_table \<Rightarrow> string \<Rightarrow> oauth_session option" where
  "q_GetOAuthSessionByAccessHash = q_get oAccessHash"

definition q_GetOAuthSessionByRefreshHash :: "session_table \<Rightarrow> string \<Rightarrow> oauth_session option" where
  "q_GetOAuthSessionByRefreshHash = q_get oRefreshHash"

text \<open>\<^verbatim>\<open>UPDATE ... SET consumed_at ... WHERE <hash> = ? AND consumed_at IS NULL RETURNING\<close>.\<close>

definition q_consume :: "(oauth_session \<Rightarrow> string option) \<Rightarrow> session_table \<Rightarrow> string
    \<Rightarrow> session_table \<times> oauth_session option" where
  "q_consume col t h =
     (map (\<lambda>x. if col x = Some h \<and> \<not> oConsumed x then x\<lparr>oConsumed := True\<rparr> else x) t,
      map_option (\<lambda>x. x\<lparr>oConsumed := True\<rparr>) (find (\<lambda>x. col x = Some h \<and> \<not> oConsumed x) t))"

definition q_ConsumeOAuthSessionByCodeHash :: "session_table \<Rightarrow> string \<Rightarrow> session_table \<times> oauth_session option" where
  "q_ConsumeOAuthSessionByCodeHash = q_consume oCodeHash"

definition q_ConsumeOAuthSessionByRefreshHash :: "session_table \<Rightarrow> string \<Rightarrow> session_table \<times> oauth_session option" where
  "q_ConsumeOAuthSessionByRefreshHash = q_consume oRefreshHash"

definition q_DeleteOAuthSessionByCodeHash :: "session_table \<Rightarrow> string \<Rightarrow> session_table" where
  "q_DeleteOAuthSessionByCodeHash t h = filter (\<lambda>x. oCodeHash x \<noteq> Some h) t"

definition q_DeleteOAuthSessionByAccessHash :: "session_table \<Rightarrow> string \<Rightarrow> session_table" where
  "q_DeleteOAuthSessionByAccessHash t h = filter (\<lambda>x. oAccessHash x \<noteq> Some h) t"

definition q_DeleteOAuthSessionByRefreshHash :: "session_table \<Rightarrow> string \<Rightarrow> session_table" where
  "q_DeleteOAuthSessionByRefreshHash t h = filter (\<lambda>x. oRefreshHash x \<noteq> Some h) t"

definition operator_row :: "uuid \<Rightarrow> string \<Rightarrow> oauth_session \<Rightarrow> bool" where
  "operator_row i clientID x =
     (oSessionID x = i \<and> oIssuedVia x = ''operator'' \<and> oClientID x = clientID)"

definition q_DeleteOperatorOAuthSessionByID :: "session_table \<Rightarrow> uuid \<Rightarrow> string \<Rightarrow> session_table \<times> nat" where
  "q_DeleteOperatorOAuthSessionByID t i clientID =
     (filter (\<lambda>x. \<not> operator_row i clientID x) t, length (filter (operator_row i clientID) t))"

section \<open>The store's operations\<close>

definition sql_Create :: "crypto \<Rightarrow> uuid \<Rightarrow> session_table \<Rightarrow> token \<Rightarrow> (go_error, session_table) result" where
  "sql_Create cr newID t info =
     bind_result (buildUpsertOAuthSessionParams cr newID info) (\<lambda>(row, _). q_UpsertOAuthSession t row)"

definition sql_RemoveByCode :: "crypto \<Rightarrow> session_table \<Rightarrow> string \<Rightarrow> session_table" where
  "sql_RemoveByCode cr t code =
     (if blank code then t else q_DeleteOAuthSessionByCodeHash t (cr_hash cr code))"

definition sql_RemoveByAccess :: "crypto \<Rightarrow> session_table \<Rightarrow> string \<Rightarrow> session_table" where
  "sql_RemoveByAccess cr t access =
     (if blank access then t else q_DeleteOAuthSessionByAccessHash t (cr_hash cr access))"

definition sql_RemoveByRefresh :: "crypto \<Rightarrow> session_table \<Rightarrow> string \<Rightarrow> session_table" where
  "sql_RemoveByRefresh cr t refresh =
     (if blank refresh then t else q_DeleteOAuthSessionByRefreshHash t (cr_hash cr refresh))"

definition sql_DeleteOperatorOAuthSessionByID :: "session_table \<Rightarrow> uuid \<Rightarrow> string \<Rightarrow> session_table \<times> bool" where
  "sql_DeleteOperatorOAuthSessionByID t i clientID =
     (let (t', rows) = q_DeleteOperatorOAuthSessionByID t i clientID in (t', rows > 0))"

datatype hash_column = ColumnCode | ColumnAccess | ColumnRefresh | ColumnOther

definition lookupTokenRecord :: "crypto \<Rightarrow> session_table \<Rightarrow> hash_column \<Rightarrow> string
    \<Rightarrow> (go_error, oauth_session option) result" where
  "lookupTokenRecord cr t column rawValue =
     (if blank rawValue then Inr None
      else let h = cr_hash cr rawValue in
        case column of
          ColumnCode \<Rightarrow> Inr (q_GetOAuthSessionByCodeHash t h)
        | ColumnAccess \<Rightarrow> Inr (q_GetOAuthSessionByAccessHash t h)
        | ColumnRefresh \<Rightarrow> Inr (q_GetOAuthSessionByRefreshHash t h)
        | ColumnOther \<Rightarrow> Inl (Errorf ''unsupported oauth session lookup column''))"

definition consumeTokenRecord :: "crypto \<Rightarrow> session_table \<Rightarrow> hash_column \<Rightarrow> string
    \<Rightarrow> session_table \<times> (go_error, oauth_session option) result" where
  "consumeTokenRecord cr t column rawValue =
     (if blank rawValue then (t, Inr None)
      else let h = cr_hash cr rawValue in
        case column of
          ColumnCode \<Rightarrow> map_prod id Inr (q_ConsumeOAuthSessionByCodeHash t h)
        | ColumnRefresh \<Rightarrow> map_prod id Inr (q_ConsumeOAuthSessionByRefreshHash t h)
        | _ \<Rightarrow> (t, Inl (Errorf ''unsupported oauth session consume column'')))"

text \<open>A secret of the row: as given if it was given, decrypted otherwise.\<close>

definition reveal :: "crypto \<Rightarrow> string option \<Rightarrow> string \<Rightarrow> string \<Rightarrow> (go_error, string) result" where
  "reveal cr h cipher raw =
     (case h of
        None \<Rightarrow> Inr []
      | Some _ \<Rightarrow>
          if \<not> blank raw then Inr raw
          else if cipher = [] then Inr []
          else case cr_dec cr cipher of
              None \<Rightarrow> Inl (Errorf ''decrypt opaque value'')
            | Some v \<Rightarrow> Inr v)"

definition buildTokenInfo :: "crypto \<Rightarrow> oauth_session \<Rightarrow> string \<Rightarrow> string \<Rightarrow> string \<Rightarrow> (go_error, token) result" where
  "buildTokenInfo cr r rawCode rawAccess rawRefresh =
     (let t0 = setTokenInfoSessionID new_token (encodeCanonical (oSessionID r));
          t1 = t0\<lparr>tClientID := oClientID r, tUserID := clamp_some (oSubjectSub r) [],
                  tRedirectURI := oRedirectURI r, tScope := oScope r\<rparr>;
          t2 = setTokenInfoIssuedVia (setTokenInfoResource t1 (oResource r)) (oIssuedVia r);
          t3 = setTokenInfoAuthorizationMetadata t2 (oAuthorizationDetails r) (oPolicyBindingID r) (oShareID r);
          t4 = t3\<lparr>tCodeChallenge := clamp_some (oCodeChallenge r) [],
                  tCodeChallengeMethod := clamp_some (oCodeChallengeMethod r) [],
                  tCodeCreateAt := clamp_some (oCodeCreateAt r) 0,
                  tCodeExpiresIn := durationFromSeconds (oCodeExpiresIn r),
                  tAccessCreateAt := clamp_some (oAccessCreateAt r) 0,
                  tAccessExpiresIn := durationFromSeconds (oAccessExpiresIn r),
                  tRefreshCreateAt := clamp_some (oRefreshCreateAt r) 0,
                  tRefreshExpiresIn := durationFromSeconds (oRefreshExpiresIn r)\<rparr>
      in bind_result (reveal cr (oCodeHash r) (oCodeCipher r) rawCode) (\<lambda>code.
         bind_result (reveal cr (oAccessHash r) (oAccessCipher r) rawAccess) (\<lambda>access.
         bind_result (reveal cr (oRefreshHash r) (oRefreshCipher r) rawRefresh) (\<lambda>refresh.
         Inr (t4\<lparr>tCode := code, tAccess := access, tRefresh := refresh\<rparr>)))))"

text \<open>
  The checks before a code or refresh token is consumed: the client (its lookup is an argument),
  its scopes, and the grants of the subject.
\<close>

definition validateOAuthSessionAuthorization ::
  "(string \<Rightarrow> (go_error, client_info) result) \<Rightarrow> allowed_fn \<Rightarrow> oauth_session \<Rightarrow> (go_error, unit) result" where
  "validateOAuthSessionAuthorization getByID allowedScopes r =
     bind_result (getByID (oClientID r)) (\<lambda>client.
       if \<not> clientAllowsScope client (oScope r)
       then Inl (Errorf ''oauth client is not registered for requested scope'')
       else case oSubjectSub r of
           None \<Rightarrow> Inr ()
         | Some sub \<Rightarrow>
             if blank (oScope r) then Inr ()
             else bind_result (allowedScopes sub (oScope r)) (\<lambda>ok.
               guard ok (Errorf ''requested scope is not granted for this subject'')))"

text \<open>The values the handler puts in the request's context: the expected resource and client.\<close>

record request_context =
  expectedResource :: string
  refreshClientID :: string

definition sql_GetByCode :: "crypto \<Rightarrow> (string \<Rightarrow> (go_error, client_info) result) \<Rightarrow> allowed_fn
    \<Rightarrow> request_context \<Rightarrow> session_table \<Rightarrow> string
    \<Rightarrow> session_table \<times> (go_error, token option) result" where
  "sql_GetByCode cr getByID allowedScopes ctx t code =
     (case lookupTokenRecord cr t ColumnCode code of
        Inl e \<Rightarrow> (t, Inl e)
      | Inr None \<Rightarrow> (t, Inr None)
      | Inr (Some pre) \<Rightarrow>
          (case bind_result (validateOAuthSessionAuthorization getByID allowedScopes pre)
                  (\<lambda>_. validateExpectedResourceBinding (expectedResource ctx) (oResource pre)) of
             Inl e \<Rightarrow> (t, Inl e)
           | Inr _ \<Rightarrow>
               (case consumeTokenRecord cr t ColumnCode code of
                  (t', Inl e) \<Rightarrow> (t', Inl e)
                | (t', Inr None) \<Rightarrow> (t', Inr None)
                | (t', Inr (Some r)) \<Rightarrow>
                    (t', bind_result (buildTokenInfo cr r code [] []) (\<lambda>tok. Inr (Some tok))))))"

definition sql_GetByRefresh :: "crypto \<Rightarrow> (string \<Rightarrow> (go_error, client_info) result) \<Rightarrow> allowed_fn
    \<Rightarrow> request_context \<Rightarrow> session_table \<Rightarrow> string
    \<Rightarrow> session_table \<times> (go_error, token option) result" where
  "sql_GetByRefresh cr getByID allowedScopes ctx t refresh =
     (case lookupTokenRecord cr t ColumnRefresh refresh of
        Inl e \<Rightarrow> (t, Inl e)
      | Inr None \<Rightarrow> (t, Inr None)
      | Inr (Some pre) \<Rightarrow>
          (case bind_result (validateRefreshClientBinding (refreshClientID ctx) (oClientID pre)) (\<lambda>_.
                bind_result (validateOAuthSessionAuthorization getByID allowedScopes pre) (\<lambda>_.
                validateExpectedResourceBinding (expectedResource ctx) (oResource pre))) of
             Inl e \<Rightarrow> (t, Inl e)
           | Inr _ \<Rightarrow>
               (case consumeTokenRecord cr t ColumnRefresh refresh of
                  (t', Inl e) \<Rightarrow> (t', Inl e)
                | (t', Inr None) \<Rightarrow> (t', Inr None)
                | (t', Inr (Some r)) \<Rightarrow>
                    (t', bind_result (buildTokenInfo cr r [] [] refresh) (\<lambda>tok. Inr (Some tok))))))"

definition sql_GetByAccess :: "crypto \<Rightarrow> session_table \<Rightarrow> string \<Rightarrow> (go_error, token option) result" where
  "sql_GetByAccess cr t access =
     bind_result (lookupTokenRecord cr t ColumnAccess access) (\<lambda>r.
       case r of
         None \<Rightarrow> Inr None
       | Some row \<Rightarrow> bind_result (buildTokenInfo cr row [] access []) (\<lambda>tok. Inr (Some tok)))"

section \<open>Single use\<close>

text \<open>
  A code (or refresh token) whose rows are all consumed stays unusable: no operation of the store
  revives it, except an upsert that brings the same hash again.
\<close>

definition spent :: "(oauth_session \<Rightarrow> string option) \<Rightarrow> string \<Rightarrow> session_table \<Rightarrow> bool" where
  "spent col h t = list_all (\<lambda>x. col x = Some h \<longrightarrow> oConsumed x) t"

lemma consumed_keeps_hashes [simp]:
  "oCodeHash (x\<lparr>oConsumed := b\<rparr>) = oCodeHash x" "oRefreshHash (x\<lparr>oConsumed := b\<rparr>) = oRefreshHash x"
  "oAccessHash (x\<lparr>oConsumed := b\<rparr>) = oAccessHash x"
  by simp_all

lemma spent_after_consume:
  assumes "\<And>x b. col (x\<lparr>oConsumed := b\<rparr>) = col x"
  shows "spent col h (fst (q_consume col t h))"
  using assms by (auto simp: spent_def q_consume_def list_all_iff)

lemma spent_consume:
  assumes "\<And>x b. col (x\<lparr>oConsumed := b\<rparr>) = col x" "\<And>x b. col' (x\<lparr>oConsumed := b\<rparr>) = col' x" "spent col h t"
  shows "spent col h (fst (q_consume col' t h'))"
  using assms by (auto simp: spent_def q_consume_def list_all_iff)

lemma spent_filter: "spent col h t \<Longrightarrow> spent col h (filter P t)"
  by (auto simp: spent_def list_all_iff)

lemma spent_upsert:
  assumes "spent col h t" "q_UpsertOAuthSession t r = Inr t'" "col (r\<lparr>oConsumed := False\<rparr>) \<noteq> Some h"
  shows "spent col h t'"
  using assms by (auto simp: spent_def q_UpsertOAuthSession_def Let_def list_all_iff split: if_splits)

lemma spent_consume_none: "spent col h t \<Longrightarrow> snd (q_consume col t h) = None"
  by (auto simp: spent_def q_consume_def list_all_iff find_None_iff)

text \<open>The operations of the token store, as the values of a trace.\<close>

datatype session_op =
    OpCreate uuid token
  | OpRemoveCode string
  | OpRemoveAccess string
  | OpRemoveRefresh string
  | OpDeleteOperator uuid string
  | OpGetCode request_context string
  | OpGetRefresh request_context string

fun exec_session :: "crypto \<Rightarrow> (string \<Rightarrow> (go_error, client_info) result) \<Rightarrow> allowed_fn
    \<Rightarrow> session_table \<Rightarrow> session_op \<Rightarrow> session_table" where
  "exec_session cr g a t (OpCreate i tok) = (case sql_Create cr i t tok of Inl _ \<Rightarrow> t | Inr t' \<Rightarrow> t')"
| "exec_session cr g a t (OpRemoveCode c) = sql_RemoveByCode cr t c"
| "exec_session cr g a t (OpRemoveAccess c) = sql_RemoveByAccess cr t c"
| "exec_session cr g a t (OpRemoveRefresh c) = sql_RemoveByRefresh cr t c"
| "exec_session cr g a t (OpDeleteOperator i c) = fst (sql_DeleteOperatorOAuthSessionByID t i c)"
| "exec_session cr g a t (OpGetCode ctx c) = fst (sql_GetByCode cr g a ctx t c)"
| "exec_session cr g a t (OpGetRefresh ctx c) = fst (sql_GetByRefresh cr g a ctx t c)"

definition brings_code :: "crypto \<Rightarrow> string \<Rightarrow> session_op \<Rightarrow> bool" where
  "brings_code cr h op =
     (case op of OpCreate i tok \<Rightarrow> \<not> blank (tCode tok) \<and> cr_hash cr (trim_space (tCode tok)) = h | _ \<Rightarrow> False)"

definition brings_refresh :: "crypto \<Rightarrow> string \<Rightarrow> session_op \<Rightarrow> bool" where
  "brings_refresh cr h op =
     (case op of OpCreate i tok \<Rightarrow> \<not> blank (tRefresh tok) \<and> cr_hash cr (trim_space (tRefresh tok)) = h | _ \<Rightarrow> False)"

lemma sid_keeps [simp]:
  "tCode (setTokenInfoSessionID t s) = tCode t" "tRefresh (setTokenInfoSessionID t s) = tRefresh t"
  "tAccess (setTokenInfoSessionID t s) = tAccess t" "tScope (setTokenInfoSessionID t s) = tScope t"
  "tClientID (setTokenInfoSessionID t s) = tClientID t" "tUserID (setTokenInfoSessionID t s) = tUserID t"
  "tAccessExpiresIn (setTokenInfoSessionID t s) = tAccessExpiresIn t"
  "tokenInfoResource (setTokenInfoSessionID t s) = tokenInfoResource t"
  by (simp_all add: setTokenInfoSessionID_def tokenInfoResource_def)

lemma built_row:
  assumes "buildUpsertOAuthSessionParams cr i tok = Inr (row, tok')"
  shows "oCodeHash row = fst (encryptOpaqueValue (cr_hash cr) (cr_enc cr) (tCode tok))"
    "(oAccessHash row, oAccessCipher row) = encryptOpaqueValue (cr_hash cr) (cr_enc cr) (tAccess tok)"
    "(oRefreshHash row, oRefreshCipher row) = encryptOpaqueValue (cr_hash cr) (cr_enc cr) (tRefresh tok)"
    "(oCodeHash row, oCodeCipher row) = encryptOpaqueValue (cr_hash cr) (cr_enc cr) (tCode tok)"
    "oClientID row = tClientID tok" "oSubjectSub row = nullif_empty (tUserID tok)"
    "oScope row = tScope tok" "oResource row = tokenInfoResource tok"
    "oAccessExpiresIn row = durationToSeconds (tAccessExpiresIn tok)"
  using assms
  by (auto simp: buildUpsertOAuthSessionParams_def Let_def result_simps case_prod_unfold)

lemma consume_code: "consumeTokenRecord cr t ColumnCode c =
    (if blank c then (t, Inr None) else map_prod id Inr (q_consume oCodeHash t (cr_hash cr c)))"
  and consume_refresh: "consumeTokenRecord cr t ColumnRefresh c =
    (if blank c then (t, Inr None) else map_prod id Inr (q_consume oRefreshHash t (cr_hash cr c)))"
  by (simp_all add: consumeTokenRecord_def q_ConsumeOAuthSessionByCodeHash_def
      q_ConsumeOAuthSessionByRefreshHash_def Let_def)

lemma lookup_code: "lookupTokenRecord cr t ColumnCode c =
    Inr (if blank c then None else q_get oCodeHash t (cr_hash cr c))"
  and lookup_access: "lookupTokenRecord cr t ColumnAccess c =
    Inr (if blank c then None else q_get oAccessHash t (cr_hash cr c))"
  and lookup_refresh: "lookupTokenRecord cr t ColumnRefresh c =
    Inr (if blank c then None else q_get oRefreshHash t (cr_hash cr c))"
  by (simp_all add: lookupTokenRecord_def q_GetOAuthSessionByCodeHash_def
      q_GetOAuthSessionByAccessHash_def q_GetOAuthSessionByRefreshHash_def Let_def)

lemma GetByCode_eq:
  "sql_GetByCode cr g a ctx t code =
     (case (if blank code then None else q_get oCodeHash t (cr_hash cr code)) of
        None \<Rightarrow> (t, Inr None)
      | Some pre \<Rightarrow>
          (case bind_result (validateOAuthSessionAuthorization g a pre)
                  (\<lambda>_. validateExpectedResourceBinding (expectedResource ctx) (oResource pre)) of
             Inl e \<Rightarrow> (t, Inl e)
           | Inr _ \<Rightarrow>
               (fst (q_consume oCodeHash t (cr_hash cr code)),
                case snd (q_consume oCodeHash t (cr_hash cr code)) of
                  None \<Rightarrow> Inr None
                | Some r \<Rightarrow> bind_result (buildTokenInfo cr r code [] []) (\<lambda>tok. Inr (Some tok)))))"
  by (cases "q_consume oCodeHash t (cr_hash cr code)")
     (simp add: sql_GetByCode_def lookup_code consume_code split: option.split sum.split)

lemma GetByRefresh_eq:
  "sql_GetByRefresh cr g a ctx t refresh =
     (case (if blank refresh then None else q_get oRefreshHash t (cr_hash cr refresh)) of
        None \<Rightarrow> (t, Inr None)
      | Some pre \<Rightarrow>
          (case bind_result (validateRefreshClientBinding (refreshClientID ctx) (oClientID pre)) (\<lambda>_.
                bind_result (validateOAuthSessionAuthorization g a pre) (\<lambda>_.
                validateExpectedResourceBinding (expectedResource ctx) (oResource pre))) of
             Inl e \<Rightarrow> (t, Inl e)
           | Inr _ \<Rightarrow>
               (fst (q_consume oRefreshHash t (cr_hash cr refresh)),
                case snd (q_consume oRefreshHash t (cr_hash cr refresh)) of
                  None \<Rightarrow> Inr None
                | Some r \<Rightarrow> bind_result (buildTokenInfo cr r [] [] refresh) (\<lambda>tok. Inr (Some tok)))))"
  by (cases "q_consume oRefreshHash t (cr_hash cr refresh)")
     (simp add: sql_GetByRefresh_def lookup_refresh consume_refresh split: option.split sum.split)

lemma GetByCode_table:
  "fst (sql_GetByCode cr g a ctx t c) = t
   \<or> fst (sql_GetByCode cr g a ctx t c) = fst (q_consume oCodeHash t (cr_hash cr c))"
  by (simp add: GetByCode_eq split: option.split sum.split)

lemma GetByRefresh_table:
  "fst (sql_GetByRefresh cr g a ctx t c) = t
   \<or> fst (sql_GetByRefresh cr g a ctx t c) = fst (q_consume oRefreshHash t (cr_hash cr c))"
  by (simp add: GetByRefresh_eq split: option.split sum.split)

lemma exec_other_filter:
  assumes "\<And>i tok. op \<noteq> OpCreate i tok" "\<And>x c. op \<noteq> OpGetCode x c" "\<And>x c. op \<noteq> OpGetRefresh x c"
  shows "\<exists>P. exec_session cr g a t op = filter P t"
proof -
  have "\<exists>P. t = filter P t" by (rule exI[of _ "\<lambda>_. True"]) simp
  then show ?thesis
    using assms
    by (cases op)
       (auto simp: sql_RemoveByCode_def q_DeleteOAuthSessionByCodeHash_def sql_RemoveByAccess_def
         q_DeleteOAuthSessionByAccessHash_def sql_RemoveByRefresh_def
         q_DeleteOAuthSessionByRefreshHash_def sql_DeleteOperatorOAuthSessionByID_def
         q_DeleteOperatorOAuthSessionByID_def)
qed

lemma exec_spent:
  assumes col: "\<And>x b. col (x\<lparr>oConsumed := b\<rparr>) = col x" and "spent col h t"
    and new: "\<And>i tok row tok'. op = OpCreate i tok \<Longrightarrow>
      buildUpsertOAuthSessionParams cr i tok = Inr (row, tok') \<Longrightarrow> col row \<noteq> Some h"
  shows "spent col h (exec_session cr g a t op)"
proof -
  consider (create) i tok where "op = OpCreate i tok"
    | (code) x c where "op = OpGetCode x c" | (refresh) x c where "op = OpGetRefresh x c"
    | (filter) P where "exec_session cr g a t op = filter P t"
    using exec_other_filter by blast
  then show ?thesis
  proof cases
    case create
    show ?thesis
    proof (cases "sql_Create cr i t tok")
      case (Inr t')
      then obtain row tok' where r: "buildUpsertOAuthSessionParams cr i tok = Inr (row, tok')"
        "q_UpsertOAuthSession t row = Inr t'"
        by (auto simp: sql_Create_def result_simps case_prod_unfold)
      have "col (row\<lparr>oConsumed := False\<rparr>) \<noteq> Some h" using new[OF create r(1)] col by simp
      from spent_upsert[OF assms(2) r(2) this] show ?thesis by (simp add: create Inr)
    qed (simp add: create assms(2))
  next
    case code
    then show ?thesis
      using GetByCode_table[of cr g a x t c] assms(2) spent_consume[of col oCodeHash, OF col _ assms(2)]
      by auto
  next
    case refresh
    then show ?thesis
      using GetByRefresh_table[of cr g a x t c] assms(2) spent_consume[of col oRefreshHash, OF col _ assms(2)]
      by auto
  next
    case filter
    then show ?thesis using assms(2) by (simp add: spent_filter)
  qed
qed

lemma trace_spent_code:
  assumes "spent oCodeHash h t" "list_all (\<lambda>op. \<not> brings_code cr h op) ops"
  shows "spent oCodeHash h (foldl (exec_session cr g a) t ops)"
  using assms
proof (induction ops arbitrary: t)
  case (Cons op ops)
  have "spent oCodeHash h (exec_session cr g a t op)"
  proof (rule exec_spent)
    fix i tok row tok'
    assume "op = OpCreate i tok" "buildUpsertOAuthSessionParams cr i tok = Inr (row, tok')"
    then show "oCodeHash row \<noteq> Some h"
      using Cons.prems(2) built_row(1)
      by (auto simp: encryptOpaqueValue_def brings_code_def Let_def split: if_splits)
  qed (use Cons.prems in simp_all)
  then show ?case using Cons by simp
qed simp

lemma trace_spent_refresh:
  assumes "spent oRefreshHash h t" "list_all (\<lambda>op. \<not> brings_refresh cr h op) ops"
  shows "spent oRefreshHash h (foldl (exec_session cr g a) t ops)"
  using assms
proof (induction ops arbitrary: t)
  case (Cons op ops)
  have "spent oRefreshHash h (exec_session cr g a t op)"
  proof (rule exec_spent)
    fix i tok row tok'
    assume op: "op = OpCreate i tok" "buildUpsertOAuthSessionParams cr i tok = Inr (row, tok')"
    have "oRefreshHash row = fst (encryptOpaqueValue (cr_hash cr) (cr_enc cr) (tRefresh tok))"
      using built_row(3)[OF op(2)] by (metis fst_conv)
    then show "oRefreshHash row \<noteq> Some h"
      using Cons.prems(2) op(1)
      by (auto simp: encryptOpaqueValue_def brings_refresh_def Let_def split: if_splits)
  qed (use Cons.prems in simp_all)
  then show ?case using Cons by simp
qed simp

lemma GetByCode_success:
  assumes "sql_GetByCode cr g a ctx t code = (t', Inr (Some tok))"
  shows "\<not> blank code" "t' = fst (q_consume oCodeHash t (cr_hash cr code))"
    "\<exists>pre. q_get oCodeHash t (cr_hash cr code) = Some pre
       \<and> validateOAuthSessionAuthorization g a pre = Inr ()
       \<and> validateExpectedResourceBinding (expectedResource ctx) (oResource pre) = Inr ()"
    "\<exists>r. snd (q_consume oCodeHash t (cr_hash cr code)) = Some r \<and> buildTokenInfo cr r code [] [] = Inr tok"
  using assms
  by (auto simp: GetByCode_eq result_simps split: option.splits sum.splits if_splits)

lemma GetByRefresh_success:
  assumes "sql_GetByRefresh cr g a ctx t refresh = (t', Inr (Some tok))"
  shows "\<not> blank refresh" "t' = fst (q_consume oRefreshHash t (cr_hash cr refresh))"
    "\<exists>pre. q_get oRefreshHash t (cr_hash cr refresh) = Some pre
       \<and> validateRefreshClientBinding (refreshClientID ctx) (oClientID pre) = Inr ()
       \<and> validateOAuthSessionAuthorization g a pre = Inr ()
       \<and> validateExpectedResourceBinding (expectedResource ctx) (oResource pre) = Inr ()"
    "\<exists>r. snd (q_consume oRefreshHash t (cr_hash cr refresh)) = Some r \<and> buildTokenInfo cr r [] [] refresh = Inr tok"
  using assms
  by (auto simp: GetByRefresh_eq result_simps split: option.splits sum.splits if_splits)

lemma code_single_use_trace:
  assumes "sql_GetByCode cr g a ctx t code = (t', Inr (Some tok))"
    "list_all (\<lambda>op. \<not> brings_code cr (cr_hash cr code) op) ops"
  shows "snd (sql_GetByCode cr g' a' ctx' (foldl (exec_session cr g a) t' ops) code) \<noteq> Inr (Some tok')"
proof
  let ?u = "foldl (exec_session cr g a) t' ops"
  assume again: "snd (sql_GetByCode cr g' a' ctx' ?u code) = Inr (Some tok')"
  have "spent oCodeHash (cr_hash cr code) t'"
    using GetByCode_success(2)[OF assms(1)] spent_after_consume[of oCodeHash] by simp
  then have "snd (q_consume oCodeHash ?u (cr_hash cr code)) = None"
    by (intro spent_consume_none trace_spent_code[OF _ assms(2)])
  then show False
    using GetByCode_success(4)[of cr g' a' ctx' ?u code "fst (sql_GetByCode cr g' a' ctx' ?u code)" tok'] again
    by (metis option.distinct(1) prod.collapse)
qed

lemma refresh_single_use_trace:
  assumes "sql_GetByRefresh cr g a ctx t code = (t', Inr (Some tok))"
    "list_all (\<lambda>op. \<not> brings_refresh cr (cr_hash cr code) op) ops"
  shows "snd (sql_GetByRefresh cr g' a' ctx' (foldl (exec_session cr g a) t' ops) code) \<noteq> Inr (Some tok')"
proof
  let ?u = "foldl (exec_session cr g a) t' ops"
  assume again: "snd (sql_GetByRefresh cr g' a' ctx' ?u code) = Inr (Some tok')"
  have "spent oRefreshHash (cr_hash cr code) t'"
    using GetByRefresh_success(2)[OF assms(1)] spent_after_consume[of oRefreshHash] by simp
  then have "snd (q_consume oRefreshHash ?u (cr_hash cr code)) = None"
    by (intro spent_consume_none trace_spent_refresh[OF _ assms(2)])
  then show False
    using GetByRefresh_success(4)[of cr g' a' ctx' ?u code "fst (sql_GetByRefresh cr g' a' ctx' ?u code)" tok'] again
    by (metis option.distinct(1) prod.collapse)
qed

section \<open>Round trip of an access token\<close>

definition cipher_ok :: "crypto \<Rightarrow> bool" where
  "cipher_ok cr = (\<forall>v. v \<noteq> [] \<longrightarrow> cr_enc cr v \<noteq> [] \<and> cr_dec cr (cr_enc cr v) = Some v)"

lemma upsert_cases:
  assumes "q_UpsertOAuthSession t row = Inr t'"
  shows "\<forall>x \<in> set t. oSessionID x \<noteq> oSessionID row \<longrightarrow>
      \<not> clash oCodeHash row x \<and> \<not> clash oAccessHash row x \<and> \<not> clash oRefreshHash row x"
    and "set t' = insert (row\<lparr>oConsumed := False\<rparr>) {x \<in> set t. oSessionID x \<noteq> oSessionID row}"
proof -
  show "\<forall>x \<in> set t. oSessionID x \<noteq> oSessionID row \<longrightarrow>
      \<not> clash oCodeHash row x \<and> \<not> clash oAccessHash row x \<and> \<not> clash oRefreshHash row x"
    using assms by (auto simp: q_UpsertOAuthSession_def Let_def list_ex_iff split: if_splits)
  show "set t' = insert (row\<lparr>oConsumed := False\<rparr>) {x \<in> set t. oSessionID x \<noteq> oSessionID row}"
  proof (cases "list_ex (\<lambda>x. oSessionID x = oSessionID row) t")
    case True
    then have t': "t' = map (\<lambda>x. if oSessionID x = oSessionID row then row\<lparr>oConsumed := False\<rparr> else x) t"
      using assms by (simp add: q_UpsertOAuthSession_def Let_def split: if_splits)
    from True obtain x where "x \<in> set t" "oSessionID x = oSessionID row" by (auto simp: list_ex_iff)
    then show ?thesis unfolding t' by (auto simp: image_iff)
  next
    case False
    then have t': "t' = t @ [row\<lparr>oConsumed := False\<rparr>]"
      using assms by (simp add: q_UpsertOAuthSession_def Let_def split: if_splits)
    from False show ?thesis unfolding t' by (auto simp: list_ex_iff)
  qed
qed

lemma upsert_get_access:
  assumes "q_UpsertOAuthSession t row = Inr t'" "oAccessHash row = Some h"
  shows "q_get oAccessHash t' h = Some (row\<lparr>oConsumed := False\<rparr>)"
proof -
  let ?row = "row\<lparr>oConsumed := False\<rparr>"
  have only: "x = ?row" if "x \<in> set t'" "oAccessHash x = Some h" for x
    using that upsert_cases[OF assms(1)] assms(2) by (auto simp: clash_def)
  show ?thesis
    unfolding q_get_def
  proof (rule find_unique)
    show "?row \<in> set t'" using upsert_cases(2)[OF assms(1)] by simp
    show "oAccessHash ?row = Some h" using assms(2) by simp
    show "x = y" if "x \<in> set t'" "y \<in> set t'" "oAccessHash x = Some h" "oAccessHash y = Some h" for x y
      using only[OF that(1,3)] only[OF that(2,4)] by (rule trans[OF _ sym])
  qed
qed

lemma reveal_encrypted:
  assumes "cipher_ok cr" "(h, c) = encryptOpaqueValue (cr_hash cr) (cr_enc cr) v"
  shows "reveal cr h c [] = Inr (trim_space v)"
    "trim_space v = v \<Longrightarrow> reveal cr h c v = Inr v"
  using assms
  by (auto simp: reveal_def encryptOpaqueValue_def cipher_ok_def Let_def split: if_splits)

text \<open>What the built token holds of the row.\<close>

lemma issued_via_resource [simp]:
  "tokenInfoResource (setTokenInfoIssuedVia t v) = tokenInfoResource t"
  by (simp add: tokenInfoResource_def setTokenInfoIssuedVia_def)

lemma metadata_resource [simp]:
  "ext_get (setTokenInfoAuthorizationMetadata t d p u) ''resource'' = ext_get t ''resource''"
  "ext_get (setTokenInfoAuthorizationMetadata t d p u) ''sid'' = ext_get t ''sid''"
  by (auto simp: setTokenInfoAuthorizationMetadata_def Let_def split: option.split)

lemma metadata_fields [simp]:
  "tClientID (setTokenInfoAuthorizationMetadata t d p u) = tClientID t"
  "tUserID (setTokenInfoAuthorizationMetadata t d p u) = tUserID t"
  "tScope (setTokenInfoAuthorizationMetadata t d p u) = tScope t"
  by (auto simp: setTokenInfoAuthorizationMetadata_def Let_def split: option.split)

lemma set_resource_fields [simp]:
  "tClientID (setTokenInfoResource t r) = tClientID t" "tUserID (setTokenInfoResource t r) = tUserID t"
  "tScope (setTokenInfoResource t r) = tScope t"
  "ext_get (setTokenInfoResource t r) ''resource'' =
     (if clean_resource r = [] then ext_get t ''resource'' else clean_resource r)"
  by (auto simp: setTokenInfoResource_def Let_def)

lemma set_via_fields [simp]:
  "tClientID (setTokenInfoIssuedVia t v) = tClientID t" "tUserID (setTokenInfoIssuedVia t v) = tUserID t"
  "tScope (setTokenInfoIssuedVia t v) = tScope t"
  "ext_get (setTokenInfoIssuedVia t v) ''resource'' = ext_get t ''resource''"
  by (auto simp: setTokenInfoIssuedVia_def)

lemma buildTokenInfo_fields:
  assumes "buildTokenInfo cr r code access refresh = Inr tok"
  shows "tClientID tok = oClientID r" "tUserID tok = clamp_some (oSubjectSub r) []"
    "tScope tok = oScope r" "ext_get tok ''resource'' = clean_resource (oResource r)"
    "reveal cr (oCodeHash r) (oCodeCipher r) code = Inr (tCode tok)"
    "reveal cr (oAccessHash r) (oAccessCipher r) access = Inr (tAccess tok)"
    "reveal cr (oRefreshHash r) (oRefreshCipher r) refresh = Inr (tRefresh tok)"
    "tAccessExpiresIn tok = durationFromSeconds (oAccessExpiresIn r)"
proof -
  have empty: "ext_get (setTokenInfoSessionID new_token s) ''resource'' = []" for s
    by (simp add: setTokenInfoSessionID_def new_token_def ext_get_def ext_set_def)
  show "tClientID tok = oClientID r" "tUserID tok = clamp_some (oSubjectSub r) []"
    "tScope tok = oScope r" "ext_get tok ''resource'' = clean_resource (oResource r)"
    "reveal cr (oCodeHash r) (oCodeCipher r) code = Inr (tCode tok)"
    "reveal cr (oAccessHash r) (oAccessCipher r) access = Inr (tAccess tok)"
    "reveal cr (oRefreshHash r) (oRefreshCipher r) refresh = Inr (tRefresh tok)"
    "tAccessExpiresIn tok = durationFromSeconds (oAccessExpiresIn r)"
    using assms empty by (auto simp: buildTokenInfo_def Let_def result_simps)
qed

lemma buildTokenInfo_total:
  assumes "reveal cr (oCodeHash r) (oCodeCipher r) code = Inr c"
    "reveal cr (oAccessHash r) (oAccessCipher r) access = Inr a"
    "reveal cr (oRefreshHash r) (oRefreshCipher r) refresh = Inr rf"
  shows "\<exists>tok. buildTokenInfo cr r code access refresh = Inr tok"
  using assms by (simp add: buildTokenInfo_def Let_def)

lemma access_round_trip:
  assumes ok: "cipher_ok cr" and create: "sql_Create cr newID t tok = Inr t'"
    and access: "\<not> blank (tAccess tok)" "trim_space (tAccess tok) = tAccess tok"
  shows "\<exists>tok'. sql_GetByAccess cr t' (tAccess tok) = Inr (Some tok')
    \<and> tClientID tok' = tClientID tok \<and> tUserID tok' = tUserID tok \<and> tScope tok' = tScope tok
    \<and> tAccess tok' = tAccess tok \<and> tRefresh tok' = trim_space (tRefresh tok)
    \<and> tCode tok' = trim_space (tCode tok)
    \<and> ext_get tok' ''resource'' = clean_resource (tokenInfoResource tok)
    \<and> tAccessExpiresIn tok' = durationFromSeconds (durationToSeconds (tAccessExpiresIn tok))"
proof -
  from create obtain row info where row: "buildUpsertOAuthSessionParams cr newID tok = Inr (row, info)"
    "q_UpsertOAuthSession t row = Inr t'"
    by (auto simp: sql_Create_def result_simps case_prod_unfold)
  note b = built_row[OF row(1)]
  have h: "oAccessHash row = Some (cr_hash cr (tAccess tok))"
    using b(2) access by (simp add: encryptOpaqueValue_def Let_def)
  let ?row = "row\<lparr>oConsumed := False\<rparr>"
  have get: "lookupTokenRecord cr t' ColumnAccess (tAccess tok) = Inr (Some ?row)"
    using upsert_get_access[OF row(2) h] access by (simp add: lookup_access)
  have rv: "reveal cr (oCodeHash ?row) (oCodeCipher ?row) [] = Inr (trim_space (tCode tok))"
    "reveal cr (oAccessHash ?row) (oAccessCipher ?row) (tAccess tok) = Inr (tAccess tok)"
    "reveal cr (oRefreshHash ?row) (oRefreshCipher ?row) [] = Inr (trim_space (tRefresh tok))"
    using reveal_encrypted[OF ok b(4)] reveal_encrypted(2)[OF ok b(2) access(2)]
      reveal_encrypted[OF ok b(3)] by simp_all
  obtain tok' where tok': "buildTokenInfo cr ?row [] (tAccess tok) [] = Inr tok'"
    using buildTokenInfo_total[OF rv] by blast
  have "sql_GetByAccess cr t' (tAccess tok) = Inr (Some tok')"
    using get tok' by (simp add: sql_GetByAccess_def)
  moreover have "clamp_some (oSubjectSub row) [] = tUserID tok"
    using b(6) by (simp add: nullif_empty_def)
  ultimately show ?thesis
    using buildTokenInfo_fields[OF tok'] rv b by auto
qed

end
