(* ===== verification/EdgeGrants.thy ===== *)
theory EdgeGrants
  imports Sessions
begin

text \<open>
  The grant sources of the edge (\<^verbatim>\<open>internal/edge/state_store.go\<close>): the in-memory store, which reads the
  groups of the identity, and the SQLite store, which reads the effective grants of enabled
  services.  Both interpret the locale \<^verbatim>\<open>grant_source\<close> of theory Policy, and so does the policy
  engine that wraps either of them (\<^verbatim>\<open>policy_authorizer.go\<close>).
\<close>

section \<open>In memory\<close>

type_synonym subject_map = "string \<rightharpoonup> identity_claims"

definition mem_UpsertSubject :: "subject_map \<Rightarrow> identity_claims \<Rightarrow> subject_map" where
  "mem_UpsertSubject m claims = (if blank (cSub claims) then m else m(cSub claims \<mapsto> claims))"

definition mem_Allowed :: "subject_map \<Rightarrow> allowed_fn" where
  "mem_Allowed m subjectSub serviceID =
     (case m subjectSub of
        None \<Rightarrow> Inr False
      | Some claims \<Rightarrow> Inr (identityHasGrant claims serviceID))"

text \<open>The loop that stops at the first service that is not allowed, or at an error.\<close>

fun all_allowed :: "(string \<Rightarrow> (go_error, bool) result) \<Rightarrow> string list \<Rightarrow> (go_error, bool) result" where
  "all_allowed f [] = Inr True"
| "all_allowed f (sid # rest) =
     (case f sid of
        Inl e \<Rightarrow> Inl e
      | Inr ok \<Rightarrow> if \<not> ok then Inr False else all_allowed f rest)"

definition mem_AllowedScopes :: "subject_map \<Rightarrow> allowed_fn" where
  "mem_AllowedScopes m subjectSub scope =
     (case RequestedServiceScopes scope of
        (ids, valid) \<Rightarrow>
          if \<not> valid then Inr False else all_allowed (mem_Allowed m subjectSub) ids)"

lemma all_allowed_True: "all_allowed f ids = Inr True \<longleftrightarrow> (\<forall>i \<in> set ids. f i = Inr True)"
  by (induction ids) (auto split: sum.splits)

interpretation mem_grants: grant_source "\<lambda>_. True" mem_Allowed mem_AllowedScopes
  by unfold_locales (auto simp: mem_AllowedScopes_def all_allowed_True split: prod.splits)

section \<open>SQLite\<close>

text \<open>The effective grants, keyed by subject and service, and the enabled services.\<close>

record grant_tables =
  serviceGrants :: "(string \<times> string) list"
  enabledServices :: "string list"

definition q_AllowedServiceGrant :: "grant_tables \<Rightarrow> string \<Rightarrow> string \<Rightarrow> nat" where
  "q_AllowedServiceGrant t sub sid =
     (if list_ex (\<lambda>(s, i). s = sub \<and> i = sid \<and> i \<in> set (enabledServices t)) (serviceGrants t)
      then 1 else 0)"

definition q_CountAllowedServiceGrants :: "grant_tables \<Rightarrow> string \<Rightarrow> string list \<Rightarrow> nat" where
  "q_CountAllowedServiceGrants t sub ids =
     length (dedup (map snd (filter (\<lambda>(s, i). s = sub \<and> i \<in> set (enabledServices t) \<and> i \<in> set ids)
       (serviceGrants t))))"

text \<open>\<^verbatim>\<open>failed\<close> is the error of the database, if the query fails.\<close>

definition sql_Allowed :: "go_error option \<Rightarrow> grant_tables \<Rightarrow> allowed_fn" where
  "sql_Allowed failed t subjectSub serviceID =
     (case failed of
        Some e \<Rightarrow> Inl e
      | None \<Rightarrow> Inr (q_AllowedServiceGrant t subjectSub serviceID \<noteq> 0))"

definition sql_AllowedScopes :: "go_error option \<Rightarrow> grant_tables \<Rightarrow> allowed_fn" where
  "sql_AllowedScopes failed t subjectSub scope =
     (case RequestedServiceScopes scope of
        (ids, valid) \<Rightarrow>
          if \<not> valid then Inr False
          else case failed of
              Some e \<Rightarrow> Inl e
            | None \<Rightarrow> Inr (q_CountAllowedServiceGrants t subjectSub ids = length ids))"

lemma count_all:
  assumes "distinct ids"
  shows "q_CountAllowedServiceGrants t sub ids = length ids
    \<longleftrightarrow> (\<forall>i \<in> set ids. q_AllowedServiceGrant t sub i \<noteq> 0)"
proof -
  let ?rows = "filter (\<lambda>(s, i). s = sub \<and> i \<in> set (enabledServices t) \<and> i \<in> set ids) (serviceGrants t)"
  let ?found = "set (map snd ?rows)"
  have "length (dedup (map snd ?rows)) = card ?found"
    using distinct_card[OF distinct_dedup, of "map snd ?rows"] by simp
  moreover have "length ids = card (set ids)" using assms by (simp add: distinct_card)
  moreover have "?found \<subseteq> set ids" by auto
  ultimately have "q_CountAllowedServiceGrants t sub ids = length ids \<longleftrightarrow> ?found = set ids"
    unfolding q_CountAllowedServiceGrants_def using card_subset_eq[of "set ids" ?found] by auto
  also have "\<dots> \<longleftrightarrow> (\<forall>i \<in> set ids. q_AllowedServiceGrant t sub i \<noteq> 0)"
  proof -
    have "q_AllowedServiceGrant t sub i \<noteq> 0 \<longleftrightarrow> i \<in> ?found" if "i \<in> set ids" for i
      using that by (force simp: q_AllowedServiceGrant_def list_ex_iff)
    then show ?thesis by auto
  qed
  finally show ?thesis .
qed

interpretation sql_grants: grant_source "\<lambda>st. True" "\<lambda>(failed, t). sql_Allowed failed t"
  "\<lambda>(failed, t). sql_AllowedScopes failed t"
proof unfold_locales
  fix st :: "go_error option \<times> grant_tables" and sub scope
  obtain failed t where st: "st = (failed, t)" by (cases st)
  obtain ids valid where ids: "RequestedServiceScopes scope = (ids, valid)"
    by (cases "RequestedServiceScopes scope")
  show "(case st of (failed, t) \<Rightarrow> sql_AllowedScopes failed t) sub scope = Inr True \<longleftrightarrow>
       snd (RequestedServiceScopes scope)
       \<and> (\<forall>sid \<in> set (fst (RequestedServiceScopes scope)).
             (case st of (failed, t) \<Rightarrow> sql_Allowed failed t) sub sid = Inr True)"
  proof (cases valid)
    case False
    then show ?thesis by (simp add: st ids sql_AllowedScopes_def)
  next
    case True
    then have "RequestedServiceScopes scope = (ids, True)" using ids by simp
    note r = RequestedServiceScopes_True(1,2)[OF this]
    then obtain i where "i \<in> set ids" by (cases ids) auto
    then show ?thesis
      using True count_all[OF r(2)]
      by (auto simp: st ids sql_AllowedScopes_def sql_Allowed_def split: option.splits)
  qed
qed

section \<open>Through the policy engine\<close>

text \<open>The state of the wrapped source, with the subject's source behind the engine.\<close>

interpretation policy_mem: grant_source "\<lambda>_. True"
  "\<lambda>m. policyAllowed (Some (mem_grants.source m))"
  "\<lambda>m. policyAllowedScopes (Some (mem_grants.source m))"
  by unfold_locales (rule mem_grants.engine_scopes_iff, simp)

interpretation policy_sql: grant_source "\<lambda>_. True"
  "\<lambda>st. policyAllowed (Some (sql_grants.source st))"
  "\<lambda>st. policyAllowedScopes (Some (sql_grants.source st))"
  by unfold_locales (rule sql_grants.engine_scopes_iff, simp)

end
