(* ===== verification/OAuthClients.thy ===== *)
theory OAuthClients
  imports EdgeGrants
begin

text \<open>
  Client registration (\<^verbatim>\<open>internal/edge/oauth.go\<close>): the normalisation of a registration request, the
  checks on redirect URIs, the registration endpoint, client identifier metadata documents with
  their restriction to public hosts, and the two stores' ways of keeping a client.
  URL parsing and address parsing are parameters (packages net/url and net).
\<close>

section \<open>Requests and responses\<close>

text \<open>
  What a handler reads of a request.  A form or JSON body that does not parse is the flag
  \<^verbatim>\<open>formOK\<close> false.  \<^verbatim>\<open>basicAuth\<close> holds the credentials of the Authorization header.
\<close>

datatype http_method = GET | POST | PUT | DELETE | PATCH | OtherMethod string

record http_request =
  rqMethod :: http_method
  rqPath :: string
  formOK :: bool
  rqForm :: "(string \<times> string list) list"
  basicAuth :: "(string \<times> string) option"
  authHeader :: string

definition form_values :: "http_request \<Rightarrow> string \<Rightarrow> string list" where
  "form_values r k = clamp_some (map_of (rqForm r) k) []"

definition form_get :: "http_request \<Rightarrow> string \<Rightarrow> string" where
  "form_get r k = (case form_values r k of [] \<Rightarrow> [] | v # _ \<Rightarrow> v)"

definition form_set :: "string \<Rightarrow> string \<Rightarrow> http_request \<Rightarrow> http_request" where
  "form_set k v r = r\<lparr>rqForm := put k [v] (rqForm r)\<rparr>"

lemma form_get_set [simp]: "form_get (form_set k v r) k' = (if k' = k then v else form_get r k')"
  by (simp add: form_get_def form_values_def form_set_def)

text \<open>An error in the platform's envelope, an error in OAuth's format, or an answer.\<close>

datatype 'b response = JsonError nat string | OAuthError nat string | Answer 'b

section \<open>Normalisation\<close>

fun normalize_loop :: "string list \<Rightarrow> string list \<Rightarrow> string list" where
  "normalize_loop seen [] = []"
| "normalize_loop seen (value # rest) =
     (let v = trim_space value in
      if v = [] \<or> v \<in> set seen then normalize_loop seen rest
      else v # normalize_loop (v # seen) rest)"

definition normalizeStringList :: "string list \<Rightarrow> string list" where
  "normalizeStringList values = normalize_loop [] values"

definition grantTypesAllowed :: "string list \<Rightarrow> bool" where
  "grantTypesAllowed gs =
     list_all (\<lambda>g. g = grantAuthorizationCode \<or> g = grantRefreshToken \<or> g = grantDeviceCode) gs"

text \<open>What the code reads of \<^verbatim>\<open>url.URL\<close>, and of \<^verbatim>\<open>net.IP\<close>.\<close>

record parsed_url =
  uScheme :: string
  uHost :: string
  uHostname :: string
  uPort :: string
  uPath :: string
  uRawQuery :: string
  uFragment :: string
  uUser :: bool
  uAbs :: bool

record ip_addr =
  ipLoopback :: bool
  ipPrivate :: bool
  ipLinkLocalUnicast :: bool
  ipLinkLocalMulticast :: bool
  ipMulticast :: bool
  ipUnspecified :: bool
  ipText :: string

record net_lib =
  url_parse :: "string \<Rightarrow> parsed_url option"
  parse_ip :: "string \<Rightarrow> ip_addr option"
  lookup_ip :: "string \<Rightarrow> (go_error, ip_addr option list) result"

definition validateRedirectURI :: "net_lib \<Rightarrow> string \<Rightarrow> (go_error, unit) result" where
  "validateRedirectURI net rawURI =
     (case url_parse net rawURI of
        None \<Rightarrow> Inl (Errorf ''redirect URI must be absolute'')
      | Some u \<Rightarrow>
          if \<not> uAbs u \<or> blank (uScheme u) then Inl (Errorf ''redirect URI must be absolute'')
          else if uFragment u \<noteq> [] then Inl (Errorf ''redirect URI must not include a fragment'')
          else if uScheme u = ''https''
          then guard (uHostname u \<noteq> []) (Errorf ''https redirect URI must include a host'')
          else if uScheme u = ''http''
          then (case parse_ip net (uHostname u) of
                  None \<Rightarrow> Inl (Errorf ''http redirect URI is only allowed for loopback clients'')
                | Some ip \<Rightarrow> guard (ipLoopback ip)
                    (Errorf ''http redirect URI is only allowed for loopback clients''))
          else Inl (Errorf ''redirect URI scheme must be https or loopback http''))"

record registration_request =
  rrClientID :: string
  rrClientName :: string
  rrRedirectURIs :: "string list"
  rrGrantTypes :: "string list"
  rrResponseTypes :: "string list"
  rrAuthMethod :: string
  rrScope :: string

fun auth_method_of :: "string \<Rightarrow> auth_method" where
  "auth_method_of s =
     (if s = ''none'' then MethodNone
      else if s = ''client_secret_post'' then MethodClientPost
      else if s = ''client_secret_basic'' then MethodClientBasic else MethodOther s)"

fun first_error :: "('a \<Rightarrow> (go_error, unit) result) \<Rightarrow> 'a list \<Rightarrow> (go_error, unit) result" where
  "first_error f [] = Inr ()"
| "first_error f (x # xs) = (case f x of Inl e \<Rightarrow> Inl e | Inr _ \<Rightarrow> first_error f xs)"

lemma first_error_ok [simp]: "first_error f xs = Inr () \<longleftrightarrow> (\<forall>x \<in> set xs. f x = Inr ())"
  by (induction xs) (auto split: sum.splits)

text \<open>The trimmed and defaulted record.\<close>

definition registration_record :: "registration_request \<Rightarrow> registered_client" where
  "registration_record req =
     (let grants0 = normalizeStringList (rrGrantTypes req);
          types0 = normalizeStringList (rrResponseTypes req);
          method0 = trim_space (rrAuthMethod req);
          grants = (if grants0 = [] then [grantAuthorizationCode, grantRefreshToken] else grants0)
      in \<lparr>rcID = [], rcSecret = [],
          rcName = trim_space (rrClientName req),
          rcRedirectURIs = normalizeStringList (rrRedirectURIs req),
          rcGrantTypes = grants,
          rcResponseTypes = (if types0 = []
             then (if grantAuthorizationCode \<in> set grants then [''code''] else [])
             else types0),
          rcAuthMethod = auth_method_of (if method0 = [] then ''none'' else method0),
          rcScopes = normalizeStringList (go_fields (rrScope req)), rcCreatedAt = 0\<rparr>)"

definition uses_code :: "registered_client \<Rightarrow> bool" where
  "uses_code c = (grantAuthorizationCode \<in> set (rcGrantTypes c))"

definition normalizeClientRegistration ::
  "net_lib \<Rightarrow> registration_request \<Rightarrow> string list \<Rightarrow> (go_error, registered_client) result" where
  "normalizeClientRegistration net req allowedScopes =
     (let c = registration_record req in
      if rcName c = [] then Inl (Errorf ''client_name is required'')
      else if \<not> grantTypesAllowed (rcGrantTypes c) then Inl (Errorf ''unsupported OAuth grant type'')
      else if uses_code c \<and> rcRedirectURIs c = []
      then Inl (Errorf ''authorization_code clients require at least one redirect URI'')
      else if uses_code c \<and> rcResponseTypes c \<noteq> [''code'']
      then Inl (Errorf ''authorization_code clients require response type code'')
      else if \<not> uses_code c \<and> rcResponseTypes c \<noteq> []
      then Inl (Errorf ''response_types must be empty unless authorization_code is registered'')
      else bind_result (first_error (validateRedirectURI net) (rcRedirectURIs c)) (\<lambda>_.
        if rcAuthMethod c \<notin> {MethodNone, MethodClientPost, MethodClientBasic}
        then Inl (Errorf ''unsupported token endpoint auth method'')
        else if \<not> scopeStringAllowed (join '' '' (rcScopes c)) allowedScopes
        then Inl (Errorf ''requested scopes are not supported'')
        else Inr c))"

lemma normalize_loop_eq:
  "normalize_loop seen vs = dedup_from seen (filter (\<lambda>v. v \<noteq> []) (map trim_space vs))"
  by (induction seen vs rule: normalize_loop.induct) (auto simp: Let_def)

lemma normalizeStringList_eq:
  "normalizeStringList vs = dedup (filter (\<lambda>v. v \<noteq> []) (map trim_space vs))"
  by (simp add: normalizeStringList_def normalize_loop_eq dedup_def)

lemma normalizeStringList_props:
  "distinct (normalizeStringList vs)" "[] \<notin> set (normalizeStringList vs)"
  "v \<in> set (normalizeStringList vs) \<Longrightarrow> trim_space v = v"
  by (auto simp: normalizeStringList_eq)

lemma normalizeStringList_idem: "normalizeStringList (normalizeStringList vs) = normalizeStringList vs"
proof -
  let ?n = "normalizeStringList vs"
  have "map trim_space ?n = ?n"
    using normalizeStringList_props(3)[of _ vs] by (simp add: map_idI)
  moreover have "filter (\<lambda>v. v \<noteq> []) ?n = ?n"
    using normalizeStringList_props(2)[of vs] by (metis (mono_tags, lifting) filter_True)
  ultimately show ?thesis
    using normalizeStringList_props(1)[of vs] by (simp add: normalizeStringList_eq[of ?n] dedup_distinct)
qed

text \<open>The scope check runs on the joined list, whose words are the scopes again.\<close>

lemma registered_scopes:
  assumes "scopeStringAllowed (join '' '' (normalizeStringList (go_fields sc))) allowed"
  shows "set (normalizeStringList (go_fields sc)) \<subseteq> set allowed"
proof (cases "normalizeStringList (go_fields sc) = []")
  case False
  let ?n = "normalizeStringList (go_fields sc)"
  have words: "\<forall>w \<in> set ?n. space_free w \<and> w \<noteq> []"
    by (auto simp: normalizeStringList_eq dest: go_fields_space_free)
  then have "go_fields (join '' '' ?n) = ?n" by (rule go_fields_join)
  moreover have "\<not> blank (join '' '' ?n)" by (rule join_head[OF words False])
  ultimately show ?thesis using assms by (auto simp: scopeStringAllowed_def list_all_iff)
qed simp

text \<open>What a registration that is accepted satisfies.\<close>

definition registration_ok :: "net_lib \<Rightarrow> string list \<Rightarrow> registered_client \<Rightarrow> bool" where
  "registration_ok net allowed c =
     (rcName c \<noteq> [] \<and> rcGrantTypes c \<noteq> [] \<and> grantTypesAllowed (rcGrantTypes c)
      \<and> (if uses_code c then rcResponseTypes c = [''code''] \<and> rcRedirectURIs c \<noteq> []
          else rcResponseTypes c = [])
      \<and> list_all (\<lambda>u. validateRedirectURI net u = Inr ()) (rcRedirectURIs c)
      \<and> rcAuthMethod c \<in> {MethodNone, MethodClientPost, MethodClientBasic}
      \<and> set (rcScopes c) \<subseteq> set allowed \<and> distinct (rcScopes c))"

lemma registration_record_fields:
  "rcScopes (registration_record req) = normalizeStringList (go_fields (rrScope req))"
  "rcGrantTypes (registration_record req) \<noteq> []"
  "rcID (registration_record req) = []" "rcSecret (registration_record req) = []"
  by (simp_all add: registration_record_def Let_def)

lemma normalizeClientRegistration_ok:
  assumes "normalizeClientRegistration net req allowed = Inr c"
  shows "registration_ok net allowed c \<and> rcID c = [] \<and> rcSecret c = []"
proof -
  have c: "c = registration_record req"
    and checks: "rcName c \<noteq> []" "grantTypesAllowed (rcGrantTypes c)"
      "uses_code c \<longrightarrow> rcResponseTypes c = [''code''] \<and> rcRedirectURIs c \<noteq> []"
      "\<not> uses_code c \<longrightarrow> rcResponseTypes c = []"
      "\<forall>u \<in> set (rcRedirectURIs c). validateRedirectURI net u = Inr ()"
      "rcAuthMethod c \<in> {MethodNone, MethodClientPost, MethodClientBasic}"
      "scopeStringAllowed (join '' '' (rcScopes c)) allowed"
    using assms
    by (auto simp: normalizeClientRegistration_def Let_def result_simps split: if_splits)
  have "set (rcScopes c) \<subseteq> set allowed \<and> distinct (rcScopes c)"
    using checks(7) registered_scopes[of "rrScope req" allowed]
    by (simp add: c registration_record_fields normalizeStringList_props(1))
  then show ?thesis
    using checks by (auto simp: registration_ok_def list_all_iff c registration_record_fields)
qed

lemma validateRedirectURI_ok:
  assumes "validateRedirectURI net uri = Inr ()"
  shows "\<exists>u. url_parse net uri = Some u \<and> uFragment u = []
    \<and> (uScheme u = ''https'' \<and> uHostname u \<noteq> []
       \<or> uScheme u = ''http'' \<and> (\<exists>ip. parse_ip net (uHostname u) = Some ip \<and> ipLoopback ip))"
  using assms by (auto simp: validateRedirectURI_def split: option.splits if_splits)

section \<open>Metadata documents\<close>

definition blocked_ip :: "ip_addr \<Rightarrow> bool" where
  "blocked_ip ip =
     (ipLoopback ip \<or> ipPrivate ip \<or> ipLinkLocalUnicast ip \<or> ipLinkLocalMulticast ip
      \<or> ipMulticast ip \<or> ipUnspecified ip)"

definition resolvePublicCIMDHost :: "net_lib \<Rightarrow> string \<Rightarrow> (go_error, ip_addr option list) result" where
  "resolvePublicCIMDHost net host =
     (case lookup_ip net host of
        Inl e \<Rightarrow> Inl (Errorf ''resolve client metadata document host'')
      | Inr ips \<Rightarrow>
          if ips = [] then Inl (Errorf ''client metadata document host did not resolve'')
          else if list_ex (\<lambda>ip. case ip of None \<Rightarrow> True | Some a \<Rightarrow> blocked_ip a) ips
          then Inl (Errorf ''client metadata document host must resolve to public addresses only'')
          else Inr ips)"

definition validateCIMDURL :: "net_lib \<Rightarrow> parsed_url option \<Rightarrow> (go_error, unit) result" where
  "validateCIMDURL net parsed =
     (case parsed of
        None \<Rightarrow> Inl (Errorf ''client_id metadata document must be an HTTPS URL'')
      | Some u \<Rightarrow>
          if uScheme u \<noteq> ''https'' \<or> uHostname u = []
          then Inl (Errorf ''client_id metadata document must be an HTTPS URL'')
          else if uPort u \<noteq> [] \<and> uPort u \<noteq> ''443''
          then Inl (Errorf ''client metadata document must use default HTTPS port 443'')
          else bind_result (resolvePublicCIMDHost net (uHostname u)) (\<lambda>_. Inr ()))"

text \<open>The address the dialer connects to: the first one of a host that resolves publicly.\<close>

definition dialPublicHTTPSHost ::
  "net_lib \<Rightarrow> (string \<times> string) option \<Rightarrow> (go_error, string \<times> string) result" where
  "dialPublicHTTPSHost net hostport =
     (case hostport of
        None \<Rightarrow> Inl (Errorf ''address'')
      | Some (host, port) \<Rightarrow>
          if port \<noteq> ''443''
          then Inl (Errorf ''client metadata document must use default HTTPS port 443'')
          else bind_result (resolvePublicCIMDHost net host) (\<lambda>ips.
            case hd ips of
              Some ip \<Rightarrow> Inr (ipText ip, port)
            | None \<Rightarrow> Inl (Errorf ''address'')))"

lemma dial_public:
  assumes "dialPublicHTTPSHost net (Some (host, port)) = Inr (addr, p)"
  shows "p = ''443'' \<and> (\<exists>ips ip. lookup_ip net host = Inr ips \<and> Some ip \<in> set ips
    \<and> addr = ipText ip \<and> (\<forall>a. Some a \<in> set ips \<longrightarrow> \<not> blocked_ip a))"
proof -
  from assms obtain ips where ips: "resolvePublicCIMDHost net host = Inr ips" "port = ''443''" "p = port"
    "case hd ips of Some ip \<Rightarrow> addr = ipText ip | None \<Rightarrow> False"
    by (auto simp: dialPublicHTTPSHost_def result_simps split: if_splits option.splits)
  then have look: "lookup_ip net host = Inr ips" "ips \<noteq> []"
    "\<not> list_ex (\<lambda>ip. case ip of None \<Rightarrow> True | Some a \<Rightarrow> blocked_ip a) ips"
    by (auto simp: resolvePublicCIMDHost_def split: sum.splits if_splits)
  then obtain ip where "hd ips = Some ip" "addr = ipText ip"
    using ips(4) by (auto split: option.splits)
  then show ?thesis
    using ips look by (metis (no_types, lifting) hd_in_set list_ex_iff option.simps(5))
qed

end
