(* ===== verification/OAuthDevice.thy ===== *)
theory OAuthDevice
  imports OAuthClients
begin

text \<open>
  The device flow (\<^verbatim>\<open>internal/edge/oauth.go\<close>): issuing a device code, the browser page where the
  subject approves or denies it, and the token endpoint that the device polls.  The handlers are
  functions of the store's operations, collected in the record \<^verbatim>\<open>edge_ops\<close> (the Go interface
  \<^verbatim>\<open>edgeStateStore\<close>), so that every error of the store is a branch; the last part runs them over
  the SQLite store.
\<close>

section \<open>The store's operations\<close>

record authenticated_subject =
  sSub :: string
  sSubjectKey :: string
  sEmail :: string
  sDisplayName :: string
  sPreferredUsername :: string
  sAccountBindingID :: string
  sAccountBindingClaim :: string
  sGroups :: "string list"

record audit_event =
  aeActor :: string
  aeService :: string
  aeType :: string
  aeStatus :: string

record 's edge_ops =
  opGetClient :: "'s \<Rightarrow> string \<Rightarrow> (go_error, client_info) result"
  opCreateDevice :: "'s \<Rightarrow> device_authorization \<Rightarrow> 's \<times> go_error option"
  opDeviceByCode :: "'s \<Rightarrow> string \<Rightarrow> (go_error, device_authorization option) result"
  opDeviceByUser :: "'s \<Rightarrow> string \<Rightarrow> (go_error, device_authorization option) result"
  opApprove :: "'s \<Rightarrow> uuid \<Rightarrow> string \<Rightarrow> time \<Rightarrow> 's \<times> (go_error, bool) result"
  opDeny :: "'s \<Rightarrow> uuid \<Rightarrow> time \<Rightarrow> 's \<times> (go_error, bool) result"
  opConsumeCreate :: "'s \<Rightarrow> uuid \<Rightarrow> time \<Rightarrow> token \<Rightarrow> 's \<times> (go_error, bool) result"
  opPoll :: "'s \<Rightarrow> uuid \<Rightarrow> time \<Rightarrow> 's"
  opSlowDown :: "'s \<Rightarrow> uuid \<Rightarrow> time \<Rightarrow> duration \<Rightarrow> 's"
  opMarkExpired :: "'s \<Rightarrow> time \<Rightarrow> 's"
  opUpsertSubject :: "'s \<Rightarrow> identity_claims \<Rightarrow> 's \<times> go_error option"
  opCreateClient :: "'s \<Rightarrow> registered_client \<Rightarrow> string \<Rightarrow> 's \<times> go_error option"
  opCreateToken :: "'s \<Rightarrow> token \<Rightarrow> 's \<times> go_error option"
  opDeleteOperator :: "'s \<Rightarrow> uuid \<Rightarrow> string \<Rightarrow> 's \<times> (go_error, bool) result"
  opAudit :: "'s \<Rightarrow> audit_event \<Rightarrow> 's"

section \<open>The service\<close>

record 's oauth_service =
  oaPublicBaseURL :: string
  oaOperatorToken :: string
  oaDirectory :: "service_directory option"
  oaGrants :: "('s \<Rightarrow> allowed_fn) option"
  oaBrowserAuth :: bool
  oaDCREnabled :: bool
  oaCIMDEnabled :: bool
  oaAccessTTL :: duration
  oaRefreshTTL :: duration
  oaDeviceTTL :: duration
  oaHash :: "string \<Rightarrow> string"
  oaFormClient :: "http_request \<Rightarrow> (go_error, string \<times> string) result"

text \<open>\<^verbatim>\<open>oauth2server.ClientFormHandler\<close> is \<^verbatim>\<open>oaFormClient\<close>, a function of the OAuth library.\<close>

definition resolveClientCredentials ::
  "'s oauth_service \<Rightarrow> http_request \<Rightarrow> (go_error, string \<times> string) result" where
  "resolveClientCredentials o1 r =
     (case basicAuth r of Some c \<Rightarrow> Inr c | None \<Rightarrow> oaFormClient o1 r)"

definition serviceIDFromPath ::
  "'s oauth_service \<Rightarrow> string \<Rightarrow> string \<Rightarrow> bool \<times> (go_error, string) result" where
  "serviceIDFromPath o1 path pre =
     (if path = pre then (False, Inr [])
      else if \<not> has_prefix path (pre @ [slash])
      then (False, Inl (Errorf ''unsupported service-scoped path''))
      else let serviceID = trim_prefix path (pre @ [slash]) in
        if serviceID = [] \<or> contains_char serviceID slash then (True, Inl not_registered)
        else case ResolveByID (oaDirectory o1) serviceID of
            None \<Rightarrow> (True, Inl not_registered)
          | Some _ \<Rightarrow> (True, Inr serviceID))"

text \<open>\<^verbatim>\<open>scopeIncludes\<close> and \<^verbatim>\<open>scopeIncludesService\<close> of server.go.\<close>

definition scopeIncludes :: "string \<Rightarrow> string \<Rightarrow> bool" where
  "scopeIncludes scope targetScope = (\<not> blank scope \<and> targetScope \<in> set (go_fields scope))"

definition scopeIncludesService :: "string \<Rightarrow> string \<Rightarrow> bool" where
  "scopeIncludesService scope serviceID = scopeIncludes scope (mcp_prefix @ serviceID)"

definition scopeForServiceContext ::
  "'s oauth_service \<Rightarrow> string \<Rightarrow> string \<Rightarrow> (go_error, string) result" where
  "scopeForServiceContext o1 scope serviceID =
     (let serviceScope = mcp_prefix @ serviceID; sc = trim_space scope in
      if sc = [] then Inr serviceScope
      else if \<not> scopeStringAllowed sc (directory_Scopes (oaDirectory o1))
      then Inl (Errorf ''requested scopes are not supported'')
      else if \<not> scopeIncludesService sc serviceID
      then Inl (Errorf ''requested scope must include the service scope'')
      else Inr serviceScope)"

definition narrowRequestScopeToService ::
  "'s oauth_service \<Rightarrow> http_request \<Rightarrow> string \<Rightarrow> (go_error, http_request) result" where
  "narrowRequestScopeToService o1 r serviceID =
     (if \<not> formOK r then Inl (Errorf ''unable to parse request parameters'')
      else bind_result (scopeForServiceContext o1 (form_get r ''scope'') serviceID) (\<lambda>sc.
        Inr (form_set ''scope'' sc r)))"

definition resourceForSingleServiceScope ::
  "'s oauth_service \<Rightarrow> string \<Rightarrow> (go_error, string) result" where
  "resourceForSingleServiceScope o1 scope =
     bind_result (ResolveScope (oaDirectory o1) scope) (\<lambda>res. Inr (rResource res))"

definition setRequestResourceIndicator :: "string \<Rightarrow> http_request \<Rightarrow> http_request" where
  "setRequestResourceIndicator resource r =
     (let res = clean_resource resource in if res = [] then r else form_set ''resource'' res r)"

definition no_resource :: "string list \<Rightarrow> bool" where
  "no_resource rs = (rs = [] \<or> length rs = 1 \<and> blank (hd rs))"

text \<open>The expected resource, and the request with the resource it now carries.\<close>

definition validateResourceIndicator ::
  "'s oauth_service \<Rightarrow> http_request \<Rightarrow> string \<Rightarrow> (go_error, string \<times> http_request) result" where
  "validateResourceIndicator o1 r scope =
     (if \<not> formOK r then Inl (Errorf ''unable to parse request parameters'')
      else bind_result (resourceForSingleServiceScope o1 scope) (\<lambda>expected.
        let resources = form_values r ''resource'' in
        if no_resource resources then Inr (expected, setRequestResourceIndicator expected r)
        else if length resources \<noteq> 1 then Inl (Errorf ''exactly one resource indicator is required'')
        else if clean_resource (hd resources) \<noteq> expected
        then Inl (Errorf ''resource indicator must match the requested MCP service'')
        else Inr (expected, setRequestResourceIndicator expected r)))"

definition validateTokenResourceIndicator ::
  "'s oauth_service \<Rightarrow> http_request \<Rightarrow> (go_error, string \<times> http_request) result" where
  "validateTokenResourceIndicator o1 r =
     (if \<not> formOK r then Inl (Errorf ''unable to parse form body'')
      else let resources = form_values r ''resource'' in
        if no_resource resources
        then (let scope = trim_space (form_get r ''scope'') in
              if scope = [] then Inr ([], r)
              else bind_result (resourceForSingleServiceScope o1 scope) (\<lambda>res.
                Inr (res, setRequestResourceIndicator res r)))
        else if length resources \<noteq> 1 then Inl (Errorf ''exactly one resource indicator is required'')
        else bind_result (ResolveResource (oaDirectory o1) (hd resources)) (\<lambda>resolution.
          Inr (rResource resolution, setRequestResourceIndicator (rResource resolution) r)))"

section \<open>User codes\<close>

definition user_code_alphabet :: string where
  "user_code_alphabet = ''ABCDEFGHJKLMNPQRSTUVWXYZ23456789''"

text \<open>The eight random bytes are the argument.\<close>

definition generateUserCode :: "byte list \<Rightarrow> string" where
  "generateUserCode buf =
     (let cs = map (\<lambda>b. user_code_alphabet ! (unat b mod length user_code_alphabet)) buf
      in take 4 cs @ ''-'' @ drop 4 cs)"

section \<open>Issuing a device code\<close>

record device_response =
  drDeviceCode :: string
  drUserCode :: string
  drVerificationURI :: string
  drVerificationURIComplete :: string
  drExpiresIn :: int
  drInterval :: int

text \<open>What the handler draws: the device code, the user code's bytes, an identifier, the time.\<close>

record device_draw =
  dwDeviceCode :: "string option"
  dwUserBytes :: "byte list option"
  dwID :: uuid
  dwNow :: time

definition handleDeviceAuthorization ::
  "'s edge_ops \<Rightarrow> 's oauth_service \<Rightarrow> (string \<Rightarrow> string) \<Rightarrow> device_draw \<Rightarrow> 's \<Rightarrow> http_request
    \<Rightarrow> 's \<times> device_response response" where
  "handleDeviceAuthorization ops o1 query_escape draw st r0 =
     (if rqMethod r0 \<noteq> POST then (st, JsonError 405 ''method_not_allowed'')
      else if \<not> formOK r0 then (st, JsonError 400 ''invalid_request'')
      else case serviceIDFromPath o1 (rqPath r0) ''/oauth/device_authorization'' of
        (_, Inl e) \<Rightarrow> (st, JsonError 404 ''service_not_found'')
      | (serviceScoped, Inr pathService) \<Rightarrow>
        (case (if serviceScoped then narrowRequestScopeToService o1 r0 pathService else Inr r0) of
          Inl e \<Rightarrow> (st, JsonError 400 ''invalid_scope'')
        | Inr r \<Rightarrow>
          (case resolveClientCredentials o1 r of
            Inl e \<Rightarrow> (st, JsonError 401 ''invalid_client'')
          | Inr (clientID, clientSecret) \<Rightarrow>
            (case opGetClient ops st clientID of
              Inl e \<Rightarrow> (st, JsonError 401 ''invalid_client'')
            | Inr client \<Rightarrow>
              if \<not> verifyClientSecretForTokenRequest (oaHash o1) client clientSecret
              then (st, JsonError 401 ''invalid_client'')
              else if \<not> clientAllowsGrant client grantDeviceCode
              then (st, JsonError 400 ''unauthorized_client'')
              else let scope = trim_space (form_get r ''scope'') in
                if scope = [] then (st, JsonError 400 ''invalid_scope'')
                else if \<not> scopeStringAllowed scope (directory_Scopes (oaDirectory o1))
                  \<or> \<not> clientAllowsScope client scope
                then (st, JsonError 400 ''invalid_scope'')
                else (case singleServiceFromScope scope of
                  Inl e \<Rightarrow> (st, JsonError 400 ''invalid_scope'')
                | Inr serviceID \<Rightarrow>
                  (case validateResourceIndicator o1 r scope of
                    Inl e \<Rightarrow> (st, JsonError 400 ''invalid_resource'')
                  | Inr (resource, _) \<Rightarrow>
                    (case dwDeviceCode draw of
                      None \<Rightarrow> (st, JsonError 500 ''device_code_generation_failed'')
                    | Some deviceCode \<Rightarrow>
                      (case dwUserBytes draw of
                        None \<Rightarrow> (st, JsonError 500 ''user_code_generation_failed'')
                      | Some bytes \<Rightarrow>
                        let userCode = generateUserCode bytes;
                            now = dwNow draw;
                            ttl = oaDeviceTTL o1;
                            interval = 5 * second;
                            record1 = \<lparr>dID = dwID draw, dClientID = clientID, dSubjectSub = None,
                              dServiceID = serviceID, dResource = resource, dScope = scope,
                              dDeviceCodeHash = oaHash o1 deviceCode,
                              dUserCodeHash = oaHash o1 (normalizeUserCode userCode),
                              dUserCodeDisplay = userCode, dStatus = StatusUnset,
                              dInterval = interval, dLastPollAt = None, dPollCount = 0,
                              dApprovedAt = None, dDeniedAt = None, dExpiresAt = now + ttl,
                              dConsumedAt = None, dCreatedAt = now, dUpdatedAt = 0\<rparr>
                        in (case opCreateDevice ops st record1 of
                          (st', Some e) \<Rightarrow> (st', JsonError 500 ''device_authorization_store_failed'')
                        | (st', None) \<Rightarrow>
                          let uri = oaPublicBaseURL o1 @ ''/oauth/device'' in
                          (opAudit ops st' \<lparr>aeActor = [], aeService = serviceID,
                             aeType = ''oauth.device.created'', aeStatus = ''created''\<rparr>,
                           Answer \<lparr>drDeviceCode = deviceCode, drUserCode = userCode,
                             drVerificationURI = uri,
                             drVerificationURIComplete = uri @ ''?user_code='' @ query_escape userCode,
                             drExpiresIn = ttl div second, drInterval = interval div second\<rparr>))))))))))"

section \<open>The approval page\<close>

text \<open>The approval page carries the record, a message and the CSRF token of its form.\<close>

datatype device_page = PageEntry string | PageApproval device_authorization string string | PageDone string
  | PageLogin

text \<open>\<^verbatim>\<open>cookie\<close> is the value of the browser session's cookie, if the request has one.\<close>

definition deviceCSRFToken :: "(string \<Rightarrow> string) \<Rightarrow> string option \<Rightarrow> device_authorization \<Rightarrow> string" where
  "deviceCSRFToken hash cookie d =
     (case cookie of None \<Rightarrow> [] | Some c \<Rightarrow> hash (c @ ''|'' @ encodeCanonical (dID d)))"

definition validDeviceCSRFToken ::
  "(string \<Rightarrow> string) \<Rightarrow> string option \<Rightarrow> http_request \<Rightarrow> device_authorization \<Rightarrow> bool" where
  "validDeviceCSRFToken hash cookie r d =
     (let expected = deviceCSRFToken hash cookie d; provided = trim_space (form_get r ''csrf_token'')
      in expected \<noteq> [] \<and> provided \<noteq> [] \<and> expected = provided)"

definition pending_open :: "device_authorization \<Rightarrow> time \<Rightarrow> bool" where
  "pending_open d now = (dStatus d = StatusPending \<and> now < dExpiresAt d)"

definition renderDeviceApproval ::
  "(string \<Rightarrow> string) \<Rightarrow> string option \<Rightarrow> device_authorization \<Rightarrow> string \<Rightarrow> device_page" where
  "renderDeviceApproval hash cookie d message = PageApproval d message (deviceCSRFToken hash cookie d)"

definition handleDeviceVerificationGet ::
  "'s edge_ops \<Rightarrow> 's oauth_service \<Rightarrow> time \<Rightarrow> 's \<Rightarrow> authenticated_subject option \<Rightarrow> string option
    \<Rightarrow> string \<Rightarrow> device_page response" where
  "handleDeviceVerificationGet ops o1 now st subject cookie userCodeQuery =
     (case subject of
        None \<Rightarrow> if oaBrowserAuth o1 then Answer PageLogin else JsonError 401 ''login_required''
      | Some _ \<Rightarrow>
          let userCode = trim_space userCodeQuery in
          if userCode = [] then Answer (PageEntry [])
          else case opDeviceByUser ops st userCode of
              Inl e \<Rightarrow> JsonError 503 ''device_authorization_unavailable''
            | Inr None \<Rightarrow> Answer (PageEntry ''Device code is invalid or expired.'')
            | Inr (Some d) \<Rightarrow>
                if \<not> pending_open d now then Answer (PageEntry ''Device code is invalid or expired.'')
                else Answer (renderDeviceApproval (oaHash o1) cookie d []))"

definition subject_claims :: "authenticated_subject \<Rightarrow> identity_claims" where
  "subject_claims s =
     \<lparr>cSub = sSub s, cSubjectKey = [], cEmail = sEmail s, cName = sDisplayName s,
      cPreferredUsername = sPreferredUsername s, cAccountBindingID = [], cAccountBindingClaim = [],
      cGroups = sGroups s\<rparr>"

text \<open>The part of the POST handler after the checks common to both actions: approve the record.\<close>

definition approve_device ::
  "'s edge_ops \<Rightarrow> 's oauth_service \<Rightarrow> time \<Rightarrow> 's \<Rightarrow> authenticated_subject \<Rightarrow> device_authorization
    \<Rightarrow> 's \<times> device_page response" where
  "approve_device ops o1 now st subject d =
     (case opGetClient ops st (dClientID d) of
        Inl e \<Rightarrow> (st, JsonError 400 ''unauthorized_client'')
      | Inr client \<Rightarrow>
        if \<not> clientAllowsGrant client grantDeviceCode \<or> \<not> clientAllowsScope client (dScope d)
        then (st, JsonError 400 ''unauthorized_client'')
        else (case ResolveByID (oaDirectory o1) (dServiceID d) of
          None \<Rightarrow> (st, JsonError 400 ''invalid_resource'')
        | Some res \<Rightarrow>
          if dResource d \<noteq> rResource res then (st, JsonError 400 ''invalid_resource'')
          else (case (case oaGrants o1 of None \<Rightarrow> Inr True | Some g \<Rightarrow> g st (sSub subject) (dScope d)) of
            Inl e \<Rightarrow> (st, JsonError 503 ''authorization_unavailable'')
          | Inr False \<Rightarrow> (st, JsonError 403 ''service_not_granted'')
          | Inr True \<Rightarrow>
            (case opUpsertSubject ops st (subject_claims subject) of
              (st1, Some e) \<Rightarrow> (st1, JsonError 503 ''subject_sync_failed'')
            | (st1, None) \<Rightarrow>
              (case opApprove ops st1 (dID d) (sSub subject) now of
                (st2, Inr True) \<Rightarrow>
                  (opAudit ops st2 \<lparr>aeActor = sSub subject, aeService = dServiceID d,
                     aeType = ''oauth.device.approved'', aeStatus = ''approved''\<rparr>,
                   Answer (PageDone ''Device request approved. You can return to the device.''))
              | (st2, _) \<Rightarrow> (st2, JsonError 409 ''device_authorization_not_pending''))))))"

definition handleDeviceVerificationPost ::
  "'s edge_ops \<Rightarrow> 's oauth_service \<Rightarrow> time \<Rightarrow> 's \<Rightarrow> authenticated_subject option \<Rightarrow> string option
    \<Rightarrow> http_request \<Rightarrow> 's \<times> device_page response" where
  "handleDeviceVerificationPost ops o1 now st subject cookie r =
     (case subject of
        None \<Rightarrow> (st, JsonError 401 ''login_required'')
      | Some sub \<Rightarrow>
        if blank (sSub sub) then (st, JsonError 401 ''login_required'')
        else if \<not> formOK r then (st, JsonError 400 ''invalid_request'')
        else let action = trim_space (form_get r ''action'');
                 userCode = trim_space (form_get r ''user_code'')
        in (case opDeviceByUser ops st userCode of
          Inl e \<Rightarrow> (st, JsonError 503 ''device_authorization_unavailable'')
        | Inr None \<Rightarrow> (st, Answer (PageEntry ''Device code is invalid or expired.''))
        | Inr (Some d) \<Rightarrow>
          if \<not> pending_open d now
          then (st, Answer (PageEntry ''Device code is invalid or expired.''))
          else if action \<noteq> ''approve'' \<and> action \<noteq> ''deny''
          then (st, Answer (renderDeviceApproval (oaHash o1) cookie d ''Choose approve or deny.''))
          else if \<not> validDeviceCSRFToken (oaHash o1) cookie r d
          then (st, JsonError 403 ''invalid_csrf_token'')
          else if action = ''deny''
          then (case opDeny ops st (dID d) now of
              (st', Inr True) \<Rightarrow>
                (opAudit ops st' \<lparr>aeActor = sSub sub, aeService = dServiceID d,
                   aeType = ''oauth.device.denied'', aeStatus = ''denied''\<rparr>,
                 Answer (PageDone ''Device request denied. You can return to the device.''))
            | (st', _) \<Rightarrow> (st', JsonError 409 ''device_authorization_not_pending''))
          else approve_device ops o1 now st sub d))"

section \<open>The token endpoint of the device flow\<close>

record token_response =
  trAccessToken :: string
  trExpiresIn :: int
  trScope :: string
  trResource :: string
  trRefreshToken :: string

text \<open>What the handler draws: the access and the refresh token, if the generator works.\<close>

record token_draw =
  tdAccess :: "string option"
  tdRefresh :: "string option"

definition device_token ::
  "'s oauth_service \<Rightarrow> string \<Rightarrow> string \<Rightarrow> device_authorization \<Rightarrow> time \<Rightarrow> string \<Rightarrow> string option \<Rightarrow> token" where
  "device_token o1 clientID sub d now access refresh =
     (let t1 = new_token\<lparr>tClientID := clientID, tUserID := sub, tScope := dScope d, tAccess := access,
                 tAccessCreateAt := now, tAccessExpiresIn := oaAccessTTL o1\<rparr>;
          t2 = setTokenInfoIssuedVia (setTokenInfoResource t1 (dResource d)) grantDeviceCode
      in case refresh of
           None \<Rightarrow> t2
         | Some rt \<Rightarrow> t2\<lparr>tRefresh := rt, tRefreshCreateAt := now, tRefreshExpiresIn := oaRefreshTTL o1\<rparr>)"

text \<open>The part of the handler from the approved record on.\<close>

definition issue_device_token ::
  "'s edge_ops \<Rightarrow> 's oauth_service \<Rightarrow> token_draw \<Rightarrow> time \<Rightarrow> 's \<Rightarrow> string \<Rightarrow> client_info
    \<Rightarrow> device_authorization \<Rightarrow> 's \<times> token_response response" where
  "issue_device_token ops o1 draw now st clientID client d =
     (case dSubjectSub d of
        None \<Rightarrow> (st, OAuthError 400 ''invalid_grant'')
      | Some sub \<Rightarrow>
        if blank sub then (st, OAuthError 400 ''invalid_grant'')
        else if \<not> clientAllowsScope client (dScope d) \<or> \<not> clientAllowsGrant client grantDeviceCode
        then (st, OAuthError 400 ''unauthorized_client'')
        else (case ResolveByID (oaDirectory o1) (dServiceID d) of
          None \<Rightarrow> (st, OAuthError 400 ''invalid_resource'')
        | Some res \<Rightarrow>
          if dResource d \<noteq> rResource res then (st, OAuthError 400 ''invalid_resource'')
          else (case (case oaGrants o1 of None \<Rightarrow> Inr True | Some g \<Rightarrow> g st sub (dScope d)) of
            Inl e \<Rightarrow> (st, OAuthError 503 ''server_error'')
          | Inr False \<Rightarrow> (st, OAuthError 403 ''access_denied'')
          | Inr True \<Rightarrow>
            (case tdAccess draw of
              None \<Rightarrow> (st, OAuthError 500 ''server_error'')
            | Some access \<Rightarrow>
              if clientAllowsGrant client grantRefreshToken \<and> tdRefresh draw = None
              then (st, OAuthError 500 ''server_error'')
              else let refresh = (if clientAllowsGrant client grantRefreshToken then tdRefresh draw else None)
                in (case opConsumeCreate ops st (dID d) now (device_token o1 clientID sub d now access refresh) of
                  (st', Inl e) \<Rightarrow> (st', OAuthError 500 ''server_error'')
                | (st', Inr False) \<Rightarrow> (st', OAuthError 400 ''invalid_grant'')
                | (st', Inr True) \<Rightarrow>
                    (opAudit ops st' \<lparr>aeActor = sub, aeService = dServiceID d,
                       aeType = ''oauth.device.token_issued'', aeStatus = ''issued''\<rparr>,
                     Answer \<lparr>trAccessToken = access, trExpiresIn = oaAccessTTL o1 div second,
                       trScope = dScope d, trResource = dResource d,
                       trRefreshToken = clamp_some refresh []\<rparr>))))))"

definition handleDeviceToken ::
  "'s edge_ops \<Rightarrow> 's oauth_service \<Rightarrow> token_draw \<Rightarrow> time \<Rightarrow> 's \<Rightarrow> http_request
    \<Rightarrow> 's \<times> token_response response" where
  "handleDeviceToken ops o1 draw now st r =
     (case resolveClientCredentials o1 r of
        Inl e \<Rightarrow> (st, OAuthError 401 ''invalid_client'')
      | Inr (clientID, clientSecret) \<Rightarrow>
        (case opGetClient ops st clientID of
          Inl e \<Rightarrow> (st, OAuthError 401 ''invalid_client'')
        | Inr client \<Rightarrow>
          if \<not> verifyClientSecretForTokenRequest (oaHash o1) client clientSecret
          then (st, OAuthError 401 ''invalid_client'')
          else if \<not> clientAllowsGrant client grantDeviceCode
          then (st, OAuthError 400 ''unauthorized_client'')
          else let deviceCode = trim_space (form_get r ''device_code'') in
            if deviceCode = [] then (st, OAuthError 400 ''invalid_request'')
            else (case opDeviceByCode ops st deviceCode of
              Inl e \<Rightarrow> (st, OAuthError 500 ''server_error'')
            | Inr None \<Rightarrow> (st, OAuthError 400 ''invalid_grant'')
            | Inr (Some d) \<Rightarrow>
              if dClientID d \<noteq> clientID then (st, OAuthError 400 ''invalid_grant'')
              else if \<not> now < dExpiresAt d \<or> dStatus d = StatusExpired
              then (opMarkExpired ops st now, OAuthError 400 ''expired_token'')
              else if (case dLastPollAt d of None \<Rightarrow> False | Some polled \<Rightarrow> now - polled < dInterval d)
              then (opSlowDown ops st (dID d) now (5 * second), OAuthError 400 ''slow_down'')
              else let st1 = opPoll ops st (dID d) now in
                case dStatus d of
                  StatusPending \<Rightarrow> (st1, OAuthError 400 ''authorization_pending'')
                | StatusDenied \<Rightarrow> (st1, OAuthError 400 ''access_denied'')
                | StatusConsumed \<Rightarrow> (st1, OAuthError 400 ''invalid_grant'')
                | StatusApproved \<Rightarrow> issue_device_token ops o1 draw now st1 clientID client d
                | _ \<Rightarrow> (st1, OAuthError 400 ''invalid_grant''))))"

section \<open>What the handlers guarantee\<close>

text \<open>
  The conditions under which the token endpoint answers with a token, for any store: the client is
  authenticated and owns the record, the record is approved and not expired, its subject, scope,
  resource and grants are still valid, and the store consumed it.
\<close>

definition granted :: "'s oauth_service \<Rightarrow> 's \<Rightarrow> string \<Rightarrow> string \<Rightarrow> bool" where
  "granted o1 st sub scope =
     (case oaGrants o1 of None \<Rightarrow> True | Some g \<Rightarrow> g st sub scope = Inr True)"

definition token_conditions ::
  "'s edge_ops \<Rightarrow> 's oauth_service \<Rightarrow> time \<Rightarrow> 's \<Rightarrow> http_request \<Rightarrow> string \<Rightarrow> client_info
    \<Rightarrow> device_authorization \<Rightarrow> string \<Rightarrow> service_resolution \<Rightarrow> bool" where
  "token_conditions ops o1 now st r clientID client d sub res =
     ((\<exists>secret. resolveClientCredentials o1 r = Inr (clientID, secret)
         \<and> verifyClientSecretForTokenRequest (oaHash o1) client secret)
      \<and> opGetClient ops st clientID = Inr client
      \<and> clientAllowsGrant client grantDeviceCode \<and> clientAllowsScope client (dScope d)
      \<and> opDeviceByCode ops st (trim_space (form_get r ''device_code'')) = Inr (Some d)
      \<and> dClientID d = clientID \<and> now < dExpiresAt d \<and> dStatus d = StatusApproved
      \<and> dSubjectSub d = Some sub \<and> \<not> blank sub
      \<and> ResolveByID (oaDirectory o1) (dServiceID d) = Some res \<and> dResource d = rResource res
      \<and> granted o1 (opPoll ops st (dID d) now) sub (dScope d))"

lemma issue_device_token_answer:
  assumes "issue_device_token ops o1 draw now st clientID client d = (st', Answer resp)"
  shows "\<exists>sub res access refresh st2. dSubjectSub d = Some sub \<and> \<not> blank sub
    \<and> clientAllowsScope client (dScope d) \<and> clientAllowsGrant client grantDeviceCode
    \<and> ResolveByID (oaDirectory o1) (dServiceID d) = Some res \<and> dResource d = rResource res
    \<and> granted o1 st sub (dScope d)
    \<and> tdAccess draw = Some access
    \<and> refresh = (if clientAllowsGrant client grantRefreshToken then tdRefresh draw else None)
    \<and> opConsumeCreate ops st (dID d) now (device_token o1 clientID sub d now access refresh) = (st2, Inr True)
    \<and> st' = opAudit ops st2 \<lparr>aeActor = sub, aeService = dServiceID d,
          aeType = ''oauth.device.token_issued'', aeStatus = ''issued''\<rparr>
    \<and> trScope resp = dScope d \<and> trResource resp = dResource d \<and> trAccessToken resp = access
    \<and> trRefreshToken resp = clamp_some refresh []"
proof -
  obtain sub where sub: "dSubjectSub d = Some sub"
    using assms by (cases "dSubjectSub d") (simp_all add: issue_device_token_def)
  have checks: "\<not> blank sub" "clientAllowsScope client (dScope d)" "clientAllowsGrant client grantDeviceCode"
    using assms sub by (simp_all add: issue_device_token_def del: clientAllowsScope.simps split: if_splits)
  obtain res where res: "ResolveByID (oaDirectory o1) (dServiceID d) = Some res"
    using assms sub checks
    by (cases "ResolveByID (oaDirectory o1) (dServiceID d)")
       (simp_all add: issue_device_token_def del: clientAllowsScope.simps)
  have dr: "dResource d = rResource res"
    using assms sub checks res by (simp add: issue_device_token_def del: clientAllowsScope.simps split: if_splits)
  define g where "g = (case oaGrants o1 of None \<Rightarrow> Inr True | Some g \<Rightarrow> g st sub (dScope d))"
  have g: "g = Inr True"
    using assms sub checks res dr
    by (simp add: issue_device_token_def g_def[symmetric] del: clientAllowsScope.simps
        split: sum.splits bool.splits)
  then have gr: "granted o1 st sub (dScope d)" by (simp add: granted_def g_def split: option.splits)
  obtain access where access: "tdAccess draw = Some access"
    using assms sub checks res dr g
    by (cases "tdAccess draw") (simp_all add: issue_device_token_def g_def[symmetric] del: clientAllowsScope.simps)
  define refresh where "refresh = (if clientAllowsGrant client grantRefreshToken then tdRefresh draw else None)"
  obtain st2 outcome where out:
    "opConsumeCreate ops st (dID d) now (device_token o1 clientID sub d now access refresh) = (st2, outcome)"
    by (cases "opConsumeCreate ops st (dID d) now (device_token o1 clientID sub d now access refresh)")
  have fin: "outcome = Inr True"
    "st' = opAudit ops st2 \<lparr>aeActor = sub, aeService = dServiceID d,
          aeType = ''oauth.device.token_issued'', aeStatus = ''issued''\<rparr>"
    "resp = \<lparr>trAccessToken = access, trExpiresIn = oaAccessTTL o1 div second, trScope = dScope d,
       trResource = dResource d, trRefreshToken = clamp_some refresh []\<rparr>"
    using assms sub checks res dr g access out
    by (simp_all add: issue_device_token_def g_def[symmetric] refresh_def[symmetric] Let_def
        del: clientAllowsScope.simps split: sum.splits bool.splits if_splits)
  show ?thesis
    using sub checks res dr gr access out fin refresh_def by auto
qed

lemma handleDeviceToken_answer:
  assumes "handleDeviceToken ops o1 draw now st r = (st', Answer resp)"
  shows "\<exists>clientID client d.
    (\<exists>secret. resolveClientCredentials o1 r = Inr (clientID, secret)
       \<and> verifyClientSecretForTokenRequest (oaHash o1) client secret)
    \<and> opGetClient ops st clientID = Inr client \<and> clientAllowsGrant client grantDeviceCode
    \<and> opDeviceByCode ops st (trim_space (form_get r ''device_code'')) = Inr (Some d)
    \<and> dClientID d = clientID \<and> now < dExpiresAt d \<and> dStatus d = StatusApproved
    \<and> \<not> (case dLastPollAt d of None \<Rightarrow> False | Some polled \<Rightarrow> now - polled < dInterval d)
    \<and> issue_device_token ops o1 draw now (opPoll ops st (dID d) now) clientID client d = (st', Answer resp)"
proof -
  obtain clientID secret where c: "resolveClientCredentials o1 r = Inr (clientID, secret)"
    using assms by (auto simp: handleDeviceToken_def split: sum.splits)
  obtain client where ci: "opGetClient ops st clientID = Inr client"
    using assms c by (auto simp: handleDeviceToken_def split: sum.splits)
  let ?code = "trim_space (form_get r ''device_code'')"
  have v: "verifyClientSecretForTokenRequest (oaHash o1) client secret" "clientAllowsGrant client grantDeviceCode"
    "?code \<noteq> []"
    using assms c ci by (auto simp: handleDeviceToken_def Let_def split: if_splits)
  obtain d where d: "opDeviceByCode ops st ?code = Inr (Some d)"
    using assms c ci v by (auto simp: handleDeviceToken_def split: sum.splits option.splits)
  have rest: "dClientID d = clientID" "now < dExpiresAt d"
    "\<not> (case dLastPollAt d of None \<Rightarrow> False | Some polled \<Rightarrow> now - polled < dInterval d)"
    using assms c ci v d by (auto simp: handleDeviceToken_def Let_def split: if_splits)
  have "dStatus d = StatusApproved
    \<and> issue_device_token ops o1 draw now (opPoll ops st (dID d) now) clientID client d = (st', Answer resp)"
    using assms c ci v d rest
    by (cases "dStatus d") (simp_all add: handleDeviceToken_def Let_def)
  then show ?thesis using c ci v d rest by blast
qed

lemma handleDeviceToken_conditions:
  assumes "handleDeviceToken ops o1 draw now st r = (st', Answer resp)"
  shows "\<exists>clientID client d sub res access refresh st2.
    token_conditions ops o1 now st r clientID client d sub res
    \<and> opConsumeCreate ops (opPoll ops st (dID d) now) (dID d) now
        (device_token o1 clientID sub d now access refresh) = (st2, Inr True)
    \<and> (refresh \<noteq> None \<longrightarrow> clientAllowsGrant client grantRefreshToken)
    \<and> trScope resp = dScope d \<and> trResource resp = dResource d \<and> trAccessToken resp = access"
proof -
  from handleDeviceToken_answer[OF assms] obtain clientID client d secret where
    c: "resolveClientCredentials o1 r = Inr (clientID, secret)"
      "verifyClientSecretForTokenRequest (oaHash o1) client secret"
      "opGetClient ops st clientID = Inr client" "clientAllowsGrant client grantDeviceCode"
      "opDeviceByCode ops st (trim_space (form_get r ''device_code'')) = Inr (Some d)"
      "dClientID d = clientID" "now < dExpiresAt d" "dStatus d = StatusApproved"
    and i: "issue_device_token ops o1 draw now (opPoll ops st (dID d) now) clientID client d = (st', Answer resp)"
    by blast
  from issue_device_token_answer[OF i] obtain sub res access refresh st2 where
    s: "dSubjectSub d = Some sub" "\<not> blank sub" "clientAllowsScope client (dScope d)"
      "ResolveByID (oaDirectory o1) (dServiceID d) = Some res" "dResource d = rResource res"
      "granted o1 (opPoll ops st (dID d) now) sub (dScope d)"
      "refresh = (if clientAllowsGrant client grantRefreshToken then tdRefresh draw else None)"
      "opConsumeCreate ops (opPoll ops st (dID d) now) (dID d) now
        (device_token o1 clientID sub d now access refresh) = (st2, Inr True)"
      "trScope resp = dScope d" "trResource resp = dResource d" "trAccessToken resp = access"
    by blast
  have "token_conditions ops o1 now st r clientID client d sub res"
    using c s by (auto simp: token_conditions_def)
  moreover have "refresh \<noteq> None \<longrightarrow> clientAllowsGrant client grantRefreshToken"
    using s(7) by auto
  ultimately show ?thesis using s by blast
qed

text \<open>The page approves a record only for a live request of an authenticated, granted subject.\<close>

lemma approve_device_done:
  assumes "approve_device ops o1 now st subject d = (st', Answer page)"
  shows "\<exists>client res st1 st2. opGetClient ops st (dClientID d) = Inr client
    \<and> clientAllowsGrant client grantDeviceCode \<and> clientAllowsScope client (dScope d)
    \<and> ResolveByID (oaDirectory o1) (dServiceID d) = Some res \<and> dResource d = rResource res
    \<and> granted o1 st (sSub subject) (dScope d)
    \<and> opUpsertSubject ops st (subject_claims subject) = (st1, None)
    \<and> opApprove ops st1 (dID d) (sSub subject) now = (st2, Inr True)"
  using assms
  by (auto simp: approve_device_def granted_def
      split: option.splits if_splits sum.splits prod.splits bool.splits)

lemma verification_post_changes:
  assumes "handleDeviceVerificationPost ops o1 now st subject cookie r = (st', resp)" "st' \<noteq> st"
  shows "\<exists>sub d. subject = Some sub \<and> \<not> blank (sSub sub)
    \<and> opDeviceByUser ops st (trim_space (form_get r ''user_code'')) = Inr (Some d)
    \<and> pending_open d now \<and> validDeviceCSRFToken (oaHash o1) cookie r d"
  using assms
  by (auto simp: handleDeviceVerificationPost_def Let_def
      split: option.splits if_splits sum.splits prod.splits)

lemma csrf_needs_cookie: "validDeviceCSRFToken hash cookie r d \<Longrightarrow> \<exists>c. cookie = Some c
  \<and> trim_space (form_get r ''csrf_token'') = hash (c @ ''|'' @ encodeCanonical (dID d))"
  by (auto simp: validDeviceCSRFToken_def deviceCSRFToken_def Let_def split: option.splits)

subsection \<open>User codes\<close>

lemma alphabet_char: "n < 32 \<Longrightarrow> user_code_alphabet ! n \<in> set user_code_alphabet"
  by (rule nth_mem) (simp add: user_code_alphabet_def)

lemma alphabet_plain:
  "c \<in> set user_code_alphabet \<Longrightarrow> solid c \<and> to_upper_char c = c \<and> c \<noteq> CHR 0x2D \<and> c \<noteq> CHR 0x20"
proof -
  have "list_all (\<lambda>c. solid c \<and> to_upper_char c = c \<and> c \<noteq> CHR 0x2D \<and> c \<noteq> CHR 0x20) user_code_alphabet"
    by code_simp
  then show "c \<in> set user_code_alphabet \<Longrightarrow> ?thesis" by (simp add: list_all_iff)
qed

lemma user_code_normal:
  assumes "length buf = 8"
  shows "normalizeUserCode (generateUserCode buf)
    = map (\<lambda>b. user_code_alphabet ! (unat b mod length user_code_alphabet)) buf"
proof -
  let ?cs = "map (\<lambda>b. user_code_alphabet ! (unat b mod length user_code_alphabet)) buf"
  have len: "length user_code_alphabet = 32" by (simp add: user_code_alphabet_def)
  have cs: "c \<in> set user_code_alphabet" if "c \<in> set ?cs" for c
    using that alphabet_char by (auto simp: len)
  let ?code = "take 4 ?cs @ ''-'' @ drop 4 ?cs"
  have "\<forall>c \<in> set ?code. solid c"
    using cs alphabet_plain by (auto dest: in_set_takeD in_set_dropD simp: solid_def simp del: map_map take_map drop_map)
  then have t: "trim_space ?code = ?code" by (rule trim_space_all_solid)
  have keep: "filter (\<lambda>c. c \<noteq> CHR 0x2D \<and> c \<noteq> CHR 0x20) (map to_upper_char xs) = xs"
    if "set xs \<subseteq> set user_code_alphabet" for xs
    using that alphabet_plain by (induction xs) auto
  have "set (take 4 ?cs) \<subseteq> set user_code_alphabet" "set (drop 4 ?cs) \<subseteq> set user_code_alphabet"
    using cs by (meson in_set_takeD in_set_dropD subsetI)+
  note keep[OF this(1)] keep[OF this(2)]
  moreover have "filter (\<lambda>c. c \<noteq> CHR 0x2D \<and> c \<noteq> CHR 0x20) (map to_upper_char ''-'') = []"
    by code_simp
  ultimately have "normalizeUserCode ?code = take 4 ?cs @ drop 4 ?cs"
    unfolding normalizeUserCode_def t to_upper_def map_append filter_append by simp
  then show ?thesis by (simp add: generateUserCode_def Let_def)
qed

end
