(* ===== verification/EdgeStores.thy ===== *)
theory EdgeStores
  imports OAuthDevice
begin

text \<open>
  The two edge stores as providers of the operations that the handlers use: the SQLite state with
  its client, subject, session, device and audit tables, and the in-memory state, whose tokens lie
  in the store of the OAuth library (a parameter).  Device codes are used once, end to end over SQLite.
\<close>

section \<open>SQLite\<close>

record client_row =
  rwRedirectURIs :: "string list"
  rwGrantTypes :: "string list"
  rwScopes :: "string list"
  rwCreatedBy :: "string option"
  rwAuthMethod :: auth_method
  rwSecretHash :: "string option"
  rwDisabled :: bool

record subject_row =
  sbKey :: string
  sbPreferredUsername :: "string option"
  sbEmail :: "string option"
  sbDisplayName :: "string option"
  sbAccountBindingID :: "string option"
  sbAccountBindingClaim :: "string option"

record sql_state =
  qClients :: "string \<rightharpoonup> client_row"
  qSubjects :: "string \<rightharpoonup> subject_row"
  qSessions :: session_table
  qDevices :: device_table
  qGrants :: grant_tables
  qAudit :: "audit_event list"

text \<open>
  \<^verbatim>\<open>ensureSubject\<close> and the upsert of \<^verbatim>\<open>EdgeUpsertSubject\<close>, which keeps a stored value where the new one
  is empty.  \<^verbatim>\<open>key\<close> derives the key of a subject (SHA-256, see \<^const>\<open>DeriveSubjectKey\<close>).
\<close>

definition coalesce :: "string \<Rightarrow> string option \<Rightarrow> string option" where
  "coalesce new old = (case nullif_empty new of None \<Rightarrow> old | Some v \<Rightarrow> Some v)"

definition q_EdgeUpsertSubject ::
  "(string \<rightharpoonup> subject_row) \<Rightarrow> string \<Rightarrow> string \<Rightarrow> identity_claims \<Rightarrow> string \<Rightarrow> (string \<rightharpoonup> subject_row)" where
  "q_EdgeUpsertSubject m sub key claims display =
     (let old = (case m sub of Some r \<Rightarrow> r | None \<Rightarrow> \<lparr>sbKey = key, sbPreferredUsername = None, sbEmail = None,
            sbDisplayName = None, sbAccountBindingID = None, sbAccountBindingClaim = None\<rparr>)
      in m(sub \<mapsto> \<lparr>sbKey = key,
          sbPreferredUsername = coalesce (cPreferredUsername claims) (sbPreferredUsername old),
          sbEmail = coalesce (cEmail claims) (sbEmail old),
          sbDisplayName = coalesce display (sbDisplayName old),
          sbAccountBindingID = coalesce (cAccountBindingID claims) (sbAccountBindingID old),
          sbAccountBindingClaim = coalesce (cAccountBindingClaim claims) (sbAccountBindingClaim old)\<rparr>))"

definition sql_ensureSubject :: "(string \<Rightarrow> string) \<Rightarrow> sql_state \<Rightarrow> identity_claims \<Rightarrow> sql_state" where
  "sql_ensureSubject key st claims =
     (let sub = trim_space (cSub claims) in
      if sub = [] then st
      else let k = (if blank (cSubjectKey claims) then key sub else trim_space (cSubjectKey claims));
               display = firstNonEmpty [trim_space (cName claims), trim_space (cPreferredUsername claims)]
        in st\<lparr>qSubjects := q_EdgeUpsertSubject (qSubjects st) sub k claims display\<rparr>)"

definition claims_of_sub :: "string \<Rightarrow> identity_claims" where
  "claims_of_sub sub =
     \<lparr>cSub = sub, cSubjectKey = [], cEmail = [], cName = [], cPreferredUsername = [],
      cAccountBindingID = [], cAccountBindingClaim = [], cGroups = []\<rparr>"

definition sql_GetSubjectIdentity :: "sql_state \<Rightarrow> string \<Rightarrow> identity_claims option" where
  "sql_GetSubjectIdentity st sub =
     (case qSubjects st sub of
        None \<Rightarrow> None
      | Some r \<Rightarrow> Some \<lparr>cSub = sub, cSubjectKey = sbKey r, cEmail = clamp_some (sbEmail r) [],
          cName = clamp_some (sbDisplayName r) [],
          cPreferredUsername = clamp_some (sbPreferredUsername r) [],
          cAccountBindingID = clamp_some (sbAccountBindingID r) [],
          cAccountBindingClaim = clamp_some (sbAccountBindingClaim r) [], cGroups = []\<rparr>)"

definition sql_CreateClient :: "crypto \<Rightarrow> (string \<Rightarrow> string) \<Rightarrow> sql_state \<Rightarrow> registered_client \<Rightarrow> string
    \<Rightarrow> sql_state \<times> go_error option" where
  "sql_CreateClient cr key st c createdBy =
     (let st1 = (if createdBy = [] then st else sql_ensureSubject key st (claims_of_sub createdBy));
          row = \<lparr>rwRedirectURIs = rcRedirectURIs c, rwGrantTypes = rcGrantTypes c, rwScopes = rcScopes c,
                 rwCreatedBy = nullif_empty createdBy, rwAuthMethod = rcAuthMethod c,
                 rwSecretHash = (if blank (rcSecret c) then None else Some (cr_hash cr (rcSecret c))),
                 rwDisabled = False\<rparr>
      in if qClients st1 (rcID c) \<noteq> None then (st1, Some (Errorf ''insert oauth client''))
         else (st1\<lparr>qClients := (qClients st1)(rcID c \<mapsto> row)\<rparr>, None))"

definition sql_GetByID :: "sql_state \<Rightarrow> string \<Rightarrow> (go_error, client_info) result" where
  "sql_GetByID st i =
     (case qClients st i of
        None \<Rightarrow> Inl (Errorf ''oauth client not found'')
      | Some row \<Rightarrow>
          if rwDisabled row then Inl (Errorf ''oauth client is disabled'')
          else let base = \<lparr>ccID = i, ccDomain = redirectURIDomain (rwRedirectURIs row),
                 ccUserID = clamp_some (rwCreatedBy row) [], ccSecret = [], ccSecretHash = [],
                 ccScopes = rwScopes row, ccGrantTypes = rwGrantTypes row\<rparr>
            in if rwAuthMethod row = MethodNone \<or> blank (clamp_some (rwSecretHash row) [])
               then Inr (Confidential base)
               else Inr (Confidential (base\<lparr>ccSecretHash := clamp_some (rwSecretHash row) []\<rparr>)))"

definition sql_create_token :: "crypto \<Rightarrow> (string \<Rightarrow> string) \<Rightarrow> uuid \<Rightarrow> sql_state \<Rightarrow> token
    \<Rightarrow> sql_state \<times> go_error option" where
  "sql_create_token cr key newID st info =
     (let st1 = (if blank (tUserID info) then st else sql_ensureSubject key st (claims_of_sub (tUserID info)))
      in case sql_Create cr newID (qSessions st1) info of
           Inl e \<Rightarrow> (st1, Some e)
         | Inr t \<Rightarrow> (st1\<lparr>qSessions := t\<rparr>, None))"

text \<open>
  The transaction of \<^verbatim>\<open>ConsumeDeviceAuthorizationAndCreateToken\<close>: the row is built first, outside of it;
  without a consumed row, or if the session cannot be written, it rolls back.
\<close>

definition sql_ConsumeDeviceAuthorizationAndCreateToken :: "crypto \<Rightarrow> (string \<Rightarrow> string) \<Rightarrow> uuid
    \<Rightarrow> sql_state \<Rightarrow> uuid \<Rightarrow> time \<Rightarrow> token \<Rightarrow> sql_state \<times> (go_error, bool) result" where
  "sql_ConsumeDeviceAuthorizationAndCreateToken cr key newID st i consumedAt info =
     (let st1 = (if blank (tUserID info) then st else sql_ensureSubject key st (claims_of_sub (tUserID info)))
      in case buildUpsertOAuthSessionParams cr newID info of
           Inl e \<Rightarrow> (st1, Inl e)
         | Inr (row, _) \<Rightarrow>
             (case q_ConsumeDeviceAuthorization (qDevices st1) i consumedAt consumedAt of
                (devices, rows) \<Rightarrow>
                  if rows = 0 then (st1, Inr False)
                  else case q_UpsertOAuthSession (qSessions st1) row of
                      Inl e \<Rightarrow> (st1, Inl e)
                    | Inr sessions \<Rightarrow> (st1\<lparr>qDevices := devices, qSessions := sessions\<rparr>, Inr True)))"

definition normalizeAudit :: "audit_event \<Rightarrow> audit_event option" where
  "normalizeAudit e =
     (if blank (aeType e) then None
      else Some \<lparr>aeActor = trim_space (aeActor e), aeService = trim_space (aeService e),
        aeType = trim_space (aeType e),
        aeStatus = (if blank (aeStatus e) then ''unknown'' else trim_space (aeStatus e))\<rparr>)"

definition sql_RecordAuditEvent :: "sql_state \<Rightarrow> audit_event \<Rightarrow> sql_state" where
  "sql_RecordAuditEvent st e =
     (case normalizeAudit e of None \<Rightarrow> st | Some a \<Rightarrow> st\<lparr>qAudit := qAudit st @ [a]\<rparr>)"

definition sql_approve_device :: "(string \<Rightarrow> string) \<Rightarrow> sql_state \<Rightarrow> uuid \<Rightarrow> string \<Rightarrow> time
    \<Rightarrow> sql_state \<times> (go_error, bool) result" where
  "sql_approve_device key st i sub t =
     (if blank sub then (st, Inl (Errorf ''device authorization approval requires subject''))
      else let st1 = sql_ensureSubject key st (claims_of_sub sub) in
        case sql_Approve (qDevices st1) i sub t of
          (devices, r) \<Rightarrow> (st1\<lparr>qDevices := devices\<rparr>, r))"

text \<open>
  The SQLite store as the handlers see it.  \<^verbatim>\<open>now\<close> and \<^verbatim>\<open>newID\<close> are what the store itself draws
  (\<^verbatim>\<open>time.Now\<close>, \<^verbatim>\<open>ids.New\<close>).
\<close>

definition sql_ops :: "crypto \<Rightarrow> (string \<Rightarrow> string) \<Rightarrow> time \<Rightarrow> uuid \<Rightarrow> sql_state edge_ops" where
  "sql_ops cr key now newID =
     \<lparr>opGetClient = sql_GetByID,
      opCreateDevice = (\<lambda>st d. case sql_CreateDeviceAuthorization now (qDevices st) d of
          Inl e \<Rightarrow> (st, Some e) | Inr t \<Rightarrow> (st\<lparr>qDevices := t\<rparr>, None)),
      opDeviceByCode = (\<lambda>st code.
          Inr (q_GetDeviceAuthorizationByDeviceCodeHash (qDevices st) (cr_hash cr code))),
      opDeviceByUser = (\<lambda>st code.
          Inr (q_GetDeviceAuthorizationByUserCodeHash (qDevices st) (cr_hash cr (normalizeUserCode code)))),
      opApprove = sql_approve_device key,
      opDeny = (\<lambda>st i t. case sql_Deny (qDevices st) i t of (devices, b) \<Rightarrow> (st\<lparr>qDevices := devices\<rparr>, Inr b)),
      opConsumeCreate = sql_ConsumeDeviceAuthorizationAndCreateToken cr key newID,
      opPoll = (\<lambda>st i t. st\<lparr>qDevices := fst (sql_UpdatePoll (qDevices st) i t)\<rparr>),
      opSlowDown = (\<lambda>st i t inc. st\<lparr>qDevices := fst (sql_SlowDown (qDevices st) i t inc)\<rparr>),
      opMarkExpired = (\<lambda>st t. st\<lparr>qDevices := fst (q_MarkExpiredDeviceAuthorizations (qDevices st) t)\<rparr>),
      opUpsertSubject = (\<lambda>st c. (sql_ensureSubject key st c, None)),
      opCreateClient = sql_CreateClient cr key,
      opCreateToken = sql_create_token cr key newID,
      opDeleteOperator = (\<lambda>st i c. case sql_DeleteOperatorOAuthSessionByID (qSessions st) i c of
          (t, b) \<Rightarrow> (st\<lparr>qSessions := t\<rparr>, Inr b)),
      opAudit = sql_RecordAuditEvent\<rparr>"

section \<open>In memory\<close>

text \<open>The library's token store: its state and the operations the code calls.\<close>

record 'ts token_store =
  tsCreate :: "'ts \<Rightarrow> token \<Rightarrow> (go_error, 'ts) result"
  tsRemoveByCode :: "'ts \<Rightarrow> string \<Rightarrow> 'ts"
  tsRemoveByAccess :: "'ts \<Rightarrow> string \<Rightarrow> 'ts"
  tsRemoveByRefresh :: "'ts \<Rightarrow> string \<Rightarrow> 'ts"

record oauth_session_tokens =
  osClientID :: string
  osIssuedVia :: string
  osAccess :: string
  osRefresh :: string
  osCode :: string

record 'ts mem_state =
  mDevices :: device_maps
  mSessions :: "(string \<times> oauth_session_tokens) list"
  mTokens :: 'ts
  mSubjects :: subject_map

definition mem_Create :: "'ts token_store \<Rightarrow> uuid \<Rightarrow> 'ts mem_state \<Rightarrow> token
    \<Rightarrow> 'ts mem_state \<times> token \<times> go_error option" where
  "mem_Create ts newID st info =
     (let sid0 = tokenInfoSessionID info;
          sid = (if sid0 = [] then encodeCanonical newID else sid0);
          info1 = (if sid0 = [] then setTokenInfoSessionID info sid else info);
          info2 = (if tokenInfoIssuedVia info1 = [] then setTokenInfoIssuedVia info1 ''oauth'' else info1);
          st1 = st\<lparr>mSessions := put sid \<lparr>osClientID = tClientID info2, osIssuedVia = tokenInfoIssuedVia info2,
             osAccess = tAccess info2, osRefresh = tRefresh info2, osCode = tCode info2\<rparr> (mSessions st)\<rparr>
      in case tsCreate ts (mTokens st1) info2 of
           Inl e \<Rightarrow> (st1, info2, Some e)
         | Inr t \<Rightarrow> (st1\<lparr>mTokens := t\<rparr>, info2, None))"

text \<open>
  \<^verbatim>\<open>removeOAuthSessionByToken\<close> deletes the first entry its loop meets; the order of a Go map is open and
  the model takes the order of the list.
\<close>

fun remove_first :: "('a \<Rightarrow> bool) \<Rightarrow> 'a list \<Rightarrow> 'a list" where
  "remove_first P [] = []"
| "remove_first P (x # xs) = (if P x then xs else x # remove_first P xs)"

definition removeOAuthSessionByToken ::
  "(oauth_session_tokens \<Rightarrow> string) \<Rightarrow> 'ts mem_state \<Rightarrow> string \<Rightarrow> 'ts mem_state" where
  "removeOAuthSessionByToken sel st tok =
     (if blank tok then st
      else st\<lparr>mSessions := remove_first (\<lambda>(_, t). sel t = tok) (mSessions st)\<rparr>)"

definition mem_RemoveByAccess :: "'ts token_store \<Rightarrow> 'ts mem_state \<Rightarrow> string \<Rightarrow> 'ts mem_state" where
  "mem_RemoveByAccess ts st a =
     (let st1 = removeOAuthSessionByToken osAccess st a in st1\<lparr>mTokens := tsRemoveByAccess ts (mTokens st1) a\<rparr>)"

definition mem_RemoveByRefresh :: "'ts token_store \<Rightarrow> 'ts mem_state \<Rightarrow> string \<Rightarrow> 'ts mem_state" where
  "mem_RemoveByRefresh ts st a =
     (let st1 = removeOAuthSessionByToken osRefresh st a in st1\<lparr>mTokens := tsRemoveByRefresh ts (mTokens st1) a\<rparr>)"

definition mem_RemoveByCode :: "'ts token_store \<Rightarrow> 'ts mem_state \<Rightarrow> string \<Rightarrow> 'ts mem_state" where
  "mem_RemoveByCode ts st a =
     (let st1 = removeOAuthSessionByToken osCode st a in st1\<lparr>mTokens := tsRemoveByCode ts (mTokens st1) a\<rparr>)"

definition mem_ConsumeDeviceAuthorizationAndCreateToken :: "'ts token_store \<Rightarrow> uuid \<Rightarrow> 'ts mem_state
    \<Rightarrow> uuid \<Rightarrow> time \<Rightarrow> token \<Rightarrow> 'ts mem_state \<times> (go_error, bool) result" where
  "mem_ConsumeDeviceAuthorizationAndCreateToken ts newID st i consumedAt info =
     (case mem_Create ts newID st info of
        (st1, info1, Some e) \<Rightarrow> (st1, Inl e)
      | (st1, info1, None) \<Rightarrow>
          (case mem_Consume (mDevices st1) i consumedAt of
             (devices, True) \<Rightarrow> (st1\<lparr>mDevices := devices\<rparr>, Inr True)
           | (devices, False) \<Rightarrow>
               (mem_RemoveByCode ts (mem_RemoveByRefresh ts
                  (mem_RemoveByAccess ts (st1\<lparr>mDevices := devices\<rparr>) (tAccess info1)) (tRefresh info1)) (tCode info1),
                Inr False)))"

definition mem_DeleteOperatorOAuthSessionByID :: "'ts token_store \<Rightarrow> 'ts mem_state \<Rightarrow> uuid \<Rightarrow> string
    \<Rightarrow> 'ts mem_state \<times> bool" where
  "mem_DeleteOperatorOAuthSessionByID ts st i clientID =
     (let key = encodeCanonical i in
      case map_of (mSessions st) key of
        None \<Rightarrow> (st, False)
      | Some toks \<Rightarrow>
          if osIssuedVia toks \<noteq> ''operator'' \<or> osClientID toks \<noteq> clientID then (st, False)
          else let s0 = mTokens st;
                   s1 = (if osAccess toks = [] then s0 else tsRemoveByAccess ts s0 (osAccess toks));
                   s2 = (if osRefresh toks = [] then s1 else tsRemoveByRefresh ts s1 (osRefresh toks));
                   s3 = (if osCode toks = [] then s2 else tsRemoveByCode ts s2 (osCode toks))
            in (st\<lparr>mSessions := filter (\<lambda>(k, _). k \<noteq> key) (mSessions st), mTokens := s3\<rparr>, True))"

section \<open>Device codes are used once\<close>

text \<open>What the wrapper operations do to the device table.\<close>

lemma ensureSubject_devices [simp]:
  "qDevices (sql_ensureSubject key st c) = qDevices st" "qSessions (sql_ensureSubject key st c) = qSessions st"
  "qClients (sql_ensureSubject key st c) = qClients st"
  by (simp_all add: sql_ensureSubject_def Let_def)

lemma audit_devices [simp]:
  "qDevices (sql_RecordAuditEvent st e) = qDevices st" "qSessions (sql_RecordAuditEvent st e) = qSessions st"
  by (simp_all add: sql_RecordAuditEvent_def split: option.split)

lemma sql_consume_create_True:
  assumes "sql_ConsumeDeviceAuthorizationAndCreateToken cr key newID st i now info = (st', Inr True)"
  shows "qDevices st' = fst (sql_Consume (qDevices st) i now) \<and> snd (sql_Consume (qDevices st) i now)"
  using assms
  by (auto simp: sql_ConsumeDeviceAuthorizationAndCreateToken_def sql_Consume_def Let_def
      split: sum.splits prod.splits if_splits)

lemma sql_consume_create_other:
  assumes "sql_ConsumeDeviceAuthorizationAndCreateToken cr key newID st i now info = (st', r)" "r \<noteq> Inr True"
  shows "qDevices st' = qDevices st \<and> qSessions st' = qSessions st"
  using assms
  by (auto simp: sql_ConsumeDeviceAuthorizationAndCreateToken_def Let_def
      split: sum.splits prod.splits if_splits)

text \<open>The status of the record of a code, through the operations of the store.\<close>

definition code_closed :: "device_table \<Rightarrow> string \<Rightarrow> bool" where
  "code_closed t h = list_all (\<lambda>d. dDeviceCodeHash d = h \<longrightarrow> terminal (dStatus d)) t"

lemma code_closed_update:
  assumes "code_closed t h"
    "\<And>d d'. upd d = Some d' \<Longrightarrow> dDeviceCodeHash d' = dDeviceCodeHash d \<and> status_next (dStatus d) (dStatus d')"
  shows "code_closed (fst (sql_update upd t)) h"
  using assms terminal_stays
  by (fastforce simp: code_closed_def sql_update_def list_all_iff split: option.splits)

text \<open>The unique indexes of the table, on the identifier and on the hash of the device code.\<close>

definition device_keys :: "device_table \<Rightarrow> bool" where
  "device_keys t = (distinct (map dID t) \<and> distinct (map dDeviceCodeHash t))"

lemma distinct_map_eq: "distinct (map f xs) \<Longrightarrow> x \<in> set xs \<Longrightarrow> y \<in> set xs \<Longrightarrow> f x = f y \<Longrightarrow> x = y"
  by (auto simp: distinct_map inj_on_def)

lemma code_closed_consumed:
  assumes "snd (sql_Consume t i now)" "distinct (map dID t)"
    "\<And>x. x \<in> set t \<Longrightarrow> dDeviceCodeHash x = h \<Longrightarrow> dID x = i"
  shows "code_closed (fst (sql_Consume t i now)) h"
proof -
  from assms(1) obtain x where x: "x \<in> set t" "dID x = i" "dStatus x = StatusApproved"
    "dSubjectSub x \<noteq> None" "now < dExpiresAt x"
    by (auto simp: sql_Consume_def q_ConsumeDeviceAuthorization_def sql_update_def Let_def filter_empty_conv
        split: if_splits)
  have same: "y = x" if "y \<in> set t" "dID y = i" for y
    using distinct_map_eq[OF assms(2) that(1) x(1)] that(2) x(2) by simp
  have "terminal (dStatus z)" if z: "z \<in> set (fst (sql_Consume t i now))" "dDeviceCodeHash z = h" for z
  proof -
    obtain y where y: "y \<in> set t" "z = (if dID y = i \<and> dStatus y = StatusApproved \<and> dSubjectSub y \<noteq> None
        \<and> now < dExpiresAt y then y\<lparr>dStatus := StatusConsumed, dConsumedAt := Some now, dUpdatedAt := now\<rparr> else y)"
      using z(1) by (auto simp: sql_Consume_def q_ConsumeDeviceAuthorization_def sql_update_def Let_def
          split: if_splits)
    then have "dDeviceCodeHash y = h" using z(2) by (simp split: if_splits)
    then have "y = x" using assms(3) same y(1) by blast
    then show ?thesis using y(2) x by (simp add: terminal_def)
  qed
  then show ?thesis by (simp add: code_closed_def list_all_iff)
qed

lemma poll_rows:
  "fst (sql_UpdatePoll t i now) = map (\<lambda>r. if dID r = i
     then r\<lparr>dLastPollAt := Some now, dPollCount := dPollCount r + 1, dUpdatedAt := now\<rparr> else r) t"
  by (auto simp: sql_UpdatePoll_def q_UpdateDeviceAuthorizationPoll_def sql_update_def Let_def)

lemma code_closed_exec:
  assumes "code_closed t h"
  shows "code_closed (exec_op sql_run q_MarkExpiredDeviceAuthorizations q_PruneExpiredDeviceAuthorizations t op) h"
proof (cases op)
  case (OpRun i ev)
  note defs = q_ApproveDeviceAuthorization_def q_DenyDeviceAuthorization_def q_ConsumeDeviceAuthorization_def
    q_UpdateDeviceAuthorizationPoll_def q_SlowDownDeviceAuthorizationPoll_def
  have "code_closed (fst (sql_run t i ev)) h"
    by (cases ev)
       (auto simp: sql_Approve_def sql_Deny_def sql_Consume_def sql_UpdatePoll_def sql_SlowDown_def Let_def
         case_prod_unfold defs assms status_next.intros intro!: code_closed_update[OF assms]
         split: if_splits)
  then show ?thesis by (simp add: OpRun)
next
  case (OpMark now)
  have "code_closed (fst (q_MarkExpiredDeviceAuthorizations t now)) h"
    unfolding q_MarkExpiredDeviceAuthorizations_def
    by (rule code_closed_update[OF assms]) (auto intro: status_next.intros split: if_splits)
  then show ?thesis by (simp add: OpMark)
next
  case (OpPrune now)
  then show ?thesis using assms
    by (auto simp: code_closed_def q_PruneExpiredDeviceAuthorizations_def list_all_iff)
qed

lemma code_closed_trace:
  "code_closed t h \<Longrightarrow>
   code_closed (foldl (exec_op sql_run q_MarkExpiredDeviceAuthorizations q_PruneExpiredDeviceAuthorizations) t ops) h"
  by (induction ops arbitrary: t) (simp_all add: code_closed_exec)

lemma code_closed_no_token:
  assumes "code_closed (qDevices st) (cr_hash cr (trim_space (form_get r ''device_code'')))"
  shows "handleDeviceToken (sql_ops cr key n newID) o1 draw now st r \<noteq> (st', Answer resp)"
proof
  assume "handleDeviceToken (sql_ops cr key n newID) o1 draw now st r = (st', Answer resp)"
  from handleDeviceToken_answer[OF this] obtain d where d:
    "q_GetDeviceAuthorizationByDeviceCodeHash (qDevices st)
       (cr_hash cr (trim_space (form_get r ''device_code''))) = Some d" "dStatus d = StatusApproved"
    by (auto simp: sql_ops_def)
  then have "terminal (dStatus d)"
    using assms by (auto simp: q_GetDeviceAuthorizationByDeviceCodeHash_def code_closed_def list_all_iff
        dest: find_first)
  then show False using d(2) by (simp add: terminal_def)
qed

lemma code_closed_by_token:
  assumes "handleDeviceToken (sql_ops cr key n newID) o1 draw now st r = (st', Answer resp)"
    "device_keys (qDevices st)"
  shows "code_closed (qDevices st') (cr_hash cr (trim_space (form_get r ''device_code'')))"
proof -
  let ?h = "cr_hash cr (trim_space (form_get r ''device_code''))"
  let ?ops = "sql_ops cr key n newID"
  from handleDeviceToken_answer[OF assms(1)] obtain clientID client d where d:
    "q_GetDeviceAuthorizationByDeviceCodeHash (qDevices st) ?h = Some d"
    and i: "issue_device_token ?ops o1 draw now (opPoll ?ops st (dID d) now) clientID client d = (st', Answer resp)"
    by (auto simp: sql_ops_def)
  from issue_device_token_answer[OF i] obtain sub access refresh st2 where c:
    "sql_ConsumeDeviceAuthorizationAndCreateToken cr key newID (opPoll ?ops st (dID d) now) (dID d) now
       (device_token o1 clientID sub d now access refresh) = (st2, Inr True)"
    "qDevices st' = qDevices st2"
    by (auto simp: sql_ops_def)
  have dt: "d \<in> set (qDevices st)" "dDeviceCodeHash d = ?h"
    using d by (auto simp: q_GetDeviceAuthorizationByDeviceCodeHash_def dest: find_first)
  let ?t = "fst (sql_UpdatePoll (qDevices st) (dID d) now)"
  have t: "qDevices (opPoll ?ops st (dID d) now) = ?t" by (simp add: sql_ops_def)
  have "distinct (map dID ?t)"
    using assms(2) by (simp add: poll_rows device_keys_def comp_def if_distrib cong: if_cong)
  moreover have "dID x = dID d" if "x \<in> set ?t" "dDeviceCodeHash x = ?h" for x
  proof -
    obtain y where y: "y \<in> set (qDevices st)" "dID x = dID y" "dDeviceCodeHash y = ?h"
      using \<open>x \<in> set ?t\<close> \<open>dDeviceCodeHash x = ?h\<close> by (auto simp: poll_rows split: if_splits)
    then show ?thesis
      using distinct_map_eq[of dDeviceCodeHash "qDevices st" y d] assms(2) dt by (simp add: device_keys_def)
  qed
  ultimately have "code_closed (fst (sql_Consume ?t (dID d) now)) ?h"
    using sql_consume_create_True[OF c(1)] t by (intro code_closed_consumed) auto
  then show ?thesis using sql_consume_create_True[OF c(1)] c(2) t by simp
qed

end
