(* ===== verification/OAuthTokens.thy ===== *)
theory OAuthTokens
  imports EdgeStores
begin

text \<open>
  The other endpoints of \<^verbatim>\<open>internal/edge/oauth.go\<close>: client registration, the authorize endpoint, the token
  endpoint in front of the OAuth library, introspection, and the tokens an operator mints and
  revokes.  The library's own request handling is the record \<^verbatim>\<open>oauth_lib\<close>; what the gateway checks
  before it calls the library is modelled in full.
\<close>

section \<open>The operator's bearer token\<close>

definition parseBearerAuthorization :: "string \<Rightarrow> string option" where
  "parseBearerAuthorization headerValue =
     (let h = trim_space headerValue in
      if h = [] then None
      else let parts = go_fields h in
        if length parts \<noteq> 2 \<or> \<not> equal_fold (parts ! 0) ''Bearer'' \<or> blank (parts ! 1) then None
        else Some (parts ! 1))"

text \<open>\<^verbatim>\<open>None\<close>: the request may go on; otherwise the error that was written.\<close>

definition requireOperatorToken :: "'s oauth_service \<Rightarrow> http_request \<Rightarrow> (nat \<times> string) option" where
  "requireOperatorToken o1 r =
     (case parseBearerAuthorization (authHeader r) of
        None \<Rightarrow> Some (401, ''operator_auth_required'')
      | Some provided \<Rightarrow>
          if provided \<noteq> oaOperatorToken o1 then Some (401, ''operator_auth_invalid'') else None)"

lemma requireOperatorToken_None:
  "requireOperatorToken o1 r = None \<longleftrightarrow> parseBearerAuthorization (authHeader r) = Some (oaOperatorToken o1)"
  by (auto simp: requireOperatorToken_def split: option.splits)

section \<open>Registration\<close>

record registration_response =
  rsClientID :: string
  rsClientSecret :: string
  rsIssuedAt :: int
  rsName :: string
  rsRedirectURIs :: "string list"
  rsGrantTypes :: "string list"
  rsResponseTypes :: "string list"
  rsAuthMethod :: auth_method
  rsScope :: string

record registration_draw =
  rdID :: uuid
  rdSecret :: "string option"
  rdNow :: time

definition time_unix :: "time \<Rightarrow> int" where
  "time_unix t = t div second"

definition registration_answer :: "registered_client \<Rightarrow> registration_response" where
  "registration_answer c =
     \<lparr>rsClientID = rcID c, rsClientSecret = rcSecret c, rsIssuedAt = time_unix (rcCreatedAt c),
      rsName = rcName c, rsRedirectURIs = rcRedirectURIs c, rsGrantTypes = rcGrantTypes c,
      rsResponseTypes = rcResponseTypes c, rsAuthMethod = rcAuthMethod c,
      rsScope = join '' '' (rcScopes c)\<rparr>"

text \<open>The parts of the handler: who may register, with which scopes, and with which secret.\<close>

definition registration_gate :: "'s oauth_service \<Rightarrow> http_request \<Rightarrow> bool \<Rightarrow> (nat \<times> string) option" where
  "registration_gate o1 r serviceScoped =
     (if \<not> serviceScoped \<or> \<not> oaDCREnabled o1 then requireOperatorToken o1 r else None)"

definition registration_scopes :: "'s oauth_service \<Rightarrow> bool \<Rightarrow> string \<Rightarrow> registration_request
    \<Rightarrow> (go_error, registration_request \<times> string list) result" where
  "registration_scopes o1 serviceScoped serviceID req =
     (if serviceScoped
      then bind_result (scopeForServiceContext o1 (rrScope req) serviceID) (\<lambda>sc.
             Inr (req\<lparr>rrScope := sc\<rparr>, [sc]))
      else Inr (req, directory_Scopes (oaDirectory o1)))"

definition registration_secret :: "registration_draw \<Rightarrow> registered_client \<Rightarrow> string option" where
  "registration_secret draw c = (if rcAuthMethod c \<noteq> MethodNone then rdSecret draw else Some [])"

definition handleClientRegistration ::
  "'s edge_ops \<Rightarrow> 's oauth_service \<Rightarrow> net_lib \<Rightarrow> registration_draw \<Rightarrow> 's \<Rightarrow> authenticated_subject option
    \<Rightarrow> http_request \<Rightarrow> registration_request option \<Rightarrow> 's \<times> registration_response response" where
  "handleClientRegistration ops o1 net draw st subject r body =
     (if rqMethod r \<noteq> POST then (st, JsonError 405 ''method_not_allowed'')
      else case serviceIDFromPath o1 (rqPath r) ''/oauth/register'' of
        (_, Inl e) \<Rightarrow> (st, JsonError 404 ''service_not_found'')
      | (serviceScoped, Inr serviceID) \<Rightarrow>
        (case registration_gate o1 r serviceScoped of
          Some (n, e) \<Rightarrow> (st, JsonError n e)
        | None \<Rightarrow>
          (case body of
            None \<Rightarrow> (st, JsonError 400 ''invalid_json'')
          | Some req \<Rightarrow>
            (case registration_scopes o1 serviceScoped serviceID req of
              Inl e \<Rightarrow> (st, JsonError 400 ''invalid_client_metadata'')
            | Inr (req1, allowedScopes) \<Rightarrow>
              (case normalizeClientRegistration net req1 allowedScopes of
                Inl e \<Rightarrow> (st, JsonError 400 ''invalid_client_metadata'')
              | Inr record0 \<Rightarrow>
                (case registration_secret draw record0 of
                  None \<Rightarrow> (st, JsonError 500 ''secret_generation_failed'')
                | Some secret \<Rightarrow>
                  let rec = record0\<lparr>rcID := encodeCanonical (rdID draw), rcSecret := secret,
                              rcCreatedAt := rdNow draw\<rparr>;
                      createdBy = (case subject of Some s \<Rightarrow> sSub s | None \<Rightarrow> [])
                  in (case opCreateClient ops st rec createdBy of
                    (st', Some e) \<Rightarrow> (st', JsonError 500 ''client_store_failed'')
                  | (st', None) \<Rightarrow>
                      (opAudit ops st' \<lparr>aeActor = createdBy, aeService = [],
                         aeType = ''oauth.client.registered'', aeStatus = ''created''\<rparr>,
                       Answer (registration_answer rec)))))))))"

text \<open>What an answered registration has stored.\<close>

definition registration_authorized :: "'s oauth_service \<Rightarrow> http_request \<Rightarrow> string list \<Rightarrow> bool" where
  "registration_authorized o1 r scs =
     (parseBearerAuthorization (authHeader r) = Some (oaOperatorToken o1)
      \<or> oaDCREnabled o1
        \<and> (\<exists>sid. serviceIDFromPath o1 (rqPath r) ''/oauth/register'' = (True, Inr sid)
             \<and> set scs \<subseteq> {mcp_prefix @ sid}))"

lemma scopeForServiceContext_result:
  "scopeForServiceContext o1 sc sid = Inr s \<Longrightarrow> s = mcp_prefix @ sid"
  by (auto simp: scopeForServiceContext_def Let_def split: if_splits)

lemma handleClientRegistration_answer:
  assumes "handleClientRegistration ops o1 net draw st subject r body = (st', Answer resp)"
  shows "\<exists>c createdBy st1. opCreateClient ops st c createdBy = (st1, None)
    \<and> (\<exists>allowed. registration_ok net allowed c)
    \<and> registration_authorized o1 r (rcScopes c) \<and> resp = registration_answer c
    \<and> (rcAuthMethod c = MethodNone \<longrightarrow> rcSecret c = [])"
proof -
  note step = handleClientRegistration_def
  obtain scoped sid where p: "serviceIDFromPath o1 (rqPath r) ''/oauth/register'' = (scoped, Inr sid)"
    using assms by (auto simp: step split: if_splits prod.splits sum.splits)
  have op: "registration_gate o1 r scoped = None"
    using assms p by (auto simp: step split: if_splits option.splits)
  obtain req where b: "body = Some req"
    using assms p op by (cases body) (simp_all add: step split: if_splits)
  obtain req1 allowed where s: "registration_scopes o1 scoped sid req = Inr (req1, allowed)"
    using assms p op b by (auto simp: step split: if_splits sum.splits)
  obtain c0 where c0: "normalizeClientRegistration net req1 allowed = Inr c0"
    using assms p op b s by (auto simp: step split: if_splits sum.splits)
  obtain secret where sec: "registration_secret draw c0 = Some secret"
    using assms p op b s c0 by (cases "registration_secret draw c0") (simp_all add: step split: if_splits)
  define c where "c = c0\<lparr>rcID := encodeCanonical (rdID draw), rcSecret := secret, rcCreatedAt := rdNow draw\<rparr>"
  have ok: "registration_ok net allowed c"
    using normalizeClientRegistration_ok[OF c0]
    by (simp add: registration_ok_def uses_code_def c_def)
  have "\<exists>createdBy st1. opCreateClient ops st c createdBy = (st1, None) \<and> resp = registration_answer c"
    using assms p op b s c0 sec
    by (simp add: step Let_def c_def[symmetric] split: if_splits option.splits prod.splits) auto
  moreover have "registration_authorized o1 r (rcScopes c)"
  proof (cases "\<not> scoped \<or> \<not> oaDCREnabled o1")
    case True
    then show ?thesis using op
      by (simp add: registration_authorized_def registration_gate_def requireOperatorToken_None)
  next
    case False
    then have "allowed = [mcp_prefix @ sid]"
      using s scopeForServiceContext_result by (auto simp: registration_scopes_def result_simps split: sum.splits)
    then show ?thesis using False ok p by (simp add: registration_authorized_def registration_ok_def)
  qed
  moreover have "rcAuthMethod c = MethodNone \<longrightarrow> rcSecret c = []"
    using sec by (auto simp: c_def registration_secret_def)
  ultimately show ?thesis using ok by blast
qed

section \<open>Tokens an operator mints\<close>

text \<open>
  \<^verbatim>\<open>time.Duration(n) * time.Second\<close> on 64 bits: the product wraps, with no check before it.
\<close>

definition duration_of_seconds :: "int \<Rightarrow> duration" where
  "duration_of_seconds n = sint (word_of_int n * word_of_int second :: 64 word)"

definition operatorTokenMaxTTL :: duration where
  "operatorTokenMaxTTL = 30 * 24 * hour"

definition operatorTokenReasonMaxLen :: nat where
  "operatorTokenReasonMaxLen = 1024"

definition operatorTokenMintClientID :: string where
  "operatorTokenMintClientID = ''mcp-edge-operator-token-mint''"

text \<open>The lifetime of the token, undefined where the request is refused.\<close>

definition operator_ttl :: "int \<Rightarrow> duration option" where
  "operator_ttl seconds =
     (let d = duration_of_seconds seconds;
          e = (if d \<le> 0 then hour else d)
      in if e > operatorTokenMaxTTL then None else Some e)"

record operator_token_request =
  otSubjectSub :: string
  otScope :: string
  otResource :: string
  otExpiresInSeconds :: int
  otReason :: string

record operator_token_response =
  opAccessToken :: string
  opExpiresIn :: int
  opScope :: string
  opResource :: string
  opSessionID :: string

record operator_draw =
  odAccess :: "string option"
  odSession :: uuid
  odNow :: time

definition operator_client :: "'s oauth_service \<Rightarrow> time \<Rightarrow> registered_client" where
  "operator_client o1 now =
     \<lparr>rcID = operatorTokenMintClientID, rcSecret = [], rcName = ''MCP Edge Operator Token Mint'',
      rcRedirectURIs = [], rcGrantTypes = [''operator''], rcResponseTypes = [],
      rcAuthMethod = MethodNone, rcScopes = directory_Scopes (oaDirectory o1), rcCreatedAt = now\<rparr>"

definition ensureOperatorTokenClient ::
  "'s edge_ops \<Rightarrow> 's oauth_service \<Rightarrow> time \<Rightarrow> 's \<Rightarrow> 's \<times> go_error option" where
  "ensureOperatorTokenClient ops o1 now st =
     (case opGetClient ops st operatorTokenMintClientID of
        Inr _ \<Rightarrow> (st, None)
      | Inl _ \<Rightarrow> opCreateClient ops st (operator_client o1 now) ''operator'')"

text \<open>The checks on the body, in the code's order; the values the token is built from.\<close>

definition operator_request_checks ::
  "'s oauth_service \<Rightarrow> operator_token_request \<Rightarrow> (nat \<times> string, string \<times> string \<times> service_resolution) result" where
  "operator_request_checks o1 req =
     (let subjectSub = trim_space (otSubjectSub req); scope = trim_space (otScope req) in
      if subjectSub = [] then Inl (400, ''invalid_subject'')
      else if scope = [] \<or> \<not> scopeStringAllowed scope (directory_Scopes (oaDirectory o1))
      then Inl (400, ''invalid_scope'')
      else case ResolveScope (oaDirectory o1) scope of
        Inl e \<Rightarrow> Inl (400, ''invalid_scope'')
      | Inr resolution \<Rightarrow>
          let resource = (if clean_resource (otResource req) = [] then rResource resolution
                          else clean_resource (otResource req)) in
          if resource \<noteq> rResource resolution then Inl (400, ''invalid_resource'')
          else if length (trim_space (otReason req)) > operatorTokenReasonMaxLen
          then Inl (400, ''invalid_request'')
          else Inr (subjectSub, scope, resolution))"

definition grants_answer :: "'s oauth_service \<Rightarrow> 's \<Rightarrow> string \<Rightarrow> string \<Rightarrow> (go_error, bool) result" where
  "grants_answer o1 st sub scope =
     (case oaGrants o1 of None \<Rightarrow> Inr True | Some g \<Rightarrow> g st sub scope)"

definition operator_token ::
  "string \<Rightarrow> string \<Rightarrow> string \<Rightarrow> string \<Rightarrow> uuid \<Rightarrow> time \<Rightarrow> duration \<Rightarrow> string \<Rightarrow> token" where
  "operator_token sub scope resource access sid now ttl reason =
     setTokenInfoOperatorReason (setTokenInfoIssuedVia (setTokenInfoResource (setTokenInfoSessionID
       (new_token\<lparr>tClientID := operatorTokenMintClientID, tUserID := sub, tScope := scope,
          tAccess := access, tAccessCreateAt := now, tAccessExpiresIn := ttl\<rparr>)
       (encodeCanonical sid)) resource) ''operator'') reason"

definition mint_operator_token ::
  "'s edge_ops \<Rightarrow> operator_draw \<Rightarrow> 's \<Rightarrow> string \<Rightarrow> string \<Rightarrow> service_resolution \<Rightarrow> duration \<Rightarrow> string
    \<Rightarrow> 's \<times> operator_token_response response" where
  "mint_operator_token ops draw st sub scope resolution ttl reason =
     (case odAccess draw of
        None \<Rightarrow> (st, JsonError 500 ''token_generation_failed'')
      | Some access \<Rightarrow>
          (case opCreateToken ops st (operator_token sub scope (rResource resolution) access
                  (odSession draw) (odNow draw) ttl reason) of
             (st', Some e) \<Rightarrow> (st', JsonError 500 ''token_store_failed'')
           | (st', None) \<Rightarrow>
               (opAudit ops st' \<lparr>aeActor = sub, aeService = rServiceID resolution,
                  aeType = ''oauth.operator_token.issued'', aeStatus = ''issued''\<rparr>,
                Answer \<lparr>opAccessToken = access, opExpiresIn = ttl div second, opScope = scope,
                  opResource = rResource resolution, opSessionID = encodeCanonical (odSession draw)\<rparr>)))"

definition handleOperatorTokens ::
  "'s edge_ops \<Rightarrow> 's oauth_service \<Rightarrow> operator_draw \<Rightarrow> 's \<Rightarrow> http_request \<Rightarrow> operator_token_request option
    \<Rightarrow> 's \<times> operator_token_response response" where
  "handleOperatorTokens ops o1 draw st r body =
     (if rqMethod r \<noteq> POST then (st, JsonError 405 ''method_not_allowed'')
      else case requireOperatorToken o1 r of
        Some (n, e) \<Rightarrow> (st, JsonError n e)
      | None \<Rightarrow>
        (case body of
          None \<Rightarrow> (st, JsonError 400 ''invalid_request'')
        | Some req \<Rightarrow>
          (case operator_request_checks o1 req of
            Inl (n, e) \<Rightarrow> (st, JsonError n e)
          | Inr (sub, scope, resolution) \<Rightarrow>
            (case grants_answer o1 st sub scope of
              Inl e \<Rightarrow> (st, JsonError 503 ''authorization_unavailable'')
            | Inr False \<Rightarrow> (st, JsonError 403 ''service_not_granted'')
            | Inr True \<Rightarrow>
              (case ensureOperatorTokenClient ops o1 (odNow draw) st of
                (st1, Some e) \<Rightarrow> (st1, JsonError 503 ''operator_client_unavailable'')
              | (st1, None) \<Rightarrow>
                (case operator_ttl (otExpiresInSeconds req) of
                  None \<Rightarrow> (st1, JsonError 400 ''invalid_request'')
                | Some ttl \<Rightarrow>
                    mint_operator_token ops draw st1 sub scope resolution ttl (trim_space (otReason req))))))))"

definition handleOperatorToken ::
  "'s edge_ops \<Rightarrow> 's oauth_service \<Rightarrow> 's \<Rightarrow> http_request \<Rightarrow> 's \<times> unit response" where
  "handleOperatorToken ops o1 st r =
     (if rqMethod r \<noteq> DELETE then (st, JsonError 405 ''method_not_allowed'')
      else case requireOperatorToken o1 r of
        Some (n, e) \<Rightarrow> (st, JsonError n e)
      | None \<Rightarrow>
        let raw = trim_prefix (rqPath r) ''/oauth/operator-tokens/'' in
        if contains_char raw slash \<or> blank raw then (st, JsonError 400 ''invalid_request'')
        else (case Parse raw of
          Inl e \<Rightarrow> (st, JsonError 400 ''invalid_session_id'')
        | Inr sid \<Rightarrow>
          (case opDeleteOperator ops st sid operatorTokenMintClientID of
            (st', Inl e) \<Rightarrow> (st', JsonError 500 ''token_revoke_failed'')
          | (st', Inr False) \<Rightarrow> (st', JsonError 404 ''token_not_found'')
          | (st', Inr True) \<Rightarrow>
              (opAudit ops st' \<lparr>aeActor = [], aeService = [],
                 aeType = ''oauth.operator_token.revoked'', aeStatus = ''revoked''\<rparr>, Answer ()))))"

text \<open>Lifetimes.\<close>

lemma duration_of_seconds_exact:
  assumes "- (2 ^ 63) \<le> n * second" "n * second < 2 ^ 63"
  shows "duration_of_seconds n = n * second"
proof -
  have "duration_of_seconds n = sint (word_of_int (n * second) :: 64 word)"
    by (simp only: duration_of_seconds_def wi_hom_mult)
  also have "\<dots> = signed_take_bit 63 (n * second)"
    by (subst sint_sbintrunc') simp
  also have "\<dots> = n * second"
    using assms by (intro signed_take_bit_int_eq_self) auto
  finally show ?thesis .
qed

lemma operator_ttl_bounds: "operator_ttl n = Some d \<Longrightarrow> 0 < d \<and> d \<le> operatorTokenMaxTTL"
  by (auto simp: operator_ttl_def operatorTokenMaxTTL_def Let_def split: if_splits)


lemma operator_ttl_exact:
  assumes "0 < n" "n * second < 2 ^ 63"
  shows "operator_ttl n = (if n * second \<le> operatorTokenMaxTTL then Some (n * second) else None)"
  using duration_of_seconds_exact[of n] assms by (simp add: operator_ttl_def)

text \<open>A request for more than a billion years wraps to zero and is answered with an hour.\<close>

lemma operator_ttl_wraps: "operator_ttl (2 ^ 55) = Some hour" "operator_ttl (2 ^ 55 + 60) = Some minute"
  by (simp_all add: operator_ttl_def duration_of_seconds_def operatorTokenMaxTTL_def)

text \<open>What a minted token is.\<close>

lemma operator_token_fields [simp]:
  "tClientID (operator_token sub sc res access sid now ttl reason) = operatorTokenMintClientID"
  "tUserID (operator_token sub sc res access sid now ttl reason) = sub"
  "tScope (operator_token sub sc res access sid now ttl reason) = sc"
  "tAccess (operator_token sub sc res access sid now ttl reason) = access"
  "tAccessExpiresIn (operator_token sub sc res access sid now ttl reason) = ttl"
  "tRefresh (operator_token sub sc res access sid now ttl reason) = []"
  "tCode (operator_token sub sc res access sid now ttl reason) = []"
  by (simp_all add: operator_token_def setTokenInfoOperatorReason_def setTokenInfoIssuedVia_def
      setTokenInfoResource_def setTokenInfoSessionID_def new_token_def Let_def)

lemma operator_token_issued_via [simp]:
  "tokenInfoIssuedVia (operator_token sub sc res access sid now ttl reason) = ''operator''"
proof -
  have "trim_space ''operator'' = ''operator''" by code_simp
  then show ?thesis
    by (simp add: operator_token_def setTokenInfoOperatorReason_def setTokenInfoIssuedVia_def
        tokenInfoIssuedVia_def Let_def)
qed

lemma operator_request_checks_ok:
  assumes "operator_request_checks o1 req = Inr (sub, sc, res)"
  shows "sub = trim_space (otSubjectSub req) \<and> sub \<noteq> [] \<and> sc = trim_space (otScope req) \<and> sc \<noteq> []
    \<and> scopeStringAllowed sc (directory_Scopes (oaDirectory o1))
    \<and> ResolveScope (oaDirectory o1) sc = Inr res
    \<and> clean_resource (otResource req) \<in> {[], rResource res}"
  using assms by (auto simp: operator_request_checks_def Let_def split: if_splits sum.splits)

lemma mint_operator_token_answer:
  assumes "mint_operator_token ops draw st sub sc res ttl reason = (st', Answer resp)"
  shows "\<exists>st1 access. odAccess draw = Some access
    \<and> opCreateToken ops st (operator_token sub sc (rResource res) access (odSession draw) (odNow draw) ttl reason)
        = (st1, None)
    \<and> opScope resp = sc \<and> opResource resp = rResource res \<and> opExpiresIn resp = ttl div second
    \<and> opAccessToken resp = access \<and> opSessionID resp = encodeCanonical (odSession draw)"
  using assms by (auto simp: mint_operator_token_def split: option.splits prod.splits)

lemma handleOperatorTokens_answer:
  assumes "handleOperatorTokens ops o1 draw st r body = (st', Answer resp)"
  shows "\<exists>req sub sc res ttl st1 st2 access. body = Some req
    \<and> parseBearerAuthorization (authHeader r) = Some (oaOperatorToken o1)
    \<and> operator_request_checks o1 req = Inr (sub, sc, res)
    \<and> granted o1 st sub sc
    \<and> ensureOperatorTokenClient ops o1 (odNow draw) st = (st1, None)
    \<and> operator_ttl (otExpiresInSeconds req) = Some ttl
    \<and> opCreateToken ops st1 (operator_token sub sc (rResource res) access (odSession draw) (odNow draw) ttl
        (trim_space (otReason req))) = (st2, None)
    \<and> opScope resp = sc \<and> opResource resp = rResource res \<and> opExpiresIn resp = ttl div second
    \<and> opAccessToken resp = access"
proof -
  note step = handleOperatorTokens_def
  have op: "requireOperatorToken o1 r = None"
    using assms by (auto simp: step split: if_splits option.splits)
  obtain req where b: "body = Some req"
    using assms op by (cases body) (simp_all add: step split: if_splits)
  obtain sub sc res where c: "operator_request_checks o1 req = Inr (sub, sc, res)"
    using assms op b by (auto simp: step split: if_splits sum.splits)
  have g: "grants_answer o1 st sub sc = Inr True"
    using assms op b c by (auto simp: step split: if_splits sum.splits bool.splits)
  then have gr: "granted o1 st sub sc" by (simp add: granted_def grants_answer_def split: option.splits)
  obtain st1 where e: "ensureOperatorTokenClient ops o1 (odNow draw) st = (st1, None)"
    using assms op b c g by (auto simp: step split: if_splits option.splits prod.splits)
  obtain ttl where t: "operator_ttl (otExpiresInSeconds req) = Some ttl"
    using assms op b c g e
    by (cases "operator_ttl (otExpiresInSeconds req)") (simp_all add: step split: if_splits)
  have "mint_operator_token ops draw st1 sub sc res ttl (trim_space (otReason req)) = (st', Answer resp)"
    using assms op b c g e t by (simp add: step split: if_splits)
  from mint_operator_token_answer[OF this] show ?thesis
    using op b c gr e t requireOperatorToken_None[of o1 r] by auto
qed

text \<open>The client of the minted tokens can use no grant of the token endpoint.\<close>

lemma operator_client_no_grant:
  assumes "opGetClient ops st operatorTokenMintClientID = Inr (Confidential c)"
    "ccGrantTypes c = rcGrantTypes (operator_client o1 now)"
    "g \<in> {grantAuthorizationCode, grantRefreshToken, grantDeviceCode}"
  shows "\<not> clientAllowsGrant (Confidential c) g"
proof -
  have "trim_space g \<noteq> ''operator''"
  proof -
    have "trim_space grantAuthorizationCode = grantAuthorizationCode"
      "trim_space grantRefreshToken = grantRefreshToken" "trim_space grantDeviceCode = grantDeviceCode"
      unfolding grantAuthorizationCode_def grantRefreshToken_def grantDeviceCode_def by code_simp+
    then show ?thesis
      using assms(3) by (auto simp: grantAuthorizationCode_def grantRefreshToken_def grantDeviceCode_def)
  qed
  then show ?thesis using assms(2) by (simp add: clientAllowsGrant_def operator_client_def Let_def)
qed

section \<open>The OAuth library\<close>

text \<open>
  What the gateway calls of the library: the authorize and the token request (with the values the
  gateway put into the context), the lookup of an access token, and the reading of a bearer token.
  The flag of \<^verbatim>\<open>lbAuthorize\<close> and \<^verbatim>\<open>lbToken\<close> says that it returned an error; the number is the status written.
\<close>

record ('s, 'b) oauth_lib =
  lbAuthorize :: "string \<Rightarrow> 's \<Rightarrow> authenticated_subject \<Rightarrow> http_request \<Rightarrow> 's \<times> 'b response \<times> bool"
  lbToken :: "request_context \<Rightarrow> 's \<Rightarrow> http_request \<Rightarrow> 's \<times> nat \<times> 'b response \<times> bool"
  lbLoadAccess :: "'s \<Rightarrow> string \<Rightarrow> (go_error, token) result"
  lbBearer :: "http_request \<Rightarrow> string option"

section \<open>Introspection\<close>

record introspection =
  inSessionID :: string
  inClientID :: string
  inSub :: string
  inScope :: string
  inResource :: string
  inIssuedVia :: string
  inIat :: int
  inExp :: int

datatype introspection_answer = Inactive | Active introspection

definition resolveIntrospectionToken :: "('s, 'b) oauth_lib \<Rightarrow> http_request \<Rightarrow> (go_error, string) result" where
  "resolveIntrospectionToken lib r =
     (if \<not> formOK r then Inl (Errorf ''unable to parse form body'')
      else let tok = trim_space (form_get r ''token'') in
        if tok \<noteq> [] then Inr tok
        else case lbBearer lib r of
            Some t \<Rightarrow> Inr t
          | None \<Rightarrow> Inl (Errorf ''token is required''))"

definition introspection_of :: "token \<Rightarrow> introspection" where
  "introspection_of t =
     \<lparr>inSessionID = tokenInfoSessionID t, inClientID = tClientID t, inSub = tUserID t, inScope = tScope t,
      inResource = tokenInfoResource t, inIssuedVia = tokenInfoIssuedVia t,
      inIat = time_unix (tAccessCreateAt t),
      inExp = time_unix (tAccessCreateAt t + tAccessExpiresIn t)\<rparr>"

definition handleIntrospect ::
  "'s edge_ops \<Rightarrow> 's oauth_service \<Rightarrow> ('s, 'b) oauth_lib \<Rightarrow> 's \<Rightarrow> http_request
    \<Rightarrow> 's \<times> introspection_answer response" where
  "handleIntrospect ops o1 lib st r =
     (if rqMethod r \<noteq> POST then (st, JsonError 405 ''method_not_allowed'')
      else case requireOperatorToken o1 r of
        Some (n, e) \<Rightarrow> (st, JsonError n e)
      | None \<Rightarrow>
        (case resolveIntrospectionToken lib r of
          Inl e \<Rightarrow> (st, JsonError 400 ''invalid_request'')
        | Inr tok \<Rightarrow>
          (case lbLoadAccess lib st tok of
            Inl e \<Rightarrow> (opAudit ops st \<lparr>aeActor = [], aeService = [], aeType = ''oauth.introspect'',
                        aeStatus = ''inactive''\<rparr>, Answer Inactive)
          | Inr t \<Rightarrow> (opAudit ops st \<lparr>aeActor = tUserID t, aeService = [], aeType = ''oauth.introspect'',
                        aeStatus = ''active''\<rparr>, Answer (Active (introspection_of t))))))"

lemma handleIntrospect_answer:
  "handleIntrospect ops o1 lib st r = (st', Answer a) \<Longrightarrow>
   parseBearerAuthorization (authHeader r) = Some (oaOperatorToken o1)
   \<and> (\<forall>x. a = Active x \<longrightarrow> (\<exists>tok t. resolveIntrospectionToken lib r = Inr tok
        \<and> lbLoadAccess lib st tok = Inr t \<and> x = introspection_of t))"
  using requireOperatorToken_None[of o1 r]
  by (auto simp: handleIntrospect_def split: if_splits option.splits sum.splits)

section \<open>The token endpoint\<close>

text \<open>
  A client of the library is read through its interface.  The store never returns a nil client
  without an error; the model gives the nil case an error.
\<close>

definition prevalidateRefreshClient ::
  "'s edge_ops \<Rightarrow> 's oauth_service \<Rightarrow> 's \<Rightarrow> http_request \<Rightarrow> (go_error, string) result" where
  "prevalidateRefreshClient ops o1 st r =
     (if \<not> formOK r then Inl (Errorf ''parse token form'')
      else if form_get r ''grant_type'' \<noteq> grantRefreshToken then Inr []
      else bind_result (resolveClientCredentials o1 r) (\<lambda>(clientID, clientSecret).
        bind_result (opGetClient ops st clientID) (\<lambda>client.
          case client of
            Confidential c \<Rightarrow>
              (if \<not> VerifyPassword (oaHash o1) c clientSecret
               then Inl (Errorf ''refresh client secret is invalid'') else Inr clientID)
          | LibraryClient i s public \<Rightarrow>
              (if s \<noteq> [] \<and> s \<noteq> clientSecret then Inl (Errorf ''refresh client secret is invalid'')
               else if public \<and> \<not> blank clientSecret
               then Inl (Errorf ''public refresh clients must not send a client secret'')
               else Inr clientID)
          | NilClient \<Rightarrow> Inl (Errorf ''nil client''))))"

definition validateClientGrantType ::
  "'s edge_ops \<Rightarrow> 's oauth_service \<Rightarrow> 's \<Rightarrow> http_request \<Rightarrow> string \<Rightarrow> (go_error, unit) result" where
  "validateClientGrantType ops o1 st r prevalidated =
     (if \<not> formOK r then Inl (Errorf ''unable to parse request parameters'')
      else let grantType = trim_space (form_get r ''grant_type'') in
        if grantType \<notin> {grantAuthorizationCode, grantRefreshToken, grantDeviceCode} then Inr ()
        else case (if blank prevalidated then map_sum id fst (resolveClientCredentials o1 r)
                   else Inr (trim_space prevalidated)) of
            Inl e \<Rightarrow> Inl (Errorf ''registered OAuth client is required'')
          | Inr clientID \<Rightarrow>
              (case opGetClient ops st clientID of
                 Inl e \<Rightarrow> Inl (Errorf ''registered OAuth client is required'')
               | Inr client \<Rightarrow> guard (clientAllowsGrant client grantType)
                   (Errorf ''client is not registered for this grant'')))"

text \<open>Everything the handler does before it calls the library: the context and the request it passes on.\<close>

definition token_checks ::
  "'s edge_ops \<Rightarrow> 's oauth_service \<Rightarrow> 's \<Rightarrow> http_request
    \<Rightarrow> (nat \<times> string, request_context \<times> http_request) result" where
  "token_checks ops o1 st r =
     (case validateTokenResourceIndicator o1 r of
        Inl e \<Rightarrow> Inl (400, ''invalid_resource'')
      | Inr (resource, r1) \<Rightarrow>
        (case prevalidateRefreshClient ops o1 st r1 of
          Inl e \<Rightarrow> Inl (401, ''invalid_client'')
        | Inr refreshClient \<Rightarrow>
          (case validateClientGrantType ops o1 st r1 refreshClient of
            Inl e \<Rightarrow> Inl (400, ''unauthorized_client'')
          | Inr _ \<Rightarrow> Inr (\<lparr>expectedResource = resource, refreshClientID = refreshClient\<rparr>, r1))))"

datatype 'b token_answer = DeviceToken token_response | LibraryToken 'b

definition handleToken ::
  "'s edge_ops \<Rightarrow> 's oauth_service \<Rightarrow> ('s, 'b) oauth_lib \<Rightarrow> token_draw \<Rightarrow> time \<Rightarrow> 's \<Rightarrow> http_request
    \<Rightarrow> 's \<times> 'b token_answer response" where
  "handleToken ops o1 lib draw now st r =
     (if rqMethod r \<noteq> POST then (st, JsonError 405 ''method_not_allowed'')
      else if \<not> formOK r then (st, JsonError 400 ''invalid_request'')
      else if form_get r ''grant_type'' = grantDeviceCode
      then map_prod id (map_response DeviceToken) (handleDeviceToken ops o1 draw now st r)
      else case token_checks ops o1 st r of
        Inl (n, e) \<Rightarrow> (st, JsonError n e)
      | Inr (ctx, r1) \<Rightarrow>
        (case lbToken lib ctx st r1 of
          (st', status, answer, failed) \<Rightarrow>
            ((if failed \<or> status < 200 \<or> status \<ge> 300 then st'
              else opAudit ops st' \<lparr>aeActor = [], aeService = [], aeType = ''oauth.token.issued'',
                     aeStatus = ''issued''\<rparr>), map_response LibraryToken answer)))"

text \<open>
  The library is asked to refresh only for a client whose secret was checked, which may refresh,
  and whose identifier the store compares with the session's.
\<close>

lemma grant_type_plain [simp]:
  "trim_space grantAuthorizationCode = grantAuthorizationCode" "trim_space grantRefreshToken = grantRefreshToken"
  "trim_space grantDeviceCode = grantDeviceCode" "grantRefreshToken \<noteq> []"
  unfolding grantAuthorizationCode_def grantRefreshToken_def grantDeviceCode_def by code_simp+

lemma validateTokenResourceIndicator_ok:
  assumes "validateTokenResourceIndicator o1 r = Inr (res, r1)"
  shows "formOK r \<and> formOK r1 \<and> (\<forall>k. k \<noteq> ''resource'' \<longrightarrow> form_get r1 k = form_get r k)
    \<and> basicAuth r1 = basicAuth r
    \<and> (res = [] \<or> (\<exists>x resolution. res = rResource resolution
         \<and> (ResolveScope (oaDirectory o1) x = Inr resolution \<or> ResolveResource (oaDirectory o1) x = Inr resolution)))"
  using assms
  by (auto simp: validateTokenResourceIndicator_def Let_def setRequestResourceIndicator_def result_simps
      resourceForSingleServiceScope_def form_set_def split: if_splits)
     (auto simp: form_get_def form_values_def)

lemma token_checks_refresh:
  assumes "token_checks ops o1 st r = Inr (ctx, r1)" "form_get r ''grant_type'' = grantRefreshToken"
  shows "\<exists>secret client. resolveClientCredentials o1 r1 = Inr (refreshClientID ctx, secret)
    \<and> opGetClient ops st (refreshClientID ctx) = Inr client
    \<and> (\<forall>c. client = Confidential c \<longrightarrow> VerifyPassword (oaHash o1) c secret)
    \<and> (blank (refreshClientID ctx) \<or> trim_space (refreshClientID ctx) \<noteq> refreshClientID ctx
       \<or> clientAllowsGrant client grantRefreshToken)"
proof -
  obtain res where v: "validateTokenResourceIndicator o1 r = Inr (res, r1)"
    "prevalidateRefreshClient ops o1 st r1 = Inr (refreshClientID ctx)"
    "validateClientGrantType ops o1 st r1 (refreshClientID ctx) = Inr ()"
    using assms(1) by (auto simp: token_checks_def split: sum.splits)
  have g: "form_get r1 ''grant_type'' = grantRefreshToken"
    using validateTokenResourceIndicator_ok[OF v(1)] assms(2) by simp
  obtain i secret client where c: "resolveClientCredentials o1 r1 = Inr (i, secret)"
    "opGetClient ops st i = Inr client"
    using v(2) g by (auto simp: prevalidateRefreshClient_def result_simps split: if_splits)
  have "i = refreshClientID ctx \<and> (\<forall>c. client = Confidential c \<longrightarrow> VerifyPassword (oaHash o1) c secret)"
    using v(2) g c
    by (cases client) (simp_all add: prevalidateRefreshClient_def result_simps split: if_splits)
  note c = c[unfolded conjunct1[OF this]] conjunct2[OF this]
  have "clientAllowsGrant client grantRefreshToken"
    if "\<not> blank (refreshClientID ctx)" "trim_space (refreshClientID ctx) = refreshClientID ctx"
    using v(3) g c that by (simp add: validateClientGrantType_def Let_def result_simps split: if_splits)
  then show ?thesis using c by blast
qed

section \<open>The authorize endpoint\<close>

text \<open>
  \<^verbatim>\<open>fetch\<close> is the HTTP client of the metadata document (its dialer is \<^const>\<open>dialPublicHTTPSHost\<close>, redirects
  are not followed): the status and the decoded body.
\<close>

definition registerClientMetadataDocument ::
  "'s edge_ops \<Rightarrow> 's oauth_service \<Rightarrow> net_lib \<Rightarrow> (string \<Rightarrow> (go_error, nat \<times> registration_request option) result)
    \<Rightarrow> time \<Rightarrow> 's \<Rightarrow> string \<Rightarrow> 's \<times> (go_error, client_info) result" where
  "registerClientMetadataDocument ops o1 net fetch now st clientID0 =
     (let clientID = trim_space clientID0 in
      case url_parse net clientID of
        None \<Rightarrow> (st, Inl (Errorf ''client_id metadata document must be an HTTPS URL''))
      | Some parsed \<Rightarrow>
        if uScheme parsed \<noteq> ''https'' \<or> uHost parsed = []
        then (st, Inl (Errorf ''client_id metadata document must be an HTTPS URL''))
        else (case validateCIMDURL net (Some parsed) of
          Inl e \<Rightarrow> (st, Inl e)
        | Inr _ \<Rightarrow>
          (case fetch clientID of
            Inl e \<Rightarrow> (st, Inl e)
          | Inr (status, body) \<Rightarrow>
            if status \<noteq> 200 then (st, Inl (Errorf ''client metadata document returned status''))
            else (case body of
              None \<Rightarrow> (st, Inl (Errorf ''client metadata document must be valid JSON''))
            | Some metadata \<Rightarrow>
              if rrClientID metadata \<noteq> [] \<and> rrClientID metadata \<noteq> clientID
              then (st, Inl (Errorf ''client metadata document client_id must match the requested client_id''))
              else (case normalizeClientRegistration net metadata (directory_Scopes (oaDirectory o1)) of
                Inl e \<Rightarrow> (st, Inl e)
              | Inr record0 \<Rightarrow>
                (case opCreateClient ops st (record0\<lparr>rcID := clientID, rcAuthMethod := MethodNone,
                        rcCreatedAt := now\<rparr>) [] of
                  (st', Some e) \<Rightarrow> (st', Inl e)
                | (st', None) \<Rightarrow> (st', opGetClient ops st' clientID)))))))"

definition authorize_client ::
  "'s edge_ops \<Rightarrow> 's oauth_service \<Rightarrow> net_lib \<Rightarrow> (string \<Rightarrow> (go_error, nat \<times> registration_request option) result)
    \<Rightarrow> time \<Rightarrow> 's \<Rightarrow> string \<Rightarrow> 's \<times> (go_error, client_info) result" where
  "authorize_client ops o1 net fetch now st clientID =
     (case opGetClient ops st clientID of
        Inr c \<Rightarrow> (st, Inr c)
      | Inl e \<Rightarrow>
          if oaCIMDEnabled o1 then registerClientMetadataDocument ops o1 net fetch now st clientID
          else (st, Inl e))"

definition authorize_audit :: "'s edge_ops \<Rightarrow> 's \<Rightarrow> authenticated_subject \<Rightarrow> string \<Rightarrow> 's" where
  "authorize_audit ops st subject status =
     opAudit ops st \<lparr>aeActor = sSub subject, aeService = [], aeType = ''oauth.authorize.denied'',
       aeStatus = status\<rparr>"

text \<open>
  The checks between the authentication of the subject and the call of the library: the state after
  them, and the error or the expected resource with the request that is passed on.
\<close>

definition authorize_checks ::
  "'s edge_ops \<Rightarrow> 's oauth_service \<Rightarrow> net_lib \<Rightarrow> (string \<Rightarrow> (go_error, nat \<times> registration_request option) result)
    \<Rightarrow> time \<Rightarrow> 's \<Rightarrow> authenticated_subject \<Rightarrow> http_request
    \<Rightarrow> 's \<times> (nat \<times> string, string \<times> http_request) result" where
  "authorize_checks ops o1 net fetch now st subject r =
     (let scope = form_get r ''scope'' in
      if blank scope then (authorize_audit ops st subject ''invalid_scope'', Inl (400, ''invalid_scope''))
      else case validateResourceIndicator o1 r scope of
        Inl e \<Rightarrow> (authorize_audit ops st subject ''invalid_resource'', Inl (400, ''invalid_resource''))
      | Inr (resource, r1) \<Rightarrow>
        (case grants_answer o1 st (sSub subject) scope of
          Inl e \<Rightarrow> (authorize_audit ops st subject ''authorization_unavailable'',
                    Inl (503, ''authorization_unavailable''))
        | Inr False \<Rightarrow> (authorize_audit ops st subject ''service_not_granted'', Inl (403, ''service_not_granted''))
        | Inr True \<Rightarrow>
          (case authorize_client ops o1 net fetch now st (form_get r1 ''client_id'') of
            (st1, Inl e) \<Rightarrow> (authorize_audit ops st1 subject ''invalid_client'', Inl (401, ''invalid_client''))
          | (st1, Inr client) \<Rightarrow>
            if \<not> clientAllowsGrant client grantAuthorizationCode then (st1, Inl (400, ''unauthorized_client''))
            else if \<not> clientAllowsScope client scope
            then (authorize_audit ops st1 subject ''invalid_scope'', Inl (403, ''invalid_scope''))
            else (st1, Inr (resource, r1)))))"

definition handleAuthorize ::
  "'s edge_ops \<Rightarrow> 's oauth_service \<Rightarrow> ('s, 'b) oauth_lib \<Rightarrow> net_lib
    \<Rightarrow> (string \<Rightarrow> (go_error, nat \<times> registration_request option) result) \<Rightarrow> ('s \<Rightarrow> 's \<times> 'b response)
    \<Rightarrow> time \<Rightarrow> 's \<Rightarrow> authenticated_subject option \<Rightarrow> http_request \<Rightarrow> 's \<times> 'b response" where
  "handleAuthorize ops o1 lib net fetch begin_login now st subject r0 =
     (if rqMethod r0 \<noteq> GET \<and> rqMethod r0 \<noteq> POST then (st, JsonError 405 ''method_not_allowed'')
      else case serviceIDFromPath o1 (rqPath r0) ''/oauth/authorize'' of
        (_, Inl e) \<Rightarrow> (st, JsonError 404 ''service_not_found'')
      | (serviceScoped, Inr serviceID) \<Rightarrow>
        (case (if serviceScoped then narrowRequestScopeToService o1 r0 serviceID else Inr r0) of
          Inl e \<Rightarrow> (st, JsonError 400 ''invalid_scope'')
        | Inr r \<Rightarrow>
          (case subject of
            None \<Rightarrow>
              (if oaBrowserAuth o1
               then if rqMethod r \<noteq> GET then (st, JsonError 401 ''login_required'') else begin_login st
               else (st, JsonError 401 ''login_required''))
          | Some sub \<Rightarrow>
            (case authorize_checks ops o1 net fetch now st sub r of
              (st1, Inl (n, e)) \<Rightarrow> (st1, JsonError n e)
            | (st1, Inr (resource, r1)) \<Rightarrow>
              (case lbAuthorize lib resource st1 sub r1 of
                (st2, answer, failed) \<Rightarrow>
                  ((if failed then authorize_audit ops st2 sub ''oauth_server_rejected''
                    else opAudit ops st2 \<lparr>aeActor = sSub sub, aeService = [],
                           aeType = ''oauth.authorize.allowed'', aeStatus = ''allowed''\<rparr>), answer))))))"

text \<open>The library authorizes only granted scopes of one registered service, for a client that may ask for them.\<close>

lemma validateResourceIndicator_ok:
  assumes "validateResourceIndicator o1 r scope = Inr (res, r1)"
  shows "\<exists>resolution. ResolveScope (oaDirectory o1) scope = Inr resolution \<and> res = rResource resolution
    \<and> (\<forall>k. k \<noteq> ''resource'' \<longrightarrow> form_get r1 k = form_get r k)"
  using assms
  by (auto simp: validateResourceIndicator_def resourceForSingleServiceScope_def Let_def result_simps
      setRequestResourceIndicator_def split: if_splits)

lemma authorize_checks_ok:
  assumes "authorize_checks ops o1 net fetch now st subject r = (st', Inr (resource, r1))"
  shows "\<exists>resolution client. ResolveScope (oaDirectory o1) (form_get r ''scope'') = Inr resolution
    \<and> resource = rResource resolution \<and> granted o1 st (sSub subject) (form_get r ''scope'')
    \<and> authorize_client ops o1 net fetch now st (form_get r ''client_id'') = (st', Inr client)
    \<and> clientAllowsGrant client grantAuthorizationCode \<and> clientAllowsScope client (form_get r ''scope'')
    \<and> (\<forall>k. k \<noteq> ''resource'' \<longrightarrow> form_get r1 k = form_get r k)"
proof -
  note step = authorize_checks_def Let_def
  have b: "\<not> blank (form_get r ''scope'')"
    using assms by (auto simp: step split: if_splits)
  obtain res r2 where v: "validateResourceIndicator o1 r (form_get r ''scope'') = Inr (res, r2)"
    using assms b by (auto simp: step split: sum.splits)
  have g: "grants_answer o1 st (sSub subject) (form_get r ''scope'') = Inr True"
    using assms b v by (auto simp: step split: sum.splits bool.splits)
  have keep: "form_get r2 ''client_id'' = form_get r ''client_id''"
    using validateResourceIndicator_ok[OF v] by auto
  obtain st1 client where c: "authorize_client ops o1 net fetch now st (form_get r ''client_id'') = (st1, Inr client)"
    using assms b v g keep by (auto simp: step split: prod.splits sum.splits)
  have "clientAllowsGrant client grantAuthorizationCode \<and> clientAllowsScope client (form_get r ''scope'')
    \<and> st1 = st' \<and> resource = res \<and> r1 = r2"
    using assms b v g c keep by (simp add: step del: clientAllowsScope.simps split: if_splits)
  moreover have "granted o1 st (sSub subject) (form_get r ''scope'')"
    using g by (simp add: granted_def grants_answer_def split: option.splits)
  ultimately show ?thesis using validateResourceIndicator_ok[OF v] c by blast
qed

text \<open>Metadata documents register public clients only, from public hosts, under their own URL.\<close>

lemma registerClientMetadataDocument_ok:
  assumes "registerClientMetadataDocument ops o1 net fetch now st i = (st', Inr client)"
  shows "\<exists>u c st1. url_parse net (trim_space i) = Some u \<and> uScheme u = ''https''
    \<and> (\<exists>ips. resolvePublicCIMDHost net (uHostname u) = Inr ips)
    \<and> opCreateClient ops st c [] = (st1, None) \<and> st' = st1 \<and> rcID c = trim_space i
    \<and> rcAuthMethod c = MethodNone \<and> rcSecret c = []
    \<and> set (rcScopes c) \<subseteq> set (directory_Scopes (oaDirectory o1))
    \<and> opGetClient ops st' (trim_space i) = Inr client"
proof -
  note step = registerClientMetadataDocument_def Let_def
  obtain u where u: "url_parse net (trim_space i) = Some u" "uScheme u = ''https''" "uHost u \<noteq> []"
    using assms by (auto simp: step split: option.splits if_splits)
  have v: "validateCIMDURL net (Some u) = Inr ()"
    using assms u by (auto simp: step split: sum.splits)
  obtain md where f: "fetch (trim_space i) = Inr (200, Some md)"
    "\<not> (rrClientID md \<noteq> [] \<and> rrClientID md \<noteq> trim_space i)"
    using assms u v by (auto simp: step split: sum.splits prod.splits if_splits option.splits)
  obtain c0 where c0: "normalizeClientRegistration net md (directory_Scopes (oaDirectory o1)) = Inr c0"
    using assms u v f by (auto simp: step split: sum.splits)
  have "\<exists>ips. resolvePublicCIMDHost net (uHostname u) = Inr ips"
    using v by (auto simp: validateCIMDURL_def result_simps split: if_splits)
  moreover have "\<exists>st1. opCreateClient ops st (c0\<lparr>rcID := trim_space i, rcAuthMethod := MethodNone,
      rcCreatedAt := now\<rparr>) [] = (st1, None) \<and> st' = st1 \<and> opGetClient ops st' (trim_space i) = Inr client"
    using assms u v f c0 by (auto simp: step split: prod.splits option.splits)
  ultimately show ?thesis
    using u normalizeClientRegistration_ok[OF c0]
    by (fastforce simp: registration_ok_def)
qed

end
