(* ===== verification/BrowserAuth.thy ===== *)
theory BrowserAuth
  imports EdgeStores
begin

text \<open>
  Browser logins (\<^verbatim>\<open>internal/edge/auth.go\<close>, and their tables in \<^verbatim>\<open>state_store.go\<close>): a pending login is
  written before the browser is sent to the identity provider, the callback completes it, stores the
  subject and opens a browser session, whose cookie later authenticates the subject.  What both
  stores promise about the two tables is the locale \<^verbatim>\<open>login_store\<close>.  The claims of a session are stored
  as JSON, a round trip of the standard library; the model keeps the value.
\<close>

section \<open>Pending logins and sessions\<close>

record pending_login =
  plState :: string
  plReturnTo :: string
  plNonce :: string
  plExpiry :: time

record browser_session =
  bsClaims :: identity_claims
  bsExpiry :: time

record 'l login_ops =
  lgPutPending :: "'l \<Rightarrow> pending_login \<Rightarrow> 'l \<times> go_error option"
  lgGetPending :: "'l \<Rightarrow> string \<Rightarrow> time \<Rightarrow> (go_error, pending_login option) result"
  lgDeletePending :: "'l \<Rightarrow> string \<Rightarrow> 'l \<times> go_error option"
  lgPutSession :: "'l \<Rightarrow> string \<Rightarrow> browser_session \<Rightarrow> 'l \<times> go_error option"
  lgGetSession :: "'l \<Rightarrow> string \<Rightarrow> time \<Rightarrow> 'l \<times> (go_error, browser_session option) result"
  lgUpsertSubject :: "'l \<Rightarrow> identity_claims \<Rightarrow> 'l \<times> go_error option"
  lgAudit :: "'l \<Rightarrow> audit_event \<Rightarrow> 'l"

definition live_pending :: "time \<Rightarrow> pending_login \<Rightarrow> pending_login option" where
  "live_pending now p = (if plExpiry p < now then None else Some p)"

definition live_session :: "time \<Rightarrow> browser_session \<Rightarrow> browser_session option" where
  "live_session now b = (if bsExpiry b < now then None else Some b)"

section \<open>In memory\<close>

record mem_logins =
  mlPending :: "string \<rightharpoonup> pending_login"
  mlSessions :: "string \<rightharpoonup> browser_session"
  mlSubjects :: subject_map
  mlAudit :: "audit_event list"

definition mem_PutPendingLogin :: "mem_logins \<Rightarrow> pending_login \<Rightarrow> mem_logins" where
  "mem_PutPendingLogin s p = s\<lparr>mlPending := (mlPending s)(plState p \<mapsto> p)\<rparr>"

definition mem_GetPendingLogin :: "mem_logins \<Rightarrow> string \<Rightarrow> time \<Rightarrow> pending_login option" where
  "mem_GetPendingLogin s q now =
     (case mlPending s q of None \<Rightarrow> None | Some p \<Rightarrow> if plExpiry p < now then None else Some p)"

definition mem_DeletePendingLogin :: "mem_logins \<Rightarrow> string \<Rightarrow> mem_logins" where
  "mem_DeletePendingLogin s q = s\<lparr>mlPending := (mlPending s)(q := None)\<rparr>"

definition mem_PutBrowserSession :: "mem_logins \<Rightarrow> string \<Rightarrow> browser_session \<Rightarrow> mem_logins" where
  "mem_PutBrowserSession s i b = s\<lparr>mlSessions := (mlSessions s)(i \<mapsto> b)\<rparr>"

definition mem_GetBrowserSession :: "mem_logins \<Rightarrow> string \<Rightarrow> time \<Rightarrow> mem_logins \<times> browser_session option" where
  "mem_GetBrowserSession s i now =
     (case mlSessions s i of
        None \<Rightarrow> (s, None)
      | Some b \<Rightarrow>
          if bsExpiry b < now then (s\<lparr>mlSessions := (mlSessions s)(i := None)\<rparr>, None) else (s, Some b))"

definition mem_login_ops :: "mem_logins login_ops" where
  "mem_login_ops =
     \<lparr>lgPutPending = (\<lambda>s p. (mem_PutPendingLogin s p, None)),
      lgGetPending = (\<lambda>s q now. Inr (mem_GetPendingLogin s q now)),
      lgDeletePending = (\<lambda>s q. (mem_DeletePendingLogin s q, None)),
      lgPutSession = (\<lambda>s i b. (mem_PutBrowserSession s i b, None)),
      lgGetSession = (\<lambda>s i now. map_prod id Inr (mem_GetBrowserSession s i now)),
      lgUpsertSubject = (\<lambda>s c. (s\<lparr>mlSubjects := mem_UpsertSubject (mlSubjects s) c\<rparr>, None)),
      lgAudit = (\<lambda>s e. s\<lparr>mlAudit := mlAudit s @ [e]\<rparr>)\<rparr>"

section \<open>SQLite\<close>

record pending_row =
  prReturnTo :: string
  prNonce :: string
  prExpiresAt :: time

record browser_row =
  brSubjectSub :: "string option"
  brClaims :: identity_claims
  brExpiresAt :: time

record sql_logins =
  slState :: sql_state
  slPending :: "string \<rightharpoonup> pending_row"
  slSessions :: "string \<rightharpoonup> browser_row"

definition sql_PutPendingLogin :: "sql_logins \<Rightarrow> pending_login \<Rightarrow> sql_logins" where
  "sql_PutPendingLogin s p = s\<lparr>slPending := (slPending s)(plState p \<mapsto>
     \<lparr>prReturnTo = plReturnTo p, prNonce = plNonce p, prExpiresAt = plExpiry p\<rparr>)\<rparr>"

definition sql_GetPendingLogin :: "sql_logins \<Rightarrow> string \<Rightarrow> time \<Rightarrow> pending_login option" where
  "sql_GetPendingLogin s q now =
     (case slPending s q of
        None \<Rightarrow> None
      | Some row \<Rightarrow>
          let record1 = \<lparr>plState = q, plReturnTo = prReturnTo row, plNonce = prNonce row,
                         plExpiry = prExpiresAt row\<rparr>
          in if plExpiry record1 < now then None else Some record1)"

definition sql_DeletePendingLogin :: "sql_logins \<Rightarrow> string \<Rightarrow> sql_logins" where
  "sql_DeletePendingLogin s q = s\<lparr>slPending := (slPending s)(q := None)\<rparr>"

definition sql_PutBrowserSession ::
  "(string \<Rightarrow> string) \<Rightarrow> sql_logins \<Rightarrow> string \<Rightarrow> browser_session \<Rightarrow> sql_logins" where
  "sql_PutBrowserSession key s i b =
     s\<lparr>slState := sql_ensureSubject key (slState s) (bsClaims b),
       slSessions := (slSessions s)(i \<mapsto> \<lparr>brSubjectSub = nullif_empty (cSub (bsClaims b)),
         brClaims = bsClaims b, brExpiresAt = bsExpiry b\<rparr>)\<rparr>"

definition sql_GetBrowserSession :: "sql_logins \<Rightarrow> string \<Rightarrow> time \<Rightarrow> sql_logins \<times> browser_session option" where
  "sql_GetBrowserSession s i now =
     (case slSessions s i of
        None \<Rightarrow> (s, None)
      | Some row \<Rightarrow>
          if brExpiresAt row < now then (s\<lparr>slSessions := (slSessions s)(i := None)\<rparr>, None)
          else (s, Some \<lparr>bsClaims = brClaims row, bsExpiry = brExpiresAt row\<rparr>))"

definition sql_login_ops :: "(string \<Rightarrow> string) \<Rightarrow> sql_logins login_ops" where
  "sql_login_ops key =
     \<lparr>lgPutPending = (\<lambda>s p. (sql_PutPendingLogin s p, None)),
      lgGetPending = (\<lambda>s q now. Inr (sql_GetPendingLogin s q now)),
      lgDeletePending = (\<lambda>s q. (sql_DeletePendingLogin s q, None)),
      lgPutSession = (\<lambda>s i b. (sql_PutBrowserSession key s i b, None)),
      lgGetSession = (\<lambda>s i now. map_prod id Inr (sql_GetBrowserSession s i now)),
      lgUpsertSubject = (\<lambda>s c. (s\<lparr>slState := sql_ensureSubject key (slState s) c\<rparr>, None)),
      lgAudit = (\<lambda>s e. s\<lparr>slState := sql_RecordAuditEvent (slState s) e\<rparr>)\<rparr>"

section \<open>The handlers\<close>

text \<open>
  What the handler of the callback reads: the parameters of the query string, and what the identity
  provider's library makes of them.
\<close>

record callback_request =
  cbState :: string
  cbFixture :: string
  cbCode :: string

record 'l auth_runtime =
  arSessionTTL :: duration
  arPendingTTL :: duration
  arStart :: "pending_login \<Rightarrow> go_error option"
  arComplete :: "callback_request \<Rightarrow> pending_login \<Rightarrow> (go_error, identity_claims) result"

text \<open>The verified identity token: its claims, its nonce, and the raw claim of a name.\<close>

datatype raw_claim = ClaimString string | ClaimNil | ClaimOther string

record id_token =
  itClaims :: identity_claims
  itNonce :: string
  itRaw :: "string \<Rightarrow> raw_claim"

record oidc_provider =
  oiReady :: "go_error option"
  oiExchange :: "string \<Rightarrow> (go_error, id_token) result"

definition claimString :: "raw_claim \<Rightarrow> string" where
  "claimString v = (case v of ClaimString s \<Rightarrow> trim_space s | ClaimNil \<Rightarrow> [] | ClaimOther s \<Rightarrow> trim_space s)"

definition fixture_Complete :: "identity_claims \<Rightarrow> callback_request \<Rightarrow> pending_login
    \<Rightarrow> (go_error, identity_claims) result" where
  "fixture_Complete claims r pending =
     (if cbFixture r \<noteq> ''1'' then Inl (Errorf ''fixture callback marker missing'') else Inr claims)"

definition oidc_Complete :: "oidc_provider \<Rightarrow> string \<Rightarrow> callback_request \<Rightarrow> pending_login
    \<Rightarrow> (go_error, identity_claims) result" where
  "oidc_Complete o1 bindingClaim r pending =
     (case oiReady o1 of
        Some e \<Rightarrow> Inl e
      | None \<Rightarrow>
        let code = trim_space (cbCode r) in
        if code = [] then Inl (Errorf ''authorization code is required'')
        else bind_result (oiExchange o1 code) (\<lambda>tok.
          if itNonce tok \<noteq> plNonce pending then Inl (Errorf ''delegated login nonce mismatch'')
          else let binding = trim_space bindingClaim in
            Inr ((itClaims tok)\<lparr>cSubjectKey := [],
              cAccountBindingID := (if binding = [] then [] else claimString (itRaw tok binding)),
              cAccountBindingClaim := binding\<rparr>)))"

datatype login_answer = LoginStarted pending_login | LoginCompleted string time string

definition login_failed :: "'l login_ops \<Rightarrow> 'l \<Rightarrow> string \<Rightarrow> 'l" where
  "login_failed L s status = lgAudit L s
     \<lparr>aeActor = [], aeService = [], aeType = ''browser_login.failed'', aeStatus = status\<rparr>"

definition BeginBrowserLogin :: "'l login_ops \<Rightarrow> 'l auth_runtime \<Rightarrow> string option \<Rightarrow> string option \<Rightarrow> time
    \<Rightarrow> 'l \<Rightarrow> string \<Rightarrow> 'l \<times> login_answer response" where
  "BeginBrowserLogin L a state1 nonce now s returnTo =
     (case (state1, nonce) of
        (Some st, Some n) \<Rightarrow>
          let pending = \<lparr>plState = st, plReturnTo = returnTo, plNonce = n, plExpiry = now + arPendingTTL a\<rparr>
          in (case lgPutPending L s pending of
            (s1, Some e) \<Rightarrow> (s1, JsonError 500 ''login_state_failed'')
          | (s1, None) \<Rightarrow>
            let s2 = lgAudit L s1 \<lparr>aeActor = [], aeService = [], aeType = ''browser_login.started'',
                       aeStatus = ''started''\<rparr>
            in (case arStart a pending of
              Some e \<Rightarrow> (login_failed L s2 ''delegated_login_unavailable'',
                         JsonError 502 ''delegated_login_unavailable'')
            | None \<Rightarrow> (s2, Answer (LoginStarted pending))))
      | _ \<Rightarrow> (s, JsonError 500 ''login_state_failed''))"

text \<open>The callback reads the clock twice: \<^verbatim>\<open>now\<close> for the pending login, \<^verbatim>\<open>later\<close> for the session.\<close>

definition handleCallback :: "'l login_ops \<Rightarrow> 'l auth_runtime \<Rightarrow> string option \<Rightarrow> time \<Rightarrow> time
    \<Rightarrow> 'l \<Rightarrow> callback_request \<Rightarrow> 'l \<times> login_answer response" where
  "handleCallback L a sessionID now later s r =
     (let st = trim_space (cbState r) in
      if st = [] then (s, JsonError 400 ''invalid_state'')
      else case lgGetPending L s st now of
        Inl e \<Rightarrow> (login_failed L s ''login_state_unavailable'', JsonError 503 ''login_state_unavailable'')
      | Inr None \<Rightarrow> (login_failed L s ''invalid_state'', JsonError 400 ''invalid_state'')
      | Inr (Some pending) \<Rightarrow>
        (case arComplete a r pending of
          Inl e \<Rightarrow> (login_failed L s ''delegated_login_failed'', JsonError 401 ''delegated_login_failed'')
        | Inr claims \<Rightarrow>
          (case lgUpsertSubject L s claims of
            (s1, Some e) \<Rightarrow> (s1, JsonError 503 ''subject_sync_failed'')
          | (s1, None) \<Rightarrow>
            (case lgDeletePending L s1 st of
              (s2, Some e) \<Rightarrow> (s2, JsonError 503 ''login_state_unavailable'')
            | (s2, None) \<Rightarrow>
              (case sessionID of
                None \<Rightarrow> (s2, JsonError 500 ''session_create_failed'')
              | Some i \<Rightarrow>
                let expiry = later + arSessionTTL a in
                (case lgPutSession L s2 i \<lparr>bsClaims = claims, bsExpiry = expiry\<rparr> of
                  (s3, Some e) \<Rightarrow> (s3, JsonError 503 ''session_create_failed'')
                | (s3, None) \<Rightarrow>
                    (lgAudit L s3 \<lparr>aeActor = cSub claims, aeService = [],
                       aeType = ''browser_login.completed'', aeStatus = ''completed''\<rparr>,
                     Answer (LoginCompleted i expiry (plReturnTo pending)))))))))"

definition subject_of_claims :: "identity_claims \<Rightarrow> authenticated_subject" where
  "subject_of_claims c =
     \<lparr>sSub = cSub c, sSubjectKey = cSubjectKey c, sEmail = cEmail c, sDisplayName = cName c,
      sPreferredUsername = cPreferredUsername c, sAccountBindingID = cAccountBindingID c,
      sAccountBindingClaim = cAccountBindingClaim c, sGroups = cGroups c\<rparr>"

definition InjectBrowserSubject :: "'l login_ops \<Rightarrow> time \<Rightarrow> 'l \<Rightarrow> string option
    \<Rightarrow> 'l \<times> authenticated_subject option" where
  "InjectBrowserSubject L now s cookie =
     (case cookie of
        None \<Rightarrow> (s, None)
      | Some v \<Rightarrow>
          if blank v then (s, None)
          else (case lgGetSession L s v now of
            (s', Inl e) \<Rightarrow> (s', None)
          | (s', Inr None) \<Rightarrow> (s', None)
          | (s', Inr (Some b)) \<Rightarrow>
              (s', Some (subject_of_claims (bsClaims b)))))"

section \<open>The contract of the tables\<close>

locale login_store =
  fixes L :: "'l login_ops"
  assumes put_pending: "lgPutPending L s p = (s', None) \<Longrightarrow>
      lgGetPending L s' q now = (if q = plState p then Inr (live_pending now p) else lgGetPending L s q now)"
    and delete_pending: "lgDeletePending L s q = (s', None) \<Longrightarrow>
      lgGetPending L s' r now = (if r = q then Inr None else lgGetPending L s r now)"
    and session_keeps_pending: "lgPutSession L s i b = (s', None) \<Longrightarrow>
      lgGetPending L s' q now = lgGetPending L s q now"
    and put_session: "lgPutSession L s i b = (s', None) \<Longrightarrow>
      snd (lgGetSession L s' j now) = (if j = i then Inr (live_session now b) else snd (lgGetSession L s j now))"
    and audit_keeps: "lgGetPending L (lgAudit L s e) q now = lgGetPending L s q now"
      "snd (lgGetSession L (lgAudit L s e) i now) = snd (lgGetSession L s i now)"
begin

lemma callback_completed:
  assumes "handleCallback L a sessionID now later s r = (s', Answer (LoginCompleted i expiry returnTo))"
  shows "\<exists>pending claims. lgGetPending L s (trim_space (cbState r)) now = Inr (Some pending)
    \<and> arComplete a r pending = Inr claims \<and> sessionID = Some i \<and> expiry = later + arSessionTTL a
    \<and> returnTo = plReturnTo pending
    \<and> (\<forall>t. lgGetPending L s' (trim_space (cbState r)) t = Inr None)
    \<and> (\<forall>t. snd (lgGetSession L s' i t) = Inr (live_session t \<lparr>bsClaims = claims, bsExpiry = expiry\<rparr>))"
proof -
  let ?q = "trim_space (cbState r)"
  obtain pending where p: "lgGetPending L s ?q now = Inr (Some pending)" "?q \<noteq> []"
    using assms by (auto simp: handleCallback_def Let_def split: if_splits sum.splits option.splits)
  obtain claims where c: "arComplete a r pending = Inr claims"
    using assms p by (auto simp: handleCallback_def Let_def split: sum.splits)
  obtain s1 where u: "lgUpsertSubject L s claims = (s1, None)"
    using assms p c by (auto simp: handleCallback_def Let_def split: prod.splits option.splits)
  obtain s2 where d: "lgDeletePending L s1 ?q = (s2, None)"
    using assms p c u by (auto simp: handleCallback_def Let_def split: prod.splits option.splits)
  have i: "sessionID = Some i" "expiry = later + arSessionTTL a" "returnTo = plReturnTo pending"
    using assms p c u d
    by (auto simp: handleCallback_def Let_def split: prod.splits option.splits)
  obtain s3 where b: "lgPutSession L s2 i \<lparr>bsClaims = claims, bsExpiry = expiry\<rparr> = (s3, None)"
    "s' = lgAudit L s3 \<lparr>aeActor = cSub claims, aeService = [], aeType = ''browser_login.completed'',
       aeStatus = ''completed''\<rparr>"
    using assms p c u d i by (auto simp: handleCallback_def Let_def split: prod.splits option.splits)
  show ?thesis
    using p c i b delete_pending[OF d] session_keeps_pending[OF b(1)] put_session[OF b(1)]
    by (simp add: audit_keeps)
qed

text \<open>A completed login authenticates its subject until the session's end, and its state is spent.\<close>

lemma login_session:
  assumes "handleCallback L a sessionID now later s r = (s', Answer (LoginCompleted i expiry returnTo))"
    "\<not> blank i"
  shows "\<exists>pending claims. arComplete a r pending = Inr claims
    \<and> snd (InjectBrowserSubject L t s' (Some i))
        = (if expiry < t then None else Some (subject_of_claims claims))"
proof -
  obtain pending claims where "arComplete a r pending = Inr claims"
    "snd (lgGetSession L s' i t) = Inr (live_session t \<lparr>bsClaims = claims, bsExpiry = expiry\<rparr>)"
    using callback_completed[OF assms(1)] by blast
  then show ?thesis
    using assms(2)
    by (cases "lgGetSession L s' i t") (auto simp: InjectBrowserSubject_def live_session_def intro!: exI[of _ pending])
qed

lemma login_state_once:
  assumes "handleCallback L a sessionID now later s r = (s', Answer (LoginCompleted i expiry returnTo))"
    "trim_space (cbState r') = trim_space (cbState r)"
  shows "snd (handleCallback L a sessionID' now' later' s' r') = JsonError 400 ''invalid_state''"
proof -
  have "lgGetPending L s' (trim_space (cbState r')) now' = Inr None"
    using callback_completed[OF assms(1)] assms(2) by auto
  then show ?thesis by (simp add: handleCallback_def Let_def)
qed

lemma begin_then_pending:
  assumes "BeginBrowserLogin L a (Some st) (Some n) now s returnTo = (s', Answer (LoginStarted p))"
  shows "lgGetPending L s' st t = Inr (if now + arPendingTTL a < t then None else Some p)
    \<and> plReturnTo p = returnTo \<and> plNonce p = n"
proof -
  let ?p = "\<lparr>plState = st, plReturnTo = returnTo, plNonce = n, plExpiry = now + arPendingTTL a\<rparr>"
  obtain s1 where s1: "lgPutPending L s ?p = (s1, None)"
    using assms by (auto simp: BeginBrowserLogin_def Let_def split: prod.splits option.splits)
  then show ?thesis
    using assms put_pending[OF s1]
    by (auto simp: BeginBrowserLogin_def Let_def audit_keeps live_pending_def split: option.splits)
qed

end

text \<open>What the operations read of a table.\<close>

lemma mem_pending_get: "mem_GetPendingLogin s q now = Option.bind (mlPending s q) (live_pending now)"
  by (simp add: mem_GetPendingLogin_def live_pending_def split: option.split)

lemma mem_session_get: "snd (mem_GetBrowserSession s i now) = Option.bind (mlSessions s i) (live_session now)"
  by (simp add: mem_GetBrowserSession_def live_session_def split: option.split)

interpretation mem_login: login_store mem_login_ops
  by unfold_locales
     (simp_all add: mem_login_ops_def mem_pending_get mem_session_get mem_PutPendingLogin_def
       mem_DeletePendingLogin_def mem_PutBrowserSession_def snd_map_prod, auto)

lemma sql_pending_get: "sql_GetPendingLogin s q now = Option.bind (slPending s q) (\<lambda>row.
    live_pending now \<lparr>plState = q, plReturnTo = prReturnTo row, plNonce = prNonce row, plExpiry = prExpiresAt row\<rparr>)"
  by (simp add: sql_GetPendingLogin_def live_pending_def split: option.split)

lemma row_of_value [simp]:
  "\<lparr>plState = plState p, plReturnTo = plReturnTo p, plNonce = plNonce p, plExpiry = plExpiry p\<rparr> = (p :: pending_login)"
  "\<lparr>bsClaims = bsClaims b, bsExpiry = bsExpiry b\<rparr> = (b :: browser_session)"
  by simp_all

lemma sql_session_get: "snd (sql_GetBrowserSession s i now) = Option.bind (slSessions s i) (\<lambda>row.
    live_session now \<lparr>bsClaims = brClaims row, bsExpiry = brExpiresAt row\<rparr>)"
  by (simp add: sql_GetBrowserSession_def live_session_def split: option.split)

interpretation sql_login: login_store "sql_login_ops key" for key
  by unfold_locales
     (simp_all add: sql_login_ops_def sql_pending_get sql_session_get sql_PutPendingLogin_def
       sql_DeletePendingLogin_def sql_PutBrowserSession_def snd_map_prod, auto)

lemma oidc_nonce:
  "oidc_Complete o1 bc r pending = Inr claims \<Longrightarrow>
   \<exists>tok. oiExchange o1 (trim_space (cbCode r)) = Inr tok \<and> itNonce tok = plNonce pending
     \<and> cSub claims = cSub (itClaims tok) \<and> cGroups claims = cGroups (itClaims tok)"
  by (auto simp: oidc_Complete_def Let_def result_simps split: option.splits if_splits)

end
