(* ===== verification/Fixture.thy ===== *)
theory Fixture
  imports OAuthTokens BrowserAuth
begin

text \<open>
  A small gateway on which the hypotheses of the properties are met: one service \<^verbatim>\<open>notes\<close>, one
  subject \<^verbatim>\<open>alice\<close> who is granted it, one public device client \<^verbatim>\<open>dev\<close>, and an approved device
  authorization.  The digest and the cipher are concrete functions that satisfy \<^const>\<open>cipher_ok\<close>.
\<close>

definition fx_entry :: catalog_entry where
  "fx_entry =
     \<lparr>ServiceID = ''notes'', DisplayName = ''Notes'', UpstreamServiceName = ''notes'',
      TransportType = TransportStreamableHTTP, InternalPort = 8080, PublicPath = ''/notes'',
      InternalUpstreamPath = ''/mcp'', HealthPath = ''/health'', HealthProbeExpectation = ''200'',
      ResourceProfile = ''small'', PersistencePolicy = ''none'', AdapterRequirement = AdapterNone,
      SecretContract = [], IdentityContext = ModeNone, Capabilities = []\<rparr>"

definition fx_snapshot :: snapshot where
  "fx_snapshot =
     \<lparr>entries = [fx_entry], byServiceID = [''notes'' \<mapsto> fx_entry], publicPaths = [''/notes''],
      byPublicPath = [''/notes'' \<mapsto> fx_entry], scopes = [''mcp:notes''], loadedAt = 1\<rparr>"

definition fx_cache :: catalog_cache where
  "fx_cache = \<lparr>current = Some fx_snapshot, lastError = Some []\<rparr>"

definition fx_directory :: service_directory where
  "fx_directory = NewServiceDirectory ''https://edge'' (Some fx_cache)"

definition fx_crypto :: crypto where
  "fx_crypto =
     \<lparr>cr_hash = (\<lambda>s. ''h:'' @ s), cr_enc = (\<lambda>s. ''e:'' @ s),
      cr_dec = (\<lambda>s. if has_prefix s ''e:'' then Some (trim_prefix s ''e:'') else None),
      cr_json_array = (\<lambda>_. Inr (Some 0))\<rparr>"

definition fx_uuid :: "byte \<Rightarrow> uuid" where
  "fx_uuid b = [1, 2, 3, 4, 5, 6, 0x70, 8, 0x80, 10, 11, 12, 13, 14, 15, b]"

definition fx_device :: device_authorization where
  "fx_device =
     \<lparr>dID = fx_uuid 1, dClientID = ''dev'', dSubjectSub = Some ''alice'', dServiceID = ''notes'',
      dResource = ''https://edge/notes'', dScope = ''mcp:notes'', dDeviceCodeHash = ''h:dcode'',
      dUserCodeHash = ''h:ABCDEFGH'', dUserCodeDisplay = ''ABCD-EFGH'', dStatus = StatusApproved,
      dInterval = 5 * second, dLastPollAt = None, dPollCount = 0, dApprovedAt = Some 20,
      dDeniedAt = None, dExpiresAt = 1000 * second, dConsumedAt = None, dCreatedAt = 10, dUpdatedAt = 20\<rparr>"

definition fx_pending :: device_authorization where
  "fx_pending =
     fx_device\<lparr>dID := fx_uuid 2, dSubjectSub := None, dStatus := StatusPending, dApprovedAt := None,
       dDeviceCodeHash := ''h:pcode'', dUserCodeHash := ''h:JKLMNPQR'', dUserCodeDisplay := ''JKLM-NPQR''\<rparr>"

definition fx_client :: client_row where
  "fx_client =
     \<lparr>rwRedirectURIs = [''https://app/cb''],
      rwGrantTypes = [grantDeviceCode, grantRefreshToken, grantAuthorizationCode],
      rwScopes = [''mcp:notes''], rwCreatedBy = None, rwAuthMethod = MethodNone, rwSecretHash = None,
      rwDisabled = False\<rparr>"

definition fx_state :: sql_state where
  "fx_state =
     \<lparr>qClients = [''dev'' \<mapsto> fx_client], qSubjects = Map.empty, qSessions = [],
      qDevices = [fx_device, fx_pending],
      qGrants = \<lparr>serviceGrants = [(''alice'', ''notes'')], enabledServices = [''notes'']\<rparr>, qAudit = []\<rparr>"

definition fx_ops :: "sql_state edge_ops" where
  "fx_ops = sql_ops fx_crypto (\<lambda>s. s) 50 (fx_uuid 9)"

definition fx_oauth :: "sql_state oauth_service" where
  "fx_oauth =
     \<lparr>oaPublicBaseURL = ''https://edge'', oaOperatorToken = ''op'', oaDirectory = Some fx_directory,
      oaGrants = Some (\<lambda>st. sql_AllowedScopes None (qGrants st)), oaBrowserAuth = True,
      oaDCREnabled = True, oaCIMDEnabled = True, oaAccessTTL = hour, oaRefreshTTL = 24 * hour,
      oaDeviceTTL = 10 * minute, oaHash = (\<lambda>s. ''h:'' @ s),
      oaFormClient = (\<lambda>r. if form_get r ''client_id'' = [] then Inl (Errorf ''invalid client'')
                          else Inr (form_get r ''client_id'', form_get r ''client_secret''))\<rparr>"

definition fx_request :: "http_method \<Rightarrow> string \<Rightarrow> (string \<times> string) list \<Rightarrow> string \<Rightarrow> http_request" where
  "fx_request m path form auth =
     \<lparr>rqMethod = m, rqPath = path, formOK = True, rqForm = map (\<lambda>(k, v). (k, [v])) form,
      basicAuth = None, authHeader = auth\<rparr>"

definition fx_token_request :: "http_request" where
  "fx_token_request = fx_request POST ''/oauth/token''
     [(''grant_type'', grantDeviceCode), (''client_id'', ''dev''), (''device_code'', ''dcode'')] []"

definition fx_draw :: token_draw where
  "fx_draw = \<lparr>tdAccess = Some ''at'', tdRefresh = Some ''rt''\<rparr>"

definition fx_net :: net_lib where
  "fx_net =
     \<lparr>url_parse = (\<lambda>s. if s = ''https://app/cb'' then Some \<lparr>uScheme = ''https'', uHost = ''app'',
         uHostname = ''app'', uPort = [], uPath = ''/cb'', uRawQuery = [], uFragment = [], uUser = False,
         uAbs = True\<rparr> else None),
      parse_ip = (\<lambda>_. None),
      lookup_ip = (\<lambda>h. if h = ''app'' then Inr [Some \<lparr>ipLoopback = False, ipPrivate = False,
         ipLinkLocalUnicast = False, ipLinkLocalMulticast = False, ipMulticast = False,
         ipUnspecified = False, ipText = ''93.184.216.34''\<rparr>] else Inl (Errorf ''no such host''))\<rparr>"

definition is_answer :: "'a response \<Rightarrow> bool" where
  "is_answer r = (case r of Answer _ \<Rightarrow> True | _ \<Rightarrow> False)"

lemma is_answerD: "is_answer r \<Longrightarrow> \<exists>a. r = Answer a"
  by (simp add: is_answer_def split: response.splits)

text \<open>The snapshot is the one the cache builds from the row.\<close>

lemma fx_add_entry:
  "service_id_ok ''notes''" "trim_space ''notes'' = ''notes''" "clean_path ''/notes'' = ''/notes''"
  "publicPathReserved ''/notes'' = False"
  by code_simp+

lemma fx_new_snapshot: "newCatalogSnapshot [fx_entry] 1 = Inr fx_snapshot"
proof -
  have "add_entry (empty_snapshot 1) fx_entry = Inr fx_snapshot"
    by (simp add: fx_add_entry slash_def Let_def add_entry_def fx_entry_def empty_snapshot_def fx_snapshot_def mcp_prefix_def)
  then show ?thesis by (simp add: newCatalogSnapshot_def fx_snapshot_def)
qed

lemma fx_refresh: "Refresh render NewCatalogCache (Inr [fx_entry]) 1 = (fx_cache, None)"
  by (simp add: Refresh_def fx_new_snapshot fx_cache_def NewCatalogCache_def)

lemma fx_cache_ok: "cache_ok fx_cache"
  using fx_new_snapshot by (auto simp: cache_ok_def fx_cache_def)

lemma fx_cipher: "cipher_ok fx_crypto"
  by (simp add: cipher_ok_def fx_crypto_def trim_prefix_def)

text \<open>The operations of the gateway's store, one by one.\<close>

lemma fx_ops_sel:
  "opGetClient fx_ops = sql_GetByID"
  "opCreateDevice fx_ops = (\<lambda>st d. case sql_CreateDeviceAuthorization 50 (qDevices st) d of
     Inl e \<Rightarrow> (st, Some e) | Inr t \<Rightarrow> (st\<lparr>qDevices := t\<rparr>, None))"
  "opDeviceByCode fx_ops = (\<lambda>st code.
     Inr (q_GetDeviceAuthorizationByDeviceCodeHash (qDevices st) (cr_hash fx_crypto code)))"
  "opDeviceByUser fx_ops = (\<lambda>st code.
     Inr (q_GetDeviceAuthorizationByUserCodeHash (qDevices st) (cr_hash fx_crypto (normalizeUserCode code))))"
  "opApprove fx_ops = sql_approve_device (\<lambda>s. s)"
  "opDeny fx_ops = (\<lambda>st i t. case sql_Deny (qDevices st) i t of (devices, b) \<Rightarrow> (st\<lparr>qDevices := devices\<rparr>, Inr b))"
  "opConsumeCreate fx_ops = sql_ConsumeDeviceAuthorizationAndCreateToken fx_crypto (\<lambda>s. s) (fx_uuid 9)"
  "opPoll fx_ops = (\<lambda>st i t. st\<lparr>qDevices := fst (sql_UpdatePoll (qDevices st) i t)\<rparr>)"
  "opUpsertSubject fx_ops = (\<lambda>st c. (sql_ensureSubject (\<lambda>s. s) st c, None))"
  "opCreateClient fx_ops = sql_CreateClient fx_crypto (\<lambda>s. s)"
  "opCreateToken fx_ops = sql_create_token fx_crypto (\<lambda>s. s) (fx_uuid 9)"
  "opAudit fx_ops = sql_RecordAuditEvent"
  by (simp_all add: fx_ops_def sql_ops_def)

lemma fx_token_answer: "is_answer (snd (handleDeviceToken fx_ops fx_oauth fx_draw 60 fx_state fx_token_request))"
  unfolding handleDeviceToken_def issue_device_token_def fx_ops_sel by code_simp

end
