(* ===== verification/CoreProperties.thy ===== *)
theory CoreProperties
  imports Fixture
begin

text \<open>
  The properties of the core: identifiers, scopes and grants, the catalog with its routing, and the
  service directory.  Each has a witness on concrete values where it has a hypothesis.
\<close>

section \<open>Identifiers\<close>

text \<open>
  The parser accepts exactly the canonical lower-case text of version-7 identifiers, and
  returns the identifier whose text it was given.
\<close>

theorem parse_accepts_canonical: "Parse s = Inr u \<longleftrightarrow> wf_uuid u \<and> IsV7 u \<and> s = encodeCanonical u"
  by (rule Parse_iff_canonical)

text \<open>
  Property C40: a fresh identifier is a valid version-7 identifier, its text parses back to it, and its
  six leading bytes are the 48 low bits of the time.
\<close>

theorem new_id_valid:
  assumes "length random = 10"
  shows "Validate (NewV7 ms random) = None \<and> Parse (encodeCanonical (NewV7 ms random)) = Inr (NewV7 ms random)
    \<and> be_value (take 6 (NewV7 ms random)) = unat ms mod 2 ^ 48"
  using NewV7_valid[of random ms] uuid_timestamp[of random ms] assms
  by (simp add: Parse_iff_canonical Validate_None_iff) (simp add: NewV7_def)

theorem new_id_valid_witness:
  "Parse (encodeCanonical (NewV7 77 [1, 2, 3, 4, 5, 6, 7, 8, 9, 10])) = Inr (NewV7 77 [1, 2, 3, 4, 5, 6, 7, 8, 9, 10])"
  using new_id_valid[of "[1, 2, 3, 4, 5, 6, 7, 8, 9, 10]" 77] by simp

section \<open>Scopes and grants\<close>

text \<open>
  Property C35: over SQLite and through the policy engine, a scope string is granted exactly if it is a
  list of service scopes, and the subject holds a grant for each of the services, all enabled.
\<close>

theorem scopes_granted_exactly:
  "policyAllowedScopes (Some (sql_grants.source (None, t))) sub scope = Inr True \<longleftrightarrow>
     sub \<noteq> [] \<and> snd (RequestedServiceScopes scope)
     \<and> list_all (\<lambda>sid. (sub, sid) \<in> set (serviceGrants t) \<and> sid \<in> set (enabledServices t))
         (fst (RequestedServiceScopes scope))"
  using sql_grants.scopes_iff[of "(None, t)" sub scope]
  by (auto simp: policyAllowedScopes_iff sql_grants.source_def sql_Allowed_def q_AllowedServiceGrant_def
      list_ex_iff list_all_iff)

text \<open>
  The in-memory source grants a scope exactly if each of its services is granted to the
  groups of the stored subject: the administrators' group, or the users' group with the group of the
  service.
\<close>

theorem group_scopes_granted_exactly:
  "policyAllowedScopes (Some (mem_grants.source m)) sub scope = Inr True \<longleftrightarrow>
     sub \<noteq> [] \<and> snd (RequestedServiceScopes scope)
     \<and> list_all (\<lambda>sid. case m sub of None \<Rightarrow> False | Some c \<Rightarrow>
           groupMCPAdmin \<in> set (cGroups c)
           \<or> groupMCPUsers \<in> set (cGroups c) \<and> grantGroupForService sid \<in> set (cGroups c))
         (fst (RequestedServiceScopes scope))"
  using mem_grants.scopes_iff[of m sub scope]
  by (auto simp: policyAllowedScopes_iff mem_grants.source_def mem_Allowed_def list_all_iff
      identityHasGrant_iff split: option.splits)

lemma service_scope_words:
  assumes "list_all service_id_ok ids"
  shows "\<forall>w \<in> set (map ServiceScope ids). space_free w \<and> w \<noteq> []"
proof
  fix w assume "w \<in> set (map ServiceScope ids)"
  then obtain i where i: "service_id_ok i" "w = mcp_prefix @ i"
    using assms by (auto simp: list_all_iff ServiceScope_ok)
  then have "go_fields w = [w]"
    using go_fields_solid[OF mcp_scope_solid[OF i(1)]] by (simp add: mcp_prefix_def)
  then show "space_free w \<and> w \<noteq> []"
    using go_fields_space_free[of w w] i(2) by (auto simp: mcp_prefix_def)
qed

text \<open>
  The scope of a list of distinct services, written with single blanks, is parsed back to
  that list.
\<close>

theorem requested_services_round_trip:
  assumes "list_all service_id_ok ids" "distinct ids" "ids \<noteq> []"
  shows "RequestedServiceScopes (join '' '' (map ServiceScope ids)) = (ids, True)"
proof -
  note words = service_scope_words[OF assms(1)]
  have e: "entry_service (ServiceScope i) = i \<and> entry_ok (ServiceScope i)" if "i \<in> set ids" for i
    using assms(1) that
    by (simp add: list_all_iff entry_ok_def entry_service_def ServiceScope_ok service_id_trim service_id_no
        service_id_nonempty)
  then have "map entry_service (map ServiceScope ids) = ids" by (simp add: map_idI)
  then show ?thesis
    using e assms join_head[OF words]
    by (simp add: RequestedServiceScopes_eq go_fields_join[OF words] list_all_iff dedup_distinct)
qed

theorem requested_services_round_trip_witness:
  "RequestedServiceScopes (join '' '' (map ServiceScope [''notes'', ''mail''])) = ([''notes'', ''mail''], True)"
proof (rule requested_services_round_trip)
  show "list_all service_id_ok [''notes'', ''mail'']" by code_simp
qed simp_all

section \<open>The catalog\<close>

text \<open>
  A list of catalog rows is accepted exactly if, after trimming, every identifier is valid,
  every public path is absolute and clear of the edge's own routes, and no identifier and no path
  occurs twice.
\<close>

theorem catalog_accepted_exactly:
  "(\<exists>s. newCatalogSnapshot es t = Inr s) \<longleftrightarrow>
     list_all entry_valid (map clean_entry es)
     \<and> distinct (map ServiceID (map clean_entry es)) \<and> distinct (map PublicPath (map clean_entry es))"
  by (rule newCatalogSnapshot_iff)

text \<open>
  Property C37: a request path is routed to the service with the longest public path that covers it by
  whole segments, and a path of the edge's own routes is never routed to a service.
\<close>

theorem routed_to_longest_path:
  assumes "newCatalogSnapshot es t = Inr s"
  shows "(snapshot_MatchPublicPath s path = Some e \<longleftrightarrow> best_match s path e)
    \<and> (snapshot_MatchPublicPath s path = None \<longleftrightarrow>
         list_all (\<lambda>e'. \<not> path_under path (PublicPath e')) (entries s))
    \<and> (publicPathReserved path \<longrightarrow> snapshot_MatchPublicPath s path = None)"
  using match_best[OF assms] match_none[OF assms, of path] reserved_unmatched[OF assms]
  by (simp add: list_all_iff)

theorem routed_to_longest_path_witness:
  "snapshot_MatchPublicPath fx_snapshot ''/notes/x'' = Some fx_entry
   \<and> snapshot_MatchPublicPath fx_snapshot ''/oauth/token'' = None"
proof -
  have "best_match fx_snapshot ''/notes/x'' fx_entry" by code_simp
  moreover have "publicPathReserved ''/oauth/token''" by code_simp
  ultimately show ?thesis
    using routed_to_longest_path[OF fx_new_snapshot, of "''/notes/x''" fx_entry]
      routed_to_longest_path[OF fx_new_snapshot, of "''/oauth/token''"] by blast
qed

text \<open>The snapshots that the ticks of the refresh loop find, in their order.\<close>

definition good_snapshots :: "((go_error, catalog_entry list) result \<times> time) list \<Rightarrow> snapshot list" where
  "good_snapshots ticks = List.map_filter (\<lambda>(rows, now).
     case rows of Inl _ \<Rightarrow> None
     | Inr es \<Rightarrow> (case newCatalogSnapshot es now of Inl _ \<Rightarrow> None | Inr s \<Rightarrow> Some s)) ticks"

text \<open>
  Whatever the store answers, the refresh loop serves the last acceptable snapshot it has
  seen; failed queries and unacceptable rows never replace or drop it.
\<close>

theorem refresh_serves_last_good:
  "current (RunRefreshLoop render c ticks) = last (current c # map Some (good_snapshots ticks))"
proof (induction render c ticks rule: RunRefreshLoop.induct)
  case (2 render c rows now ticks)
  show ?case
  proof (cases "\<exists>es s. rows = Inr es \<and> newCatalogSnapshot es now = Inr s")
    case True
    then obtain es s where "rows = Inr es" "newCatalogSnapshot es now = Inr s" by blast
    then show ?thesis
      using 2 by (simp add: Refresh_def good_snapshots_def List.map_filter_simps)
  next
    case False
    then have "current (fst (Refresh render c rows now)) = current c"
      "good_snapshots ((rows, now) # ticks) = good_snapshots ticks"
      by (auto simp: Refresh_def good_snapshots_def List.map_filter_simps split: sum.splits)
    then show ?thesis using 2 by simp
  qed
qed (simp add: good_snapshots_def List.map_filter_simps)

section \<open>The directory\<close>

text \<open>
  Every service of a directory over a cache is found again from its identifier, from its
  scope and from its path, and a resource indicator that is accepted names one service of the
  directory, which no other service shares.
\<close>

theorem directory_round_trip:
  assumes "cache_ok c" "e \<in> set (directory_entries (Some (NewServiceDirectory base (Some c))))"
  shows "ResolveByID (Some (NewServiceDirectory base (Some c))) (ServiceID e)
        = Some (resolve (NewServiceDirectory base (Some c)) e)
    \<and> ResolveScope (Some (NewServiceDirectory base (Some c)))
          (rScope (resolve (NewServiceDirectory base (Some c)) e))
        = Inr (resolve (NewServiceDirectory base (Some c)) e)
    \<and> (ResolveResource (Some (NewServiceDirectory base (Some c))) resource
          = Inr (resolve (NewServiceDirectory base (Some c)) e)
        \<longrightarrow> rResource (resolve (NewServiceDirectory base (Some c)) e) = clean_resource resource)
    \<and> list_all (\<lambda>e'. rResource (resolve (NewServiceDirectory base (Some c)) e')
          = rResource (resolve (NewServiceDirectory base (Some c)) e) \<longrightarrow> e' = e)
        (directory_entries (Some (NewServiceDirectory base (Some c))))"
proof -
  let ?d = "NewServiceDirectory base (Some c)"
  note ok = directory_ok_cache[OF assms(1), of base]
  have id: "trim_space (ServiceID e) = ServiceID e" using directory_entry_id[OF ok assms(2)] by simp
  have "ResolveByID (Some ?d) (ServiceID e) = Some (resolve ?d e)"
    using ResolveByID_iff[OF ok] assms(2) id by auto
  then show ?thesis
    using ResolveScope_of_service[OF ok assms(2)] resolution_inject(1)[OF ok _ assms(2)]
      ResolveResource_sound[of "Some ?d" resource]
    by (auto simp: list_all_iff clean_resource_def)
qed

theorem directory_round_trip_witness:
  "ResolveByID (Some fx_directory) ''notes'' = Some (resolve fx_directory fx_entry)"
proof -
  have "fx_entry \<in> set (directory_entries (Some fx_directory))"
    by (simp add: directory_entries_def with_catalog_def fx_directory_def NewServiceDirectory_def
        fx_cache_def fx_snapshot_def)
  moreover have "ServiceID fx_entry = ''notes''" by (simp add: fx_entry_def)
  ultimately show ?thesis
    using directory_round_trip[OF fx_cache_ok, of fx_entry "''https://edge''"]
    by (simp add: fx_directory_def)
qed

end
