(* ===== verification/EdgeProperties.thy ===== *)
theory EdgeProperties
  imports Fixture
begin

text \<open>
  The properties of the edge's stores and OAuth endpoints: device authorizations and their single use,
  OAuth sessions, client registration, the tokens of an operator, the checks in front of the OAuth
  library, and browser logins.  The witnesses run the handlers on the gateway of theory Fixture.
\<close>

section \<open>Device authorizations\<close>

definition fx_maps :: device_maps where
  "fx_maps =
     \<lparr>devByID = [(encodeCanonical (fx_uuid 1), fx_device)],
      devByCode = [''h:dcode'' \<mapsto> encodeCanonical (fx_uuid 1)],
      devByUser = [''h:ABCDEFGH'' \<mapsto> encodeCanonical (fx_uuid 1)]\<rparr>"

lemma fx_uuid_wf: "wf_uuid (fx_uuid b)"
  by (simp add: wf_uuid_def fx_uuid_def)

definition fx_consume_twice :: "store_op list" where
  "fx_consume_twice = [OpRun (fx_uuid 1) (EvConsume 60), OpMark 70, OpRun (fx_uuid 1) (EvConsume 80)]"

lemma fx_consume_twice_ok: "list_all op_ok fx_consume_twice"
  by (simp add: fx_consume_twice_def fx_uuid_wf)

text \<open>
  Along any sequence of approvals, denials, polls, expiry runs, prunings and consumptions
  of the in-memory store, one device authorization is consumed at most once.
\<close>

theorem mem_device_consumed_once:
  assumes "mem_inv s" "list_all op_ok ops" "wf_uuid i"
  shows "consumes mem_run mem_MarkExpired mem_Prune i s ops \<le> 1"
  using mem.consumed_at_most_once[OF assms] .

theorem mem_device_consumed_once_witness:
  "consumes mem_run mem_MarkExpired mem_Prune (fx_uuid 1) fx_maps fx_consume_twice \<le> 1"
  by (rule mem_device_consumed_once) (simp_all add: mem_inv_def fx_maps_def fx_uuid_wf fx_consume_twice_ok)

text \<open>
  Along any sequence of operations of the SQLite store, whose guards are the WHERE clauses of its
  updates, a device authorization is consumed at most once.
\<close>

theorem sql_device_consumed_once:
  assumes "sql_inv t" "list_all op_ok ops" "wf_uuid i"
  shows "consumes sql_run q_MarkExpiredDeviceAuthorizations q_PruneExpiredDeviceAuthorizations i t ops \<le> 1"
  using sql.consumed_at_most_once[OF assms] .

lemma fx_table_inv: "sql_inv [fx_device, fx_pending]"
proof -
  have "has_subject fx_device" by code_simp
  then show ?thesis by (simp add: sql_inv_def fx_pending_def) (simp add: fx_device_def fx_uuid_def)
qed

theorem sql_device_consumed_once_witness:
  "consumes sql_run q_MarkExpiredDeviceAuthorizations q_PruneExpiredDeviceAuthorizations
     (fx_uuid 1) [fx_device, fx_pending] fx_consume_twice \<le> 1"
  by (rule sql_device_consumed_once[OF fx_table_inv fx_consume_twice_ok fx_uuid_wf])







text \<open>
  A denied, expired or consumed device authorization keeps its status as long as it is
  stored, whatever operations follow.
\<close>

theorem sql_terminal_status_kept:
  assumes "sql_inv t" "list_all op_ok ops" "wf_uuid j" "sql_get t j = Some d" "terminal (dStatus d)"
    "sql_get (foldl (exec_op sql_run q_MarkExpiredDeviceAuthorizations q_PruneExpiredDeviceAuthorizations) t ops) j
       = Some d'"
  shows "dStatus d' = dStatus d"
  by (rule sql.terminal_trace[OF assms])

theorem sql_terminal_status_kept_witness:
  "\<exists>d'. sql_get (foldl (exec_op sql_run q_MarkExpiredDeviceAuthorizations q_PruneExpiredDeviceAuthorizations)
       [fx_device\<lparr>dStatus := StatusDenied\<rparr>] [OpRun (fx_uuid 1) (EvConsume 60)]) (fx_uuid 1) = Some d'
     \<and> dStatus d' = StatusDenied"
proof -
  let ?d = "fx_device\<lparr>dStatus := StatusDenied\<rparr>"
  have hs: "has_subject ?d" by code_simp
  have run: "sql_get (foldl (exec_op sql_run q_MarkExpiredDeviceAuthorizations
      q_PruneExpiredDeviceAuthorizations) [?d] [OpRun (fx_uuid 1) (EvConsume 60)]) (fx_uuid 1) = Some ?d"
    by (simp add: sql_get_def sql_Consume_def q_ConsumeDeviceAuthorization_def sql_update_def Let_def fx_device_def)
  have inv: "sql_inv [?d]" by (simp add: sql_inv_def hs)
  have ops: "list_all op_ok [OpRun (fx_uuid 1) (EvConsume 60)]" by (simp add: fx_uuid_wf)
  have get: "sql_get [?d] (fx_uuid 1) = Some ?d" by (simp add: sql_get_def fx_device_def)
  have "terminal (dStatus ?d)" by (simp add: terminal_def)
  from sql_terminal_status_kept[OF inv ops fx_uuid_wf get this run] show ?thesis using run by auto
qed

section \<open>The device flow\<close>

text \<open>
  Property C32: over any store, the token endpoint answers a device with a token only if the client's
  secret was verified, the client owns the record and may use the grant and the scope, the record is
  approved by a subject and not expired, its resource is still the one of its service, its scope is
  still granted to the subject, and the store consumed the record in the same step; the token has the
  scope and the resource of the record, and a refresh token only if the client may refresh.
\<close>

theorem device_token_conditions:
  assumes "handleDeviceToken ops o1 draw now st r = (st', Answer resp)"
  shows "\<exists>clientID client d sub res access refresh st2.
    token_conditions ops o1 now st r clientID client d sub res
    \<and> opConsumeCreate ops (opPoll ops st (dID d) now) (dID d) now
        (device_token o1 clientID sub d now access refresh) = (st2, Inr True)
    \<and> (refresh \<noteq> None \<longrightarrow> clientAllowsGrant client grantRefreshToken)
    \<and> trScope resp = dScope d \<and> trResource resp = dResource d \<and> trAccessToken resp = access"
  using handleDeviceToken_conditions[OF assms] .

theorem device_token_conditions_witness:
  "\<exists>clientID client d sub res. token_conditions fx_ops fx_oauth 60 fx_state fx_token_request clientID client d sub res"
proof -
  obtain st' resp where "handleDeviceToken fx_ops fx_oauth fx_draw 60 fx_state fx_token_request = (st', Answer resp)"
    using is_answerD[OF fx_token_answer] by (metis prod.collapse)
  from device_token_conditions[OF this] show ?thesis by blast
qed



text \<open>
  The approval page changes nothing unless an authenticated subject sends, for a pending
  and unexpired record, the CSRF token made from the cookie of the browser's session and the record.
\<close>

theorem approval_needs_csrf:
  assumes "handleDeviceVerificationPost ops o1 now st subject cookie r = (st', resp)" "st' \<noteq> st"
  shows "\<exists>sub d c. subject = Some sub \<and> \<not> blank (sSub sub) \<and> cookie = Some c
    \<and> opDeviceByUser ops st (trim_space (form_get r ''user_code'')) = Inr (Some d)
    \<and> dStatus d = StatusPending \<and> now < dExpiresAt d
    \<and> trim_space (form_get r ''csrf_token'') = oaHash o1 (c @ ''|'' @ encodeCanonical (dID d))"
  using verification_post_changes[OF assms] csrf_needs_cookie by (fastforce simp: pending_open_def)

definition fx_alice :: authenticated_subject where
  "fx_alice = subject_of_claims
     \<lparr>cSub = ''alice'', cSubjectKey = ''k'', cEmail = [], cName = ''Alice'', cPreferredUsername = ''alice'',
      cAccountBindingID = ''b1'', cAccountBindingClaim = ''acct'', cGroups = [groupMCPUsers]\<rparr>"

definition fx_approve_request :: http_request where
  "fx_approve_request = fx_request POST ''/oauth/device''
     [(''user_code'', ''jklm-npqr''), (''action'', ''approve''),
      (''csrf_token'', deviceCSRFToken (oaHash fx_oauth) (Some ''sess'') fx_pending)] []"

lemma fx_approve_changes:
  "qAudit (fst (handleDeviceVerificationPost fx_ops fx_oauth 60 fx_state (Some fx_alice) (Some ''sess'')
     fx_approve_request)) \<noteq> []"
  unfolding handleDeviceVerificationPost_def approve_device_def fx_ops_sel by code_simp

theorem approval_needs_csrf_witness:
  "\<exists>d. opDeviceByUser fx_ops fx_state (trim_space (form_get fx_approve_request ''user_code'')) = Inr (Some d)
    \<and> dStatus d = StatusPending"
proof -
  let ?res = "handleDeviceVerificationPost fx_ops fx_oauth 60 fx_state (Some fx_alice) (Some ''sess'') fx_approve_request"
  have "fst ?res \<noteq> fx_state"
    using fx_approve_changes by (metis fx_state_def sql_state.select_convs(6))
  then show ?thesis using approval_needs_csrf[of fx_ops fx_oauth 60 fx_state "Some fx_alice" "Some ''sess''"
    fx_approve_request "fst ?res" "snd ?res"] by auto
qed

text \<open>
  The approval page that a subject is shown carries a token which the form, posted from the
  same browser while the record is still pending, is accepted with.
\<close>

theorem shown_page_is_accepted:
  assumes "handleDeviceVerificationGet ops o1 now st (Some sub) cookie userCode = Answer (PageApproval d m csrf)"
    "form_get r ''user_code'' = userCode" "form_get r ''csrf_token'' = csrf" "form_get r ''action'' = ''approve''"
    "formOK r" "\<not> blank (sSub sub)" "csrf \<noteq> []" "trim_space csrf = csrf"
  shows "handleDeviceVerificationPost ops o1 now st (Some sub) cookie r = approve_device ops o1 now st sub d"
proof -
  have d: "opDeviceByUser ops st (trim_space userCode) = Inr (Some d)" "pending_open d now"
    "csrf = deviceCSRFToken (oaHash o1) cookie d"
    using assms(1) by (auto simp: handleDeviceVerificationGet_def renderDeviceApproval_def Let_def
        split: if_splits sum.splits option.splits)
  have "trim_space ''approve'' = ''approve''" by code_simp
  then show ?thesis
    using d assms by (simp add: handleDeviceVerificationPost_def validDeviceCSRFToken_def Let_def)
qed

theorem shown_page_is_accepted_witness:
  "handleDeviceVerificationPost fx_ops fx_oauth 60 fx_state (Some fx_alice) (Some ''sess'') fx_approve_request
   = approve_device fx_ops fx_oauth 60 fx_state fx_alice fx_pending"
proof -
  let ?t = "deviceCSRFToken (oaHash fx_oauth) (Some ''sess'') fx_pending"
  have code: "trim_space ''jklm-npqr'' = ''jklm-npqr''" "normalizeUserCode ''jklm-npqr'' = ''JKLMNPQR''"
    by code_simp+
  have plain: "trim_space ?t = ?t" "?t \<noteq> []" by code_simp+
  have form: "form_get fx_approve_request ''user_code'' = ''jklm-npqr''"
    "form_get fx_approve_request ''csrf_token'' = ?t" "form_get fx_approve_request ''action'' = ''approve''"
    "formOK fx_approve_request"
    by (simp_all add: fx_approve_request_def fx_request_def form_get_def form_values_def)
  have alice: "\<not> blank (sSub fx_alice)" by code_simp
  have "opDeviceByUser fx_ops fx_state ''jklm-npqr'' = Inr (Some fx_pending)"
    by (simp add: fx_ops_sel code fx_state_def fx_crypto_def q_GetDeviceAuthorizationByUserCodeHash_def
        fx_pending_def) (simp add: fx_device_def)
  then have "handleDeviceVerificationGet fx_ops fx_oauth 60 fx_state (Some fx_alice) (Some ''sess'') ''jklm-npqr''
      = Answer (PageApproval fx_pending [] ?t)"
    by (simp add: handleDeviceVerificationGet_def code renderDeviceApproval_def pending_open_def)
       (simp add: fx_pending_def fx_device_def)
  from shown_page_is_accepted[OF this form alice plain(2,1)] show ?thesis .
qed

text \<open>
  A user code is read back from what the subject types as its eight letters and digits,
  without the dash; the codes of two devices differ if their letters and digits differ.
\<close>

theorem user_code_read_back:
  assumes "length buf = 8" "length buf' = 8"
  shows "normalizeUserCode (generateUserCode buf)
      = map (\<lambda>b. user_code_alphabet ! (unat b mod length user_code_alphabet)) buf
    \<and> length (generateUserCode buf) = 9
    \<and> (normalizeUserCode (generateUserCode buf) = normalizeUserCode (generateUserCode buf')
       \<longleftrightarrow> generateUserCode buf = generateUserCode buf')"
proof -
  note n = user_code_normal[OF assms(1)] user_code_normal[OF assms(2)]
  have g: "generateUserCode b = take 4 (normalizeUserCode (generateUserCode b)) @ ''-''
      @ drop 4 (normalizeUserCode (generateUserCode b))" if "length b = 8" for b
    using user_code_normal[OF that] by (simp add: generateUserCode_def Let_def)
  have "normalizeUserCode (generateUserCode buf) = normalizeUserCode (generateUserCode buf')
      \<longleftrightarrow> generateUserCode buf = generateUserCode buf'"
    using g[OF assms(1)] g[OF assms(2)] by metis
  moreover have "length (generateUserCode buf) = 9"
    using assms(1) by (simp add: generateUserCode_def Let_def)
  ultimately show ?thesis using n(1) by blast
qed

theorem user_code_read_back_witness:
  "normalizeUserCode (generateUserCode [0, 1, 2, 3, 4, 5, 6, 255]) = ''ABCDEFG9''"
  using user_code_read_back[of "[0, 1, 2, 3, 4, 5, 6, 255]" "[0, 1, 2, 3, 4, 5, 6, 255]"]
  by (simp add: user_code_alphabet_def)

section \<open>Sessions\<close>


definition fx_code_token :: token where
  "fx_code_token = setTokenInfoResource (new_token\<lparr>tClientID := ''dev'', tUserID := ''alice'',
     tScope := ''mcp:notes'', tCode := ''code1'', tCodeCreateAt := 5, tCodeExpiresIn := 600 * second,
     tRefresh := ''refresh1'', tRefreshCreateAt := 5, tRefreshExpiresIn := hour,
     tAccess := ''access1'', tAccessCreateAt := 5, tAccessExpiresIn := 60 * second\<rparr>) ''https://edge/notes''"

definition fx_sessions :: session_table where
  "fx_sessions = (case sql_Create fx_crypto (fx_uuid 7) [] fx_code_token of Inr t \<Rightarrow> t | Inl _ \<Rightarrow> [])"

definition fx_ctx :: request_context where
  "fx_ctx = \<lparr>expectedResource = ''https://edge/notes'', refreshClientID = ''dev''\<rparr>"

definition fx_get :: "string \<Rightarrow> (go_error, client_info) result" where
  "fx_get = sql_GetByID fx_state"

definition fx_grants :: allowed_fn where
  "fx_grants = sql_AllowedScopes None (qGrants fx_state)"

definition got_token :: "'s \<times> (go_error, token option) result \<Rightarrow> bool" where
  "got_token p = (case snd p of Inr (Some _) \<Rightarrow> True | _ \<Rightarrow> False)"

lemma got_tokenD: "got_token p \<Longrightarrow> \<exists>t tok. p = (t, Inr (Some tok))"
  by (cases p) (auto simp: got_token_def split: sum.splits option.splits)


lemma fx_refresh_answer: "got_token (sql_GetByRefresh fx_crypto fx_get fx_grants fx_ctx fx_sessions ''refresh1'')"
  by code_simp


text \<open>
  A refresh token is exchanged at most once in the same sense.
\<close>

theorem refresh_exchanged_once:
  assumes "sql_GetByRefresh cr g a ctx t refresh = (t', Inr (Some tok))"
    "list_all (\<lambda>op. \<not> brings_refresh cr (cr_hash cr refresh) op) ops"
  shows "snd (sql_GetByRefresh cr g' a' ctx' (foldl (exec_session cr g a) t' ops) refresh) \<noteq> Inr (Some tok')"
  using refresh_single_use_trace[OF assms] .

theorem refresh_exchanged_once_witness:
  "\<not> got_token (sql_GetByRefresh fx_crypto fx_get fx_grants fx_ctx
      (fst (sql_GetByRefresh fx_crypto fx_get fx_grants fx_ctx fx_sessions ''refresh1'')) ''refresh1'')"
proof -
  obtain t tok where 1: "sql_GetByRefresh fx_crypto fx_get fx_grants fx_ctx fx_sessions ''refresh1'' = (t, Inr (Some tok))"
    using got_tokenD[OF fx_refresh_answer] by blast
  from refresh_exchanged_once[OF 1, of "[]"] show ?thesis
    by (auto simp: 1 dest!: got_tokenD) (metis snd_conv)
qed

text \<open>
  A refresh token is exchanged only for the client that was authenticated, while the
  session's client may still ask for its scope and the subject is still granted it, and only for the
  resource the session is bound to.
\<close>

theorem refresh_is_bound:
  assumes "sql_GetByRefresh cr g a ctx t refresh = (t', Inr (Some tok))"
  shows "\<exists>pre. q_get oRefreshHash t (cr_hash cr refresh) = Some pre
    \<and> (refreshClientID ctx = [] \<or> refreshClientID ctx = oClientID pre)
    \<and> validateOAuthSessionAuthorization g a pre = Inr ()
    \<and> (clean_resource (expectedResource ctx) = []
       \<or> clean_resource (expectedResource ctx) = clean_resource (oResource pre))
    \<and> t' = fst (q_consume oRefreshHash t (cr_hash cr refresh))"
  using GetByRefresh_success(2,3)[OF assms]
  by (auto simp: validateRefreshClientBinding_def validateExpectedResourceBinding_def guard_def split: if_splits)

theorem refresh_is_bound_witness:
  "\<exists>pre. q_get oRefreshHash fx_sessions ''h:refresh1'' = Some pre \<and> oClientID pre = ''dev''"
proof -
  obtain t tok where "sql_GetByRefresh fx_crypto fx_get fx_grants fx_ctx fx_sessions ''refresh1'' = (t, Inr (Some tok))"
    using got_tokenD[OF fx_refresh_answer] by blast
  from refresh_is_bound[OF this] show ?thesis by (auto simp: fx_ctx_def fx_crypto_def)
qed

text \<open>
  A token that was stored is loaded back from its access token with the same client,
  subject, scope, resource, secrets and (in whole seconds) lifetime.
\<close>

theorem stored_token_loaded_back:
  assumes "cipher_ok cr" "sql_Create cr newID t tok = Inr t'"
    "\<not> blank (tAccess tok)" "trim_space (tAccess tok) = tAccess tok"
  shows "\<exists>tok'. sql_GetByAccess cr t' (tAccess tok) = Inr (Some tok')
    \<and> tClientID tok' = tClientID tok \<and> tUserID tok' = tUserID tok \<and> tScope tok' = tScope tok
    \<and> tAccess tok' = tAccess tok \<and> tRefresh tok' = trim_space (tRefresh tok)
    \<and> tCode tok' = trim_space (tCode tok)
    \<and> ext_get tok' ''resource'' = clean_resource (tokenInfoResource tok)
    \<and> tAccessExpiresIn tok' = durationFromSeconds (durationToSeconds (tAccessExpiresIn tok))"
  using access_round_trip[OF assms] .

theorem stored_token_loaded_back_witness:
  "\<exists>tok'. sql_GetByAccess fx_crypto fx_sessions ''access1'' = Inr (Some tok') \<and> tUserID tok' = ''alice''"
proof -
  have ne: "fx_sessions \<noteq> []" by code_simp
  then have c: "sql_Create fx_crypto (fx_uuid 7) [] fx_code_token = Inr fx_sessions"
    by (auto simp: fx_sessions_def split: sum.splits)
  have a: "tAccess fx_code_token = ''access1''" "tUserID fx_code_token = ''alice''"
    by (simp_all add: fx_code_token_def setTokenInfoResource_def Let_def)
  have "\<not> blank ''access1''" "trim_space ''access1'' = ''access1''" by code_simp+
  then show ?thesis using stored_token_loaded_back[OF fx_cipher c] a by auto
qed

end
