(* ===== verification/OAuthProperties.thy ===== *)
theory OAuthProperties
  imports EdgeProperties
begin

text \<open>
  The properties of the OAuth endpoints besides the device flow: registration and metadata documents,
  the tokens an operator mints, the checks in front of the OAuth library, and browser logins.
\<close>

section \<open>Clients\<close>


definition fx_registration :: registration_request where
  "fx_registration =
     \<lparr>rrClientID = [], rrClientName = ''app'', rrRedirectURIs = [''https://app/cb''], rrGrantTypes = [],
      rrResponseTypes = [], rrAuthMethod = [], rrScope = []\<rparr>"





text \<open>
  The dialer for client metadata documents connects to port 443 only, and only to an
  address that the host resolves to when all of its addresses are public.
\<close>

theorem metadata_dial_public:
  assumes "dialPublicHTTPSHost net (Some (host, port)) = Inr (addr, p)"
  shows "p = ''443'' \<and> (\<exists>ips ip. lookup_ip net host = Inr ips \<and> Some ip \<in> set ips
    \<and> addr = ipText ip \<and> list_all (\<lambda>a. case a of None \<Rightarrow> False | Some b \<Rightarrow> \<not> blocked_ip b) ips)"
proof -
  obtain ips where ips: "resolvePublicCIMDHost net host = Inr ips"
    using assms by (auto simp: dialPublicHTTPSHost_def result_simps split: if_splits)
  then have "lookup_ip net host = Inr ips"
    "list_all (\<lambda>a. case a of None \<Rightarrow> False | Some b \<Rightarrow> \<not> blocked_ip b) ips"
    by (auto simp: resolvePublicCIMDHost_def list_all_iff list_ex_iff split: sum.splits if_splits option.splits)
  then show ?thesis using dial_public[OF assms] by auto
qed

theorem metadata_dial_public_witness:
  "dialPublicHTTPSHost fx_net (Some (''app'', ''443'')) = Inr (''93.184.216.34'', ''443'')
   \<and> (\<exists>ip. ''93.184.216.34'' = ipText ip \<and> \<not> blocked_ip ip)"
proof -
  have d: "dialPublicHTTPSHost fx_net (Some (''app'', ''443'')) = Inr (''93.184.216.34'', ''443'')"
    by (simp add: dialPublicHTTPSHost_def resolvePublicCIMDHost_def fx_net_def blocked_ip_def)
  then show ?thesis
    using metadata_dial_public[OF d] by (fastforce simp: list_all_iff)
qed

text \<open>
  A metadata document registers a client only from a public HTTPS host, under the URL it
  was fetched from, as a public client without a secret and with scopes of this edge only.
\<close>

theorem metadata_document_conditions:
  assumes "registerClientMetadataDocument ops o1 net fetch now st i = (st', Inr client)"
  shows "\<exists>u c. url_parse net (trim_space i) = Some u \<and> uScheme u = ''https''
    \<and> (\<exists>ips. resolvePublicCIMDHost net (uHostname u) = Inr ips)
    \<and> opCreateClient ops st c [] = (st', None) \<and> rcID c = trim_space i
    \<and> rcAuthMethod c = MethodNone \<and> rcSecret c = []
    \<and> set (rcScopes c) \<subseteq> set (directory_Scopes (oaDirectory o1))
    \<and> opGetClient ops st' (trim_space i) = Inr client"
  using registerClientMetadataDocument_ok[OF assms] by blast

definition fx_fetch :: "string \<Rightarrow> (go_error, nat \<times> registration_request option) result" where
  "fx_fetch u = Inr (200, Some fx_registration)"

lemma fx_metadata_registered:
  "is_ok (snd (registerClientMetadataDocument fx_ops fx_oauth fx_net fx_fetch 60 fx_state ''https://app/cb''))"
  unfolding registerClientMetadataDocument_def fx_ops_sel by code_simp

theorem metadata_document_conditions_witness:
  "\<exists>c st'. opCreateClient fx_ops fx_state c [] = (st', None) \<and> rcAuthMethod c = MethodNone"
proof -
  obtain st' client where
    "registerClientMetadataDocument fx_ops fx_oauth fx_net fx_fetch 60 fx_state ''https://app/cb'' = (st', Inr client)"
    using fx_metadata_registered
    by (cases "registerClientMetadataDocument fx_ops fx_oauth fx_net fx_fetch 60 fx_state ''https://app/cb''";
        cases "snd (registerClientMetadataDocument fx_ops fx_oauth fx_net fx_fetch 60 fx_state ''https://app/cb'')")
       auto
  from metadata_document_conditions[OF this] show ?thesis by blast
qed

section \<open>Operator tokens\<close>

text \<open>
  Whatever number of seconds is asked for, the lifetime of a minted token is positive and at
  most thirty days; for every request whose nanoseconds fit 64 bits it is the requested one.
\<close>

theorem operator_lifetime_bounds:
  "(case operator_ttl n of None \<Rightarrow> True | Some d \<Rightarrow> 0 < d \<and> d \<le> operatorTokenMaxTTL)
   \<and> (0 < n \<and> n * second < 2 ^ 63 \<longrightarrow>
        operator_ttl n = (if n * second \<le> operatorTokenMaxTTL then Some (n * second) else None))"
proof (intro conjI impI)
  show "case operator_ttl n of None \<Rightarrow> True | Some d \<Rightarrow> 0 < d \<and> d \<le> operatorTokenMaxTTL"
    using operator_ttl_bounds[of n] by (cases "operator_ttl n") simp_all
  show "operator_ttl n = (if n * second \<le> operatorTokenMaxTTL then Some (n * second) else None)"
    if "0 < n \<and> n * second < 2 ^ 63"
    using operator_ttl_exact[of n] that by simp
qed

theorem operator_lifetime_bounds_witness:
  "operator_ttl 60 = Some minute"
  using operator_lifetime_bounds[of 60] by (simp add: operatorTokenMaxTTL_def)

text \<open>
  The seconds are multiplied on 64 bits before they are compared with the maximum, so a
  request for more than a billion years is accepted, with an hour or a minute for it.
\<close>

theorem operator_lifetime_wraps:
  "operator_ttl (2 ^ 55) = Some hour \<and> operator_ttl (2 ^ 55 + 60) = Some minute
   \<and> operator_ttl (31 * 24 * 3600) = None"
  using operator_ttl_wraps by (simp add: operator_ttl_def duration_of_seconds_def operatorTokenMaxTTL_def)










section \<open>In front of the OAuth library\<close>

text \<open>
  The library is asked to refresh a token only for a registered client whose secret was
  verified, which may refresh, and whose identifier the session is then compared with.
\<close>

theorem refresh_prechecks:
  assumes "token_checks ops o1 st r = Inr (ctx, r1)" "form_get r ''grant_type'' = grantRefreshToken"
    "\<not> blank (refreshClientID ctx)" "trim_space (refreshClientID ctx) = refreshClientID ctx"
  shows "\<exists>secret client. resolveClientCredentials o1 r1 = Inr (refreshClientID ctx, secret)
    \<and> opGetClient ops st (refreshClientID ctx) = Inr client
    \<and> (\<forall>c. client = Confidential c \<longrightarrow> VerifyPassword (oaHash o1) c secret)
    \<and> clientAllowsGrant client grantRefreshToken"
  using token_checks_refresh[OF assms(1,2)] assms(3,4) by blast

definition fx_refresh_request :: http_request where
  "fx_refresh_request = fx_request POST ''/oauth/token''
     [(''grant_type'', grantRefreshToken), (''client_id'', ''dev''), (''resource'', ''https://edge/notes'')] []"

definition checked_client :: "(nat \<times> string, request_context \<times> http_request) result \<Rightarrow> string" where
  "checked_client res = (case res of Inl _ \<Rightarrow> [] | Inr (ctx, _) \<Rightarrow> refreshClientID ctx)"

lemma fx_refresh_checked: "checked_client (token_checks fx_ops fx_oauth fx_state fx_refresh_request) = ''dev''"
  unfolding token_checks_def prevalidateRefreshClient_def validateClientGrantType_def fx_ops_sel by code_simp

theorem refresh_prechecks_witness:
  "\<exists>client. opGetClient fx_ops fx_state ''dev'' = Inr client \<and> clientAllowsGrant client grantRefreshToken"
proof -
  obtain ctx r1 where c: "token_checks fx_ops fx_oauth fx_state fx_refresh_request = Inr (ctx, r1)"
    "refreshClientID ctx = ''dev''"
    using fx_refresh_checked by (auto simp: checked_client_def split: sum.splits)
  have g: "form_get fx_refresh_request ''grant_type'' = grantRefreshToken"
    by (simp add: fx_refresh_request_def fx_request_def form_get_def form_values_def)
  have "\<not> blank ''dev''" "trim_space ''dev'' = ''dev''" by code_simp+
  then show ?thesis using refresh_prechecks[OF c(1) g] c(2) by auto
qed

text \<open>
  Property C33: an authorize request reaches the library only for a scope that names exactly one
  registered service and is granted to the authenticated subject, with the resource of that service,
  and for a client that may use authorization codes and that scope.
\<close>

theorem authorize_prechecks:
  assumes "authorize_checks ops o1 net fetch now st subject r = (st', Inr (resource, r1))"
  shows "\<exists>resolution client. ResolveScope (oaDirectory o1) (form_get r ''scope'') = Inr resolution
    \<and> resource = rResource resolution \<and> granted o1 st (sSub subject) (form_get r ''scope'')
    \<and> authorize_client ops o1 net fetch now st (form_get r ''client_id'') = (st', Inr client)
    \<and> clientAllowsGrant client grantAuthorizationCode \<and> clientAllowsScope client (form_get r ''scope'')
    \<and> (\<forall>k. k \<noteq> ''resource'' \<longrightarrow> form_get r1 k = form_get r k)"
  using authorize_checks_ok[OF assms] .

definition fx_authorize_request :: http_request where
  "fx_authorize_request = fx_request GET ''/oauth/authorize''
     [(''client_id'', ''dev''), (''scope'', ''mcp:notes'')] []"

lemma fx_authorize_checked:
  "is_ok (snd (authorize_checks fx_ops fx_oauth fx_net fx_fetch 60 fx_state fx_alice fx_authorize_request))"
  unfolding authorize_checks_def authorize_client_def authorize_audit_def fx_ops_sel by code_simp

theorem authorize_prechecks_witness:
  "granted fx_oauth fx_state (sSub fx_alice) (form_get fx_authorize_request ''scope'')"
proof -
  obtain st' res r1 where
    "authorize_checks fx_ops fx_oauth fx_net fx_fetch 60 fx_state fx_alice fx_authorize_request = (st', Inr (res, r1))"
    using fx_authorize_checked unfolding is_ok_iff by (metis prod.collapse)
  from authorize_prechecks[OF this] show ?thesis by blast
qed

section \<open>Browser logins\<close>

text \<open>
  Over SQLite, a completed login authenticates, through its cookie and until its expiry,
  exactly the subject that the identity provider returned; the state it was completed with is
  refused afterwards.
\<close>

theorem login_authenticates_once:
  assumes "handleCallback (sql_login_ops key) a sessionID now later s r = (s', Answer (LoginCompleted i expiry returnTo))"
    "\<not> blank i" "trim_space (cbState r') = trim_space (cbState r)"
  shows "(\<exists>pending claims. arComplete a r pending = Inr claims
      \<and> snd (InjectBrowserSubject (sql_login_ops key) t s' (Some i))
          = (if expiry < t then None else Some (subject_of_claims claims)))
    \<and> snd (handleCallback (sql_login_ops key) a sessionID' now' later' s' r') = JsonError 400 ''invalid_state''"
  using sql_login.login_session[OF assms(1,2)] sql_login.login_state_once[OF assms(1,3)] by blast

definition fx_logins :: sql_logins where
  "fx_logins = \<lparr>slState = fx_state, slPending = [''st'' \<mapsto> \<lparr>prReturnTo = ''/back'', prNonce = ''n'', prExpiresAt = 900\<rparr>],
     slSessions = Map.empty\<rparr>"

definition fx_claims :: identity_claims where
  "fx_claims = \<lparr>cSub = ''alice'', cSubjectKey = ''k'', cEmail = [], cName = ''Alice'',
     cPreferredUsername = ''alice'', cAccountBindingID = [], cAccountBindingClaim = [], cGroups = [groupMCPUsers]\<rparr>"

definition fx_auth :: "sql_logins auth_runtime" where
  "fx_auth = \<lparr>arSessionTTL = 12 * hour, arPendingTTL = 10 * minute, arStart = (\<lambda>_. None),
     arComplete = fixture_Complete fx_claims\<rparr>"

definition fx_callback :: callback_request where
  "fx_callback = \<lparr>cbState = ''st'', cbFixture = ''1'', cbCode = []\<rparr>"

lemma fx_login_completed:
  "\<exists>s'. handleCallback (sql_login_ops (\<lambda>s. s)) fx_auth (Some ''sess'') 60 61 fx_logins fx_callback
     = (s', Answer (LoginCompleted ''sess'' (61 + 12 * hour) ''/back''))"
proof -
  have "trim_space ''st'' = ''st''" by code_simp
  then show ?thesis
    by (simp add: handleCallback_def fx_callback_def sql_login_ops_def sql_GetPendingLogin_def fx_logins_def
        fx_auth_def fixture_Complete_def Let_def)
qed

theorem login_authenticates_once_witness:
  "\<exists>s' c. snd (InjectBrowserSubject (sql_login_ops (\<lambda>s. s)) 100 s' (Some ''sess'')) = Some c"
proof -
  obtain s' where c: "handleCallback (sql_login_ops (\<lambda>s. s)) fx_auth (Some ''sess'') 60 61 fx_logins fx_callback
     = (s', Answer (LoginCompleted ''sess'' (61 + 12 * hour) ''/back''))"
    using fx_login_completed by blast
  have "\<not> blank ''sess''" by code_simp
  from conjunct1[OF login_authenticates_once[OF c this refl, of 100]] show ?thesis by auto
qed

text \<open>
  The identity provider's answer is accepted only with the nonce of the login that was
  started, and the subject and the groups are those of the verified token.
\<close>

theorem login_needs_nonce:
  assumes "oidc_Complete p bindingClaim r pending = Inr claims"
  shows "\<exists>tok. oiExchange p (trim_space (cbCode r)) = Inr tok \<and> itNonce tok = plNonce pending
    \<and> cSub claims = cSub (itClaims tok) \<and> cGroups claims = cGroups (itClaims tok)"
  using oidc_nonce[OF assms] .

definition fx_provider :: oidc_provider where
  "fx_provider = \<lparr>oiReady = None, oiExchange = (\<lambda>_. Inr \<lparr>itClaims = fx_claims, itNonce = ''n'', itRaw = (\<lambda>_. ClaimNil)\<rparr>)\<rparr>"

theorem login_needs_nonce_witness:
  "\<exists>claims. oidc_Complete fx_provider [] \<lparr>cbState = ''st'', cbFixture = [], cbCode = ''c''\<rparr>
      \<lparr>plState = ''st'', plReturnTo = [], plNonce = ''n'', plExpiry = 900\<rparr> = Inr claims
    \<and> cSub claims = ''alice''"
proof -
  let ?r = "\<lparr>cbState = ''st'', cbFixture = [], cbCode = ''c''\<rparr>"
  let ?p = "\<lparr>plState = ''st'', plReturnTo = [], plNonce = ''n'', plExpiry = 900\<rparr>"
  have "trim_space ''c'' = ''c''" by code_simp
  then obtain claims where c: "oidc_Complete fx_provider [] ?r ?p = Inr claims"
    by (simp add: oidc_Complete_def fx_provider_def)
  from login_needs_nonce[OF c] show ?thesis using c by (auto simp: fx_provider_def fx_claims_def)
qed

section \<open>What the two stores do not share\<close>

text \<open>
  After the approval of a device, the subject's account binding is lost in the in-memory
  store, which replaces the stored identity, and kept in the SQLite store, whose upsert keeps what the
  new identity leaves empty.
\<close>

theorem approval_and_account_binding:
  "(trim_space (sSub s) = sSub s \<and> sSub s \<noteq> [] \<longrightarrow>
     map_option cAccountBindingID (mem_UpsertSubject m (subject_claims s) (sSub s)) = Some [])
   \<and> (trim_space (sSub s) = sSub s \<and> sSub s \<noteq> [] \<and> qSubjects st (sSub s) = Some row \<longrightarrow>
     map_option sbAccountBindingID (qSubjects (sql_ensureSubject key st (subject_claims s)) (sSub s))
       = Some (sbAccountBindingID row))"
  by (simp add: mem_UpsertSubject_def subject_claims_def sql_ensureSubject_def q_EdgeUpsertSubject_def
      coalesce_def nullif_empty_def Let_def)

theorem approval_and_account_binding_witness:
  "map_option cAccountBindingID (mem_UpsertSubject Map.empty (subject_claims fx_alice) ''alice'') = Some []"
proof -
  have "sSub fx_alice = ''alice''" by (simp add: fx_alice_def subject_of_claims_def)
  moreover have "trim_space ''alice'' = ''alice''" by code_simp
  ultimately show ?thesis using approval_and_account_binding[of fx_alice Map.empty] by simp
qed

end
