(* ===== verification/Json.thy ===== *)
theory Json
  imports EdgeTypes
begin

text \<open>
  JSON values as encoding/json decodes them into the structs and maps of the source, and the
  inspection of MCP requests (\<^verbatim>\<open>internal/edge/mcp_inspector.go\<close>).  The syntax of JSON is a parameter
  (\<^verbatim>\<open>parse\<close>, from text to value); an object keeps its members in order, duplicates included.
\<close>

datatype json =
    JNull | JBool bool | JNum string | JStr string | JArr "json list"
  | JObj "(string \<times> json) list"

section \<open>Decoding\<close>

text \<open>
  Decoding into a struct matches the names of the members without regard to case, and the last
  match wins; a null leaves the field as it is.  A string field that meets another type is an error.
\<close>

definition string_step :: "string \<Rightarrow> string option \<Rightarrow> string \<times> json \<Rightarrow> string option" where
  "string_step name acc m =
     (if equal_fold (fst m) name
      then (case snd m of JNull \<Rightarrow> acc | JStr s \<Rightarrow> map_option (\<lambda>_. s) acc | _ \<Rightarrow> None)
      else acc)"

definition struct_string :: "string \<Rightarrow> json \<Rightarrow> string option" where
  "struct_string name j =
     (case j of
        JNull \<Rightarrow> Some []
      | JObj ms \<Rightarrow> foldl (string_step name) (Some []) ms
      | _ \<Rightarrow> None)"

text \<open>A field of type \<^verbatim>\<open>json.RawMessage\<close>, or of type any, keeps the value; \<^verbatim>\<open>None\<close>: no such member.\<close>

definition struct_member :: "string \<Rightarrow> json \<Rightarrow> json option" where
  "struct_member name j =
     (case j of
        JObj ms \<Rightarrow> map_of (rev (map (\<lambda>(k, v). (to_lower k, v)) ms)) (to_lower name)
      | _ \<Rightarrow> None)"

text \<open>Decoding into \<^verbatim>\<open>map[string]any\<close>: names are exact, the last one wins.  \<^verbatim>\<open>None\<close>: an error.\<close>

definition decode_map :: "json \<Rightarrow> (string \<rightharpoonup> json) option" where
  "decode_map j =
     (case j of JNull \<Rightarrow> Some Map.empty | JObj ms \<Rightarrow> Some (map_of (rev ms)) | _ \<Rightarrow> None)"

section \<open>The inspection of MCP requests\<close>

record mcp_observation =
  obMethod :: string
  obToolName :: string
  obPrompt :: string
  obResource :: string
  obBatch :: bool
  obBatchSize :: nat
  obMethods :: "string list"
  obToolNames :: "string list"
  obPrompts :: "string list"
  obResources :: "string list"

definition no_observation :: mcp_observation where
  "no_observation =
     \<lparr>obMethod = [], obToolName = [], obPrompt = [], obResource = [], obBatch = False,
      obBatchSize = 0, obMethods = [], obToolNames = [], obPrompts = [], obResources = []\<rparr>"

definition stringParam :: "(string \<rightharpoonup> json) \<Rightarrow> string \<Rightarrow> string" where
  "stringParam params key = (case params key of Some (JStr s) \<Rightarrow> trim_space s | _ \<Rightarrow> [])"

definition append_nonempty :: "string list \<Rightarrow> string \<Rightarrow> string list" where
  "append_nonempty xs x = (if x = [] then xs else xs @ [x])"

definition decodeSingleMCPObservation :: "json option \<Rightarrow> (go_error, mcp_observation) result" where
  "decodeSingleMCPObservation body =
     (case Option.bind body (struct_string ''method'') of
        None \<Rightarrow> Inl (Errorf ''decode mcp request'')
      | Some m \<Rightarrow>
        let method1 = trim_space m;
            o1 = no_observation\<lparr>obMethod := method1\<rparr>
        in (case Option.bind body (struct_member ''params'') of
              None \<Rightarrow> Inr o1
            | Some p \<Rightarrow>
              (case decode_map p of
                 None \<Rightarrow> Inr o1
               | Some params \<Rightarrow>
                 let tool = (if method1 = ''tools/call'' then stringParam params ''name'' else []);
                     prompt = (if method1 = ''prompts/get'' then stringParam params ''name'' else []);
                     resource = (if method1 = ''resources/read'' then stringParam params ''uri'' else [])
                 in Inr (o1\<lparr>obToolName := tool, obPrompt := prompt, obResource := resource,
                       obMethods := [method1], obToolNames := append_nonempty [] tool,
                       obPrompts := append_nonempty [] prompt,
                       obResources := append_nonempty [] resource\<rparr>))))"

definition first_seen :: "string \<Rightarrow> string \<Rightarrow> string" where
  "first_seen old new = (if old = [] then new else old)"

definition observation_merge :: "mcp_observation \<Rightarrow> mcp_observation \<Rightarrow> mcp_observation" where
  "observation_merge o1 item =
     o1\<lparr>obMethod := first_seen (obMethod o1) (obMethod item),
        obMethods := append_nonempty (obMethods o1) (obMethod item),
        obToolName := first_seen (obToolName o1) (obToolName item),
        obToolNames := append_nonempty (obToolNames o1) (obToolName item),
        obPrompt := first_seen (obPrompt o1) (obPrompt item),
        obPrompts := append_nonempty (obPrompts o1) (obPrompt item),
        obResource := first_seen (obResource o1) (obResource item),
        obResources := append_nonempty (obResources o1) (obResource item)\<rparr>"

fun merge_items :: "mcp_observation \<Rightarrow> json list \<Rightarrow> (go_error, mcp_observation) result" where
  "merge_items o1 [] = Inr o1"
| "merge_items o1 (item # rest) =
     bind_result (decodeSingleMCPObservation (Some item)) (\<lambda>i.
       merge_items (observation_merge o1 i) rest)"

definition decodeMCPObservation :: "(string \<Rightarrow> json option) \<Rightarrow> string
    \<Rightarrow> (go_error, mcp_observation) result" where
  "decodeMCPObservation parse body =
     (let trimmed = trim_space body in
      if trimmed = [] then Inr no_observation
      else if hd trimmed = CHR ''[''
      then (case parse trimmed of
              Some (JArr batch) \<Rightarrow>
                merge_items (no_observation\<lparr>obBatch := True, obBatchSize := length batch\<rparr>) batch
            | _ \<Rightarrow> Inl (Errorf ''decode mcp batch request''))
      else decodeSingleMCPObservation (parse trimmed))"

text \<open>
  What the inspection reads of the request: its method, content type, declared length (negative when
  unknown), and its body as the bytes that can be read, with a flag that reading ends in an error.
\<close>

record mcp_request =
  mqMethod :: string
  mqContentType :: string
  mqLength :: int
  mqBody :: "(string \<times> bool) option"

definition maxInspectableMCPBodyBytes :: int where
  "maxInspectableMCPBodyBytes = 2 ^ 20"

definition contains_json :: "string \<Rightarrow> bool" where
  "contains_json s = sublist ''json'' s"

definition restoreRequestBody :: "mcp_request \<Rightarrow> string \<Rightarrow> mcp_request" where
  "restoreRequestBody r body = r\<lparr>mqBody := Some (body, False), mqLength := int (length body)\<rparr>"

definition observeMCPRequest :: "(string \<Rightarrow> json option) \<Rightarrow> mcp_request
    \<Rightarrow> mcp_request \<times> (go_error, mcp_observation) result" where
  "observeMCPRequest parse r =
     (case mqBody r of
        None \<Rightarrow> (r, Inr no_observation)
      | Some (body, broken) \<Rightarrow>
        let contentType = to_lower (trim_space (mqContentType r)) in
        if mqMethod r \<noteq> ''POST'' \<or> (contentType \<noteq> [] \<and> \<not> contains_json contentType)
          \<or> mqLength r < 0 \<or> mqLength r > maxInspectableMCPBodyBytes
        then (r, Inr no_observation)
        else let r' = restoreRequestBody r body in
          if broken then (r', Inl (Errorf ''read mcp request body''))
          else if int (length body) > maxInspectableMCPBodyBytes
          then (r', Inl (Errorf ''mcp request body exceeds inspection limit''))
          else if trim_space body = [] then (r', Inr no_observation)
          else (r', decodeMCPObservation parse body))"

section \<open>Facts\<close>

text \<open>The body that goes upstream is the one that came in.\<close>

lemma observe_keeps_body:
  "map_option fst (mqBody (fst (observeMCPRequest parse r))) = map_option fst (mqBody r)"
  by (cases "mqBody r") (auto simp: observeMCPRequest_def restoreRequestBody_def Let_def)

text \<open>The single values of a batch are the heads of its lists.\<close>

definition heads_agree :: "mcp_observation \<Rightarrow> bool" where
  "heads_agree o1 =
     (obMethod o1 = concat (take 1 (obMethods o1)) \<and> obToolName o1 = concat (take 1 (obToolNames o1))
      \<and> obPrompt o1 = concat (take 1 (obPrompts o1)) \<and> obResource o1 = concat (take 1 (obResources o1))
      \<and> [] \<notin> set (obMethods o1 @ obToolNames o1 @ obPrompts o1 @ obResources o1))"

lemma first_append:
  assumes "x = concat (take 1 xs)" "[] \<notin> set xs"
  shows "first_seen x y = concat (take 1 (append_nonempty xs y))"
    and "[] \<notin> set (append_nonempty xs y)"
  using assms by (cases xs; auto simp: first_seen_def append_nonempty_def)+

lemma heads_agree_merge: "heads_agree o1 \<Longrightarrow> heads_agree (observation_merge o1 i)"
  using first_append by (fastforce simp: heads_agree_def observation_merge_def)

lemma heads_agree_items:
  "merge_items o1 items = Inr o2 \<Longrightarrow> heads_agree o1
   \<Longrightarrow> heads_agree o2 \<and> obBatch o2 = obBatch o1 \<and> obBatchSize o2 = obBatchSize o1
     \<and> length (obMethods o2) \<le> length (obMethods o1) + length items"
proof (induction o1 items rule: merge_items.induct)
  case (2 o1 item rest)
  from 2(2) obtain i where i: "decodeSingleMCPObservation (Some item) = Inr i"
    "merge_items (observation_merge o1 i) rest = Inr o2"
    by (auto simp: bind_result_Inr_iff)
  have "length (obMethods (observation_merge o1 i)) \<le> length (obMethods o1) + 1"
    by (simp add: observation_merge_def append_nonempty_def)
  moreover have "obBatch (observation_merge o1 i) = obBatch o1"
    "obBatchSize (observation_merge o1 i) = obBatchSize o1"
    by (simp_all add: observation_merge_def)
  ultimately show ?case using 2(1)[OF i(2) heads_agree_merge[OF 2(3)]] by fastforce
qed simp

lemma batch_observation:
  assumes "decodeMCPObservation parse body = Inr o1" "hd (trim_space body) = CHR ''[''"
    "trim_space body \<noteq> []"
  shows "heads_agree o1 \<and> obBatch o1 \<and> length (obMethods o1) \<le> obBatchSize o1"
proof -
  let ?start = "\<lambda>batch. no_observation\<lparr>obBatch := True, obBatchSize := length batch\<rparr>"
  from assms obtain batch where "merge_items (?start batch) batch = Inr o1"
    by (auto simp: decodeMCPObservation_def Let_def split: option.splits json.splits)
  moreover have "heads_agree (?start batch)" by (simp add: heads_agree_def no_observation_def)
  ultimately show ?thesis
    using heads_agree_items by (fastforce simp: no_observation_def)
qed

end
