(* ===== verification/Identity.thy ===== *)
theory Identity
  imports OAuthTokens
begin

text \<open>
  The identity context that the gateway adds to upstream requests
  (\<^verbatim>\<open>internal/edge/identity_context.go\<close>): signed headers, and the removal of such headers from what
  the client sent.  A header map is the list of its keys with their values, keys in canonical
  form as net/http produces them.  The MAC (HMAC-SHA256 in base64url), the digest and the reading
  of the secret file are parameters.
\<close>

section \<open>Header maps\<close>

type_synonym http_header = "(string \<times> string list) list"

definition header_token_char :: "char \<Rightarrow> bool" where
  "header_token_char c =
     (c \<in> set (''abcdefghijklmnopqrstuvwxyzABCDEFGHIJKLMNOPQRSTUVWXYZ0123456789-!#$%&*+.^_|~''
        @ [CHR 0x27, CHR 0x60]))"

fun canonical_from :: "bool \<Rightarrow> string \<Rightarrow> string" where
  "canonical_from up [] = []"
| "canonical_from up (c # cs) =
     (if up then to_upper_char c else to_lower_char c) # canonical_from (c = CHR ''-'') cs"

text \<open>\<^verbatim>\<open>http.CanonicalHeaderKey\<close>.\<close>

definition canonical_key :: "string \<Rightarrow> string" where
  "canonical_key s = (if list_all header_token_char s then canonical_from True s else s)"

definition header_Values :: "http_header \<Rightarrow> string \<Rightarrow> string list" where
  "header_Values h k = clamp_some (map_of h (canonical_key k)) []"

definition header_Get :: "http_header \<Rightarrow> string \<Rightarrow> string" where
  "header_Get h k = (case header_Values h k of [] \<Rightarrow> [] | v # _ \<Rightarrow> v)"

definition header_Del :: "string \<Rightarrow> http_header \<Rightarrow> http_header" where
  "header_Del k h = filter (\<lambda>(k', _). k' \<noteq> canonical_key k) h"

definition header_Set :: "string \<Rightarrow> string \<Rightarrow> http_header \<Rightarrow> http_header" where
  "header_Set k v h = put (canonical_key k) [v] h"

definition header_Add :: "string \<Rightarrow> string \<Rightarrow> http_header \<Rightarrow> http_header" where
  "header_Add k v h = put (canonical_key k) (header_Values h k @ [v]) h"

definition canonical_header :: "http_header \<Rightarrow> bool" where
  "canonical_header h = list_all (\<lambda>(k, _). canonical_key k = k) h"

lemma to_lower_upper_char [simp]:
  "to_lower_char (to_upper_char c) = to_lower_char c"
  by (cases "97 \<le> (of_char c :: nat) \<and> (of_char c :: nat) \<le> 122")
     (auto simp: to_lower_char_def to_upper_char_def Let_def)

lemma to_lower_lower_char [simp]: "to_lower_char (to_lower_char c) = to_lower_char c"
  by (cases "65 \<le> (of_char c :: nat) \<and> (of_char c :: nat) \<le> 90")
     (auto simp: to_lower_char_def Let_def)

lemma to_lower_canonical_from: "to_lower (canonical_from up s) = to_lower s"
  by (induction up s rule: canonical_from.induct) (simp_all add: to_lower_def)

lemma to_lower_canonical [simp]: "to_lower (canonical_key s) = to_lower s"
  by (simp add: canonical_key_def to_lower_canonical_from)

lemma map_of_header_Del: "map_of (header_Del k h) = (map_of h)(canonical_key k := None)"
  by (induction h) (auto simp: header_Del_def fun_eq_iff)

lemma map_of_header_Set: "map_of (header_Set k v h) = (map_of h)(canonical_key k \<mapsto> [v])"
  by (simp add: header_Set_def)

lemma map_of_header_Add:
  "map_of (header_Add k v h) = (map_of h)(canonical_key k \<mapsto> header_Values h k @ [v])"
  by (simp add: header_Add_def)

lemma canonical_header_Del: "canonical_header h \<Longrightarrow> canonical_header (header_Del k h)"
  by (auto simp: canonical_header_def header_Del_def list_all_iff)

section \<open>Headers of the identity\<close>

definition identity_key :: "string \<Rightarrow> bool" where
  "identity_key k =
     (let l = to_lower k in has_prefix l ''x-mcp-identity-'' \<or> has_prefix l ''x-mcp-subject-'')"

text \<open>The loop ranges over the keys of the map it deletes from.\<close>

definition stripIdentityContextHeaders :: "http_header \<Rightarrow> http_header" where
  "stripIdentityContextHeaders h =
     foldl (\<lambda>acc k. if identity_key k then header_Del k acc else acc) h (map fst h)"

definition replace_values :: "http_header \<Rightarrow> string \<times> string list \<Rightarrow> http_header" where
  "replace_values h kv = foldl (\<lambda>acc v. header_Add (fst kv) v acc) (header_Del (fst kv) h) (snd kv)"

text \<open>\<^verbatim>\<open>None\<close>: the context of the request holds no identity headers.\<close>

definition applyUpstreamIdentityHeaders :: "http_header \<Rightarrow> http_header option \<Rightarrow> http_header" where
  "applyUpstreamIdentityHeaders h ctx =
     (let stripped = stripIdentityContextHeaders h in
      case ctx of
        None \<Rightarrow> stripped
      | Some hs \<Rightarrow> foldl replace_values stripped hs)"

lemma identity_key_canonical [simp]: "identity_key (canonical_key k) = identity_key k"
  by (simp add: identity_key_def)

lemma map_of_strip_fold:
  "map_of (foldl (\<lambda>acc k. if identity_key k then header_Del k acc else acc) h ks) k'
   = (if \<exists>k \<in> set ks. identity_key k \<and> canonical_key k = k' then None else map_of h k')"
  by (induction ks arbitrary: h) (auto simp: map_of_header_Del)

lemma map_of_strip:
  assumes "canonical_header h"
  shows "map_of (stripIdentityContextHeaders h) k = (if identity_key k then None else map_of h k)"
proof -
  have "canonical_key k0 = k0" if "k0 \<in> set (map fst h)" for k0
    using assms that by (auto simp: canonical_header_def list_all_iff)
  then have "(\<exists>k0 \<in> set (map fst h). identity_key k0 \<and> canonical_key k0 = k)
      \<longleftrightarrow> identity_key k \<and> k \<in> set (map fst h)"
    by metis
  then show ?thesis
    by (auto simp: stripIdentityContextHeaders_def map_of_strip_fold map_of_eq_None_iff)
qed

lemma map_of_add_all:
  "map_of (foldl (\<lambda>acc v. header_Add k v acc) h vs)
   = (if vs = [] then map_of h else (map_of h)(canonical_key k \<mapsto> header_Values h k @ vs))"
  by (induction vs arbitrary: h)
     (auto simp: map_of_header_Add header_Values_def fun_eq_iff)

lemma map_of_replace_values:
  "map_of (replace_values h (k, vs))
   = (map_of h)(canonical_key k := (if vs = [] then None else Some vs))"
  by (auto simp: replace_values_def map_of_add_all map_of_header_Del header_Values_def fun_eq_iff)

lemma map_of_replace_all:
  assumes "distinct (map fst hs)" "canonical_header hs" "list_all (\<lambda>(_, vs). vs \<noteq> []) hs"
  shows "map_of (foldl replace_values h hs) k
    = (case map_of hs k of Some vs \<Rightarrow> Some vs | None \<Rightarrow> map_of h k)"
  using assms
proof (induction hs arbitrary: h)
  case (Cons kv hs)
  obtain k0 vs where kv: "kv = (k0, vs)" by force
  have "map_of hs k0 = None" using Cons.prems(1) by (simp add: kv map_of_eq_None_iff)
  then show ?case
    using Cons by (auto simp: kv map_of_replace_values canonical_header_def split: option.split)
qed simp

lemma map_of_apply:
  assumes "canonical_header h" "distinct (map fst hs)" "canonical_header hs"
    "list_all (\<lambda>(_, vs). vs \<noteq> []) hs"
  shows "map_of (applyUpstreamIdentityHeaders h (Some hs)) k
    = (case map_of hs k of Some vs \<Rightarrow> Some vs | None \<Rightarrow> if identity_key k then None else map_of h k)"
  using assms by (simp add: applyUpstreamIdentityHeaders_def map_of_replace_all map_of_strip split: option.split)

lemma map_of_apply_None:
  assumes "canonical_header h"
  shows "map_of (applyUpstreamIdentityHeaders h None) k = (if identity_key k then None else map_of h k)"
  using assms by (simp add: applyUpstreamIdentityHeaders_def map_of_strip)

section \<open>The signed values\<close>

record identity_values =
  ivVersion :: string
  ivServiceID :: string
  ivSessionID :: string
  ivIssuedAt :: string
  ivSubjectSub :: string
  ivSubjectKey :: string
  ivSubjectEmail :: string
  ivSubjectUsername :: string
  ivSubjectDisplayName :: string
  ivAccountBindingID :: string
  ivAccountBindingClaim :: string

definition newline :: char where
  "newline = CHR 0x0A"

definition clean_char :: "char \<Rightarrow> char" where
  "clean_char c = (if c = CHR 0x0D \<or> c = newline then CHR '' '' else c)"

definition cleanHeaderValue :: "string \<Rightarrow> string" where
  "cleanHeaderValue v = map clean_char (trim_space v)"

definition identity_fields :: "identity_values \<Rightarrow> string list" where
  "identity_fields v =
     [ivVersion v, ivServiceID v, ivSessionID v, ivIssuedAt v, ivSubjectSub v, ivSubjectKey v,
      ivSubjectEmail v, ivSubjectUsername v, ivSubjectDisplayName v, ivAccountBindingID v,
      ivAccountBindingClaim v]"

definition canonicalIdentityHeaderPayload :: "identity_values \<Rightarrow> string" where
  "canonicalIdentityHeaderPayload v = join [newline] (identity_fields v)"

definition signIdentityHeaderValues :: "(string \<Rightarrow> string \<Rightarrow> string) \<Rightarrow> string \<Rightarrow> identity_values \<Rightarrow> string" where
  "signIdentityHeaderValues mac secret v = mac secret (canonicalIdentityHeaderPayload v)"

text \<open>\<^verbatim>\<open>strconv.FormatInt\<close> in base 10.\<close>

definition format_int :: "int \<Rightarrow> string" where
  "format_int n = (if n < 0 then ''-'' @ decimal (nat (- n)) else decimal (nat n))"

text \<open>\<^verbatim>\<open>resolveConfiguredSecret\<close> of auth.go; \<^verbatim>\<open>read\<close> is the content of a file, if it can be read.\<close>

definition resolveConfiguredSecret :: "(string \<Rightarrow> string option) \<Rightarrow> string \<Rightarrow> string
    \<Rightarrow> (go_error, string) result" where
  "resolveConfiguredSecret read secretPath fallback =
     (if \<not> blank fallback then Inr (trim_space fallback)
      else if blank secretPath then Inr []
      else case read secretPath of
          None \<Rightarrow> Inl (Errorf ''read configured secret path'')
        | Some content \<Rightarrow> Inr (trim_space content))"

record identity_env =
  ieRead :: "string \<Rightarrow> string option"
  ieMac :: "string \<Rightarrow> string \<Rightarrow> string"
  ieDigest :: "string \<Rightarrow> string"

definition identity_values_of :: "identity_env \<Rightarrow> catalog_entry \<Rightarrow> identity_claims \<Rightarrow> string \<Rightarrow> time
    \<Rightarrow> identity_values" where
  "identity_values_of env service subject sessionID now =
     \<lparr>ivVersion = ''v1'', ivServiceID = cleanHeaderValue (ServiceID service),
      ivSessionID = cleanHeaderValue sessionID, ivIssuedAt = format_int (time_unix now),
      ivSubjectSub = cleanHeaderValue (cSub subject),
      ivSubjectKey = cleanHeaderValue
        (firstNonEmpty [cSubjectKey subject, DeriveSubjectKey (ieDigest env) (cSub subject)]),
      ivSubjectEmail = cleanHeaderValue (cEmail subject),
      ivSubjectUsername = cleanHeaderValue (cPreferredUsername subject),
      ivSubjectDisplayName = cleanHeaderValue (cName subject),
      ivAccountBindingID = cleanHeaderValue (cAccountBindingID subject),
      ivAccountBindingClaim = cleanHeaderValue (cAccountBindingClaim subject)\<rparr>"

definition identity_names :: "string list" where
  "identity_names =
     [''X-MCP-Identity-Version'', ''X-MCP-Identity-Service-ID'', ''X-MCP-Identity-Session-ID'',
      ''X-MCP-Identity-Issued-At'', ''X-MCP-Subject-Sub'', ''X-MCP-Subject-Key'',
      ''X-MCP-Subject-Email'', ''X-MCP-Subject-Preferred-Username'', ''X-MCP-Subject-Display-Name'',
      ''X-MCP-Subject-Account-Binding-ID'', ''X-MCP-Subject-Account-Binding-Claim'']"

definition identity_headers :: "(string \<Rightarrow> string \<Rightarrow> string) \<Rightarrow> string \<Rightarrow> identity_values \<Rightarrow> http_header" where
  "identity_headers mac secret v =
     header_Set ''X-MCP-Identity-Signature'' (''v1='' @ signIdentityHeaderValues mac secret v)
       (foldl (\<lambda>h (k, x). header_Set k x h) [] (zip identity_names (identity_fields v)))"

text \<open>\<^verbatim>\<open>Inr None\<close>: no headers for this service.  The signer may be nil; otherwise it is its secret path.\<close>

definition signer_Headers :: "identity_env \<Rightarrow> string option \<Rightarrow> catalog_entry \<Rightarrow> identity_claims \<Rightarrow> string
    \<Rightarrow> time \<Rightarrow> (go_error, http_header option) result" where
  "signer_Headers env signer service subject sessionID now =
     (let mode = ModeNormalized (IdentityContext service) in
      if mode = ModeNone then Inr None
      else if mode \<noteq> ModeSignedHeaders then Inl (Errorf ''unsupported identity context mode'')
      else case signer of
          None \<Rightarrow> Inl (Errorf ''identity header secret path is not configured'')
        | Some path \<Rightarrow>
            if blank path then Inl (Errorf ''identity header secret path is not configured'')
            else bind_result (resolveConfiguredSecret (ieRead env) path []) (\<lambda>secret.
              if secret = [] then Inl (Errorf ''identity header secret is empty'')
              else Inr (Some (identity_headers (ieMac env) secret
                (identity_values_of env service subject sessionID now)))))"

definition newIdentityHeaderSigner :: "string \<Rightarrow> string option" where
  "newIdentityHeaderSigner secretPath = Some (trim_space secretPath)"

section \<open>Facts\<close>

definition line_free :: "string \<Rightarrow> bool" where
  "line_free s = (newline \<notin> set s \<and> CHR 0x0D \<notin> set s)"

lemma clean_char_safe [simp]: "clean_char c \<noteq> newline" "clean_char c \<noteq> CHR 0x0D"
  by (simp_all add: clean_char_def newline_def)

lemma cleanHeaderValue_line_free [simp]: "line_free (cleanHeaderValue v)"
  by (auto simp: line_free_def cleanHeaderValue_def dest: sym)

lemma digit_char_safe: "d < 10 \<Longrightarrow> digit_char d \<noteq> newline \<and> digit_char d \<noteq> CHR 0x0D"
  by (auto simp: digit_char_def newline_def dest!: arg_cong[where f = "of_char :: char \<Rightarrow> nat"])

lemma decimal_line_free: "line_free (decimal n)"
proof (induction n rule: less_induct)
  case (less n)
  show ?case
  proof (cases "n < 10")
    case True
    then show ?thesis using digit_char_safe[of n]
      by (subst decimal.simps) (auto simp: line_free_def)
  next
    case False
    then show ?thesis using less[of "n div 10"] digit_char_safe[of "n mod 10"]
      by (subst decimal.simps) (auto simp: line_free_def)
  qed
qed

lemma format_int_line_free [simp]: "line_free (format_int n)"
  using decimal_line_free by (auto simp: format_int_def line_free_def newline_def)

lemma identity_values_line_free:
  "list_all line_free (identity_fields (identity_values_of env service subject sid now))"
proof -
  have "line_free ''v1''" by code_simp
  then show ?thesis by (simp add: identity_fields_def identity_values_of_def)
qed

lemma payload_inject:
  assumes "list_all line_free (identity_fields v)" "list_all line_free (identity_fields w)"
    "canonicalIdentityHeaderPayload v = canonicalIdentityHeaderPayload w"
  shows "v = w"
proof -
  have "split_char newline (canonicalIdentityHeaderPayload x) = identity_fields x"
    if "list_all line_free (identity_fields x)" for x
    unfolding canonicalIdentityHeaderPayload_def
    by (rule split_char_join) (use that in \<open>auto simp: list_all_iff line_free_def identity_fields_def\<close>)
  then have "identity_fields v = identity_fields w" using assms by metis
  then show ?thesis by (simp add: identity_fields_def)
qed

text \<open>The headers that \<^verbatim>\<open>Headers\<close> returns: one value per name, all names canonical.\<close>

lemma identity_names_canonical:
  "map canonical_key identity_names =
     [''X-Mcp-Identity-Version'', ''X-Mcp-Identity-Service-Id'', ''X-Mcp-Identity-Session-Id'',
      ''X-Mcp-Identity-Issued-At'', ''X-Mcp-Subject-Sub'', ''X-Mcp-Subject-Key'',
      ''X-Mcp-Subject-Email'', ''X-Mcp-Subject-Preferred-Username'', ''X-Mcp-Subject-Display-Name'',
      ''X-Mcp-Subject-Account-Binding-Id'', ''X-Mcp-Subject-Account-Binding-Claim'']"
  "canonical_key ''X-MCP-Identity-Signature'' = ''X-Mcp-Identity-Signature''"
  by code_simp+

lemma put_fresh: "k \<notin> fst ` set xs \<Longrightarrow> put k v xs = xs @ [(k, v)]"
  by (induction xs) auto

lemma set_all_fresh:
  assumes "distinct (map fst acc @ map canonical_key ks)" "length ks = length xs"
  shows "foldl (\<lambda>h (k, x). header_Set k x h) acc (zip ks xs)
    = acc @ zip (map canonical_key ks) (map (\<lambda>x. [x]) xs)"
  using assms(2,1)
  by (induction ks xs arbitrary: acc rule: list_induct2)
     (auto simp: header_Set_def put_fresh image_iff)

lemma identity_headers_eq:
  "identity_headers mac secret v =
     zip (map canonical_key identity_names @ [canonical_key ''X-MCP-Identity-Signature''])
       (map (\<lambda>x. [x]) (identity_fields v @ [''v1='' @ mac secret (canonicalIdentityHeaderPayload v)]))"
proof -
  have len: "length identity_names = length (identity_fields v)"
    by (simp add: identity_names_def identity_fields_def)
  have dist: "distinct (map canonical_key identity_names)"
    unfolding identity_names_canonical by code_simp
  have fresh: "canonical_key ''X-MCP-Identity-Signature'' \<notin> set (map canonical_key identity_names)"
    unfolding identity_names_canonical by code_simp
  have "foldl (\<lambda>h (k, x). header_Set k x h) [] (zip identity_names (identity_fields v))
      = zip (map canonical_key identity_names) (map (\<lambda>x. [x]) (identity_fields v))"
    using set_all_fresh[of "[]"] dist len by simp
  moreover have "canonical_key ''X-MCP-Identity-Signature''
      \<notin> fst ` set (zip (map canonical_key identity_names) (map (\<lambda>x. [x]) (identity_fields v)))"
    using fresh by (auto dest: set_zip_leftD)
  ultimately show ?thesis
    using len unfolding identity_headers_def header_Set_def[of "''X-MCP-Identity-Signature''"]
      signIdentityHeaderValues_def
    by (simp add: put_fresh del: map_map)
qed

lemma identity_headers_ok:
  "distinct (map fst (identity_headers mac secret v))"
  "canonical_header (identity_headers mac secret v)"
  "list_all (\<lambda>(_, vs). vs \<noteq> []) (identity_headers mac secret v)"
proof -
  let ?names = "map canonical_key identity_names @ [canonical_key ''X-MCP-Identity-Signature'']"
  have keys: "map fst (identity_headers mac secret v) = ?names"
    unfolding identity_headers_eq by (simp add: identity_names_def identity_fields_def)
  have d: "distinct ?names" unfolding identity_names_canonical by code_simp
  then show "distinct (map fst (identity_headers mac secret v))" using keys by simp
  have "list_all (\<lambda>k. canonical_key k = k) ?names" unfolding identity_names_canonical by code_simp
  then have "list_all (\<lambda>k. canonical_key k = k) (map fst (identity_headers mac secret v))"
    unfolding keys .
  then show "canonical_header (identity_headers mac secret v)"
    by (auto simp: canonical_header_def list_all_iff)
  show "list_all (\<lambda>(_, vs). vs \<noteq> []) (identity_headers mac secret v)"
    unfolding identity_headers_eq by (simp add: identity_names_def identity_fields_def)
qed

lemma identity_headers_keys:
  assumes "map_of (identity_headers mac secret v) k = Some vs"
  shows "identity_key k \<and> (\<exists>x. vs = [x]
    \<and> (x \<in> set (identity_fields v) \<or> x = ''v1='' @ mac secret (canonicalIdentityHeaderPayload v)))"
proof -
  let ?names = "map canonical_key identity_names @ [canonical_key ''X-MCP-Identity-Signature'']"
  have mem: "(k, vs) \<in> set (identity_headers mac secret v)" using assms by (rule map_of_SomeD)
  then have k: "k \<in> set ?names"
    unfolding identity_headers_eq by (rule set_zip_leftD)
  from mem have vs: "vs \<in> (\<lambda>x. [x]) `
      set (identity_fields v @ [''v1='' @ mac secret (canonicalIdentityHeaderPayload v)])"
    unfolding identity_headers_eq by (auto dest: set_zip_rightD)
  have "list_all identity_key ?names" unfolding identity_names_canonical by code_simp
  then show ?thesis using k vs by (auto simp: list_all_iff simp del: map_map)
qed

lemma signer_Headers_conditions:
  assumes "signer_Headers env signer service subject sid now = Inr (Some hs)"
  shows "\<exists>path secret. signer = Some path \<and> IdentityContext service = ModeSignedHeaders
    \<and> resolveConfiguredSecret (ieRead env) path [] = Inr secret \<and> secret \<noteq> []
    \<and> hs = identity_headers (ieMac env) secret (identity_values_of env service subject sid now)"
  using assms
  by (auto simp: signer_Headers_def Let_def ModeNormalized_def result_simps
      split: option.splits if_splits)

lemma signer_Headers_None:
  "signer_Headers env signer service subject sid now = Inr None \<longleftrightarrow> \<not> ModeEnabled (IdentityContext service)"
  by (auto simp: signer_Headers_def Let_def ModeEnabled_def result_simps bind_result_def
      split: option.splits sum.splits)

end
