(* ===== verification/TenantTable.thy ===== *)
theory TenantTable
  imports Json Identity
begin

text \<open>
  The table of tenants that the control plane writes and the edge reads
  (\<^verbatim>\<open>db/migrations\<close>, \<^verbatim>\<open>platformdb\<close>), and the edge's resolution of a service and a subject to
  the address of a tenant (\<^verbatim>\<open>internal/edge/resolver.go\<close>).  Times in the rows are the stored texts; the
  columns \<^verbatim>\<open>created_at\<close> and \<^verbatim>\<open>updated_at\<close>, which no code reads, are left out.  The column
  \<^verbatim>\<open>metadata\<close> holds valid JSON by a constraint of the schema, and is its value here.
\<close>

record tenant_row =
  tnID :: uuid
  tnSubject :: string
  tnService :: string
  tnKey :: string
  tnName :: string
  tnDNS :: string
  tnDesired :: tenant_desired_state
  tnRuntime :: tenant_runtime_state
  tnResource :: "string option"
  tnApplication :: "string option"
  tnUpstream :: "string option"
  tnSecretVersion :: "string option"
  tnHealthyAt :: "string option"
  tnReconciledAt :: "string option"
  tnLastError :: "string option"
  tnMetadata :: json
  tnAttestation :: string
  tnAttestedAt :: "string option"
  tnAttestationID :: "uuid option"
  tnSpecID :: "uuid option"

type_synonym tenant_table = "tenant_row list"

definition tenant_key :: "string \<Rightarrow> string \<Rightarrow> tenant_row \<Rightarrow> bool" where
  "tenant_key sub sid r = (tnSubject r = sub \<and> tnService r = sid)"

text \<open>The constraints of the schema: the identifier, the name, and subject with service are unique.\<close>

definition tenants_ok :: "tenant_table \<Rightarrow> bool" where
  "tenants_ok t =
     (distinct (map tnID t) \<and> distinct (map (\<lambda>r. (tnSubject r, tnService r)) t)
      \<and> distinct (map tnName t))"

definition q_GetTenantUpstream :: "tenant_table \<Rightarrow> string \<Rightarrow> string \<Rightarrow> tenant_row option" where
  "q_GetTenantUpstream t sub sid = find (tenant_key sub sid) t"

lemma tenant_find:
  assumes "tenants_ok t" "r \<in> set t" "tenant_key sub sid r"
  shows "find (tenant_key sub sid) t = Some r"
proof (rule find_unique)
  fix x y
  assume "x \<in> set t" "y \<in> set t" "tenant_key sub sid x" "tenant_key sub sid y"
  then show "x = y"
    using assms(1) by (auto simp: tenants_ok_def tenant_key_def distinct_map inj_on_def)
qed (use assms in auto)

section \<open>Upstream addresses\<close>

record upstream_target =
  utService :: catalog_entry
  utURL :: parsed_url

datatype resolve_error =
    ErrServiceNotFound | ErrTenantNotReady | ErrTenantUpstreamNotConfigured | ErrResolve string

definition tenantRuntimeModeStatic :: "json \<Rightarrow> bool" where
  "tenantRuntimeModeStatic metadata = (struct_string ''runtime_mode'' metadata = Some ''static_upstream'')"

definition allowedTenantUpstreamIP :: "ip_addr \<Rightarrow> bool" where
  "allowedTenantUpstreamIP ip =
     (\<not> ipUnspecified ip \<and> \<not> ipLoopback ip \<and> \<not> ipLinkLocalUnicast ip
      \<and> \<not> ipLinkLocalMulticast ip \<and> \<not> ipMulticast ip)"

text \<open>
  A nil address in the answer of a lookup is \<^verbatim>\<open>None\<close>; it satisfies none of the tests of package net,
  and so it is allowed.
\<close>

definition validateStaticTenantUpstreamHost :: "net_lib \<Rightarrow> string \<Rightarrow> (string, unit) result" where
  "validateStaticTenantUpstreamHost net host =
     (case parse_ip net host of
        Some ip \<Rightarrow> guard (allowedTenantUpstreamIP ip) ''ip address is not allowed''
      | None \<Rightarrow>
        (case lookup_ip net host of
           Inl _ \<Rightarrow> Inl ''host could not be resolved''
         | Inr ips \<Rightarrow>
             if ips = [] then Inl ''host could not be resolved''
             else guard (list_all (\<lambda>ip. case ip of None \<Rightarrow> True | Some a \<Rightarrow> allowedTenantUpstreamIP a) ips)
               ''resolved ip address is not allowed''))"

definition check_provisioned_url :: "catalog_entry \<Rightarrow> tenant_row \<Rightarrow> parsed_url \<Rightarrow> (string, unit) result" where
  "check_provisioned_url service r u =
     (if uScheme u \<noteq> ''http'' then Inl ''scheme does not match provisioned runtime''
      else if uHostname u \<noteq> tnDNS r then Inl ''host does not match internal DNS name''
      else if uPort u \<noteq> format_int (InternalPort service) then Inl ''port does not match service catalog''
      else guard (trim_right slash (uPath u) = trim_right slash (InternalUpstreamPath service))
        ''path does not match service catalog'')"

definition check_upstream_url :: "net_lib \<Rightarrow> catalog_entry \<Rightarrow> tenant_row
    \<Rightarrow> (resolve_error, upstream_target) result" where
  "check_upstream_url net service r =
     (case url_parse net (clamp_some (tnUpstream r) []) of
        None \<Rightarrow> Inl (ErrResolve ''parse tenant upstream url'')
      | Some u \<Rightarrow>
          if uScheme u = [] \<or> uHost u = [] then Inl (ErrResolve ''tenant upstream url is incomplete'')
          else if uScheme u \<noteq> ''http'' \<and> uScheme u \<noteq> ''https''
          then Inl (ErrResolve ''tenant upstream url scheme is not allowed'')
          else case (if tenantRuntimeModeStatic (tnMetadata r)
                     then validateStaticTenantUpstreamHost net (uHostname u)
                     else check_provisioned_url service r u) of
              Inl e \<Rightarrow> Inl (ErrResolve e)
            | Inr _ \<Rightarrow> Inr \<lparr>utService = service, utURL = u\<rparr>)"

text \<open>\<^verbatim>\<open>DatabaseResolver.Resolve\<close>; \<^verbatim>\<open>Inl e\<close> in place of the table is an error of the database.\<close>

definition database_Resolve :: "net_lib \<Rightarrow> catalog_cache \<Rightarrow> (string, tenant_table) result \<Rightarrow> string \<Rightarrow> string
    \<Rightarrow> (resolve_error, upstream_target) result" where
  "database_Resolve net cache tenants serviceID subjectSub =
     (case cache_ServiceByID cache serviceID of
        None \<Rightarrow> Inl ErrServiceNotFound
      | Some service \<Rightarrow>
        (case tenants of
           Inl e \<Rightarrow> Inl (ErrResolve e)
         | Inr t \<Rightarrow>
           (case q_GetTenantUpstream t subjectSub serviceID of
              None \<Rightarrow> Inl ErrTenantUpstreamNotConfigured
            | Some r \<Rightarrow>
                if tnDesired r \<noteq> DesiredEnabled \<or> tnRuntime r \<noteq> RuntimeReady then Inl ErrTenantNotReady
                else if blank (clamp_some (tnUpstream r) []) then Inl ErrTenantUpstreamNotConfigured
                else check_upstream_url net service r)))"

text \<open>\<^verbatim>\<open>FixtureResolver.Resolve\<close>; an upstream may be a nil pointer.\<close>

definition fixture_Resolve :: "(string \<rightharpoonup> catalog_entry) \<Rightarrow> (string \<rightharpoonup> parsed_url option) \<Rightarrow> string \<Rightarrow> string
    \<Rightarrow> (resolve_error, upstream_target) result" where
  "fixture_Resolve services upstreams serviceID subjectSub =
     (case services serviceID of
        None \<Rightarrow> Inl ErrServiceNotFound
      | Some service \<Rightarrow>
        (case upstreams serviceID of
           Some (Some u) \<Rightarrow> Inr \<lparr>utService = service, utURL = u\<rparr>
         | _ \<Rightarrow> Inl ErrTenantUpstreamNotConfigured))"

text \<open>What a resolved address satisfies.\<close>

definition upstream_ok :: "net_lib \<Rightarrow> catalog_entry \<Rightarrow> tenant_row \<Rightarrow> parsed_url \<Rightarrow> bool" where
  "upstream_ok net service r u =
     (url_parse net (clamp_some (tnUpstream r) []) = Some u
      \<and> (if tenantRuntimeModeStatic (tnMetadata r)
         then (uScheme u = ''http'' \<or> uScheme u = ''https'')
            \<and> validateStaticTenantUpstreamHost net (uHostname u) = Inr ()
         else uScheme u = ''http'' \<and> uHostname u = tnDNS r
            \<and> uPort u = format_int (InternalPort service)
            \<and> trim_right slash (uPath u) = trim_right slash (InternalUpstreamPath service)))"

lemma check_upstream_url_ok:
  assumes "check_upstream_url net service r = Inr target"
  shows "utService target = service \<and> upstream_ok net service r (utURL target)"
proof -
  from assms obtain u where u: "url_parse net (clamp_some (tnUpstream r) []) = Some u"
    by (auto simp: check_upstream_url_def split: option.splits)
  then show ?thesis
    using assms
    by (auto simp: check_upstream_url_def check_provisioned_url_def upstream_ok_def
        split: if_splits sum.splits)
qed

lemma database_Resolve_ok:
  assumes "database_Resolve net cache tenants sid sub = Inr target"
  shows "\<exists>t r. tenants = Inr t \<and> r \<in> set t \<and> tnSubject r = sub \<and> tnService r = sid
    \<and> cache_ServiceByID cache sid = Some (utService target)
    \<and> tnDesired r = DesiredEnabled \<and> tnRuntime r = RuntimeReady
    \<and> upstream_ok net (utService target) r (utURL target)"
proof -
  from assms obtain service t r where r: "cache_ServiceByID cache sid = Some service" "tenants = Inr t"
      "q_GetTenantUpstream t sub sid = Some r" "tnDesired r = DesiredEnabled" "tnRuntime r = RuntimeReady"
      "check_upstream_url net service r = Inr target"
    by (auto simp: database_Resolve_def split: option.splits sum.splits if_splits)
  have "r \<in> set t \<and> tenant_key sub sid r"
    using find_first r(3) unfolding q_GetTenantUpstream_def by metis
  then show ?thesis using r check_upstream_url_ok[OF r(6)] by (auto simp: tenant_key_def)
qed

lemma static_host_public:
  assumes "validateStaticTenantUpstreamHost net host = Inr ()"
  shows "(\<exists>ip. parse_ip net host = Some ip \<and> allowedTenantUpstreamIP ip)
    \<or> (\<exists>ips. lookup_ip net host = Inr ips \<and> ips \<noteq> []
         \<and> (\<forall>ip. Some ip \<in> set ips \<longrightarrow> allowedTenantUpstreamIP ip))"
  using assms
  by (auto simp: validateStaticTenantUpstreamHost_def list_all_iff split: option.splits sum.splits if_splits)

end
