(* ===== verification/ServiceRoute.thy ===== *)
theory ServiceRoute
  imports TenantTable BrowserAuth
begin

text \<open>
  The edge's HTTP server (\<^verbatim>\<open>internal/edge/server.go\<close>): from the path of a request to a service, the
  chain of checks in front of its backend, discovery and diagnostics, cross-origin headers, and the
  metadata documents of \<^verbatim>\<open>oauth.go\<close>.  Every answer of a service route carries
  \<^verbatim>\<open>Cache-Control: no-store\<close>; the bodies of answers are reduced to the fields that differ.
\<close>

section \<open>Requests and answers\<close>

record route_request =
  rrHttp :: http_request
  rrMcp :: mcp_request
  rrHeaders :: http_header

text \<open>
  \<^verbatim>\<open>Denied\<close>: status, error code and the challenge of the WWW-Authenticate header.  \<^verbatim>\<open>Forward\<close>: through the
  SSE bridge or through the proxy, to which address, with which identity headers and which body.
\<close>

datatype route_answer =
    Denied nat string "string option"
  | Forward bool upstream_target "http_header option" mcp_request

record 's route_service =
  rtDirectory :: "service_directory option"
  rtBearer :: "'s \<Rightarrow> http_request \<Rightarrow> (go_error, token) result"
  rtGrants :: "('s \<Rightarrow> allowed_fn) option"
  rtIdentity :: "'s \<Rightarrow> string \<Rightarrow> (go_error, identity_claims option) result"
  rtResolve :: "'s \<Rightarrow> string \<Rightarrow> string \<Rightarrow> (resolve_error, upstream_target) result"
  rtSigner :: "string option"
  rtEnv :: identity_env
  rtParse :: "string \<Rightarrow> json option"

text \<open>\<^verbatim>\<open>rtBearer\<close> is \<^verbatim>\<open>ValidationBearerToken\<close> of the OAuth library.\<close>

definition bearerChallenge :: "service_resolution \<Rightarrow> string \<Rightarrow> string" where
  "bearerChallenge res errorCode =
     ''Bearer realm=\"mcp-edge\", error=\"'' @ errorCode @ ''\", scope=\"'' @ rScope res
     @ ''\", resource_metadata=\"'' @ rProtectedResourceMetadataURL res @ ''\"''"

definition route_audit :: "'s edge_ops \<Rightarrow> 's \<Rightarrow> service_resolution \<Rightarrow> string \<Rightarrow> string \<Rightarrow> string \<Rightarrow> 's" where
  "route_audit ops st res actor eventType eventStatus =
     opAudit ops st \<lparr>aeActor = actor, aeService = ServiceID (rService res), aeType = eventType,
       aeStatus = eventStatus\<rparr>"

definition deny :: "'s edge_ops \<Rightarrow> 's \<Rightarrow> service_resolution \<Rightarrow> string \<Rightarrow> string \<Rightarrow> nat \<Rightarrow> string \<Rightarrow> string option
    \<Rightarrow> 's \<times> (route_answer, 'a) result" where
  "deny ops st res actor auditStatus status code1 challenge =
     (route_audit ops st res actor ''mcp.service.access.denied'' auditStatus,
      Inl (Denied status code1 challenge))"

section \<open>The checks\<close>

text \<open>The token, its scope, its resource, and the grant of its subject.\<close>

definition route_token :: "'s edge_ops \<Rightarrow> 's route_service \<Rightarrow> 's \<Rightarrow> service_resolution \<Rightarrow> http_request
    \<Rightarrow> 's \<times> (route_answer, token) result" where
  "route_token ops srv st res r =
     (case rtBearer srv st r of
        Inl e \<Rightarrow> deny ops st res [] ''invalid_token'' 401 ''invalid_token''
                  (Some (bearerChallenge res ''invalid_token''))
      | Inr tk \<Rightarrow>
          if \<not> scopeIncludes (tScope tk) (rScope res)
          then deny ops st res (tUserID tk) ''insufficient_scope'' 403 ''insufficient_scope''
                 (Some (bearerChallenge res ''insufficient_scope''))
          else if tokenInfoResource tk \<noteq> rResource res
          then deny ops st res (tUserID tk) ''invalid_resource'' 401 ''invalid_token''
                 (Some (bearerChallenge res ''invalid_token''))
          else (st, Inr tk))"

definition route_grant :: "'s edge_ops \<Rightarrow> 's route_service \<Rightarrow> 's \<Rightarrow> service_resolution \<Rightarrow> token
    \<Rightarrow> 's \<times> (route_answer, unit) result" where
  "route_grant ops srv st res tk =
     (case rtGrants srv of
        None \<Rightarrow> (st, Inr ())
      | Some allowed \<Rightarrow>
        (case allowed st (tUserID tk) (ServiceID (rService res)) of
           Inl e \<Rightarrow> deny ops st res (tUserID tk) ''authorization_unavailable'' 503
                     ''authorization_unavailable'' None
         | Inr False \<Rightarrow> deny ops st res (tUserID tk) ''service_not_granted'' 403
                         ''service_not_granted'' None
         | Inr True \<Rightarrow> (st, Inr ())))"

text \<open>What the request asks of the backend is recorded; a failure to read it does not stop the request.\<close>

definition route_observe :: "'s edge_ops \<Rightarrow> 's route_service \<Rightarrow> 's \<Rightarrow> service_resolution \<Rightarrow> token
    \<Rightarrow> mcp_request \<Rightarrow> 's \<times> mcp_request" where
  "route_observe ops srv st res tk q =
     (case observeMCPRequest (rtParse srv) q of
        (q', Inl e) \<Rightarrow> (st, q')
      | (q', Inr ob) \<Rightarrow>
          (if obMethod ob \<noteq> []
           then route_audit ops st res (tUserID tk) ''mcp.capability.observed'' ''observed'' else st, q'))"

definition resolve_denial :: "resolve_error \<Rightarrow> nat \<times> string" where
  "resolve_denial e =
     (case e of
        ErrServiceNotFound \<Rightarrow> (404, ''service_not_found'')
      | ErrTenantNotReady \<Rightarrow> (503, ''tenant_not_ready'')
      | ErrTenantUpstreamNotConfigured \<Rightarrow> (503, ''tenant_not_configured'')
      | ErrResolve _ \<Rightarrow> (503, ''tenant_resolution_unavailable''))"

definition route_target :: "'s edge_ops \<Rightarrow> 's route_service \<Rightarrow> 's \<Rightarrow> service_resolution \<Rightarrow> token
    \<Rightarrow> 's \<times> (route_answer, upstream_target) result" where
  "route_target ops srv st res tk =
     (case rtResolve srv st (ServiceID (rService res)) (tUserID tk) of
        Inl e \<Rightarrow> (case resolve_denial e of (status, code1) \<Rightarrow>
                   deny ops st res (tUserID tk) code1 status code1 None)
      | Inr target \<Rightarrow> (st, Inr target))"

definition withUpstreamIdentityContext :: "'s route_service \<Rightarrow> 's \<Rightarrow> catalog_entry \<Rightarrow> string \<Rightarrow> string
    \<Rightarrow> time \<Rightarrow> (go_error, http_header option) result" where
  "withUpstreamIdentityContext srv st service subjectSub sessionID now =
     (if \<not> ModeEnabled (IdentityContext service) then Inr None
      else bind_result (rtIdentity srv st subjectSub) (\<lambda>found.
        signer_Headers (rtEnv srv) (rtSigner srv) service
          (clamp_some found (claims_of_sub subjectSub)) sessionID now))"

definition route_identity :: "'s edge_ops \<Rightarrow> 's route_service \<Rightarrow> 's \<Rightarrow> service_resolution \<Rightarrow> token \<Rightarrow> time
    \<Rightarrow> 's \<times> (route_answer, http_header option) result" where
  "route_identity ops srv st res tk now =
     (case withUpstreamIdentityContext srv st (rService res) (tUserID tk) (tokenInfoSessionID tk) now of
        Inl e \<Rightarrow> deny ops st res (tUserID tk) ''identity_context_unavailable'' 503
                  ''identity_context_unavailable'' None
      | Inr hs \<Rightarrow> (st, Inr hs))"

text \<open>Runs a check and stops at the first answer.\<close>

definition then_do :: "'s \<times> (route_answer, 'a) result \<Rightarrow> ('s \<Rightarrow> 'a \<Rightarrow> 's \<times> route_answer) \<Rightarrow> 's \<times> route_answer" where
  "then_do r f = (case r of (st, Inl a) \<Rightarrow> (st, a) | (st, Inr x) \<Rightarrow> f st x)"

definition handleServiceRoute :: "'s edge_ops \<Rightarrow> 's route_service \<Rightarrow> time \<Rightarrow> 's \<Rightarrow> service_resolution
    \<Rightarrow> route_request \<Rightarrow> 's \<times> route_answer" where
  "handleServiceRoute ops srv now st res r =
     then_do (route_token ops srv st res (rrHttp r)) (\<lambda>st1 tk.
     then_do (route_grant ops srv st1 res tk) (\<lambda>st2 _.
     case route_observe ops srv st2 res tk (rrMcp r) of (st3, q) \<Rightarrow>
     then_do (route_target ops srv st3 res tk) (\<lambda>st4 target.
     then_do (route_identity ops srv st4 res tk now) (\<lambda>st5 hs.
       (route_audit ops st5 res (tUserID tk) ''mcp.service.access.allowed'' ''allowed'',
        Forward (AdapterRequirement (rService res) = AdapterSSEToStreamableHTTP) target hs q)))))"

section \<open>Facts\<close>

lemma deny_not_Inr [simp]: "deny ops st res actor a s c ch \<noteq> (st', Inr x)"
  by (simp add: deny_def)

lemma route_token_Inr:
  "route_token ops srv st res r = (st', Inr tk) \<longleftrightarrow>
     st' = st \<and> rtBearer srv st r = Inr tk \<and> scopeIncludes (tScope tk) (rScope res)
     \<and> tokenInfoResource tk = rResource res"
  by (auto simp: route_token_def split: sum.splits if_splits)

lemma route_grant_Inr:
  "route_grant ops srv st res tk = (st', Inr u) \<longleftrightarrow>
     st' = st \<and> (\<forall>allowed. rtGrants srv = Some allowed \<longrightarrow>
       allowed st (tUserID tk) (ServiceID (rService res)) = Inr True)"
  by (auto simp: route_grant_def split: option.splits sum.splits bool.splits)

lemma route_target_Inr:
  "route_target ops srv st res tk = (st', Inr target) \<longleftrightarrow>
     st' = st \<and> rtResolve srv st (ServiceID (rService res)) (tUserID tk) = Inr target"
  by (auto simp: route_target_def split: sum.splits prod.splits)

lemma route_identity_Inr:
  "route_identity ops srv st res tk now = (st', Inr hs) \<longleftrightarrow>
     st' = st \<and> withUpstreamIdentityContext srv st (rService res) (tUserID tk) (tokenInfoSessionID tk) now
       = Inr hs"
  by (auto simp: route_identity_def split: sum.splits)

text \<open>
  The refusals: status, error code, and the status of the audit event under which each is recorded.
\<close>

definition denial_table :: "(nat \<times> string \<times> string) list" where
  "denial_table =
     [(401, ''invalid_token'', ''invalid_token''), (401, ''invalid_token'', ''invalid_resource''),
      (403, ''insufficient_scope'', ''insufficient_scope''),
      (503, ''authorization_unavailable'', ''authorization_unavailable''),
      (403, ''service_not_granted'', ''service_not_granted''),
      (404, ''service_not_found'', ''service_not_found''),
      (503, ''tenant_not_ready'', ''tenant_not_ready''),
      (503, ''tenant_not_configured'', ''tenant_not_configured''),
      (503, ''tenant_resolution_unavailable'', ''tenant_resolution_unavailable''),
      (503, ''identity_context_unavailable'', ''identity_context_unavailable'')]"

definition denied_as :: "'s edge_ops \<Rightarrow> service_resolution \<Rightarrow> 's \<Rightarrow> route_answer \<Rightarrow> bool" where
  "denied_as ops res st' a =
     (\<exists>st actor auditStatus status code1 challenge. a = Denied status code1 challenge
        \<and> st' = route_audit ops st res actor ''mcp.service.access.denied'' auditStatus
        \<and> (status, code1, auditStatus) \<in> set denial_table)"

lemma deny_denied:
  assumes "deny ops st res actor auditStatus status code1 challenge = (st', Inl a)"
    "(status, code1, auditStatus) \<in> set denial_table"
  shows "denied_as ops res st' a"
  using assms unfolding denied_as_def deny_def by blast

lemma resolve_denial_listed:
  "resolve_denial e = (status, code1) \<Longrightarrow> (status, code1, code1) \<in> set denial_table"
  by (cases e) (auto simp: resolve_denial_def denial_table_def)

lemma denials_listed:
  "(401, ''invalid_token'', ''invalid_token'') \<in> set denial_table"
  "(401, ''invalid_token'', ''invalid_resource'') \<in> set denial_table"
  "(403, ''insufficient_scope'', ''insufficient_scope'') \<in> set denial_table"
  "(503, ''authorization_unavailable'', ''authorization_unavailable'') \<in> set denial_table"
  "(403, ''service_not_granted'', ''service_not_granted'') \<in> set denial_table"
  "(503, ''identity_context_unavailable'', ''identity_context_unavailable'') \<in> set denial_table"
  by (simp_all add: denial_table_def)

lemma route_token_Inl: "route_token ops srv st res r = (st', Inl a) \<Longrightarrow> denied_as ops res st' a"
  by (auto simp: route_token_def split: sum.splits if_splits intro: deny_denied denials_listed)

lemma route_grant_Inl: "route_grant ops srv st res tk = (st', Inl a) \<Longrightarrow> denied_as ops res st' a"
  by (auto simp: route_grant_def split: option.splits sum.splits bool.splits
      intro: deny_denied denials_listed)

lemma route_target_Inl: "route_target ops srv st res tk = (st', Inl a) \<Longrightarrow> denied_as ops res st' a"
  by (auto simp: route_target_def split: sum.splits prod.splits
      intro: deny_denied resolve_denial_listed)

lemma route_identity_Inl:
  "route_identity ops srv st res tk now = (st', Inl a) \<Longrightarrow> denied_as ops res st' a"
  by (auto simp: route_identity_def split: sum.splits intro: deny_denied denials_listed)

lemma then_do_elim:
  assumes "then_do r f = (st', a)" "\<And>st1 b. r = (st1, Inl b) \<Longrightarrow> denied_as ops res st1 b"
    "\<not> denied_as ops res st' a"
  obtains st1 x where "r = (st1, Inr x)" "f st1 x = (st', a)"
  using assms by (cases r; cases "snd r") (auto simp: then_do_def)

lemma denied_not_Forward [simp]: "\<not> denied_as ops res st' (Forward b t hs q)"
  by (simp add: denied_as_def)

text \<open>The two outcomes of the chain.\<close>

definition route_passed :: "'s edge_ops \<Rightarrow> 's route_service \<Rightarrow> time \<Rightarrow> 's \<Rightarrow> service_resolution
    \<Rightarrow> route_request \<Rightarrow> token \<Rightarrow> 's \<Rightarrow> upstream_target \<Rightarrow> http_header option \<Rightarrow> mcp_request \<Rightarrow> bool" where
  "route_passed ops srv now st res r tk st3 target hs q =
     (rtBearer srv st (rrHttp r) = Inr tk \<and> scopeIncludes (tScope tk) (rScope res)
      \<and> tokenInfoResource tk = rResource res
      \<and> (\<forall>allowed. rtGrants srv = Some allowed \<longrightarrow>
           allowed st (tUserID tk) (ServiceID (rService res)) = Inr True)
      \<and> route_observe ops srv st res tk (rrMcp r) = (st3, q)
      \<and> rtResolve srv st3 (ServiceID (rService res)) (tUserID tk) = Inr target
      \<and> withUpstreamIdentityContext srv st3 (rService res) (tUserID tk) (tokenInfoSessionID tk) now = Inr hs)"

lemma handleServiceRoute_cases:
  assumes "handleServiceRoute ops srv now st res r = (st', a)"
  shows "denied_as ops res st' a
    \<or> (\<exists>tk st3 target hs q. route_passed ops srv now st res r tk st3 target hs q
        \<and> st' = route_audit ops st3 res (tUserID tk) ''mcp.service.access.allowed'' ''allowed''
        \<and> a = Forward (AdapterRequirement (rService res) = AdapterSSEToStreamableHTTP) target hs q)"
proof (cases "denied_as ops res st' a")
  case False
  note chain = assms[unfolded handleServiceRoute_def]
  obtain st1 tk where t: "route_token ops srv st res (rrHttp r) = (st1, Inr tk)"
    and c1: "then_do (route_grant ops srv st1 res tk) (\<lambda>st2 _.
      case route_observe ops srv st2 res tk (rrMcp r) of (st3, q) \<Rightarrow>
      then_do (route_target ops srv st3 res tk) (\<lambda>st4 target.
      then_do (route_identity ops srv st4 res tk now) (\<lambda>st5 hs.
       (route_audit ops st5 res (tUserID tk) ''mcp.service.access.allowed'' ''allowed'',
        Forward (AdapterRequirement (rService res) = AdapterSSEToStreamableHTTP) target hs q)))) = (st', a)"
    by (rule then_do_elim[OF chain route_token_Inl False])
  obtain st2 u where g: "route_grant ops srv st1 res tk = (st2, Inr u)"
    and c2: "(case route_observe ops srv st2 res tk (rrMcp r) of (st3, q) \<Rightarrow>
      then_do (route_target ops srv st3 res tk) (\<lambda>st4 target.
      then_do (route_identity ops srv st4 res tk now) (\<lambda>st5 hs.
       (route_audit ops st5 res (tUserID tk) ''mcp.service.access.allowed'' ''allowed'',
        Forward (AdapterRequirement (rService res) = AdapterSSEToStreamableHTTP) target hs q)))) = (st', a)"
    by (rule then_do_elim[OF c1 route_grant_Inl False])
  obtain st3 q where o: "route_observe ops srv st2 res tk (rrMcp r) = (st3, q)" by force
  note c3 = c2[unfolded o prod.case]
  obtain st4 target where tg: "route_target ops srv st3 res tk = (st4, Inr target)"
    and c4: "then_do (route_identity ops srv st4 res tk now) (\<lambda>st5 hs.
       (route_audit ops st5 res (tUserID tk) ''mcp.service.access.allowed'' ''allowed'',
        Forward (AdapterRequirement (rService res) = AdapterSSEToStreamableHTTP) target hs q)) = (st', a)"
    by (rule then_do_elim[OF c3 route_target_Inl False])
  obtain st5 hs where i: "route_identity ops srv st4 res tk now = (st5, Inr hs)"
    and c5: "(route_audit ops st5 res (tUserID tk) ''mcp.service.access.allowed'' ''allowed'',
        Forward (AdapterRequirement (rService res) = AdapterSSEToStreamableHTTP) target hs q) = (st', a)"
    by (rule then_do_elim[OF c4 route_identity_Inl False])
  have "route_passed ops srv now st res r tk st3 target hs q" "st5 = st3"
    using t g o tg i
    by (auto simp: route_passed_def route_token_Inr route_grant_Inr route_target_Inr route_identity_Inr)
  then show ?thesis using c5 by blast
qed simp

lemma route_observe_body:
  "route_observe ops srv st res tk q = (st3, q')
   \<Longrightarrow> map_option fst (mqBody q') = map_option fst (mqBody q)"
  using observe_keeps_body[of "rtParse srv" q]
  by (auto simp: route_observe_def split: prod.splits sum.splits)

end
