(* ===== verification/EdgeServer.thy ===== *)
theory EdgeServer
  imports ServiceRoute
begin

text \<open>
  The rest of the edge's HTTP server (\<^verbatim>\<open>internal/edge/server.go\<close>): dispatch by path, health, discovery,
  the diagnostics of the metadata of services, cross-origin headers and the correlation identifier;
  and the metadata documents of \<^verbatim>\<open>oauth.go\<close>.  Fields of a document that are constants are left out.
\<close>

section \<open>Requests for services\<close>

text \<open>\<^verbatim>\<open>handleServiceRequest\<close>, for every path but the root.\<close>

definition handleServiceRequest :: "'s edge_ops \<Rightarrow> 's route_service \<Rightarrow> time \<Rightarrow> 's \<Rightarrow> route_request
    \<Rightarrow> 's \<times> route_answer" where
  "handleServiceRequest ops srv now st r =
     (case ResolveByPublicPath (rtDirectory srv) (rqPath (rrHttp r)) of
        None \<Rightarrow> (st, Denied 404 ''service_not_found'' None)
      | Some res \<Rightarrow> handleServiceRoute ops srv now st res r)"

section \<open>Metadata of services\<close>

definition absoluteHTTPURL :: "net_lib \<Rightarrow> string \<Rightarrow> bool" where
  "absoluteHTTPURL net rawURL =
     (case url_parse net (trim_space rawURL) of
        None \<Rightarrow> False
      | Some u \<Rightarrow> (uScheme u = ''http'' \<or> uScheme u = ''https'') \<and> uHost u \<noteq> [])"

text \<open>The source ranges over a map of labels, in no fixed order; the model takes them as they are written.\<close>

definition labelled_urls :: "service_resolution \<Rightarrow> (string \<times> string) list" where
  "labelled_urls res =
     [(''resource'', rResource res), (''public_url'', rPublicURL res),
      (''protected_resource_metadata_url'', rProtectedResourceMetadataURL res),
      (''authorization_server'', rAuthorizationServerIssuer res),
      (''authorization_endpoint'', rAuthorizationEndpoint res),
      (''device_authorization_endpoint'', rDeviceAuthorizationEndpoint res),
      (''registration_endpoint'', rRegistrationEndpoint res)]"

definition issue_if :: "bool \<Rightarrow> string \<Rightarrow> string list" where
  "issue_if c s = (if c then [s] else [])"

definition serviceMetadataIssues :: "net_lib \<Rightarrow> service_resolution \<Rightarrow> string list" where
  "serviceMetadataIssues net res =
     issue_if (blank (rServiceID res)) ''missing_service_id''
     @ issue_if (blank (rScope res) \<or> \<not> has_prefix (rScope res) mcp_prefix) ''invalid_scope''
     @ issue_if (blank (rResource res) \<or> rResource res \<noteq> rPublicURL res) ''invalid_resource''
     @ concat (map (\<lambda>(label, u). issue_if (\<not> absoluteHTTPURL net u) (''invalid_'' @ label)) (labelled_urls res))
     @ issue_if (blank (rProtectedResourceMetadataURL res)) ''missing_protected_resource_metadata_url''
     @ issue_if (blank (rAuthorizationServerIssuer res)) ''missing_authorization_server''"

definition diagnosticStatus :: "string list \<Rightarrow> string" where
  "diagnosticStatus issues = (if issues = [] then ''ok'' else ''degraded'')"

definition catalogStatus :: "string \<Rightarrow> string" where
  "catalogStatus lastErr = (if blank lastErr then ''ok'' else ''degraded'')"

text \<open>The overall status, and each service with its issues.\<close>

definition serviceMetadataDiagnostics :: "net_lib \<Rightarrow> service_directory \<Rightarrow> catalog_cache
    \<Rightarrow> string \<times> (service_resolution \<times> string list) list" where
  "serviceMetadataDiagnostics net d cache =
     (case current cache of
        None \<Rightarrow> (''degraded'', [])
      | Some s \<Rightarrow>
          let services = map (\<lambda>e. let res = resolve d e in (res, serviceMetadataIssues net res)) (entries s)
          in (if list_ex (\<lambda>(_, issues). issues \<noteq> []) services then ''degraded'' else ''ok'', services))"

definition canonicalMetadataStatus :: "net_lib \<Rightarrow> service_directory \<Rightarrow> catalog_cache \<Rightarrow> string" where
  "canonicalMetadataStatus net d cache = fst (serviceMetadataDiagnostics net d cache)"

definition handleServiceDiagnostics :: "'s oauth_service \<Rightarrow> net_lib \<Rightarrow> service_directory \<Rightarrow> catalog_cache
    \<Rightarrow> http_request \<Rightarrow> (string \<times> string \<times> (service_resolution \<times> string list) list) response" where
  "handleServiceDiagnostics o1 net d cache r =
     (if rqMethod r \<noteq> GET then JsonError 405 ''method_not_allowed''
      else case requireOperatorToken o1 r of
          Some (status, e) \<Rightarrow> JsonError status e
        | None \<Rightarrow>
            (case serviceMetadataDiagnostics net d cache of (status, services) \<Rightarrow>
               Answer (status, catalogStatus (cache_LastError cache), services)))"

text \<open>Readiness: the status of the answer and its first field; \<^verbatim>\<open>ping\<close> says that the store answers.\<close>

definition handleReadiness :: "bool option \<Rightarrow> catalog_cache \<Rightarrow> nat \<times> string \<times> nat" where
  "handleReadiness ping cache =
     (if ping = Some False then (503, ''not_ready'', cache_Len cache)
      else (200, ''ready'', cache_Len cache))"

definition handleRootDiscovery :: "bool \<Rightarrow> service_directory \<Rightarrow> catalog_cache \<Rightarrow> http_request
    \<Rightarrow> (string \<times> service_resolution list) response" where
  "handleRootDiscovery isHead d cache r =
     (if rqMethod r \<noteq> GET \<and> \<not> isHead then JsonError 405 ''method_not_allowed''
      else Answer (catalogStatus (cache_LastError cache),
        case current cache of None \<Rightarrow> [] | Some s \<Rightarrow> map (resolve d) (entries s)))"

section \<open>Cross-origin requests\<close>

fun allowedCORSOrigin :: "string list \<Rightarrow> string \<Rightarrow> string option" where
  "allowedCORSOrigin [] origin = None"
| "allowedCORSOrigin (allowed # rest) origin =
     (let a = trim_space allowed in
      if a = ''*'' then Some ''*'' else if a = origin then Some origin
      else allowedCORSOrigin rest origin)"

text \<open>The value of \<^verbatim>\<open>Access-Control-Allow-Origin\<close>, and whether the request stops here.\<close>

definition withCORS :: "string list \<Rightarrow> string \<Rightarrow> bool \<Rightarrow> string option \<times> bool" where
  "withCORS origins originHeader isOptions =
     (let origin = trim_space originHeader in
      (if origin = [] then None else allowedCORSOrigin origins origin, isOptions))"

lemma allowedCORSOrigin_iff:
  "allowedCORSOrigin origins origin = Some a \<Longrightarrow>
     a \<in> trim_space ` set origins \<and> (a = ''*'' \<or> a = origin)"
  by (induction origins origin rule: allowedCORSOrigin.induct) (auto simp: Let_def split: if_splits)

text \<open>The correlation identifier of a request: the client's, or a fresh one.\<close>

definition request_correlation :: "string \<Rightarrow> uuid \<Rightarrow> string" where
  "request_correlation header fresh = (if blank header then encodeCanonical fresh else trim_space header)"

section \<open>Metadata documents\<close>

record server_metadata =
  smIssuer :: string
  smAuthorizationEndpoint :: string
  smDeviceEndpoint :: string
  smTokenEndpoint :: string
  smRegistrationEndpoint :: string
  smScopes :: "string list"
  smCIMD :: bool
  smDCR :: bool

definition well_known_server :: string where
  "well_known_server = ''/.well-known/oauth-authorization-server''"

definition well_known_openid :: string where
  "well_known_openid = ''/.well-known/openid-configuration''"

definition well_known_resource :: string where
  "well_known_resource = ''/.well-known/oauth-protected-resource''"

definition serviceResolutionFromWellKnownPath :: "service_directory option \<Rightarrow> string
    \<Rightarrow> (go_error, service_resolution option) result" where
  "serviceResolutionFromWellKnownPath d path =
     (case snd (ResolveWellKnownRef d path well_known_server) of
        Inr x \<Rightarrow> Inr x
      | Inl _ \<Rightarrow>
        (case snd (ResolveWellKnownRef d path well_known_openid) of
           Inr x \<Rightarrow> Inr x
         | Inl _ \<Rightarrow> Inl (Errorf ''unsupported service-scoped path'')))"

definition handleAuthorizationServerMetadata :: "'s oauth_service \<Rightarrow> http_request \<Rightarrow> server_metadata response" where
  "handleAuthorizationServerMetadata o1 r =
     (if rqMethod r \<noteq> GET then JsonError 405 ''method_not_allowed''
      else case serviceResolutionFromWellKnownPath (oaDirectory o1) (rqPath r) of
          Inl _ \<Rightarrow> JsonError 404 ''service_not_found''
        | Inr None \<Rightarrow>
            Answer \<lparr>smIssuer = oaPublicBaseURL o1,
              smAuthorizationEndpoint = oaPublicBaseURL o1 @ ''/oauth/authorize'',
              smDeviceEndpoint = oaPublicBaseURL o1 @ ''/oauth/device_authorization'',
              smTokenEndpoint = oaPublicBaseURL o1 @ ''/oauth/token'',
              smRegistrationEndpoint = oaPublicBaseURL o1 @ ''/oauth/register'',
              smScopes = directory_Scopes (oaDirectory o1), smCIMD = oaCIMDEnabled o1, smDCR = False\<rparr>
        | Inr (Some res) \<Rightarrow>
            Answer \<lparr>smIssuer = rAuthorizationServerIssuer res,
              smAuthorizationEndpoint = rAuthorizationEndpoint res,
              smDeviceEndpoint = rDeviceAuthorizationEndpoint res,
              smTokenEndpoint = oaPublicBaseURL o1 @ ''/oauth/token'',
              smRegistrationEndpoint = rRegistrationEndpoint res,
              smScopes = [rScope res], smCIMD = oaCIMDEnabled o1, smDCR = oaDCREnabled o1\<rparr>)"

record resource_metadata =
  rmResource :: string
  rmAuthorizationServers :: "string list"
  rmScopes :: "string list"
  rmName :: string

definition handleProtectedResourceMetadata :: "'s oauth_service \<Rightarrow> http_request \<Rightarrow> resource_metadata response" where
  "handleProtectedResourceMetadata o1 r =
     (if rqMethod r \<noteq> GET then JsonError 405 ''method_not_allowed''
      else case snd (ResolveWellKnownRef (oaDirectory o1) (rqPath r) well_known_resource) of
          Inl _ \<Rightarrow> JsonError 404 ''service_not_found''
        | Inr (Some res) \<Rightarrow>
            Answer \<lparr>rmResource = rResource res, rmAuthorizationServers = [rAuthorizationServerIssuer res],
              rmScopes = [rScope res], rmName = DisplayName (rService res)\<rparr>
        | Inr None \<Rightarrow>
            Answer \<lparr>rmResource = oaPublicBaseURL o1, rmAuthorizationServers = [oaPublicBaseURL o1],
              rmScopes = directory_Scopes (oaDirectory o1), rmName = ''mcp-edge''\<rparr>)"

section \<open>Facts\<close>

lemma ResolveWellKnownRef_service:
  assumes "directory_ok (Some d)" "e \<in> set (directory_entries (Some d))"
  shows "ResolveWellKnownRef (Some d) (pre @ slash # ServiceID e) pre = (True, Inr (Some (resolve d e)))"
proof -
  note id = directory_entry_id[OF assms]
  have no: "slash \<notin> set (ServiceID e)" using service_id_no(2)[OF id(1)] by (simp add: slash_def)
  have ne: "ServiceID e \<noteq> []" using service_id_nonempty[OF id(1)] .
  have "hd (ServiceID e) \<noteq> slash" "last (ServiceID e) \<noteq> slash"
    using no hd_in_set[OF ne] last_in_set[OF ne] by metis+
  then have trim: "trim_both slash (ServiceID e) = ServiceID e"
    by (intro trim_both_id) auto
  have "ResolveByID (Some d) (ServiceID e) = Some (resolve d e)"
    using ResolveByID_iff[OF assms(1)] assms(2) id by auto
  moreover have "trim_prefix (pre @ slash # ServiceID e) (pre @ [slash]) = ServiceID e"
    using trim_prefix_append[of "pre @ [slash]" "ServiceID e"] by simp
  moreover have "prefix (pre @ [slash]) (pre @ slash # ServiceID e)" by (simp add: prefix_def)
  ultimately show ?thesis
    using no ne trim by (simp add: ResolveWellKnownRef_def contains_char_def Let_def)
qed

lemma well_known_prefixes:
  "\<not> prefix (well_known_openid @ [slash]) (well_known_server @ slash # s)"
  "well_known_openid \<noteq> well_known_server @ slash # s"
  by (simp_all add: well_known_openid_def well_known_server_def)

lemma resource_metadata_of_service:
  assumes "directory_ok (Some d)" "e \<in> set (directory_entries (Some d))"
    "oaDirectory o1 = Some d" "rqMethod r = GET" "rqPath r = well_known_resource @ slash # ServiceID e"
  shows "handleProtectedResourceMetadata o1 r
    = Answer \<lparr>rmResource = rResource (resolve d e),
        rmAuthorizationServers = [rAuthorizationServerIssuer (resolve d e)],
        rmScopes = [rScope (resolve d e)], rmName = DisplayName e\<rparr>"
  using ResolveWellKnownRef_service[OF assms(1,2)] assms(3-5)
  by (simp add: handleProtectedResourceMetadata_def resolve_def Let_def)

lemma server_metadata_of_service:
  assumes "directory_ok (Some d)" "e \<in> set (directory_entries (Some d))"
    "oaDirectory o1 = Some d" "rqMethod r = GET" "rqPath r = well_known_server @ slash # ServiceID e"
  shows "\<exists>m. handleAuthorizationServerMetadata o1 r = Answer m
    \<and> smIssuer m = rAuthorizationServerIssuer (resolve d e) \<and> smScopes m = [rScope (resolve d e)]
    \<and> smDCR m = oaDCREnabled o1"
  using ResolveWellKnownRef_service[OF assms(1,2)] assms(3-5)
  by (simp add: handleAuthorizationServerMetadata_def serviceResolutionFromWellKnownPath_def)

text \<open>The path of a request leads to the service with the longest matching path.\<close>

lemma ResolveByPublicPath_best:
  assumes "ResolveByPublicPath (Some (NewServiceDirectory base (Some c))) path = Some res" "cache_ok c"
  shows "\<exists>s e. current c = Some s \<and> best_match s path e
    \<and> res = resolve (NewServiceDirectory base (Some c)) e \<and> cache_ServiceByID c (ServiceID e) = Some e"
proof -
  from assms(1) obtain e where e: "cache_MatchPublicPath c path = Some e"
    "res = resolve (NewServiceDirectory base (Some c)) e"
    by (auto simp: ResolveByPublicPath_def with_catalog_def NewServiceDirectory_def
        split: option.splits prod.splits)
  then obtain s where s: "current c = Some s" "snapshot_MatchPublicPath s path = Some e"
    by (auto simp: cache_MatchPublicPath_def split: option.splits)
  then obtain es t where new: "newCatalogSnapshot es t = Inr s" using assms(2) by (auto simp: cache_ok_def)
  have best: "best_match s path e" using s(2) match_best[OF new] by simp
  have "snapshot_ok s" using newCatalogSnapshot_ok[OF new] by blast
  then have "cache_ServiceByID c (ServiceID e) = Some e"
    using s(1) best byServiceID_iff
    by (auto simp: cache_ServiceByID_def snapshot_ServiceByID_def best_match_def)
  then show ?thesis using s(1) best e(2) by blast
qed

end
