(* ===== verification/Proxy.thy ===== *)
theory Proxy
  imports EdgeServer
begin

text \<open>
  What goes upstream (\<^verbatim>\<open>internal/edge/proxy.go\<close>): the path and the headers of the forwarded request, the
  check of the endpoint an upstream names, and the handling of server-sent events.  A stream is the
  list of its lines, each with its line end, a last piece without one, and a flag that it ends in an
  error instead of EOF.  Writing to the client does not fail in the model.
\<close>

section \<open>Paths and headers\<close>

definition rewriteProxyPath :: "string \<Rightarrow> string \<Rightarrow> string \<Rightarrow> string" where
  "rewriteProxyPath requestPath publicPath upstreamPath =
     (if requestPath = publicPath then upstreamPath
      else let trimmed = trim_prefix requestPath publicPath in
        if trimmed = [] then upstreamPath
        else if suffix [slash] upstreamPath then upstreamPath @ trim_prefix trimmed [slash]
        else upstreamPath @ trimmed)"

definition sanitizeProxyHeaders :: "http_header \<Rightarrow> http_header" where
  "sanitizeProxyHeaders h =
     header_Set ''Cache-Control'' ''no-store''
       (stripIdentityContextHeaders
         (header_Del ''Accept-Encoding'' (header_Del ''Cookie'' (header_Del ''Authorization'' h))))"

text \<open>The headers and the path that \<^verbatim>\<open>Rewrite\<close> of the proxy sets, from the request's own.\<close>

definition proxy_headers :: "http_header option \<Rightarrow> http_header \<Rightarrow> http_header" where
  "proxy_headers ctx h = applyUpstreamIdentityHeaders (sanitizeProxyHeaders h) ctx"

text \<open>The headers of a request that the SSE bridge posts.\<close>

definition bridge_post_headers :: "http_header option \<Rightarrow> http_header \<Rightarrow> http_header" where
  "bridge_post_headers ctx h =
     proxy_headers ctx (header_Set ''Accept'' ''application/json, text/event-stream''
       (header_Set ''Content-Type'' ''application/json'' h))"

definition bridge_get_headers :: "http_header option \<Rightarrow> http_header \<Rightarrow> http_header" where
  "bridge_get_headers ctx h = proxy_headers ctx (header_Set ''Accept'' ''text/event-stream'' h)"

definition copyResponseHeaders :: "http_header \<Rightarrow> http_header \<Rightarrow> http_header" where
  "copyResponseHeaders dst src = foldl replace_values dst src"

lemma canonical_names:
  "canonical_key ''Authorization'' = ''Authorization''" "canonical_key ''Cookie'' = ''Cookie''"
  "canonical_key ''Accept-Encoding'' = ''Accept-Encoding''"
  "canonical_key ''Cache-Control'' = ''Cache-Control''"
  "canonical_key ''Content-Type'' = ''Content-Type''" "canonical_key ''Accept'' = ''Accept''"
  by code_simp+

lemma not_identity_names:
  "\<not> identity_key ''Authorization''" "\<not> identity_key ''Cookie''" "\<not> identity_key ''Accept-Encoding''"
  "\<not> identity_key ''Cache-Control''"
  by code_simp+

lemma canonical_header_put:
  "canonical_header h \<Longrightarrow> canonical_key k = k \<Longrightarrow> canonical_header (put k v h)"
  by (induction h) (auto simp: canonical_header_def)

lemma canonical_sanitized:
  assumes "canonical_header h"
  shows "canonical_header (sanitizeProxyHeaders h)"
proof -
  have strip: "canonical_header (foldl (\<lambda>acc k. if identity_key k then header_Del k acc else acc) g ks)"
    if "canonical_header g" for g ks
    using that by (induction ks arbitrary: g) (auto intro: canonical_header_Del)
  show ?thesis
    unfolding sanitizeProxyHeaders_def stripIdentityContextHeaders_def header_Set_def canonical_names
    by (intro canonical_header_put strip canonical_header_Del assms canonical_names)
qed

lemma map_of_sanitized:
  assumes "canonical_header h"
  shows "map_of (sanitizeProxyHeaders h) k =
    (if k = ''Cache-Control'' then Some [''no-store'']
     else if identity_key k \<or> k \<in> {''Authorization'', ''Cookie'', ''Accept-Encoding''} then None
     else map_of h k)"
  using assms
  by (auto simp: sanitizeProxyHeaders_def map_of_header_Set map_of_strip canonical_header_Del
      map_of_header_Del canonical_names)

lemma map_of_proxy_headers:
  assumes "canonical_header h"
    "case ctx of None \<Rightarrow> True | Some hs \<Rightarrow>
       distinct (map fst hs) \<and> canonical_header hs \<and> list_all (\<lambda>(_, vs). vs \<noteq> []) hs"
  shows "map_of (proxy_headers ctx h) k =
    (case Option.bind ctx (\<lambda>hs. map_of hs k) of
       Some vs \<Rightarrow> Some vs
     | None \<Rightarrow> if k = ''Cache-Control'' then Some [''no-store'']
         else if identity_key k \<or> k \<in> {''Authorization'', ''Cookie'', ''Accept-Encoding''} then None
         else map_of h k)"
proof (cases ctx)
  case None
  then show ?thesis
    using not_identity_names(4)
    by (simp add: proxy_headers_def map_of_apply_None[OF canonical_sanitized[OF assms(1)]]
        map_of_sanitized[OF assms(1)])
next
  case (Some hs)
  have hs: "distinct (map fst hs)" "canonical_header hs" "list_all (\<lambda>(_, vs). vs \<noteq> []) hs"
    using assms(2) Some by auto
  have applied: "map_of (proxy_headers ctx h) k = (case map_of hs k of Some vs \<Rightarrow> Some vs
      | None \<Rightarrow> if identity_key k then None else map_of (sanitizeProxyHeaders h) k)"
    using Some map_of_apply[OF canonical_sanitized[OF assms(1)] hs] by (simp add: proxy_headers_def)
  show ?thesis
  proof (cases "map_of hs k")
    case None
    show ?thesis
      unfolding applied map_of_sanitized[OF assms(1)]
      using None \<open>ctx = Some hs\<close> not_identity_names(4)
      by (cases "k = ''Cache-Control''"; cases "identity_key k") simp_all
  next
    case (Some vs)
    then show ?thesis using applied \<open>ctx = Some hs\<close> by simp
  qed
qed


text \<open>A path that was routed to a service stays under the path of its backend.\<close>

lemma rewrite_under:
  assumes "path_under path pub"
  shows "prefix up (rewriteProxyPath path pub up)
    \<and> (\<forall>rest. path = pub @ slash # rest \<longrightarrow> rewriteProxyPath path pub up =
         (if suffix [slash] up then up @ rest else up @ slash # rest))"
  using assms
  by (auto simp: rewriteProxyPath_def path_under_def trim_prefix_def Let_def prefix_def)

text \<open>
  The endpoint that an upstream announces: the URL to post to, by its scheme, host, path and query.  An
  announced URL with a scheme must have the scheme and host of the tenant.
\<close>

definition normalizeUpstreamEndpoint :: "net_lib \<Rightarrow> parsed_url \<Rightarrow> string \<Rightarrow> (go_error, parsed_url) result" where
  "normalizeUpstreamEndpoint net target endpoint =
     (case url_parse net endpoint of
        None \<Rightarrow> Inl (Errorf ''parse'')
      | Some u \<Rightarrow>
          if uAbs u
          then (if uScheme u \<noteq> uScheme target \<or> uHost u \<noteq> uHost target
                then Inl (Errorf ''upstream endpoint escapes tenant origin'') else Inr u)
          else if \<not> has_prefix (uPath u) [slash]
          then Inl (Errorf ''upstream endpoint is not absolute-path or same-origin URL'')
          else Inr (target\<lparr>uPath := uPath u, uRawQuery := uRawQuery u\<rparr>))"

lemma endpoint_same_origin:
  "normalizeUpstreamEndpoint net target endpoint = Inr u \<Longrightarrow>
   uScheme u = uScheme target \<and> uHost u = uHost target"
  by (auto simp: normalizeUpstreamEndpoint_def split: option.splits if_splits)

section \<open>Server-sent events\<close>

definition blank_line :: "string \<Rightarrow> bool" where
  "blank_line l = (l = [newline] \<or> l = [CHR 0x0D, newline])"

definition next_event_name :: "string \<Rightarrow> string \<Rightarrow> string" where
  "next_event_name name line =
     (if has_prefix line ''event:'' then trim_space (trim_prefix line ''event:'') else name)"

text \<open>
  \<^verbatim>\<open>copySSEWithoutEndpointEvents\<close>: the loop with the lines of the current event and its name, and what it
  writes.  \<^verbatim>\<open>rest\<close> is the piece after the last line end, \<^verbatim>\<open>eof\<close> whether the stream ends without error.
\<close>

fun copy_sse :: "string list \<Rightarrow> string \<Rightarrow> string list \<Rightarrow> string \<Rightarrow> bool \<Rightarrow> string" where
  "copy_sse evs name [] rest eof =
     (let evs' = (if rest = [] then evs else evs @ [rest]);
          name' = (if rest = [] then name else next_event_name name rest)
      in if eof \<and> evs' \<noteq> [] \<and> name' \<noteq> ''endpoint'' then concat evs' else [])"
| "copy_sse evs name (line # ls) rest eof =
     (if blank_line line
      then (if name \<noteq> ''endpoint'' then concat evs @ line else [])
           @ copy_sse [] ''message'' ls rest eof
      else copy_sse (evs @ [line]) (next_event_name name line) ls rest eof)"

definition copySSEWithoutEndpointEvents :: "string list \<Rightarrow> string \<Rightarrow> bool \<Rightarrow> string" where
  "copySSEWithoutEndpointEvents ls rest eof = copy_sse [] ''message'' ls rest eof"

text \<open>
  The reference: the events of a stream are its lines up to each blank line, the name of an event is that
  of its last event line, and the events with the name endpoint are left out.
\<close>

definition event_name :: "string list \<Rightarrow> string" where
  "event_name ls = foldl next_event_name ''message'' ls"

lemma dropWhile_shorter: "dropWhile P ls = t # later \<Longrightarrow> length later < length ls"
  by (metis Suc_le_lessD length_Cons length_dropWhile_le)

function sse_events :: "string list \<Rightarrow> (string list \<times> string) list" where
  "sse_events ls =
     (case dropWhile (\<lambda>l. \<not> blank_line l) ls of
        [] \<Rightarrow> []
      | t # later \<Rightarrow> (takeWhile (\<lambda>l. \<not> blank_line l) ls, t) # sse_events later)"
  by pat_completeness auto
termination by (relation "measure length") (auto dest: dropWhile_shorter)

declare sse_events.simps [simp del]

definition sse_tail :: "string list \<Rightarrow> string list" where
  "sse_tail ls = rev (takeWhile (\<lambda>l. \<not> blank_line l) (rev ls))"

definition shown_event :: "string list \<Rightarrow> string \<Rightarrow> string" where
  "shown_event ls t = (if event_name ls = ''endpoint'' then [] else concat ls @ t)"

lemma sse_events_blank: "blank_line l \<Longrightarrow> sse_events (l # ls) = ([], l) # sse_events ls"
  by (subst sse_events.simps) simp

lemma sse_events_lines:
  assumes "\<forall>l \<in> set evs. \<not> blank_line l"
  shows "sse_events evs = []"
    and "blank_line l \<Longrightarrow> sse_events (evs @ l # ls) = (evs, l) # sse_events ls"
proof -
  have "dropWhile (\<lambda>l. \<not> blank_line l) evs = []" using assms by (simp add: dropWhile_eq_Nil_conv)
  then show "sse_events evs = []" by (subst sse_events.simps) (simp only: list.case)
  assume "blank_line l"
  then show "sse_events (evs @ l # ls) = (evs, l) # sse_events ls"
    using assms by (subst sse_events.simps) (simp add: dropWhile_append takeWhile_append)
qed

lemma sse_tail_lines:
  assumes "\<forall>l \<in> set evs. \<not> blank_line l"
  shows "sse_tail evs = evs" "blank_line l \<Longrightarrow> sse_tail (evs @ l # ls) = sse_tail ls"
proof -
  have "takeWhile (\<lambda>l. \<not> blank_line l) (rev evs) = rev evs" using assms by (simp add: takeWhile_eq_all_conv)
  then show "sse_tail evs = evs" by (simp only: sse_tail_def rev_rev_ident)
  assume l: "blank_line l"
  have "takeWhile (\<lambda>l. \<not> blank_line l) (rev ls @ l # rev evs) = takeWhile (\<lambda>l. \<not> blank_line l) (rev ls)"
  proof (cases "\<forall>x \<in> set ls. \<not> blank_line x")
    case True
    then have "takeWhile (\<lambda>l. \<not> blank_line l) (rev ls) = rev ls" by (simp add: takeWhile_eq_all_conv)
    moreover have "takeWhile (\<lambda>l. \<not> blank_line l) (rev ls @ l # rev evs) = rev ls"
      using l True takeWhile_append2[of "rev ls" "\<lambda>l. \<not> blank_line l" "l # rev evs"] by simp
    ultimately show ?thesis by (simp only:)
  next
    case False
    then obtain x where "x \<in> set ls" "blank_line x" by blast
    then show ?thesis using takeWhile_append1[of x "rev ls" "\<lambda>l. \<not> blank_line l"] by simp
  qed
  then show "sse_tail (evs @ l # ls) = sse_tail ls" by (simp add: sse_tail_def)
qed

lemma copy_sse_eq:
  assumes "\<forall>l \<in> set evs. \<not> blank_line l"
  shows "copy_sse evs (event_name evs) ls rest eof =
    concat (map (\<lambda>(e, t). shown_event e t) (sse_events (evs @ ls)))
    @ (if eof then shown_event (sse_tail (evs @ ls) @ (if rest = [] then [] else [rest])) [] else [])"
  using assms
proof (induction evs "event_name evs" ls rest eof rule: copy_sse.induct)
  case (1 evs rest eof)
  then show ?case
    by (simp add: sse_events_lines sse_tail_lines shown_event_def event_name_def Let_def)
next
  case (2 evs line ls rest eof)
  show ?case
  proof (cases "blank_line line")
    case True
    have "copy_sse [] ''message'' ls rest eof =
      concat (map (\<lambda>(e, t). shown_event e t) (sse_events ls))
      @ (if eof then shown_event (sse_tail ls @ (if rest = [] then [] else [rest])) [] else [])"
      using 2(1)[OF True] by (simp add: event_name_def)
    then show ?thesis
      using True 2(3) by (simp add: sse_events_lines sse_tail_lines shown_event_def[of evs])
  next
    case False
    have "event_name (evs @ [line]) = next_event_name (event_name evs) line"
      by (simp add: event_name_def)
    then show ?thesis using 2(2)[OF False] False 2(3) by simp
  qed
qed

lemma copySSE_filters:
  "copySSEWithoutEndpointEvents ls rest eof =
    concat (map (\<lambda>(e, t). shown_event e t) (sse_events ls))
    @ (if eof then shown_event (sse_tail ls @ (if rest = [] then [] else [rest])) [] else [])"
  using copy_sse_eq[of "[]" ls rest eof] by (simp add: copySSEWithoutEndpointEvents_def event_name_def)

section \<open>Reading from the stream\<close>

text \<open>
  The endpoint event: the loop and what is left of the lines.  \<^verbatim>\<open>Inl\<close>: the stream ended, or the event is empty.
\<close>

fun readSSEEndpointEventBlocking :: "bool \<Rightarrow> string list \<Rightarrow> string list \<times> (go_error, string) result" where
  "readSSEEndpointEventBlocking expect [] = ([], Inl (Errorf ''EOF''))"
| "readSSEEndpointEventBlocking expect (line # ls) =
     (if has_prefix line ''event:''
      then readSSEEndpointEventBlocking (trim_space (trim_prefix line ''event:'') = ''endpoint'') ls
      else if expect \<and> has_prefix line ''data:''
      then (let v = trim_space (trim_prefix line ''data:'') in
            (ls, if v = [] then Inl (Errorf ''empty upstream endpoint event'') else Inr v))
      else readSSEEndpointEventBlocking (if blank_line line then False else expect) ls)"

definition jsonRPCID :: "(string \<Rightarrow> json option) \<Rightarrow> string \<Rightarrow> json option" where
  "jsonRPCID parse body =
     (case Option.bind (parse body) (struct_member ''id'') of
        Some JNull \<Rightarrow> None | x \<Rightarrow> x)"

definition jsonRPCMethod :: "(string \<Rightarrow> json option) \<Rightarrow> string \<Rightarrow> string option" where
  "jsonRPCMethod parse body =
     (case Option.bind (parse body) (struct_string ''method'') of
        Some m \<Rightarrow> if m = [] then None else Some m | None \<Rightarrow> None)"

definition jsonRPCBatch :: "(string \<Rightarrow> json option) \<Rightarrow> string \<Rightarrow> bool" where
  "jsonRPCBatch parse body =
     (case parse body of Some (JArr _) \<Rightarrow> True | Some JNull \<Rightarrow> True | _ \<Rightarrow> False)"

text \<open>The response to a request; \<^verbatim>\<open>show\<close> is \<^verbatim>\<open>fmt.Sprint\<close> of a decoded value.\<close>

fun readSSEJSONRPCResponseBlocking :: "(string \<Rightarrow> json option) \<Rightarrow> (json \<Rightarrow> string) \<Rightarrow> json option
    \<Rightarrow> string list \<Rightarrow> string list \<times> (go_error, string) result" where
  "readSSEJSONRPCResponseBlocking parse shw requestID [] = ([], Inl (Errorf ''EOF''))"
| "readSSEJSONRPCResponseBlocking parse shw requestID (line # ls) =
     (if \<not> has_prefix line ''data:'' then readSSEJSONRPCResponseBlocking parse shw requestID ls
      else let payload = trim_space (trim_prefix line ''data:'') in
        if payload = [] \<or> payload = ''[DONE]'' then readSSEJSONRPCResponseBlocking parse shw requestID ls
        else case requestID of
            None \<Rightarrow> (ls, Inr payload)
          | Some rid \<Rightarrow>
              (case jsonRPCID parse payload of
                 Some i \<Rightarrow> if shw i = shw rid then (ls, Inr payload)
                           else readSSEJSONRPCResponseBlocking parse shw requestID ls
               | None \<Rightarrow> readSSEJSONRPCResponseBlocking parse shw requestID ls))"

text \<open>A response is the first data line of the stream that carries the identifier of the request.\<close>

definition answers_request :: "(string \<Rightarrow> json option) \<Rightarrow> (json \<Rightarrow> string) \<Rightarrow> json \<Rightarrow> string \<Rightarrow> bool" where
  "answers_request parse shw rid line =
     (has_prefix line ''data:''
      \<and> (let payload = trim_space (trim_prefix line ''data:'') in
         payload \<noteq> [] \<and> payload \<noteq> ''[DONE]''
         \<and> (case jsonRPCID parse payload of Some i \<Rightarrow> shw i = shw rid | None \<Rightarrow> False)))"

lemma read_response_first:
  "readSSEJSONRPCResponseBlocking parse shw (Some rid) ls =
     (case dropWhile (\<lambda>l. \<not> answers_request parse shw rid l) ls of
        [] \<Rightarrow> ([], Inl (Errorf ''EOF''))
      | line # rest \<Rightarrow> (rest, Inr (trim_space (trim_prefix line ''data:''))))"
  by (induction ls) (auto simp: answers_request_def Let_def split: option.splits)

section \<open>The sessions of the bridge\<close>

text \<open>
  A session is known by its identifier; \<^verbatim>\<open>ssHandle\<close> stands for the pointer and for the upstream
  connection it owns.  \<^verbatim>\<open>brClosed\<close> lists the connections in the order they were closed.
\<close>

record sse_session =
  ssHandle :: nat
  ssID :: string
  ssEndpoint :: parsed_url
  ssLastUsed :: time

record bridge =
  brSessions :: "sse_session list"
  brClosed :: "nat list"

definition sseBridgeSessionIdleTimeout :: duration where
  "sseBridgeSessionIdleTimeout = 10 * minute"

definition sseBridgeMaxSessions :: nat where
  "sseBridgeMaxSessions = 128"

definition drop_sessions :: "(sse_session \<Rightarrow> bool) \<Rightarrow> bridge \<Rightarrow> bridge" where
  "drop_sessions P b =
     b\<lparr>brSessions := filter (\<lambda>s. \<not> P s) (brSessions b),
       brClosed := brClosed b @ map ssHandle (filter P (brSessions b))\<rparr>"

definition pruneIdleSessions :: "time \<Rightarrow> bridge \<Rightarrow> bridge" where
  "pruneIdleSessions now b = drop_sessions (\<lambda>s. now - ssLastUsed s > sseBridgeSessionIdleTimeout) b"

text \<open>The session that was used longest ago; the source takes any of several.\<close>

fun oldest_session :: "sse_session list \<Rightarrow> sse_session option" where
  "oldest_session [] = None"
| "oldest_session (s # ss) =
     (case oldest_session ss of
        None \<Rightarrow> Some s
      | Some o1 \<Rightarrow> if ssLastUsed o1 < ssLastUsed s then Some o1 else Some s)"

lemma oldest_session_in: "oldest_session ss = Some s \<Longrightarrow> s \<in> set ss \<and> (\<forall>x \<in> set ss. ssLastUsed s \<le> ssLastUsed x)"
proof (induction ss arbitrary: s)
  case (Cons a ss)
  show ?case
  proof (cases "oldest_session ss")
    case None
    then have "ss = []" by (cases ss) (auto split: option.splits if_splits)
    then show ?thesis using Cons.prems by simp
  next
    case (Some o1)
    then show ?thesis using Cons.IH[OF Some] Cons.prems by (fastforce split: if_splits)
  qed
qed simp

lemma oldest_session_None: "oldest_session ss = None \<longleftrightarrow> ss = []"
  by (cases ss) (auto split: option.split)

function evictOldest :: "nat \<Rightarrow> bridge \<Rightarrow> bridge" where
  "evictOldest m b =
     (if length (brSessions b) \<le> m then b
      else case oldest_session (brSessions b) of
          None \<Rightarrow> b
        | Some o1 \<Rightarrow> evictOldest m (drop_sessions (\<lambda>s. ssID s = ssID o1) b))"
  by pat_completeness auto
termination
proof (relation "measure (\<lambda>(m, b). length (brSessions b))")
  fix m :: nat and b :: bridge and o1
  assume "oldest_session (brSessions b) = Some o1"
  then have "o1 \<in> set (brSessions b)" using oldest_session_in by blast
  then have "length (filter (\<lambda>s. ssID s \<noteq> ssID o1) (brSessions b)) < length (brSessions b)"
    by (intro length_filter_less[where x = o1]) auto
  then show "((m, drop_sessions (\<lambda>s. ssID s = ssID o1) b), m, b) \<in> measure (\<lambda>(m, b). length (brSessions b))"
    by (simp add: drop_sessions_def)
qed simp

declare evictOldest.simps [simp del]

datatype session_error = SessionNotFound | SessionFailed go_error

text \<open>
  \<^verbatim>\<open>draw\<close>: the random identifier, if it can be drawn.  \<^verbatim>\<open>opened\<close>: the connection that is opened upstream, with
  the endpoint it announced; a connection that announces none is closed where it was opened.
\<close>

definition insert_session :: "sse_session \<Rightarrow> bridge \<Rightarrow> bridge" where
  "insert_session s b =
     (let b' = drop_sessions (\<lambda>x. ssID x = ssID s) b
      in evictOldest sseBridgeMaxSessions (b'\<lparr>brSessions := brSessions b' @ [s]\<rparr>))"

definition touch :: "string \<Rightarrow> time \<Rightarrow> sse_session \<Rightarrow> sse_session" where
  "touch i t x = (if ssID x = i then x\<lparr>ssLastUsed := t\<rparr> else x)"

definition sessionForRequest :: "string option \<Rightarrow> (go_error, nat \<times> parsed_url) result \<Rightarrow> time \<Rightarrow> bridge
    \<Rightarrow> string \<Rightarrow> bool \<Rightarrow> bridge \<times> (session_error, sse_session) result" where
  "sessionForRequest draw opened now b sessionID initialize =
     (let b1 = pruneIdleSessions now b in
      if sessionID \<noteq> [] \<and> \<not> initialize
      then (case find (\<lambda>s. ssID s = sessionID) (brSessions b1) of
              None \<Rightarrow> (b1, Inl SessionNotFound)
            | Some s \<Rightarrow>
                (b1\<lparr>brSessions := map (touch sessionID now) (brSessions b1)\<rparr>,
                 Inr (s\<lparr>ssLastUsed := now\<rparr>)))
      else case draw of
          None \<Rightarrow> (b1, Inl (SessionFailed (Errorf ''rand'')))
        | Some newID \<Rightarrow>
          (case opened of
             Inl e \<Rightarrow> (b1, Inl (SessionFailed e))
           | Inr (h, u) \<Rightarrow>
               let s = \<lparr>ssHandle = h, ssID = newID, ssEndpoint = u, ssLastUsed = now\<rparr>
               in (insert_session s b1, Inr s)))"

text \<open>Removes a session if the table still holds it, and closes it in any case.\<close>

definition removeSession :: "sse_session \<Rightarrow> bridge \<Rightarrow> bridge" where
  "removeSession s b =
     b\<lparr>brSessions := filter (\<lambda>x. \<not> (ssID x = ssID s \<and> ssHandle x = ssHandle s)) (brSessions b),
       brClosed := brClosed b @ [ssHandle s]\<rparr>"

definition bridge_Close :: "bridge \<Rightarrow> bridge" where
  "bridge_Close b = drop_sessions (\<lambda>_. True) b"

text \<open>\<^verbatim>\<open>handleDelete\<close>: the status that is written.\<close>

definition handleDelete :: "string \<Rightarrow> bridge \<Rightarrow> bridge \<times> nat" where
  "handleDelete header b =
     (let sessionID = trim_space header in
      if sessionID = [] then (b, 400) else (drop_sessions (\<lambda>s. ssID s = sessionID) b, 204))"

subsection \<open>Posting to a session\<close>

datatype transport_error = TransportTimeout | TransportCanceled | TransportOther

text \<open>
  What the transport returns for a posted request: an error, or a status, the headers and a body
  that may fail to be read.
\<close>

datatype upstream_reply =
    ReplyError transport_error
  | Reply int http_header "string option"

text \<open>\<^verbatim>\<open>BridgeError\<close>: status and code.  \<^verbatim>\<open>BridgeSilent\<close>: the client has gone, nothing is written.\<close>

datatype bridge_answer =
    BridgeError nat string
  | BridgeSilent
  | BridgeReply int http_header "string option" string

definition writeUpstreamTransportError :: "transport_error \<Rightarrow> bridge_answer" where
  "writeUpstreamTransportError e =
     (if e = TransportTimeout then BridgeError 504 ''upstream_timeout''
      else BridgeError 502 ''upstream_proxy_failed'')"

definition protocol_error :: "transport_error \<Rightarrow> bridge_answer" where
  "protocol_error e =
     (case e of
        TransportCanceled \<Rightarrow> BridgeSilent
      | TransportTimeout \<Rightarrow> BridgeError 504 ''upstream_protocol_timeout''
      | TransportOther \<Rightarrow> BridgeError 502 ''upstream_protocol_error'')"

text \<open>The headers of the answer: \<^verbatim>\<open>wh\<close> is what the response carries already.\<close>

definition reply_headers :: "http_header \<Rightarrow> string \<Rightarrow> http_header \<Rightarrow> http_header" where
  "reply_headers wh sid h =
     header_Del ''Content-Length''
       (header_Set ''MCP-Session-Id'' sid
         (header_Set ''Cache-Control'' ''no-store''
           (copyResponseHeaders (header_Set ''MCP-Session-Id'' sid wh) h)))"

text \<open>
  \<^verbatim>\<open>forwardSessionPost\<close>: \<^verbatim>\<open>reply\<close> is what the transport returns, \<^verbatim>\<open>wait\<close> what the reading of the session's stream
  returns when the reply has no body (an error closes the stream).
\<close>

definition forwardSessionPost :: "(string \<Rightarrow> json option) \<Rightarrow> http_header \<Rightarrow> upstream_reply \<Rightarrow> (transport_error, string) result
    \<Rightarrow> bridge \<Rightarrow> sse_session \<Rightarrow> string \<Rightarrow> bridge \<times> bridge_answer" where
  "forwardSessionPost parse wh reply wait b s requestBody =
     (case reply of
        ReplyError e \<Rightarrow> (removeSession s b, writeUpstreamTransportError e)
      | Reply status h body \<Rightarrow>
        (case body of
           None \<Rightarrow> (removeSession s b, BridgeError 502 ''upstream_proxy_failed'')
         | Some text1 \<Rightarrow>
             if trim_space text1 = [] \<and> 200 \<le> status \<and> status < 300
             then (if jsonRPCID parse requestBody = None
                   then (b, BridgeReply status (reply_headers wh (ssID s) h) None (ssID s))
                   else case wait of
                       Inl e \<Rightarrow> (removeSession s b, protocol_error e)
                     | Inr payload \<Rightarrow>
                         (b, BridgeReply 200 (reply_headers wh (ssID s)
                               (header_Set ''Content-Type'' ''application/json'' h)) (Some payload) (ssID s)))
             else (b, BridgeReply status (reply_headers wh (ssID s) h) (Some text1) (ssID s))))"

text \<open>\<^verbatim>\<open>handlePost\<close>; the body may fail to be read.  \<^verbatim>\<open>failure\<close> classifies the error of opening a session.\<close>

definition handlePost :: "(string \<Rightarrow> json option) \<Rightarrow> http_header \<Rightarrow> string option \<Rightarrow> (go_error, nat \<times> parsed_url) result
    \<Rightarrow> (go_error \<Rightarrow> transport_error) \<Rightarrow> (sse_session \<Rightarrow> upstream_reply)
    \<Rightarrow> (sse_session \<Rightarrow> (transport_error, string) result) \<Rightarrow> time \<Rightarrow> bridge \<Rightarrow> string \<Rightarrow> string option
    \<Rightarrow> bridge \<times> bridge_answer" where
  "handlePost parse wh draw opened failure reply wait now b header body =
     (case body of
        None \<Rightarrow> (b, BridgeError 400 ''invalid_request_body'')
      | Some text1 \<Rightarrow>
          if jsonRPCBatch parse text1 then (b, BridgeError 400 ''unsupported_batch'')
          else case sessionForRequest draw opened now b (trim_space header)
                      (jsonRPCMethod parse text1 = Some ''initialize'') of
              (b1, Inl SessionNotFound) \<Rightarrow> (b1, BridgeError 404 ''session_not_found'')
            | (b1, Inl (SessionFailed e)) \<Rightarrow> (b1, protocol_error (failure e))
            | (b1, Inr s) \<Rightarrow> forwardSessionPost parse wh (reply s) (wait s) b1 s text1)"

text \<open>
  \<^verbatim>\<open>openUpstreamSSEEndpointWithContext\<close>: the reply to the opening request is its status, its content type and
  the lines of its stream.  The endpoint, and the stream that is left.
\<close>

definition event_stream :: "string \<Rightarrow> bool" where
  "event_stream contentType = has_prefix (to_lower contentType) ''text/event-stream''"

definition openUpstreamSSEEndpoint :: "net_lib \<Rightarrow> parsed_url \<Rightarrow> (go_error, int \<times> string \<times> string list) result
    \<Rightarrow> (go_error, parsed_url \<times> string list) result" where
  "openUpstreamSSEEndpoint net target reply =
     bind_result reply (\<lambda>(status, contentType, ls).
       if status < 200 \<or> 300 \<le> status then Inl (Errorf ''upstream SSE returned status'')
       else if \<not> event_stream contentType then Inl (Errorf ''upstream SSE returned content type'')
       else case readSSEEndpointEventBlocking False ls of (rest, r) \<Rightarrow>
         bind_result r (\<lambda>endpoint. bind_result (normalizeUpstreamEndpoint net target endpoint) (\<lambda>u.
           Inr (u, rest))))"

text \<open>
  \<^verbatim>\<open>bridgeStreamableGet\<close>: the reply is an error, or status, headers, the lines of the body with its last piece
  and whether it ends at EOF.
\<close>

definition bridgeStreamableGet :: "bool \<Rightarrow> http_header
    \<Rightarrow> (transport_error, int \<times> http_header \<times> string list \<times> string \<times> bool) result \<Rightarrow> bridge_answer" where
  "bridgeStreamableGet canFlush wh reply =
     (case reply of
        Inl e \<Rightarrow> writeUpstreamTransportError e
      | Inr (status, h, ls, rest, eof) \<Rightarrow>
          let out = header_Del ''Content-Length''
                (header_Set ''Cache-Control'' ''no-store'' (copyResponseHeaders wh h))
          in if \<not> event_stream (header_Get h ''Content-Type'')
             then BridgeReply status out (Some (concat ls @ rest)) []
             else if \<not> canFlush then BridgeError 500 ''streaming_unsupported''
             else BridgeReply status out (Some (copySSEWithoutEndpointEvents ls rest eof)) [])"

text \<open>\<^verbatim>\<open>ServeHTTP\<close> of the bridge, with the handlers at their inputs.\<close>

definition bridge_ServeHTTP :: "(bridge \<Rightarrow> bridge \<times> bridge_answer) \<Rightarrow> bridge_answer \<Rightarrow> string \<Rightarrow> string \<Rightarrow> bridge
    \<Rightarrow> bridge \<times> bridge_answer" where
  "bridge_ServeHTTP post get method1 header b =
     (if method1 = ''POST'' then post b
      else if method1 = ''GET'' then (b, get)
      else if method1 = ''DELETE''
      then (case handleDelete header b of (b', status) \<Rightarrow>
              (b', if status = 400 then BridgeError 400 ''missing_session''
                   else BridgeReply (int status) [(''Cache-Control'', [''no-store''])] None []))
      else (b, BridgeError 405 ''method_not_allowed''))"

section \<open>The ledger of connections\<close>

text \<open>
  Every connection that was opened is either in the table, under its identifier, or closed, never both.
\<close>

definition ledger :: "nat set \<Rightarrow> bridge \<Rightarrow> bool" where
  "ledger opened b =
     (distinct (map ssID (brSessions b)) \<and> distinct (map ssHandle (brSessions b))
      \<and> opened = ssHandle ` set (brSessions b) \<union> set (brClosed b)
      \<and> ssHandle ` set (brSessions b) \<inter> set (brClosed b) = {})"

lemma ledger_drop:
  assumes "ledger opened b"
  shows "ledger opened (drop_sessions P b)"
proof -
  have "inj_on ssHandle (set (brSessions b))" using assms by (simp add: ledger_def distinct_map)
  then have "ssHandle ` {x \<in> set (brSessions b). \<not> P x} \<inter> ssHandle ` {x \<in> set (brSessions b). P x} = {}"
    by (auto simp: inj_on_def)
  then show ?thesis
    using assms by (auto simp: ledger_def drop_sessions_def distinct_map_filter)
qed

lemma ledger_evict: "ledger opened b \<Longrightarrow> ledger opened (evictOldest m b)"
  by (induction m b rule: evictOldest.induct)
     (subst evictOldest.simps, auto intro: ledger_drop split: option.split)

lemma evict_bound: "length (brSessions (evictOldest m b)) \<le> m"
proof (induction m b rule: evictOldest.induct)
  case (1 m b)
  show ?case
  proof (cases "length (brSessions b) \<le> m")
    case True
    then show ?thesis by (simp add: evictOldest.simps)
  next
    case False
    then have "brSessions b \<noteq> []" by auto
    then obtain o1 where o1: "oldest_session (brSessions b) = Some o1"
      using oldest_session_None by blast
    then show ?thesis using 1[OF False o1] False by (simp add: evictOldest.simps[of m b])
  qed
qed

lemma ledger_insert:
  assumes "ledger opened b" "ssHandle s \<notin> opened"
  shows "ledger (insert (ssHandle s) opened) (insert_session s b)"
proof -
  let ?b = "drop_sessions (\<lambda>x. ssID x = ssID s) b"
  have led: "ledger opened ?b" using assms(1) by (rule ledger_drop)
  have "ssID s \<notin> ssID ` set (brSessions ?b)" by (auto simp: drop_sessions_def)
  then have "ledger (insert (ssHandle s) opened) (?b\<lparr>brSessions := brSessions ?b @ [s]\<rparr>)"
    using led assms(2) by (auto simp: ledger_def)
  then show ?thesis by (simp add: insert_session_def Let_def ledger_evict)
qed

lemma ledger_remove:
  assumes "ledger opened b" "ssHandle s \<in> opened"
    "\<And>x. x \<in> set (brSessions b) \<Longrightarrow> ssHandle x = ssHandle s \<Longrightarrow> ssID x = ssID s"
  shows "ledger opened (removeSession s b)"
  using assms by (auto simp: ledger_def removeSession_def distinct_map_filter)

text \<open>What a returned session has to do with the table.\<close>

definition owned :: "nat set \<Rightarrow> bridge \<Rightarrow> sse_session \<Rightarrow> bool" where
  "owned opened b s =
     (ssHandle s \<in> opened \<and> (\<forall>x \<in> set (brSessions b). ssHandle x = ssHandle s \<longrightarrow> ssID x = ssID s))"

text \<open>The connections that a request opens.\<close>

definition session_opens :: "string option \<Rightarrow> (go_error, nat \<times> parsed_url) result \<Rightarrow> string \<Rightarrow> bool \<Rightarrow> nat set" where
  "session_opens draw conn sid initialize =
     (case conn of
        Inl _ \<Rightarrow> {}
      | Inr (h, _) \<Rightarrow> if (sid = [] \<or> initialize) \<and> draw \<noteq> None then {h} else {})"

definition post_opens :: "(string \<Rightarrow> json option) \<Rightarrow> string option \<Rightarrow> (go_error, nat \<times> parsed_url) result \<Rightarrow> string
    \<Rightarrow> string option \<Rightarrow> nat set" where
  "post_opens parse draw conn header body =
     (case body of
        None \<Rightarrow> {}
      | Some t \<Rightarrow> if jsonRPCBatch parse t then {}
          else session_opens draw conn (trim_space header) (jsonRPCMethod parse t = Some ''initialize''))"

lemma touch_simps [simp]: "ssID (touch i t x) = ssID x" "ssHandle (touch i t x) = ssHandle x"
  by (simp_all add: touch_def)

lemma ledger_touch: "ledger opened (b\<lparr>brSessions := map (touch i t) (brSessions b)\<rparr>) = ledger opened b"
  by (simp add: ledger_def comp_def image_image)

lemma evict_sessions: "set (brSessions (evictOldest m b)) \<subseteq> set (brSessions b)"
proof (induction m b rule: evictOldest.induct)
  case (1 m b)
  show ?case
  proof (cases "length (brSessions b) \<le> m \<or> oldest_session (brSessions b) = None")
    case True
    then show ?thesis by (auto simp: evictOldest.simps[of m b])
  next
    case False
    then obtain o1 where o1: "\<not> length (brSessions b) \<le> m" "oldest_session (brSessions b) = Some o1" by auto
    then show ?thesis using 1[OF o1] by (auto simp: evictOldest.simps[of m b] drop_sessions_def)
  qed
qed

lemma insert_owned:
  assumes "ledger opened b" "ssHandle s \<notin> opened"
  shows "owned (insert (ssHandle s) opened) (insert_session s b) s"
proof -
  have "x = s" if x: "x \<in> set (brSessions (insert_session s b))" "ssHandle x = ssHandle s" for x
  proof -
    have "x \<in> set (brSessions b) \<or> x = s"
      using x(1) evict_sessions by (force simp: insert_session_def Let_def drop_sessions_def)
    moreover have "ssHandle x \<in> opened" if "x \<in> set (brSessions b)"
      using that assms(1) by (auto simp: ledger_def)
    ultimately show ?thesis using assms(2) x(2) by auto
  qed
  then show ?thesis by (auto simp: owned_def)
qed

lemma insert_bound: "length (brSessions (insert_session s b)) \<le> sseBridgeMaxSessions"
  by (simp add: insert_session_def Let_def evict_bound)

lemma drop_bound: "length (brSessions b) \<le> m \<Longrightarrow> length (brSessions (drop_sessions P b)) \<le> m"
  by (simp add: drop_sessions_def le_trans[OF length_filter_le])

lemma remove_bound: "length (brSessions b) \<le> m \<Longrightarrow> length (brSessions (removeSession s b)) \<le> m"
  by (simp add: removeSession_def le_trans[OF length_filter_le])

lemma sessionForRequest_kept:
  assumes "sid \<noteq> [] \<and> \<not> initialize" "ledger opened b" "length (brSessions b) \<le> m"
    "sessionForRequest draw conn now b sid initialize = (b1, r)"
  shows "ledger opened b1 \<and> length (brSessions b1) \<le> m \<and> (\<forall>s. r = Inr s \<longrightarrow> owned opened b1 s)"
proof -
  let ?b = "pruneIdleSessions now b"
  have led: "ledger opened ?b" and len: "length (brSessions ?b) \<le> m"
    using assms(2,3) by (simp_all add: pruneIdleSessions_def ledger_drop drop_bound)
  show ?thesis
  proof (cases "find (\<lambda>s. ssID s = sid) (brSessions ?b)")
    case None
    then show ?thesis using assms(1,4) led len by (auto simp: sessionForRequest_def)
  next
    case (Some s)
    have b1: "b1 = ?b\<lparr>brSessions := map (touch sid now) (brSessions ?b)\<rparr>" "r = Inr (s\<lparr>ssLastUsed := now\<rparr>)"
      using assms(1,4) Some by (auto simp: sessionForRequest_def Let_def touch_def cong: map_cong)
    have s: "s \<in> set (brSessions ?b)" using find_first[OF Some] by simp
    have inj: "x = s" if "x \<in> set (brSessions ?b)" "ssHandle x = ssHandle s" for x
      using led s that by (auto simp: ledger_def distinct_map inj_on_def)
    have "ssHandle s \<in> opened" using s led by (auto simp: ledger_def)
    then have "owned opened b1 (s\<lparr>ssLastUsed := now\<rparr>)" using inj by (auto simp: owned_def b1(1))
    then show ?thesis using b1 led len by (simp add: ledger_touch)
  qed
qed

lemma sessionForRequest_ledger:
  assumes led: "ledger opened b" "length (brSessions b) \<le> sseBridgeMaxSessions"
    and fresh: "session_opens draw conn sid initialize \<inter> opened = {}"
    and run: "sessionForRequest draw conn now b sid initialize = (b1, r)"
  shows "ledger (opened \<union> session_opens draw conn sid initialize) b1
    \<and> length (brSessions b1) \<le> sseBridgeMaxSessions
    \<and> (\<forall>s. r = Inr s \<longrightarrow> owned (opened \<union> session_opens draw conn sid initialize) b1 s)"
proof (cases "sid \<noteq> [] \<and> \<not> initialize")
  case True
  then have "session_opens draw conn sid initialize = {}"
    by (auto simp: session_opens_def split: sum.splits)
  then show ?thesis using sessionForRequest_kept[OF True led run] by simp
next
  case new: False
  let ?b = "pruneIdleSessions now b"
  have pruned: "ledger opened ?b" "length (brSessions ?b) \<le> sseBridgeMaxSessions"
    using led by (simp_all add: pruneIdleSessions_def ledger_drop drop_bound)
  show ?thesis
  proof (cases "draw = None \<or> \<not> is_ok conn")
    case True
    then have "b1 = ?b" "\<not> is_ok r" "session_opens draw conn sid initialize = {}"
      using new run
      by (cases conn; auto simp: sessionForRequest_def session_opens_def Let_def split: option.splits)+
    then show ?thesis using pruned by auto
  next
    case False
    then obtain newID h u where d: "draw = Some newID" "conn = Inr (h, u)"
      by (cases draw; cases conn) auto
    let ?s = "\<lparr>ssHandle = h, ssID = newID, ssEndpoint = u, ssLastUsed = now\<rparr>"
    have b1: "b1 = insert_session ?s ?b" "r = Inr ?s" "session_opens draw conn sid initialize = {h}"
      using new d run by (auto simp: sessionForRequest_def session_opens_def Let_def)
    have h: "ssHandle ?s \<notin> opened" using fresh b1(3) by simp
    have "ledger (insert h opened) b1" "owned (insert h opened) b1 ?s"
      using ledger_insert[OF pruned(1) h] insert_owned[OF pruned(1) h] b1(1) by simp_all
    then show ?thesis using b1 insert_bound[of ?s ?b] by simp
  qed
qed

lemma forward_ledger:
  assumes "ledger opened b" "owned opened b s" "length (brSessions b) \<le> m"
    "forwardSessionPost parse wh reply wait b s body = (b', a)"
  shows "ledger opened b' \<and> length (brSessions b') \<le> m"
proof -
  have "ledger opened (removeSession s b)"
    using assms(1,2) by (intro ledger_remove) (auto simp: owned_def)
  moreover have "b' = b \<or> b' = removeSession s b"
    using assms(4)
    by (auto simp: forwardSessionPost_def split: upstream_reply.splits option.splits if_splits sum.splits)
  ultimately show ?thesis using assms remove_bound by blast
qed

lemma handlePost_ledger:
  assumes led: "ledger opened b" "length (brSessions b) \<le> sseBridgeMaxSessions"
    and fresh: "post_opens parse draw conn header body \<inter> opened = {}"
    and run: "handlePost parse wh draw conn failure reply wait now b header body = (b', a)"
  shows "ledger (opened \<union> post_opens parse draw conn header body) b'
    \<and> length (brSessions b') \<le> sseBridgeMaxSessions"
proof (cases "\<exists>t. body = Some t \<and> \<not> jsonRPCBatch parse t")
  case False
  then have "b' = b" "post_opens parse draw conn header body = {}"
    using run by (auto simp: handlePost_def post_opens_def split: option.splits if_splits)
  then show ?thesis using led by simp
next
  case True
  then obtain t where t: "body = Some t" "\<not> jsonRPCBatch parse t" by blast
  let ?sid = "trim_space header" and ?init = "jsonRPCMethod parse t = Some ''initialize''"
  obtain b1 r where s: "sessionForRequest draw conn now b ?sid ?init = (b1, r)" by force
  have opens: "post_opens parse draw conn header body = session_opens draw conn ?sid ?init"
    using t by (simp add: post_opens_def)
  let ?op = "opened \<union> session_opens draw conn ?sid ?init"
  have b1: "ledger ?op b1 \<and> length (brSessions b1) \<le> sseBridgeMaxSessions
      \<and> (\<forall>s. r = Inr s \<longrightarrow> owned ?op b1 s)"
    using sessionForRequest_ledger[OF led fresh[unfolded opens] s] .
  show ?thesis
  proof (cases r)
    case (Inl e)
    then have "b' = b1" using run t s by (cases e) (simp_all add: handlePost_def)
    then show ?thesis unfolding opens using b1 by simp
  next
    case (Inr x)
    then have f: "forwardSessionPost parse wh (reply x) (wait x) b1 x t = (b', a)"
      using run t s by (simp add: handlePost_def)
    have "owned ?op b1 x" using b1 Inr by blast
    then show ?thesis unfolding opens using forward_ledger[OF _ _ _ f] b1 by blast
  qed
qed

text \<open>
  The bridge over its lifetime: requests in any order, each with whatever its upstream does; every
  connection that is opened has a handle of its own.
\<close>

inductive bridge_reach :: "(string \<Rightarrow> json option) \<Rightarrow> nat set \<Rightarrow> bridge \<Rightarrow> bool" for parse where
  reach_init: "bridge_reach parse {} \<lparr>brSessions = [], brClosed = []\<rparr>"
| reach_post: "bridge_reach parse opened b \<Longrightarrow> post_opens parse draw conn header body \<inter> opened = {} \<Longrightarrow>
    handlePost parse wh draw conn failure reply wait now b header body = (b', a) \<Longrightarrow>
    bridge_reach parse (opened \<union> post_opens parse draw conn header body) b'"
| reach_delete: "bridge_reach parse opened b \<Longrightarrow> handleDelete header b = (b', status) \<Longrightarrow>
    bridge_reach parse opened b'"
| reach_close: "bridge_reach parse opened b \<Longrightarrow> bridge_reach parse opened (bridge_Close b)"

lemma reach_ledger:
  "bridge_reach parse opened b \<Longrightarrow> ledger opened b \<and> length (brSessions b) \<le> sseBridgeMaxSessions"
proof (induction rule: bridge_reach.induct)
  case (reach_post opened b draw conn header body wh failure reply wait now b' a)
  then show ?case using handlePost_ledger by blast
next
  case (reach_delete opened b header b' status)
  then have "b' = b \<or> (\<exists>P. b' = drop_sessions P b)"
    by (auto simp: handleDelete_def Let_def split: if_splits)
  then show ?case using reach_delete ledger_drop drop_bound by blast
next
  case (reach_close opened b)
  then show ?case unfolding bridge_Close_def using ledger_drop drop_bound by blast
qed (simp add: ledger_def)

end
