(* ===== verification/RouteProperties.thy ===== *)
theory RouteProperties
  imports Proxy Fixture
begin

text \<open>
  The properties of the way a request takes through the edge: which requests are forwarded, what every
  refusal leaves behind, what the forwarded request carries, and the sessions of the SSE bridge.
\<close>

section \<open>A gateway with a tenant\<close>

definition fx_tenant :: tenant_row where
  "fx_tenant =
     \<lparr>tnID = fx_uuid 20, tnSubject = ''alice'', tnService = ''notes'', tnKey = ''k'', tnName = ''mcp-notes-k'',
      tnDNS = ''mcp-notes-k'', tnDesired = DesiredEnabled, tnRuntime = RuntimeReady, tnResource = None,
      tnApplication = None, tnUpstream = Some ''http://mcp-notes-k:8080/mcp'', tnSecretVersion = None,
      tnHealthyAt = None, tnReconciledAt = None, tnLastError = None, tnMetadata = JObj [],
      tnAttestation = ''unknown'', tnAttestedAt = None, tnAttestationID = None, tnSpecID = None\<rparr>"

definition fx_upstream :: parsed_url where
  "fx_upstream =
     \<lparr>uScheme = ''http'', uHost = ''mcp-notes-k:8080'', uHostname = ''mcp-notes-k'', uPort = ''8080'',
      uPath = ''/mcp'', uRawQuery = [], uFragment = [], uUser = False, uAbs = True\<rparr>"

definition fx_route_net :: net_lib where
  "fx_route_net =
     \<lparr>url_parse = (\<lambda>s. if s = ''http://mcp-notes-k:8080/mcp'' then Some fx_upstream else None),
      parse_ip = (\<lambda>_. None), lookup_ip = (\<lambda>_. Inr [])\<rparr>"

definition fx_token :: token where
  "fx_token =
     new_token\<lparr>tClientID := ''dev'', tUserID := ''alice'', tScope := ''mcp:notes'', tAccess := ''at'',
       tExtension := [(''resource'', ''https://edge/notes''), (''sid'', ''s1'')]\<rparr>"

definition fx_route :: "sql_state route_service" where
  "fx_route =
     \<lparr>rtDirectory = Some fx_directory,
      rtBearer = (\<lambda>st r. if authHeader r = ''Bearer at'' then Inr fx_token else Inl (Errorf ''invalid'')),
      rtGrants = Some (\<lambda>st sub sid. Inr ((sub, sid) \<in> set (serviceGrants (qGrants st)))),
      rtIdentity = (\<lambda>st sub. Inr (sql_GetSubjectIdentity st sub)),
      rtResolve = (\<lambda>st. database_Resolve fx_route_net fx_cache (Inr [fx_tenant])),
      rtSigner = Some ''/run/secret'',
      rtEnv = \<lparr>ieRead = (\<lambda>_. Some ''key''), ieMac = (\<lambda>k m. k @ m), ieDigest = (\<lambda>s. s)\<rparr>,
      rtParse = (\<lambda>_. None)\<rparr>"

definition fx_route_request :: "string \<Rightarrow> route_request" where
  "fx_route_request auth =
     \<lparr>rrHttp = fx_request GET ''/notes/x'' [] auth,
      rrMcp = \<lparr>mqMethod = ''GET'', mqContentType = [], mqLength = 0, mqBody = None\<rparr>, rrHeaders = []\<rparr>"

definition is_forward :: "route_answer \<Rightarrow> bool" where
  "is_forward a = (case a of Forward _ _ _ _ \<Rightarrow> True | Denied _ _ _ \<Rightarrow> False)"

lemma fx_resolution: "ResolveByPublicPath (Some fx_directory) ''/notes/x'' = Some (resolve fx_directory fx_entry)"
proof -
  have "best_match fx_snapshot ''/notes/x'' fx_entry" by code_simp
  then have "snapshot_MatchPublicPath fx_snapshot ''/notes/x'' = Some fx_entry"
    using match_best[OF fx_new_snapshot] by simp
  then show ?thesis
    by (simp add: ResolveByPublicPath_def with_catalog_def fx_directory_def NewServiceDirectory_def
        cache_MatchPublicPath_def fx_cache_def)
qed

lemma fx_route_token:
  "route_token fx_ops fx_route fx_state (resolve fx_directory fx_entry) (rrHttp (fx_route_request ''Bearer at''))
    = (fx_state, Inr fx_token)"
  unfolding route_token_Inr
proof (intro conjI)
  show "rtBearer fx_route fx_state (rrHttp (fx_route_request ''Bearer at'')) = Inr fx_token"
    by (simp add: fx_route_def fx_route_request_def fx_request_def)
  show "scopeIncludes (tScope fx_token) (rScope (resolve fx_directory fx_entry))"
    "tokenInfoResource fx_token = rResource (resolve fx_directory fx_entry)" by code_simp+
qed simp

lemma fx_route_target:
  "route_target fx_ops fx_route fx_state (resolve fx_directory fx_entry) fx_token
    = (fx_state, Inr \<lparr>utService = fx_entry, utURL = fx_upstream\<rparr>)"
proof -
  have "cache_ServiceByID fx_cache ''notes'' = Some fx_entry"
    by (simp add: cache_ServiceByID_def snapshot_ServiceByID_def fx_cache_def fx_snapshot_def)
  moreover have "\<not> blank ''http://mcp-notes-k:8080/mcp''" by code_simp
  moreover have "check_upstream_url fx_route_net fx_entry fx_tenant
      = Inr \<lparr>utService = fx_entry, utURL = fx_upstream\<rparr>"
  proof -
    have "format_int 8080 = ''8080''" by (simp add: format_int_def decimal.simps digit_char_def char_of_def bit_Suc_0_iff)
    moreover have "trim_right slash ''/mcp'' = ''/mcp''" by code_simp
    moreover have "\<not> tenantRuntimeModeStatic (JObj [])"
      by (simp add: tenantRuntimeModeStatic_def struct_string_def)
    ultimately show ?thesis
      by (simp add: check_upstream_url_def check_provisioned_url_def fx_route_net_def fx_tenant_def
          fx_upstream_def fx_entry_def guard_def)
  qed
  moreover have "q_GetTenantUpstream [fx_tenant] ''alice'' ''notes'' = Some fx_tenant"
    by (simp add: q_GetTenantUpstream_def tenant_key_def fx_tenant_def)
  ultimately have "database_Resolve fx_route_net fx_cache (Inr [fx_tenant]) ''notes'' ''alice''
      = Inr \<lparr>utService = fx_entry, utURL = fx_upstream\<rparr>"
    by (simp add: database_Resolve_def) (simp add: fx_tenant_def)
  then show ?thesis
    by (simp add: route_target_Inr fx_route_def resolve_def Let_def fx_token_def) (simp add: fx_entry_def)
qed

lemma fx_forwarded:
  "is_forward (snd (handleServiceRoute fx_ops fx_route 60 fx_state (resolve fx_directory fx_entry)
     (fx_route_request ''Bearer at'')))"
proof -
  have res: "rService (resolve fx_directory fx_entry) = fx_entry" by (simp add: resolve_def Let_def)
  have "route_grant fx_ops fx_route fx_state (resolve fx_directory fx_entry) fx_token = (fx_state, Inr ())"
    unfolding route_grant_Inr res by (simp add: fx_route_def fx_token_def fx_entry_def fx_state_def)
  moreover have "route_observe fx_ops fx_route fx_state (resolve fx_directory fx_entry) fx_token
      (rrMcp (fx_route_request ''Bearer at'')) = (fx_state, rrMcp (fx_route_request ''Bearer at''))"
    by (simp add: route_observe_def observeMCPRequest_def fx_route_request_def no_observation_def)
  moreover have "route_identity fx_ops fx_route fx_state (resolve fx_directory fx_entry) fx_token 60
      = (fx_state, Inr None)"
    unfolding route_identity_Inr res
    by (simp add: withUpstreamIdentityContext_def fx_entry_def ModeEnabled_def ModeNormalized_def)
  ultimately show ?thesis
    using fx_route_token fx_route_target
    by (simp add: handleServiceRoute_def then_do_def is_forward_def)
qed

section \<open>Which requests are forwarded\<close>

text \<open>
  Property C1: a request is forwarded only if its bearer token is valid, carries the scope and the resource
  of the service with the longest path that covers the request, the subject of the token is granted
  the service, and the tenant of that subject and service is enabled and ready at an address that
  matches the catalog (or, for a static upstream, at a host with allowed addresses); what goes
  upstream is the body that came in.
\<close>

theorem request_forwarded_only_if:
  assumes "handleServiceRequest ops srv now st r = (st', Forward bridge target hs q)"
    and "rtDirectory srv = Some (NewServiceDirectory base (Some cache))" "cache_ok cache"
    and "rtResolve srv = (\<lambda>st. database_Resolve net cache (tenants st))"
    and "rtGrants srv = Some allowed"
  shows "\<exists>s e tk st3 t row. current cache = Some s \<and> best_match s (rqPath (rrHttp r)) e
    \<and> rtBearer srv st (rrHttp r) = Inr tk
    \<and> scopeIncludes (tScope tk) (mcp_prefix @ trim_space (ServiceID e))
    \<and> tokenInfoResource tk = publicBaseURL (NewServiceDirectory base (Some cache)) @ PublicPath e
    \<and> allowed st (tUserID tk) (ServiceID e) = Inr True
    \<and> tenants st3 = Inr t \<and> row \<in> set t \<and> tnSubject row = tUserID tk \<and> tnService row = ServiceID e
    \<and> tnDesired row = DesiredEnabled \<and> tnRuntime row = RuntimeReady
    \<and> utService target = e \<and> upstream_ok net e row (utURL target)
    \<and> bridge = (AdapterRequirement e = AdapterSSEToStreamableHTTP)
    \<and> map_option fst (mqBody q) = map_option fst (mqBody (rrMcp r))"
proof -
  let ?d = "NewServiceDirectory base (Some cache)"
  from assms(1) obtain res where res: "ResolveByPublicPath (Some ?d) (rqPath (rrHttp r)) = Some res"
    "handleServiceRoute ops srv now st res r = (st', Forward bridge target hs q)"
    by (auto simp: handleServiceRequest_def assms(2) split: option.splits)
  obtain s e where e: "current cache = Some s" "best_match s (rqPath (rrHttp r)) e" "res = resolve ?d e"
    "cache_ServiceByID cache (ServiceID e) = Some e"
    using ResolveByPublicPath_best[OF res(1) assms(3)] by blast
  have sel: "rService res = e" "rScope res = mcp_prefix @ trim_space (ServiceID e)"
    "rResource res = publicBaseURL ?d @ PublicPath e"
    by (simp_all add: e(3) resolve_def Let_def)
  obtain tk st3 where p: "route_passed ops srv now st res r tk st3 target hs q"
    "bridge = (AdapterRequirement (rService res) = AdapterSSEToStreamableHTTP)"
    using handleServiceRoute_cases[OF res(2)] by auto
  then have "database_Resolve net cache (tenants st3) (ServiceID e) (tUserID tk) = Inr target"
    by (simp add: route_passed_def sel assms(4))
  from database_Resolve_ok[OF this] obtain t row where "tenants st3 = Inr t" "row \<in> set t"
    "tnSubject row = tUserID tk" "tnService row = ServiceID e" "tnDesired row = DesiredEnabled"
    "tnRuntime row = RuntimeReady" "utService target = e" "upstream_ok net e row (utURL target)"
    using e(4) by auto
  moreover have "map_option fst (mqBody q) = map_option fst (mqBody (rrMcp r))"
    using p(1) route_observe_body by (auto simp: route_passed_def)
  ultimately show ?thesis
    using e p sel assms(5) by (auto simp: route_passed_def)
qed

theorem request_forwarded_only_if_witness:
  "\<exists>tk. rtBearer fx_route fx_state (rrHttp (fx_route_request ''Bearer at'')) = Inr tk
     \<and> scopeIncludes (tScope tk) ''mcp:notes''"
proof -
  have path: "rqPath (rrHttp (fx_route_request ''Bearer at'')) = ''/notes/x''"
    by (simp add: fx_route_request_def fx_request_def)
  obtain st' b t hs q where "handleServiceRoute fx_ops fx_route 60 fx_state (resolve fx_directory fx_entry)
      (fx_route_request ''Bearer at'') = (st', Forward b t hs q)"
    using fx_forwarded
    by (cases "handleServiceRoute fx_ops fx_route 60 fx_state (resolve fx_directory fx_entry)
        (fx_route_request ''Bearer at'')") (auto simp: is_forward_def split: route_answer.splits)
  then have "handleServiceRequest fx_ops fx_route 60 fx_state (fx_route_request ''Bearer at'')
      = (st', Forward b t hs q)"
    using fx_resolution path by (simp add: handleServiceRequest_def fx_route_def)
  from request_forwarded_only_if[OF this, of "''https://edge''" fx_cache fx_route_net
      "\<lambda>_. Inr [fx_tenant]" "\<lambda>st sub sid. Inr ((sub, sid) \<in> set (serviceGrants (qGrants st)))"]
  obtain s e tk where m: "current fx_cache = Some s" "best_match s ''/notes/x'' e"
    "rtBearer fx_route fx_state (rrHttp (fx_route_request ''Bearer at'')) = Inr tk"
    "scopeIncludes (tScope tk) (mcp_prefix @ trim_space (ServiceID e))"
    using fx_cache_ok path by (auto simp: fx_route_def fx_directory_def)
  have "e = fx_entry" using m(1,2) by (auto simp: best_match_def fx_cache_def fx_snapshot_def)
  then show ?thesis using m(3,4) fx_add_entry(2) by (auto simp: fx_entry_def mcp_prefix_def)
qed

text \<open>
  Property C4: a request for a service is either forwarded, and the last audit event says that it was
  allowed, or refused with one of the listed statuses and codes, and the last audit event is the
  denial with the reason.
\<close>

theorem refusals_are_recorded:
  "case handleServiceRoute ops srv now st res r of (st', a) \<Rightarrow>
     denied_as ops res st' a
     \<or> (\<exists>(tk :: token) st3 target hs q. a = Forward (AdapterRequirement (rService res) = AdapterSSEToStreamableHTTP) target hs q
          \<and> st' = opAudit ops st3 \<lparr>aeActor = tUserID tk, aeService = ServiceID (rService res),
                aeType = ''mcp.service.access.allowed'', aeStatus = ''allowed''\<rparr>)"
proof -
  obtain st' a where run: "handleServiceRoute ops srv now st res r = (st', a)" by force
  show ?thesis
    using handleServiceRoute_cases[OF run] unfolding run prod.case route_audit_def by blast
qed

section \<open>What goes upstream\<close>



text \<open>
  Property C5: no two different identities have the same signed text: the canonical payload determines the
  service, the session, the time and every field of the subject as they are written in the headers,
  and no header value contains a line break.
\<close>

theorem signed_text_unambiguous:
  "(canonicalIdentityHeaderPayload (identity_values_of env service subject sid now)
      = canonicalIdentityHeaderPayload (identity_values_of env' service' subject' sid' now')
    \<longleftrightarrow> identity_values_of env service subject sid now
      = identity_values_of env' service' subject' sid' now')
   \<and> list_all line_free (identity_fields (identity_values_of env service subject sid now))"
  using payload_inject[OF identity_values_line_free identity_values_line_free]
    identity_values_line_free by metis

text \<open>
  The endpoint that an upstream announces never leads the bridge away from the origin of the
  tenant: the URL it posts to has the scheme and the host of the tenant's address.
\<close>

theorem endpoint_keeps_origin:
  "case normalizeUpstreamEndpoint net target endpoint of
     Inl _ \<Rightarrow> True
   | Inr u \<Rightarrow> uScheme u = uScheme target \<and> uHost u = uHost target"
  using endpoint_same_origin by (cases "normalizeUpstreamEndpoint net target endpoint") simp_all

section \<open>The SSE bridge\<close>




text \<open>
  The loop that relays an event stream writes the events of the stream in their order and
  unchanged, but for those named endpoint; an unfinished last event is written when the stream ends
  without an error.
\<close>

theorem relay_filters_endpoint_events:
  "copySSEWithoutEndpointEvents ls rest eof =
    concat (map (\<lambda>(e, t). shown_event e t) (sse_events ls))
    @ (if eof then shown_event (sse_tail ls @ (if rest = [] then [] else [rest])) [] else [])"
  by (rule copySSE_filters)

section \<open>Metadata\<close>

text \<open>
  The protected resource metadata of a service names exactly the resource and the scope that
  the route of that service demands of a token, and the issuer whose metadata names the same scope.
\<close>

theorem metadata_names_what_is_checked:
  assumes "cache_ok c" "e \<in> set (directory_entries (Some (NewServiceDirectory base (Some c))))"
    "oaDirectory o1 = Some (NewServiceDirectory base (Some c))"
    "rqMethod r = GET" "rqPath r = well_known_resource @ slash # ServiceID e"
    "rqMethod r' = GET" "rqPath r' = well_known_server @ slash # ServiceID e"
  shows "\<exists>m m'. handleProtectedResourceMetadata o1 r = Answer m
    \<and> handleAuthorizationServerMetadata o1 r' = Answer m'
    \<and> rmAuthorizationServers m = [smIssuer m'] \<and> smScopes m' = rmScopes m
    \<and> (route_token ops srv st (resolve (NewServiceDirectory base (Some c)) e) q = (st', Inr tk) \<longrightarrow>
         rmResource m = tokenInfoResource tk \<and> list_all (scopeIncludes (tScope tk)) (rmScopes m))"
proof -
  let ?d = "NewServiceDirectory base (Some c)"
  have ok: "directory_ok (Some ?d)" by (rule directory_ok_cache[OF assms(1)])
  have m: "handleProtectedResourceMetadata o1 r
    = Answer \<lparr>rmResource = rResource (resolve ?d e),
        rmAuthorizationServers = [rAuthorizationServerIssuer (resolve ?d e)],
        rmScopes = [rScope (resolve ?d e)], rmName = DisplayName e\<rparr>"
    by (rule resource_metadata_of_service[OF ok assms(2-5)])
  obtain m' where "handleAuthorizationServerMetadata o1 r' = Answer m'"
    "smIssuer m' = rAuthorizationServerIssuer (resolve ?d e)" "smScopes m' = [rScope (resolve ?d e)]"
    using server_metadata_of_service[OF ok assms(2,3,6,7)] by blast
  then show ?thesis using m by (auto simp: route_token_Inr)
qed

theorem metadata_names_what_is_checked_witness:
  "\<exists>m. handleProtectedResourceMetadata fx_oauth
     (fx_request GET (well_known_resource @ slash # ''notes'') [] []) = Answer m \<and> rmScopes m = [''mcp:notes'']"
proof -
  have e: "fx_entry \<in> set (directory_entries (Some (NewServiceDirectory ''https://edge'' (Some fx_cache))))"
    by (simp add: directory_entries_def with_catalog_def NewServiceDirectory_def fx_cache_def fx_snapshot_def)
  have req: "oaDirectory fx_oauth = Some (NewServiceDirectory ''https://edge'' (Some fx_cache))"
    "rqMethod (fx_request GET p [] []) = GET" "rqPath (fx_request GET p [] []) = p" for p
    by (simp_all add: fx_oauth_def fx_directory_def fx_request_def)
  have id: "ServiceID fx_entry = ''notes''" by (simp add: fx_entry_def)
  have sc: "rScope (resolve fx_directory fx_entry) = ''mcp:notes''" by code_simp
  obtain m where "handleProtectedResourceMetadata fx_oauth
      (fx_request GET (well_known_resource @ slash # ''notes'') [] []) = Answer m"
    using metadata_names_what_is_checked[OF fx_cache_ok e req(1,2,3)[unfolded id] req(2,3)] id by metis
  then show ?thesis
    using resource_metadata_of_service[OF directory_ok_cache[OF fx_cache_ok] e req(1,2)] req(3) id sc
    by (auto simp: fx_directory_def)
qed

end
