(* ===== verification/Leases.thy ===== *)
theory Leases
  imports Catalog
begin

text \<open>
  The lease that lets one control plane work at a time (\<^verbatim>\<open>internal/controlplane/store.go\<close>,
  \<^verbatim>\<open>platformdb/leases.sql.go\<close>): a row with its holder and its expiry, which the holder renews whenever it
  asks whether it still holds the lease.  The instances share the database and read the same clock.
\<close>

record lease_row =
  leName :: string
  leHolder :: string
  leExpires :: time
  leUpdated :: time

type_synonym lease_table = "lease_row list"

definition controlPlaneLeaseName :: string where
  "controlPlaneLeaseName = ''mcp-control-plane''"

definition controlPlaneLeaseTTL :: duration where
  "controlPlaneLeaseTTL = 2 * minute"

definition controlPlaneLeaseRenewInterval :: duration where
  "controlPlaneLeaseRenewInterval = controlPlaneLeaseTTL div 3"

text \<open>The table, and the holder that the statement returns, if it returns a row.\<close>

definition q_AcquireControlPlaneLease :: "lease_table \<Rightarrow> string \<Rightarrow> string \<Rightarrow> time \<Rightarrow> time
    \<Rightarrow> lease_table \<times> string option" where
  "q_AcquireControlPlaneLease t name holder expires now =
     (let row = \<lparr>leName = name, leHolder = holder, leExpires = expires, leUpdated = now\<rparr> in
      case find (\<lambda>r. leName r = name) t of
        None \<Rightarrow> (t @ [row], Some holder)
      | Some r \<Rightarrow>
          if leHolder r = holder \<or> leExpires r \<le> now
          then (map (\<lambda>x. if leName x = name then row else x) t, Some holder)
          else (t, None))"

definition q_ReleaseControlPlaneLease :: "lease_table \<Rightarrow> string \<Rightarrow> string \<Rightarrow> lease_table" where
  "q_ReleaseControlPlaneLease t name holder =
     filter (\<lambda>r. \<not> (leName r = name \<and> leHolder r = holder)) t"

record lease_lock =
  lkHolder :: string
  lkReleased :: bool

text \<open>
  A query fails before or after its statement took effect (a cancelled request, a lost connection); then
  its caller sees an error and no answer.
\<close>

datatype query_fault = QueryOk | QueryRefused | QueryLost

fun q_answer :: "query_fault \<Rightarrow> 't \<Rightarrow> 't \<times> 'r \<Rightarrow> 't \<times> 'r option" where
  "q_answer QueryOk t (t', r) = (t', Some r)"
| "q_answer QueryRefused t (t', r) = (t, None)"
| "q_answer QueryLost t (t', r) = (t', None)"

datatype lock_error = LeaseHeld | LeaseHeldByAnother | LeaseQueryFailed

definition AcquireControlPlaneLock :: "lease_table \<Rightarrow> string \<Rightarrow> time \<Rightarrow> query_fault
    \<Rightarrow> lease_table \<times> (lock_error, lease_lock) result" where
  "AcquireControlPlaneLock t holderID now f =
     (case q_answer f t (q_AcquireControlPlaneLease t controlPlaneLeaseName holderID
              (now + controlPlaneLeaseTTL) now) of
        (t', None) \<Rightarrow> (t', Inl LeaseQueryFailed)
      | (t', Some None) \<Rightarrow> (t', Inl LeaseHeld)
      | (t', Some (Some holder)) \<Rightarrow>
          (t', if holder \<noteq> holderID then Inl LeaseHeldByAnother
               else Inr \<lparr>lkHolder = holderID, lkReleased = False\<rparr>))"

text \<open>
  Releasing and asking for the lease; the lock may be a nil pointer.  The truth value of the first says
  whether it returned without an error, that of the second is its answer.
\<close>

definition lock_Release :: "lease_table \<Rightarrow> lease_lock option \<Rightarrow> query_fault
    \<Rightarrow> (lease_table \<times> lease_lock option) \<times> bool" where
  "lock_Release t l f =
     (case l of
        None \<Rightarrow> ((t, None), True)
      | Some lk \<Rightarrow>
          if lkReleased lk then ((t, l), True)
          else case q_answer f t (q_ReleaseControlPlaneLease t controlPlaneLeaseName (lkHolder lk), ()) of
              (t', None) \<Rightarrow> ((t', l), False)
            | (t', Some _) \<Rightarrow> ((t', Some (lk\<lparr>lkReleased := True\<rparr>)), True))"

definition lock_Held :: "lease_table \<Rightarrow> lease_lock option \<Rightarrow> time \<Rightarrow> query_fault
    \<Rightarrow> (lease_table \<times> lease_lock option) \<times> bool" where
  "lock_Held t l now f =
     (case l of
        None \<Rightarrow> ((t, None), False)
      | Some lk \<Rightarrow>
          if lkReleased lk then ((t, l), False)
          else case q_answer f t (q_AcquireControlPlaneLease t controlPlaneLeaseName (lkHolder lk)
                      (now + controlPlaneLeaseTTL) now) of
              (t', answer) \<Rightarrow>
                if answer = Some (Some (lkHolder lk)) then ((t', l), True)
                else ((t', Some (lk\<lparr>lkReleased := True\<rparr>)), False))"

section \<open>Several instances\<close>

text \<open>
  The instances are known by their holder identifiers, which are fresh random identifiers in the source;
  each has at most one lock.  The outcome of a step is whether the instance now knows that it holds the lease.
\<close>

datatype lease_op =
  LAcquire string time query_fault | LHeld string time query_fault | LRelease string time query_fault

fun op_holder :: "lease_op \<Rightarrow> string" where
  "op_holder (LAcquire h t f) = h" | "op_holder (LHeld h t f) = h" | "op_holder (LRelease h t f) = h"

fun op_time :: "lease_op \<Rightarrow> time" where
  "op_time (LAcquire h t f) = t" | "op_time (LHeld h t f) = t" | "op_time (LRelease h t f) = t"

fun is_release :: "lease_op \<Rightarrow> bool" where
  "is_release (LRelease h t f) = True" | "is_release _ = False"

record lease_state =
  lsTable :: lease_table
  lsLocks :: "string \<rightharpoonup> lease_lock"

fun lease_step :: "lease_state \<Rightarrow> lease_op \<Rightarrow> lease_state \<times> bool" where
  "lease_step s (LAcquire h now f) =
     (case AcquireControlPlaneLock (lsTable s) h now f of
        (t, Inl _) \<Rightarrow> (s\<lparr>lsTable := t\<rparr>, False)
      | (t, Inr lk) \<Rightarrow> (s\<lparr>lsTable := t, lsLocks := (lsLocks s)(h \<mapsto> lk)\<rparr>, True))"
| "lease_step s (LHeld h now f) =
     (case lock_Held (lsTable s) (lsLocks s h) now f of
        ((t, l), b) \<Rightarrow> (s\<lparr>lsTable := t, lsLocks := (lsLocks s)(h := l)\<rparr>, b))"
| "lease_step s (LRelease h now f) =
     (case lock_Release (lsTable s) (lsLocks s h) f of
        ((t, l), _) \<Rightarrow> (s\<lparr>lsTable := t, lsLocks := (lsLocks s)(h := l)\<rparr>, False))"

fun lease_exec :: "lease_state \<Rightarrow> lease_op list \<Rightarrow> lease_state" where
  "lease_exec s [] = s"
| "lease_exec s (x # xs) = lease_exec (fst (lease_step s x)) xs"

text \<open>The locks are kept under the identifiers of their holders.\<close>

definition locks_ok :: "lease_state \<Rightarrow> bool" where
  "locks_ok s = (\<forall>h lk. lsLocks s h = Some lk \<longrightarrow> lkHolder lk = h)"

abbreviation lease_of :: "lease_state \<Rightarrow> lease_row option" where
  "lease_of s \<equiv> find (\<lambda>r. leName r = controlPlaneLeaseName) (lsTable s)"

lemma find_map_name:
  "find (\<lambda>r. leName r = n) (map (\<lambda>x. if leName x = n then row else x) t)
   = (if leName row = n then map_option (\<lambda>_. row) (find (\<lambda>r. leName r = n) t)
      else find (\<lambda>r. leName r = n) (filter (\<lambda>x. leName x \<noteq> n) t))"
  by (induction t) auto

lemma find_append: "find P (xs @ ys) = (case find P xs of Some x \<Rightarrow> Some x | None \<Rightarrow> find P ys)"
  by (induction xs) auto

lemma acquire_cases:
  "q_AcquireControlPlaneLease t n h expires now = (t', r) \<Longrightarrow>
   (r = Some h \<and> find (\<lambda>x. leName x = n) t' = Some \<lparr>leName = n, leHolder = h, leExpires = expires, leUpdated = now\<rparr>
      \<and> (\<forall>x. find (\<lambda>x. leName x = n) t = Some x \<longrightarrow> leHolder x = h \<or> leExpires x \<le> now))
   \<or> (r = None \<and> t' = t \<and> (\<exists>x. find (\<lambda>x. leName x = n) t = Some x \<and> leHolder x \<noteq> h \<and> now < leExpires x))"
  by (auto simp: q_AcquireControlPlaneLease_def Let_def find_append find_map_name
      split: option.splits if_splits)

lemma q_answer_cases: "q_answer f t (t', r) = (t'', a) \<Longrightarrow>
   (a = Some r \<and> t'' = t' \<and> f = QueryOk) \<or> (a = None \<and> t'' = t) \<or> (a = None \<and> t'' = t')"
  by (cases f) auto

lemma locks_ok_step: "locks_ok s \<Longrightarrow> locks_ok (fst (lease_step s x))"
  by (cases x)
     (auto simp: locks_ok_def AcquireControlPlaneLock_def lock_Held_def lock_Release_def
       split: prod.splits option.splits sum.splits if_splits)

text \<open>
  A step that succeeds found the row free or its own and leaves the row to its instance; every other step
  leaves a row that is neither expired nor released by its holder to its holder, no earlier expiring.
\<close>

definition lease_free_for :: "lease_state \<Rightarrow> string \<Rightarrow> time \<Rightarrow> bool" where
  "lease_free_for s h now = (\<forall>r. lease_of s = Some r \<longrightarrow> leHolder r = h \<or> leExpires r \<le> now)"

lemma release_other:
  "find (\<lambda>r. leName r = n) t = Some x \<Longrightarrow> leHolder x \<noteq> h \<Longrightarrow>
   find (\<lambda>r. leName r = n) (q_ReleaseControlPlaneLease t n h) = Some x"
  by (induction t) (auto simp: q_ReleaseControlPlaneLease_def)

lemma lease_step_True:
  assumes "lease_step s x = (s', True)" "locks_ok s"
  shows "lease_free_for s (op_holder x) (op_time x) \<and>
    (\<exists>r. lease_of s' = Some r \<and> leHolder r = op_holder x \<and> leExpires r = op_time x + controlPlaneLeaseTTL)"
proof (cases x)
  case (LAcquire h t f)
  obtain t' r where q: "q_AcquireControlPlaneLease (lsTable s) controlPlaneLeaseName h
      (t + controlPlaneLeaseTTL) t = (t', r)" by force
  from acquire_cases[OF q] assms(1) LAcquire q show ?thesis
    by (cases f) (auto simp: AcquireControlPlaneLock_def lease_free_for_def)
next
  case (LHeld h t f)
  then obtain lk where lk: "lsLocks s h = Some lk" "\<not> lkReleased lk" "lkHolder lk = h"
    using assms by (auto simp: lock_Held_def locks_ok_def split: option.splits if_splits)
  obtain t' r where q: "q_AcquireControlPlaneLease (lsTable s) controlPlaneLeaseName h
      (t + controlPlaneLeaseTTL) t = (t', r)" by force
  from acquire_cases[OF q] assms(1) LHeld q lk show ?thesis
    by (cases f) (auto simp: lock_Held_def lease_free_for_def split: if_splits)
next
  case (LRelease h t f)
  then show ?thesis using assms(1) by (simp split: prod.splits)
qed

lemma acquire_keeps:
  assumes "q_AcquireControlPlaneLease t n h (now + controlPlaneLeaseTTL) now = (t', q)"
    "find (\<lambda>x. leName x = n) t = Some r" "now < leExpires r" "E \<le> leExpires r" "h = leHolder r \<Longrightarrow> E \<le> now + controlPlaneLeaseTTL"
  shows "\<exists>r'. find (\<lambda>x. leName x = n) t' = Some r' \<and> leHolder r' = leHolder r \<and> E \<le> leExpires r'"
  using acquire_cases[OF assms(1)] assms(2-) by auto

lemma lease_step_keeps:
  assumes "lease_step s x = (s', b)" "locks_ok s" "lease_of s = Some r"
    "\<not> (is_release x \<and> op_holder x = leHolder r)"
    "op_time x < leExpires r" "E \<le> leExpires r" "E \<le> op_time x + controlPlaneLeaseTTL"
  shows "\<exists>r'. lease_of s' = Some r' \<and> leHolder r' = leHolder r \<and> E \<le> leExpires r'"
proof (cases x)
  case (LAcquire h t f)
  obtain t' q where q: "q_AcquireControlPlaneLease (lsTable s) controlPlaneLeaseName h
      (t + controlPlaneLeaseTTL) t = (t', q)" by force
  from acquire_keeps[OF q assms(3) _ assms(6)] assms(1,3,5,6,7) LAcquire q show ?thesis
    by (cases f) (auto simp: AcquireControlPlaneLock_def split: option.splits sum.splits if_splits)
next
  case (LHeld h t f)
  show ?thesis
  proof (cases "lsLocks s h")
    case None
    then show ?thesis using assms LHeld by (auto simp: lock_Held_def)
  next
    case (Some lk)
    then have lk: "lkHolder lk = h" using assms(2) by (simp add: locks_ok_def)
    obtain t' q where q: "q_AcquireControlPlaneLease (lsTable s) controlPlaneLeaseName h
        (t + controlPlaneLeaseTTL) t = (t', q)" by force
    from acquire_keeps[OF q assms(3) _ assms(6)] assms(1,3,5,6,7) LHeld q lk Some show ?thesis
      by (cases f) (auto simp: lock_Held_def split: if_splits)
  qed
next
  case (LRelease h t f)
  show ?thesis
  proof (cases "lsLocks s h")
    case None
    then show ?thesis using assms LRelease by (auto simp: lock_Release_def)
  next
    case (Some lk)
    then have lk: "lkHolder lk = h" using assms(2) by (simp add: locks_ok_def)
    show ?thesis
      using assms LRelease Some lk release_other[OF assms(3), of h]
      by (cases f) (auto simp: lock_Release_def split: if_splits)
  qed
qed

text \<open>While the holder does not release it, the row belongs to it until an expiry that lies in the future.\<close>

lemma lease_kept:
  assumes "locks_ok s" "lease_of s = Some r" "leHolder r = h" "t + controlPlaneLeaseTTL \<le> leExpires r"
    "list_all (\<lambda>x. \<not> (is_release x \<and> op_holder x = h)) xs"
    "list_all (\<lambda>x. t \<le> op_time x \<and> op_time x < t + controlPlaneLeaseTTL) xs"
  shows "locks_ok (lease_exec s xs) \<and> (\<exists>r'. lease_of (lease_exec s xs) = Some r' \<and> leHolder r' = h
    \<and> t + controlPlaneLeaseTTL \<le> leExpires r')"
  using assms
proof (induction xs arbitrary: s r)
  case (Cons x xs)
  obtain s' b where st: "lease_step s x = (s', b)" by force
  have ok: "locks_ok s'" using locks_ok_step[OF Cons.prems(1), of x] st by simp
  have "\<exists>r'. lease_of s' = Some r' \<and> leHolder r' = leHolder r \<and> t + controlPlaneLeaseTTL \<le> leExpires r'"
    using lease_step_keeps[OF st Cons.prems(1,2)] Cons.prems(3-) by auto
  then show ?case using Cons.IH[OF ok] Cons.prems st by auto
qed auto

lemma lease_excludes:
  assumes "locks_ok s" "lease_step s x = (s1, True)"
    "list_all (\<lambda>y. \<not> (is_release y \<and> op_holder y = op_holder x)) mid"
    "sorted (op_time x # map op_time mid @ [op_time y])"
    "lease_step (lease_exec s1 mid) y = (s2, True)" "op_holder y \<noteq> op_holder x"
  shows "op_time x + controlPlaneLeaseTTL \<le> op_time y"
proof (rule ccontr)
  assume early: "\<not> op_time x + controlPlaneLeaseTTL \<le> op_time y"
  have ok1: "locks_ok s1" using locks_ok_step[OF assms(1), of x] assms(2) by simp
  obtain r where r: "lease_of s1 = Some r" "leHolder r = op_holder x"
    "leExpires r = op_time x + controlPlaneLeaseTTL"
    using lease_step_True[OF assms(2,1)] by blast
  have "list_all (\<lambda>z. op_time x \<le> op_time z \<and> op_time z < op_time x + controlPlaneLeaseTTL) mid"
    using assms(4) early by (fastforce simp: list_all_iff sorted_append)
  then obtain r' where r': "lease_of (lease_exec s1 mid) = Some r'" "leHolder r' = op_holder x"
    "op_time x + controlPlaneLeaseTTL \<le> leExpires r'" "locks_ok (lease_exec s1 mid)"
    using lease_kept[OF ok1 r(1,2) _ assms(3)] r(3) by auto
  then show False
    using lease_step_True[OF assms(5) r'(4)] assms(6) early by (auto simp: lease_free_for_def)
qed

text \<open>An expired or absent lease can be taken by any instance.\<close>

lemma lease_obtainable:
  assumes "\<And>r. lease_of s = Some r \<Longrightarrow> leExpires r \<le> t"
  shows "snd (lease_step s (LAcquire h t QueryOk))"
proof -
  obtain t' q' where q: "q_AcquireControlPlaneLease (lsTable s) controlPlaneLeaseName h
      (t + controlPlaneLeaseTTL) t = (t', q')" by force
  from acquire_cases[OF q] assms q show ?thesis
    by (fastforce simp: AcquireControlPlaneLock_def)
qed

text \<open>A lock that was found lost or released is never held again.\<close>

lemma lost_stays_lost:
  "lock_Held t (Some lk) now f = ((t', l'), False) \<Longrightarrow> \<not> snd (lock_Held t'' l' now' f')"
  by (auto simp: lock_Held_def split: prod.splits if_splits)

text \<open>One failed query loses the lease for good, although the row may still belong to the instance.\<close>

lemma failed_query_loses:
  "f \<noteq> QueryOk \<Longrightarrow> \<not> snd (lock_Held t l now f)"
  by (cases f; cases l) (auto simp: lock_Held_def q_AcquireControlPlaneLease_def Let_def
      split: prod.splits option.splits if_splits)

text \<open>
  The instances start with an empty table and no locks.  No step writes an expiry beyond its own time by
  more than the lifetime of a lease.
\<close>

definition lease_start :: lease_state where
  "lease_start = \<lparr>lsTable = [], lsLocks = Map.empty\<rparr>"

lemma locks_ok_start: "locks_ok lease_start"
  by (simp add: locks_ok_def lease_start_def)

lemma locks_ok_exec: "locks_ok s \<Longrightarrow> locks_ok (lease_exec s xs)"
  by (induction xs arbitrary: s) (simp_all add: locks_ok_step)

definition expires_by :: "time \<Rightarrow> lease_state \<Rightarrow> bool" where
  "expires_by t s = list_all (\<lambda>r. leExpires r \<le> t + controlPlaneLeaseTTL) (lsTable s)"

lemma acquire_expires:
  "list_all (\<lambda>r. leExpires r \<le> E) t \<Longrightarrow> expires \<le> E \<Longrightarrow>
   list_all (\<lambda>r. leExpires r \<le> E) (fst (q_AcquireControlPlaneLease t n h expires now))"
  by (auto simp: q_AcquireControlPlaneLease_def Let_def list_all_iff split: option.splits)

lemma answer_expires:
  "q_answer f t p = (t', a) \<Longrightarrow> list_all P t \<Longrightarrow> list_all P (fst p) \<Longrightarrow> list_all P t'"
  by (cases p; cases f) auto

lemma expires_by_step:
  assumes "expires_by t s" "op_time x \<le> t"
  shows "expires_by t (fst (lease_step s x))"
proof (cases x)
  case (LAcquire h t' f)
  then show ?thesis
    using assms answer_expires[OF _ _ acquire_expires]
    by (auto simp: expires_by_def AcquireControlPlaneLock_def split: prod.splits option.splits)
next
  case (LHeld h t' f)
  then show ?thesis
    using assms answer_expires[OF _ _ acquire_expires]
    by (auto simp: expires_by_def lock_Held_def split: prod.splits option.splits if_splits)
next
  case (LRelease h t' f)
  have "list_all P t \<Longrightarrow> list_all P (q_ReleaseControlPlaneLease t n h)" for P t n h
    by (auto simp: q_ReleaseControlPlaneLease_def list_all_iff)
  then show ?thesis
    using LRelease assms answer_expires[of f "lsTable s" "(q_ReleaseControlPlaneLease (lsTable s) n h', ())" for n h']
    by (auto simp: expires_by_def lock_Release_def split: prod.splits option.splits if_splits)
qed

lemma expires_by_exec:
  "expires_by t s \<Longrightarrow> list_all (\<lambda>x. op_time x \<le> t) xs \<Longrightarrow> expires_by t (lease_exec s xs)"
  by (induction xs arbitrary: s) (simp_all add: expires_by_step)

lemma find_list_all: "find Q xs = Some x \<Longrightarrow> list_all P xs \<Longrightarrow> P x"
  by (induction xs) (auto split: if_splits)

lemma expires_by_lease: "expires_by t s \<Longrightarrow> lease_of s = Some r \<Longrightarrow> leExpires r \<le> t + controlPlaneLeaseTTL"
  unfolding expires_by_def by (rule find_list_all)

text \<open>What is left of a lock that one failed question has lost, until its instance acquires it anew.\<close>

definition lock_lost :: "string \<Rightarrow> lease_state \<Rightarrow> bool" where
  "lock_lost h s = (\<forall>lk. lsLocks s h = Some lk \<longrightarrow> lkReleased lk)"

fun is_acquire_of :: "string \<Rightarrow> lease_op \<Rightarrow> bool" where
  "is_acquire_of h (LAcquire h' t f) = (h = h')" | "is_acquire_of h _ = False"

lemma lock_lost_step:
  "lock_lost h s \<Longrightarrow> \<not> is_acquire_of h x \<Longrightarrow> lock_lost h (fst (lease_step s x))"
  by (cases x) (auto simp: lock_lost_def AcquireControlPlaneLock_def lock_Held_def lock_Release_def
      split: prod.splits option.splits sum.splits if_splits)

lemma lock_lost_exec:
  "lock_lost h s \<Longrightarrow> list_all (\<lambda>x. \<not> is_acquire_of h x) xs \<Longrightarrow> lock_lost h (lease_exec s xs)"
  by (induction xs arbitrary: s) (simp_all add: lock_lost_step)

lemma lock_lost_held: "lock_lost h s \<Longrightarrow> \<not> snd (lease_step s (LHeld h t f))"
  by (auto simp: lock_lost_def lock_Held_def split: prod.splits option.splits)

lemma failed_question_loses:
  "f \<noteq> QueryOk \<Longrightarrow> lock_lost h (fst (lease_step s (LHeld h t f)))"
  by (cases f; cases "lsLocks s h")
     (auto simp: lock_lost_def lock_Held_def q_AcquireControlPlaneLease_def Let_def
       split: prod.splits option.splits if_splits)

end
