(* ===== verification/ControlCatalog.thy ===== *)
theory ControlCatalog
  imports TenantTable
begin

text \<open>
  The control plane's side of the service catalog: the tables of the shared database, transactions, the
  store's operations on catalog rows (\<^verbatim>\<open>internal/controlplane/store.go\<close>, \<^verbatim>\<open>platformdb/catalog.sql.go\<close>)
  and the endpoints \<^verbatim>\<open>/v1/services\<close> of the administrator (\<^verbatim>\<open>catalog_admin.go\<close>).  The JSON columns of a
  row hold the encoding of a value, and are that value here.
\<close>

section \<open>Tables and transactions\<close>

record catalog_row =
  crEntry :: catalog_entry
  crEnabled :: bool
  crSource :: string

type_synonym catalog_table = "catalog_row list"

abbreviation crID :: "catalog_row \<Rightarrow> string" where
  "crID r \<equiv> ServiceID (crEntry r)"

abbreviation crPath :: "catalog_row \<Rightarrow> string" where
  "crPath r \<equiv> PublicPath (crEntry r)"

text \<open>The classes of errors of the database that the code distinguishes, and the errors of the store.\<close>

datatype db_error = UniqueFailed | CheckFailed | ForeignKeyFailed | NoRows | DbFailure string

datatype store_error =
    StoreDb db_error
  | ErrCatalogBuiltinMutation
  | ErrCatalogPathConflict
  | ErrSubjectServiceGrantNotFound
  | ErrTenantInstanceNotFound
  | ErrMemoryBankProjectNotShareable
  | ErrMemoryBankInvalidMetadata
  | ErrMemoryBankShareExpired
  | StoreError string

text \<open>
  \<^verbatim>\<open>withTx\<close>: a transaction that fails in its body or at its end leaves the state as it was;
  \<^verbatim>\<open>fault\<close> is a failure of the database while it runs.
\<close>

definition with_tx :: "db_error option \<Rightarrow> 's \<Rightarrow> ('s \<Rightarrow> (store_error, 's) result)
    \<Rightarrow> 's \<times> (store_error, unit) result" where
  "with_tx fault s f =
     (case fault of
        Some e \<Rightarrow> (s, Inl (StoreDb e))
      | None \<Rightarrow> (case f s of Inl e \<Rightarrow> (s, Inl e) | Inr s' \<Rightarrow> (s', Inr ())))"

lemma with_tx_Inr: "with_tx fault s f = (s', Inr u) \<longleftrightarrow> fault = None \<and> f s = Inr s'"
  by (auto simp: with_tx_def split: option.splits sum.splits)

lemma with_tx_Inl: "with_tx fault s f = (s', Inl e) \<Longrightarrow> s' = s"
  by (auto simp: with_tx_def split: option.splits sum.splits)

lemma with_tx_cases: "fst (with_tx fault s f) = s \<or> f s = Inr (fst (with_tx fault s f))"
  by (auto simp: with_tx_def split: option.splits sum.splits)

section \<open>Catalog queries\<close>

definition catalog_ok :: "catalog_table \<Rightarrow> bool" where
  "catalog_ok t = (distinct (map crID t) \<and> distinct (map crPath t))"

definition q_GetServiceCatalogEntry :: "catalog_table \<Rightarrow> string \<Rightarrow> (db_error, catalog_row) result" where
  "q_GetServiceCatalogEntry t sid =
     (case find (\<lambda>r. crID r = sid) t of None \<Rightarrow> Inl NoRows | Some r \<Rightarrow> Inr r)"

definition q_GetEnabledServiceCatalogEntry :: "catalog_table \<Rightarrow> string \<Rightarrow> (db_error, catalog_row) result" where
  "q_GetEnabledServiceCatalogEntry t sid =
     (case find (\<lambda>r. crID r = sid \<and> crEnabled r) t of None \<Rightarrow> Inl NoRows | Some r \<Rightarrow> Inr r)"

definition q_ListServiceCatalog :: "catalog_table \<Rightarrow> catalog_row list" where
  "q_ListServiceCatalog t = sort_key crID t"

definition q_ListEnabledServiceCatalog :: "catalog_table \<Rightarrow> catalog_row list" where
  "q_ListEnabledServiceCatalog t = sort_key crID (filter crEnabled t)"

definition q_ListEnabledServiceIDs :: "catalog_table \<Rightarrow> string list" where
  "q_ListEnabledServiceIDs t = sort (map crID (filter crEnabled t))"

text \<open>The upsert, with the constraints of the schema on the transport and on the public path.\<close>

definition q_UpsertServiceCatalogEntry :: "catalog_table \<Rightarrow> catalog_row \<Rightarrow> (db_error, catalog_table) result" where
  "q_UpsertServiceCatalogEntry t row =
     (if TransportType (crEntry row) \<noteq> TransportStreamableHTTP \<and> TransportType (crEntry row) \<noteq> TransportSSE
      then Inl CheckFailed
      else if list_ex (\<lambda>r. crID r \<noteq> crID row \<and> crPath r = crPath row) t then Inl UniqueFailed
      else if list_ex (\<lambda>r. crID r = crID row) t
      then Inr (map (\<lambda>r. if crID r = crID row then row else r) t)
      else Inr (t @ [row]))"

definition q_DisableServiceCatalogEntry :: "catalog_table \<Rightarrow> string \<Rightarrow> catalog_table" where
  "q_DisableServiceCatalogEntry t sid = map (\<lambda>r. if crID r = sid then r\<lparr>crEnabled := False\<rparr> else r) t"

definition q_DisableServiceCatalogEntriesNotIn :: "catalog_table \<Rightarrow> string list \<Rightarrow> catalog_table" where
  "q_DisableServiceCatalogEntriesNotIn t ids =
     map (\<lambda>r. if crID r \<notin> set ids \<and> crSource r = ''builtin'' then r\<lparr>crEnabled := False\<rparr> else r) t"

definition q_DisableAllBuiltinServiceCatalogEntries :: "catalog_table \<Rightarrow> catalog_table" where
  "q_DisableAllBuiltinServiceCatalogEntries t =
     map (\<lambda>r. if crSource r = ''builtin'' then r\<lparr>crEnabled := False\<rparr> else r) t"

section \<open>Store operations\<close>

text \<open>What the columns keep of an entry: the identity context normalised, no capabilities.\<close>

definition stored_entry :: "catalog_entry \<Rightarrow> catalog_entry" where
  "stored_entry e = e\<lparr>IdentityContext := ModeNormalized (IdentityContext e), Capabilities := []\<rparr>"

text \<open>\<^verbatim>\<open>SeedServiceCatalog\<close>, which runs outside a transaction and stops at the first error.\<close>

fun seed_entries :: "catalog_table \<Rightarrow> catalog_entry list \<Rightarrow> catalog_table \<times> (store_error, unit) result" where
  "seed_entries t [] = (t, Inr ())"
| "seed_entries t (e # es) =
     (case q_UpsertServiceCatalogEntry t \<lparr>crEntry = stored_entry e, crEnabled = True, crSource = ''builtin''\<rparr> of
        Inl err \<Rightarrow> (t, Inl (StoreDb err))
      | Inr t' \<Rightarrow> seed_entries t' es)"

definition seed_with :: "catalog_entry list \<Rightarrow> catalog_table \<Rightarrow> catalog_table \<times> (store_error, unit) result" where
  "seed_with es t =
     (case seed_entries t es of
        (t', Inl err) \<Rightarrow> (t', Inl err)
      | (t', Inr _) \<Rightarrow>
          (if es \<noteq> [] then q_DisableServiceCatalogEntriesNotIn t' (map ServiceID es)
           else q_DisableAllBuiltinServiceCatalogEntries t', Inr ()))"

definition SeedServiceCatalog :: "catalog_table \<Rightarrow> catalog_table \<times> (store_error, unit) result" where
  "SeedServiceCatalog t = seed_with DefaultCatalogV1 t"

fun paths_overlap :: "string \<Rightarrow> string \<Rightarrow> bool" where
  "paths_overlap p q = (p = q \<or> has_prefix p (q @ [slash]) \<or> has_prefix q (p @ [slash]))"

definition ensureNoPublicPathConflict :: "catalog_table \<Rightarrow> string \<Rightarrow> string \<Rightarrow> (store_error, unit) result" where
  "ensureNoPublicPathConflict t serviceID publicPath =
     guard (\<not> list_ex (\<lambda>r. crID r \<noteq> serviceID \<and> crEnabled r
         \<and> paths_overlap (trim_right slash publicPath) (trim_right slash (crPath r)))
       (q_ListServiceCatalog t)) ErrCatalogPathConflict"

definition upsert_admin_body :: "catalog_entry \<Rightarrow> catalog_table \<Rightarrow> (store_error, catalog_table) result" where
  "upsert_admin_body e t =
     (if (case q_GetServiceCatalogEntry t (ServiceID e) of Inr r \<Rightarrow> crSource r = ''builtin'' | Inl _ \<Rightarrow> False)
      then Inl ErrCatalogBuiltinMutation
      else bind_result (ensureNoPublicPathConflict t (ServiceID e) (PublicPath e)) (\<lambda>_.
        case q_UpsertServiceCatalogEntry t \<lparr>crEntry = stored_entry e, crEnabled = True, crSource = ''admin_api''\<rparr> of
          Inl err \<Rightarrow> Inl (StoreDb err)
        | Inr t' \<Rightarrow> Inr t'))"

definition UpsertAdminServiceCatalogEntry :: "db_error option \<Rightarrow> catalog_table \<Rightarrow> catalog_entry
    \<Rightarrow> catalog_table \<times> (store_error, unit) result" where
  "UpsertAdminServiceCatalogEntry fault t e = with_tx fault t (upsert_admin_body e)"

definition disable_body :: "string \<Rightarrow> catalog_table \<Rightarrow> (store_error, catalog_table) result" where
  "disable_body sid t =
     (case q_GetServiceCatalogEntry t sid of
        Inl e \<Rightarrow> Inl (StoreDb e)
      | Inr r \<Rightarrow>
          if crSource r = ''builtin'' then Inl ErrCatalogBuiltinMutation
          else Inr (q_DisableServiceCatalogEntry t sid))"

definition DisableServiceCatalogEntry :: "db_error option \<Rightarrow> catalog_table \<Rightarrow> string
    \<Rightarrow> catalog_table \<times> (store_error, unit) result" where
  "DisableServiceCatalogEntry fault t sid = with_tx fault t (disable_body sid)"

section \<open>The administrator's endpoints\<close>

text \<open>
  An answer: the plain 404 page, an error body, 405 with the allowed methods, 204, or 200 with a body.
\<close>

datatype 'b admin_answer =
  AdminNotFound | AdminError nat string | AdminNotAllowed "http_method list" | AdminNoContent | AdminOk 'b

text \<open>\<^verbatim>\<open>secrets.go\<close>; \<^verbatim>\<open>read\<close> is the content of a file, if it can be read.\<close>

definition ReadSecretFromFile :: "(string \<Rightarrow> string option) \<Rightarrow> string \<Rightarrow> (string, string) result" where
  "ReadSecretFromFile read filePath =
     (if blank filePath then Inl ''secret file path is required''
      else case read (trim_space filePath) of
          None \<Rightarrow> Inl ''read secret file''
        | Some content \<Rightarrow>
            if blank content then Inl ''secret file is empty'' else Inr (trim_space content))"

definition bearerToken :: "string \<Rightarrow> string" where
  "bearerToken header =
     (case go_fields header of [scheme, tok] \<Rightarrow> if equal_fold scheme ''Bearer'' then tok else [] | _ \<Rightarrow> [])"

text \<open>\<^verbatim>\<open>None\<close> lets the request pass.\<close>

definition requireAdminToken :: "(string \<Rightarrow> string option) \<Rightarrow> string \<Rightarrow> string \<Rightarrow> (nat \<times> string) option" where
  "requireAdminToken read adminTokenPath authorization =
     (if adminTokenPath = [] then Some (401, ''admin_api_not_configured'')
      else case ReadSecretFromFile read adminTokenPath of
          Inl _ \<Rightarrow> Some (500, ''admin_token_unavailable'')
        | Inr expected \<Rightarrow>
            if bearerToken authorization = [] \<or> bearerToken authorization \<noteq> expected
            then Some (401, ''unauthorized'') else None)"

definition validateServiceID :: "string \<Rightarrow> (string, unit) result" where
  "validateServiceID serviceID = guard (service_id_ok (trim_space serviceID)) ''service_id must match''"

definition control_char :: "char \<Rightarrow> bool" where
  "control_char c = ((of_char c :: nat) < 0x20 \<or> (of_char c :: nat) = 0x7F)"

definition validateCatalogPath :: "string \<Rightarrow> string \<Rightarrow> bool \<Rightarrow> (string, unit) result" where
  "validateCatalogPath name value allowRoot =
     (if value = [] \<or> \<not> has_prefix value [slash] then Inl (name @ '' must be an absolute path'')
      else if value = [slash] then guard allowRoot (name @ '' must not be root'')
      else if sublist [slash, slash] value \<or> list_ex (\<lambda>c. c \<in> set [CHR 0x5C, CHR 0x3F, CHR 0x23, CHR 0x20]) value
      then Inl (name @ '' contains an invalid path segment'')
      else if sublist ''%2f'' (to_lower value) \<or> sublist ''%5c'' (to_lower value)
      then Inl (name @ '' contains an encoded slash'')
      else if list_ex control_char value then Inl (name @ '' contains a control character'')
      else guard (\<not> list_ex (\<lambda>segment. segment = ''.'' \<or> segment = ''..'' \<or> segment = [])
          (split_char slash (trim_both slash value)))
        (name @ '' contains an invalid path segment''))"

definition control_reserved_roots :: "string list" where
  "control_reserved_roots =
     [''/health'', ''/health/live'', ''/health/ready'', ''/auth'', ''/oauth'', ''/.well-known'', ''/v1'']"

definition publicPathReservedForControlPlane :: "string \<Rightarrow> bool" where
  "publicPathReservedForControlPlane publicPath = list_ex (path_under publicPath) control_reserved_roots"

fun first_failed :: "(string, unit) result list \<Rightarrow> (string, unit) result" where
  "first_failed [] = Inr ()"
| "first_failed (r # rs) = (case r of Inl e \<Rightarrow> Inl e | Inr _ \<Rightarrow> first_failed rs)"

definition validateServiceCatalogEntry :: "catalog_entry \<Rightarrow> (string, unit) result" where
  "validateServiceCatalogEntry e = first_failed
     [validateServiceID (ServiceID e),
      guard (DisplayName e \<noteq> []) ''display_name is required'',
      guard (UpstreamServiceName e \<noteq> []) ''upstream_service_name is required'',
      guard (HealthProbeExpectation e \<noteq> []) ''health_probe_expectation is required'',
      guard (ResourceProfile e \<noteq> []) ''resource_profile is required'',
      guard (PersistencePolicy e \<noteq> []) ''persistence_policy is required'',
      guard (TransportType e = TransportStreamableHTTP \<or> TransportType e = TransportSSE)
        ''transport_type must be one of: streamable-http, sse'',
      guard (AdapterRequirement e = AdapterNone \<or> AdapterRequirement e = AdapterPathTranslation
          \<or> AdapterRequirement e = AdapterSSEToStreamableHTTP)
        ''adapter_requirement must be one of: none, path-translation, sse-to-streamable-http'',
      guard (ModeNormalized (IdentityContext e) = ModeNone \<or> ModeNormalized (IdentityContext e) = ModeSignedHeaders)
        ''identity_context.mode must be one of: none, signed-headers'',
      guard (1 \<le> InternalPort e \<and> InternalPort e \<le> 65535) ''internal_port must be between 1 and 65535'',
      validateCatalogPath ''public_path'' (PublicPath e) False,
      validateCatalogPath ''internal_upstream_path'' (InternalUpstreamPath e) True,
      validateCatalogPath ''health_path'' (HealthPath e) True,
      guard (\<not> publicPathReservedForControlPlane (PublicPath e)) ''public_path conflicts with a reserved edge route'',
      guard (\<not> list_ex (\<lambda>s. blank (SecretKey s)) (SecretContract e)) ''secret_contract key is required'']"

definition sqliteUniqueConstraint :: "store_error \<Rightarrow> bool" where
  "sqliteUniqueConstraint e =
     (case e of
        StoreDb UniqueFailed \<Rightarrow> True
      | StoreDb (DbFailure m) \<Rightarrow> sublist ''UNIQUE constraint failed'' m
      | StoreError m \<Rightarrow> sublist ''UNIQUE constraint failed'' m
      | _ \<Rightarrow> False)"

definition catalogAdminErrorResponse :: "store_error \<Rightarrow> nat \<times> string" where
  "catalogAdminErrorResponse e =
     (if e = ErrCatalogBuiltinMutation then (409, ''builtin_service_locked'')
      else if e = ErrCatalogPathConflict \<or> sqliteUniqueConstraint e then (409, ''public_path_conflict'')
      else if e = StoreDb NoRows then (404, ''service_not_found'')
      else (500, ''service_catalog_operation_failed''))"

text \<open>
  A request to the administrator's API.  \<^verbatim>\<open>cqBody\<close> is the decoded body, whose service identifier and
  capabilities are not read, or \<^verbatim>\<open>None\<close> for a body that does not decode; \<^verbatim>\<open>cqFault\<close> is a failure of the database
  in the operation, \<^verbatim>\<open>cqLoadFault\<close> one in the reading back of an entry that was written.
\<close>

record catalog_admin_request =
  cqMethod :: http_method
  cqPath :: string
  cqAuthorization :: string
  cqBody :: "catalog_entry option"
  cqFault :: "db_error option"
  cqLoadFault :: "db_error option"

definition load_entry :: "db_error option \<Rightarrow> catalog_table \<Rightarrow> string \<Rightarrow> (store_error, catalog_row) result" where
  "load_entry fault t sid =
     (case fault of
        Some e \<Rightarrow> Inl (StoreDb e)
      | None \<Rightarrow> (case q_GetServiceCatalogEntry t sid of Inl e \<Rightarrow> Inl (StoreDb e) | Inr r \<Rightarrow> Inr r))"

definition handleServices :: "(string \<Rightarrow> string option) \<Rightarrow> string \<Rightarrow> catalog_table \<Rightarrow> catalog_admin_request
    \<Rightarrow> catalog_row list admin_answer" where
  "handleServices read tokenPath t r =
     (if cqPath r \<noteq> ''/v1/services'' then AdminNotFound
      else case requireAdminToken read tokenPath (cqAuthorization r) of
          Some (status, code') \<Rightarrow> AdminError status code'
        | None \<Rightarrow>
            if cqMethod r \<noteq> GET then AdminNotAllowed [GET]
            else if cqFault r \<noteq> None then AdminError 500 ''list_service_catalog_failed''
            else AdminOk (q_ListServiceCatalog t))"

definition entry_of_request :: "string \<Rightarrow> catalog_entry \<Rightarrow> catalog_entry" where
  "entry_of_request serviceID q =
     q\<lparr>ServiceID := serviceID, DisplayName := trim_space (DisplayName q),
       UpstreamServiceName := trim_space (UpstreamServiceName q),
       PublicPath := trim_right slash (trim_space (PublicPath q)),
       InternalUpstreamPath := trim_right slash (trim_space (InternalUpstreamPath q)),
       HealthPath := trim_right slash (trim_space (HealthPath q)),
       HealthProbeExpectation := trim_space (HealthProbeExpectation q),
       ResourceProfile := trim_space (ResourceProfile q),
       PersistencePolicy := trim_space (PersistencePolicy q),
       IdentityContext := ModeNormalized (IdentityContext q), Capabilities := []\<rparr>"

definition handleServicePut :: "catalog_table \<Rightarrow> catalog_admin_request \<Rightarrow> string
    \<Rightarrow> catalog_table \<times> catalog_row admin_answer" where
  "handleServicePut t r serviceID =
     (case cqBody r of
        None \<Rightarrow> (t, AdminError 400 ''invalid_json'')
      | Some q \<Rightarrow>
        (let e = entry_of_request serviceID q in
         case validateServiceCatalogEntry e of
           Inl msg \<Rightarrow> (t, AdminError 400 msg)
         | Inr _ \<Rightarrow>
           (case UpsertAdminServiceCatalogEntry (cqFault r) t e of
              (t', Inl err) \<Rightarrow> (t', case catalogAdminErrorResponse err of (s, c) \<Rightarrow> AdminError s c)
            | (t', Inr _) \<Rightarrow>
              (case load_entry (cqLoadFault r) t' (ServiceID e) of
                 Inl _ \<Rightarrow> (t', AdminError 500 ''load_service_failed'')
               | Inr row \<Rightarrow> (t', AdminOk row)))))"

definition handleServiceDelete :: "catalog_table \<Rightarrow> catalog_admin_request \<Rightarrow> string
    \<Rightarrow> catalog_table \<times> catalog_row admin_answer" where
  "handleServiceDelete t r serviceID =
     (case validateServiceID serviceID of
        Inl msg \<Rightarrow> (t, AdminError 400 msg)
      | Inr _ \<Rightarrow>
        (case DisableServiceCatalogEntry (cqFault r) t serviceID of
           (t', Inl err) \<Rightarrow> (t', case catalogAdminErrorResponse err of (s, c) \<Rightarrow> AdminError s c)
         | (t', Inr _) \<Rightarrow> (t', AdminNoContent)))"

definition handleService :: "(string \<Rightarrow> string option) \<Rightarrow> string \<Rightarrow> catalog_table \<Rightarrow> catalog_admin_request
    \<Rightarrow> catalog_table \<times> catalog_row admin_answer" where
  "handleService read tokenPath t r =
     (let serviceID = trim_space (trim_prefix (cqPath r) ''/v1/services/'') in
      if serviceID = [] \<or> contains_char serviceID slash then (t, AdminNotFound)
      else case requireAdminToken read tokenPath (cqAuthorization r) of
          Some (status, code') \<Rightarrow> (t, AdminError status code')
        | None \<Rightarrow>
           (case cqMethod r of
              GET \<Rightarrow> (t, case load_entry (cqFault r) t serviceID of
                  Inl err \<Rightarrow> (case catalogAdminErrorResponse err of (s, c) \<Rightarrow> AdminError s c)
                | Inr row \<Rightarrow> AdminOk row)
            | PUT \<Rightarrow> handleServicePut t r serviceID
            | DELETE \<Rightarrow> handleServiceDelete t r serviceID
            | _ \<Rightarrow> (t, AdminNotAllowed [GET, PUT, DELETE])))"

section \<open>What the catalog keeps\<close>

lemma control_char_code [code]:
  "control_char (Char b0 b1 b2 b3 b4 b5 b6 b7) =
     (\<not> b5 \<and> \<not> b6 \<and> \<not> b7 \<or> b0 \<and> b1 \<and> b2 \<and> b3 \<and> b4 \<and> b5 \<and> b6 \<and> \<not> b7)"
  by (cases b0; cases b1; cases b2; cases b3; cases b4; cases b5; cases b6; cases b7)
     (simp_all add: control_char_def)

lemma first_failed_Inr: "first_failed rs = Inr () \<longleftrightarrow> list_all (\<lambda>r. r = Inr ()) rs"
  by (induction rs) (auto split: sum.splits)

lemma path_nonempty: "\<not> validateCatalogPath n [] b = Inr ()"
  by (simp add: validateCatalogPath_def)

lemma validate_paths:
  assumes "validateServiceCatalogEntry e = Inr ()"
  shows "service_id_ok (trim_space (ServiceID e)) \<and> has_prefix (PublicPath e) [slash]
    \<and> validateCatalogPath ''internal_upstream_path'' (InternalUpstreamPath e) True = Inr ()
    \<and> validateCatalogPath ''health_path'' (HealthPath e) True = Inr ()
    \<and> \<not> publicPathReservedForControlPlane (PublicPath e)"
proof -
  have facts: "validateServiceID (ServiceID e) = Inr ()"
    "validateCatalogPath ''public_path'' (PublicPath e) False = Inr ()"
    "validateCatalogPath ''internal_upstream_path'' (InternalUpstreamPath e) True = Inr ()"
    "validateCatalogPath ''health_path'' (HealthPath e) True = Inr ()"
    "\<not> publicPathReservedForControlPlane (PublicPath e)"
    using assms unfolding validateServiceCatalogEntry_def first_failed_Inr
    by (simp_all only: list.pred_inject guard_Inr_iff) simp_all
  moreover have "has_prefix (PublicPath e) [slash]"
    using facts(2) by (simp add: validateCatalogPath_def split: if_splits)
  ultimately show ?thesis by (simp add: validateServiceID_def)
qed

lemma paths_overlap_sym: "paths_overlap p q = paths_overlap q p"
  by auto

definition no_overlap :: "catalog_table \<Rightarrow> bool" where
  "no_overlap t = list_all (\<lambda>r. list_all (\<lambda>q.
     crEnabled r \<and> crEnabled q \<and> crID r \<noteq> crID q \<longrightarrow> \<not> paths_overlap (crPath r) (crPath q)) t) t"

definition row_valid :: "catalog_row \<Rightarrow> bool" where
  "row_valid r =
     (validateServiceCatalogEntry (crEntry r) = Inr () \<and> trim_right slash (crPath r) = crPath r
      \<and> trim_space (crID r) = crID r)"

definition catalog_inv :: "catalog_table \<Rightarrow> bool" where
  "catalog_inv t = (catalog_ok t \<and> list_all row_valid t \<and> no_overlap t)"

lemma catalog_upsert_cases:
  assumes "catalog_ok t" "q_UpsertServiceCatalogEntry t row = Inr t'"
  shows "catalog_ok t' \<and> set t' = insert row {r \<in> set t. crID r \<noteq> crID row}"
proof -
  from assms(2) have other: "\<forall>r \<in> set t. crID r \<noteq> crID row \<longrightarrow> crPath r \<noteq> crPath row"
    and t': "t' = (if list_ex (\<lambda>r. crID r = crID row) t
        then map (\<lambda>r. if crID r = crID row then row else r) t else t @ [row])"
    by (auto simp: q_UpsertServiceCatalogEntry_def list_ex_iff split: if_splits)
  show ?thesis
  proof (cases "list_ex (\<lambda>r. crID r = crID row) t")
    case True
    then have t'': "t' = map (\<lambda>r. if crID r = crID row then row else r) t" using t' by simp
    have ids: "map crID t' = map crID t" unfolding t'' by (auto simp: comp_def)
    have "inj_on crPath (set t')" if "distinct t"
      using assms(1) other unfolding t'' by (auto simp: catalog_ok_def distinct_map inj_on_def)
    moreover have "distinct t" using assms(1) by (auto simp: catalog_ok_def distinct_map)
    moreover have "distinct t'" using ids assms(1) by (metis catalog_ok_def distinct_map)
    ultimately have "catalog_ok t'"
      using ids assms(1) by (simp add: catalog_ok_def distinct_map)
    moreover have "set t' = insert row {r \<in> set t. crID r \<noteq> crID row}"
      using True unfolding t'' by (auto simp: list_ex_iff)
    ultimately show ?thesis by simp
  next
    case False
    then have "crID row \<notin> crID ` set t" by (auto simp: list_ex_iff)
    moreover have "crPath row \<notin> crPath ` set t" using other False by (auto simp: list_ex_iff)
    ultimately show ?thesis using t' False assms(1) by (auto simp: catalog_ok_def list_ex_iff)
  qed
qed

lemma disable_maps_ok:
  assumes "catalog_inv t" "\<And>r. f r = r \<or> f r = r\<lparr>crEnabled := False\<rparr>"
  shows "catalog_inv (map f t)"
proof -
  have e: "crEntry (f r) = crEntry r" "crEnabled (f r) \<Longrightarrow> crEnabled r" for r
    using assms(2)[of r] by auto
  have m: "map crID (map f t) = map crID t" "map crPath (map f t) = map crPath t"
    by (simp_all add: e comp_def)
  then have "catalog_ok (map f t)" using assms(1) by (simp only: catalog_inv_def catalog_ok_def)
  then show ?thesis
    using assms(1) e by (auto simp: catalog_inv_def no_overlap_def row_valid_def list_all_iff)
qed

lemma seed_inv: "catalog_inv t \<Longrightarrow> catalog_inv (fst (SeedServiceCatalog t))"
  by (auto simp: SeedServiceCatalog_def seed_with_def DefaultCatalogV1_def
      q_DisableAllBuiltinServiceCatalogEntries_def intro!: disable_maps_ok)

lemma no_overlap_insert:
  assumes "no_overlap t" "set t' = insert row {r \<in> set t. crID r \<noteq> crID row}"
    "\<forall>r \<in> set t. crID r \<noteq> crID row \<and> crEnabled r \<longrightarrow> \<not> paths_overlap (crPath row) (crPath r)"
  shows "no_overlap t'"
  using assms paths_overlap_sym by (fastforce simp: no_overlap_def list_all_iff simp del: paths_overlap.simps)

lemma validate_stored: "validateServiceCatalogEntry (stored_entry e) = validateServiceCatalogEntry e"
  by (simp add: validateServiceCatalogEntry_def stored_entry_def)

lemma upsert_admin_inv:
  assumes "catalog_inv t" "upsert_admin_body e t = Inr t'" "row_valid \<lparr>crEntry = e, crEnabled = True, crSource = s\<rparr>"
  shows "catalog_inv t'"
proof -
  let ?row = "\<lparr>crEntry = stored_entry e, crEnabled = True, crSource = ''admin_api''\<rparr>"
  have inv: "catalog_ok t" "list_all row_valid t" "no_overlap t"
    using assms(1) by (simp_all add: catalog_inv_def)
  have up: "q_UpsertServiceCatalogEntry t ?row = Inr t'"
    and free: "ensureNoPublicPathConflict t (ServiceID e) (PublicPath e) = Inr ()"
    using assms(2) by (auto simp: upsert_admin_body_def result_simps split: if_splits sum.splits)
  from catalog_upsert_cases[OF inv(1) up] have t': "catalog_ok t'" "set t' = insert ?row {r \<in> set t. crID r \<noteq> crID ?row}"
    by blast+
  have id: "crID ?row = ServiceID e" "crPath ?row = PublicPath e" by (simp_all add: stored_entry_def)
  have trims: "trim_right slash (PublicPath e) = PublicPath e"
    "\<forall>r \<in> set t. trim_right slash (crPath r) = crPath r"
    using assms(3) inv(2) by (auto simp: row_valid_def list_all_iff)
  have "\<forall>r \<in> set t. crID r \<noteq> crID ?row \<and> crEnabled r \<longrightarrow> \<not> paths_overlap (crPath ?row) (crPath r)"
    using free trims unfolding id
    by (auto simp: ensureNoPublicPathConflict_def q_ListServiceCatalog_def list_ex_iff simp del: paths_overlap.simps)
  from no_overlap_insert[OF inv(3) t'(2) this] have "no_overlap t'" .
  moreover have "row_valid ?row"
    using assms(3) by (simp add: row_valid_def validate_stored) (simp add: stored_entry_def)
  ultimately show ?thesis using t' inv(2) by (auto simp: catalog_inv_def list_all_iff)
qed

lemma entry_of_request_valid:
  assumes "validateServiceCatalogEntry (entry_of_request (trim_space p) q) = Inr ()"
  shows "row_valid \<lparr>crEntry = entry_of_request (trim_space p) q, crEnabled = True, crSource = s\<rparr>"
  using assms by (simp add: row_valid_def) (simp add: entry_of_request_def)

lemma handleServicePut_inv:
  assumes "catalog_inv t"
  shows "catalog_inv (fst (handleServicePut t r (trim_space p)))"
proof (cases "cqBody r")
  case None
  then show ?thesis using assms by (simp add: handleServicePut_def)
next
  case (Some q)
  let ?e = "entry_of_request (trim_space p) q"
  show ?thesis
  proof (cases "validateServiceCatalogEntry ?e")
    case (Inl e)
    then show ?thesis using assms Some by (simp add: handleServicePut_def)
  next
    case (Inr u)
    have "catalog_inv (fst (UpsertAdminServiceCatalogEntry (cqFault r) t ?e))"
      using with_tx_cases[of "cqFault r" t "upsert_admin_body ?e"]
        upsert_admin_inv[OF assms _ entry_of_request_valid] Inr assms
      unfolding UpsertAdminServiceCatalogEntry_def by (metis old.unit.exhaust)
    moreover have "fst (handleServicePut t r (trim_space p)) = fst (UpsertAdminServiceCatalogEntry (cqFault r) t ?e)"
      using Some Inr by (simp add: handleServicePut_def Let_def split: prod.splits sum.splits)
    ultimately show ?thesis by simp
  qed
qed

lemma handleServiceDelete_inv:
  assumes "catalog_inv t"
  shows "catalog_inv (fst (handleServiceDelete t r sid))"
proof -
  have "catalog_inv t'" if "disable_body sid t = Inr t'" for t'
    using that assms
    by (auto simp: disable_body_def q_DisableServiceCatalogEntry_def intro!: disable_maps_ok
        split: sum.splits if_splits)
  then have "catalog_inv (fst (DisableServiceCatalogEntry (cqFault r) t sid))"
    using with_tx_cases[of "cqFault r" t "disable_body sid"] assms
    unfolding DisableServiceCatalogEntry_def by metis
  then show ?thesis
    using assms by (auto simp: handleServiceDelete_def split: sum.splits prod.splits)
qed

lemma handleService_inv:
  assumes "catalog_inv t"
  shows "catalog_inv (fst (handleService read tp t r))"
  using assms handleServicePut_inv[OF assms] handleServiceDelete_inv[OF assms]
  by (auto simp: handleService_def Let_def split: option.splits http_method.splits)

text \<open>
  The validation allows the root as the path of the upstream and of its health check, but the handler has
  cut the slash off before: such a request is refused.
\<close>

lemma root_path_refused:
  assumes "trim_space (HealthPath q) = [slash] \<or> trim_space (InternalUpstreamPath q) = [slash]"
  shows "\<not> is_ok (validateServiceCatalogEntry (entry_of_request sid q))"
proof
  assume "is_ok (validateServiceCatalogEntry (entry_of_request sid q))"
  then have "validateServiceCatalogEntry (entry_of_request sid q) = Inr ()" by (auto simp: is_ok_iff)
  from validate_paths[OF this] have "HealthPath (entry_of_request sid q) \<noteq> []"
    "InternalUpstreamPath (entry_of_request sid q) \<noteq> []" by (auto simp: path_nonempty)
  with assms show False by (auto simp: entry_of_request_def trim_right_def)
qed

text \<open>What happens to the catalog: the seeding at the start of an instance, and requests of the administrator.\<close>

datatype catalog_op = CatalogSeed | CatalogCall catalog_admin_request

fun catalog_step :: "(string \<Rightarrow> string option) \<Rightarrow> string \<Rightarrow> catalog_table \<Rightarrow> catalog_op \<Rightarrow> catalog_table" where
  "catalog_step read tp t CatalogSeed = fst (SeedServiceCatalog t)"
| "catalog_step read tp t (CatalogCall r) = fst (handleService read tp t r)"

definition catalog_exec :: "(string \<Rightarrow> string option) \<Rightarrow> string \<Rightarrow> catalog_op list \<Rightarrow> catalog_table" where
  "catalog_exec read tp ops = foldl (catalog_step read tp) [] ops"

lemma catalog_exec_inv: "catalog_inv (catalog_exec read tp ops)"
proof -
  have "catalog_inv t \<Longrightarrow> catalog_inv (foldl (catalog_step read tp) t ops)" for t
  proof (induction ops arbitrary: t)
    case (Cons x xs)
    then show ?case by (cases x) (auto simp: seed_inv handleService_inv)
  qed simp
  moreover have "catalog_inv []" by (simp add: catalog_inv_def catalog_ok_def no_overlap_def)
  ultimately show ?thesis by (simp add: catalog_exec_def)
qed

section \<open>The edge reads what the control plane wrote\<close>

definition edge_catalog :: "catalog_table \<Rightarrow> catalog_entry list" where
  "edge_catalog t = map crEntry (q_ListEnabledServiceCatalog t)"

lemma reserved_for_both: "publicPathReserved p \<Longrightarrow> publicPathReservedForControlPlane p"
  by (auto simp: publicPathReserved_def publicPathReservedForControlPlane_def reserved_roots_def
      control_reserved_roots_def)

lemma row_valid_edge:
  assumes "row_valid r" "trim_space (crPath r) = crPath r"
  shows "entry_valid (crEntry r) \<and> clean_entry (crEntry r) = crEntry r"
proof -
  have r: "validateServiceCatalogEntry (crEntry r) = Inr ()" "trim_right slash (crPath r) = crPath r"
    "trim_space (crID r) = crID r" using assms(1) by (simp_all add: row_valid_def)
  show ?thesis
    using validate_paths[OF r(1)] r(2,3) assms(2) reserved_for_both
    by (auto simp: entry_valid_def clean_entry_def clean_path_def)
qed

lemma sort_filter_distinct:
  assumes "distinct (map f t)"
  shows "distinct (map f (sort_key g (filter P t)))"
  using assms by (simp add: distinct_map distinct_filter inj_on_def)

lemma edge_accepts:
  assumes "catalog_inv t" "list_all (\<lambda>r. crEnabled r \<longrightarrow> trim_space (crPath r) = crPath r) t"
  shows "\<exists>s. newCatalogSnapshot (edge_catalog t) now = Inr s"
proof -
  let ?rows = "q_ListEnabledServiceCatalog t"
  have rows: "\<forall>r \<in> set ?rows. row_valid r \<and> trim_space (crPath r) = crPath r"
    using assms by (auto simp: catalog_inv_def list_all_iff q_ListEnabledServiceCatalog_def)
  then have clean: "map clean_entry (edge_catalog t) = edge_catalog t"
    using row_valid_edge by (auto simp: edge_catalog_def)
  have "distinct (map crID ?rows)" "distinct (map crPath ?rows)"
    using assms(1) sort_filter_distinct
    by (auto simp: catalog_inv_def catalog_ok_def q_ListEnabledServiceCatalog_def)
  then have "distinct (map ServiceID (edge_catalog t))" "distinct (map PublicPath (edge_catalog t))"
    by (simp_all add: edge_catalog_def comp_def)
  moreover have "list_all entry_valid (edge_catalog t)"
    using rows row_valid_edge by (auto simp: edge_catalog_def list_all_iff)
  ultimately show ?thesis unfolding newCatalogSnapshot_iff clean by blast
qed

end
