(* ===== verification/ControlGrants.thy ===== *)
theory ControlGrants
  imports ControlCatalog
begin

text \<open>
  Subjects and grants in the control plane's store (\<^verbatim>\<open>internal/controlplane/store.go\<close>,
  \<^verbatim>\<open>platformdb/controlplane.sql.go\<close>): sources of grants, written by the administrator (group \<^verbatim>\<open>manual\<close>) and by
  the synchronisation with the identity provider, and the effective grants computed from them, which the
  edge reads.  The connection enforces foreign keys.  Times in the rows are the stored texts;
  \<^verbatim>\<open>cnNow\<close> is the text of \<^verbatim>\<open>CURRENT_TIMESTAMP\<close>, and \<^verbatim>\<open>cnFormat\<close> is \<^verbatim>\<open>formatSQLiteTime\<close>.
\<close>

section \<open>Rows\<close>

record source_row =
  gsSubject :: string
  gsService :: string
  gsGroup :: string
  gsGrantedAt :: string
  gsSyncedAt :: string

record grant_row =
  grSubject :: string
  grService :: string
  grGroup :: string
  grGrantedAt :: string
  grSyncedAt :: string

record control_db =
  cdCatalog :: catalog_table
  cdSubjects :: "(string \<times> subject_row) list"
  cdSources :: "source_row list"
  cdGrants :: "grant_row list"
  cdTenants :: tenant_table

record control_clock =
  cnNow :: string
  cnTime :: time
  cnFormat :: "time \<Rightarrow> string"

record domain_subject =
  dsSub :: string
  dsKey :: string
  dsPreferredUsername :: string
  dsEmail :: string
  dsDisplayName :: string
  dsAccountBindingID :: string
  dsAccountBindingClaim :: string

record service_grant =
  sgSubject :: string
  sgService :: string
  sgGroup :: string
  sgGrantedAt :: time
  sgSyncedAt :: time

abbreviation source_key :: "source_row \<Rightarrow> string \<times> string" where
  "source_key r \<equiv> (gsSubject r, gsService r)"

abbreviation grant_key :: "grant_row \<Rightarrow> string \<times> string" where
  "grant_key r \<equiv> (grSubject r, grService r)"

abbreviation manual :: string where
  "manual \<equiv> ''manual''"

section \<open>Queries\<close>

text \<open>\<^verbatim>\<open>sqlNullString\<close> stores an empty string as NULL.\<close>

definition subject_columns :: "domain_subject \<Rightarrow> subject_row" where
  "subject_columns s =
     \<lparr>sbKey = dsKey s, sbPreferredUsername = nullif_empty (dsPreferredUsername s), sbEmail = nullif_empty (dsEmail s),
      sbDisplayName = nullif_empty (dsDisplayName s), sbAccountBindingID = nullif_empty (dsAccountBindingID s),
      sbAccountBindingClaim = nullif_empty (dsAccountBindingClaim s)\<rparr>"

definition key_taken :: "(string \<times> subject_row) list \<Rightarrow> string \<Rightarrow> string \<Rightarrow> bool" where
  "key_taken t sub k = list_ex (\<lambda>(s, r). s \<noteq> sub \<and> sbKey r = k) t"

definition q_UpsertSubject :: "(string \<times> subject_row) list \<Rightarrow> domain_subject
    \<Rightarrow> (db_error, (string \<times> subject_row) list) result" where
  "q_UpsertSubject t s =
     (if key_taken t (dsSub s) (dsKey s) then Inl UniqueFailed else Inr (put (dsSub s) (subject_columns s) t))"

fun or_else :: "'a option \<Rightarrow> 'a option \<Rightarrow> 'a option" where
  "or_else (Some x) _ = Some x"
| "or_else None y = y"

definition q_UpsertSubjectPreservingMetadata :: "(string \<times> subject_row) list \<Rightarrow> domain_subject
    \<Rightarrow> (db_error, (string \<times> subject_row) list) result" where
  "q_UpsertSubjectPreservingMetadata t s =
     (let new = subject_columns s in
      case map_of t (dsSub s) of
        None \<Rightarrow> if key_taken t (dsSub s) (dsKey s) then Inl UniqueFailed else Inr (put (dsSub s) new t)
      | Some old \<Rightarrow> Inr (put (dsSub s)
          \<lparr>sbKey = sbKey old,
           sbPreferredUsername = or_else (sbPreferredUsername new) (sbPreferredUsername old),
           sbEmail = or_else (sbEmail new) (sbEmail old),
           sbDisplayName = or_else (sbDisplayName new) (sbDisplayName old),
           sbAccountBindingID = or_else (sbAccountBindingID new) (sbAccountBindingID old),
           sbAccountBindingClaim = or_else (sbAccountBindingClaim new) (sbAccountBindingClaim old)\<rparr> t))"

definition q_GetSubject :: "(string \<times> subject_row) list \<Rightarrow> string \<Rightarrow> (db_error, subject_row) result" where
  "q_GetSubject t sub = (case map_of t sub of None \<Rightarrow> Inl NoRows | Some r \<Rightarrow> Inr r)"

definition q_DeleteSubjectGrants :: "grant_row list \<Rightarrow> string \<Rightarrow> grant_row list" where
  "q_DeleteSubjectGrants t sub = filter (\<lambda>r. grSubject r \<noteq> sub) t"

definition q_DeleteSubjectGrantSources :: "source_row list \<Rightarrow> string \<Rightarrow> source_row list" where
  "q_DeleteSubjectGrantSources t sub = filter (\<lambda>r. gsSubject r \<noteq> sub) t"

definition q_DeleteSubjectSyncedGrantSources :: "source_row list \<Rightarrow> string \<Rightarrow> source_row list" where
  "q_DeleteSubjectSyncedGrantSources t sub = filter (\<lambda>r. \<not> (gsSubject r = sub \<and> gsGroup r \<noteq> manual)) t"

definition q_DeleteManualServiceGrantSource :: "source_row list \<Rightarrow> string \<Rightarrow> string \<Rightarrow> source_row list" where
  "q_DeleteManualServiceGrantSource t sub sid =
     filter (\<lambda>r. \<not> (gsSubject r = sub \<and> gsService r = sid \<and> gsGroup r = manual)) t"

definition q_DeleteAllServiceGrants :: "source_row list \<Rightarrow> source_row list" where
  "q_DeleteAllServiceGrants t = filter (\<lambda>r. gsGroup r = manual) t"

definition q_DeleteStaleServiceGrants :: "source_row list \<Rightarrow> string list \<Rightarrow> source_row list" where
  "q_DeleteStaleServiceGrants t subs = filter (\<lambda>r. \<not> (gsGroup r \<noteq> manual \<and> gsSubject r \<notin> set subs)) t"

text \<open>
  The upsert of a source: on a conflict only \<^verbatim>\<open>last_synced_at\<close> changes; otherwise the subject and the
  service must exist.
\<close>

definition upsert_source :: "control_db \<Rightarrow> source_row \<Rightarrow> (db_error, source_row list) result" where
  "upsert_source db row =
     (let same = (\<lambda>r. source_key r = source_key row \<and> gsGroup r = gsGroup row) in
      if list_ex same (cdSources db)
      then Inr (map (\<lambda>r. if same r then r\<lparr>gsSyncedAt := gsSyncedAt row\<rparr> else r) (cdSources db))
      else if \<not> list_ex (\<lambda>(s, _). s = gsSubject row) (cdSubjects db)
           \<or> \<not> list_ex (\<lambda>r. crID r = gsService row) (cdCatalog db)
      then Inl ForeignKeyFailed
      else Inr (cdSources db @ [row]))"

definition q_InsertServiceGrantSource :: "control_db \<Rightarrow> string \<Rightarrow> string \<Rightarrow> string \<Rightarrow> string \<Rightarrow> string
    \<Rightarrow> (db_error, source_row list) result" where
  "q_InsertServiceGrantSource db sub sid grp grantedAt syncedAt =
     upsert_source db \<lparr>gsSubject = sub, gsService = sid, gsGroup = grp, gsGrantedAt = grantedAt, gsSyncedAt = syncedAt\<rparr>"

definition q_UpsertManualServiceGrantSource :: "control_db \<Rightarrow> string \<Rightarrow> string \<Rightarrow> string
    \<Rightarrow> (db_error, source_row list) result" where
  "q_UpsertManualServiceGrantSource db sub sid now =
     upsert_source db \<lparr>gsSubject = sub, gsService = sid, gsGroup = manual, gsGrantedAt = now, gsSyncedAt = now\<rparr>"

definition q_RebuildEffectiveServiceGrants :: "grant_row list \<Rightarrow> grant_row list" where
  "q_RebuildEffectiveServiceGrants t = []"

text \<open>\<^verbatim>\<open>MIN\<close> and \<^verbatim>\<open>MAX\<close> of texts, in the order of their bytes.\<close>

definition sql_min :: "string list \<Rightarrow> string" where
  "sql_min xs = (case xs of [] \<Rightarrow> [] | y # ys \<Rightarrow> foldl min y ys)"

definition sql_max :: "string list \<Rightarrow> string" where
  "sql_max xs = (case xs of [] \<Rightarrow> [] | y # ys \<Rightarrow> foldl max y ys)"

definition effective_grant :: "source_row list \<Rightarrow> string \<times> string \<Rightarrow> grant_row" where
  "effective_grant t k =
     (let rows = filter (\<lambda>r. source_key r = k) t in
      \<lparr>grSubject = fst k, grService = snd k,
       grGroup = (if list_ex (\<lambda>r. gsGroup r = manual) rows then manual else sql_min (map gsGroup rows)),
       grGrantedAt = sql_min (map gsGrantedAt rows), grSyncedAt = sql_max (map gsSyncedAt rows)\<rparr>)"

definition q_InsertEffectiveServiceGrantsFromSources :: "source_row list \<Rightarrow> grant_row list" where
  "q_InsertEffectiveServiceGrantsFromSources t = map (effective_grant t) (dedup (map source_key t))"

definition q_ListSubjectServiceGrants :: "control_db \<Rightarrow> string \<Rightarrow> grant_row list" where
  "q_ListSubjectServiceGrants db sub =
     sort_key grService (filter (\<lambda>g. grSubject g = sub
       \<and> list_ex (\<lambda>r. crID r = grService g \<and> crEnabled r) (cdCatalog db)) (cdGrants db))"

definition q_CountSubjectServiceGrant :: "control_db \<Rightarrow> string \<Rightarrow> string \<Rightarrow> nat" where
  "q_CountSubjectServiceGrant db sub sid =
     length (filter (\<lambda>g. grSubject g = sub \<and> grService g = sid
       \<and> list_ex (\<lambda>r. crID r = grService g \<and> crEnabled r) (cdCatalog db)) (cdGrants db))"

section \<open>Operations\<close>

definition lift_db :: "(db_error, 'a) result \<Rightarrow> (store_error, 'a) result" where
  "lift_db r = (case r of Inl e \<Rightarrow> Inl (StoreDb e) | Inr x \<Rightarrow> Inr x)"

lemma lift_db_Inr [simp]: "lift_db r = Inr x \<longleftrightarrow> r = Inr x"
  by (cases r) (simp_all add: lift_db_def)

definition UpsertSubject :: "db_error option \<Rightarrow> control_db \<Rightarrow> domain_subject
    \<Rightarrow> control_db \<times> (store_error, unit) result" where
  "UpsertSubject fault db s =
     with_tx fault db (\<lambda>db. bind_result (lift_db (q_UpsertSubject (cdSubjects db) s)) (\<lambda>t.
       Inr (db\<lparr>cdSubjects := t\<rparr>)))"

text \<open>The loop of \<^verbatim>\<open>insertGrants\<close>; a zero time is replaced by the current one.\<close>

fun insertGrants :: "control_clock \<Rightarrow> string \<Rightarrow> service_grant list \<Rightarrow> control_db \<Rightarrow> (store_error, control_db) result" where
  "insertGrants c sub [] db = Inr db"
| "insertGrants c sub (g # gs) db =
     (let grantedAt = (if sgGrantedAt g = 0 then cnTime c else sgGrantedAt g);
          syncedAt = (if sgSyncedAt g = 0 then cnTime c else sgSyncedAt g) in
      bind_result (lift_db (q_InsertServiceGrantSource db sub (sgService g) (sgGroup g)
          (cnFormat c grantedAt) (cnFormat c syncedAt))) (\<lambda>t.
        insertGrants c sub gs (db\<lparr>cdSources := t\<rparr>)))"

definition rebuildEffectiveServiceGrants :: "control_db \<Rightarrow> control_db" where
  "rebuildEffectiveServiceGrants db =
     db\<lparr>cdGrants := q_RebuildEffectiveServiceGrants (cdGrants db)
          @ q_InsertEffectiveServiceGrantsFromSources (cdSources db)\<rparr>"

definition replace_body :: "control_clock \<Rightarrow> string \<Rightarrow> service_grant list \<Rightarrow> control_db
    \<Rightarrow> (store_error, control_db) result" where
  "replace_body c sub grants db =
     bind_result (insertGrants c sub grants
         (db\<lparr>cdGrants := q_DeleteSubjectGrants (cdGrants db) sub,
             cdSources := q_DeleteSubjectGrantSources (cdSources db) sub\<rparr>))
       (\<lambda>db'. Inr (rebuildEffectiveServiceGrants db'))"

definition ReplaceSubjectGrants :: "db_error option \<Rightarrow> control_clock \<Rightarrow> control_db \<Rightarrow> string \<Rightarrow> service_grant list
    \<Rightarrow> control_db \<times> (store_error, unit) result" where
  "ReplaceSubjectGrants fault c db sub grants = with_tx fault db (replace_body c sub grants)"

text \<open>
  What \<^verbatim>\<open>UpsertManualServiceGrant\<close> and \<^verbatim>\<open>UpsertStaticTenantUpstream\<close> have in common: the service must be enabled,
  and the subject gets a key (\<^verbatim>\<open>key\<close> is \<^const>\<open>DeriveSubjectKey\<close>) and is stored.
\<close>

definition keyed_subject :: "(string \<Rightarrow> string) \<Rightarrow> domain_subject \<Rightarrow> domain_subject" where
  "keyed_subject key s = (if dsKey s = [] then s\<lparr>dsKey := key (dsSub s)\<rparr> else s)"

definition upsert_enabled_subject :: "(string \<Rightarrow> string) \<Rightarrow> domain_subject \<Rightarrow> string \<Rightarrow> control_db
    \<Rightarrow> (store_error, control_db) result" where
  "upsert_enabled_subject key s sid db =
     bind_result (lift_db (q_GetEnabledServiceCatalogEntry (cdCatalog db) sid)) (\<lambda>_.
     bind_result (lift_db (q_UpsertSubjectPreservingMetadata (cdSubjects db) (keyed_subject key s))) (\<lambda>t.
       Inr (db\<lparr>cdSubjects := t\<rparr>)))"

definition manual_body :: "(string \<Rightarrow> string) \<Rightarrow> control_clock \<Rightarrow> domain_subject \<Rightarrow> string \<Rightarrow> control_db
    \<Rightarrow> (store_error, control_db) result" where
  "manual_body key c s sid db =
     bind_result (upsert_enabled_subject key s sid db) (\<lambda>db'.
     bind_result (lift_db (q_UpsertManualServiceGrantSource db' (dsSub s) sid (cnNow c))) (\<lambda>t.
       Inr (rebuildEffectiveServiceGrants (db'\<lparr>cdSources := t\<rparr>))))"

definition UpsertManualServiceGrant :: "db_error option \<Rightarrow> (string \<Rightarrow> string) \<Rightarrow> control_clock \<Rightarrow> control_db
    \<Rightarrow> domain_subject \<Rightarrow> string \<Rightarrow> control_db \<times> (store_error, unit) result" where
  "UpsertManualServiceGrant fault key c db s sid = with_tx fault db (manual_body key c s sid)"

definition DeleteManualServiceGrant :: "db_error option \<Rightarrow> control_db \<Rightarrow> string \<Rightarrow> string
    \<Rightarrow> control_db \<times> (store_error, unit) result" where
  "DeleteManualServiceGrant fault db sub sid =
     with_tx fault db (\<lambda>db. Inr (rebuildEffectiveServiceGrants
       (db\<lparr>cdSources := q_DeleteManualServiceGrantSource (cdSources db) sub sid\<rparr>)))"

definition SubjectServiceGranted :: "control_db \<Rightarrow> string \<Rightarrow> string \<Rightarrow> bool" where
  "SubjectServiceGranted db sub sid = (0 < q_CountSubjectServiceGrant db sub sid)"

text \<open>
  \<^verbatim>\<open>SyncSubjectGrantSnapshot\<close>: the snapshot of the identity provider.  Of several subjects with one
  identifier the last counts; they are visited in the order of their identifiers.
\<close>

definition subjects_by_sub :: "domain_subject list \<Rightarrow> (string \<times> domain_subject) list" where
  "subjects_by_sub subjects = foldl (\<lambda>m s. put (dsSub s) s m) [] subjects"

definition mapsSortedKeys :: "(string \<times> 'a) list \<Rightarrow> string list" where
  "mapsSortedKeys m = sort (map fst m)"

fun sync_subjects :: "(string \<times> domain_subject) list \<Rightarrow> string list \<Rightarrow> control_db \<Rightarrow> (store_error, control_db) result" where
  "sync_subjects m [] db = Inr db"
| "sync_subjects m (sub # subs) db =
     (case map_of m sub of
        None \<Rightarrow> sync_subjects m subs db
      | Some s \<Rightarrow> bind_result (lift_db (q_UpsertSubject (cdSubjects db) s)) (\<lambda>t.
          sync_subjects m subs (db\<lparr>cdSubjects := t\<rparr>)))"

fun sync_grants :: "control_clock \<Rightarrow> service_grant list \<Rightarrow> string list \<Rightarrow> control_db \<Rightarrow> (store_error, control_db) result" where
  "sync_grants c grants [] db = Inr db"
| "sync_grants c grants (sub # subs) db =
     bind_result (insertGrants c sub (filter (\<lambda>g. sgSubject g = sub) grants)
         (db\<lparr>cdSources := q_DeleteSubjectSyncedGrantSources (cdSources db) sub\<rparr>))
       (sync_grants c grants subs)"

definition sync_body :: "control_clock \<Rightarrow> domain_subject list \<Rightarrow> service_grant list \<Rightarrow> control_db
    \<Rightarrow> (store_error, control_db) result" where
  "sync_body c subjects grants db =
     (let m = subjects_by_sub subjects; subs = mapsSortedKeys m in
      bind_result (sync_subjects m subs db) (\<lambda>db1.
      bind_result (sync_grants c grants subs
          (db1\<lparr>cdSources := (if subs = [] then q_DeleteAllServiceGrants (cdSources db1)
                            else q_DeleteStaleServiceGrants (cdSources db1) subs)\<rparr>)) (\<lambda>db2.
        Inr (rebuildEffectiveServiceGrants db2))))"

definition SyncSubjectGrantSnapshot :: "db_error option \<Rightarrow> control_clock \<Rightarrow> control_db \<Rightarrow> domain_subject list
    \<Rightarrow> service_grant list \<Rightarrow> control_db \<times> (store_error, unit) result" where
  "SyncSubjectGrantSnapshot fault c db subjects grants = with_tx fault db (sync_body c subjects grants)"

text \<open>
  \<^verbatim>\<open>ListSubjectServiceGrants\<close>, whose rows are decoded; \<^verbatim>\<open>rfc3339\<close> and \<^verbatim>\<open>sqlite_layout\<close> are the two
  layouts of \<^verbatim>\<open>parseSQLiteTime\<close>.
\<close>

record time_parsers =
  rfc3339 :: "string \<Rightarrow> time option"
  sqlite_layout :: "string \<Rightarrow> time option"

definition parseSQLiteTime :: "time_parsers \<Rightarrow> string \<Rightarrow> time option" where
  "parseSQLiteTime tp value = (case rfc3339 tp value of Some t \<Rightarrow> Some t | None \<Rightarrow> sqlite_layout tp value)"

fun decode_grants :: "time_parsers \<Rightarrow> grant_row list \<Rightarrow> (store_error, service_grant list) result" where
  "decode_grants tp [] = Inr []"
| "decode_grants tp (g # gs) =
     (case parseSQLiteTime tp (grGrantedAt g) of
        None \<Rightarrow> Inl (StoreError ''parse grant granted_at'')
      | Some grantedAt \<Rightarrow>
        (case parseSQLiteTime tp (grSyncedAt g) of
           None \<Rightarrow> Inl (StoreError ''parse grant last_synced_at'')
         | Some syncedAt \<Rightarrow> bind_result (decode_grants tp gs) (\<lambda>rest.
             Inr (\<lparr>sgSubject = grSubject g, sgService = grService g, sgGroup = grGroup g,
                   sgGrantedAt = grantedAt, sgSyncedAt = syncedAt\<rparr> # rest))))"

definition ListSubjectServiceGrants :: "db_error option \<Rightarrow> time_parsers \<Rightarrow> control_db \<Rightarrow> string
    \<Rightarrow> (store_error, service_grant list) result" where
  "ListSubjectServiceGrants fault tp db sub =
     (case fault of
        Some e \<Rightarrow> Inl (StoreDb e)
      | None \<Rightarrow> decode_grants tp (q_ListSubjectServiceGrants db sub))"

section \<open>Sources and effective grants\<close>

abbreviation source_id :: "source_row \<Rightarrow> string \<times> string \<times> string" where
  "source_id r \<equiv> (gsSubject r, gsService r, gsGroup r)"

definition source_ids :: "control_db \<Rightarrow> (string \<times> string \<times> string) set" where
  "source_ids db = source_id ` set (cdSources db)"

text \<open>
  The effective grants are the pairs that have a source, once each, marked manual exactly if a
  source is; and every source belongs to a subject and a service of the tables.
\<close>

definition grants_match :: "control_db \<Rightarrow> bool" where
  "grants_match db =
     (distinct (map grant_key (cdGrants db))
      \<and> set (map grant_key (cdGrants db)) = set (map source_key (cdSources db))
      \<and> list_all (\<lambda>g. grGroup g = manual \<longleftrightarrow> (grSubject g, grService g, manual) \<in> source_ids db) (cdGrants db))"

definition sources_ok :: "control_db \<Rightarrow> bool" where
  "sources_ok db =
     (distinct (map source_id (cdSources db))
      \<and> list_all (\<lambda>r. gsSubject r \<in> set (map fst (cdSubjects db)) \<and> gsService r \<in> set (map crID (cdCatalog db)))
          (cdSources db))"

lemma effective_key [simp]: "grant_key (effective_grant t k) = k"
  by (simp add: effective_grant_def Let_def)

lemma foldl_min_in: "foldl min y ys \<in> set (y # (ys :: string list))"
  by (induction ys arbitrary: y) (auto simp: min_def)

lemma sql_min_in: "xs \<noteq> [] \<Longrightarrow> sql_min xs \<in> set xs"
  using foldl_min_in by (cases xs) (auto simp: sql_min_def)

lemma effective_group:
  assumes "k \<in> set (map source_key t)"
  shows "grGroup (effective_grant t k) = manual \<longleftrightarrow> (\<exists>r \<in> set t. source_key r = k \<and> gsGroup r = manual)"
proof -
  let ?rows = "filter (\<lambda>r. source_key r = k) t"
  have ne: "map gsGroup ?rows \<noteq> []" using assms by (auto simp: filter_empty_conv)
  have "list_ex (\<lambda>r. gsGroup r = manual) ?rows" if "sql_min (map gsGroup ?rows) = manual"
  proof -
    have "manual \<in> gsGroup ` set ?rows" using sql_min_in[OF ne] unfolding that set_map .
    then obtain r where "r \<in> set ?rows" "gsGroup r = manual" by (elim imageE) (simp only:)
    then show ?thesis unfolding list_ex_iff by (rule_tac bexI)
  qed
  then have "grGroup (effective_grant t k) = manual \<longleftrightarrow> list_ex (\<lambda>r. gsGroup r = manual) ?rows"
    unfolding effective_grant_def Let_def by auto
  then show ?thesis by (simp add: list_ex_iff conj_assoc Bex_def)
qed

lemma source_id_in: "(fst k, snd k, g) \<in> source_ids db \<longleftrightarrow> (\<exists>r \<in> set (cdSources db). source_key r = k \<and> gsGroup r = g)"
  unfolding source_ids_def image_iff by (cases k) fastforce

lemma rebuild_match: "grants_match (rebuildEffectiveServiceGrants db)"
proof -
  have keys: "map grant_key (cdGrants (rebuildEffectiveServiceGrants db)) = dedup (map source_key (cdSources db))"
    by (simp add: rebuildEffectiveServiceGrants_def q_RebuildEffectiveServiceGrants_def
        q_InsertEffectiveServiceGrantsFromSources_def comp_def)
  have "\<forall>k \<in> set (map source_key (cdSources db)).
      grGroup (effective_grant (cdSources db) k) = manual \<longleftrightarrow> (fst k, snd k, manual) \<in> source_ids db"
    using effective_group source_id_in by blast
  moreover have "fst k = grSubject (effective_grant t k)" "snd k = grService (effective_grant t k)" for t k
    by (simp_all add: effective_grant_def Let_def)
  moreover have "cdGrants (rebuildEffectiveServiceGrants db)
      = map (effective_grant (cdSources db)) (dedup (map source_key (cdSources db)))"
    by (simp add: rebuildEffectiveServiceGrants_def q_RebuildEffectiveServiceGrants_def
        q_InsertEffectiveServiceGrantsFromSources_def)
  moreover have "source_ids (rebuildEffectiveServiceGrants db) = source_ids db"
    by (simp add: source_ids_def rebuildEffectiveServiceGrants_def)
  moreover have "cdSources (rebuildEffectiveServiceGrants db) = cdSources db"
    by (simp add: rebuildEffectiveServiceGrants_def)
  ultimately show ?thesis
    unfolding grants_match_def keys by (simp add: list_all_iff)
qed

lemma source_ids_rebuild [simp]: "source_ids (rebuildEffectiveServiceGrants db) = source_ids db"
  by (simp add: source_ids_def rebuildEffectiveServiceGrants_def)

lemma rebuild_simps [simp]:
  "cdSources (rebuildEffectiveServiceGrants db) = cdSources db"
  "cdCatalog (rebuildEffectiveServiceGrants db) = cdCatalog db"
  "cdSubjects (rebuildEffectiveServiceGrants db) = cdSubjects db"
  "cdTenants (rebuildEffectiveServiceGrants db) = cdTenants db"
  "sources_ok (rebuildEffectiveServiceGrants db) = sources_ok db"
  by (simp_all add: rebuildEffectiveServiceGrants_def sources_ok_def)

lemma source_ids_iff: "i \<in> source_ids db \<longleftrightarrow> (\<exists>r \<in> set (cdSources db). source_id r = i)"
  unfolding source_ids_def image_iff by (simp add: eq_commute)

lemma upsert_source_cases:
  assumes "upsert_source db row = Inr t"
  shows "(map source_id t = map source_id (cdSources db) \<and> source_id row \<in> source_ids db)
    \<or> (t = cdSources db @ [row] \<and> source_id row \<notin> source_ids db
       \<and> gsSubject row \<in> set (map fst (cdSubjects db)) \<and> gsService row \<in> set (map crID (cdCatalog db)))"
proof (cases "list_ex (\<lambda>r. source_key r = source_key row \<and> gsGroup r = gsGroup row) (cdSources db)")
  case True
  let ?f = "\<lambda>r. if source_key r = source_key row \<and> gsGroup r = gsGroup row then r\<lparr>gsSyncedAt := gsSyncedAt row\<rparr> else r"
  from True obtain r where r: "r \<in> set (cdSources db)" "source_id row = source_id r" by (auto simp: list_ex_iff)
  have "t = map ?f (cdSources db)" using assms True by (simp add: upsert_source_def)
  then have "map source_id t = map source_id (cdSources db)" by (simp add: comp_def)
  moreover have "source_id row \<in> source_ids db" using r unfolding source_ids_def by (rule_tac rev_image_eqI)
  ultimately show ?thesis by blast
next
  case False
  then have t: "t = cdSources db @ [row]"
    "list_ex (\<lambda>(s, _). s = gsSubject row) (cdSubjects db)" "list_ex (\<lambda>r. crID r = gsService row) (cdCatalog db)"
    using assms by (simp_all add: upsert_source_def Let_def split: if_splits)
  have "source_id row \<notin> source_ids db"
  proof
    assume "source_id row \<in> source_ids db"
    then obtain r where "r \<in> set (cdSources db)" "source_id r = source_id row"
      unfolding source_ids_iff by blast
    then show False using False by (auto simp: list_ex_iff)
  qed
  moreover have "gsSubject row \<in> set (map fst (cdSubjects db))"
    using t(2) by (force simp: list_ex_iff)
  moreover have "gsService row \<in> set (map crID (cdCatalog db))"
    using t(3) by (force simp: list_ex_iff)
  ultimately show ?thesis unfolding t(1) by (intro disjI2 conjI refl)
qed

lemma upsert_source_ids:
  assumes "upsert_source db row = Inr t"
  shows "source_ids (db\<lparr>cdSources := t\<rparr>) = insert (source_id row) (source_ids db)"
proof -
  have s: "source_ids (db\<lparr>cdSources := u\<rparr>) = set (map source_id u)" for u by (simp add: source_ids_def)
  have d: "source_ids db = set (map source_id (cdSources db))" by (simp add: source_ids_def)
  from upsert_source_cases[OF assms] show ?thesis
  proof
    assume "map source_id t = map source_id (cdSources db) \<and> source_id row \<in> source_ids db"
    then show ?thesis unfolding s by (simp add: d insert_absorb del: set_map)
  next
    assume "t = cdSources db @ [row] \<and> source_id row \<notin> source_ids db
       \<and> gsSubject row \<in> set (map fst (cdSubjects db)) \<and> gsService row \<in> set (map crID (cdCatalog db))"
    then show ?thesis unfolding s d by simp
  qed
qed

lemma sources_ok_ids:
  "sources_ok db \<longleftrightarrow> distinct (map source_id (cdSources db))
     \<and> (\<forall>(s, i, g) \<in> source_ids db. s \<in> set (map fst (cdSubjects db)) \<and> i \<in> set (map crID (cdCatalog db)))"
  by (auto simp: sources_ok_def source_ids_def list_all_iff)

lemma upsert_source_ok:
  assumes "upsert_source db row = Inr t" "sources_ok db"
  shows "sources_ok (db\<lparr>cdSources := t\<rparr>)"
proof -
  from upsert_source_cases[OF assms(1)] have "distinct (map source_id t)"
    using assms(2) by (auto simp: sources_ok_ids source_ids_def)
  moreover have "gsSubject row \<in> set (map fst (cdSubjects db)) \<and> gsService row \<in> set (map crID (cdCatalog db))"
    using upsert_source_cases[OF assms(1)] assms(2) by (auto simp: sources_ok_ids)
  ultimately show ?thesis
    using assms(2) unfolding sources_ok_ids upsert_source_ids[OF assms(1)] by simp
qed

lemma insertGrants_result:
  assumes "insertGrants c sub gs db = Inr db'"
  shows "(\<exists>t. db' = db\<lparr>cdSources := t\<rparr>)
    \<and> source_ids db' = source_ids db \<union> (\<lambda>g. (sub, sgService g, sgGroup g)) ` set gs
    \<and> (sources_ok db \<longrightarrow> sources_ok db')"
  using assms
proof (induction gs arbitrary: db)
  case Nil
  then show ?case by (auto intro: exI[of _ "cdSources db"])
next
  case (Cons g gs)
  then obtain t where t: "q_InsertServiceGrantSource db sub (sgService g) (sgGroup g)
      (cnFormat c (if sgGrantedAt g = 0 then cnTime c else sgGrantedAt g))
      (cnFormat c (if sgSyncedAt g = 0 then cnTime c else sgSyncedAt g)) = Inr t"
    and rest: "insertGrants c sub gs (db\<lparr>cdSources := t\<rparr>) = Inr db'"
    by (auto simp: Let_def result_simps)
  note up = t[unfolded q_InsertServiceGrantSource_def]
  have ids: "source_ids (db\<lparr>cdSources := t\<rparr>) = insert (sub, sgService g, sgGroup g) (source_ids db)"
    using upsert_source_ids[OF up] by simp
  obtain t' where "db' = (db\<lparr>cdSources := t\<rparr>)\<lparr>cdSources := t'\<rparr>" using Cons.IH[OF rest] by blast
  then have "\<exists>t. db' = db\<lparr>cdSources := t\<rparr>" by (intro exI[of _ t']) simp
  moreover have "source_ids db' = source_ids db \<union> (\<lambda>g. (sub, sgService g, sgGroup g)) ` set (g # gs)"
    using Cons.IH[OF rest] unfolding ids by simp
  ultimately show ?case using Cons.IH[OF rest] upsert_source_ok[OF up] by blast
qed

lemma filter_sources_ok:
  "sources_ok (db\<lparr>cdSources := t\<rparr>) \<Longrightarrow> sources_ok (db\<lparr>cdSources := filter P t\<rparr>)"
  by (auto simp: sources_ok_def list_all_iff distinct_map inj_on_def)

lemma fst_set_put: "set (map fst (put k v t)) = insert k (set (map fst t))"
  by (induction k v t rule: put.induct) auto

lemma subjects_grow_ok:
  "sources_ok db \<Longrightarrow> set (map fst (cdSubjects db)) \<subseteq> set (map fst t) \<Longrightarrow> sources_ok (db\<lparr>cdSubjects := t\<rparr>)"
  unfolding sources_ok_def list_all_iff by auto

lemma q_UpsertSubject_grows:
  assumes "q_UpsertSubject t s = Inr t'"
  shows "set (map fst t) \<subseteq> set (map fst t')"
proof -
  have "t' = put (dsSub s) (subject_columns s) t" using assms by (simp add: q_UpsertSubject_def split: if_splits)
  then show ?thesis unfolding fst_set_put by (simp only: fst_set_put subset_insertI)
qed

lemma q_UpsertSubjectPreserving_grows:
  assumes "q_UpsertSubjectPreservingMetadata t s = Inr t'"
  shows "set (map fst t') = insert (dsSub s) (set (map fst t))"
proof -
  obtain row where "t' = put (dsSub s) row t"
    using assms unfolding q_UpsertSubjectPreservingMetadata_def Let_def
    by (auto split: option.splits if_splits)
  then show ?thesis using fst_set_put by metis
qed

lemma sync_subjects_result:
  assumes "sync_subjects m subs db = Inr db'"
  shows "\<exists>t. db' = db\<lparr>cdSubjects := t\<rparr> \<and> set (map fst (cdSubjects db)) \<subseteq> set (map fst t)"
  using assms
proof (induction subs arbitrary: db)
  case Nil
  then show ?case by (auto intro: exI[of _ "cdSubjects db"])
next
  case (Cons sub subs)
  show ?case
  proof (cases "map_of m sub")
    case None
    then show ?thesis using Cons by simp
  next
    case (Some s)
    then obtain t where t: "q_UpsertSubject (cdSubjects db) s = Inr t"
      and rest: "sync_subjects m subs (db\<lparr>cdSubjects := t\<rparr>) = Inr db'"
      using Cons.prems by (auto simp: result_simps)
    from Cons.IH[OF rest] obtain t' where "db' = db\<lparr>cdSubjects := t'\<rparr>" "set (map fst t) \<subseteq> set (map fst t')"
      by auto
    then show ?thesis using q_UpsertSubject_grows[OF t] by blast
  qed
qed

text \<open>The identifiers of the sources that the loop over the subjects leaves.\<close>

definition synced_ids :: "service_grant list \<Rightarrow> string list \<Rightarrow> (string \<times> string \<times> string) set" where
  "synced_ids grants subs =
     (\<lambda>g. (sgSubject g, sgService g, sgGroup g)) ` {g \<in> set grants. sgSubject g \<in> set subs}"

lemma delete_synced_ids:
  "source_ids (db\<lparr>cdSources := q_DeleteSubjectSyncedGrantSources (cdSources db) sub\<rparr>)
   = {(s, i, g) \<in> source_ids db. \<not> (s = sub \<and> g \<noteq> manual)}"
  by (auto simp: source_ids_def q_DeleteSubjectSyncedGrantSources_def)

lemma sync_grants_result:
  assumes "sync_grants c grants subs db = Inr db'" "distinct subs"
  shows "(\<exists>t. db' = db\<lparr>cdSources := t\<rparr>)
    \<and> source_ids db' = {(s, i, g) \<in> source_ids db. \<not> (s \<in> set subs \<and> g \<noteq> manual)} \<union> synced_ids grants subs
    \<and> (sources_ok db \<longrightarrow> sources_ok db')"
  using assms
proof (induction subs arbitrary: db)
  case Nil
  then show ?case by (auto simp: synced_ids_def intro: exI[of _ "cdSources db"])
next
  case (Cons sub subs)
  let ?db0 = "db\<lparr>cdSources := q_DeleteSubjectSyncedGrantSources (cdSources db) sub\<rparr>"
  obtain db1 where one: "insertGrants c sub (filter (\<lambda>g. sgSubject g = sub) grants) ?db0 = Inr db1"
    and rest: "sync_grants c grants subs db1 = Inr db'"
    using Cons.prems by (auto simp: result_simps)
  have ok0: "sources_ok ?db0" if "sources_ok db"
    using filter_sources_ok[where db = db and t = "cdSources db"] that
    by (simp add: q_DeleteSubjectSyncedGrantSources_def sources_ok_def)
  note r1 = insertGrants_result[OF one]
  note r2 = Cons.IH[OF rest] 
  have "distinct subs" "sub \<notin> set subs" using Cons.prems by auto
  have "\<exists>t. db' = db\<lparr>cdSources := t\<rparr>" using r1 r2[OF \<open>distinct subs\<close>] by fastforce
  moreover have "source_ids db' = {(s, i, g) \<in> source_ids db. \<not> (s \<in> set (sub # subs) \<and> g \<noteq> manual)}
      \<union> synced_ids grants (sub # subs)"
  proof -
    have i1: "source_ids db1 = {(s, i, g) \<in> source_ids db. \<not> (s = sub \<and> g \<noteq> manual)}
        \<union> (\<lambda>g. (sub, sgService g, sgGroup g)) ` {g \<in> set grants. sgSubject g = sub}"
      using r1 delete_synced_ids[of db sub] by auto
    have i2: "source_ids db' = {(s, i, g) \<in> source_ids db1. \<not> (s \<in> set subs \<and> g \<noteq> manual)} \<union> synced_ids grants subs"
      using r2[OF \<open>distinct subs\<close>] by blast
    show ?thesis unfolding i2 i1 synced_ids_def using \<open>sub \<notin> set subs\<close> by auto
  qed
  ultimately show ?case using r1 r2[OF \<open>distinct subs\<close>] ok0 by blast
qed

lemma subjects_by_sub_keys:
  "distinct (map fst (subjects_by_sub ss)) \<and> set (map fst (subjects_by_sub ss)) = dsSub ` set ss"
proof -
  have "distinct (map fst m) \<Longrightarrow> distinct (map fst (foldl (\<lambda>m s. put (dsSub s) s m) m ss))
      \<and> set (map fst (foldl (\<lambda>m s. put (dsSub s) s m) m ss)) = set (map fst m) \<union> dsSub ` set ss" for m
    by (induction ss arbitrary: m) (auto simp: distinct_put fst_set_put[simplified])
  from this[of "[]"] show ?thesis by (simp add: subjects_by_sub_def)
qed

lemma sync_result:
  assumes "sync_body c subjects grants db = Inr db'"
  shows "grants_match db' \<and> cdCatalog db' = cdCatalog db \<and> cdTenants db' = cdTenants db
    \<and> source_ids db' = {(s, i, g) \<in> source_ids db. g = manual}
        \<union> (\<lambda>g. (sgSubject g, sgService g, sgGroup g)) ` {g \<in> set grants. sgSubject g \<in> dsSub ` set subjects}
    \<and> (sources_ok db \<longrightarrow> sources_ok db')"
proof -
  let ?m = "subjects_by_sub subjects"
  let ?subs = "mapsSortedKeys ?m"
  let ?del = "\<lambda>t. if ?subs = [] then q_DeleteAllServiceGrants t else q_DeleteStaleServiceGrants t ?subs"
  have subs: "distinct ?subs" "set ?subs = dsSub ` set subjects"
    using subjects_by_sub_keys[of subjects] by (auto simp: mapsSortedKeys_def)
  obtain db1 db2 where s1: "sync_subjects ?m ?subs db = Inr db1"
    and s2: "sync_grants c grants ?subs (db1\<lparr>cdSources := ?del (cdSources db1)\<rparr>) = Inr db2"
    and db': "db' = rebuildEffectiveServiceGrants db2"
    using assms by (auto simp: sync_body_def Let_def result_simps)
  obtain t where t: "db1 = db\<lparr>cdSubjects := t\<rparr>" "set (map fst (cdSubjects db)) \<subseteq> set (map fst t)"
    using sync_subjects_result[OF s1] by blast
  have stale: "source_ids (db1\<lparr>cdSources := ?del (cdSources db1)\<rparr>)
      = {(s, i, g) \<in> source_ids db. g = manual \<or> s \<in> set ?subs}"
    unfolding t by (auto simp: source_ids_def q_DeleteAllServiceGrants_def q_DeleteStaleServiceGrants_def)
  note r = sync_grants_result[OF s2 subs(1)]
  have "sources_ok (db1\<lparr>cdSources := ?del (cdSources db1)\<rparr>)" if "sources_ok db"
    using subjects_grow_ok[OF that t(2)] filter_sources_ok[where db = db1 and t = "cdSources db1"] unfolding t
    by (auto simp: q_DeleteAllServiceGrants_def q_DeleteStaleServiceGrants_def sources_ok_def)
  moreover have "source_ids db2 = {(s, i, g) \<in> source_ids db. g = manual} \<union> synced_ids grants ?subs"
    using r unfolding stale by auto
  moreover obtain t2 where "db2 = db1\<lparr>cdSources := t2\<rparr>" using r by auto
  ultimately show ?thesis
    using r rebuild_match[of db2] unfolding db' by (simp add: synced_ids_def subs(2) t)
qed

section \<open>The edge reads the effective grants\<close>

definition service_enabled :: "control_db \<Rightarrow> string \<Rightarrow> bool" where
  "service_enabled db sid = list_ex (\<lambda>r. crID r = sid \<and> crEnabled r) (cdCatalog db)"

definition edge_grants :: "control_db \<Rightarrow> grant_tables" where
  "edge_grants db =
     \<lparr>serviceGrants = map grant_key (cdGrants db), enabledServices = map crID (filter crEnabled (cdCatalog db))\<rparr>"

lemma granted_iff:
  "SubjectServiceGranted db sub sid \<longleftrightarrow> (sub, sid) \<in> set (map grant_key (cdGrants db)) \<and> service_enabled db sid"
proof -
  have "SubjectServiceGranted db sub sid \<longleftrightarrow> (\<exists>g \<in> set (cdGrants db). grSubject g = sub \<and> grService g = sid
      \<and> service_enabled db (grService g))"
    by (auto simp: SubjectServiceGranted_def q_CountSubjectServiceGrant_def service_enabled_def
        filter_empty_conv)
  then show ?thesis by auto
qed

lemma edge_agrees: "sql_Allowed None (edge_grants db) sub sid = Inr (SubjectServiceGranted db sub sid)"
proof -
  have e: "service_enabled db sid \<longleftrightarrow> sid \<in> set (enabledServices (edge_grants db))"
    by (force simp: service_enabled_def edge_grants_def list_ex_iff)
  have "q_AllowedServiceGrant t sub sid \<noteq> 0
      \<longleftrightarrow> (sub, sid) \<in> set (serviceGrants t) \<and> sid \<in> set (enabledServices t)" for t
    by (auto simp: q_AllowedServiceGrant_def list_ex_iff)
  then show ?thesis
    unfolding granted_iff e by (simp add: sql_Allowed_def) (simp add: edge_grants_def)
qed

lemma source_keys_ids: "set (map source_key (cdSources db)) = {(s, i). \<exists>g. (s, i, g) \<in> source_ids db}"
  by (force simp: source_ids_iff)

lemma granted_by_sources:
  "grants_match db \<Longrightarrow> SubjectServiceGranted db sub sid
    \<longleftrightarrow> (\<exists>g. (sub, sid, g) \<in> source_ids db) \<and> service_enabled db sid"
  unfolding granted_iff grants_match_def source_keys_ids by blast

section \<open>Sequences of operations\<close>

lemma manual_result:
  assumes "manual_body key c s sid db = Inr db'"
  shows "service_enabled db sid \<and> grants_match db'
    \<and> source_ids db' = insert (dsSub s, sid, manual) (source_ids db)
    \<and> cdCatalog db' = cdCatalog db \<and> cdTenants db' = cdTenants db
    \<and> (sources_ok db \<longrightarrow> sources_ok db')"
proof -
  obtain row t t2 where e: "q_GetEnabledServiceCatalogEntry (cdCatalog db) sid = Inr row"
    and u: "q_UpsertSubjectPreservingMetadata (cdSubjects db) (keyed_subject key s) = Inr t"
    and m: "q_UpsertManualServiceGrantSource (db\<lparr>cdSubjects := t\<rparr>) (dsSub s) sid (cnNow c) = Inr t2"
    and db': "db' = rebuildEffectiveServiceGrants (db\<lparr>cdSubjects := t, cdSources := t2\<rparr>)"
    using assms by (auto simp: manual_body_def upsert_enabled_subject_def result_simps)
  have en: "service_enabled db sid"
    using e by (auto simp: q_GetEnabledServiceCatalogEntry_def service_enabled_def list_ex_iff find_Some_iff
        split: option.splits)
  note m' = m[unfolded q_UpsertManualServiceGrantSource_def]
  have ids: "source_ids (db\<lparr>cdSubjects := t, cdSources := t2\<rparr>) = insert (dsSub s, sid, manual) (source_ids db)"
    using upsert_source_ids[OF m'] by (simp add: source_ids_def)
  have "sources_ok (db\<lparr>cdSubjects := t, cdSources := t2\<rparr>)" if "sources_ok db"
    using upsert_source_ok[OF m'] subjects_grow_ok[OF that] q_UpsertSubjectPreserving_grows[OF u] by auto
  then show ?thesis unfolding db' using en ids by (simp add: rebuild_match)
qed

lemma delete_manual_ids:
  "source_ids (db\<lparr>cdSources := q_DeleteManualServiceGrantSource (cdSources db) sub sid\<rparr>)
   = source_ids db - {(sub, sid, manual)}"
  by (auto simp: source_ids_def q_DeleteManualServiceGrantSource_def)

lemma replace_result:
  assumes "replace_body c sub grants db = Inr db'"
  shows "grants_match db' \<and> cdCatalog db' = cdCatalog db \<and> cdTenants db' = cdTenants db
    \<and> source_ids db' = {(s, i, g) \<in> source_ids db. s \<noteq> sub} \<union> (\<lambda>g. (sub, sgService g, sgGroup g)) ` set grants
    \<and> (sources_ok db \<longrightarrow> sources_ok db')"
proof -
  let ?db0 = "db\<lparr>cdGrants := q_DeleteSubjectGrants (cdGrants db) sub,
      cdSources := q_DeleteSubjectGrantSources (cdSources db) sub\<rparr>"
  obtain db1 where one: "insertGrants c sub grants ?db0 = Inr db1" and db': "db' = rebuildEffectiveServiceGrants db1"
    using assms by (auto simp: replace_body_def result_simps)
  have ids: "source_ids ?db0 = {(s, i, g) \<in> source_ids db. s \<noteq> sub}"
    by (auto simp: source_ids_def q_DeleteSubjectGrantSources_def)
  have ok: "sources_ok ?db0" if "sources_ok db"
    using filter_sources_ok[where db = db and t = "cdSources db"] that
    by (simp add: q_DeleteSubjectGrantSources_def sources_ok_def)
  obtain t where "db1 = ?db0\<lparr>cdSources := t\<rparr>" using insertGrants_result[OF one] by blast
  then show ?thesis
    using insertGrants_result[OF one] ok unfolding db' ids by (simp add: rebuild_match)
qed

text \<open>The writes of grants, each with a possible failure of the database.\<close>

datatype grant_op =
    GrantSubject "db_error option" domain_subject
  | GrantReplace "db_error option" control_clock string "service_grant list"
  | GrantManual "db_error option" control_clock domain_subject string
  | GrantRevoke "db_error option" string string
  | GrantSync "db_error option" control_clock "domain_subject list" "service_grant list"

fun grant_step :: "(string \<Rightarrow> string) \<Rightarrow> control_db \<Rightarrow> grant_op \<Rightarrow> control_db" where
  "grant_step key db (GrantSubject f s) = fst (UpsertSubject f db s)"
| "grant_step key db (GrantReplace f c sub gs) = fst (ReplaceSubjectGrants f c db sub gs)"
| "grant_step key db (GrantManual f c s sid) = fst (UpsertManualServiceGrant f key c db s sid)"
| "grant_step key db (GrantRevoke f sub sid) = fst (DeleteManualServiceGrant f db sub sid)"
| "grant_step key db (GrantSync f c ss gs) = fst (SyncSubjectGrantSnapshot f c db ss gs)"

definition grants_inv :: "control_db \<Rightarrow> bool" where
  "grants_inv db = (grants_match db \<and> sources_ok db)"

lemma with_tx_keeps:
  "P s \<Longrightarrow> (\<And>s'. f s = Inr s' \<Longrightarrow> P s') \<Longrightarrow> P (fst (with_tx fault s f))"
  using with_tx_cases[of fault s f] by metis

lemma grants_match_subjects: "grants_match db \<Longrightarrow> grants_match (db\<lparr>cdSubjects := t\<rparr>)"
  by (simp add: grants_match_def source_ids_def)

lemma grant_step_inv:
  assumes "grants_inv db"
  shows "grants_inv (grant_step key db op)"
proof (cases op)
  case (GrantSubject f s)
  have "grants_inv (db\<lparr>cdSubjects := t\<rparr>)" if "q_UpsertSubject (cdSubjects db) s = Inr t" for t
    using assms grants_match_subjects subjects_grow_ok q_UpsertSubject_grows[OF that]
    unfolding grants_inv_def by blast
  then show ?thesis
    using assms GrantSubject
    by (simp add: UpsertSubject_def) (rule with_tx_keeps, auto simp: result_simps)
next
  case (GrantReplace f c sub gs)
  then show ?thesis
    using assms replace_result
    by (simp add: ReplaceSubjectGrants_def) (rule with_tx_keeps, auto simp: grants_inv_def)
next
  case (GrantManual f c s sid)
  then show ?thesis
    using assms manual_result
    by (simp add: UpsertManualServiceGrant_def) (rule with_tx_keeps, auto simp: grants_inv_def)
next
  case (GrantRevoke f sub sid)
  have "sources_ok (db\<lparr>cdSources := q_DeleteManualServiceGrantSource (cdSources db) sub sid\<rparr>)"
    using assms filter_sources_ok[where db = db and t = "cdSources db"]
    by (simp add: grants_inv_def q_DeleteManualServiceGrantSource_def sources_ok_def)
  then show ?thesis
    using assms GrantRevoke
    by (simp add: DeleteManualServiceGrant_def) (rule with_tx_keeps, auto simp: grants_inv_def rebuild_match)
next
  case (GrantSync f c ss gs)
  then show ?thesis
    using assms sync_result
    by (simp add: SyncSubjectGrantSnapshot_def) (rule with_tx_keeps, auto simp: grants_inv_def)
qed

definition grant_exec :: "(string \<Rightarrow> string) \<Rightarrow> control_db \<Rightarrow> grant_op list \<Rightarrow> control_db" where
  "grant_exec key db ops = foldl (grant_step key) db ops"

lemma grant_exec_inv: "grants_inv db \<Longrightarrow> grants_inv (grant_exec key db ops)"
  unfolding grant_exec_def by (induction ops arbitrary: db) (simp_all add: grant_step_inv)

definition control_start :: "catalog_table \<Rightarrow> control_db" where
  "control_start t = \<lparr>cdCatalog = t, cdSubjects = [], cdSources = [], cdGrants = [], cdTenants = []\<rparr>"

lemma grants_inv_start: "grants_inv (control_start t)"
  by (simp add: grants_inv_def grants_match_def sources_ok_def control_start_def)

end
