(* ===== verification/Tenants.thy ===== *)
theory Tenants
  imports ControlGrants
begin

text \<open>
  Tenants in the control plane's store (\<^verbatim>\<open>internal/controlplane/store.go\<close>, \<^verbatim>\<open>platformdb/controlplane.sql.go\<close>):
  the desired states computed from grants, suspending and resuming, static upstreams, and the
  updates that the reconciler writes.  \<^verbatim>\<open>draw\<close> gives the fresh identifier of an inserted row.
\<close>

section \<open>Queries\<close>

text \<open>
  The rows are read with their times decoded; a time that does not decode is an error.  The columns
  \<^verbatim>\<open>created_at\<close> and \<^verbatim>\<open>updated_at\<close>, which only the database writes and no operation uses, are left out, and
  identifiers always decode, since the schema keeps them at 16 bytes.
\<close>

definition null_time_ok :: "time_parsers \<Rightarrow> string option \<Rightarrow> bool" where
  "null_time_ok tp v = (case v of None \<Rightarrow> True | Some s \<Rightarrow> s = [] \<or> parseSQLiteTime tp s \<noteq> None)"

fun convertTenantInstances :: "time_parsers \<Rightarrow> tenant_row list \<Rightarrow> (store_error, tenant_row list) result" where
  "convertTenantInstances tp [] = Inr []"
| "convertTenantInstances tp (r # rs) =
     (if \<not> null_time_ok tp (tnHealthyAt r) then Inl (StoreError ''parse tenant last_healthy_at'')
      else if \<not> null_time_ok tp (tnReconciledAt r) then Inl (StoreError ''parse tenant last_reconciled_at'')
      else if \<not> null_time_ok tp (tnAttestedAt r) then Inl (StoreError ''parse tenant last_attested_at'')
      else bind_result (convertTenantInstances tp rs) (\<lambda>rest. Inr (r # rest)))"

definition q_ListTenantInstances :: "tenant_table \<Rightarrow> tenant_row list" where
  "q_ListTenantInstances t = sort_key tnService (sort_key tnSubject t)"

definition q_GetTenantInstance :: "tenant_table \<Rightarrow> uuid \<Rightarrow> (db_error, tenant_row) result" where
  "q_GetTenantInstance t tid = (case find (\<lambda>r. tnID r = tid) t of None \<Rightarrow> Inl NoRows | Some r \<Rightarrow> Inr r)"

definition q_GetTenantInstanceBySubjectService :: "tenant_table \<Rightarrow> string \<Rightarrow> string \<Rightarrow> (db_error, tenant_row) result" where
  "q_GetTenantInstanceBySubjectService t sub sid =
     (case find (\<lambda>r. tenant_key sub sid r \<and> tnDesired r \<noteq> DesiredDeleted) t of None \<Rightarrow> Inl NoRows | Some r \<Rightarrow> Inr r)"

record desired_spec =
  spSubject :: domain_subject
  spService :: string

definition subject_of_row :: "string \<Rightarrow> subject_row \<Rightarrow> domain_subject" where
  "subject_of_row sub r =
     \<lparr>dsSub = sub, dsKey = sbKey r, dsPreferredUsername = clamp_some (sbPreferredUsername r) [],
      dsEmail = clamp_some (sbEmail r) [], dsDisplayName = clamp_some (sbDisplayName r) [],
      dsAccountBindingID = clamp_some (sbAccountBindingID r) [],
      dsAccountBindingClaim = clamp_some (sbAccountBindingClaim r) []\<rparr>"

definition builtin_enabled :: "control_db \<Rightarrow> string \<Rightarrow> bool" where
  "builtin_enabled db sid =
     list_ex (\<lambda>r. crID r = sid \<and> crEnabled r \<and> crSource r = ''builtin'') (cdCatalog db)"

definition spec_of_grant :: "control_db \<Rightarrow> grant_row \<Rightarrow> desired_spec option" where
  "spec_of_grant db g =
     (case map_of (cdSubjects db) (grSubject g) of
        None \<Rightarrow> None
      | Some s \<Rightarrow>
          if builtin_enabled db (grService g)
          then Some \<lparr>spSubject = subject_of_row (grSubject g) s, spService = grService g\<rparr> else None)"

definition q_ListDesiredTenantSpecs :: "control_db \<Rightarrow> desired_spec list" where
  "q_ListDesiredTenantSpecs db =
     List.map_filter (spec_of_grant db) (sort_key grService (sort_key grSubject (cdGrants db)))"

text \<open>
  The insertion of a tenant, with the constraints of the schema: the identifier, subject with service, and the
  name are unique, subject and service exist.
\<close>

definition tenant_references :: "control_db \<Rightarrow> string \<Rightarrow> string \<Rightarrow> bool" where
  "tenant_references db sub sid =
     (list_ex (\<lambda>(s, _). s = sub) (cdSubjects db) \<and> list_ex (\<lambda>r. crID r = sid) (cdCatalog db))"

definition q_InsertTenantInstance :: "control_db \<Rightarrow> tenant_row \<Rightarrow> (db_error, tenant_table) result" where
  "q_InsertTenantInstance db row =
     (if list_ex (\<lambda>r. tnID r = tnID row \<or> tenant_key (tnSubject row) (tnService row) r \<or> tnName r = tnName row)
           (cdTenants db)
      then Inl UniqueFailed
      else if \<not> tenant_references db (tnSubject row) (tnService row) then Inl ForeignKeyFailed
      else Inr (cdTenants db @ [row]))"

definition new_tenant :: "uuid \<Rightarrow> string \<Rightarrow> string \<Rightarrow> string \<Rightarrow> tenant_row" where
  "new_tenant tid sub sid k =
     \<lparr>tnID = tid, tnSubject = sub, tnService = sid, tnKey = k, tnName = BuildTenantInstanceName sid k,
      tnDNS = BuildTenantInstanceName sid k, tnDesired = DesiredEnabled, tnRuntime = RuntimeProvisioning,
      tnResource = None, tnApplication = None, tnUpstream = None, tnSecretVersion = None, tnHealthyAt = None,
      tnReconciledAt = None, tnLastError = None, tnMetadata = JObj [], tnAttestation = ''unknown'',
      tnAttestedAt = None, tnAttestationID = None, tnSpecID = None\<rparr>"

text \<open>
  The update \<^verbatim>\<open>EnableTenantInstance\<close> of the row with an identifier; the name must be free.
\<close>

definition q_EnableTenantInstance :: "tenant_table \<Rightarrow> uuid \<Rightarrow> (tenant_row \<Rightarrow> tenant_row)
    \<Rightarrow> (db_error, tenant_table) result" where
  "q_EnableTenantInstance t tid f =
     (case find (\<lambda>r. tnID r = tid) t of
        None \<Rightarrow> Inr t
      | Some r \<Rightarrow>
          if list_ex (\<lambda>q. tnID q \<noteq> tid \<and> tnName q = tnName (f r)) t then Inl UniqueFailed
          else Inr (map (\<lambda>q. if tnID q = tid then f q else q) t))"

definition enable_columns :: "string \<Rightarrow> string \<Rightarrow> tenant_runtime_state \<Rightarrow> string \<Rightarrow> tenant_row \<Rightarrow> tenant_row" where
  "enable_columns k name runtime err r =
     r\<lparr>tnKey := k, tnName := name, tnDNS := name, tnDesired := DesiredEnabled, tnRuntime := runtime,
       tnLastError := nullif_empty err\<rparr>"

definition update_tenant :: "uuid \<Rightarrow> (tenant_row \<Rightarrow> tenant_row) \<Rightarrow> tenant_table \<Rightarrow> tenant_table" where
  "update_tenant tid f t = map (\<lambda>r. if tnID r = tid then f r else r) t"

definition q_MarkTenantDesiredDeleted :: "tenant_table \<Rightarrow> uuid \<Rightarrow> tenant_desired_state \<Rightarrow> tenant_table" where
  "q_MarkTenantDesiredDeleted t tid d = update_tenant tid (\<lambda>r. r\<lparr>tnDesired := d\<rparr>) t"

definition q_MarkTenantDesiredDisabledBySubjectService :: "tenant_table \<Rightarrow> string \<Rightarrow> string \<Rightarrow> tenant_table \<times> nat" where
  "q_MarkTenantDesiredDisabledBySubjectService t sub sid =
     (let hit = (\<lambda>r. tenant_key sub sid r \<and> tnDesired r \<noteq> DesiredDeleted) in
      (map (\<lambda>r. if hit r then r\<lparr>tnDesired := DesiredDisabled\<rparr> else r) t, length (filter hit t)))"

definition q_MarkTenantDesiredEnabledBySubjectServiceWithGrant :: "control_db \<Rightarrow> string \<Rightarrow> string
    \<Rightarrow> tenant_table \<times> nat" where
  "q_MarkTenantDesiredEnabledBySubjectServiceWithGrant db sub sid =
     (let hit = (\<lambda>r. tenant_key sub sid r \<and> tnDesired r \<noteq> DesiredDeleted
            \<and> list_ex (\<lambda>g. grSubject g = tnSubject r \<and> grService g = tnService r
                \<and> list_ex (\<lambda>c. crID c = grService g \<and> crEnabled c) (cdCatalog db)) (cdGrants db)) in
      (map (\<lambda>r. if hit r then r\<lparr>tnDesired := DesiredEnabled\<rparr> else r) (cdTenants db),
       length (filter hit (cdTenants db))))"

definition q_MarkTenantReconciled :: "tenant_table \<Rightarrow> uuid \<Rightarrow> string option \<Rightarrow> string \<Rightarrow> tenant_table" where
  "q_MarkTenantReconciled t tid reconciledAt err =
     update_tenant tid (\<lambda>r. r\<lparr>tnReconciledAt := reconciledAt, tnLastError := nullif_empty err\<rparr>) t"

text \<open>\<^verbatim>\<open>TenantRuntimeUpdate\<close>, and the update of the columns of the runtime.\<close>

record runtime_update =
  upTenant :: uuid
  upState :: tenant_runtime_state
  upResource :: string
  upApplication :: string
  upUpstream :: string
  upHealthyAt :: "string option"
  upClear :: bool
  upLastError :: string

definition keep_or_set :: "bool \<Rightarrow> string \<Rightarrow> string option \<Rightarrow> string option" where
  "keep_or_set clr new old = (if clr then None else if new = [] then old else Some new)"

definition q_UpdateTenantRuntimeStatus :: "tenant_table \<Rightarrow> runtime_update \<Rightarrow> tenant_table" where
  "q_UpdateTenantRuntimeStatus t u =
     update_tenant (upTenant u) (\<lambda>r. r\<lparr>tnRuntime := upState u,
       tnResource := keep_or_set (upClear u) (upResource u) (tnResource r),
       tnApplication := keep_or_set (upClear u) (upApplication u) (tnApplication r),
       tnUpstream := keep_or_set (upClear u) (upUpstream u) (tnUpstream r),
       tnHealthyAt := (if upClear u then None else or_else (upHealthyAt u) (tnHealthyAt r)),
       tnLastError := nullif_empty (upLastError u)\<rparr>) t"

definition q_DeleteTenantInstance :: "tenant_table \<Rightarrow> uuid \<Rightarrow> tenant_table" where
  "q_DeleteTenantInstance t tid = filter (\<lambda>r. tnID r \<noteq> tid) t"

text \<open>
  The upsert of a static upstream.  \<^verbatim>\<open>json_patch\<close> of SQLite, with the patch that sets one member to a string.
\<close>

definition json_patch_member :: "string \<Rightarrow> string \<Rightarrow> json \<Rightarrow> json" where
  "json_patch_member k v j = (case j of JObj ms \<Rightarrow> JObj (put k (JStr v) ms) | _ \<Rightarrow> JObj [(k, JStr v)])"

definition static_columns :: "string \<Rightarrow> string \<Rightarrow> string \<Rightarrow> string \<Rightarrow> tenant_row \<Rightarrow> tenant_row" where
  "static_columns k name url healthyAt r =
     r\<lparr>tnKey := k, tnName := name, tnDNS := name, tnDesired := DesiredEnabled, tnRuntime := RuntimeReady,
       tnResource := None, tnApplication := None, tnUpstream := Some url, tnHealthyAt := Some healthyAt,
       tnLastError := None, tnMetadata := json_patch_member ''runtime_mode'' ''static_upstream'' (tnMetadata r)\<rparr>"

definition q_UpsertStaticTenantUpstream :: "control_db \<Rightarrow> uuid \<Rightarrow> string \<Rightarrow> string \<Rightarrow> string \<Rightarrow> string \<Rightarrow> string
    \<Rightarrow> string \<Rightarrow> (db_error, tenant_table) result" where
  "q_UpsertStaticTenantUpstream db tid sub sid k name url healthyAt =
     (case find (tenant_key sub sid) (cdTenants db) of
        Some r \<Rightarrow> q_EnableTenantInstance (cdTenants db) (tnID r) (static_columns k name url healthyAt)
      | None \<Rightarrow> q_InsertTenantInstance db
          (static_columns k name url healthyAt (new_tenant tid sub sid k)))"

section \<open>Operations\<close>

definition SuspendTenantInstance :: "db_error option \<Rightarrow> control_db \<Rightarrow> string \<Rightarrow> string
    \<Rightarrow> control_db \<times> (store_error, unit) result" where
  "SuspendTenantInstance fault db sub sid =
     (case fault of
        Some e \<Rightarrow> (db, Inl (StoreDb e))
      | None \<Rightarrow>
         (case q_MarkTenantDesiredDisabledBySubjectService (cdTenants db) sub sid of
            (t, n) \<Rightarrow> (db\<lparr>cdTenants := t\<rparr>, if n = 0 then Inl ErrTenantInstanceNotFound else Inr ())))"

definition ResumeTenantInstance :: "db_error option \<Rightarrow> db_error option \<Rightarrow> control_db \<Rightarrow> string \<Rightarrow> string
    \<Rightarrow> control_db \<times> (store_error, unit) result" where
  "ResumeTenantInstance fault countFault db sub sid =
     (case fault of
        Some e \<Rightarrow> (db, Inl (StoreDb e))
      | None \<Rightarrow>
         (case q_MarkTenantDesiredEnabledBySubjectServiceWithGrant db sub sid of
            (t, n) \<Rightarrow>
              (db\<lparr>cdTenants := t\<rparr>,
               if n \<noteq> 0 then Inr ()
               else case countFault of
                   Some e \<Rightarrow> Inl (StoreDb e)
                 | None \<Rightarrow>
                     if q_CountSubjectServiceGrant (db\<lparr>cdTenants := t\<rparr>) sub sid = 0
                     then Inl ErrSubjectServiceGrantNotFound
                     else Inl ErrTenantInstanceNotFound)))"

definition static_body :: "(string \<Rightarrow> string) \<Rightarrow> control_clock \<Rightarrow> uuid \<Rightarrow> domain_subject \<Rightarrow> string \<Rightarrow> string \<Rightarrow> time
    \<Rightarrow> control_db \<Rightarrow> (store_error, control_db) result" where
  "static_body key c tid s sid url verifiedAt db =
     bind_result (upsert_enabled_subject key s sid db) (\<lambda>db1.
     bind_result (lift_db (q_GetSubject (cdSubjects db1) (dsSub s))) (\<lambda>persisted.
       if q_CountSubjectServiceGrant db1 (dsSub s) sid = 0 then Inl ErrSubjectServiceGrantNotFound
       else bind_result (lift_db (q_UpsertStaticTenantUpstream db1 tid (dsSub s) sid (sbKey persisted)
              (BuildTenantInstanceName sid (sbKey persisted)) url (cnFormat c verifiedAt))) (\<lambda>t.
         Inr (db1\<lparr>cdTenants := t\<rparr>))))"

definition UpsertStaticTenantUpstream :: "db_error option \<Rightarrow> (string \<Rightarrow> string) \<Rightarrow> control_clock \<Rightarrow> uuid \<Rightarrow> control_db
    \<Rightarrow> domain_subject \<Rightarrow> string \<Rightarrow> string \<Rightarrow> time \<Rightarrow> control_db \<times> (store_error, unit) result" where
  "UpsertStaticTenantUpstream fault key c tid db s sid url verifiedAt =
     with_tx fault db (static_body key c tid s sid url verifiedAt)"

subsection \<open>Desired states\<close>

definition tenantMapKey :: "string \<Rightarrow> string \<Rightarrow> string" where
  "tenantMapKey subjectSub serviceID = subjectSub @ ''::'' @ serviceID"

definition spec_key :: "desired_spec \<Rightarrow> string" where
  "spec_key sp = tenantMapKey (dsSub (spSubject sp)) (spService sp)"

definition row_key :: "tenant_row \<Rightarrow> string" where
  "row_key r = tenantMapKey (tnSubject r) (tnService r)"

definition loadDesiredTenantSpecs :: "control_db \<Rightarrow> (string \<times> desired_spec) list" where
  "loadDesiredTenantSpecs db = foldl (\<lambda>m sp. put (spec_key sp) sp m) [] (q_ListDesiredTenantSpecs db)"

definition loadTenantInstances :: "time_parsers \<Rightarrow> tenant_table \<Rightarrow> (store_error, (string \<times> tenant_row) list) result" where
  "loadTenantInstances tp t =
     bind_result (convertTenantInstances tp (q_ListTenantInstances t)) (\<lambda>rows.
       Inr (foldl (\<lambda>m r. put (row_key r) r m) [] rows))"

definition insertTenantInstance :: "(string \<Rightarrow> uuid) \<Rightarrow> desired_spec \<Rightarrow> control_db \<Rightarrow> (store_error, control_db) result" where
  "insertTenantInstance draw sp db =
     bind_result (lift_db (q_InsertTenantInstance db
         (new_tenant (draw (spec_key sp)) (dsSub (spSubject sp)) (spService sp) (dsKey (spSubject sp))))) (\<lambda>t.
       Inr (db\<lparr>cdTenants := t\<rparr>))"

definition enabled_columns :: "tenant_row \<Rightarrow> desired_spec \<Rightarrow> tenant_row \<Rightarrow> tenant_row" where
  "enabled_columns r sp =
     (let name = BuildTenantInstanceName (spService sp) (dsKey (spSubject sp));
          drift = (tnKey r \<noteq> dsKey (spSubject sp) \<or> tnName r \<noteq> name \<or> tnDNS r \<noteq> name) in
      enable_columns (dsKey (spSubject sp)) name (if drift then RuntimeDegraded else tnRuntime r)
        (if drift then ''tenant identity drift detected; reprovision required'' else clamp_some (tnLastError r) []))"

definition enableTenantInstance :: "tenant_row \<Rightarrow> desired_spec \<Rightarrow> control_db \<Rightarrow> (store_error, control_db) result" where
  "enableTenantInstance r sp db =
     bind_result (lift_db (q_EnableTenantInstance (cdTenants db) (tnID r) (enabled_columns r sp))) (\<lambda>t.
       Inr (db\<lparr>cdTenants := t\<rparr>))"

text \<open>The two loops of \<^verbatim>\<open>ReconcileDesiredTenants\<close>.\<close>

fun ensure_desired :: "(string \<Rightarrow> uuid) \<Rightarrow> (string \<times> desired_spec) list \<Rightarrow> (string \<times> tenant_row) list \<Rightarrow> string list
    \<Rightarrow> control_db \<Rightarrow> (store_error, control_db) result" where
  "ensure_desired draw specs cur [] db = Inr db"
| "ensure_desired draw specs cur (k # ks) db =
     (case map_of specs k of
        None \<Rightarrow> ensure_desired draw specs cur ks db
      | Some sp \<Rightarrow>
         (case map_of cur k of
            None \<Rightarrow> bind_result (insertTenantInstance draw sp db) (ensure_desired draw specs cur ks)
          | Some r \<Rightarrow>
              if tnDesired r = DesiredDisabled \<or> tnDesired r = DesiredDeleted
              then ensure_desired draw specs cur ks db
              else bind_result (enableTenantInstance r sp db) (ensure_desired draw specs cur ks)))"

fun drop_undesired :: "(string \<times> desired_spec) list \<Rightarrow> (string \<times> tenant_row) list \<Rightarrow> string list
    \<Rightarrow> tenant_table \<Rightarrow> tenant_table" where
  "drop_undesired specs cur [] t = t"
| "drop_undesired specs cur (k # ks) t =
     (case map_of cur k of
        None \<Rightarrow> drop_undesired specs cur ks t
      | Some r \<Rightarrow>
          if map_of specs k \<noteq> None \<or> tnDesired r = DesiredDeleted \<or> tenantRuntimeModeStatic (tnMetadata r)
          then drop_undesired specs cur ks t
          else drop_undesired specs cur ks (q_MarkTenantDesiredDeleted t (tnID r) DesiredDeleted))"

definition reconcile_body :: "time_parsers \<Rightarrow> (string \<Rightarrow> uuid) \<Rightarrow> control_db \<Rightarrow> (store_error, control_db) result" where
  "reconcile_body tp draw db =
     (let specs = loadDesiredTenantSpecs db in
      bind_result (loadTenantInstances tp (cdTenants db)) (\<lambda>cur.
      bind_result (ensure_desired draw specs cur (mapsSortedKeys specs) db) (\<lambda>db1.
        Inr (db1\<lparr>cdTenants := drop_undesired specs cur (mapsSortedKeys cur) (cdTenants db1)\<rparr>))))"

definition ReconcileDesiredTenants :: "db_error option \<Rightarrow> time_parsers \<Rightarrow> (string \<Rightarrow> uuid) \<Rightarrow> control_db
    \<Rightarrow> control_db \<times> (store_error, unit) result" where
  "ReconcileDesiredTenants fault tp draw db = with_tx fault db (reconcile_body tp draw)"

section \<open>Rows by subject and service\<close>

abbreviation tenant_at :: "tenant_table \<Rightarrow> string \<Rightarrow> string \<Rightarrow> tenant_row option" where
  "tenant_at t sub sid \<equiv> find (tenant_key sub sid) t"

lemma tenant_at_Some: "tenant_at t sub sid = Some r \<Longrightarrow> r \<in> set t \<and> tnSubject r = sub \<and> tnService r = sid"
  using find_first by (fastforce simp: tenant_key_def)

lemma tenant_at_self: "tenants_ok t \<Longrightarrow> r \<in> set t \<Longrightarrow> tenant_at t (tnSubject r) (tnService r) = Some r"
  by (rule tenant_find) (simp_all add: tenant_key_def)

lemma tenant_at_None: "tenant_at t sub sid = None \<longleftrightarrow> (\<forall>r \<in> set t. \<not> tenant_key sub sid r)"
  by (simp add: find_None_iff) blast

lemma same_id: "tenants_ok t \<Longrightarrow> r \<in> set t \<Longrightarrow> q \<in> set t \<Longrightarrow> tnID r = tnID q \<Longrightarrow> r = q"
  by (auto simp: tenants_ok_def distinct_map inj_on_def)

lemma same_name: "tenants_ok t \<Longrightarrow> r \<in> set t \<Longrightarrow> q \<in> set t \<Longrightarrow> tnName r = tnName q \<Longrightarrow> r = q"
  by (auto simp: tenants_ok_def distinct_map inj_on_def)

text \<open>A change of one row that keeps its identifier, subject and service.\<close>

definition keeps_key :: "(tenant_row \<Rightarrow> tenant_row) \<Rightarrow> bool" where
  "keeps_key f = (\<forall>r. tnID (f r) = tnID r \<and> tnSubject (f r) = tnSubject r \<and> tnService (f r) = tnService r)"

lemma find_map_same: "(\<And>x. P (g x) = P x) \<Longrightarrow> find P (map g xs) = map_option g (find P xs)"
  by (induction xs) auto

lemma tenant_at_map:
  assumes "keeps_key f"
  shows "tenant_at (map (\<lambda>q. if P q then f q else q) t) sub sid
    = map_option (\<lambda>q. if P q then f q else q) (tenant_at t sub sid)"
  using assms by (intro find_map_same) (auto simp: tenant_key_def keeps_key_def)

lemma tenant_at_update:
  assumes "tenants_ok t" "r \<in> set t" "tnID r = tid" "keeps_key f"
  shows "tenant_at (map (\<lambda>q. if tnID q = tid then f q else q) t) sub sid
    = (if tenant_key sub sid r then Some (f r) else tenant_at t sub sid)"
proof (cases "tenant_at t sub sid")
  case None
  then have "\<not> tenant_key sub sid r" using assms(2) tenant_at_None by blast
  then show ?thesis unfolding tenant_at_map[OF assms(4)] None by simp
next
  case (Some q)
  have q: "q \<in> set t" "tenant_key sub sid q" using tenant_at_Some[OF Some] by (auto simp: tenant_key_def)
  have "q = r" if "tenant_key sub sid r" using tenant_find[OF assms(1,2) that] Some by simp
  then have "tenant_key sub sid r \<longleftrightarrow> q = r" using q(2) by blast
  moreover have "tnID q = tid \<longleftrightarrow> q = r" using same_id[OF assms(1) q(1) assms(2)] assms(3) by metis
  ultimately show ?thesis using Some unfolding tenant_at_map[OF assms(4)] by simp
qed

lemma map_keys_same: "keeps_key f \<Longrightarrow>
   map (\<lambda>r. (tnSubject r, tnService r)) (map (\<lambda>q. if P q then f q else q) t) = map (\<lambda>r. (tnSubject r, tnService r)) t
   \<and> map tnID (map (\<lambda>q. if P q then f q else q) t) = map tnID t"
  by (auto simp: keeps_key_def)

lemma tenants_ok_update:
  assumes "tenants_ok t" "keeps_key f"
    "\<And>r q. r \<in> set t \<Longrightarrow> tnID r = tid \<Longrightarrow> q \<in> set t \<Longrightarrow> tnID q \<noteq> tid \<Longrightarrow> tnName q \<noteq> tnName (f r)"
  shows "tenants_ok (map (\<lambda>q. if tnID q = tid then f q else q) t)"
proof -
  let ?g = "\<lambda>q. if tnID q = tid then f q else q"
  have d: "distinct t" "inj_on tnName (set t)" using assms(1) by (auto simp: tenants_ok_def distinct_map)
  have "inj_on (tnName \<circ> ?g) (set t)"
  proof (rule inj_onI)
    fix x y assume x: "x \<in> set t" and y: "y \<in> set t" and e: "(tnName \<circ> ?g) x = (tnName \<circ> ?g) y"
    show "x = y"
    proof (cases "tnID x = tid"; cases "tnID y = tid")
      assume "tnID x = tid" "tnID y = tid"
      then show ?thesis using same_id[OF assms(1) x y] by simp
    next
      assume "tnID x = tid" "tnID y \<noteq> tid"
      then show ?thesis using assms(3)[OF x _ y] e by auto
    next
      assume "tnID x \<noteq> tid" "tnID y = tid"
      then show ?thesis using assms(3)[OF y _ x] e by auto
    next
      assume "tnID x \<noteq> tid" "tnID y \<noteq> tid"
      then show ?thesis using e x y d(2) by (auto simp: inj_on_def)
    qed
  qed
  then have "distinct (map tnName (map ?g t))" using d(1) by (simp add: distinct_map)
  then show ?thesis
    using assms(1) map_keys_same[OF assms(2), of "\<lambda>q. tnID q = tid" t] by (simp only: tenants_ok_def)
qed

lemma insert_tenant_step:
  assumes "q_InsertTenantInstance db row = Inr t" "tenants_ok (cdTenants db)"
  shows "tenants_ok t \<and> t = cdTenants db @ [row]
    \<and> tenant_at t sub sid = (if tenant_key sub sid row then Some row else tenant_at (cdTenants db) sub sid)"
proof -
  have t: "t = cdTenants db @ [row]"
    and free: "\<forall>r \<in> set (cdTenants db). tnID r \<noteq> tnID row \<and> \<not> tenant_key (tnSubject row) (tnService row) r
      \<and> tnName r \<noteq> tnName row"
    using assms(1) by (auto simp: q_InsertTenantInstance_def list_ex_iff split: if_splits)
  have "tenants_ok t" using assms(2) free unfolding t tenants_ok_def by (auto simp: tenant_key_def)
  moreover have "tenant_at (ts @ [row]) sub sid
      = (case tenant_at ts sub sid of None \<Rightarrow> if tenant_key sub sid row then Some row else None | Some r \<Rightarrow> Some r)" for ts
    by (induction ts) auto
  moreover have "tenant_at (cdTenants db) sub sid = None" if "tenant_key sub sid row"
    using free that by (auto simp: tenant_at_None tenant_key_def)
  ultimately show ?thesis unfolding t by (auto split: option.splits)
qed

lemma enable_tenant_step:
  assumes "q_EnableTenantInstance t tid f = Inr t'" "tenants_ok t" "r \<in> set t" "tnID r = tid" "keeps_key f"
  shows "tenants_ok t' \<and> tenant_at t' sub sid = (if tenant_key sub sid r then Some (f r) else tenant_at t sub sid)
    \<and> t' = map (\<lambda>q. if tnID q = tid then f q else q) t"
proof -
  have "find (\<lambda>r. tnID r = tid) t = Some r"
    using assms(3,4) same_id[OF assms(2)] by (intro find_unique) auto
  then have free: "\<forall>q \<in> set t. tnID q \<noteq> tid \<longrightarrow> tnName q \<noteq> tnName (f r)"
    and t': "t' = map (\<lambda>q. if tnID q = tid then f q else q) t"
    using assms(1) by (auto simp: q_EnableTenantInstance_def list_ex_iff split: if_splits)
  have "tenants_ok t'" unfolding t'
  proof (rule tenants_ok_update[OF assms(2,5)])
    fix x q assume "x \<in> set t" "tnID x = tid" "q \<in> set t" "tnID q \<noteq> tid"
    then show "tnName q \<noteq> tnName (f x)" using free same_id[OF assms(2) _ assms(3)] assms(4) by auto
  qed
  then show ?thesis using tenant_at_update[OF assms(2-5)] t' by blast
qed

section \<open>Keys of the maps\<close>

lemma tenantMapKey_inject:
  assumes "colon \<notin> set i" "colon \<notin> set i'" "tenantMapKey s i = tenantMapKey s' i'"
  shows "s = s' \<and> i = i'"
proof -
  have "rev i @ colon # (colon # rev s) = rev i' @ colon # (colon # rev s')"
    using arg_cong[OF assms(3), of rev] by (simp add: tenantMapKey_def colon_def)
  then show ?thesis using sep_injective[of colon "rev i" "rev i'"] assms(1,2) by auto
qed

lemma foldl_put_lookup:
  "map_of (foldl (\<lambda>m x. put (f x) x m) start xs) k = Some y \<Longrightarrow>
    map_of start k = Some y \<or> (y \<in> set xs \<and> f y = k)"
proof (induction xs arbitrary: start)
  case (Cons a xs)
  from Cons.IH[of "put (f a) a start"] Cons.prems
  have "map_of (put (f a) a start) k = Some y \<or> (y \<in> set xs \<and> f y = k)" by simp
  then show ?case by (auto split: if_splits)
qed simp

lemma foldl_put_keys:
  "fst ` set (foldl (\<lambda>m x. put (f x) x m) start xs) = fst ` set start \<union> f ` set xs"
  by (induction xs arbitrary: start) (auto simp: keys_put)

lemma foldl_put_distinct:
  "distinct (map fst start) \<Longrightarrow> distinct (map fst (foldl (\<lambda>m x. put (f x) x m) start xs))"
  by (induction xs arbitrary: start) (simp_all add: distinct_put)

text \<open>A table built with put answers with an element of the list, and answers for the keys of the list.\<close>

lemma built_lookup:
  assumes m: "m = foldl (\<lambda>m x. put (f x) x m) [] xs"
  shows "map_of m k = Some y \<Longrightarrow> y \<in> set xs \<and> f y = k"
    and "map_of m k = None \<longleftrightarrow> k \<notin> f ` set xs"
    and "set (mapsSortedKeys m) = f ` set xs" and "distinct (mapsSortedKeys m)"
proof -
  have keys: "fst ` set m = f ` set xs" unfolding m foldl_put_keys by simp
  show "y \<in> set xs \<and> f y = k" if "map_of m k = Some y"
    using foldl_put_lookup[OF that[unfolded m]] by simp
  show "map_of m k = None \<longleftrightarrow> k \<notin> f ` set xs" unfolding map_of_eq_None_iff keys by (rule refl)
  show "set (mapsSortedKeys m) = f ` set xs" unfolding mapsSortedKeys_def set_sort set_map keys by (rule refl)
  have "distinct (map fst m)" unfolding m by (rule foldl_put_distinct) simp
  then show "distinct (mapsSortedKeys m)" by (simp add: mapsSortedKeys_def)
qed

definition services_plain :: "control_db \<Rightarrow> bool" where
  "services_plain db =
     (list_all (\<lambda>r. colon \<notin> set (tnService r)) (cdTenants db)
      \<and> list_all (\<lambda>g. colon \<notin> set (grService g)) (cdGrants db))"

text \<open>What the grants ask for: an effective grant, a stored subject, an enabled service of the built-in catalog.\<close>

definition desired_for :: "control_db \<Rightarrow> string \<Rightarrow> string \<Rightarrow> desired_spec option" where
  "desired_for db sub sid =
     (if (sub, sid) \<notin> set (map grant_key (cdGrants db)) then None
      else case map_of (cdSubjects db) sub of
          None \<Rightarrow> None
        | Some s \<Rightarrow>
            if builtin_enabled db sid then Some \<lparr>spSubject = subject_of_row sub s, spService = sid\<rparr> else None)"

lemma spec_of_grant_desired:
  "g \<in> set (cdGrants db) \<Longrightarrow> spec_of_grant db g = desired_for db (grSubject g) (grService g)"
  by (force simp: spec_of_grant_def desired_for_def)

lemma set_map_filter: "set (List.map_filter f xs) = {y. \<exists>x \<in> set xs. f x = Some y}"
  by (induction xs) (auto simp: List.map_filter_simps split: option.splits)

lemma specs_set:
  "sp \<in> set (q_ListDesiredTenantSpecs db)
    \<longleftrightarrow> (\<exists>g \<in> set (cdGrants db). desired_for db (grSubject g) (grService g) = Some sp)"
  using spec_of_grant_desired by (auto simp: q_ListDesiredTenantSpecs_def set_map_filter)

lemma desired_for_key:
  "desired_for db sub sid = Some sp \<Longrightarrow> dsSub (spSubject sp) = sub \<and> spService sp = sid
    \<and> (\<exists>g \<in> set (cdGrants db). grSubject g = sub \<and> grService g = sid)"
  by (force simp: desired_for_def subject_of_row_def split: if_splits option.splits)

lemma spec_desired:
  assumes "sp \<in> set (q_ListDesiredTenantSpecs db)"
  shows "desired_for db (dsSub (spSubject sp)) (spService sp) = Some sp"
proof -
  obtain g :: grant_row where "desired_for db (grSubject g) (grService g) = Some sp" using assms by (auto simp: specs_set)
  then show ?thesis using desired_for_key by metis
qed

lemma desired_spec_listed:
  assumes "desired_for db sub sid = Some sp"
  shows "sp \<in> set (q_ListDesiredTenantSpecs db)"
proof -
  obtain g where "g \<in> set (cdGrants db)" "grSubject g = sub" "grService g = sid"
    using desired_for_key[OF assms] by blast
  then show ?thesis using assms unfolding specs_set by blast
qed

lemma specs_lookup:
  assumes "services_plain db" "colon \<notin> set sid"
  shows "map_of (loadDesiredTenantSpecs db) (tenantMapKey sub sid) = desired_for db sub sid"
proof -
  note m = built_lookup[where f = spec_key and xs = "q_ListDesiredTenantSpecs db", OF loadDesiredTenantSpecs_def]
  have plain: "colon \<notin> set (spService sp)" if listed: "sp \<in> set (q_ListDesiredTenantSpecs db)" for sp
  proof -
    obtain g where "g \<in> set (cdGrants db)" "grService g = spService sp"
      using desired_for_key[OF spec_desired[OF listed]] by blast
    then show ?thesis using assms(1) by (auto simp: services_plain_def list_all_iff)
  qed
  show ?thesis
  proof (cases "map_of (loadDesiredTenantSpecs db) (tenantMapKey sub sid)")
    case None
    have "desired_for db sub sid = None"
    proof (rule ccontr)
      assume "desired_for db sub sid \<noteq> None"
      then obtain sp where sp: "desired_for db sub sid = Some sp" by blast
      then have "spec_key sp = tenantMapKey sub sid" using desired_for_key by (simp add: spec_key_def)
      then show False using None desired_spec_listed[OF sp] unfolding m(2) by (metis image_eqI)
    qed
    then show ?thesis using None by simp
  next
    case (Some sp)
    have sp: "sp \<in> set (q_ListDesiredTenantSpecs db)" "spec_key sp = tenantMapKey sub sid" using m(1)[OF Some] by auto
    then have "dsSub (spSubject sp) = sub \<and> spService sp = sid"
      using tenantMapKey_inject[OF plain[OF sp(1)] assms(2)] by (simp add: spec_key_def)
    then show ?thesis using spec_desired[OF sp(1)] Some by simp
  qed
qed

lemma convertTenantInstances_Inr: "convertTenantInstances tp rs = Inr xs \<Longrightarrow> xs = rs"
  by (induction rs arbitrary: xs) (auto simp: result_simps split: if_splits)

lemma tenants_lookup:
  assumes "loadTenantInstances tp t = Inr cur" "tenants_ok t"
    "list_all (\<lambda>r. colon \<notin> set (tnService r)) t" "colon \<notin> set sid"
  shows "map_of cur (tenantMapKey sub sid) = tenant_at t sub sid"
    and "set (mapsSortedKeys cur) = row_key ` set t" and "distinct (mapsSortedKeys cur)"
proof -
  have c: "cur = foldl (\<lambda>m r. put (row_key r) r m) [] (q_ListTenantInstances t)"
    using assms(1) by (auto simp: loadTenantInstances_def result_simps dest: convertTenantInstances_Inr)
  note m = built_lookup[OF c]
  have st: "set (q_ListTenantInstances t) = set t" by (simp add: q_ListTenantInstances_def)
  show "set (mapsSortedKeys cur) = row_key ` set t" "distinct (mapsSortedKeys cur)" using m(3,4) st by simp_all
  show "map_of cur (tenantMapKey sub sid) = tenant_at t sub sid"
  proof (cases "map_of cur (tenantMapKey sub sid)")
    case None
    then have "\<forall>r \<in> set t. \<not> tenant_key sub sid r"
      unfolding m(2) st by (auto simp: tenant_key_def row_key_def)
    then show ?thesis using None tenant_at_None by metis
  next
    case (Some r)
    have r: "r \<in> set t" "row_key r = tenantMapKey sub sid" using m(1)[OF Some] st by auto
    have "colon \<notin> set (tnService r)" using assms(3) r(1) by (simp add: list_all_iff)
    then have "tnSubject r = sub \<and> tnService r = sid"
      using tenantMapKey_inject[OF _ assms(4)] r(2) by (simp add: row_key_def)
    then show ?thesis using tenant_at_self[OF assms(2) r(1)] Some by simp
  qed
qed

section \<open>What reconciling the desired states does\<close>

text \<open>The row of a subject and a service after the transaction, from the row before and what the grants ask for.\<close>

definition ensured :: "(string \<Rightarrow> uuid) \<Rightarrow> desired_spec \<Rightarrow> tenant_row option \<Rightarrow> tenant_row" where
  "ensured draw sp cur =
     (case cur of
        None \<Rightarrow> new_tenant (draw (spec_key sp)) (dsSub (spSubject sp)) (spService sp) (dsKey (spSubject sp))
      | Some r \<Rightarrow>
          if tnDesired r = DesiredDisabled \<or> tnDesired r = DesiredDeleted then r else enabled_columns r sp r)"

definition dropped :: "tenant_row \<Rightarrow> tenant_row" where
  "dropped r =
     (if tnDesired r = DesiredDeleted \<or> tenantRuntimeModeStatic (tnMetadata r) then r
      else r\<lparr>tnDesired := DesiredDeleted\<rparr>)"

definition reconciled :: "(string \<Rightarrow> uuid) \<Rightarrow> desired_spec option \<Rightarrow> tenant_row option \<Rightarrow> tenant_row option" where
  "reconciled draw spec cur =
     (case spec of Some sp \<Rightarrow> Some (ensured draw sp cur) | None \<Rightarrow> map_option dropped cur)"

lemma keeps_key_columns:
  "keeps_key (enabled_columns r sp)" "keeps_key (\<lambda>r. r\<lparr>tnDesired := d\<rparr>)"
  by (simp_all add: keeps_key_def enabled_columns_def enable_columns_def Let_def)

lemma new_tenant_simps [simp]:
  "tnID (new_tenant i s v k) = i" "tnSubject (new_tenant i s v k) = s" "tnService (new_tenant i s v k) = v"
  "tnName (new_tenant i s v k) = BuildTenantInstanceName v k" "tnDesired (new_tenant i s v k) = DesiredEnabled"
  by (simp_all add: new_tenant_def)

text \<open>One step of the first loop.\<close>

definition ensure_step :: "(string \<Rightarrow> uuid) \<Rightarrow> desired_spec \<Rightarrow> tenant_row option \<Rightarrow> control_db
    \<Rightarrow> (store_error, control_db) result" where
  "ensure_step draw sp cur db =
     (case cur of
        None \<Rightarrow> insertTenantInstance draw sp db
      | Some r \<Rightarrow>
          if tnDesired r = DesiredDisabled \<or> tnDesired r = DesiredDeleted then Inr db
          else enableTenantInstance r sp db)"

lemma ensure_desired_step:
  "ensure_desired draw specs cur (k # ks) db =
     (case map_of specs k of
        None \<Rightarrow> ensure_desired draw specs cur ks db
      | Some sp \<Rightarrow> bind_result (ensure_step draw sp (map_of cur k) db) (ensure_desired draw specs cur ks))"
  by (simp add: ensure_step_def split: option.splits)

lemma ensure_step_result:
  assumes "ensure_step draw sp (tenant_at (cdTenants db) (dsSub (spSubject sp)) (spService sp)) db = Inr db'"
    "tenants_ok (cdTenants db)"
  shows "(\<exists>t. db' = db\<lparr>cdTenants := t\<rparr>) \<and> tenants_ok (cdTenants db')
    \<and> tenant_at (cdTenants db') sub sid
      = (if sub = dsSub (spSubject sp) \<and> sid = spService sp
         then Some (ensured draw sp (tenant_at (cdTenants db) sub sid)) else tenant_at (cdTenants db) sub sid)"
proof (cases "tenant_at (cdTenants db) (dsSub (spSubject sp)) (spService sp)")
  case None
  let ?row = "new_tenant (draw (spec_key sp)) (dsSub (spSubject sp)) (spService sp) (dsKey (spSubject sp))"
  obtain t where t: "q_InsertTenantInstance db ?row = Inr t" "db' = db\<lparr>cdTenants := t\<rparr>"
    using assms(1) None by (auto simp: ensure_step_def insertTenantInstance_def result_simps)
  have "tenant_key sub sid ?row \<longleftrightarrow> sub = dsSub (spSubject sp) \<and> sid = spService sp"
    by (auto simp: tenant_key_def)
  then show ?thesis using insert_tenant_step[OF t(1) assms(2), of sub sid] None unfolding t(2)
    by (auto simp: ensured_def)
next
  case (Some r)
  note r = tenant_at_Some[OF Some]
  have k: "tenant_key sub sid r \<longleftrightarrow> sub = dsSub (spSubject sp) \<and> sid = spService sp"
    using r by (auto simp: tenant_key_def)
  show ?thesis
  proof (cases "tnDesired r = DesiredDisabled \<or> tnDesired r = DesiredDeleted")
    case True
    then have "db' = db" using assms(1) Some by (simp add: ensure_step_def)
    then show ?thesis using Some True assms(2) by (auto simp: ensured_def intro: exI[of _ "cdTenants db"])
  next
    case False
    obtain t where t: "q_EnableTenantInstance (cdTenants db) (tnID r) (enabled_columns r sp) = Inr t"
      "db' = db\<lparr>cdTenants := t\<rparr>"
      using assms(1) Some False by (auto simp: ensure_step_def enableTenantInstance_def result_simps)
    then show ?thesis
      using enable_tenant_step[OF t(1) assms(2) _ refl keeps_key_columns(1), of sub sid] r k Some False
      by (auto simp: ensured_def)
  qed
qed

lemma ensure_desired_result:
  assumes "ensure_desired draw specs cur ks db = Inr db'" "distinct ks" "tenants_ok (cdTenants db)"
    "\<forall>k \<in> set ks. \<exists>sp. map_of specs k = Some sp \<and> spec_key sp = k \<and> colon \<notin> set (spService sp)
       \<and> map_of cur k = tenant_at (cdTenants db) (dsSub (spSubject sp)) (spService sp)"
    "colon \<notin> set sid"
  shows "(\<exists>t. db' = db\<lparr>cdTenants := t\<rparr>) \<and> tenants_ok (cdTenants db')
    \<and> tenant_at (cdTenants db') sub sid
      = (if tenantMapKey sub sid \<in> set ks
         then Some (ensured draw (the (map_of specs (tenantMapKey sub sid))) (tenant_at (cdTenants db) sub sid))
         else tenant_at (cdTenants db) sub sid)"
  using assms
proof (induction ks arbitrary: db)
  case Nil
  then show ?case by (auto intro: exI[of _ "cdTenants db"])
next
  case (Cons k ks)
  obtain sp where sp: "map_of specs k = Some sp" "spec_key sp = k" "colon \<notin> set (spService sp)"
    "map_of cur k = tenant_at (cdTenants db) (dsSub (spSubject sp)) (spService sp)"
    using Cons.prems(4) by auto
  obtain db1 where one: "ensure_step draw sp (tenant_at (cdTenants db) (dsSub (spSubject sp)) (spService sp)) db = Inr db1"
    and rest: "ensure_desired draw specs cur ks db1 = Inr db'"
    using Cons.prems(1) sp unfolding ensure_desired_step by (auto simp: result_simps)
  note st = ensure_step_result[OF one Cons.prems(3)]
  have other: "tenant_at (cdTenants db1) (dsSub (spSubject sp')) (spService sp')
      = tenant_at (cdTenants db) (dsSub (spSubject sp')) (spService sp')" if "spec_key sp' \<noteq> k" for sp'
    using st[of "dsSub (spSubject sp')" "spService sp'"] that sp(2) by (auto simp: spec_key_def)
  have prem: "\<forall>k \<in> set ks. \<exists>sp. map_of specs k = Some sp \<and> spec_key sp = k \<and> colon \<notin> set (spService sp)
       \<and> map_of cur k = tenant_at (cdTenants db1) (dsSub (spSubject sp)) (spService sp)"
  proof
    fix k' assume k': "k' \<in> set ks"
    then obtain sp' where sp': "map_of specs k' = Some sp'" "spec_key sp' = k'" "colon \<notin> set (spService sp')"
      "map_of cur k' = tenant_at (cdTenants db) (dsSub (spSubject sp')) (spService sp')"
      using Cons.prems(4) by auto
    have "spec_key sp' \<noteq> k" using k' sp'(2) Cons.prems(2) by auto
    then show "\<exists>sp. map_of specs k' = Some sp \<and> spec_key sp = k' \<and> colon \<notin> set (spService sp)
       \<and> map_of cur k' = tenant_at (cdTenants db1) (dsSub (spSubject sp)) (spService sp)"
      using sp' other by metis
  qed
  have ih: "(\<exists>t. db' = db1\<lparr>cdTenants := t\<rparr>) \<and> tenants_ok (cdTenants db')
    \<and> tenant_at (cdTenants db') sub sid
      = (if tenantMapKey sub sid \<in> set ks
         then Some (ensured draw (the (map_of specs (tenantMapKey sub sid))) (tenant_at (cdTenants db1) sub sid))
         else tenant_at (cdTenants db1) sub sid)"
    using Cons.IH[OF rest _ _ prem Cons.prems(5)] Cons.prems(2) st by auto
  have key: "tenantMapKey sub sid = k \<longleftrightarrow> sub = dsSub (spSubject sp) \<and> sid = spService sp"
    using tenantMapKey_inject[OF Cons.prems(5) sp(3)] sp(2) by (auto simp: spec_key_def)
  have at: "tenant_at (cdTenants db1) sub sid
      = (if tenantMapKey sub sid = k then Some (ensured draw sp (tenant_at (cdTenants db) sub sid))
         else tenant_at (cdTenants db) sub sid)"
    using st[of sub sid] key by simp
  have "\<exists>t. db' = db\<lparr>cdTenants := t\<rparr>" using ih st by fastforce
  moreover have "tenant_at (cdTenants db') sub sid
      = (if tenantMapKey sub sid \<in> set (k # ks)
         then Some (ensured draw (the (map_of specs (tenantMapKey sub sid))) (tenant_at (cdTenants db) sub sid))
         else tenant_at (cdTenants db) sub sid)"
    using ih at sp(1) Cons.prems(2) by (cases "tenantMapKey sub sid = k") auto
  ultimately show ?case using ih by blast
qed

definition drop_step :: "(string \<times> desired_spec) list \<Rightarrow> string \<Rightarrow> tenant_row \<Rightarrow> tenant_table \<Rightarrow> tenant_table" where
  "drop_step specs k r t =
     (if map_of specs k \<noteq> None \<or> tnDesired r = DesiredDeleted \<or> tenantRuntimeModeStatic (tnMetadata r) then t
      else q_MarkTenantDesiredDeleted t (tnID r) DesiredDeleted)"

lemma drop_undesired_step:
  "map_of cur k = Some r \<Longrightarrow>
   drop_undesired specs cur (k # ks) t = drop_undesired specs cur ks (drop_step specs k r t)"
  by (simp add: drop_step_def)

lemma drop_step_result:
  assumes "tenants_ok t" "map_of specs k = None \<longrightarrow> r \<in> set t"
  shows "tenants_ok (drop_step specs k r t)
    \<and> tenant_at (drop_step specs k r t) sub sid
      = (if map_of specs k = None \<and> tenant_key sub sid r then Some (dropped r) else tenant_at t sub sid)
    \<and> (\<forall>q \<in> set t. q \<noteq> r \<longrightarrow> q \<in> set (drop_step specs k r t))"
proof (cases "map_of specs k \<noteq> None \<or> tnDesired r = DesiredDeleted \<or> tenantRuntimeModeStatic (tnMetadata r)")
  case True
  then have "drop_step specs k r t = t" by (simp add: drop_step_def)
  moreover have "tenant_at t sub sid = Some r" if "map_of specs k = None" "tenant_key sub sid r"
    using tenant_find[OF assms(1)] assms(2) that by simp
  ultimately show ?thesis using True assms(1) by (auto simp: dropped_def)
next
  case False
  then have r: "r \<in> set t" using assms(2) by simp
  let ?f = "\<lambda>r. r\<lparr>tnDesired := DesiredDeleted\<rparr>"
  have d: "drop_step specs k r t = map (\<lambda>q. if tnID q = tnID r then ?f q else q) t"
    using False by (simp add: drop_step_def q_MarkTenantDesiredDeleted_def update_tenant_def)
  have names: "tnName q \<noteq> tnName (?f x)" if "x \<in> set t" "tnID x = tnID r" "q \<in> set t" "tnID q \<noteq> tnID r" for x q
    using same_name[OF assms(1) that(1,3)] that(2,4) by auto
  have "q \<in> set (drop_step specs k r t)" if q: "q \<in> set t" "q \<noteq> r" for q
  proof -
    have "tnID q \<noteq> tnID r" using same_id[OF assms(1) q(1) r] q(2) by blast
    then show ?thesis using q(1) unfolding d by (simp add: rev_image_eqI)
  qed
  moreover have "tenants_ok (drop_step specs k r t)"
    unfolding d by (rule tenants_ok_update[OF assms(1) keeps_key_columns(2) names])
  moreover have "tenant_at (drop_step specs k r t) sub sid
      = (if tenant_key sub sid r then Some (?f r) else tenant_at t sub sid)"
    unfolding d by (rule tenant_at_update[OF assms(1) r refl keeps_key_columns(2)])
  moreover have "dropped r = ?f r" "map_of specs k = None" using False by (simp_all add: dropped_def)
  ultimately show ?thesis by simp
qed

lemma drop_undesired_result:
  assumes "distinct ks" "tenants_ok t" "colon \<notin> set sid"
    "\<forall>k \<in> set ks. \<exists>r. map_of cur k = Some r \<and> row_key r = k \<and> colon \<notin> set (tnService r)
       \<and> (map_of specs k = None \<longrightarrow> r \<in> set t)"
  shows "tenants_ok (drop_undesired specs cur ks t)
    \<and> tenant_at (drop_undesired specs cur ks t) sub sid
      = (if tenantMapKey sub sid \<in> set ks \<and> map_of specs (tenantMapKey sub sid) = None
         then map_option dropped (tenant_at t sub sid) else tenant_at t sub sid)"
  using assms
proof (induction ks arbitrary: t)
  case (Cons k ks)
  obtain r where r: "map_of cur k = Some r" "row_key r = k" "colon \<notin> set (tnService r)"
    "map_of specs k = None \<longrightarrow> r \<in> set t" using Cons.prems(4) by auto
  let ?t = "drop_step specs k r t"
  note st = drop_step_result[OF Cons.prems(2) r(4)]
  have keep: "\<forall>q \<in> set t. q \<noteq> r \<longrightarrow> q \<in> set ?t" using st by blast
  have prem: "\<forall>k \<in> set ks. \<exists>r. map_of cur k = Some r \<and> row_key r = k \<and> colon \<notin> set (tnService r)
       \<and> (map_of specs k = None \<longrightarrow> r \<in> set ?t)"
  proof
    fix k' assume k': "k' \<in> set ks"
    then obtain q where q: "map_of cur k' = Some q" "row_key q = k'" "colon \<notin> set (tnService q)"
      "map_of specs k' = None \<longrightarrow> q \<in> set t" using Cons.prems(4) by auto
    have "q \<noteq> r" using q(2) r(2) k' Cons.prems(1) by auto
    then have "map_of specs k' = None \<longrightarrow> q \<in> set ?t" using q(4) keep by simp
    then show "\<exists>r. map_of cur k' = Some r \<and> row_key r = k' \<and> colon \<notin> set (tnService r)
       \<and> (map_of specs k' = None \<longrightarrow> r \<in> set ?t)" using q(1-3) by (intro exI[of _ q] conjI)
  qed
  have ih: "tenants_ok (drop_undesired specs cur ks ?t)
    \<and> tenant_at (drop_undesired specs cur ks ?t) sub sid
      = (if tenantMapKey sub sid \<in> set ks \<and> map_of specs (tenantMapKey sub sid) = None
         then map_option dropped (tenant_at ?t sub sid) else tenant_at ?t sub sid)"
    using Cons.IH[OF _ _ Cons.prems(3) prem] Cons.prems(1) st by auto
  have key: "tenantMapKey sub sid = k \<longleftrightarrow> tenant_key sub sid r"
    using tenantMapKey_inject[OF Cons.prems(3) r(3)] r(2) by (auto simp: row_key_def tenant_key_def)
  have found: "tenant_at t sub sid = Some r" if "map_of specs k = None" "tenantMapKey sub sid = k"
    using tenant_find[OF Cons.prems(2)] r(4) that key by simp
  have "tenant_at ?t sub sid = (if map_of specs k = None \<and> tenantMapKey sub sid = k
      then map_option dropped (tenant_at t sub sid) else tenant_at t sub sid)"
    using st[of sub sid] key found by simp
  then show ?case
    using ih Cons.prems(1) unfolding drop_undesired_step[OF r(1)] by auto
qed simp

lemma reconcile_result:
  assumes "reconcile_body tp draw db = Inr db'" "tenants_ok (cdTenants db)" "services_plain db" "colon \<notin> set sid"
  shows "tenants_ok (cdTenants db') \<and> (\<exists>t. db' = db\<lparr>cdTenants := t\<rparr>)
    \<and> tenant_at (cdTenants db') sub sid = reconciled draw (desired_for db sub sid) (tenant_at (cdTenants db) sub sid)"
proof -
  let ?specs = "loadDesiredTenantSpecs db"
  obtain cur db1 where cur: "loadTenantInstances tp (cdTenants db) = Inr cur"
    and one: "ensure_desired draw ?specs cur (mapsSortedKeys ?specs) db = Inr db1"
    and db': "db' = db1\<lparr>cdTenants := drop_undesired ?specs cur (mapsSortedKeys cur) (cdTenants db1)\<rparr>"
    using assms(1) by (auto simp: reconcile_body_def Let_def result_simps)
  have plain: "list_all (\<lambda>r. colon \<notin> set (tnService r)) (cdTenants db)" using assms(3) by (simp add: services_plain_def)
  note specs = built_lookup[where f = spec_key and xs = "q_ListDesiredTenantSpecs db", OF loadDesiredTenantSpecs_def]
  note look = tenants_lookup[OF cur assms(2) plain]
  have listed: "\<exists>sp. map_of ?specs k = Some sp \<and> spec_key sp = k \<and> colon \<notin> set (spService sp)
       \<and> map_of cur k = tenant_at (cdTenants db) (dsSub (spSubject sp)) (spService sp)"
    if k: "k \<in> set (mapsSortedKeys ?specs)" for k
  proof -
    obtain sp where sp: "map_of ?specs k = Some sp" using specs(2,3) k by auto
    have in_list: "sp \<in> set (q_ListDesiredTenantSpecs db)" "spec_key sp = k" using specs(1)[OF sp] by auto
    obtain g where "g \<in> set (cdGrants db)" "grService g = spService sp"
      using desired_for_key[OF spec_desired[OF in_list(1)]] by blast
    then have "colon \<notin> set (spService sp)" using assms(3) by (auto simp: services_plain_def list_all_iff)
    then show ?thesis using sp in_list look(1) by (auto simp: spec_key_def)
  qed
  have r1': "(\<exists>t. db1 = db\<lparr>cdTenants := t\<rparr>) \<and> tenants_ok (cdTenants db1)
    \<and> tenant_at (cdTenants db1) s i
      = (if tenantMapKey s i \<in> set (mapsSortedKeys ?specs)
         then Some (ensured draw (the (map_of ?specs (tenantMapKey s i))) (tenant_at (cdTenants db) s i))
         else tenant_at (cdTenants db) s i)" if "colon \<notin> set i" for s i
    using ensure_desired_result[OF one specs(4) assms(2) _ that, of s] listed by blast
  have in_keys: "tenantMapKey s i \<in> set (mapsSortedKeys ?specs) \<longleftrightarrow> desired_for db s i \<noteq> None"
    if "colon \<notin> set i" for s i
    using specs_lookup[OF assms(3) that, of s] specs(2,3) by metis
  have "\<forall>k \<in> set (mapsSortedKeys cur). \<exists>r. map_of cur k = Some r \<and> row_key r = k \<and> colon \<notin> set (tnService r)
       \<and> (map_of ?specs k = None \<longrightarrow> r \<in> set (cdTenants db1))"
  proof
    fix k assume "k \<in> set (mapsSortedKeys cur)"
    then obtain r where r: "r \<in> set (cdTenants db)" "row_key r = k" using look(2)[OF assms(4)] by auto
    then have c: "colon \<notin> set (tnService r)" using plain by (simp add: list_all_iff)
    have at: "tenant_at (cdTenants db) (tnSubject r) (tnService r) = Some r"
      by (rule tenant_at_self[OF assms(2) r(1)])
    have "r \<in> set (cdTenants db1)" if "map_of ?specs k = None"
    proof -
      have "k \<notin> set (mapsSortedKeys ?specs)" using that specs(2,3) by blast
      then have "tenant_at (cdTenants db1) (tnSubject r) (tnService r) = Some r"
        using r1'[OF c, of "tnSubject r"] at r(2) by (simp add: row_key_def)
      then show ?thesis using tenant_at_Some by blast
    qed
    then show "\<exists>r. map_of cur k = Some r \<and> row_key r = k \<and> colon \<notin> set (tnService r)
       \<and> (map_of ?specs k = None \<longrightarrow> r \<in> set (cdTenants db1))"
      using look(1)[OF c, of "tnSubject r"] at r(2) c by (auto simp: row_key_def)
  qed
  from drop_undesired_result[OF look(3)[OF assms(4)] _ assms(4) this, of sub] r1'[OF assms(4), of sub]
  have r2: "tenants_ok (cdTenants db')"
    "tenant_at (cdTenants db') sub sid
      = (if tenantMapKey sub sid \<in> set (mapsSortedKeys cur) \<and> map_of ?specs (tenantMapKey sub sid) = None
         then map_option dropped (tenant_at (cdTenants db1) sub sid) else tenant_at (cdTenants db1) sub sid)"
    unfolding db' by auto
  have have_row: "tenantMapKey sub sid \<in> set (mapsSortedKeys cur)" if "tenant_at (cdTenants db) sub sid \<noteq> None"
    using look(2)[OF assms(4)] tenant_at_Some that by (fastforce simp: row_key_def)
  have "tenant_at (cdTenants db') sub sid
      = reconciled draw (desired_for db sub sid) (tenant_at (cdTenants db) sub sid)"
    using r2(2) r1'[OF assms(4), of sub] in_keys[OF assms(4), of sub] specs_lookup[OF assms(3,4), of sub] have_row
    by (cases "desired_for db sub sid"; cases "tenant_at (cdTenants db) sub sid") (auto simp: reconciled_def)
  then show ?thesis using r2(1) r1'[OF assms(4), of sub] unfolding db' by auto
qed

section \<open>Invariant of the control plane's tables\<close>

text \<open>Every service of a tenant is in the catalog, where all identifiers are well formed.\<close>

definition tenants_refer :: "control_db \<Rightarrow> bool" where
  "tenants_refer db = list_all (\<lambda>r. tnService r \<in> set (map crID (cdCatalog db))) (cdTenants db)"

definition control_ok :: "control_db \<Rightarrow> bool" where
  "control_ok db =
     (grants_inv db \<and> tenants_ok (cdTenants db) \<and> tenants_refer db
      \<and> list_all (\<lambda>r. service_id_ok (crID r)) (cdCatalog db))"

lemma control_ok_plain:
  assumes "control_ok db"
  shows "services_plain db"
proof -
  have ids: "i \<in> set (map crID (cdCatalog db)) \<Longrightarrow> colon \<notin> set i" for i
    using assms service_id_no(1) by (auto simp: control_ok_def list_all_iff)
  have "colon \<notin> set (grService g)" if "g \<in> set (cdGrants db)" for g
  proof -
    have "grant_key g \<in> set (map source_key (cdSources db))"
      using assms that by (auto simp: control_ok_def grants_inv_def grants_match_def)
    then obtain r where r: "r \<in> set (cdSources db)" "gsService r = grService g" by auto
    have "\<forall>r \<in> set (cdSources db). gsService r \<in> set (map crID (cdCatalog db))"
      using assms by (simp add: control_ok_def grants_inv_def sources_ok_def list_all_iff)
    then have "gsService r \<in> set (map crID (cdCatalog db))" using r(1) by (rule bspec)
    then show ?thesis using ids r(2) by simp
  qed
  moreover have "colon \<notin> set (tnService r)" if "r \<in> set (cdTenants db)" for r
    using assms that ids by (auto simp: control_ok_def tenants_refer_def list_all_iff)
  ultimately show ?thesis by (simp add: services_plain_def list_all_iff)
qed

lemma control_ok_grants:
  "control_ok db \<Longrightarrow> grants_inv db' \<Longrightarrow> cdCatalog db' = cdCatalog db \<Longrightarrow> cdTenants db' = cdTenants db
    \<Longrightarrow> control_ok db'"
  by (simp add: control_ok_def tenants_refer_def)

lemma control_ok_tenants:
  assumes "control_ok db" "tenants_ok t" "list_all (\<lambda>r. tnService r \<in> set (map crID (cdCatalog db))) t"
  shows "control_ok (db\<lparr>cdTenants := t\<rparr>)"
  using assms by (simp add: control_ok_def tenants_refer_def grants_inv_def grants_match_def sources_ok_def source_ids_def)

lemma insert_tenant_refers:
  "q_InsertTenantInstance db row = Inr t \<Longrightarrow> tenants_refer db \<Longrightarrow> tenants_refer (db\<lparr>cdTenants := t\<rparr>)"
  by (force simp: q_InsertTenantInstance_def tenant_references_def tenants_refer_def list_ex_iff split: if_splits)

lemma map_services: "keeps_key f \<Longrightarrow> list_all (\<lambda>r. P (tnService r)) t
   \<Longrightarrow> list_all (\<lambda>r. P (tnService r)) (map (\<lambda>q. if Q q then f q else q) t)"
  by (auto simp: list_all_iff keeps_key_def)

lemma enable_tenant_refers:
  "q_EnableTenantInstance (cdTenants db) tid f = Inr t \<Longrightarrow> keeps_key f \<Longrightarrow> tenants_refer db
    \<Longrightarrow> tenants_refer (db\<lparr>cdTenants := t\<rparr>)"
  using map_services unfolding q_EnableTenantInstance_def tenants_refer_def
  by (fastforce split: option.splits if_splits)

lemma ensure_step_refers:
  assumes "ensure_step draw sp cur db = Inr db'" "tenants_refer db"
  shows "tenants_refer db' \<and> cdCatalog db' = cdCatalog db"
proof (cases cur)
  case None
  then show ?thesis using assms insert_tenant_refers
    by (auto simp: ensure_step_def insertTenantInstance_def result_simps)
next
  case (Some r)
  then show ?thesis using assms enable_tenant_refers[OF _ keeps_key_columns(1)]
    by (auto simp: ensure_step_def enableTenantInstance_def result_simps split: if_splits)
qed

lemma ensure_desired_refers:
  "ensure_desired draw specs cur ks db = Inr db' \<Longrightarrow> tenants_refer db
    \<Longrightarrow> tenants_refer db' \<and> cdCatalog db' = cdCatalog db"
proof (induction ks arbitrary: db)
  case (Cons k ks)
  then show ?case
    using ensure_step_refers unfolding ensure_desired_step
    by (cases "map_of specs k") (fastforce simp: result_simps)+
qed simp

lemma drop_undesired_refers:
  "list_all (\<lambda>r. P (tnService r)) t \<Longrightarrow> list_all (\<lambda>r. P (tnService r)) (drop_undesired specs cur ks t)"
proof (induction ks arbitrary: t)
  case (Cons k ks)
  have "list_all (\<lambda>r. P (tnService r)) (q_MarkTenantDesiredDeleted t tid d)" for tid d
    using map_services[OF keeps_key_columns(2) Cons.prems]
    by (simp add: q_MarkTenantDesiredDeleted_def update_tenant_def)
  then show ?case using Cons by (simp split: option.splits)
qed simp

lemma reconcile_ok:
  assumes "reconcile_body tp draw db = Inr db'" "control_ok db"
  shows "control_ok db'"
proof -
  have ok: "tenants_ok (cdTenants db)" "tenants_refer db" using assms(2) by (simp_all add: control_ok_def)
  note r = reconcile_result[OF assms(1) ok(1) control_ok_plain[OF assms(2)], of "[]" "[]"]
  obtain t where t: "db' = db\<lparr>cdTenants := t\<rparr>" using r by auto
  have okt: "tenants_ok t" using r unfolding t by simp
  have "tenants_refer db'"
    using assms(1) ensure_desired_refers ok(2) drop_undesired_refers
    by (fastforce simp: reconcile_body_def Let_def result_simps tenants_refer_def)
  then show ?thesis using control_ok_tenants[OF assms(2) okt] unfolding t by (simp add: tenants_refer_def)
qed

lemma static_refers:
  assumes "static_body key c tid s sid url v db = Inr db'" "control_ok db"
  shows "control_ok db'"
proof -
  obtain row t u and p :: subject_row where e: "q_GetEnabledServiceCatalogEntry (cdCatalog db) sid = Inr row"
    and t: "q_UpsertSubjectPreservingMetadata (cdSubjects db) (keyed_subject key s) = Inr t"
    and u: "q_UpsertStaticTenantUpstream (db\<lparr>cdSubjects := t\<rparr>) tid (dsSub s) sid (sbKey p)
        (BuildTenantInstanceName sid (sbKey p)) url (cnFormat c v) = Inr u"
    and db': "db' = db\<lparr>cdSubjects := t, cdTenants := u\<rparr>"
    using assms(1) by (auto simp: static_body_def upsert_enabled_subject_def result_simps split: if_splits)
  let ?db = "db\<lparr>cdSubjects := t\<rparr>"
  have "sources_ok ?db"
    using assms(2) q_UpsertSubjectPreserving_grows[OF t]
    by (intro subjects_grow_ok) (auto simp: control_ok_def grants_inv_def)
  then have okdb: "control_ok ?db"
    using assms(2) grants_match_subjects by (simp add: control_ok_def grants_inv_def tenants_refer_def)
  have tok: "tenants_ok (cdTenants ?db)" "tenants_refer ?db" using okdb by (simp_all add: control_ok_def)
  have keep: "keeps_key (static_columns k n w h)" for k n w h by (simp add: keeps_key_def static_columns_def)
  have "tenants_ok u \<and> tenants_refer (?db\<lparr>cdTenants := u\<rparr>)"
  proof (cases "find (tenant_key (dsSub s) sid) (cdTenants ?db)")
    case None
    then have i: "q_InsertTenantInstance ?db (static_columns (sbKey p) (BuildTenantInstanceName sid (sbKey p)) url
        (cnFormat c v) (new_tenant tid (dsSub s) sid (sbKey p))) = Inr u"
      using u by (simp add: q_UpsertStaticTenantUpstream_def)
    show ?thesis using insert_tenant_step[OF i tok(1)] insert_tenant_refers[OF i tok(2)] by blast
  next
    case (Some r)
    then have i: "q_EnableTenantInstance (cdTenants ?db) (tnID r) (static_columns (sbKey p)
        (BuildTenantInstanceName sid (sbKey p)) url (cnFormat c v)) = Inr u"
      using u by (simp add: q_UpsertStaticTenantUpstream_def)
    show ?thesis
      using enable_tenant_step[OF i tok(1) _ refl keep] enable_tenant_refers[OF i keep tok(2)] tenant_at_Some[OF Some]
      by blast
  qed
  then show ?thesis
    using control_ok_tenants[OF okdb, of u] unfolding db' by (simp add: tenants_refer_def)
qed

text \<open>The updates of a single row of which the reconciler and the administrator make use.\<close>

lemma update_tenant_ok:
  assumes "tenants_ok t" "keeps_key f" "\<And>r. tnName (f r) = tnName r"
  shows "tenants_ok (map (\<lambda>r. if P r then f r else r) t)"
proof -
  have "map tnName (map (\<lambda>r. if P r then f r else r) t) = map tnName t" using assms(3) by simp
  then show ?thesis using assms(1) map_keys_same[OF assms(2), of P t] by (simp only: tenants_ok_def)
qed

lemma map_control_ok:
  assumes "control_ok db" "keeps_key f" "\<And>r. tnName (f r) = tnName r"
  shows "control_ok (db\<lparr>cdTenants := map (\<lambda>r. if P r then f r else r) (cdTenants db)\<rparr>)"
  using assms update_tenant_ok[OF _ assms(2,3)] map_services[OF assms(2)]
  by (intro control_ok_tenants) (auto simp: control_ok_def tenants_refer_def)

lemma delete_control_ok:
  assumes "control_ok db"
  shows "control_ok (db\<lparr>cdTenants := filter P (cdTenants db)\<rparr>)"
  using assms
  by (intro control_ok_tenants)
     (auto simp: control_ok_def tenants_ok_def tenants_refer_def list_all_iff distinct_map_filter)

lemma suspend_ok: "control_ok db \<Longrightarrow> control_ok (fst (SuspendTenantInstance fault db sub sid))"
  using map_control_ok[OF _ keeps_key_columns(2)]
  by (simp add: SuspendTenantInstance_def q_MarkTenantDesiredDisabledBySubjectService_def Let_def split: option.split)

lemma resume_ok: "control_ok db \<Longrightarrow> control_ok (fst (ResumeTenantInstance fault cf db sub sid))"
  using map_control_ok[OF _ keeps_key_columns(2)]
  by (simp add: ResumeTenantInstance_def q_MarkTenantDesiredEnabledBySubjectServiceWithGrant_def Let_def split: option.split)

text \<open>Everything that writes the tables of grants and tenants.\<close>

datatype control_op =
    ControlGrant grant_op
  | ControlSuspend "db_error option" string string
  | ControlResume "db_error option" "db_error option" string string
  | ControlStatic "db_error option" control_clock uuid domain_subject string string time
  | ControlReconcile "db_error option" time_parsers "string \<Rightarrow> uuid"
  | ControlMark uuid "string option" string
  | ControlUpdate runtime_update
  | ControlDelete uuid

fun control_step :: "(string \<Rightarrow> string) \<Rightarrow> control_db \<Rightarrow> control_op \<Rightarrow> control_db" where
  "control_step key db (ControlGrant g) = grant_step key db g"
| "control_step key db (ControlSuspend f sub sid) = fst (SuspendTenantInstance f db sub sid)"
| "control_step key db (ControlResume f f' sub sid) = fst (ResumeTenantInstance f f' db sub sid)"
| "control_step key db (ControlStatic f c tid s sid url v) = fst (UpsertStaticTenantUpstream f key c tid db s sid url v)"
| "control_step key db (ControlReconcile f tp draw) = fst (ReconcileDesiredTenants f tp draw db)"
| "control_step key db (ControlMark tid at err) = db\<lparr>cdTenants := q_MarkTenantReconciled (cdTenants db) tid at err\<rparr>"
| "control_step key db (ControlUpdate u) = db\<lparr>cdTenants := q_UpdateTenantRuntimeStatus (cdTenants db) u\<rparr>"
| "control_step key db (ControlDelete tid) = db\<lparr>cdTenants := q_DeleteTenantInstance (cdTenants db) tid\<rparr>"

lemma grant_step_frame:
  "cdCatalog (grant_step key db g) = cdCatalog db \<and> cdTenants (grant_step key db g) = cdTenants db"
proof -
  have frame: "cdCatalog (fst (with_tx f db b)) = cdCatalog db \<and> cdTenants (fst (with_tx f db b)) = cdTenants db"
    if "\<And>db'. b db = Inr db' \<Longrightarrow> cdCatalog db' = cdCatalog db \<and> cdTenants db' = cdTenants db" for f b
    by (rule with_tx_keeps[where P = "\<lambda>d. cdCatalog d = cdCatalog db \<and> cdTenants d = cdTenants db"])
       (use that in auto)
  show ?thesis
    by (cases g)
       (auto simp: UpsertSubject_def ReplaceSubjectGrants_def UpsertManualServiceGrant_def
         DeleteManualServiceGrant_def SyncSubjectGrantSnapshot_def result_simps
         dest!: replace_result manual_result sync_result intro!: frame)
qed

lemma control_step_ok: "control_ok db \<Longrightarrow> control_ok (control_step key db x)"
proof (cases x)
  case (ControlGrant g)
  moreover assume "control_ok db"
  ultimately show ?thesis
    using control_ok_grants[OF _ grant_step_inv] grant_step_frame by (simp add: control_ok_def)
next
  case (ControlStatic f c tid s sid url v)
  moreover assume "control_ok db"
  ultimately show ?thesis
    using static_refers by (simp add: UpsertStaticTenantUpstream_def) (rule with_tx_keeps, auto)
next
  case (ControlReconcile f tp draw)
  moreover assume "control_ok db"
  ultimately show ?thesis
    using reconcile_ok by (simp add: ReconcileDesiredTenants_def) (rule with_tx_keeps, auto)
qed (simp_all add: suspend_ok resume_ok q_MarkTenantReconciled_def q_UpdateTenantRuntimeStatus_def update_tenant_def
      q_DeleteTenantInstance_def delete_control_ok map_control_ok keeps_key_def)

definition control_exec :: "(string \<Rightarrow> string) \<Rightarrow> control_db \<Rightarrow> control_op list \<Rightarrow> control_db" where
  "control_exec key db ops = foldl (control_step key) db ops"

lemma control_exec_ok: "control_ok db \<Longrightarrow> control_ok (control_exec key db ops)"
  unfolding control_exec_def by (induction ops arbitrary: db) (simp_all add: control_step_ok)

lemma control_ok_start: "catalog_inv t \<Longrightarrow> control_ok (control_start t)"
proof -
  assume t: "catalog_inv t"
  have "service_id_ok (crID r)" if "r \<in> set t" for r
    using t that validate_paths[of "crEntry r"] by (auto simp: catalog_inv_def row_valid_def list_all_iff)
  then show "control_ok (control_start t)"
    by (simp add: control_ok_def grants_inv_start)
       (simp add: control_start_def tenants_refer_def tenants_ok_def list_all_iff)
qed

end
