(* ===== verification/ControlProperties.thy ===== *)
theory ControlProperties
  imports Leases Tenants
begin

text \<open>
  Properties of the control plane: its lease, the catalog it writes, grants and tenants, and what the edge
  makes of them.
\<close>

section \<open>One control plane at a time\<close>

text \<open>
  Property C6: while one instance of the control plane knows that it holds the lease, no other instance
  does.  After an acquisition or a successful question at some time by the clock of the database, and
  unless the instance releases the lease, no other instance acquires or confirms it until two minutes have passed,
  whatever the instances do and whichever of their queries fail in between.
\<close>

theorem lease_is_exclusive:
  assumes "lease_step (lease_exec lease_start past) x = (s1, True)"
    and "list_all (\<lambda>z. \<not> (is_release z \<and> op_holder z = op_holder x)) mid"
    and "sorted (op_time x # map op_time mid @ [op_time y])"
    and "lease_step (lease_exec s1 mid) y = (s2, True)"
    and "op_holder y \<noteq> op_holder x"
  shows "op_time x + controlPlaneLeaseTTL \<le> op_time y"
  by (rule lease_excludes[OF locks_ok_exec[OF locks_ok_start] assms])

theorem lease_is_exclusive_witness:
  "snd (lease_step (lease_exec (fst (lease_step lease_start (LAcquire ''a'' 5 QueryOk)))
      [LHeld ''b'' 6 QueryOk, LAcquire ''b'' 7 QueryOk, LHeld ''a'' 8 QueryLost])
      (LAcquire ''b'' (8 + controlPlaneLeaseTTL) QueryOk))
   \<and> 5 + controlPlaneLeaseTTL \<le> 8 + controlPlaneLeaseTTL"
proof -
  let ?x = "LAcquire ''a'' 5 QueryOk"
  let ?mid = "[LHeld ''b'' 6 QueryOk, LAcquire ''b'' 7 QueryOk, LHeld ''a'' 8 QueryLost]"
  let ?y = "LAcquire ''b'' (8 + controlPlaneLeaseTTL) QueryOk"
  obtain s1 b1 where x: "lease_step (lease_exec lease_start []) ?x = (s1, b1)" by force
  have s1: "s1 = fst (lease_step lease_start ?x)" using x by simp
  have b1: "b1" using x by (auto simp: lease_start_def AcquireControlPlaneLock_def q_AcquireControlPlaneLease_def)
  obtain s2 b2 where y: "lease_step (lease_exec s1 ?mid) ?y = (s2, b2)" by force
  have b2: "b2" using y unfolding s1
    by (auto simp: lease_start_def AcquireControlPlaneLock_def lock_Held_def q_AcquireControlPlaneLease_def
        controlPlaneLeaseTTL_def)
  have "5 + controlPlaneLeaseTTL \<le> 8 + controlPlaneLeaseTTL"
    using lease_is_exclusive[of "[]" ?x s1 ?mid ?y s2] x b1 y b2
    by (simp add: controlPlaneLeaseTTL_def)
  then show ?thesis using y b2 unfolding s1 by simp
qed

text \<open>
  Property C7: no crash and no failure blocks the control plane for long.  Whatever the instances did up to
  some time, and whichever of their queries failed, two minutes later any instance acquires the lease.
\<close>

theorem lease_is_obtainable:
  assumes "list_all (\<lambda>x. op_time x \<le> t) past"
  shows "snd (lease_step (lease_exec lease_start past) (LAcquire h (t + controlPlaneLeaseTTL) QueryOk))"
proof (rule lease_obtainable)
  fix r assume "lease_of (lease_exec lease_start past) = Some r"
  moreover have "expires_by t lease_start" by (simp add: expires_by_def lease_start_def)
  ultimately show "leExpires r \<le> t + controlPlaneLeaseTTL"
    using expires_by_exec[OF _ assms] expires_by_lease by blast
qed

theorem lease_is_obtainable_witness:
  "snd (lease_step (lease_exec lease_start [LAcquire ''a'' 5 QueryOk, LHeld ''a'' 7 QueryOk])
     (LAcquire ''b'' (7 + controlPlaneLeaseTTL) QueryOk))"
  by (rule lease_is_obtainable) simp

text \<open>
  A single question that fails, for instance because the client of the readiness page
  went away, ends the leadership of the instance for good, although its row is still valid: every later
  question is answered no.
\<close>

theorem failed_question_ends_leadership:
  assumes "f \<noteq> QueryOk" and "list_all (\<lambda>x. \<not> is_acquire_of h x) later"
  shows "\<not> snd (lease_step (lease_exec (fst (lease_step s (LHeld h t f))) later) (LHeld h t' f'))"
  by (rule lock_lost_held[OF lock_lost_exec[OF failed_question_loses[OF assms(1)] assms(2)]])

theorem failed_question_ends_leadership_witness:
  "\<not> snd (lease_step (lease_exec (fst (lease_step (lease_exec lease_start [LAcquire ''a'' 5 QueryOk])
      (LHeld ''a'' 6 QueryRefused))) [LHeld ''a'' 7 QueryOk]) (LHeld ''a'' 8 QueryOk))"
  by (rule failed_question_ends_leadership) simp_all

section \<open>The catalog\<close>

text \<open>
  An administrator with the token \<^verbatim>\<open>t0k\<close>, and requests to write services.
\<close>

definition fx_token_file :: "string \<Rightarrow> string option" where
  "fx_token_file path = (if path = ''/run/admin'' then Some ''t0k'' else None)"

definition fx_service :: "string \<Rightarrow> catalog_entry" where
  "fx_service path =
     \<lparr>ServiceID = [], DisplayName = ''Notes'', UpstreamServiceName = ''notes'', TransportType = TransportStreamableHTTP,
      InternalPort = 80, PublicPath = path, InternalUpstreamPath = ''/mcp'', HealthPath = ''/up'',
      HealthProbeExpectation = ''200'', ResourceProfile = ''s'', PersistencePolicy = ''none'',
      AdapterRequirement = AdapterNone, SecretContract = [], IdentityContext = ModeUnset, Capabilities = []\<rparr>"

definition fx_put :: "string \<Rightarrow> string \<Rightarrow> catalog_op" where
  "fx_put sid path = CatalogCall
     \<lparr>cqMethod = PUT, cqPath = ''/v1/services/'' @ sid, cqAuthorization = ''Bearer t0k'',
      cqBody = Some (fx_service path), cqFault = None, cqLoadFault = None\<rparr>"

text \<open>
  Property C24: along any sequence of starts and of requests of the administrator, whatever the
  requests contain and whichever database operations fail, the stored services have unique identifiers, every
  one of them passes the validation, and the public paths of two enabled services never overlap, so
  that no service can take over requests of another.
\<close>

theorem catalog_paths_never_overlap:
  "catalog_inv (catalog_exec read tokenPath ops)"
  by (rule catalog_exec_inv)

text \<open>
  Every catalog the administrator can write is accepted by the edge, provided that no public path
  of an enabled service ends with white space.
\<close>

theorem written_catalog_is_accepted:
  assumes "list_all (\<lambda>r. crEnabled r \<longrightarrow> trim_space (crPath r) = crPath r) (catalog_exec read tokenPath ops)"
  shows "\<exists>s. newCatalogSnapshot (edge_catalog (catalog_exec read tokenPath ops)) now = Inr s"
  by (rule edge_accepts[OF catalog_exec_inv assms])

theorem written_catalog_is_accepted_witness:
  "map crPath (catalog_exec fx_token_file ''/run/admin'' [fx_put ''notes'' ''/notes'', fx_put ''memo'' ''/notes/''])
      = [''/notes'']
   \<and> (\<exists>s. newCatalogSnapshot (edge_catalog (catalog_exec fx_token_file ''/run/admin''
            [fx_put ''notes'' ''/notes'', fx_put ''memo'' ''/notes/''])) 7 = Inr s)"
proof
  show paths: "map crPath (catalog_exec fx_token_file ''/run/admin''
      [fx_put ''notes'' ''/notes'', fx_put ''memo'' ''/notes/'']) = [''/notes'']"
    by code_simp
  have "list_all (\<lambda>r. crEnabled r \<longrightarrow> trim_space (crPath r) = crPath r) (catalog_exec fx_token_file ''/run/admin''
      [fx_put ''notes'' ''/notes'', fx_put ''memo'' ''/notes/''])"
    by code_simp
  then show "\<exists>s. newCatalogSnapshot (edge_catalog (catalog_exec fx_token_file ''/run/admin''
      [fx_put ''notes'' ''/notes'', fx_put ''memo'' ''/notes/''])) 7 = Inr s"
    by (rule written_catalog_is_accepted)
qed

text \<open>
  That proviso is needed.  The administrator's API accepts two services whose paths
  differ only in a no-break space at the end; the edge trims it, finds one path twice, and refuses the
  whole catalog, so that no later change of any service reaches it.
\<close>

theorem trailing_space_blocks_the_edge:
  "let t = catalog_exec fx_token_file ''/run/admin''
       [fx_put ''notes'' ''/notes'', fx_put ''memo'' (''/notes'' @ [CHR 0xC2, CHR 0xA0] @ ''/'')] in
   map crEnabled t = [True, True] \<and> \<not> is_ok (newCatalogSnapshot (edge_catalog t) now)"
proof -
  let ?t = "catalog_exec fx_token_file ''/run/admin''
       [fx_put ''notes'' ''/notes'', fx_put ''memo'' (''/notes'' @ [CHR 0xC2, CHR 0xA0] @ ''/'')]"
  have e: "map crEnabled ?t = [True, True]" by code_simp
  have p: "map PublicPath (map clean_entry (edge_catalog ?t)) = [''/notes'', ''/notes'']" by code_simp
  have "\<not> (\<exists>s. newCatalogSnapshot (edge_catalog ?t) now = Inr s)"
    unfolding newCatalogSnapshot_iff p by simp
  then show ?thesis using e by (simp add: Let_def is_ok_iff)
qed

section \<open>Grants and tenants\<close>

definition fx_builtin :: catalog_row where
  "fx_builtin = \<lparr>crEntry = (fx_service ''/notes'')\<lparr>ServiceID := ''notes''\<rparr>, crEnabled = True, crSource = ''builtin''\<rparr>"

definition fx_clock :: control_clock where
  "fx_clock = \<lparr>cnNow = ''2025-01-01 00:00:00'', cnTime = 9, cnFormat = (\<lambda>_. ''2025-01-01T00:00:00Z'')\<rparr>"

definition fx_subject :: "string \<Rightarrow> domain_subject" where
  "fx_subject sub =
     \<lparr>dsSub = sub, dsKey = ''u-'' @ sub, dsPreferredUsername = [], dsEmail = [], dsDisplayName = [],
      dsAccountBindingID = [], dsAccountBindingClaim = []\<rparr>"

definition fx_grant :: "string \<Rightarrow> service_grant" where
  "fx_grant sub = \<lparr>sgSubject = sub, sgService = ''notes'', sgGroup = ''mcp-notes'', sgGrantedAt = 0, sgSyncedAt = 0\<rparr>"

definition fx_parsers :: time_parsers where
  "fx_parsers = \<lparr>rfc3339 = (\<lambda>_. Some 9), sqlite_layout = (\<lambda>_. None)\<rparr>"

definition fx_draw :: "string \<Rightarrow> uuid" where
  "fx_draw k = replicate 15 0 @ [of_nat (length k)]"

definition fx_sync :: "string list \<Rightarrow> control_op" where
  "fx_sync subs = ControlGrant (GrantSync None fx_clock (map fx_subject subs) (map fx_grant subs))"

text \<open>Alice and Bob are granted the service and have tenants.\<close>

definition fx_two :: control_db where
  "fx_two = control_exec (\<lambda>s. s) (control_start [fx_builtin])
     [fx_sync [''alice'', ''bob''], ControlReconcile None fx_parsers fx_draw]"

text \<open>
  Property C8: the tables of the control plane stay consistent along any sequence of operations, whatever catalog the
  administrator wrote before and whichever operations fail.  The effective grants are exactly the pairs with a
  source, manual exactly if a source is manual; sources belong to stored subjects and services; tenants are unique
  by identifier, by subject and service, and by name, and belong to services of the catalog.
\<close>

theorem control_tables_consistent:
  "control_ok (control_exec key (control_start (catalog_exec read tokenPath cops)) ops)"
  by (rule control_exec_ok[OF control_ok_start[OF catalog_exec_inv]])

lemma edge_after_sync:
  assumes "SyncSubjectGrantSnapshot fault c db subjects grants = (db', Inr ())"
  shows "sql_Allowed None (edge_grants db') sub sid = Inr (service_enabled db sid
    \<and> ((sub, sid, manual) \<in> source_ids db
       \<or> (\<exists>g \<in> set grants. sgSubject g = sub \<and> sgService g = sid \<and> sub \<in> dsSub ` set subjects)))"
proof -
  have s: "sync_body c subjects grants db = Inr db'"
    using assms by (simp add: SyncSubjectGrantSnapshot_def with_tx_Inr)
  note r = sync_result[OF s]
  have "service_enabled db' sid = service_enabled db sid" using r by (simp add: service_enabled_def)
  then show ?thesis
    unfolding edge_agrees using granted_by_sources[of db' sub sid] r by auto
qed

text \<open>
  After a synchronisation with the identity provider, the edge grants a subject a service exactly if the
  service is enabled and the subject has a manual grant or is in the snapshot with that grant, whatever grants
  there were before.
\<close>

theorem sync_decides_edge_grants:
  assumes "SyncSubjectGrantSnapshot fault c db subjects grants = (db', Inr ())"
  shows "sql_Allowed None (edge_grants db') sub sid = Inr (service_enabled db sid
    \<and> ((sub, sid, manual) \<in> source_ids db
       \<or> (\<exists>g \<in> set grants. sgSubject g = sub \<and> sgService g = sid \<and> sub \<in> dsSub ` set subjects)))"
  by (rule edge_after_sync[OF assms])

theorem sync_decides_edge_grants_witness:
  "sql_Allowed None (edge_grants (fst (SyncSubjectGrantSnapshot None fx_clock fx_two [fx_subject ''alice'']
      [fx_grant ''alice'']))) ''alice'' ''notes'' = Inr True
   \<and> sql_Allowed None (edge_grants (fst (SyncSubjectGrantSnapshot None fx_clock fx_two [fx_subject ''alice'']
      [fx_grant ''alice'']))) ''bob'' ''notes'' = Inr False"
proof -
  let ?s = "SyncSubjectGrantSnapshot None fx_clock fx_two [fx_subject ''alice''] [fx_grant ''alice'']"
  have ok: "is_ok (snd ?s)" by code_simp
  have s: "?s = (fst ?s, Inr ())" using ok by (cases ?s) (auto simp: is_ok_iff)
  have e: "service_enabled fx_two ''notes''" by code_simp
  have n: "\<not> list_ex (\<lambda>r. source_id r = (''bob'', ''notes'', manual)) (cdSources fx_two)" by code_simp
  have m: "(''bob'', ''notes'', manual) \<notin> source_ids fx_two"
    using n unfolding source_ids_iff list_ex_iff by blast
  show ?thesis
    using sync_decides_edge_grants[OF s, of "''alice''" "''notes''"]
      sync_decides_edge_grants[OF s, of "''bob''" "''notes''"] e m
    by (simp add: fx_grant_def fx_subject_def)
qed

text \<open>
  Property C14: reconciling the desired states gives every subject and service exactly the tenant the grants
  ask for.  A granted enabled built-in service has a tenant, a new one if there was none, and an existing one enabled
  under the subject's key, degraded if that key changed, unless it was suspended or is being deleted; a tenant
  without a grant is marked deleted, unless its upstream is static.
\<close>

theorem reconcile_follows_grants:
  assumes "ReconcileDesiredTenants fault tp draw db = (db', Inr ())" and "control_ok db" and "colon \<notin> set sid"
  shows "tenant_at (cdTenants db') sub sid
    = reconciled draw (desired_for db sub sid) (tenant_at (cdTenants db) sub sid)"
proof -
  have "reconcile_body tp draw db = Inr db'" using assms(1) by (simp add: ReconcileDesiredTenants_def with_tx_Inr)
  from reconcile_result[OF this _ control_ok_plain[OF assms(2)] assms(3)] assms(2)
  show ?thesis by (simp add: control_ok_def)
qed

lemma fx_catalog_ok: "control_ok fx_two"
proof -
  have c: "list_all (\<lambda>r. service_id_ok (crID r)) [fx_builtin]" by code_simp
  have "control_ok (control_start [fx_builtin])"
    using c by (simp add: control_ok_def grants_inv_start)
      (simp add: control_start_def tenants_refer_def tenants_ok_def)
  then show ?thesis unfolding fx_two_def by (rule control_exec_ok)
qed

theorem reconcile_follows_grants_witness:
  "tenant_at (cdTenants (fst (ReconcileDesiredTenants None fx_parsers fx_draw fx_two))) ''alice'' ''notes''
   = reconciled fx_draw (desired_for fx_two ''alice'' ''notes'') (tenant_at (cdTenants fx_two) ''alice'' ''notes'')
   \<and> desired_for fx_two ''alice'' ''notes'' \<noteq> None"
proof -
  let ?s = "ReconcileDesiredTenants None fx_parsers fx_draw fx_two"
  have ok: "is_ok (snd ?s)" by code_simp
  have s: "?s = (fst ?s, Inr ())" using ok by (cases ?s) (auto simp: is_ok_iff)
  have "desired_for fx_two ''alice'' ''notes'' \<noteq> None" by code_simp
  then show ?thesis
    using reconcile_follows_grants[OF s fx_catalog_ok, of "''notes''" "''alice''"] by (simp add: colon_def)
qed

lemma ungranted_loses_access:
  assumes "SyncSubjectGrantSnapshot f1 c db subjects grants = (db1, Inr ())"
    and "ReconcileDesiredTenants f2 tp draw db1 = (db2, Inr ())"
    and "control_ok db" and "colon \<notin> set sid"
    and "sql_Allowed None (edge_grants db1) sub sid = Inr False"
    and "list_all (\<lambda>r. \<not> tenantRuntimeModeStatic (tnMetadata r)) (cdTenants db)"
  shows "sql_Allowed None (edge_grants db2) sub sid = Inr False
    \<and> \<not> is_ok (database_Resolve net cache (Inr (cdTenants db2)) sid sub)"
proof -
  have s: "sync_body c subjects grants db = Inr db1"
    using assms(1) by (simp add: SyncSubjectGrantSnapshot_def with_tx_Inr)
  note r1 = sync_result[OF s]
  have ok1: "control_ok db1"
    using control_ok_grants[OF assms(3)] r1 assms(3) by (simp add: control_ok_def grants_inv_def)
  have r: "reconcile_body tp draw db1 = Inr db2" using assms(2) by (simp add: ReconcileDesiredTenants_def with_tx_Inr)
  note r2 = reconcile_result[OF r _ control_ok_plain[OF ok1] assms(4), of sub]
  have ng: "(sub, sid) \<notin> set (map grant_key (cdGrants db1)) \<or> \<not> service_enabled db1 sid"
    using assms(5) unfolding edge_agrees granted_iff by simp
  have "builtin_enabled db1 sid \<Longrightarrow> service_enabled db1 sid"
    by (auto simp: builtin_enabled_def service_enabled_def list_ex_iff)
  then have "desired_for db1 sub sid = None" using ng by (auto simp: desired_for_def split: option.splits)
  then have at: "tenant_at (cdTenants db2) sub sid = map_option dropped (tenant_at (cdTenants db) sub sid)"
    using r2 ok1 r1 by (simp add: reconciled_def control_ok_def)
  have gone: "tnDesired x = DesiredDeleted" if x: "tenant_at (cdTenants db2) sub sid = Some x" for x
  proof -
    obtain y where y: "tenant_at (cdTenants db) sub sid = Some y" "x = dropped y" using x at by auto
    have "\<not> tenantRuntimeModeStatic (tnMetadata y)"
      using tenant_at_Some[OF y(1)] assms(6) by (simp add: list_all_iff)
    then show ?thesis using y(2) by (simp add: dropped_def)
  qed
  have "\<not> is_ok (database_Resolve net cache (Inr (cdTenants db2)) sid sub)"
  proof (cases "tenant_at (cdTenants db2) sub sid")
    case (Some x)
    then show ?thesis using gone[OF Some] by (simp add: database_Resolve_def q_GetTenantUpstream_def split: option.split)
  qed (simp add: database_Resolve_def q_GetTenantUpstream_def split: option.split)
  moreover have "edge_grants db2 = edge_grants db1"
  proof -
    have "tenants_ok (cdTenants db1)" using ok1 by (simp add: control_ok_def)
    then obtain t where "db2 = db1\<lparr>cdTenants := t\<rparr>" using r2 by blast
    then show ?thesis by (simp add: edge_grants_def)
  qed
  ultimately show ?thesis using assms(5) by simp
qed

text \<open>
  A subject that the identity provider no longer reports loses access at the edge with the next
  cycle of the control plane.  After the synchronisation and the reconciliation, the edge neither grants the
  service nor resolves an upstream for the subject, if there is no manual grant and the tenant is not static.
\<close>

theorem removed_subject_loses_access:
  assumes "SyncSubjectGrantSnapshot f1 c db subjects grants = (db1, Inr ())"
    and "ReconcileDesiredTenants f2 tp draw db1 = (db2, Inr ())"
    and "control_ok db" and "colon \<notin> set sid"
    and "sub \<notin> dsSub ` set subjects" and "(sub, sid, manual) \<notin> source_ids db"
    and "list_all (\<lambda>r. \<not> tenantRuntimeModeStatic (tnMetadata r)) (cdTenants db)"
  shows "sql_Allowed None (edge_grants db2) sub sid = Inr False
    \<and> \<not> is_ok (database_Resolve net cache (Inr (cdTenants db2)) sid sub)"
proof -
  have "sql_Allowed None (edge_grants db1) sub sid = Inr False"
    using edge_after_sync[OF assms(1), of sub sid] assms(5,6) by simp
  from ungranted_loses_access[OF assms(1-4) this assms(7)] show ?thesis .
qed

theorem removed_subject_loses_access_witness:
  "let db1 = fst (SyncSubjectGrantSnapshot None fx_clock fx_two [fx_subject ''alice''] [fx_grant ''alice'']);
       db2 = fst (ReconcileDesiredTenants None fx_parsers fx_draw db1) in
   map tnDesired (cdTenants fx_two) = [DesiredEnabled, DesiredEnabled]
   \<and> sql_Allowed None (edge_grants db2) ''bob'' ''notes'' = Inr False
   \<and> (\<forall>net cache. \<not> is_ok (database_Resolve net cache (Inr (cdTenants db2)) ''notes'' ''bob''))"
proof -
  let ?s = "SyncSubjectGrantSnapshot None fx_clock fx_two [fx_subject ''alice''] [fx_grant ''alice'']"
  let ?r = "ReconcileDesiredTenants None fx_parsers fx_draw (fst ?s)"
  have oks: "is_ok (snd ?s)" by code_simp
  have s: "?s = (fst ?s, Inr ())" using oks by (cases ?s) (auto simp: is_ok_iff)
  have okr: "is_ok (snd ?r)" by code_simp
  have r: "?r = (fst ?r, Inr ())" using okr by (cases ?r) (auto simp: is_ok_iff)
  have n: "\<not> list_ex (\<lambda>r. source_id r = (''bob'', ''notes'', manual)) (cdSources fx_two)" by code_simp
  have m: "(''bob'', ''notes'', manual) \<notin> source_ids fx_two"
    using n unfolding source_ids_iff list_ex_iff by blast
  have st: "list_all (\<lambda>r. \<not> tenantRuntimeModeStatic (tnMetadata r)) (cdTenants fx_two)" by code_simp
  have d: "map tnDesired (cdTenants fx_two) = [DesiredEnabled, DesiredEnabled]" by code_simp
  have "sql_Allowed None (edge_grants (fst ?r)) ''bob'' ''notes'' = Inr False
      \<and> \<not> is_ok (database_Resolve net cache (Inr (cdTenants (fst ?r))) ''notes'' ''bob'')" for net cache
    by (rule removed_subject_loses_access[OF s r fx_catalog_ok _ _ m st])
       (simp_all add: colon_def fx_subject_def)
  then show ?thesis using d by (simp add: Let_def)
qed

end
