(* ===== verification/Attestation.thy ===== *)
theory Attestation
  imports Tenants
begin

text \<open>
  The records of the runtime of tenants (\<^verbatim>\<open>internal/controlplane/store.go\<close>, \<^verbatim>\<open>platformdb/controlplane.sql.go\<close>):
  specifications, measurements, attestations and runs of the reconciler, with the constraints of their tables.
  \<^verbatim>\<open>json_ok\<close> is SQLite's \<^verbatim>\<open>json_valid\<close>; \<^verbatim>\<open>n1\<close>, \<^verbatim>\<open>n2\<close>, \<^verbatim>\<open>n3\<close> are the fresh identifiers of \<^verbatim>\<open>ids.New\<close>.
\<close>

section \<open>Records and rows\<close>

record runtime_spec =
  rsID :: uuid
  rsTenant :: uuid
  rsService :: string
  rsSubject :: string
  rsVersion :: string
  rsComposeHash :: string
  rsEnvHash :: string
  rsSecretHash :: string
  rsImageRefs :: string
  rsNetworkPolicy :: string
  rsIdentityHash :: string
  rsCreatedAt :: time

record runtime_measurement =
  rmID :: uuid
  rmTenant :: uuid
  rmResource :: string
  rmContainer :: string
  rmSource :: string
  rmImageRef :: string
  rmImageDigest :: string
  rmComposeHash :: string
  rmEnvHash :: string
  rmNetwork :: string
  rmPorts :: string
  rmVolumes :: string
  rmHealth :: string
  rmRawSummary :: string
  rmMeasuredAt :: time

record runtime_attestation =
  raID :: uuid
  raTenant :: uuid
  raSpec :: uuid
  raMeasurement :: uuid
  raPolicy :: string
  raVerdict :: string
  raReasons :: string
  raExpiresAt :: "time option"
  raCreatedAt :: time

record runtime_observation =
  roSpec :: runtime_spec
  roMeasurement :: runtime_measurement
  roAttestation :: runtime_attestation

record spec_row =
  wsID :: uuid
  wsTenant :: uuid
  wsService :: string
  wsSubject :: string
  wsVersion :: string
  wsComposeHash :: string
  wsEnvHash :: string
  wsSecretHash :: string
  wsImageRefs :: string
  wsNetworkPolicy :: string
  wsIdentityHash :: string
  wsCreatedAt :: string

record measurement_row =
  wmID :: uuid
  wmTenant :: uuid
  wmResource :: "string option"
  wmContainer :: "string option"
  wmSource :: string
  wmImageRef :: "string option"
  wmImageDigest :: "string option"
  wmComposeHash :: "string option"
  wmEnvHash :: "string option"
  wmNetwork :: string
  wmPorts :: string
  wmVolumes :: string
  wmHealth :: string
  wmRawSummary :: string
  wmMeasuredAt :: string

record attestation_row =
  waID :: uuid
  waTenant :: uuid
  waSpec :: "uuid option"
  waMeasurement :: "uuid option"
  waPolicy :: string
  waVerdict :: string
  waReasons :: string
  waExpiresAt :: "string option"
  waCreatedAt :: string

record run_row =
  wrID :: uuid
  wrTenant :: uuid
  wrDesired :: tenant_desired_state
  wrObserved :: "tenant_runtime_state option"
  wrAction :: string
  wrStatus :: string
  wrDetails :: string
  wrStartedAt :: string
  wrFinishedAt :: "string option"

text \<open>The tables of the runtime beside those of the control plane.\<close>

record runtime_db =
  rdControl :: control_db
  rdSpecs :: "spec_row list"
  rdMeasurements :: "measurement_row list"
  rdAttestations :: "attestation_row list"
  rdRuns :: "run_row list"

abbreviation rdTenants :: "runtime_db \<Rightarrow> tenant_table" where
  "rdTenants db \<equiv> cdTenants (rdControl db)"

definition on_tenants :: "(tenant_table \<Rightarrow> tenant_table) \<Rightarrow> runtime_db \<Rightarrow> runtime_db" where
  "on_tenants f db = db\<lparr>rdControl := (rdControl db)\<lparr>cdTenants := f (rdTenants db)\<rparr>\<rparr>"

section \<open>Queries\<close>

definition tenant_exists :: "runtime_db \<Rightarrow> uuid \<Rightarrow> bool" where
  "tenant_exists db tid = list_ex (\<lambda>r. tnID r = tid) (rdTenants db)"

definition q_InsertTenantRuntimeSpec :: "(string \<Rightarrow> bool) \<Rightarrow> runtime_db \<Rightarrow> spec_row \<Rightarrow> (db_error, runtime_db) result" where
  "q_InsertTenantRuntimeSpec json_ok db r =
     (if \<not> json_ok (wsImageRefs r) \<or> \<not> json_ok (wsNetworkPolicy r) then Inl CheckFailed
      else if list_ex (\<lambda>s. wsID s = wsID r) (rdSpecs db) then Inl UniqueFailed
      else if \<not> list_ex (\<lambda>t. tnID t = wsTenant r \<and> tenant_key (wsSubject r) (wsService r) t) (rdTenants db)
      then Inl ForeignKeyFailed
      else Inr (db\<lparr>rdSpecs := rdSpecs db @ [r]\<rparr>))"

definition measurement_sources :: "string list" where
  "measurement_sources = [''coolify_api'', ''docker_api'', ''http_probe'', ''static_upstream'', ''control_plane'']"

definition q_InsertTenantRuntimeMeasurement :: "(string \<Rightarrow> bool) \<Rightarrow> runtime_db \<Rightarrow> measurement_row
    \<Rightarrow> (db_error, runtime_db) result" where
  "q_InsertTenantRuntimeMeasurement json_ok db r =
     (if wmSource r \<notin> set measurement_sources \<or> wmHealth r \<notin> {''healthy'', ''unhealthy'', ''unknown''}
         \<or> \<not> list_all json_ok [wmNetwork r, wmPorts r, wmVolumes r, wmRawSummary r]
      then Inl CheckFailed
      else if list_ex (\<lambda>m. wmID m = wmID r) (rdMeasurements db) then Inl UniqueFailed
      else if \<not> tenant_exists db (wmTenant r) then Inl ForeignKeyFailed
      else Inr (db\<lparr>rdMeasurements := rdMeasurements db @ [r]\<rparr>))"

text \<open>A reference that is present must name a row of the same tenant.\<close>

definition attestation_refs_ok :: "runtime_db \<Rightarrow> attestation_row \<Rightarrow> bool" where
  "attestation_refs_ok db r =
     (tenant_exists db (waTenant r)
      \<and> (case waSpec r of None \<Rightarrow> True
         | Some i \<Rightarrow> list_ex (\<lambda>s. wsID s = i \<and> wsTenant s = waTenant r) (rdSpecs db))
      \<and> (case waMeasurement r of None \<Rightarrow> True
         | Some i \<Rightarrow> list_ex (\<lambda>m. wmID m = i \<and> wmTenant m = waTenant r) (rdMeasurements db)))"

definition verdicts :: "string list" where
  "verdicts = [''trusted'', ''warning'', ''untrusted'', ''unknown'']"

definition q_InsertTenantRuntimeAttestation :: "(string \<Rightarrow> bool) \<Rightarrow> runtime_db \<Rightarrow> attestation_row
    \<Rightarrow> (db_error, runtime_db) result" where
  "q_InsertTenantRuntimeAttestation json_ok db r =
     (if waVerdict r \<notin> set verdicts \<or> \<not> json_ok (waReasons r) then Inl CheckFailed
      else if list_ex (\<lambda>a. waID a = waID r) (rdAttestations db) then Inl UniqueFailed
      else if \<not> attestation_refs_ok db r then Inl ForeignKeyFailed
      else Inr (db\<lparr>rdAttestations := rdAttestations db @ [r]\<rparr>))"

definition q_MarkTenantRuntimeSpec :: "tenant_table \<Rightarrow> uuid \<Rightarrow> uuid \<Rightarrow> tenant_table" where
  "q_MarkTenantRuntimeSpec t specID tid = update_tenant tid (\<lambda>r. r\<lparr>tnSpecID := Some specID\<rparr>) t"

definition q_MarkTenantAttestationSummary :: "tenant_table \<Rightarrow> string \<Rightarrow> string option \<Rightarrow> uuid \<Rightarrow> uuid option \<Rightarrow> uuid
    \<Rightarrow> (db_error, tenant_table) result" where
  "q_MarkTenantAttestationSummary t verdict attestedAt attestationID specID tid =
     (if list_ex (\<lambda>r. tnID r = tid) t \<and> verdict \<notin> set verdicts then Inl CheckFailed
      else Inr (update_tenant tid (\<lambda>r. r\<lparr>tnAttestation := verdict, tnAttestedAt := attestedAt,
        tnAttestationID := Some attestationID,
        tnSpecID := (case specID of None \<Rightarrow> tnSpecID r | Some i \<Rightarrow> Some i)\<rparr>) t))"

definition q_GetTenantRuntimeSpec :: "runtime_db \<Rightarrow> uuid \<Rightarrow> (db_error, spec_row) result" where
  "q_GetTenantRuntimeSpec db i =
     (case find (\<lambda>s. wsID s = i) (rdSpecs db) of None \<Rightarrow> Inl NoRows | Some s \<Rightarrow> Inr s)"

definition q_GetTenantRuntimeMeasurement :: "runtime_db \<Rightarrow> uuid \<Rightarrow> (db_error, measurement_row) result" where
  "q_GetTenantRuntimeMeasurement db i =
     (case find (\<lambda>m. wmID m = i) (rdMeasurements db) of None \<Rightarrow> Inl NoRows | Some m \<Rightarrow> Inr m)"

definition q_GetTenantRuntimeAttestation :: "runtime_db \<Rightarrow> uuid \<Rightarrow> (db_error, attestation_row) result" where
  "q_GetTenantRuntimeAttestation db i =
     (case find (\<lambda>a. waID a = i) (rdAttestations db) of None \<Rightarrow> Inl NoRows | Some a \<Rightarrow> Inr a)"

text \<open>The lists are sorted by the text of the time, the latest first.\<close>

definition q_ListTenantRuntimeSpecsForTenant :: "runtime_db \<Rightarrow> uuid \<Rightarrow> spec_row list" where
  "q_ListTenantRuntimeSpecsForTenant db tid =
     rev (sort_key wsCreatedAt (rev (filter (\<lambda>s. wsTenant s = tid) (rdSpecs db))))"

definition q_ListTenantRuntimeMeasurementsForTenant :: "runtime_db \<Rightarrow> uuid \<Rightarrow> measurement_row list" where
  "q_ListTenantRuntimeMeasurementsForTenant db tid =
     rev (sort_key wmMeasuredAt (rev (filter (\<lambda>m. wmTenant m = tid) (rdMeasurements db))))"

text \<open>\<^verbatim>\<open>ORDER BY created_at DESC, rowid DESC LIMIT 1\<close>; rows are kept in the order of their insertion.\<close>

definition q_GetLatestTenantRuntimeAttestation :: "runtime_db \<Rightarrow> uuid \<Rightarrow> (db_error, attestation_row) result" where
  "q_GetLatestTenantRuntimeAttestation db tid =
     (case rev (sort_key waCreatedAt (filter (\<lambda>a. waTenant a = tid) (rdAttestations db))) of
        [] \<Rightarrow> Inl NoRows
      | a # _ \<Rightarrow> Inr a)"

text \<open>
  The tables of the runtime follow a tenant that is deleted (\<^verbatim>\<open>ON DELETE CASCADE\<close>).
\<close>

definition delete_tenant :: "uuid \<Rightarrow> runtime_db \<Rightarrow> runtime_db" where
  "delete_tenant tid db =
     (on_tenants (\<lambda>t. q_DeleteTenantInstance t tid) db)
       \<lparr>rdSpecs := filter (\<lambda>s. wsTenant s \<noteq> tid) (rdSpecs db),
        rdMeasurements := filter (\<lambda>m. wmTenant m \<noteq> tid) (rdMeasurements db),
        rdAttestations := filter (\<lambda>a. waTenant a \<noteq> tid) (rdAttestations db),
        rdRuns := filter (\<lambda>r. wrTenant r \<noteq> tid) (rdRuns db)\<rparr>"

definition q_InsertReconcileRun :: "(string \<Rightarrow> bool) \<Rightarrow> runtime_db \<Rightarrow> run_row \<Rightarrow> (db_error, runtime_db) result" where
  "q_InsertReconcileRun json_ok db r =
     (if \<not> json_ok (wrDetails r) then Inl CheckFailed
      else if list_ex (\<lambda>q. wrID q = wrID r) (rdRuns db) then Inl UniqueFailed
      else if \<not> tenant_exists db (wrTenant r) then Inl ForeignKeyFailed
      else Inr (db\<lparr>rdRuns := rdRuns db @ [r]\<rparr>))"

section \<open>Operations\<close>

definition jsonRawOrDefault :: "string \<Rightarrow> string \<Rightarrow> string" where
  "jsonRawOrDefault value d = (if trim_space value = [] then d else value)"

definition sqlNullTime :: "(time \<Rightarrow> string) \<Rightarrow> time \<Rightarrow> string option" where
  "sqlNullTime fmt t = (if t = 0 then None else Some (fmt t))"

definition sqlNullTimePtr :: "(time \<Rightarrow> string) \<Rightarrow> time option \<Rightarrow> string option" where
  "sqlNullTimePtr fmt v = (case v of None \<Rightarrow> None | Some t \<Rightarrow> sqlNullTime fmt t)"

definition nullableUUIDBytes :: "uuid \<Rightarrow> uuid option" where
  "nullableUUIDBytes u = (if IsZero u then None else Some u)"

definition or_fresh :: "uuid \<Rightarrow> uuid \<Rightarrow> uuid" where
  "or_fresh u new = (if IsZero u then new else u)"

definition or_now :: "control_clock \<Rightarrow> time \<Rightarrow> time" where
  "or_now c t = (if t = 0 then cnTime c else t)"

definition spec_params :: "(time \<Rightarrow> string) \<Rightarrow> runtime_spec \<Rightarrow> spec_row" where
  "spec_params fmt s =
     \<lparr>wsID = rsID s, wsTenant = rsTenant s, wsService = rsService s, wsSubject = rsSubject s,
      wsVersion = rsVersion s, wsComposeHash = rsComposeHash s, wsEnvHash = rsEnvHash s,
      wsSecretHash = rsSecretHash s, wsImageRefs = jsonRawOrDefault (rsImageRefs s) ''[]'',
      wsNetworkPolicy = jsonRawOrDefault (rsNetworkPolicy s) ''{}'', wsIdentityHash = rsIdentityHash s,
      wsCreatedAt = fmt (rsCreatedAt s)\<rparr>"

definition prepareTenantRuntimeSpec :: "control_clock \<Rightarrow> uuid \<Rightarrow> tenant_table \<Rightarrow> runtime_spec
    \<Rightarrow> (store_error, runtime_spec) result" where
  "prepareTenantRuntimeSpec c new t s =
     (case q_GetTenantInstance t (rsTenant s) of
        Inl e \<Rightarrow> Inl (if e = NoRows then ErrTenantInstanceNotFound else StoreDb e)
      | Inr r \<Rightarrow>
          if (rsService s \<noteq> [] \<and> rsService s \<noteq> tnService r) \<or> (rsSubject s \<noteq> [] \<and> rsSubject s \<noteq> tnSubject r)
          then Inl (StoreError ''tenant runtime spec identity mismatch'')
          else Inr (s\<lparr>rsID := or_fresh (rsID s) new, rsService := tnService r, rsSubject := tnSubject r,
            rsCreatedAt := or_now c (rsCreatedAt s)\<rparr>))"

definition prepareTenantRuntimeMeasurement :: "control_clock \<Rightarrow> uuid \<Rightarrow> runtime_measurement
    \<Rightarrow> runtime_measurement \<times> measurement_row" where
  "prepareTenantRuntimeMeasurement c new m =
     (let m' = m\<lparr>rmID := or_fresh (rmID m) new, rmMeasuredAt := or_now c (rmMeasuredAt m),
            rmHealth := (if rmHealth m = [] then ''unknown'' else rmHealth m)\<rparr> in
      (m', \<lparr>wmID = rmID m', wmTenant = rmTenant m', wmResource = nullif_empty (rmResource m'),
        wmContainer = nullif_empty (rmContainer m'), wmSource = rmSource m',
        wmImageRef = nullif_empty (rmImageRef m'), wmImageDigest = nullif_empty (rmImageDigest m'),
        wmComposeHash = nullif_empty (rmComposeHash m'), wmEnvHash = nullif_empty (rmEnvHash m'),
        wmNetwork = jsonRawOrDefault (rmNetwork m') ''{}'', wmPorts = jsonRawOrDefault (rmPorts m') ''{}'',
        wmVolumes = jsonRawOrDefault (rmVolumes m') ''{}'', wmHealth = rmHealth m',
        wmRawSummary = jsonRawOrDefault (rmRawSummary m') ''{}'', wmMeasuredAt = cnFormat c (rmMeasuredAt m')\<rparr>))"

definition prepareTenantRuntimeAttestation :: "control_clock \<Rightarrow> uuid \<Rightarrow> runtime_attestation
    \<Rightarrow> runtime_attestation \<times> attestation_row" where
  "prepareTenantRuntimeAttestation c new a =
     (let a' = a\<lparr>raID := or_fresh (raID a) new, raCreatedAt := or_now c (raCreatedAt a),
            raVerdict := (if raVerdict a = [] then ''unknown'' else raVerdict a)\<rparr> in
      (a', \<lparr>waID = raID a', waTenant = raTenant a', waSpec = nullableUUIDBytes (raSpec a'),
        waMeasurement = nullableUUIDBytes (raMeasurement a'), waPolicy = raPolicy a', waVerdict = raVerdict a',
        waReasons = jsonRawOrDefault (raReasons a') ''[]'', waExpiresAt = sqlNullTimePtr (cnFormat c) (raExpiresAt a'),
        waCreatedAt = cnFormat c (raCreatedAt a')\<rparr>))"

definition mark_summary :: "control_clock \<Rightarrow> runtime_attestation \<Rightarrow> uuid \<Rightarrow> uuid \<Rightarrow> runtime_db
    \<Rightarrow> (store_error, runtime_db) result" where
  "mark_summary c a specID tid db =
     bind_result (lift_db (q_MarkTenantAttestationSummary (rdTenants db) (raVerdict a)
         (sqlNullTime (cnFormat c) (raCreatedAt a)) (raID a) (nullableUUIDBytes specID) tid)) (\<lambda>t.
       Inr (on_tenants (\<lambda>_. t) db))"

definition record_spec_body :: "(string \<Rightarrow> bool) \<Rightarrow> control_clock \<Rightarrow> uuid \<Rightarrow> runtime_spec \<Rightarrow> runtime_db
    \<Rightarrow> (store_error, runtime_db) result" where
  "record_spec_body json_ok c new s db =
     bind_result (prepareTenantRuntimeSpec c new (rdTenants db) s) (\<lambda>s'.
     bind_result (lift_db (q_InsertTenantRuntimeSpec json_ok db (spec_params (cnFormat c) s'))) (\<lambda>db1.
       Inr (on_tenants (\<lambda>t. q_MarkTenantRuntimeSpec t (rsID s') (rsTenant s')) db1)))"

definition RecordTenantRuntimeSpec :: "db_error option \<Rightarrow> (string \<Rightarrow> bool) \<Rightarrow> control_clock \<Rightarrow> uuid \<Rightarrow> runtime_db
    \<Rightarrow> runtime_spec \<Rightarrow> runtime_db \<times> (store_error, uuid) result" where
  "RecordTenantRuntimeSpec fault json_ok c new db s =
     (case with_tx fault db (record_spec_body json_ok c new s) of
        (db', Inl e) \<Rightarrow> (db', Inl e)
      | (db', Inr _) \<Rightarrow> (db', Inr (or_fresh (rsID s) new)))"

definition RecordTenantRuntimeMeasurement :: "db_error option \<Rightarrow> (string \<Rightarrow> bool) \<Rightarrow> control_clock \<Rightarrow> uuid
    \<Rightarrow> runtime_db \<Rightarrow> runtime_measurement \<Rightarrow> runtime_db \<times> (store_error, uuid) result" where
  "RecordTenantRuntimeMeasurement fault json_ok c new db m =
     (case prepareTenantRuntimeMeasurement c new m of (m', row) \<Rightarrow>
       case fault of
         Some e \<Rightarrow> (db, Inl (StoreDb e))
       | None \<Rightarrow>
         (case q_InsertTenantRuntimeMeasurement json_ok db row of
            Inl e \<Rightarrow> (db, Inl (StoreDb e))
          | Inr db' \<Rightarrow> (db', Inr (rmID m'))))"

definition record_attestation_body :: "(string \<Rightarrow> bool) \<Rightarrow> control_clock \<Rightarrow> uuid \<Rightarrow> runtime_attestation \<Rightarrow> runtime_db
    \<Rightarrow> (store_error, runtime_db) result" where
  "record_attestation_body json_ok c new a db =
     (case prepareTenantRuntimeAttestation c new a of (a', row) \<Rightarrow>
       bind_result (lift_db (q_InsertTenantRuntimeAttestation json_ok db row)) (\<lambda>db1.
         mark_summary c a' (raSpec a') (raTenant a') db1))"

definition RecordTenantRuntimeAttestation :: "db_error option \<Rightarrow> (string \<Rightarrow> bool) \<Rightarrow> control_clock \<Rightarrow> uuid
    \<Rightarrow> runtime_db \<Rightarrow> runtime_attestation \<Rightarrow> runtime_db \<times> (store_error, uuid) result" where
  "RecordTenantRuntimeAttestation fault json_ok c new db a =
     (case with_tx fault db (record_attestation_body json_ok c new a) of
        (db', Inl e) \<Rightarrow> (db', Inl e)
      | (db', Inr _) \<Rightarrow> (db', Inr (or_fresh (raID a) new)))"

text \<open>An observation is recorded in one transaction: specification, measurement, attestation, summary.\<close>

definition observation_body :: "(string \<Rightarrow> bool) \<Rightarrow> control_clock \<Rightarrow> uuid \<Rightarrow> uuid \<Rightarrow> uuid \<Rightarrow> runtime_observation
    \<Rightarrow> runtime_db \<Rightarrow> (store_error, runtime_db) result" where
  "observation_body json_ok c n1 n2 n3 ob db =
     bind_result (prepareTenantRuntimeSpec c n1 (rdTenants db) (roSpec ob)) (\<lambda>s.
     bind_result (lift_db (q_InsertTenantRuntimeSpec json_ok db (spec_params (cnFormat c) s))) (\<lambda>db1.
       (case prepareTenantRuntimeMeasurement c n2
           ((roMeasurement ob)\<lparr>rmTenant := or_fresh (rmTenant (roMeasurement ob)) (rsTenant s)\<rparr>) of (m, mrow) \<Rightarrow>
         bind_result (lift_db (q_InsertTenantRuntimeMeasurement json_ok db1 mrow)) (\<lambda>db2.
           (case prepareTenantRuntimeAttestation c n3
               ((roAttestation ob)\<lparr>raTenant := or_fresh (raTenant (roAttestation ob)) (rsTenant s),
                  raSpec := rsID s, raMeasurement := rmID m\<rparr>) of (a, arow) \<Rightarrow>
             bind_result (lift_db (q_InsertTenantRuntimeAttestation json_ok db2 arow)) (\<lambda>db3.
               mark_summary c a (rsID s) (rsTenant s) db3))))))"

definition RecordTenantRuntimeObservation :: "db_error option \<Rightarrow> (string \<Rightarrow> bool) \<Rightarrow> control_clock \<Rightarrow> uuid \<Rightarrow> uuid
    \<Rightarrow> uuid \<Rightarrow> runtime_db \<Rightarrow> runtime_observation \<Rightarrow> runtime_db \<times> (store_error, unit) result" where
  "RecordTenantRuntimeObservation fault json_ok c n1 n2 n3 db ob =
     with_tx fault db (observation_body json_ok c n1 n2 n3 ob)"

text \<open>Reading back: the texts of the times are decoded.\<close>

definition convertTenantRuntimeSpec :: "time_parsers \<Rightarrow> spec_row \<Rightarrow> (store_error, runtime_spec) result" where
  "convertTenantRuntimeSpec tp r =
     (case parseSQLiteTime tp (wsCreatedAt r) of
        None \<Rightarrow> Inl (StoreError ''parse runtime spec created_at'')
      | Some t \<Rightarrow> Inr \<lparr>rsID = wsID r, rsTenant = wsTenant r, rsService = wsService r, rsSubject = wsSubject r,
          rsVersion = wsVersion r, rsComposeHash = wsComposeHash r, rsEnvHash = wsEnvHash r,
          rsSecretHash = wsSecretHash r, rsImageRefs = wsImageRefs r, rsNetworkPolicy = wsNetworkPolicy r,
          rsIdentityHash = wsIdentityHash r, rsCreatedAt = t\<rparr>)"

definition convertTenantRuntimeMeasurement :: "time_parsers \<Rightarrow> measurement_row
    \<Rightarrow> (store_error, runtime_measurement) result" where
  "convertTenantRuntimeMeasurement tp r =
     (case parseSQLiteTime tp (wmMeasuredAt r) of
        None \<Rightarrow> Inl (StoreError ''parse runtime measurement measured_at'')
      | Some t \<Rightarrow> Inr \<lparr>rmID = wmID r, rmTenant = wmTenant r, rmResource = clamp_some (wmResource r) [],
          rmContainer = clamp_some (wmContainer r) [], rmSource = wmSource r,
          rmImageRef = clamp_some (wmImageRef r) [], rmImageDigest = clamp_some (wmImageDigest r) [],
          rmComposeHash = clamp_some (wmComposeHash r) [], rmEnvHash = clamp_some (wmEnvHash r) [],
          rmNetwork = wmNetwork r, rmPorts = wmPorts r, rmVolumes = wmVolumes r, rmHealth = wmHealth r,
          rmRawSummary = wmRawSummary r, rmMeasuredAt = t\<rparr>)"

text \<open>\<^verbatim>\<open>parseSQLiteNullTime\<close>: \<^verbatim>\<open>Some None\<close> is an absent time, \<^verbatim>\<open>None\<close> an error.\<close>

definition parseSQLiteNullTime :: "time_parsers \<Rightarrow> string option \<Rightarrow> time option option" where
  "parseSQLiteNullTime tp v =
     (case v of
        None \<Rightarrow> Some None
      | Some s \<Rightarrow> if s = [] then Some None else map_option Some (parseSQLiteTime tp s))"

definition convertTenantRuntimeAttestation :: "time_parsers \<Rightarrow> attestation_row
    \<Rightarrow> (store_error, runtime_attestation) result" where
  "convertTenantRuntimeAttestation tp r =
     (case parseSQLiteTime tp (waCreatedAt r) of
        None \<Rightarrow> Inl (StoreError ''parse runtime attestation created_at'')
      | Some t \<Rightarrow>
         (case parseSQLiteNullTime tp (waExpiresAt r) of
            None \<Rightarrow> Inl (StoreError ''parse runtime attestation expires_at'')
          | Some e \<Rightarrow> Inr \<lparr>raID = waID r, raTenant = waTenant r, raSpec = clamp_some (waSpec r) zero_uuid,
              raMeasurement = clamp_some (waMeasurement r) zero_uuid, raPolicy = waPolicy r,
              raVerdict = waVerdict r, raReasons = waReasons r, raExpiresAt = e, raCreatedAt = t\<rparr>))"

fun collect_results :: "('a \<Rightarrow> ('e, 'b) result) \<Rightarrow> 'a list \<Rightarrow> ('e, 'b list) result" where
  "collect_results f [] = Inr []"
| "collect_results f (x # xs) =
     bind_result (f x) (\<lambda>y. bind_result (collect_results f xs) (\<lambda>ys. Inr (y # ys)))"

definition faulty :: "db_error option \<Rightarrow> (db_error, 'a) result \<Rightarrow> (store_error, 'a) result" where
  "faulty fault r = (case fault of Some e \<Rightarrow> Inl (StoreDb e) | None \<Rightarrow> lift_db r)"

definition GetTenantRuntimeSpec :: "db_error option \<Rightarrow> time_parsers \<Rightarrow> runtime_db \<Rightarrow> uuid
    \<Rightarrow> (store_error, runtime_spec) result" where
  "GetTenantRuntimeSpec fault tp db i =
     bind_result (faulty fault (q_GetTenantRuntimeSpec db i)) (convertTenantRuntimeSpec tp)"

definition ListTenantRuntimeSpecsForTenant :: "db_error option \<Rightarrow> time_parsers \<Rightarrow> runtime_db \<Rightarrow> uuid
    \<Rightarrow> (store_error, runtime_spec list) result" where
  "ListTenantRuntimeSpecsForTenant fault tp db tid =
     bind_result (faulty fault (Inr (q_ListTenantRuntimeSpecsForTenant db tid)))
       (collect_results (convertTenantRuntimeSpec tp))"

definition GetTenantRuntimeMeasurement :: "db_error option \<Rightarrow> time_parsers \<Rightarrow> runtime_db \<Rightarrow> uuid
    \<Rightarrow> (store_error, runtime_measurement) result" where
  "GetTenantRuntimeMeasurement fault tp db i =
     bind_result (faulty fault (q_GetTenantRuntimeMeasurement db i)) (convertTenantRuntimeMeasurement tp)"

definition ListTenantRuntimeMeasurementsForTenant :: "db_error option \<Rightarrow> time_parsers \<Rightarrow> runtime_db \<Rightarrow> uuid
    \<Rightarrow> (store_error, runtime_measurement list) result" where
  "ListTenantRuntimeMeasurementsForTenant fault tp db tid =
     bind_result (faulty fault (Inr (q_ListTenantRuntimeMeasurementsForTenant db tid)))
       (collect_results (convertTenantRuntimeMeasurement tp))"

definition GetTenantRuntimeAttestation :: "db_error option \<Rightarrow> time_parsers \<Rightarrow> runtime_db \<Rightarrow> uuid
    \<Rightarrow> (store_error, runtime_attestation) result" where
  "GetTenantRuntimeAttestation fault tp db i =
     bind_result (faulty fault (q_GetTenantRuntimeAttestation db i)) (convertTenantRuntimeAttestation tp)"

definition GetLatestTenantRuntimeAttestation :: "db_error option \<Rightarrow> time_parsers \<Rightarrow> runtime_db \<Rightarrow> uuid
    \<Rightarrow> (store_error, runtime_attestation) result" where
  "GetLatestTenantRuntimeAttestation fault tp db tid =
     bind_result (faulty fault (q_GetLatestTenantRuntimeAttestation db tid)) (convertTenantRuntimeAttestation tp)"

section \<open>Consistency of the records\<close>

text \<open>
  What the summary of a tenant shows is the verdict of a recorded attestation of that tenant, and its specification is
  a recorded one of that tenant.
\<close>

definition summary_ok :: "runtime_db \<Rightarrow> tenant_row \<Rightarrow> bool" where
  "summary_ok db t =
     ((case tnAttestationID t of None \<Rightarrow> True
       | Some i \<Rightarrow> list_ex (\<lambda>a. waID a = i \<and> waTenant a = tnID t \<and> waVerdict a = tnAttestation t) (rdAttestations db))
      \<and> (case tnSpecID t of None \<Rightarrow> True
         | Some i \<Rightarrow> list_ex (\<lambda>s. wsID s = i \<and> wsTenant s = tnID t) (rdSpecs db)))"

definition spec_refs_ok :: "runtime_db \<Rightarrow> spec_row \<Rightarrow> bool" where
  "spec_refs_ok db s =
     list_ex (\<lambda>t. tnID t = wsTenant s \<and> tenant_key (wsSubject s) (wsService s) t) (rdTenants db)"

definition runtime_refs :: "runtime_db \<Rightarrow> bool" where
  "runtime_refs db =
     (distinct (map wsID (rdSpecs db)) \<and> distinct (map wmID (rdMeasurements db))
      \<and> distinct (map waID (rdAttestations db)) \<and> distinct (map wrID (rdRuns db))
      \<and> list_all (spec_refs_ok db) (rdSpecs db)
      \<and> list_all (\<lambda>m. tenant_exists db (wmTenant m)) (rdMeasurements db)
      \<and> list_all (attestation_refs_ok db) (rdAttestations db)
      \<and> list_all (\<lambda>r. tenant_exists db (wrTenant r)) (rdRuns db)
      \<and> list_all (summary_ok db) (rdTenants db))"

text \<open>The references only look at the identifiers and only ever profit from more rows.\<close>

definition extends :: "runtime_db \<Rightarrow> runtime_db \<Rightarrow> bool" where
  "extends db db' =
     (map (\<lambda>t. (tnID t, tnSubject t, tnService t)) (rdTenants db')
        = map (\<lambda>t. (tnID t, tnSubject t, tnService t)) (rdTenants db)
      \<and> prefix (rdSpecs db) (rdSpecs db') \<and> prefix (rdMeasurements db) (rdMeasurements db')
      \<and> prefix (rdAttestations db) (rdAttestations db'))"

lemma tenant_exists_ids:
  "map (\<lambda>t. (tnID t, tnSubject t, tnService t)) (rdTenants db')
     = map (\<lambda>t. (tnID t, tnSubject t, tnService t)) (rdTenants db)
   \<Longrightarrow> tenant_exists db' i = tenant_exists db i"
proof -
  assume a: "map (\<lambda>t. (tnID t, tnSubject t, tnService t)) (rdTenants db')
     = map (\<lambda>t. (tnID t, tnSubject t, tnService t)) (rdTenants db)"
  have "map tnID (rdTenants db') = map tnID (rdTenants db)"
    using arg_cong[OF a, of "map fst"] by (simp add: comp_def)
  moreover have "tenant_exists d i \<longleftrightarrow> i \<in> set (map tnID (rdTenants d))" for d
    by (auto simp: tenant_exists_def list_ex_iff)
  ultimately show ?thesis by (simp only:)
qed

lemma spec_refs_keys:
  "spec_refs_ok db s \<longleftrightarrow> (wsTenant s, wsSubject s, wsService s) \<in> set (map (\<lambda>t. (tnID t, tnSubject t, tnService t)) (rdTenants db))"
  by (force simp: spec_refs_ok_def list_ex_iff tenant_key_def)

lemma list_ex_prefix: "prefix xs ys \<Longrightarrow> list_ex P xs \<Longrightarrow> list_ex P ys"
  by (auto simp: prefix_def)

lemma extends_refs:
  assumes "extends db db'"
  shows "spec_refs_ok db' s = spec_refs_ok db s" "tenant_exists db' i = tenant_exists db i"
    "attestation_refs_ok db a \<Longrightarrow> attestation_refs_ok db' a" "summary_ok db t \<Longrightarrow> summary_ok db' t"
proof -
  have e: "map (\<lambda>t. (tnID t, tnSubject t, tnService t)) (rdTenants db')
        = map (\<lambda>t. (tnID t, tnSubject t, tnService t)) (rdTenants db)"
    and p: "prefix (rdSpecs db) (rdSpecs db')" "prefix (rdMeasurements db) (rdMeasurements db')"
      "prefix (rdAttestations db) (rdAttestations db')"
    using assms by (simp_all add: extends_def)
  show "spec_refs_ok db' s = spec_refs_ok db s" unfolding spec_refs_keys e ..
  show t: "tenant_exists db' i = tenant_exists db i" for i by (rule tenant_exists_ids[OF e])
  show "attestation_refs_ok db a \<Longrightarrow> attestation_refs_ok db' a"
    using list_ex_prefix[OF p(1)] list_ex_prefix[OF p(2)]
    by (auto simp: attestation_refs_ok_def t split: option.splits)
  show "summary_ok db t \<Longrightarrow> summary_ok db' t"
    using list_ex_prefix[OF p(1)] list_ex_prefix[OF p(3)]
    by (auto simp: summary_ok_def split: option.splits)
qed

text \<open>One step of any operation: the old rows stay, new rows are referenced properly, and so are the new summaries.\<close>

lemma runtime_refs_step:
  assumes "runtime_refs db" "extends db db'"
    and "distinct (map wsID (rdSpecs db'))" "distinct (map wmID (rdMeasurements db'))"
      "distinct (map waID (rdAttestations db'))" "rdRuns db' = rdRuns db"
    and "\<And>s. s \<in> set (rdSpecs db') \<Longrightarrow> s \<notin> set (rdSpecs db) \<Longrightarrow> spec_refs_ok db s"
    and "\<And>m. m \<in> set (rdMeasurements db') \<Longrightarrow> m \<notin> set (rdMeasurements db) \<Longrightarrow> tenant_exists db (wmTenant m)"
    and "\<And>a. a \<in> set (rdAttestations db') \<Longrightarrow> a \<notin> set (rdAttestations db) \<Longrightarrow> attestation_refs_ok db' a"
    and "\<And>t. t \<in> set (rdTenants db') \<Longrightarrow> t \<notin> set (rdTenants db) \<Longrightarrow> summary_ok db' t"
  shows "runtime_refs db'"
proof -
  note x = extends_refs[OF assms(2)]
  have old: "a \<in> set (rdAttestations db) \<Longrightarrow> attestation_refs_ok db a"
    "t \<in> set (rdTenants db) \<Longrightarrow> summary_ok db t" for a t
    using assms(1) by (simp_all add: runtime_refs_def list_all_iff)
  have "\<forall>s \<in> set (rdSpecs db'). spec_refs_ok db' s"
    using assms(1,7) x(1) by (auto simp: runtime_refs_def list_all_iff)
  moreover have "\<forall>m \<in> set (rdMeasurements db'). tenant_exists db' (wmTenant m)"
    using assms(1,8) x(2) by (auto simp: runtime_refs_def list_all_iff)
  moreover have "\<forall>a \<in> set (rdAttestations db'). attestation_refs_ok db' a"
    using old(1) x(3) assms(9) by blast
  moreover have "\<forall>t \<in> set (rdTenants db'). summary_ok db' t"
    using old(2) x(4) assms(10) by blast
  moreover have "\<forall>r \<in> set (rdRuns db'). tenant_exists db' (wrTenant r)"
    using assms(1,6) x(2) by (auto simp: runtime_refs_def list_all_iff)
  ultimately show ?thesis using assms(1,3-6) by (simp add: runtime_refs_def list_all_iff)
qed

lemma on_tenants_simps [simp]:
  "rdControl (on_tenants f db) = (rdControl db)\<lparr>cdTenants := f (rdTenants db)\<rparr>"
  "rdSpecs (on_tenants f db) = rdSpecs db" "rdMeasurements (on_tenants f db) = rdMeasurements db"
  "rdAttestations (on_tenants f db) = rdAttestations db" "rdRuns (on_tenants f db) = rdRuns db"
  by (simp_all add: on_tenants_def)

definition keeps_row :: "(tenant_row \<Rightarrow> tenant_row) \<Rightarrow> bool" where
  "keeps_row f = (\<forall>r. tnID (f r) = tnID r \<and> tnSubject (f r) = tnSubject r \<and> tnService (f r) = tnService r
     \<and> tnKey (f r) = tnKey r \<and> tnName (f r) = tnName r \<and> tnDNS (f r) = tnDNS r \<and> tnDesired (f r) = tnDesired r
     \<and> tnMetadata (f r) = tnMetadata r)"

lemma keeps_row_key: "keeps_row f \<Longrightarrow> keeps_key f"
  by (simp add: keeps_row_def keeps_key_def)

lemma update_keys:
  "keeps_row f \<Longrightarrow> map (\<lambda>t. (tnID t, tnSubject t, tnService t)) (update_tenant tid f ts)
     = map (\<lambda>t. (tnID t, tnSubject t, tnService t)) ts"
  by (auto simp: update_tenant_def keeps_row_def)

lemma update_runtime_refs:
  assumes "runtime_refs db" "keeps_row f"
    and "\<And>r. tnAttestation (f r) = tnAttestation r \<and> tnAttestationID (f r) = tnAttestationID r \<and> tnSpecID (f r) = tnSpecID r"
  shows "runtime_refs (on_tenants (update_tenant tid f) db)"
proof -
  let ?db = "on_tenants (update_tenant tid f) db"
  have e: "extends db ?db" using update_keys[OF assms(2)] by (simp add: extends_def)
  have s: "summary_ok db t" if "t \<in> set (rdTenants db)" for t
    using assms(1) that by (simp add: runtime_refs_def list_all_iff)
  have "summary_ok db (f t) = summary_ok db t" for t
    using assms(2,3) by (simp add: summary_ok_def keeps_row_def split: option.split)
  then have "summary_ok ?db t" if "t \<in> set (rdTenants ?db)" for t
    using that s extends_refs(4)[OF e] by (auto simp: update_tenant_def split: if_splits)
  then show ?thesis using assms(1) by (intro runtime_refs_step[OF assms(1) e]) (simp_all add: runtime_refs_def)
qed

lemma insert_spec_result:
  "q_InsertTenantRuntimeSpec json_ok db r = Inr db' \<longleftrightarrow>
     db' = db\<lparr>rdSpecs := rdSpecs db @ [r]\<rparr> \<and> json_ok (wsImageRefs r) \<and> json_ok (wsNetworkPolicy r)
     \<and> (\<forall>s \<in> set (rdSpecs db). wsID s \<noteq> wsID r) \<and> spec_refs_ok db r"
  by (auto simp: q_InsertTenantRuntimeSpec_def spec_refs_ok_def list_ex_iff)

lemma insert_measurement_result:
  "q_InsertTenantRuntimeMeasurement json_ok db r = Inr db' \<Longrightarrow>
     db' = db\<lparr>rdMeasurements := rdMeasurements db @ [r]\<rparr> \<and> wmID r \<notin> wmID ` set (rdMeasurements db)
     \<and> tenant_exists db (wmTenant r)"
  by (auto simp: q_InsertTenantRuntimeMeasurement_def list_ex_iff split: if_splits)

lemma insert_attestation_result:
  "q_InsertTenantRuntimeAttestation json_ok db r = Inr db' \<Longrightarrow>
     db' = db\<lparr>rdAttestations := rdAttestations db @ [r]\<rparr> \<and> waID r \<notin> waID ` set (rdAttestations db)
     \<and> attestation_refs_ok db r"
  by (auto simp: q_InsertTenantRuntimeAttestation_def list_ex_iff split: if_splits)

lemma tenants_same [simp]:
  "extends db db" "summary_ok (db\<lparr>rdMeasurements := m\<rparr>) t = summary_ok db t"
  by (simp_all add: extends_def summary_ok_def split: option.split)

lemma insert_spec_refs:
  assumes "q_InsertTenantRuntimeSpec json_ok db r = Inr db'" "runtime_refs db"
  shows "runtime_refs db'"
proof (rule runtime_refs_step[OF assms(2)])
  note r = assms(1)[unfolded insert_spec_result]
  show "extends db db'" using r by (simp add: extends_def)
  show "spec_refs_ok db s" if "s \<in> set (rdSpecs db')" "s \<notin> set (rdSpecs db)" for s using r that by auto
qed (use assms(1)[unfolded insert_spec_result] assms(2) in \<open>auto simp: runtime_refs_def\<close>)

lemma insert_measurement_refs:
  assumes "q_InsertTenantRuntimeMeasurement json_ok db r = Inr db'" "runtime_refs db"
  shows "runtime_refs db'"
proof (rule runtime_refs_step[OF assms(2)])
  note r = insert_measurement_result[OF assms(1)]
  show "extends db db'" using r by (simp add: extends_def)
  show "tenant_exists db (wmTenant m)" if "m \<in> set (rdMeasurements db')" "m \<notin> set (rdMeasurements db)" for m
    using r that by auto
qed (use insert_measurement_result[OF assms(1)] assms(2) in \<open>auto simp: runtime_refs_def\<close>)

lemma insert_attestation_refs:
  assumes "q_InsertTenantRuntimeAttestation json_ok db r = Inr db'" "runtime_refs db"
  shows "runtime_refs db'"
proof (rule runtime_refs_step[OF assms(2)])
  note r = insert_attestation_result[OF assms(1)]
  show e: "extends db db'" using r by (simp add: extends_def)
  show "attestation_refs_ok db' a" if "a \<in> set (rdAttestations db')" "a \<notin> set (rdAttestations db)" for a
    using r that extends_refs(3)[OF e] by auto
qed (use insert_attestation_result[OF assms(1)] assms(2) in \<open>auto simp: runtime_refs_def\<close>)

section \<open>Changes of one row\<close>

text \<open>
  What the runtime may do to the database on behalf of a tenant: change columns of its row other than identity and
  desired state, and record observations.  If \<^verbatim>\<open>q\<close>, the change does not make the row ready.
\<close>

definition row_frame :: "bool \<Rightarrow> uuid \<Rightarrow> runtime_db \<Rightarrow> runtime_db \<Rightarrow> bool" where
  "row_frame q tid db db' =
     ((\<exists>f. keeps_row f \<and> (q \<longrightarrow> (\<forall>r. tnRuntime (f r) = RuntimeReady \<longrightarrow> tnRuntime r = RuntimeReady))
        \<and> rdControl db' = (rdControl db)\<lparr>cdTenants := update_tenant tid f (rdTenants db)\<rparr>)
      \<and> rdRuns db' = rdRuns db \<and> (runtime_refs db \<longrightarrow> runtime_refs db'))"

lemma update_tenant_comp:
  assumes "keeps_row f"
  shows "update_tenant tid g (update_tenant tid f ts) = update_tenant tid (g \<circ> f) ts"
  using assms by (simp add: update_tenant_def keeps_row_def)

lemma row_frame_refl [simp]: "row_frame q tid db db"
proof -
  have "update_tenant tid (\<lambda>r. r) ts = ts" for ts by (simp add: update_tenant_def)
  then show ?thesis unfolding row_frame_def by (intro conjI exI[of _ "\<lambda>r. r"]) (simp_all add: keeps_row_def)
qed

lemma row_frame_runs: "row_frame q tid db db' \<Longrightarrow> rdRuns db' = rdRuns db"
  unfolding row_frame_def by (elim conjE)

lemma row_frame_refs: "row_frame q tid db db' \<Longrightarrow> runtime_refs db \<Longrightarrow> runtime_refs db'"
  unfolding row_frame_def by (elim conjE impE)

lemma row_frame_trans:
  assumes "row_frame q tid db db1" "row_frame q tid db1 db2"
  shows "row_frame q tid db db2"
proof -
  obtain f where f: "keeps_row f" "q \<longrightarrow> (\<forall>r. tnRuntime (f r) = RuntimeReady \<longrightarrow> tnRuntime r = RuntimeReady)"
    "rdControl db1 = (rdControl db)\<lparr>cdTenants := update_tenant tid f (rdTenants db)\<rparr>"
    using assms(1) by (auto simp: row_frame_def)
  obtain g where g: "keeps_row g" "q \<longrightarrow> (\<forall>r. tnRuntime (g r) = RuntimeReady \<longrightarrow> tnRuntime r = RuntimeReady)"
    "rdControl db2 = (rdControl db1)\<lparr>cdTenants := update_tenant tid g (rdTenants db1)\<rparr>"
    using assms(2) by (auto simp: row_frame_def)
  have "keeps_row (g \<circ> f)" using f(1) g(1) by (simp add: keeps_row_def)
  moreover have "rdControl db2 = (rdControl db)\<lparr>cdTenants := update_tenant tid (g \<circ> f) (rdTenants db)\<rparr>"
    using g(3) f(3) update_tenant_comp[OF f(1)] by simp
  moreover have "q \<longrightarrow> (\<forall>r. tnRuntime ((g \<circ> f) r) = RuntimeReady \<longrightarrow> tnRuntime r = RuntimeReady)"
    unfolding comp_def using f(2) g(2) by blast
  moreover have "rdRuns db2 = rdRuns db" "runtime_refs db \<longrightarrow> runtime_refs db2"
    using row_frame_runs[OF assms(1)] row_frame_runs[OF assms(2)] row_frame_refs[OF assms(1)] row_frame_refs[OF assms(2)]
    by simp_all
  ultimately show ?thesis unfolding row_frame_def by (intro conjI exI[of _ "g \<circ> f"])
qed

lemma row_frame_ready:
  assumes "row_frame True tid db db'" "x \<in> set (rdTenants db')" "tnID x = tid" "tnRuntime x = RuntimeReady"
  shows "\<exists>y \<in> set (rdTenants db). tnID y = tid \<and> tnRuntime y = RuntimeReady"
proof -
  obtain f where f: "keeps_row f" "\<And>r. tnRuntime (f r) = RuntimeReady \<Longrightarrow> tnRuntime r = RuntimeReady"
    "rdTenants db' = update_tenant tid f (rdTenants db)" using assms(1) by (auto simp: row_frame_def)
  obtain y where y: "y \<in> set (rdTenants db)" "x = (if tnID y = tid then f y else y)"
    using assms(2) unfolding f(3) update_tenant_def set_map by blast
  have "tnID y = tid" using y(2) assms(3) f(1) by (auto simp: keeps_row_def split: if_splits)
  then have "tnRuntime y = RuntimeReady" using y(2) assms(4) f(2)[of y] by simp
  then show ?thesis using y(1) \<open>tnID y = tid\<close> by blast
qed

lemma row_frame_weaken: "row_frame True tid db db' \<Longrightarrow> row_frame q tid db db'"
  unfolding row_frame_def by blast

lemma row_frame_update:
  assumes "keeps_row f" "q \<longrightarrow> (\<forall>r. tnRuntime (f r) = RuntimeReady \<longrightarrow> tnRuntime r = RuntimeReady)"
    "\<And>r. tnAttestation (f r) = tnAttestation r \<and> tnAttestationID (f r) = tnAttestationID r \<and> tnSpecID (f r) = tnSpecID r"
  shows "row_frame q tid db (on_tenants (update_tenant tid f) db)"
  unfolding row_frame_def
proof (intro conjI exI[of _ f])
  show "runtime_refs db \<longrightarrow> runtime_refs (on_tenants (update_tenant tid f) db)"
    using update_runtime_refs[OF _ assms(1,3)] by blast
qed (fact assms(1), fact assms(2), simp_all)

lemma row_frame_control:
  assumes "row_frame q tid db db'" "control_ok (rdControl db)"
  shows "control_ok (rdControl db')"
proof -
  obtain f where f: "keeps_row f" "rdControl db' = (rdControl db)\<lparr>cdTenants := update_tenant tid f (rdTenants db)\<rparr>"
    using assms(1) by (auto simp: row_frame_def)
  have ok: "tenants_ok (rdTenants db)" "list_all (\<lambda>r. tnService r \<in> set (map crID (cdCatalog (rdControl db)))) (rdTenants db)"
    using assms(2) by (simp_all add: control_ok_def tenants_refer_def)
  have name: "tnName (f r) = tnName r" for r using f(1) by (simp add: keeps_row_def)
  have "tenants_ok (update_tenant tid f (rdTenants db))" unfolding update_tenant_def
  proof (rule tenants_ok_update[OF ok(1) keeps_row_key[OF f(1)]])
    fix r q assume "r \<in> set (rdTenants db)" "tnID r = tid" "q \<in> set (rdTenants db)" "tnID q \<noteq> tid"
    then show "tnName q \<noteq> tnName (f r)" using same_name[OF ok(1)] name by auto
  qed
  then show ?thesis
    unfolding f(2) using control_ok_tenants[OF assms(2)] map_services[OF keeps_row_key[OF f(1)] ok(2)]
    by (simp add: update_tenant_def)
qed

subsection \<open>Recording\<close>

lemma mark_summary_step:
  assumes "mark_summary c a specID tid db = Inr db'"
    and "list_ex (\<lambda>r. waID r = raID a \<and> waTenant r = tid \<and> waVerdict r = raVerdict a) (rdAttestations db)"
    and "\<not> IsZero specID \<longrightarrow> list_ex (\<lambda>s. wsID s = specID \<and> wsTenant s = tid) (rdSpecs db)"
  shows "row_frame True tid db db'"
proof -
  let ?f = "\<lambda>r. r\<lparr>tnAttestation := raVerdict a, tnAttestedAt := sqlNullTime (cnFormat c) (raCreatedAt a),
        tnAttestationID := Some (raID a),
        tnSpecID := (case nullableUUIDBytes specID of None \<Rightarrow> tnSpecID r | Some i \<Rightarrow> Some i)\<rparr>"
  have db': "db' = on_tenants (update_tenant tid ?f) db"
    using assms(1) by (auto simp: mark_summary_def q_MarkTenantAttestationSummary_def lift_db_def on_tenants_def
        result_simps split: if_splits)
  have k: "keeps_row ?f" by (simp add: keeps_row_def)
  have "runtime_refs db'" if refs: "runtime_refs db"
  proof (rule runtime_refs_step[OF refs])
    show e: "extends db db'" unfolding db' using update_keys[OF k] by (simp add: extends_def)
    have old: "summary_ok db t" if "t \<in> set (rdTenants db)" for t
      using refs that by (simp add: runtime_refs_def list_all_iff)
    have new: "summary_ok db (?f t)" if "t \<in> set (rdTenants db)" "tnID t = tid" for t
      using old[OF that(1)] assms(2,3) that(2)
      by (auto simp: summary_ok_def nullableUUIDBytes_def split: option.splits)
    show "summary_ok db' t" if "t \<in> set (rdTenants db')" for t
      using that old new extends_refs(4)[OF e] unfolding db' by (auto simp: update_tenant_def split: if_splits)
  qed (use refs in \<open>simp_all add: db' runtime_refs_def\<close>)
  moreover have "rdControl db' = (rdControl db)\<lparr>cdTenants := update_tenant tid ?f (rdTenants db)\<rparr>" unfolding db' by simp
  moreover have "rdRuns db' = rdRuns db" unfolding db' by simp
  ultimately show ?thesis using k unfolding row_frame_def by (intro conjI exI[of _ ?f]) simp_all
qed

lemma row_frame_same:
  "rdControl db' = rdControl db \<Longrightarrow> rdRuns db' = rdRuns db \<Longrightarrow> (runtime_refs db \<Longrightarrow> runtime_refs db') \<Longrightarrow> row_frame True tid db db'"
  using row_frame_refl[of True tid db] unfolding row_frame_def by auto

lemma prepare_spec_result:
  assumes "prepareTenantRuntimeSpec c new t s = Inr s'"
  shows "rsTenant s' = rsTenant s \<and> rsID s' = or_fresh (rsID s) new"
  using assms by (auto simp: prepareTenantRuntimeSpec_def split: sum.splits if_splits)

text \<open>The records are kept consistent, and only the summary columns of one row change.\<close>

lemma observation_frame:
  assumes "observation_body json_ok c n1 n2 n3 ob db = Inr db'"
    and "rmTenant (roMeasurement ob) = rsTenant (roSpec ob)" "raTenant (roAttestation ob) = rsTenant (roSpec ob)"
    and "\<not> IsZero (rsTenant (roSpec ob))"
  shows "row_frame True (rsTenant (roSpec ob)) db db'"
proof -
  let ?tid = "rsTenant (roSpec ob)"
  let ?m = "\<lambda>s. prepareTenantRuntimeMeasurement c n2
      ((roMeasurement ob)\<lparr>rmTenant := or_fresh (rmTenant (roMeasurement ob)) (rsTenant s)\<rparr>)"
  let ?a = "\<lambda>s. prepareTenantRuntimeAttestation c n3
      ((roAttestation ob)\<lparr>raTenant := or_fresh (raTenant (roAttestation ob)) (rsTenant s), raSpec := rsID s,
        raMeasurement := rmID (fst (?m s))\<rparr>)"
  obtain s db1 db2 db3 where s: "prepareTenantRuntimeSpec c n1 (rdTenants db) (roSpec ob) = Inr s"
    and i1: "q_InsertTenantRuntimeSpec json_ok db (spec_params (cnFormat c) s) = Inr db1"
    and i2: "q_InsertTenantRuntimeMeasurement json_ok db1 (snd (?m s)) = Inr db2"
    and i3: "q_InsertTenantRuntimeAttestation json_ok db2 (snd (?a s)) = Inr db3"
    and fin: "mark_summary c (fst (?a s)) (rsID s) (rsTenant s) db3 = Inr db'"
    using assms(1) unfolding observation_body_def split_beta bind_result_Inr_iff lift_db_Inr by blast
  have st: "rsTenant s = ?tid" using prepare_spec_result[OF s] by simp
  note r1 = i1[unfolded insert_spec_result] and r2 = insert_measurement_result[OF i2] and r3 = insert_attestation_result[OF i3]
  have f1: "row_frame True ?tid db db1" using r1 insert_spec_refs[OF i1] by (intro row_frame_same) auto
  have f2: "row_frame True ?tid db1 db2" using r2 insert_measurement_refs[OF i2] by (intro row_frame_same) auto
  have f3: "row_frame True ?tid db2 db3" using r3 insert_attestation_refs[OF i3] by (intro row_frame_same) auto
  have arow: "waID (snd (?a s)) = raID (fst (?a s))" "waTenant (snd (?a s)) = ?tid"
    "waVerdict (snd (?a s)) = raVerdict (fst (?a s))"
    using assms(3,4) by (simp_all add: prepareTenantRuntimeAttestation_def Let_def or_fresh_def)
  have "list_ex (\<lambda>r. waID r = raID (fst (?a s)) \<and> waTenant r = ?tid \<and> waVerdict r = raVerdict (fst (?a s)))
      (rdAttestations db3)"
    using r3 arow by simp
  moreover have "list_ex (\<lambda>w. wsID w = rsID s \<and> wsTenant w = ?tid) (rdSpecs db3)"
    using r1 r2 r3 st by (simp add: spec_params_def)
  ultimately have "row_frame True ?tid db3 db'" using mark_summary_step[OF fin] st by simp
  then show ?thesis using f1 f2 f3 row_frame_trans by blast
qed

subsection \<open>Deletion and runs\<close>

lemma delete_tenant_simps [simp]:
  "rdControl (delete_tenant tid db) = (rdControl db)\<lparr>cdTenants := q_DeleteTenantInstance (rdTenants db) tid\<rparr>"
  by (simp add: delete_tenant_def)

lemma delete_tenant_refs:
  assumes "runtime_refs db"
  shows "runtime_refs (delete_tenant tid db)"
proof -
  let ?db = "delete_tenant tid db"
  have t: "tenant_exists ?db i" if "tenant_exists db i" "i \<noteq> tid" for i
    using that by (auto simp: tenant_exists_def list_ex_iff q_DeleteTenantInstance_def)
  have s: "spec_refs_ok ?db r" if "spec_refs_ok db r" "wsTenant r \<noteq> tid" for r
    using that by (auto simp: spec_refs_ok_def list_ex_iff q_DeleteTenantInstance_def)
  have a: "attestation_refs_ok ?db r" if "attestation_refs_ok db r" "waTenant r \<noteq> tid" for r
  proof -
    have "tenant_exists ?db (waTenant r)" using that t by (simp add: attestation_refs_ok_def)
    then show ?thesis using that
      by (auto simp: attestation_refs_ok_def list_ex_iff delete_tenant_def split: option.splits)
  qed
  have m: "summary_ok ?db r" if "summary_ok db r" "tnID r \<noteq> tid" for r
    using that by (auto simp: summary_ok_def list_ex_iff delete_tenant_def split: option.splits)
  have d: "distinct (map f (filter P xs))" if "distinct (map f xs)" for f :: "'a \<Rightarrow> uuid" and P xs
    using that by (simp add: distinct_map_filter)
  have rows: "set (rdSpecs ?db) = {r \<in> set (rdSpecs db). wsTenant r \<noteq> tid}"
    "set (rdMeasurements ?db) = {r \<in> set (rdMeasurements db). wmTenant r \<noteq> tid}"
    "set (rdAttestations ?db) = {r \<in> set (rdAttestations db). waTenant r \<noteq> tid}"
    "set (rdRuns ?db) = {r \<in> set (rdRuns db). wrTenant r \<noteq> tid}"
    "set (rdTenants ?db) = {r \<in> set (rdTenants db). tnID r \<noteq> tid}"
    by (auto simp: delete_tenant_def q_DeleteTenantInstance_def)
  have dist: "distinct (map wsID (rdSpecs ?db))" "distinct (map wmID (rdMeasurements ?db))"
    "distinct (map waID (rdAttestations ?db))" "distinct (map wrID (rdRuns ?db))"
    using assms by (simp_all add: runtime_refs_def delete_tenant_def distinct_map_filter)
  show ?thesis
    using assms dist t s a m unfolding runtime_refs_def list_all_iff rows by simp
qed

lemma delete_tenant_control:
  assumes "control_ok (rdControl db)"
  shows "control_ok (rdControl (delete_tenant tid db))"
proof -
  have "tenants_ok (q_DeleteTenantInstance (rdTenants db) tid)"
    using assms by (simp add: control_ok_def tenants_ok_def q_DeleteTenantInstance_def distinct_map_filter)
  moreover have "list_all (\<lambda>r. tnService r \<in> set (map crID (cdCatalog (rdControl db)))) (q_DeleteTenantInstance (rdTenants db) tid)"
    using assms by (auto simp: control_ok_def tenants_refer_def q_DeleteTenantInstance_def list_all_iff)
  ultimately show ?thesis using control_ok_tenants[OF assms] by simp
qed

lemma insert_run_result:
  assumes "q_InsertReconcileRun json_ok db r = Inr db'"
  shows "db' = db\<lparr>rdRuns := rdRuns db @ [r]\<rparr> \<and> (runtime_refs db \<longrightarrow> runtime_refs db')"
proof -
  have r: "db' = db\<lparr>rdRuns := rdRuns db @ [r]\<rparr>" "\<forall>q \<in> set (rdRuns db). wrID q \<noteq> wrID r" "tenant_exists db (wrTenant r)"
    using assms by (auto simp: q_InsertReconcileRun_def list_ex_iff split: if_splits)
  have same: "tenant_exists db' = tenant_exists db" "spec_refs_ok db' = spec_refs_ok db" "summary_ok db' = summary_ok db"
    unfolding r(1) by (auto simp: tenant_exists_def spec_refs_ok_def summary_ok_def fun_eq_iff split: option.splits)
  then have "attestation_refs_ok db' = attestation_refs_ok db"
    unfolding r(1) by (auto simp: attestation_refs_ok_def fun_eq_iff split: option.splits)
  then show ?thesis using r same by (auto simp: runtime_refs_def)
qed

end
