(* ===== verification/Coolify.thy ===== *)
theory Coolify
  imports Identity
begin

text \<open>
  Errors of HTTP calls (\<^verbatim>\<open>internal/controlplane/http_error.go\<close>), and the client of the Coolify API
  (\<^verbatim>\<open>coolify_client.go\<close>), which implements \<^verbatim>\<open>CoolifyProvider\<close> (\<^verbatim>\<open>providers.go\<close>).
\<close>

section \<open>Numbers as text\<close>

text \<open>
  \<^verbatim>\<open>itoa\<close> on a 64-bit int.  The digits are written from the end of a buffer of 20 bytes; \<^verbatim>\<open>room\<close> is the index, and
  \<^verbatim>\<open>None\<close> is the panic of an index below 0.  Negating the smallest integer gives itself.
\<close>

fun itoa_digits :: "nat \<Rightarrow> 64 word \<Rightarrow> string \<Rightarrow> string option" where
  "itoa_digits room v acc =
     (if \<not> 0 < sint v then Some acc
      else case room of
          0 \<Rightarrow> None
        | Suc room' \<Rightarrow> itoa_digits room' (word_of_int (sint v div 10)) (digit_char (nat (sint v mod 10)) # acc))"

declare itoa_digits.simps [simp del]

definition itoa :: "64 word \<Rightarrow> string option" where
  "itoa v =
     (if v = 0 then Some ''0''
      else if sint v < 0 then map_option ((@) ''-'') (itoa_digits 20 (- v) [])
      else itoa_digits 20 v [])"

lemma itoa_digits_decimal:
  assumes "n < 10 ^ room" "n < 2 ^ 63"
  shows "itoa_digits room (word_of_nat n) acc = Some ((if n = 0 then [] else decimal n) @ acc)"
  using assms
proof (induction room arbitrary: n acc)
  case 0
  then show ?case by (simp add: itoa_digits.simps)
next
  case (Suc room)
  have s: "sint (word_of_nat n :: 64 word) = int n"
    using Suc.prems(2) by (simp add: signed_of_nat take_bit_nat_eq_self signed_take_bit_int_eq_self)
  show ?case
  proof (cases "n = 0")
    case True
    then show ?thesis by (simp add: itoa_digits.simps)
  next
    case False
    have d: "word_of_int (int n div 10) = (word_of_nat (n div 10) :: 64 word)"
      by (metis of_int_of_nat_eq of_nat_numeral zdiv_int)
    have m: "nat (int n mod 10) = n mod 10" by (metis nat_int of_nat_numeral zmod_int)
    have small: "n div 10 < 10 ^ room" "n div 10 < 2 ^ 63" using Suc.prems by auto
    have "(if n div 10 = 0 then [] else decimal (n div 10)) @ [digit_char (n mod 10)] = decimal n"
      by (subst (2) decimal.simps) auto
    then show ?thesis
      using False Suc.IH[OF small] s d m by (subst itoa_digits.simps) simp
  qed
qed

text \<open>
  For every int but the smallest one \<^verbatim>\<open>itoa\<close> writes the usual text within the buffer; for the
  smallest one it writes the sign alone.
\<close>

lemma itoa_format:
  assumes "sint v \<noteq> - (2 ^ 63)"
  shows "itoa v = Some (format_int (sint v))"
proof -
  have lt: "sint v < 2 ^ 63" and ge: "- (2 ^ 63) \<le> sint v"
    using sint_lt[of v] sint_ge[of v] by simp_all
  consider "v = 0" | "0 < sint v" | "sint v < 0" "v \<noteq> 0" by (metis linorder_neqE_linordered_idom sint_0 signed_eq_0_iff)
  then show ?thesis
  proof cases
    case 1
    then show ?thesis by (simp add: itoa_def format_int_def decimal.simps digit_char_def char_of_def bit_Suc_0_iff)
  next
    case 2
    have v: "v = word_of_nat (nat (sint v))" using 2 by (simp add: word_of_nat_eq_iff)
    have "itoa_digits 20 v [] = Some (decimal (nat (sint v)))"
      by (subst v) (use itoa_digits_decimal[of "nat (sint v)" 20 "[]"] 2 lt in auto)
    then show ?thesis using 2 by (auto simp: itoa_def format_int_def)
  next
    case 3
    have m: "- v = word_of_nat (nat (- sint v))" using 3 by simp
    have "itoa_digits 20 (- v) [] = Some (decimal (nat (- sint v)))"
      by (subst m) (use itoa_digits_decimal[of "nat (- sint v)" 20 "[]"] 3 ge assms in auto)
    then show ?thesis using 3 by (simp add: itoa_def format_int_def)
  qed
qed

lemma itoa_smallest:
  assumes "sint v = - (2 ^ 63)"
  shows "itoa v = Some ''-''"
proof -
  have v: "v = word_of_int (- (2 ^ 63))" unfolding assms[symmetric] by simp
  have m: "- v = v" unfolding v by simp
  have "itoa_digits 20 v [] = Some []" by (subst itoa_digits.simps) (simp add: assms)
  then have "itoa_digits 20 (- v) [] = Some []" by (simp only: m)
  then show ?thesis using assms by (auto simp: itoa_def)
qed

lemma itoa_total: "itoa v \<noteq> None"
  using itoa_format[of v] itoa_smallest[of v] by (cases "sint v = - (2 ^ 63)") auto

section \<open>Errors\<close>

text \<open>\<^verbatim>\<open>Wrapped\<close> is \<^verbatim>\<open>fmt.Errorf\<close> with a verb \<^verbatim>\<open>%w\<close>, through which \<^verbatim>\<open>errors.As\<close> looks.\<close>

datatype call_error =
    HTTPStatusError string string "64 word" string
  | Wrapped string call_error
  | CallError string

text \<open>\<^verbatim>\<open>Error()\<close>; a panic of \<^verbatim>\<open>itoa\<close>, which does not happen, would be the absent text.\<close>

fun error_text :: "call_error \<Rightarrow> string" where
  "error_text (HTTPStatusError m url status body) =
     m @ '' '' @ url @ '' failed with status '' @ clamp_some (itoa status) []
       @ (if body = [] then [] else '': '' @ body)"
| "error_text (Wrapped text e) = text @ '': '' @ error_text e"
| "error_text (CallError s) = s"

fun IsHTTPStatus :: "call_error \<Rightarrow> 64 word \<Rightarrow> bool" where
  "IsHTTPStatus (HTTPStatusError _ _ status _) want = (status = want)"
| "IsHTTPStatus (Wrapped _ e) want = IsHTTPStatus e want"
| "IsHTTPStatus (CallError _) want = False"

text \<open>
  A response: its status, its body, and whether reading the body ends without an error.  \<^verbatim>\<open>readHTTPErrorBody\<close>
  keeps at most 2048 bytes.
\<close>

record http_response =
  hrStatus :: "64 word"
  hrBody :: string
  hrReadable :: bool

definition readHTTPErrorBody :: "http_response \<Rightarrow> string" where
  "readHTTPErrorBody r = (if hrReadable r then trim_space (take 2048 (hrBody r)) else [])"

definition newHTTPStatusError :: "string \<Rightarrow> string \<Rightarrow> http_response \<Rightarrow> call_error" where
  "newHTTPStatusError m url r = HTTPStatusError m url (hrStatus r) (readHTTPErrorBody r)"

definition status_2xx :: "64 word \<Rightarrow> bool" where
  "status_2xx s = (200 \<le> sint s \<and> sint s < 300)"

section \<open>The interface of the provider\<close>

record coolify_request =
  crqType :: string
  crqName :: string
  crqDescription :: string
  crqProject :: string
  crqEnvironmentName :: string
  crqEnvironment :: string
  crqServer :: string
  crqDestination :: string
  crqInstantDeploy :: bool
  crqCompose :: string

record coolify_service =
  csUUID :: string
  csName :: string
  csDescription :: string
  csCompose :: string

record coolify_env =
  ceUUID :: string
  ceKey :: string
  ceValue :: string
  cePreview :: bool
  ceLiteral :: bool
  ceMultiline :: bool
  ceShownOnce :: bool

record delete_options =
  doConfigurations :: bool
  doVolumes :: bool
  doCleanup :: bool
  doNetworks :: bool

text \<open>
  \<^verbatim>\<open>CoolifyProvider\<close>, over the state \<^verbatim>\<open>'p\<close> of the provider.  The answers to queued actions are not used by the
  callers and left out, and so are the domains and URLs of services; the request of an update has no type.
\<close>

record 'p coolify_ops =
  coCreate :: "'p \<Rightarrow> coolify_request \<Rightarrow> 'p \<times> (call_error, string) result"
  coGet :: "'p \<Rightarrow> string \<Rightarrow> 'p \<times> (call_error, coolify_service) result"
  coUpdate :: "'p \<Rightarrow> string \<Rightarrow> coolify_request \<Rightarrow> 'p \<times> (call_error, unit) result"
  coListEnvs :: "'p \<Rightarrow> string \<Rightarrow> 'p \<times> (call_error, coolify_env list) result"
  coUpdateEnvs :: "'p \<Rightarrow> string \<Rightarrow> coolify_env list \<Rightarrow> 'p \<times> (call_error, unit) result"
  coRestart :: "'p \<Rightarrow> string \<Rightarrow> bool \<Rightarrow> 'p \<times> (call_error, unit) result"
  coStart :: "'p \<Rightarrow> string \<Rightarrow> 'p \<times> (call_error, unit) result"
  coStop :: "'p \<Rightarrow> string \<Rightarrow> bool \<Rightarrow> 'p \<times> (call_error, unit) result"
  coDelete :: "'p \<Rightarrow> string \<Rightarrow> delete_options \<Rightarrow> 'p \<times> (call_error, unit) result"

section \<open>The client\<close>

text \<open>
  What the client sends, and its parameters: the transport, the escaping of path segments, the readers of JSON answers.
  Marshalling these requests does not fail, and \<^verbatim>\<open>clBuild\<close> says whether a request can be built for a URL.
\<close>

datatype coolify_body = NoBody | CreateBody coolify_request | UpdateBody coolify_request | EnvsBody "coolify_env list"

record http_request =
  hqMethod :: string
  hqURL :: string
  hqToken :: string
  hqBody :: coolify_body

record 'p coolify_client =
  clBase :: string
  clToken :: string
  clBuild :: "string \<Rightarrow> bool"
  clDo :: "'p \<Rightarrow> http_request \<Rightarrow> 'p \<times> (string, http_response) result"
  clEscape :: "string \<Rightarrow> string"
  clReadUUID :: "string \<Rightarrow> string option"
  clReadService :: "string \<Rightarrow> coolify_service option"
  clReadEnvs :: "string \<Rightarrow> coolify_env list option"
  clReadAny :: "string \<Rightarrow> unit option"

definition NewCoolifyClient :: "'p coolify_client \<Rightarrow> string \<Rightarrow> string \<Rightarrow> (string, 'p coolify_client) result" where
  "NewCoolifyClient lib baseURL apiToken =
     (if blank baseURL then Inl ''coolify api base url is required''
      else if blank apiToken then Inl ''coolify api token is required''
      else Inr (lib\<lparr>clBase := trim_right slash (trim_space baseURL), clToken := trim_space apiToken\<rparr>))"

text \<open>\<^verbatim>\<open>doJSON\<close>; \<^verbatim>\<open>read\<close> decodes the body of the answer, \<^verbatim>\<open>None\<close> is a call that does not look at it.\<close>

definition doJSON :: "'p coolify_client \<Rightarrow> 'p \<Rightarrow> string \<Rightarrow> string \<Rightarrow> coolify_body \<Rightarrow> (string \<Rightarrow> 'a option) option \<Rightarrow> 'a
    \<Rightarrow> 'p \<times> (call_error, 'a) result" where
  "doJSON cl p m url body read dflt =
     (if \<not> clBuild cl url then (p, Inl (CallError (''build coolify request '' @ m @ '' '' @ url)))
      else case clDo cl p \<lparr>hqMethod = m, hqURL = url, hqToken = ''Bearer '' @ clToken cl, hqBody = body\<rparr> of
          (p', Inl e) \<Rightarrow> (p', Inl (CallError (''perform coolify request '' @ m @ '' '' @ url @ '': '' @ e)))
        | (p', Inr r) \<Rightarrow>
            if \<not> status_2xx (hrStatus r) then (p', Inl (newHTTPStatusError m url r))
            else case read of
                None \<Rightarrow> (p', Inr dflt)
              | Some dec \<Rightarrow>
                 (case dec (hrBody r) of
                    None \<Rightarrow> (p', Inl (CallError (''decode coolify response '' @ m @ '' '' @ url)))
                  | Some x \<Rightarrow> (p', Inr x)))"

definition service_url :: "'p coolify_client \<Rightarrow> string \<Rightarrow> string" where
  "service_url cl u = clBase cl @ ''/services/'' @ clEscape cl u"

definition boolQueryValue :: "bool \<Rightarrow> bool \<Rightarrow> string" where
  "boolQueryValue v d = (if \<not> v \<and> d then ''false'' else if v then ''true'' else ''false'')"

text \<open>\<^verbatim>\<open>url.Values.Encode\<close> of names and values of plain letters sorts by name.\<close>

definition delete_query :: "delete_options \<Rightarrow> string" where
  "delete_query op =
     ''delete_configurations='' @ boolQueryValue (doConfigurations op) True
     @ ''&delete_connected_networks='' @ boolQueryValue (doNetworks op) True
     @ ''&delete_volumes='' @ boolQueryValue (doVolumes op) True
     @ ''&docker_cleanup='' @ boolQueryValue (doCleanup op) True"

definition coolify_client_ops :: "'p coolify_client \<Rightarrow> 'p coolify_ops" where
  "coolify_client_ops cl =
     \<lparr>coCreate = (\<lambda>p q. doJSON cl p ''POST'' (clBase cl @ ''/services'') (CreateBody q) (Some (clReadUUID cl)) []),
      coGet = (\<lambda>p u. doJSON cl p ''GET'' (service_url cl u) NoBody (Some (clReadService cl))
        \<lparr>csUUID = [], csName = [], csDescription = [], csCompose = []\<rparr>),
      coUpdate = (\<lambda>p u q. doJSON cl p ''PATCH'' (service_url cl u) (UpdateBody q) None ()),
      coListEnvs = (\<lambda>p u. doJSON cl p ''GET'' (service_url cl u @ ''/envs'') NoBody (Some (clReadEnvs cl)) []),
      coUpdateEnvs = (\<lambda>p u es. case doJSON cl p ''PATCH'' (service_url cl u @ ''/envs/bulk'') (EnvsBody es)
          (Some (clReadEnvs cl)) [] of (p', r) \<Rightarrow> (p', bind_result r (\<lambda>_. Inr ()))),
      coRestart = (\<lambda>p u latest. doJSON cl p ''POST''
        (service_url cl u @ ''/restart'' @ (if latest then ''?latest=true'' else [])) NoBody (Some (clReadAny cl)) ()),
      coStart = (\<lambda>p u. doJSON cl p ''POST'' (service_url cl u @ ''/start'') NoBody (Some (clReadAny cl)) ()),
      coStop = (\<lambda>p u cleanup. doJSON cl p ''POST''
        (service_url cl u @ ''/stop?docker_cleanup='' @ boolQueryValue cleanup True) NoBody (Some (clReadAny cl)) ()),
      coDelete = (\<lambda>p u op. doJSON cl p ''DELETE'' (service_url cl u @ ''?'' @ delete_query op) NoBody
        (Some (clReadAny cl)) ())\<rparr>"

text \<open>An error of the client carries the status 404 exactly if the server answered it.\<close>

lemma doJSON_not_found:
  "(\<exists>e. snd (doJSON cl p m url body read dflt) = Inl e \<and> IsHTTPStatus e 404)
   \<longleftrightarrow> clBuild cl url \<and> (\<exists>r. snd (clDo cl p \<lparr>hqMethod = m, hqURL = url, hqToken = ''Bearer '' @ clToken cl,
         hqBody = body\<rparr>) = Inr r \<and> hrStatus r = 404)"
proof -
  have "\<not> status_2xx 404" by (simp add: status_2xx_def)
  then show ?thesis
    by (auto simp: doJSON_def newHTTPStatusError_def split: prod.splits sum.splits option.splits)
qed

end
