(* ===== verification/Runtime.thy ===== *)
theory Runtime
  imports Attestation Coolify
begin

text \<open>
  The runtime of tenants (\<^verbatim>\<open>internal/controlplane/tenant_runtime.go\<close>): it brings the services of a provider in line with
  the desired states, probes them, and records what it saw.  The world is the database, the state \<^verbatim>\<open>'p\<close> of everything
  reached over the network, and the number of readings of the clock, fresh identifiers and operations of the store
  so far; the outcome of the n-th one is a parameter.
\<close>

section \<open>World and library\<close>

record 'p world =
  rwDb :: runtime_db
  rwNet :: 'p
  rwTick :: nat

record probe_response =
  prStatus :: "64 word"
  prContentType :: string
  prBody :: string

record rendered_service =
  rnCreate :: coolify_request
  rnUpdate :: coolify_request
  rnEnvs :: "coolify_env list"
  rnUpstream :: string

record 'p runtime_lib =
  rlOps :: "'p coolify_ops"
  rlSecret :: "'p \<Rightarrow> string \<Rightarrow> 'p \<times> (call_error, string) result"
  rlProbe :: "'p \<Rightarrow> string \<Rightarrow> 'p \<times> (string, probe_response) result"
  rlTemplates :: "string \<Rightarrow> (tenant_row \<Rightarrow> catalog_entry \<Rightarrow> (string \<times> string) list
    \<Rightarrow> (call_error, rendered_service) result) option"
  rlURLParse :: "string \<Rightarrow> parsed_url option"
  rlURLString :: "parsed_url \<Rightarrow> string"
  rlRequestOk :: "string \<Rightarrow> bool"
  rlNetwork :: string
  rlJson :: "json \<Rightarrow> string"
  rlSecretContract :: "secret_definition list \<Rightarrow> string"
  rlIdentityContext :: "identity_context_mode \<Rightarrow> string"
  rlSha :: "string \<Rightarrow> string"
  rlJsonOk :: "string \<Rightarrow> bool"
  rlParse :: time_parsers
  rlFormat :: "time \<Rightarrow> string"
  rlNow :: "nat \<Rightarrow> time"
  rlNew :: "nat \<Rightarrow> uuid"
  rlFault :: "nat \<Rightarrow> db_error option"

text \<open>Computations that may fail, over the world.\<close>

type_synonym ('p, 'a) io = "'p world \<Rightarrow> 'p world \<times> (call_error, 'a) result"

definition io_return :: "'a \<Rightarrow> ('p, 'a) io" where
  "io_return x w = (w, Inr x)"

definition io_fail :: "call_error \<Rightarrow> ('p, 'a) io" where
  "io_fail e w = (w, Inl e)"

definition io_result :: "(call_error, 'a) result \<Rightarrow> ('p, 'a) io" where
  "io_result r w = (w, r)"

definition io_bind :: "('p, 'a) io \<Rightarrow> ('a \<Rightarrow> ('p, 'b) io) \<Rightarrow> ('p, 'b) io" where
  "io_bind m f w = (case m w of (w', Inl e) \<Rightarrow> (w', Inl e) | (w', Inr x) \<Rightarrow> f x w')"

text \<open>\<^verbatim>\<open>io_try\<close> gives the error as a value.\<close>

definition io_try :: "('p, 'a) io \<Rightarrow> ('p, (call_error, 'a) result) io" where
  "io_try m w = (case m w of (w', r) \<Rightarrow> (w', Inr r))"

definition io_when :: "bool \<Rightarrow> ('p, unit) io \<Rightarrow> ('p, unit) io" where
  "io_when b m = (if b then m else io_return ())"

definition io_net :: "('p \<Rightarrow> 'p \<times> (call_error, 'a) result) \<Rightarrow> ('p, 'a) io" where
  "io_net f w = (case f (rwNet w) of (n, r) \<Rightarrow> (w\<lparr>rwNet := n\<rparr>, r))"

definition io_tick :: "(nat \<Rightarrow> 'a) \<Rightarrow> ('p, 'a) io" where
  "io_tick f w = (w\<lparr>rwTick := Suc (rwTick w)\<rparr>, Inr (f (rwTick w)))"

text \<open>An operation of the store: a failure leaves the database as it was.\<close>

definition io_store :: "'p runtime_lib \<Rightarrow> string \<Rightarrow> (db_error option \<Rightarrow> runtime_db \<Rightarrow> runtime_db \<times> (store_error, 'a) result)
    \<Rightarrow> ('p, 'a) io" where
  "io_store lib what f =
     io_bind (io_tick (rlFault lib)) (\<lambda>fault w.
       case f fault (rwDb w) of
         (db, Inl e) \<Rightarrow> (w\<lparr>rwDb := db\<rparr>, Inl (CallError what))
       | (db, Inr x) \<Rightarrow> (w\<lparr>rwDb := db\<rparr>, Inr x))"

definition store_exec :: "(runtime_db \<Rightarrow> (db_error, runtime_db) result) \<Rightarrow> db_error option \<Rightarrow> runtime_db
    \<Rightarrow> runtime_db \<times> (store_error, unit) result" where
  "store_exec f fault db =
     (case fault of
        Some e \<Rightarrow> (db, Inl (StoreDb e))
      | None \<Rightarrow> (case f db of Inl e \<Rightarrow> (db, Inl (StoreDb e)) | Inr db' \<Rightarrow> (db', Inr ())))"

section \<open>Operations of the store\<close>

definition UpdateTenantRuntimeStatus :: "'p runtime_lib \<Rightarrow> runtime_update \<Rightarrow> ('p, unit) io" where
  "UpdateTenantRuntimeStatus lib u =
     io_store lib ''update tenant runtime status''
       (store_exec (\<lambda>db. Inr (on_tenants (\<lambda>t. q_UpdateTenantRuntimeStatus t u) db)))"

definition MarkTenantReconciled :: "'p runtime_lib \<Rightarrow> uuid \<Rightarrow> time \<Rightarrow> string \<Rightarrow> ('p, unit) io" where
  "MarkTenantReconciled lib tid at err =
     io_store lib ''mark tenant reconciled''
       (store_exec (\<lambda>db. Inr (on_tenants (\<lambda>t. q_MarkTenantReconciled t tid (sqlNullTime (rlFormat lib) at) err) db)))"

definition DeleteTenantInstance :: "'p runtime_lib \<Rightarrow> uuid \<Rightarrow> ('p, unit) io" where
  "DeleteTenantInstance lib tid =
     io_store lib ''delete tenant instance'' (store_exec (\<lambda>db. Inr (delete_tenant tid db)))"

definition GetEnabledServiceCatalogEntry :: "'p runtime_lib \<Rightarrow> string \<Rightarrow> ('p, catalog_entry) io" where
  "GetEnabledServiceCatalogEntry lib sid =
     io_store lib ''get enabled service catalog entry'' (\<lambda>fault db.
       (db, bind_result (faulty fault (q_GetEnabledServiceCatalogEntry (cdCatalog (rdControl db)) sid)) (\<lambda>r.
          Inr (crEntry r))))"

definition ListTenantInstances :: "'p runtime_lib \<Rightarrow> ('p, tenant_row list) io" where
  "ListTenantInstances lib =
     io_store lib ''list tenant instances'' (\<lambda>fault db.
       (db, bind_result (faulty fault (Inr (q_ListTenantInstances (rdTenants db))))
          (convertTenantInstances (rlParse lib))))"

section \<open>Decisions of the runtime\<close>

definition tenantRuntimeModeStaticRow :: "tenant_row \<Rightarrow> bool" where
  "tenantRuntimeModeStaticRow t = tenantRuntimeModeStatic (tnMetadata t)"

abbreviation tn_resource :: "tenant_row \<Rightarrow> string" where
  "tn_resource t \<equiv> clamp_some (tnResource t) []"

abbreviation tn_upstream :: "tenant_row \<Rightarrow> string" where
  "tn_upstream t \<equiv> clamp_some (tnUpstream t) []"

definition itoa_text :: "int \<Rightarrow> string" where
  "itoa_text n = clamp_some (itoa (word_of_int n)) []"

definition buildUpstreamURL :: "tenant_row \<Rightarrow> catalog_entry \<Rightarrow> string" where
  "buildUpstreamURL t svc =
     ''http://'' @ BuildTenantInstanceName (tnService t) (tnKey t) @ '':'' @ itoa_text (InternalPort svc)
       @ InternalUpstreamPath svc"

definition staticUpstreamHealthURL :: "'p runtime_lib \<Rightarrow> string \<Rightarrow> string \<Rightarrow> (call_error, string) result" where
  "staticUpstreamHealthURL lib upstreamURL healthPath =
     (case rlURLParse lib upstreamURL of
        None \<Rightarrow> Inl (CallError ''parse upstream url'')
      | Some u \<Rightarrow>
          let path = (if blank healthPath then [slash] else trim_space healthPath) in
          if \<not> has_prefix path [slash] then Inl (CallError ''health path must be absolute'')
          else Inr (rlURLString lib (u\<lparr>uPath := path, uRawQuery := [], uFragment := []\<rparr>)))"

definition deleteRequeueInterval :: duration where
  "deleteRequeueInterval = 120 * 1000000000"

definition shouldRequeueDelete :: "time \<Rightarrow> time option \<Rightarrow> bool" where
  "shouldRequeueDelete now lastReconciledAt =
     (case lastReconciledAt of None \<Rightarrow> True | Some t \<Rightarrow> deleteRequeueInterval \<le> now - t)"

text \<open>The map of the current variables keeps the last one of a name.\<close>

definition env_same :: "coolify_env \<Rightarrow> coolify_env \<Rightarrow> bool" where
  "env_same c e =
     (ceValue c = ceValue e \<and> ceLiteral c = ceLiteral e \<and> ceMultiline c = ceMultiline e
      \<and> cePreview c = cePreview e \<and> ceShownOnce c = ceShownOnce e)"

definition envsDrifted :: "coolify_env list \<Rightarrow> coolify_env list \<Rightarrow> bool" where
  "envsDrifted cur expected =
     list_ex (\<lambda>e. case find (\<lambda>c. ceKey c = ceKey e) (rev cur) of None \<Rightarrow> True | Some c \<Rightarrow> \<not> env_same c e) expected"

section \<open>Probes\<close>

text \<open>
  \<^verbatim>\<open>probeTenantHealth\<close>: the left answer is an error, with the detail that goes with it; the right one says whether the
  tenant is healthy.
\<close>

definition probe_url :: "'p runtime_lib \<Rightarrow> tenant_row \<Rightarrow> catalog_entry \<Rightarrow> string \<Rightarrow> string \<Rightarrow> (call_error, string) result" where
  "probe_url lib t svc serviceUUID upstreamURL =
     (if serviceUUID \<noteq> [] \<and> tnDNS t \<noteq> [] \<and> tnDNS t \<noteq> BuildTenantInstanceName (tnService t) (tnKey t)
      then Inl (CallError ''tenant internal dns drift detected'')
      else case staticUpstreamHealthURL lib (if upstreamURL = [] then buildUpstreamURL t svc else upstreamURL)
             (HealthPath svc) of
          Inl e \<Rightarrow> Inl (Wrapped ''build tenant health url'' e)
        | Inr u \<Rightarrow> if rlRequestOk lib u then Inr u else Inl (CallError ''build tenant health request''))"

definition unhealthy_detail :: "probe_response \<Rightarrow> string" where
  "unhealthy_detail r =
     ''unexpected health response: status='' @ format_int (sint (prStatus r)) @ '' content_type=''
       @ prContentType r @ '' body='' @ trim_space (take 1024 (prBody r))"

definition healthy_detail :: "catalog_entry \<Rightarrow> probe_response \<Rightarrow> string" where
  "healthy_detail svc r = ServiceID svc @ '' returned healthy status '' @ format_int (sint (prStatus r))"

definition probeTenantHealth :: "'p runtime_lib \<Rightarrow> 'p \<Rightarrow> tenant_row \<Rightarrow> catalog_entry \<Rightarrow> string \<Rightarrow> string
    \<Rightarrow> 'p \<times> (call_error \<times> string, bool \<times> string) result" where
  "probeTenantHealth lib p t svc serviceUUID upstreamURL =
     (case probe_url lib t svc serviceUUID upstreamURL of
        Inl e \<Rightarrow> (p, Inl (e, []))
      | Inr u \<Rightarrow>
         (case rlProbe lib p u of
            (p', Inl e) \<Rightarrow> (p', Inl (CallError e, ''health request failed''))
          | (p', Inr r) \<Rightarrow>
              (p', Inr (if status_2xx (prStatus r) then (True, healthy_detail svc r) else (False, unhealthy_detail r)))))"

section \<open>Observations\<close>

definition sha256String :: "'p runtime_lib \<Rightarrow> string list \<Rightarrow> string" where
  "sha256String lib ps = ''sha256:'' @ rlSha lib (concat (map (\<lambda>p. p @ [CHR 0x00]) ps))"

definition tenantImageForService :: "catalog_entry \<Rightarrow> string" where
  "tenantImageForService svc = UpstreamServiceName svc"

definition runtime_observation_of :: "'p runtime_lib \<Rightarrow> tenant_row \<Rightarrow> catalog_entry \<Rightarrow> string \<Rightarrow> string \<Rightarrow> bool \<Rightarrow> string
    \<Rightarrow> time \<Rightarrow> runtime_observation" where
  "runtime_observation_of lib t svc serviceUUID upstreamURL healthy detail at =
     (let secrets = rlSecretContract lib (SecretContract svc);
          network = rlJson lib (JObj [(''network'', JStr (rlNetwork lib)), (''upstream_url'', JStr upstreamURL)]);
          compose = sha256String lib [ServiceID svc, InternalUpstreamPath svc, HealthPath svc, upstreamURL];
          env = sha256String lib [secrets, itoa_text (InternalPort svc), HealthPath svc, InternalUpstreamPath svc] in
      \<lparr>roSpec = \<lparr>rsID = zero_uuid, rsTenant = tnID t, rsService = [], rsSubject = [], rsVersion = ''observe-v1'',
         rsComposeHash = compose, rsEnvHash = env, rsSecretHash = sha256String lib [secrets],
         rsImageRefs = rlJson lib (JArr [JStr (tenantImageForService svc)]), rsNetworkPolicy = network,
         rsIdentityHash = sha256String lib [rlIdentityContext lib (ModeNormalized (IdentityContext svc))],
         rsCreatedAt = at\<rparr>,
       roMeasurement = \<lparr>rmID = zero_uuid, rmTenant = tnID t, rmResource = serviceUUID, rmContainer = [],
         rmSource = (if tenantRuntimeModeStaticRow t \<or> serviceUUID = [] then ''static_upstream'' else ''http_probe''),
         rmImageRef = tenantImageForService svc, rmImageDigest = [], rmComposeHash = compose, rmEnvHash = env,
         rmNetwork = network, rmPorts = [], rmVolumes = [],
         rmHealth = (if healthy then ''healthy'' else ''unhealthy''),
         rmRawSummary = rlJson lib (JObj [(''status_detail'', JStr detail), (''upstream_url'', JStr upstreamURL)]),
         rmMeasuredAt = at\<rparr>,
       roAttestation = \<lparr>raID = zero_uuid, raTenant = tnID t, raSpec = zero_uuid, raMeasurement = zero_uuid,
         raPolicy = ''observe-v1'', raVerdict = (if healthy then ''trusted'' else ''warning''),
         raReasons = rlJson lib (JArr (if healthy then [] else [JStr detail])),
         raExpiresAt = Some (at + 15 * 60 * 1000000000), raCreatedAt = at\<rparr>\<rparr>)"

definition recordRuntimeObservation :: "'p runtime_lib \<Rightarrow> tenant_row \<Rightarrow> catalog_entry \<Rightarrow> string \<Rightarrow> string \<Rightarrow> bool
    \<Rightarrow> string \<Rightarrow> time \<Rightarrow> ('p, unit) io" where
  "recordRuntimeObservation lib t svc serviceUUID upstreamURL healthy detail observedAt =
     (if IsZero (tnID t) then io_return ()
      else io_bind (if observedAt = 0 then io_tick (rlNow lib) else io_return observedAt) (\<lambda>at.
        io_bind (io_tick (rlNew lib)) (\<lambda>n1. io_bind (io_tick (rlNew lib)) (\<lambda>n2. io_bind (io_tick (rlNew lib)) (\<lambda>n3.
        io_bind (io_tick (rlNow lib)) (\<lambda>now.
          io_store lib ''record tenant runtime observation'' (\<lambda>fault db.
            RecordTenantRuntimeObservation fault (rlJsonOk lib)
              \<lparr>cnNow = [], cnTime = now, cnFormat = rlFormat lib\<rparr> n1 n2 n3 db
              (runtime_observation_of lib t svc serviceUUID upstreamURL healthy detail at))))))))"

section \<open>Actions\<close>

datatype reconcile_action = ActionNoop | ActionEnsure | ActionEnable | ActionDisable | ActionDelete | ActionOther string

record tenant_plan =
  plAction :: reconcile_action
  plReason :: string

record apply_result =
  arStatus :: string
  arDetails :: "(string \<times> json) list"
  arObserved :: "tenant_runtime_state option"
  arLastError :: "string option"
  arDeleteCompleted :: bool
  arSkipReconcileMark :: bool

definition empty_result :: apply_result where
  "empty_result = \<lparr>arStatus = [], arDetails = [], arObserved = None, arLastError = None,
     arDeleteCompleted = False, arSkipReconcileMark = False\<rparr>"

definition runtime_state_text :: "tenant_runtime_state \<Rightarrow> string" where
  "runtime_state_text s =
     (case s of RuntimeProvisioning \<Rightarrow> ''provisioning'' | RuntimeReady \<Rightarrow> ''ready'' | RuntimeDegraded \<Rightarrow> ''degraded''
      | RuntimeDisabled \<Rightarrow> ''disabled'' | RuntimeDeleting \<Rightarrow> ''deleting'' | RuntimeOther t \<Rightarrow> t)"

definition state_update :: "tenant_row \<Rightarrow> tenant_runtime_state \<Rightarrow> runtime_update" where
  "state_update t st =
     \<lparr>upTenant = tnID t, upState = st, upResource = [], upApplication = [], upUpstream = [], upHealthyAt = None,
      upClear = False, upLastError = []\<rparr>"

text \<open>\<^verbatim>\<open>observeWithURL\<close>: a failure of the record of an observation is only logged.\<close>

definition settle :: "'p runtime_lib \<Rightarrow> tenant_row \<Rightarrow> catalog_entry \<Rightarrow> string \<Rightarrow> string \<Rightarrow> time \<Rightarrow> bool \<Rightarrow> string \<Rightarrow> string
    \<Rightarrow> ('p, apply_result) io" where
  "settle lib t svc serviceUUID upstreamURL now healthy err detail =
     io_bind (io_try (recordRuntimeObservation lib t svc serviceUUID upstreamURL healthy
         (if healthy then detail else err) now)) (\<lambda>_.
     io_bind (UpdateTenantRuntimeStatus lib
         ((state_update t (if healthy then RuntimeReady else RuntimeDegraded))
            \<lparr>upResource := serviceUUID, upUpstream := upstreamURL,
             upHealthyAt := (if healthy then Some (rlFormat lib now) else None), upLastError := err\<rparr>)) (\<lambda>_.
       io_return (empty_result
         \<lparr>arStatus := (if healthy then ''ready'' else ''degraded''),
          arObserved := Some (if healthy then RuntimeReady else RuntimeDegraded), arLastError := Some err,
          arDetails := [(''health'', JStr detail)]\<rparr>)))"

definition observeWithURL :: "'p runtime_lib \<Rightarrow> tenant_row \<Rightarrow> catalog_entry \<Rightarrow> string \<Rightarrow> string
    \<Rightarrow> ('p, apply_result) io" where
  "observeWithURL lib t svc serviceUUID upstreamURL =
     io_bind (io_net (\<lambda>p. case probeTenantHealth lib p t svc serviceUUID upstreamURL of (p', r) \<Rightarrow> (p', Inr r)))
       (\<lambda>answer. io_bind (io_tick (rlNow lib)) (\<lambda>now.
         case answer of
           Inl (e, detail) \<Rightarrow> settle lib t svc serviceUUID upstreamURL now False (error_text e) detail
         | Inr (healthy, detail) \<Rightarrow>
             settle lib t svc serviceUUID upstreamURL now healthy (if healthy then [] else detail) detail))"

definition observe :: "'p runtime_lib \<Rightarrow> tenant_row \<Rightarrow> catalog_entry \<Rightarrow> ('p, apply_result) io" where
  "observe lib t svc =
     observeWithURL lib t svc (tn_resource t)
       (if tn_upstream t = [] then buildUpstreamURL t svc else tn_upstream t)"

text \<open>\<^verbatim>\<open>renderTenant\<close>, with the values of the secrets that could be read.\<close>

fun resolve_secrets :: "'p runtime_lib \<Rightarrow> tenant_row \<Rightarrow> secret_definition list \<Rightarrow> (string \<times> string) list
    \<Rightarrow> ('p, (string \<times> string) list) io" where
  "resolve_secrets lib t [] acc = io_return acc"
| "resolve_secrets lib t (d # ds) acc =
     io_bind (io_try (io_net (\<lambda>p. rlSecret lib p (BuildTenantSecretPath (tnKey t) (tnService t) (SecretKey d)))))
       (\<lambda>r. case r of
           Inl e \<Rightarrow> if SecretRequired d then io_fail e else resolve_secrets lib t ds acc
         | Inr v \<Rightarrow> resolve_secrets lib t ds (put (SecretKey d) v acc))"

definition renderTenant :: "'p runtime_lib \<Rightarrow> tenant_row \<Rightarrow> catalog_entry \<Rightarrow> ('p, rendered_service) io" where
  "renderTenant lib t svc =
     (case rlTemplates lib (tnService t) of
        None \<Rightarrow> io_fail (CallError ''tenant template is not configured'')
      | Some render \<Rightarrow>
          io_bind (resolve_secrets lib t (SecretContract svc) []) (\<lambda>secrets. io_result (render t svc secrets)))"

text \<open>\<^verbatim>\<open>ensure\<close>: a recorded service that is gone is created again.\<close>

definition recorded_service :: "'p runtime_lib \<Rightarrow> tenant_row \<Rightarrow> ('p, string) io" where
  "recorded_service lib t =
     (if tn_resource t = [] then io_return []
      else io_bind (io_try (io_net (\<lambda>p. coGet (rlOps lib) p (tn_resource t)))) (\<lambda>r.
        case r of
          Inl e \<Rightarrow> if IsHTTPStatus e 404 then io_return [] else io_fail e
        | Inr _ \<Rightarrow> io_return (tn_resource t)))"

definition create_service :: "'p runtime_lib \<Rightarrow> tenant_row \<Rightarrow> coolify_request \<Rightarrow> ('p, string) io" where
  "create_service lib t q =
     io_bind (io_try (io_net (\<lambda>p. coCreate (rlOps lib) p q))) (\<lambda>r.
       case r of
         Inr u \<Rightarrow> io_return u
       | Inl e \<Rightarrow>
           io_bind (io_try (UpdateTenantRuntimeStatus lib
               ((state_update t RuntimeDegraded)\<lparr>upLastError := error_text e, upClear := True\<rparr>))) (\<lambda>_. io_fail e))"

definition correct_service :: "'p runtime_lib \<Rightarrow> rendered_service \<Rightarrow> string \<Rightarrow> ('p, bool \<times> bool) io" where
  "correct_service lib rd u =
     io_bind (io_net (\<lambda>p. coGet (rlOps lib) p u)) (\<lambda>s.
       let metadataDrift = (csName s \<noteq> crqName (rnUpdate rd) \<or> csDescription s \<noteq> crqDescription (rnUpdate rd));
           composeDrift = (csCompose s \<noteq> crqCompose (rnUpdate rd)) in
       io_bind (io_when (metadataDrift \<or> composeDrift) (io_net (\<lambda>p. coUpdate (rlOps lib) p u (rnUpdate rd)))) (\<lambda>_.
       io_bind (io_net (\<lambda>p. coListEnvs (rlOps lib) p u)) (\<lambda>cur.
         let envDrift = envsDrifted cur (rnEnvs rd) in
         io_bind (io_when envDrift (io_net (\<lambda>p. coUpdateEnvs (rlOps lib) p u (rnEnvs rd)))) (\<lambda>_.
           io_return (composeDrift, envDrift)))))"

definition ensure :: "'p runtime_lib \<Rightarrow> tenant_row \<Rightarrow> catalog_entry \<Rightarrow> ('p, apply_result) io" where
  "ensure lib t svc =
     io_bind (renderTenant lib t svc) (\<lambda>rd.
     io_bind (recorded_service lib t) (\<lambda>u0.
     io_bind (if u0 = [] then create_service lib t (rnCreate rd) else io_return u0) (\<lambda>u.
     io_bind (correct_service lib rd u) (\<lambda>(composeDrift, envDrift).
     io_bind (io_when (u0 = [] \<or> envDrift \<or> composeDrift) (io_net (\<lambda>p. coRestart (rlOps lib) p u False))) (\<lambda>_.
     io_bind (UpdateTenantRuntimeStatus lib
         ((state_update t RuntimeProvisioning)\<lparr>upResource := u, upUpstream := rnUpstream rd\<rparr>)) (\<lambda>_.
     io_bind (observeWithURL lib t svc u (rnUpstream rd)) (\<lambda>r.
       io_return (r\<lparr>arDetails := arDetails r
         @ (if u0 = [] then [(''created'', JBool True)] else [])
         @ (if envDrift then [(''env_drift_corrected'', JBool True)] else [])
         @ (if composeDrift then [(''compose_drift_corrected'', JBool True)] else [])\<rparr>))))))))"

definition enable :: "'p runtime_lib \<Rightarrow> tenant_row \<Rightarrow> catalog_entry \<Rightarrow> ('p, apply_result) io" where
  "enable lib t svc =
     (if tn_resource t = [] then ensure lib t svc
      else io_bind (io_try (io_net (\<lambda>p. coStart (rlOps lib) p (tn_resource t)))) (\<lambda>r.
        case r of
          Inl e \<Rightarrow> if IsHTTPStatus e 404 then ensure lib t svc else io_fail e
        | Inr _ \<Rightarrow> io_bind (UpdateTenantRuntimeStatus lib (state_update t RuntimeProvisioning)) (\<lambda>_. observe lib t svc)))"

definition disabled_result :: apply_result where
  "disabled_result = empty_result\<lparr>arStatus := ''disabled'', arObserved := Some RuntimeDisabled, arLastError := Some []\<rparr>"

definition disable :: "'p runtime_lib \<Rightarrow> tenant_row \<Rightarrow> ('p, apply_result) io" where
  "disable lib t =
     io_bind (io_when (tn_resource t \<noteq> [])
         (io_bind (io_try (io_net (\<lambda>p. coStop (rlOps lib) p (tn_resource t) True))) (\<lambda>r.
           case r of
             Inl e \<Rightarrow> if IsHTTPStatus e 404 then io_return () else io_fail e
           | Inr _ \<Rightarrow> io_return ()))) (\<lambda>_.
     io_bind (UpdateTenantRuntimeStatus lib (state_update t RuntimeDisabled)) (\<lambda>_.
       io_return (disabled_result\<lparr>arDetails := [(''service_uuid'', JStr (tn_resource t))]\<rparr>)))"

definition deleted_result :: "(string \<times> json) list \<Rightarrow> apply_result" where
  "deleted_result details = empty_result
     \<lparr>arStatus := ''deleted'', arObserved := Some RuntimeDeleting, arLastError := Some [], arDeleteCompleted := True,
      arDetails := details\<rparr>"

definition delete_everything :: delete_options where
  "delete_everything = \<lparr>doConfigurations = True, doVolumes = True, doCleanup = True, doNetworks = True\<rparr>"

definition deleting_result :: "tenant_row \<Rightarrow> bool \<Rightarrow> bool \<Rightarrow> apply_result" where
  "deleting_result t queued requeued = empty_result
     \<lparr>arStatus := ''deleting'', arObserved := Some RuntimeDeleting, arLastError := Some [],
      arSkipReconcileMark := \<not> queued,
      arDetails := [(''service_uuid'', JStr (tn_resource t)), (''delete_queued'', JBool queued),
        (''delete_requeued'', JBool requeued)]\<rparr>"

definition last_reconciled :: "'p runtime_lib \<Rightarrow> tenant_row \<Rightarrow> time option" where
  "last_reconciled lib t = (case parseSQLiteNullTime (rlParse lib) (tnReconciledAt t) of None \<Rightarrow> None | Some v \<Rightarrow> v)"

definition runtime_delete :: "'p runtime_lib \<Rightarrow> tenant_row \<Rightarrow> ('p, apply_result) io" where
  "runtime_delete lib t =
     (if tn_resource t = [] then io_return (deleted_result [])
      else io_bind (io_try (io_net (\<lambda>p. coGet (rlOps lib) p (tn_resource t)))) (\<lambda>r.
        case r of
          Inl e \<Rightarrow>
            if IsHTTPStatus e 404 then io_return (deleted_result [(''service_uuid'', JStr (tn_resource t))])
            else io_fail e
        | Inr _ \<Rightarrow>
            io_bind (io_tick (rlNow lib)) (\<lambda>now.
              let requeued = (tnRuntime t = RuntimeDeleting \<and> shouldRequeueDelete now (last_reconciled lib t));
                  queued = (tnRuntime t \<noteq> RuntimeDeleting \<or> requeued) in
              io_bind (if queued then io_try (io_net (\<lambda>p. coDelete (rlOps lib) p (tn_resource t) delete_everything))
                       else io_return (Inr ())) (\<lambda>d.
                case d of
                  Inl e \<Rightarrow>
                    if IsHTTPStatus e 404 then io_return (deleted_result [(''service_uuid'', JStr (tn_resource t))])
                    else io_fail e
                | Inr _ \<Rightarrow>
                    io_bind (UpdateTenantRuntimeStatus lib (state_update t RuntimeDeleting)) (\<lambda>_.
                      io_return (deleting_result t queued requeued))))))"

text \<open>Tenants whose upstream an administrator configured have no service at the provider.\<close>

definition applyStaticUpstream :: "'p runtime_lib \<Rightarrow> tenant_row \<Rightarrow> tenant_plan \<Rightarrow> catalog_entry
    \<Rightarrow> ('p, apply_result) io" where
  "applyStaticUpstream lib t plan svc =
     (if plAction plan \<in> {ActionNoop, ActionEnsure, ActionEnable} then
        if blank (tn_upstream t) then io_fail (CallError ''static upstream url is not configured'')
        else observeWithURL lib t svc [] (tn_upstream t)
      else if plAction plan = ActionDisable then
        io_bind (UpdateTenantRuntimeStatus lib (state_update t RuntimeDisabled)) (\<lambda>_. io_return disabled_result)
      else if plAction plan = ActionDelete then io_return (deleted_result [])
      else io_fail (CallError ''unsupported reconcile action''))"

text \<open>The services the runtime was built with, and then the stored ones.\<close>

definition serviceByID :: "string \<Rightarrow> catalog_entry option" where
  "serviceByID = map_of (rev (map (\<lambda>e. (ServiceID e, e)) DefaultCatalogV1))"

definition loadService :: "'p runtime_lib \<Rightarrow> string \<Rightarrow> ('p, catalog_entry) io" where
  "loadService lib sid =
     (case serviceByID sid of Some svc \<Rightarrow> io_return svc | None \<Rightarrow> GetEnabledServiceCatalogEntry lib sid)"

definition no_service :: catalog_entry where
  "no_service =
     \<lparr>ServiceID = [], DisplayName = [], UpstreamServiceName = [], TransportType = TransportStreamableHTTP,
      InternalPort = 0, PublicPath = [], InternalUpstreamPath = [], HealthPath = [], HealthProbeExpectation = [],
      ResourceProfile = [], PersistencePolicy = [], AdapterRequirement = AdapterNone, SecretContract = [],
      IdentityContext = ModeUnset, Capabilities = []\<rparr>"

definition apply_plan :: "'p runtime_lib \<Rightarrow> tenant_row \<Rightarrow> tenant_plan \<Rightarrow> catalog_entry \<Rightarrow> ('p, apply_result) io" where
  "apply_plan lib t plan svc =
     (if tenantRuntimeModeStaticRow t then applyStaticUpstream lib t plan svc
      else case plAction plan of
          ActionNoop \<Rightarrow>
            if tnRuntime t \<in> {RuntimeReady, RuntimeProvisioning, RuntimeDegraded} then observe lib t svc
            else io_return (empty_result\<lparr>arStatus := ''noop'',
              arDetails := [(''runtime_state'', JStr (runtime_state_text (tnRuntime t)))]\<rparr>)
        | ActionEnsure \<Rightarrow> ensure lib t svc
        | ActionEnable \<Rightarrow> enable lib t svc
        | ActionDisable \<Rightarrow> disable lib t
        | ActionDelete \<Rightarrow> runtime_delete lib t
        | ActionOther _ \<Rightarrow> io_fail (CallError ''unsupported reconcile action''))"

definition runtime_Apply :: "'p runtime_lib \<Rightarrow> tenant_row \<Rightarrow> tenant_plan \<Rightarrow> ('p, apply_result) io" where
  "runtime_Apply lib t plan =
     (if tenantRuntimeModeStaticRow t \<and> plAction plan = ActionDelete
      then applyStaticUpstream lib t plan no_service
      else io_bind (loadService lib (tnService t)) (apply_plan lib t plan))"

section \<open>What an action changes\<close>

definition io_rel :: "(runtime_db \<Rightarrow> runtime_db \<Rightarrow> bool) \<Rightarrow> ('p, 'a) io \<Rightarrow> bool" where
  "io_rel R m = (\<forall>w. R (rwDb w) (rwDb (fst (m w))))"

named_theorems io_rules

lemma io_rel_return [io_rules]: "io_rel (row_frame q tid) (io_return x)"
  by (simp add: io_rel_def io_return_def)

lemma io_rel_fail [io_rules]: "io_rel (row_frame q tid) (io_fail e)"
  by (simp add: io_rel_def io_fail_def)

lemma io_rel_result [io_rules]: "io_rel (row_frame q tid) (io_result r)"
  by (simp add: io_rel_def io_result_def)

lemma io_rel_tick [io_rules]: "io_rel (row_frame q tid) (io_tick f)"
  by (simp add: io_rel_def io_tick_def)

lemma io_rel_net [io_rules]: "io_rel (row_frame q tid) (io_net f)"
  by (simp add: io_rel_def io_net_def split: prod.split)

lemma io_rel_bind [io_rules]:
  assumes "io_rel (row_frame q tid) m" "\<And>x. io_rel (row_frame q tid) (f x)"
  shows "io_rel (row_frame q tid) (io_bind m f)"
  unfolding io_rel_def
proof
  fix w
  obtain w1 r where m: "m w = (w1, r)" by force
  have one: "row_frame q tid (rwDb w) (rwDb w1)" using assms(1) m unfolding io_rel_def by (metis fst_conv)
  show "row_frame q tid (rwDb w) (rwDb (fst (io_bind m f w)))"
  proof (cases r)
    case (Inl e)
    then show ?thesis using one m by (simp add: io_bind_def)
  next
    case (Inr x)
    have "row_frame q tid (rwDb w1) (rwDb (fst (f x w1)))" using assms(2) by (simp add: io_rel_def)
    from row_frame_trans[OF one this] show ?thesis using Inr m by (simp add: io_bind_def)
  qed
qed

lemma io_rel_try [io_rules]: "io_rel R m \<Longrightarrow> io_rel R (io_try m)"
  by (simp add: io_rel_def io_try_def split_beta)

lemma io_rel_when [io_rules]: "io_rel (row_frame q tid) m \<Longrightarrow> io_rel (row_frame q tid) (io_when b m)"
  unfolding io_when_def by (auto intro: io_rules)

lemma io_rel_store:
  assumes "\<And>fault db. row_frame q tid db (fst (f fault db))"
  shows "io_rel (row_frame q tid) (io_store lib what f)"
proof -
  have "rwDb (fst (io_store lib what f w)) = fst (f (rlFault lib (rwTick w)) (rwDb w))" for w
    by (auto simp: io_store_def io_bind_def io_tick_def split: prod.splits sum.splits)
  then show ?thesis using assms by (simp add: io_rel_def)
qed

lemma io_rel_load [io_rules]: "io_rel (row_frame q tid) (GetEnabledServiceCatalogEntry lib sid)"
  unfolding GetEnabledServiceCatalogEntry_def by (rule io_rel_store) simp

lemma io_rel_loadService [io_rules]: "io_rel (row_frame q tid) (loadService lib sid)"
  unfolding loadService_def by (auto split: option.split intro!: io_rules)

definition status_columns :: "runtime_update \<Rightarrow> tenant_row \<Rightarrow> tenant_row" where
  "status_columns u r = r\<lparr>tnRuntime := upState u,
     tnResource := keep_or_set (upClear u) (upResource u) (tnResource r),
     tnApplication := keep_or_set (upClear u) (upApplication u) (tnApplication r),
     tnUpstream := keep_or_set (upClear u) (upUpstream u) (tnUpstream r),
     tnHealthyAt := (if upClear u then None else or_else (upHealthyAt u) (tnHealthyAt r)),
     tnLastError := nullif_empty (upLastError u)\<rparr>"

lemma update_status_columns: "q_UpdateTenantRuntimeStatus t u = update_tenant (upTenant u) (status_columns u) t"
  by (simp add: q_UpdateTenantRuntimeStatus_def status_columns_def[abs_def])

lemma keeps_status_columns: "keeps_row (status_columns u)"
  by (simp add: keeps_row_def status_columns_def)

lemma status_frame:
  "(q \<longrightarrow> upState u \<noteq> RuntimeReady)
   \<Longrightarrow> row_frame q (upTenant u) db (on_tenants (\<lambda>t. q_UpdateTenantRuntimeStatus t u) db)"
  unfolding update_status_columns
  by (rule row_frame_update[OF keeps_status_columns]) (simp_all add: status_columns_def)

lemma io_rel_update [io_rules]:
  assumes "upTenant u = tid" "q \<longrightarrow> upState u \<noteq> RuntimeReady"
  shows "io_rel (row_frame q tid) (UpdateTenantRuntimeStatus lib u)"
  unfolding UpdateTenantRuntimeStatus_def
  by (rule io_rel_store) (use status_frame[OF assms(2)] assms(1) in \<open>auto simp: store_exec_def split: option.split\<close>)

lemma observation_of_tenant [simp]:
  "rsTenant (roSpec (runtime_observation_of lib t svc u url h d at)) = tnID t"
  "rmTenant (roMeasurement (runtime_observation_of lib t svc u url h d at)) = tnID t"
  "raTenant (roAttestation (runtime_observation_of lib t svc u url h d at)) = tnID t"
  by (simp_all add: runtime_observation_of_def Let_def)

lemma record_any_frame:
  assumes t: "rsTenant (roSpec ob) = tid" "rmTenant (roMeasurement ob) = tid" "raTenant (roAttestation ob) = tid" "\<not> IsZero tid"
  shows "row_frame q tid db (fst (RecordTenantRuntimeObservation fault js c n1 n2 n3 db ob))"
proof (rule row_frame_weaken)
  from with_tx_cases[of fault db "observation_body js c n1 n2 n3 ob"]
  show "row_frame True tid db (fst (RecordTenantRuntimeObservation fault js c n1 n2 n3 db ob))"
    unfolding RecordTenantRuntimeObservation_def
  proof (elim disjE)
    assume "fst (with_tx fault db (observation_body js c n1 n2 n3 ob)) = db"
    then show "row_frame True tid db (fst (with_tx fault db (observation_body js c n1 n2 n3 ob)))" by simp
  next
    assume o: "observation_body js c n1 n2 n3 ob db = Inr (fst (with_tx fault db (observation_body js c n1 n2 n3 ob)))"
    show "row_frame True tid db (fst (with_tx fault db (observation_body js c n1 n2 n3 ob)))"
      using observation_frame[OF o] t by simp
  qed
qed

lemma io_rel_record [io_rules]:
  "io_rel (row_frame q (tnID t)) (recordRuntimeObservation lib t svc u url h d at)"
  unfolding recordRuntimeObservation_def
  by (auto intro!: io_rules io_rel_store record_any_frame)

lemma io_rel_settle [io_rules]:
  "(q \<longrightarrow> \<not> healthy) \<Longrightarrow> io_rel (row_frame q (tnID t)) (settle lib t svc u url now healthy err d)"
  unfolding settle_def by (intro io_rules) (simp_all add: state_update_def)

lemma io_rel_observeWithURL [io_rules]: "io_rel (row_frame False (tnID t)) (observeWithURL lib t svc u url)"
  unfolding observeWithURL_def by (auto intro!: io_rules split: sum.split prod.split)

lemma io_rel_observe [io_rules]: "io_rel (row_frame False (tnID t)) (observe lib t svc)"
  unfolding observe_def by (rule io_rules)

lemma io_rel_secrets [io_rules]: "io_rel (row_frame q tid) (resolve_secrets lib t ds acc)"
  by (induction ds arbitrary: acc) (auto intro!: io_rules split: sum.split)

lemma io_rel_render [io_rules]: "io_rel (row_frame q tid) (renderTenant lib t svc)"
  unfolding renderTenant_def by (auto intro!: io_rules split: option.split)

lemma io_rel_recorded [io_rules]: "io_rel (row_frame q tid) (recorded_service lib t)"
  unfolding recorded_service_def by (auto intro!: io_rules split: sum.split)

lemma io_rel_create [io_rules]: "io_rel (row_frame q (tnID t)) (create_service lib t rq)"
  unfolding create_service_def by (auto intro!: io_rules simp: state_update_def split: sum.split)

lemma io_rel_correct [io_rules]: "io_rel (row_frame q tid) (correct_service lib rd u)"
  unfolding correct_service_def Let_def by (auto intro!: io_rules)

definition ensure_prepare :: "'p runtime_lib \<Rightarrow> tenant_row \<Rightarrow> catalog_entry
    \<Rightarrow> ('p, rendered_service \<times> string \<times> string \<times> bool \<times> bool) io" where
  "ensure_prepare lib t svc =
     io_bind (renderTenant lib t svc) (\<lambda>rd.
     io_bind (recorded_service lib t) (\<lambda>u0.
     io_bind (if u0 = [] then create_service lib t (rnCreate rd) else io_return u0) (\<lambda>u.
     io_bind (correct_service lib rd u) (\<lambda>(composeDrift, envDrift).
     io_bind (io_when (u0 = [] \<or> envDrift \<or> composeDrift) (io_net (\<lambda>p. coRestart (rlOps lib) p u False))) (\<lambda>_.
     io_bind (UpdateTenantRuntimeStatus lib
         ((state_update t RuntimeProvisioning)\<lparr>upResource := u, upUpstream := rnUpstream rd\<rparr>)) (\<lambda>_.
       io_return (rd, u0, u, composeDrift, envDrift)))))))"

lemma io_bind_assoc: "io_bind (io_bind m f) g = io_bind m (\<lambda>x. io_bind (f x) g)"
  by (rule ext) (simp add: io_bind_def split: prod.split sum.split)

lemma io_bind_return [simp]: "io_bind (io_return x) f = f x"
  by (rule ext) (simp add: io_bind_def io_return_def)

text \<open>\<^verbatim>\<open>ensure\<close> in two parts: everything up to the provisioned row, and the observation.\<close>

lemma ensure_split:
  "ensure lib t svc =
     io_bind (ensure_prepare lib t svc) (\<lambda>(rd, u0, u, composeDrift, envDrift).
     io_bind (observeWithURL lib t svc u (rnUpstream rd)) (\<lambda>r.
       io_return (r\<lparr>arDetails := arDetails r
         @ (if u0 = [] then [(''created'', JBool True)] else [])
         @ (if envDrift then [(''env_drift_corrected'', JBool True)] else [])
         @ (if composeDrift then [(''compose_drift_corrected'', JBool True)] else [])\<rparr>)))"
  unfolding ensure_def ensure_prepare_def io_bind_assoc
  by (intro arg_cong2[where f = io_bind] refl ext) (simp add: split_beta io_bind_assoc)

lemma io_rel_prepare [io_rules]: "io_rel (row_frame q (tnID t)) (ensure_prepare lib t svc)"
  unfolding ensure_prepare_def by (auto intro!: io_rules simp: state_update_def)

lemma io_rel_ensure [io_rules]: "io_rel (row_frame False (tnID t)) (ensure lib t svc)"
  unfolding ensure_split by (auto intro!: io_rules)

lemma io_rel_enable [io_rules]: "io_rel (row_frame False (tnID t)) (enable lib t svc)"
  unfolding enable_def by (auto intro!: io_rules simp: state_update_def split: sum.split)

lemma io_rel_disable [io_rules]: "io_rel (row_frame q (tnID t)) (disable lib t)"
  unfolding disable_def by (auto intro!: io_rules simp: state_update_def split: sum.split)

lemma io_rel_delete [io_rules]: "io_rel (row_frame q (tnID t)) (runtime_delete lib t)"
  unfolding runtime_delete_def Let_def by (auto intro!: io_rules simp: state_update_def split: sum.split)

lemma io_rel_static [io_rules]: "io_rel (row_frame False (tnID t)) (applyStaticUpstream lib t plan svc)"
  unfolding applyStaticUpstream_def by (auto intro!: io_rules simp: state_update_def)

lemma io_rel_Apply: "io_rel (row_frame False (tnID t)) (runtime_Apply lib t plan)"
  unfolding runtime_Apply_def apply_plan_def by (auto intro!: io_rules split: reconcile_action.split)

section \<open>Readiness and deletion\<close>

text \<open>The parts of an action that do not use the network.\<close>

definition io_offline :: "('p, 'a) io \<Rightarrow> bool" where
  "io_offline m = (\<forall>w. rwNet (fst (m w)) = rwNet w)"

named_theorems offline_rules

lemma offline_simple [offline_rules]:
  "io_offline (io_return x)" "io_offline (io_fail e)" "io_offline (io_tick f)"
  by (simp_all add: io_offline_def io_return_def io_fail_def io_tick_def)

lemma offline_bind [offline_rules]:
  assumes "io_offline m" "\<And>x. io_offline (f x)"
  shows "io_offline (io_bind m f)"
  unfolding io_offline_def
proof
  fix w
  obtain w1 r where m: "m w = (w1, r)" by force
  have "rwNet w1 = rwNet w" using assms(1) m unfolding io_offline_def by (metis fst_conv)
  then show "rwNet (fst (io_bind m f w)) = rwNet w"
    using assms(2) m by (cases r) (simp_all add: io_bind_def io_offline_def)
qed

lemma offline_try [offline_rules]: "io_offline m \<Longrightarrow> io_offline (io_try m)"
  by (simp add: io_offline_def io_try_def split_beta)

lemma offline_store [offline_rules]: "io_offline (io_store lib what f)"
  unfolding io_store_def
proof (rule offline_bind[OF offline_simple(3)])
  fix fault
  show "io_offline (\<lambda>w. case f fault (rwDb w) of
      (db, Inl e) \<Rightarrow> (w\<lparr>rwDb := db\<rparr>, Inl (CallError what)) | (db, Inr x) \<Rightarrow> (w\<lparr>rwDb := db\<rparr>, Inr x))"
    by (auto simp: io_offline_def split: prod.split sum.split)
qed

lemma offline_update [offline_rules]: "io_offline (UpdateTenantRuntimeStatus lib u)"
  unfolding UpdateTenantRuntimeStatus_def by (rule offline_rules)

lemma offline_record [offline_rules]: "io_offline (recordRuntimeObservation lib t svc u url h d at)"
  unfolding recordRuntimeObservation_def by (auto intro!: offline_rules)

lemma offline_settle [offline_rules]: "io_offline (settle lib t svc u url now h err d)"
  unfolding settle_def by (auto intro!: offline_rules)

text \<open>
  The evidence for a ready row: the last thing that was done over the network is a probe of the tenant's health URL,
  it was answered with a status 2xx, and the URL is that of the row.
\<close>

definition probed :: "'p runtime_lib \<Rightarrow> tenant_row \<Rightarrow> 'p world \<Rightarrow> bool" where
  "probed lib t w =
     (\<exists>svc u url p a resp. probe_url lib t svc u url = Inr a \<and> rlProbe lib p a = (rwNet w, Inr resp)
        \<and> status_2xx (prStatus resp)
        \<and> (url \<noteq> [] \<longrightarrow> (\<forall>x \<in> set (rdTenants (rwDb w)). tnID x = tnID t \<longrightarrow> tnUpstream x = Some url)))"

definition io_ready :: "'p runtime_lib \<Rightarrow> tenant_row \<Rightarrow> ('p, 'a) io \<Rightarrow> bool" where
  "io_ready lib t m =
     (\<forall>w. row_frame True (tnID t) (rwDb w) (rwDb (fst (m w))) \<or> probed lib t (fst (m w)))"

lemma io_ready_quiet: "io_rel (row_frame True (tnID t)) m \<Longrightarrow> io_ready lib t m"
  by (simp add: io_rel_def io_ready_def)

lemma io_ready_bind:
  assumes "io_rel (row_frame True (tnID t)) m" "\<And>x. io_ready lib t (f x)"
  shows "io_ready lib t (io_bind m f)"
  unfolding io_ready_def
proof
  fix w
  obtain w1 r where m: "m w = (w1, r)" by force
  have one: "row_frame True (tnID t) (rwDb w) (rwDb w1)" using assms(1) m unfolding io_rel_def by (metis fst_conv)
  show "row_frame True (tnID t) (rwDb w) (rwDb (fst (io_bind m f w))) \<or> probed lib t (fst (io_bind m f w))"
  proof (cases r)
    case (Inl e)
    then show ?thesis using one m by (simp add: io_bind_def)
  next
    case (Inr x)
    have "row_frame True (tnID t) (rwDb w1) (rwDb (fst (f x w1))) \<or> probed lib t (fst (f x w1))"
      using assms(2) by (simp add: io_ready_def)
    then show ?thesis using row_frame_trans[OF one] Inr m by (auto simp: io_bind_def)
  qed
qed

lemma io_ready_map: "io_ready lib t m \<Longrightarrow> io_ready lib t (io_bind m (\<lambda>r. io_return (g r)))"
  by (simp add: io_ready_def io_bind_def io_return_def split_beta split: sum.split)

lemma update_outcome:
  "fst (UpdateTenantRuntimeStatus lib u w) = w\<lparr>rwTick := Suc (rwTick w)\<rparr>
   \<or> fst (UpdateTenantRuntimeStatus lib u w)
      = w\<lparr>rwTick := Suc (rwTick w), rwDb := on_tenants (update_tenant (upTenant u) (status_columns u)) (rwDb w)\<rparr>"
  by (simp add: UpdateTenantRuntimeStatus_def io_store_def io_bind_def io_tick_def store_exec_def update_status_columns
      split: option.split)

lemma io_bind_run: "m w = (w1, Inr x) \<Longrightarrow> io_bind m f w = f x w1"
  by (simp add: io_bind_def)

lemma fst_bind_return [simp]: "fst (io_bind m (\<lambda>r. io_return (g r)) w) = fst (m w)"
  by (simp add: io_bind_def io_return_def split_beta split: sum.split)

lemma settle_healthy:
  fixes w :: "'p world"
  shows "row_frame True (tnID t) (rwDb w) (rwDb (fst (settle lib t svc u url now True err d w)))
   \<or> (url \<noteq> [] \<longrightarrow> (\<forall>x \<in> set (rdTenants (rwDb (fst (settle lib t svc u url now True err d w)))).
        tnID x = tnID t \<longrightarrow> tnUpstream x = Some url))"
proof -
  let ?rec = "io_try (recordRuntimeObservation lib t svc u url True d now)"
  let ?up = "(state_update t RuntimeReady)\<lparr>upResource := u, upUpstream := url, upHealthyAt := Some (rlFormat lib now),
     upLastError := err\<rparr>"
  obtain w1 r where m: "?rec w = (w1, Inr r)" by (cases "?rec w") (auto simp: io_try_def split_beta)
  have "io_rel (row_frame True (tnID t)) ?rec" by (intro io_rules)
  then have one: "row_frame True (tnID t) (rwDb w) (rwDb w1)" using m unfolding io_rel_def by (metis fst_conv)
  have s: "fst (settle lib t svc u url now True err d w) = fst (UpdateTenantRuntimeStatus lib ?up w1)"
    by (simp add: settle_def io_bind_run[of ?rec w w1 r, OF m])
  have t: "tnUpstream (status_columns ?up x) = Some url" if "url \<noteq> []" for x
    using that by (simp add: status_columns_def state_update_def keep_or_set_def)
  from update_outcome[of lib ?up w1] show ?thesis
  proof
    assume "fst (UpdateTenantRuntimeStatus lib ?up w1) = w1\<lparr>rwTick := Suc (rwTick w1)\<rparr>"
    then show ?thesis unfolding s using one by simp
  next
    assume "fst (UpdateTenantRuntimeStatus lib ?up w1)
      = w1\<lparr>rwTick := Suc (rwTick w1), rwDb := on_tenants (update_tenant (upTenant ?up) (status_columns ?up)) (rwDb w1)\<rparr>"
    then show ?thesis unfolding s
      using t keeps_status_columns[of ?up] by (auto simp: update_tenant_def state_update_def keeps_row_def)
  qed
qed

lemma io_ready_observe:
  fixes lib :: "'p runtime_lib"
  shows "io_ready lib t (observeWithURL lib t svc u url)"
  unfolding io_ready_def
proof
  fix w :: "'p world"
  let ?net = "\<lambda>p. case probeTenantHealth lib p t svc u url of (p', r) \<Rightarrow> (p', Inr r)"
  obtain p' ans where a: "probeTenantHealth lib (rwNet w) t svc u url = (p', ans)" by force
  let ?w1 = "w\<lparr>rwNet := p', rwTick := Suc (rwTick w)\<rparr>"
  have o: "observeWithURL lib t svc u url w
      = (case ans of Inl (e, detail) \<Rightarrow> settle lib t svc u url (rlNow lib (rwTick w)) False (error_text e) detail
         | Inr (healthy, detail) \<Rightarrow>
             settle lib t svc u url (rlNow lib (rwTick w)) healthy (if healthy then [] else detail) detail) ?w1"
    using a by (simp add: observeWithURL_def io_bind_def io_net_def io_tick_def)
  show "row_frame True (tnID t) (rwDb w) (rwDb (fst (observeWithURL lib t svc u url w)))
      \<or> probed lib t (fst (observeWithURL lib t svc u url w))"
  proof (cases "\<exists>d. ans = Inr (True, d)")
    case True
    then obtain d where d: "ans = Inr (True, d)" ..
    let ?s = "settle lib t svc u url (rlNow lib (rwTick w)) True [] d"
    obtain b resp where b: "probe_url lib t svc u url = Inr b" "rlProbe lib (rwNet w) b = (p', Inr resp)"
      "status_2xx (prStatus resp)"
      using a d by (auto simp: probeTenantHealth_def split: sum.splits prod.splits if_splits)
    have n: "rwNet (fst (?s ?w1)) = p'" using offline_settle[of lib t svc u url _ True] by (simp add: io_offline_def)
    from settle_healthy[of t ?w1 lib svc u url "rlNow lib (rwTick w)" "[]" d] show ?thesis
    proof
      assume "row_frame True (tnID t) (rwDb ?w1) (rwDb (fst (?s ?w1)))"
      then show ?thesis unfolding o d by simp
    next
      assume x: "url \<noteq> [] \<longrightarrow> (\<forall>x \<in> set (rdTenants (rwDb (fst (?s ?w1)))). tnID x = tnID t \<longrightarrow> tnUpstream x = Some url)"
      have "probed lib t (fst (?s ?w1))" unfolding probed_def n
        by (intro exI[of _ svc] exI[of _ u] exI[of _ url] exI[of _ "rwNet w"] exI[of _ b] exI[of _ resp] conjI b x)
      then show ?thesis unfolding o d by simp
    qed
  next
    case False
    have "io_rel (row_frame True (tnID t)) (settle lib t svc u url (rlNow lib (rwTick w)) False err d)" for err d
      by (intro io_rules) simp
    then have "row_frame True (tnID t) (rwDb ?w1) (rwDb (fst (settle lib t svc u url (rlNow lib (rwTick w)) False err d ?w1)))" for err d
      unfolding io_rel_def by blast
    then show ?thesis unfolding o using False by (auto split: sum.split)
  qed
qed

named_theorems ready_rules

lemma ready_quiet [ready_rules]:
  "io_ready lib t (io_fail e)" "io_ready lib t (io_return x)" "io_ready lib t (disable lib' t)"
  "io_ready lib t (runtime_delete lib' t)"
  by (auto intro!: io_ready_quiet io_rules)

lemma ready_bind [ready_rules]:
  "io_rel (row_frame True (tnID t)) m \<Longrightarrow> (\<And>x. io_ready lib t (f x)) \<Longrightarrow> io_ready lib t (io_bind m f)"
  by (rule io_ready_bind)

lemma ready_observe [ready_rules]: "io_ready lib t (observeWithURL lib t svc u url)" "io_ready lib t (observe lib t svc)"
  unfolding observe_def by (rule io_ready_observe)+

lemma ready_ensure [ready_rules]: "io_ready lib t (ensure lib t svc)"
  unfolding ensure_split
  by (rule ready_bind) (auto intro!: io_rules io_ready_map ready_rules)

lemma ready_enable [ready_rules]: "io_ready lib t (enable lib t svc)"
  unfolding enable_def
  by (auto intro!: ready_rules io_rules simp: state_update_def split: sum.split)

lemma ready_static [ready_rules]: "io_ready lib t (applyStaticUpstream lib t plan svc)"
  unfolding applyStaticUpstream_def
  by (auto intro!: ready_rules io_rules simp: state_update_def)

lemma ready_Apply: "io_ready lib t (runtime_Apply lib t plan)"
  unfolding runtime_Apply_def apply_plan_def
  by (auto intro!: ready_rules io_rules split: reconcile_action.split)

text \<open>
  An action that succeeds leaves the row ready only if it has just been probed, whatever the row was before.
\<close>

definition io_shows :: "'p runtime_lib \<Rightarrow> tenant_row \<Rightarrow> ('p, 'a) io \<Rightarrow> bool" where
  "io_shows lib t m =
     (\<forall>w w' r. m w = (w', Inr r) \<longrightarrow>
        (\<forall>x \<in> set (rdTenants (rwDb w')). tnID x = tnID t \<and> tnRuntime x = RuntimeReady \<longrightarrow> probed lib t w'))"

named_theorems shows_rules

lemma shows_fail [shows_rules]: "io_shows lib t (io_fail e)"
  by (simp add: io_shows_def io_fail_def)

lemma shows_bind [shows_rules]: "(\<And>x. io_shows lib t (f x)) \<Longrightarrow> io_shows lib t (io_bind m f)"
  unfolding io_shows_def io_bind_def by (auto split: prod.splits sum.splits)

lemma shows_map [shows_rules]: "io_shows lib t m \<Longrightarrow> io_shows lib t (io_bind m (\<lambda>r. io_return (g r)))"
  unfolding io_shows_def io_bind_def io_return_def by (auto split: prod.splits sum.splits)

lemma update_columns:
  assumes "UpdateTenantRuntimeStatus lib u w = (w', Inr ())" "x \<in> set (rdTenants (rwDb w'))" "tnID x = upTenant u"
  shows "tnRuntime x = upState u \<and> (\<not> upClear u \<and> upUpstream u \<noteq> [] \<longrightarrow> tnUpstream x = Some (upUpstream u))"
  using assms keeps_status_columns[of u]
  by (auto simp: UpdateTenantRuntimeStatus_def io_store_def io_bind_def io_tick_def store_exec_def update_status_columns
      update_tenant_def status_columns_def keeps_row_def keep_or_set_def split: option.splits)

lemma shows_update [shows_rules]:
  assumes "upTenant u = tnID t" "upState u \<noteq> RuntimeReady"
  shows "io_shows lib t (io_bind (UpdateTenantRuntimeStatus lib u) (\<lambda>_. io_return r))"
  unfolding io_shows_def io_bind_def io_return_def
  using assms update_columns[of lib u] by (auto split: prod.splits sum.splits)

lemma shows_settle [shows_rules]: "io_shows lib t (settle lib t svc u url now False err d)"
  unfolding settle_def by (rule shows_bind, rule shows_update) (simp_all add: state_update_def)

lemma settle_columns:
  assumes "settle lib t svc u url now h err d w = (w', Inr r)" "x \<in> set (rdTenants (rwDb w'))" "tnID x = tnID t" "url \<noteq> []"
  shows "tnUpstream x = Some url"
proof -
  let ?up = "(state_update t (if h then RuntimeReady else RuntimeDegraded))\<lparr>upResource := u, upUpstream := url,
     upHealthyAt := (if h then Some (rlFormat lib now) else None), upLastError := err\<rparr>"
  obtain v where up: "UpdateTenantRuntimeStatus lib ?up v = (w', Inr ())"
    using assms(1) by (auto simp: settle_def io_bind_def io_return_def split: prod.splits sum.splits)
  show ?thesis using update_columns[OF up assms(2)] assms(3,4) by (simp add: state_update_def)
qed

lemma shows_observe [shows_rules]: "io_shows lib t (observeWithURL lib t svc u url)"
  unfolding io_shows_def
proof (intro allI impI ballI)
  fix w w' r x
  assume o: "observeWithURL lib t svc u url w = (w', Inr r)" and x: "x \<in> set (rdTenants (rwDb w'))"
    and c: "tnID x = tnID t \<and> tnRuntime x = RuntimeReady"
  obtain p' ans where a: "probeTenantHealth lib (rwNet w) t svc u url = (p', ans)" by force
  let ?w1 = "w\<lparr>rwNet := p', rwTick := Suc (rwTick w)\<rparr>"
  have s: "(case ans of Inl (e, detail) \<Rightarrow> settle lib t svc u url (rlNow lib (rwTick w)) False (error_text e) detail
         | Inr (healthy, detail) \<Rightarrow>
             settle lib t svc u url (rlNow lib (rwTick w)) healthy (if healthy then [] else detail) detail) ?w1 = (w', Inr r)"
    using a o by (simp add: observeWithURL_def io_bind_def io_net_def io_tick_def)
  have bad: "\<not> settle lib t svc u url now False err d ?w1 = (w', Inr r)" if "\<not> probed lib t w'" for now err d
    using shows_settle[of lib t svc u url now err d] x c that unfolding io_shows_def by blast
  show "probed lib t w'"
  proof (cases "\<exists>d. ans = Inr (True, d)")
    case True
    then obtain d where d: "ans = Inr (True, d)" ..
    obtain b resp where b: "probe_url lib t svc u url = Inr b" "rlProbe lib (rwNet w) b = (p', Inr resp)"
      "status_2xx (prStatus resp)"
      using a d by (auto simp: probeTenantHealth_def split: sum.splits prod.splits if_splits)
    have set: "settle lib t svc u url (rlNow lib (rwTick w)) True [] d ?w1 = (w', Inr r)" using s d by simp
    have n: "rwNet w' = p'"
      using offline_settle[of lib t svc u url "rlNow lib (rwTick w)" True "[]" d, unfolded io_offline_def, rule_format, of ?w1]
      unfolding set by simp
    have up: "url \<noteq> [] \<longrightarrow> (\<forall>y \<in> set (rdTenants (rwDb w')). tnID y = tnID t \<longrightarrow> tnUpstream y = Some url)"
      using settle_columns[OF set] by blast
    show ?thesis unfolding probed_def n
      by (intro exI[of _ svc] exI[of _ u] exI[of _ url] exI[of _ "rwNet w"] exI[of _ b] exI[of _ resp] conjI b up)
  next
    case False
    then show ?thesis using s bad by (cases ans) (auto split: prod.splits bool.splits)
  qed
qed

lemma shows_ensure [shows_rules]: "io_shows lib t (ensure lib t svc)"
  unfolding ensure_split by (rule shows_bind) (auto intro!: shows_map shows_observe)

lemma shows_enable [shows_rules]: "io_shows lib t (enable lib t svc)"
  unfolding enable_def observe_def by (auto intro!: shows_rules split: sum.split)

lemma shows_disable [shows_rules]: "io_shows lib t (disable lib t)"
  unfolding disable_def by (rule shows_bind, rule shows_update) (simp_all add: state_update_def)

lemma shows_static:
  assumes "plAction plan \<noteq> ActionDelete"
  shows "io_shows lib t (applyStaticUpstream lib t plan svc)"
proof -
  have "io_shows lib t (io_bind (UpdateTenantRuntimeStatus lib (state_update t RuntimeDisabled)) (\<lambda>_. io_return disabled_result))"
    by (rule shows_update) (simp_all add: state_update_def)
  then show ?thesis unfolding applyStaticUpstream_def using assms by (auto intro!: shows_fail shows_observe)
qed

text \<open>Results that do not ask for the deletion of the row.\<close>

definition io_keeps :: "('p, apply_result) io \<Rightarrow> bool" where
  "io_keeps m = (\<forall>w w' r. m w = (w', Inr r) \<longrightarrow> \<not> arDeleteCompleted r)"

named_theorems keeps_rules

lemma keeps_simple [keeps_rules]:
  "\<not> arDeleteCompleted r \<Longrightarrow> io_keeps (io_return r)" "io_keeps (io_fail e)"
  by (simp_all add: io_keeps_def io_return_def io_fail_def)

lemma keeps_bind [keeps_rules]: "(\<And>x. io_keeps (f x)) \<Longrightarrow> io_keeps (io_bind m f)"
  by (auto simp: io_keeps_def io_bind_def split: prod.splits sum.splits)

lemma keeps_settle [keeps_rules]: "io_keeps (settle lib t svc u url now h err d)"
  unfolding settle_def by (auto intro!: keeps_rules simp: empty_result_def)

lemma keeps_observe [keeps_rules]: "io_keeps (observeWithURL lib t svc u url)" "io_keeps (observe lib t svc)"
  unfolding observe_def observeWithURL_def by (auto intro!: keeps_rules split: sum.split prod.split)

lemma keeps_map [keeps_rules]:
  assumes "io_keeps m" "\<And>r. arDeleteCompleted (g r) = arDeleteCompleted r"
  shows "io_keeps (io_bind m (\<lambda>r. io_return (g r)))"
  using assms by (auto simp: io_keeps_def io_bind_def io_return_def split: prod.splits sum.splits)

lemma keeps_ensure [keeps_rules]: "io_keeps (ensure lib t svc)"
  unfolding ensure_split
  by (rule keeps_bind) (auto intro!: keeps_map keeps_observe)

lemma keeps_others [keeps_rules]: "io_keeps (enable lib t svc)" "io_keeps (disable lib t)"
  unfolding enable_def disable_def
  by (auto intro!: keeps_rules simp: disabled_result_def empty_result_def split: sum.split)

lemma keeps_static: "plAction plan \<noteq> ActionDelete \<Longrightarrow> io_keeps (applyStaticUpstream lib t plan svc)"
  unfolding applyStaticUpstream_def
  by (auto intro!: keeps_rules simp: disabled_result_def empty_result_def)

text \<open>
  The deletion of a row is asked for only by a plan to delete, for a static upstream, for a tenant without a
  service, or when the last answer of the provider was that the service is gone.
\<close>

definition gone :: "'p runtime_lib \<Rightarrow> tenant_row \<Rightarrow> 'p world \<Rightarrow> bool" where
  "gone lib t w =
     (tenantRuntimeModeStaticRow t \<or> tn_resource t = []
      \<or> (\<exists>p e. (coGet (rlOps lib) p (tn_resource t) = (rwNet w, Inl e)
            \<or> coDelete (rlOps lib) p (tn_resource t) delete_everything = (rwNet w, Inl e)) \<and> IsHTTPStatus e 404))"

lemma io_try_net: "io_try (io_net f) w = (w\<lparr>rwNet := fst (f (rwNet w))\<rparr>, Inr (snd (f (rwNet w))))"
  by (simp add: io_try_def io_net_def split_beta)

lemma delete_gone:
  assumes "runtime_delete lib t w = (w', Inr r)" "arDeleteCompleted r"
  shows "gone lib t w'"
proof (cases "tn_resource t = []")
  case False
  let ?u = "tn_resource t"
  obtain p1 a where g: "coGet (rlOps lib) (rwNet w) ?u = (p1, a)" by force
  show ?thesis
  proof (cases a)
    case (Inl e)
    then have "IsHTTPStatus e 404 \<and> rwNet w' = p1"
      using assms(1) False g
      by (auto simp: runtime_delete_def io_bind_def io_try_net io_return_def io_fail_def split: if_splits)
    then show ?thesis using g Inl unfolding gone_def by blast
  next
    case (Inr s)
    obtain p2 b where d: "coDelete (rlOps lib) p1 ?u delete_everything = (p2, b)" by force
    have keep: "\<not> arDeleteCompleted (deleting_result t x y)" for x y by (simp add: deleting_result_def empty_result_def)
    have "\<exists>e. b = Inl e \<and> IsHTTPStatus e 404 \<and> rwNet w' = p2"
      using assms False g Inr d keep
      by (auto simp: runtime_delete_def Let_def io_bind_def io_try_net io_return_def io_fail_def io_tick_def
          split: if_splits sum.splits prod.splits)
    then show ?thesis using d unfolding gone_def by blast
  qed
qed (simp add: gone_def)

lemma keeps_plan:
  assumes "plAction plan \<noteq> ActionDelete"
  shows "io_keeps (apply_plan lib t plan svc)"
  unfolding apply_plan_def using assms
  by (auto intro!: keeps_rules keeps_static simp: empty_result_def split: reconcile_action.split)

lemma Apply_deleted:
  assumes "runtime_Apply lib t plan w = (w', Inr r)" "arDeleteCompleted r"
  shows "plAction plan = ActionDelete \<and> gone lib t w'"
proof (cases "tenantRuntimeModeStaticRow t \<and> plAction plan = ActionDelete")
  case True
  then show ?thesis by (simp add: gone_def)
next
  case False
  obtain svc w1 where rest: "apply_plan lib t plan svc w1 = (w', Inr r)"
    using assms(1) False by (auto simp: runtime_Apply_def io_bind_def split: prod.splits sum.splits)
  have d: "plAction plan = ActionDelete" using keeps_plan[of plan lib t svc] rest assms(2) unfolding io_keeps_def by blast
  then have "runtime_delete lib t w1 = (w', Inr r)" using rest False by (simp add: apply_plan_def)
  then show ?thesis using d delete_gone assms(2) by blast
qed

end
