(* ===== verification/Reconciler.thy ===== *)
theory Reconciler
  imports Runtime
begin

text \<open>
  The reconciler (\<^verbatim>\<open>internal/controlplane/reconciler.go\<close>): one cycle plans an action for every tenant, has the
  runtime carry it out, and records what happened.  Both runtimes of the program provide the interface \<^verbatim>\<open>runtime_client\<close>.
\<close>

section \<open>Plans\<close>

definition PlanTenantAction :: "tenant_row \<Rightarrow> tenant_plan" where
  "PlanTenantAction t =
     (case tnDesired t of
        DesiredEnabled \<Rightarrow>
          (case tnRuntime t of
             RuntimeReady \<Rightarrow> \<lparr>plAction = ActionNoop, plReason = ''tenant already ready''\<rparr>
           | RuntimeDisabled \<Rightarrow> \<lparr>plAction = ActionEnable, plReason = ''tenant is disabled but desired state is enabled''\<rparr>
           | RuntimeDegraded \<Rightarrow> \<lparr>plAction = ActionEnsure, plReason = ''tenant is degraded and requires repair''\<rparr>
           | RuntimeDeleting \<Rightarrow>
               \<lparr>plAction = ActionNoop, plReason = ''tenant delete is still in progress before re-enable can occur''\<rparr>
           | _ \<Rightarrow> \<lparr>plAction = ActionEnsure, plReason = ''tenant must be provisioned or observed until ready''\<rparr>)
      | DesiredDisabled \<Rightarrow>
          if tnRuntime t = RuntimeDisabled then \<lparr>plAction = ActionNoop, plReason = ''tenant already disabled''\<rparr>
          else \<lparr>plAction = ActionDisable, plReason = ''tenant should be disabled by control-plane intent''\<rparr>
      | DesiredDeleted \<Rightarrow>
          if tnRuntime t = RuntimeDeleting
          then \<lparr>plAction = ActionDelete, plReason = ''tenant deletion must be confirmed and finalized''\<rparr>
          else \<lparr>plAction = ActionDelete, plReason = ''tenant should be deleted by control-plane intent''\<rparr>
      | DesiredOther _ \<Rightarrow> \<lparr>plAction = ActionNoop, plReason = ''tenant desired state is unknown''\<rparr>)"

lemma plan_delete_iff: "plAction (PlanTenantAction t) = ActionDelete \<longleftrightarrow> tnDesired t = DesiredDeleted"
  by (simp add: PlanTenantAction_def split: tenant_desired_state.split tenant_runtime_state.split)

lemma shows_Apply:
  assumes "tnDesired t = DesiredEnabled" "tnRuntime t \<noteq> RuntimeDeleting"
  shows "io_shows lib t (runtime_Apply lib t (PlanTenantAction t))"
proof -
  have "io_shows lib t (apply_plan lib t (PlanTenantAction t) svc)" for svc
    unfolding apply_plan_def observe_def using assms plan_delete_iff[of t]
    by (auto intro!: shows_rules shows_static simp: PlanTenantAction_def split: tenant_runtime_state.split)
  then show ?thesis
    using plan_delete_iff[of t] assms(1) by (simp add: runtime_Apply_def shows_bind)
qed

definition preservedTenantError :: "tenant_row \<Rightarrow> tenant_plan \<Rightarrow> string" where
  "preservedTenantError t plan =
     (if plAction plan \<noteq> ActionNoop \<or> tnRuntime t \<in> {RuntimeDegraded, RuntimeProvisioning, RuntimeDeleting}
      then clamp_some (tnLastError t) [] else [])"

definition action_text :: "reconcile_action \<Rightarrow> string" where
  "action_text a =
     (case a of ActionNoop \<Rightarrow> ''noop'' | ActionEnsure \<Rightarrow> ''ensure_present'' | ActionEnable \<Rightarrow> ''enable''
      | ActionDisable \<Rightarrow> ''disable'' | ActionDelete \<Rightarrow> ''delete'' | ActionOther s \<Rightarrow> s)"

section \<open>Runs\<close>

record reconcile_run_input =
  riTenant :: uuid
  riDesired :: tenant_desired_state
  riObserved :: tenant_runtime_state
  riAction :: string
  riStatus :: string
  riDetails :: "(string \<times> json) list"
  riStartedAt :: time
  riFinishedAt :: time

text \<open>Maps are marshalled with their names in order.\<close>

definition run_row_of :: "'p runtime_lib \<Rightarrow> uuid \<Rightarrow> reconcile_run_input \<Rightarrow> run_row" where
  "run_row_of lib i inp =
     \<lparr>wrID = i, wrTenant = riTenant inp, wrDesired = riDesired inp,
      wrObserved = (if runtime_state_text (riObserved inp) = [] then None else Some (riObserved inp)),
      wrAction = riAction inp, wrStatus = riStatus inp, wrDetails = rlJson lib (JObj (sort_key fst (riDetails inp))),
      wrStartedAt = rlFormat lib (riStartedAt inp), wrFinishedAt = sqlNullTime (rlFormat lib) (riFinishedAt inp)\<rparr>"

definition RecordReconcileRun :: "'p runtime_lib \<Rightarrow> reconcile_run_input \<Rightarrow> ('p, unit) io" where
  "RecordReconcileRun lib inp =
     io_bind (io_tick (rlNew lib)) (\<lambda>i.
       io_store lib ''insert reconcile run''
         (store_exec (\<lambda>db. q_InsertReconcileRun (rlJsonOk lib) db (run_row_of lib i inp))))"

section \<open>Cycles\<close>

record reconcile_summary =
  smScanned :: nat
  smApplied :: nat
  smNoop :: nat
  smDeferred :: nat
  smFailures :: nat
  smLastRunAt :: time

definition empty_summary :: reconcile_summary where
  "empty_summary = \<lparr>smScanned = 0, smApplied = 0, smNoop = 0, smDeferred = 0, smFailures = 0, smLastRunAt = 0\<rparr>"

text \<open>\<^verbatim>\<open>rcCheck\<close> is the error of the context or of \<^verbatim>\<open>beforeTenant\<close>, if there is one.\<close>

record 'p reconciler =
  rcLib :: "'p runtime_lib"
  rcApply :: "tenant_row \<Rightarrow> tenant_plan \<Rightarrow> ('p, apply_result) io"
  rcCheck :: "nat \<Rightarrow> call_error option"

definition checkBeforeTenant :: "'p reconciler \<Rightarrow> ('p, unit) io" where
  "checkBeforeTenant rc =
     io_bind (io_tick (rcCheck rc)) (\<lambda>r. case r of None \<Rightarrow> io_return () | Some e \<Rightarrow> io_fail e)"

definition attempt :: "'p reconciler \<Rightarrow> tenant_row \<Rightarrow> ('p, time \<times> (call_error, apply_result) result \<times> time) io" where
  "attempt rc t =
     io_bind (checkBeforeTenant rc) (\<lambda>_.
     io_bind (io_tick (rlNow (rcLib rc))) (\<lambda>startedAt.
     io_bind (io_try (rcApply rc t (PlanTenantAction t))) (\<lambda>r.
     io_bind (io_tick (rlNow (rcLib rc))) (\<lambda>finishedAt.
     io_bind (checkBeforeTenant rc) (\<lambda>_. io_return (startedAt, r, finishedAt))))))"

definition result_of :: "(call_error, apply_result) result \<Rightarrow> apply_result" where
  "result_of r = (case r of Inl _ \<Rightarrow> empty_result | Inr x \<Rightarrow> x)"

definition attempt_status :: "(call_error, apply_result) result \<Rightarrow> string" where
  "attempt_status r =
     (case r of Inl _ \<Rightarrow> ''failed'' | Inr x \<Rightarrow> if arStatus x = [] then ''deferred'' else arStatus x)"

definition attempt_details :: "tenant_plan \<Rightarrow> (call_error, apply_result) result \<Rightarrow> (string \<times> json) list" where
  "attempt_details plan r =
     (let d0 = (if plReason plan = [] then [] else [(''reason'', JStr (plReason plan))]);
          d1 = foldl (\<lambda>m (k, v). put k v m) d0 (arDetails (result_of r)) in
      case r of Inl e \<Rightarrow> put ''error'' (JStr (error_text e)) d1 | Inr _ \<Rightarrow> d1)"

definition attempt_error :: "tenant_row \<Rightarrow> (call_error, apply_result) result \<Rightarrow> string" where
  "attempt_error t r =
     (case r of
        Inl e \<Rightarrow> error_text e
      | Inr x \<Rightarrow> clamp_some (arLastError x) (preservedTenantError t (PlanTenantAction t)))"

definition count_attempt :: "(call_error, apply_result) result \<Rightarrow> reconcile_summary \<Rightarrow> reconcile_summary" where
  "count_attempt r s =
     (case r of
        Inl _ \<Rightarrow> s\<lparr>smFailures := Suc (smFailures s)\<rparr>
      | Inr _ \<Rightarrow>
          if attempt_status r = ''noop'' then s\<lparr>smNoop := Suc (smNoop s)\<rparr>
          else if attempt_status r = ''deferred'' then s\<lparr>smDeferred := Suc (smDeferred s)\<rparr>
          else s\<lparr>smApplied := Suc (smApplied s)\<rparr>)"

definition record_attempt :: "'p reconciler \<Rightarrow> tenant_row \<Rightarrow> time \<Rightarrow> (call_error, apply_result) result \<Rightarrow> time
    \<Rightarrow> ('p, unit) io" where
  "record_attempt rc t startedAt r finishedAt =
     io_bind (RecordReconcileRun (rcLib rc)
         \<lparr>riTenant = tnID t, riDesired = tnDesired t,
          riObserved = clamp_some (arObserved (result_of r)) (tnRuntime t),
          riAction = action_text (plAction (PlanTenantAction t)), riStatus = attempt_status r,
          riDetails = attempt_details (PlanTenantAction t) r, riStartedAt = startedAt, riFinishedAt = finishedAt\<rparr>) (\<lambda>_.
       if arDeleteCompleted (result_of r) then DeleteTenantInstance (rcLib rc) (tnID t)
       else if arSkipReconcileMark (result_of r) then io_return ()
       else MarkTenantReconciled (rcLib rc) (tnID t) finishedAt (attempt_error t r))"

text \<open>The loop of \<^verbatim>\<open>RunOnce\<close>: the summary and the error are returned together.\<close>

fun run_tenants :: "'p reconciler \<Rightarrow> tenant_row list \<Rightarrow> reconcile_summary \<Rightarrow> 'p world
    \<Rightarrow> 'p world \<times> reconcile_summary \<times> call_error option" where
  "run_tenants rc [] s w = (w, s, None)"
| "run_tenants rc (t # ts) s w =
     (case attempt rc t w of
        (w1, Inl e) \<Rightarrow> (w1, s, Some e)
      | (w1, Inr (startedAt, r, finishedAt)) \<Rightarrow>
         (case record_attempt rc t startedAt r finishedAt w1 of
            (w2, Inl e) \<Rightarrow> (w2, empty_summary, Some e)
          | (w2, Inr _) \<Rightarrow> run_tenants rc ts (count_attempt r s) w2))"

definition RunOnce :: "'p reconciler \<Rightarrow> 'p world \<Rightarrow> 'p world \<times> reconcile_summary \<times> call_error option" where
  "RunOnce rc w =
     (case ListTenantInstances (rcLib rc) w of
        (w1, Inl e) \<Rightarrow> (w1, empty_summary, Some e)
      | (w1, Inr ts) \<Rightarrow>
         (case io_tick (rlNow (rcLib rc)) w1 of
            (w2, Inl e) \<Rightarrow> (w2, empty_summary, Some e)
          | (w2, Inr now) \<Rightarrow>
              run_tenants rc ts (empty_summary\<lparr>smScanned := length ts, smLastRunAt := now\<rparr>) w2))"

definition noop_Apply :: "tenant_row \<Rightarrow> tenant_plan \<Rightarrow> ('p, apply_result) io" where
  "noop_Apply t plan =
     io_return (if plAction plan = ActionNoop
       then empty_result\<lparr>arStatus := ''noop'', arObserved := Some (tnRuntime t),
         arDetails := [(''runtime_state'', JStr (runtime_state_text (tnRuntime t)))]\<rparr>
       else empty_result\<lparr>arStatus := ''deferred'', arObserved := Some (tnRuntime t),
         arDetails := [(''runtime_clients_configured'', JBool False)]\<rparr>)"

section \<open>What a cycle may do\<close>

definition same_identity :: "tenant_row \<Rightarrow> tenant_row \<Rightarrow> bool" where
  "same_identity x y =
     (tnID y = tnID x \<and> tnSubject y = tnSubject x \<and> tnService y = tnService x \<and> tnKey y = tnKey x
      \<and> tnName y = tnName x \<and> tnDNS y = tnDNS x \<and> tnDesired y = tnDesired x \<and> tnMetadata y = tnMetadata x)"

text \<open>The invariant of a cycle, and its rows: none is new, and only rows in \<^verbatim>\<open>D\<close> may go.\<close>

definition cycle_ok :: "runtime_db \<Rightarrow> bool" where
  "cycle_ok db = (control_ok (rdControl db) \<and> runtime_refs db)"

definition rows_kept :: "uuid set \<Rightarrow> runtime_db \<Rightarrow> runtime_db \<Rightarrow> bool" where
  "rows_kept D db db' =
     ((\<forall>x \<in> set (rdTenants db). tnID x \<notin> D \<longrightarrow> (\<exists>y \<in> set (rdTenants db'). same_identity x y))
      \<and> (\<forall>y \<in> set (rdTenants db'). \<exists>x \<in> set (rdTenants db). same_identity x y)
      \<and> cdCatalog (rdControl db') = cdCatalog (rdControl db) \<and> (cycle_ok db \<longrightarrow> cycle_ok db'))"

lemma same_identity_trans: "same_identity x y \<Longrightarrow> same_identity y z \<Longrightarrow> same_identity x z"
  by (simp add: same_identity_def)

lemma same_identity_refl [simp]: "same_identity x x"
  by (simp add: same_identity_def)

lemma same_identity_id: "same_identity x y \<Longrightarrow> tnID y = tnID x"
  by (simp add: same_identity_def)

lemma rows_kept_refl [simp]: "rows_kept D db db"
  unfolding rows_kept_def by (intro conjI ballI impI) (auto intro: same_identity_refl)

lemma rows_kept_trans:
  assumes "rows_kept D db db1" "rows_kept D db1 db2"
  shows "rows_kept D db db2"
  unfolding rows_kept_def
proof (intro conjI ballI impI)
  fix x assume x: "x \<in> set (rdTenants db)" "tnID x \<notin> D"
  obtain y where y: "y \<in> set (rdTenants db1)" "same_identity x y" using assms(1) x unfolding rows_kept_def by blast
  have "tnID y \<notin> D" using x(2) same_identity_id[OF y(2)] by simp
  then obtain z where "z \<in> set (rdTenants db2)" "same_identity y z" using assms(2) y(1) unfolding rows_kept_def by blast
  then show "\<exists>z \<in> set (rdTenants db2). same_identity x z" using same_identity_trans[OF y(2)] by blast
next
  fix z assume "z \<in> set (rdTenants db2)"
  then obtain y where y: "y \<in> set (rdTenants db1)" "same_identity y z" using assms(2) unfolding rows_kept_def by blast
  then obtain x where "x \<in> set (rdTenants db)" "same_identity x y" using assms(1) unfolding rows_kept_def by blast
  then show "\<exists>x \<in> set (rdTenants db). same_identity x z" using same_identity_trans[OF _ y(2)] by blast
qed (use assms in \<open>simp_all add: rows_kept_def\<close>)

lemma rows_kept_mono: "rows_kept D db db' \<Longrightarrow> D \<subseteq> E \<Longrightarrow> rows_kept E db db'"
  unfolding rows_kept_def by blast

lemma row_frame_kept:
  assumes "row_frame q tid db db'"
  shows "rows_kept D db db'"
proof -
  obtain f where f: "keeps_row f" "rdControl db' = (rdControl db)\<lparr>cdTenants := update_tenant tid f (rdTenants db)\<rparr>"
    using assms by (auto simp: row_frame_def)
  have g: "same_identity x (if tnID x = tid then f x else x)" for x
    using f(1) by (simp add: keeps_row_def same_identity_def)
  have t: "rdTenants db' = map (\<lambda>r. if tnID r = tid then f r else r) (rdTenants db)"
    using f(2) by (simp add: update_tenant_def)
  show ?thesis unfolding rows_kept_def
  proof (intro conjI ballI impI)
    fix x assume "x \<in> set (rdTenants db)"
    then show "\<exists>y \<in> set (rdTenants db'). same_identity x y"
      unfolding t set_map using g by blast
  next
    fix y assume "y \<in> set (rdTenants db')"
    then show "\<exists>x \<in> set (rdTenants db). same_identity x y" unfolding t set_map using g by blast
  next
    show "cdCatalog (rdControl db') = cdCatalog (rdControl db)" using f(2) by simp
  next
    assume "cycle_ok db"
    then show "cycle_ok db'"
      using row_frame_control[OF assms] row_frame_refs[OF assms] by (simp add: cycle_ok_def)
  qed
qed

lemma delete_kept: "rows_kept {tid} db (delete_tenant tid db)"
  unfolding rows_kept_def
proof (intro conjI ballI impI)
  fix x assume "x \<in> set (rdTenants db)" "tnID x \<notin> {tid}"
  then show "\<exists>y \<in> set (rdTenants (delete_tenant tid db)). same_identity x y"
    by (intro bexI[of _ x]) (simp_all add: q_DeleteTenantInstance_def)
next
  fix y assume "y \<in> set (rdTenants (delete_tenant tid db))"
  then show "\<exists>x \<in> set (rdTenants db). same_identity x y"
    by (intro bexI[of _ y]) (simp_all add: q_DeleteTenantInstance_def)
qed (use delete_tenant_control delete_tenant_refs in \<open>simp_all add: cycle_ok_def\<close>)

lemma run_kept: "q_InsertReconcileRun js db r = Inr db' \<Longrightarrow> rows_kept D db db'"
  using insert_run_result[of js db r db'] unfolding rows_kept_def cycle_ok_def
  by (auto intro: same_identity_refl)

definition io_kept :: "uuid set \<Rightarrow> ('p, 'a) io \<Rightarrow> bool" where
  "io_kept D m = (\<forall>w. rows_kept D (rwDb w) (rwDb (fst (m w))))"

lemma io_kept_bind:
  assumes "io_kept D m" "\<And>x. io_kept D (f x)"
  shows "io_kept D (io_bind m f)"
  unfolding io_kept_def
proof
  fix w
  obtain w1 r where m: "m w = (w1, r)" by force
  have one: "rows_kept D (rwDb w) (rwDb w1)" using assms(1) m unfolding io_kept_def by (metis fst_conv)
  show "rows_kept D (rwDb w) (rwDb (fst (io_bind m f w)))"
  proof (cases r)
    case (Inl e)
    then show ?thesis using one m by (simp add: io_bind_def)
  next
    case (Inr x)
    have "rows_kept D (rwDb w1) (rwDb (fst (f x w1)))" using assms(2) by (simp add: io_kept_def)
    from rows_kept_trans[OF one this] show ?thesis using Inr m by (simp add: io_bind_def)
  qed
qed

lemma io_kept_frame: "io_rel (row_frame q tid) m \<Longrightarrow> io_kept D m"
  unfolding io_rel_def io_kept_def using row_frame_kept by blast

lemma io_kept_store:
  assumes "\<And>db db'. f db = Inr db' \<Longrightarrow> rows_kept D db db'"
  shows "io_kept D (io_store lib what (store_exec f))"
proof -
  have "rows_kept D db (fst (store_exec f fault db))" for fault db
    using assms by (cases fault) (auto simp: store_exec_def split: sum.split)
  moreover have "rwDb (fst (io_store lib what (store_exec f) w)) = fst (store_exec f (rlFault lib (rwTick w)) (rwDb w))" for w
    by (auto simp: io_store_def io_bind_def io_tick_def split: prod.splits sum.splits)
  ultimately show ?thesis by (simp add: io_kept_def)
qed

lemma io_kept_simple: "io_kept D (io_return x)" "io_kept D (io_fail e)" "io_kept D (io_tick g)"
  by (simp_all add: io_kept_def io_return_def io_fail_def io_tick_def)

lemma io_kept_check: "io_kept D (checkBeforeTenant rc)"
  unfolding checkBeforeTenant_def by (rule io_kept_bind) (auto intro: io_kept_simple split: option.split)

lemma reconciled_frame:
  "row_frame True tid db (on_tenants (\<lambda>t. q_MarkTenantReconciled t tid at err) db)"
  unfolding q_MarkTenantReconciled_def by (rule row_frame_update) (simp_all add: keeps_row_def)

lemma record_kept:
  assumes "arDeleteCompleted (result_of r) \<longrightarrow> tnID t \<in> D"
  shows "io_kept D (record_attempt rc t s r f)"
  unfolding record_attempt_def
proof (rule io_kept_bind)
  show "io_kept D (RecordReconcileRun lib inp)" for lib :: "'a runtime_lib" and inp
    unfolding RecordReconcileRun_def by (intro io_kept_bind io_kept_simple io_kept_store run_kept)
next
  have d: "io_kept D (DeleteTenantInstance (rcLib rc) (tnID t))" if "tnID t \<in> D"
    unfolding DeleteTenantInstance_def
    by (rule io_kept_store) (use delete_kept[THEN rows_kept_mono] that in auto)
  have m: "io_kept D (MarkTenantReconciled (rcLib rc) (tnID t) f e)" for e
    unfolding MarkTenantReconciled_def
    by (rule io_kept_store) (use row_frame_kept[OF reconciled_frame] in auto)
  show "io_kept D (if arDeleteCompleted (result_of r) then DeleteTenantInstance (rcLib rc) (tnID t)
       else if arSkipReconcileMark (result_of r) then io_return ()
       else MarkTenantReconciled (rcLib rc) (tnID t) f (attempt_error t r))" for x :: unit
    using assms d m by (simp add: io_kept_simple)
qed

lemma listed_rows: "convertTenantInstances tp rs = Inr ts \<Longrightarrow> ts = rs"
  by (induction rs arbitrary: ts) (auto simp: result_simps split: if_splits)

text \<open>The interface that the reconciler expects of a runtime.\<close>

locale runtime_client =
  fixes act :: "tenant_row \<Rightarrow> tenant_plan \<Rightarrow> ('p, apply_result) io"
  assumes act_frame: "io_rel (row_frame False (tnID t)) (act t plan)"
    and act_deletes: "act t plan w = (w', Inr r) \<Longrightarrow> arDeleteCompleted r \<Longrightarrow> plAction plan = ActionDelete"
begin

lemma attempt_kept: "rcApply rc = act \<Longrightarrow> io_kept D (attempt rc t)"
  unfolding attempt_def
  by (intro io_kept_bind io_kept_check io_kept_simple io_kept_frame[OF io_rel_try, of False "tnID t"])
     (simp add: act_frame)

text \<open>What an attempt reports is the answer of the runtime in some world with the same catalog.\<close>

lemma attempt_ran:
  assumes "attempt rc t w = (w1, Inr (s, r, f))" "rcApply rc = act"
  shows "\<exists>v v'. act t (PlanTenantAction t) v = (v', r) \<and> cdCatalog (rdControl (rwDb v)) = cdCatalog (rdControl (rwDb w))"
  using assms
  by (auto simp: attempt_def checkBeforeTenant_def io_bind_def io_tick_def io_try_def io_return_def io_fail_def
      split: prod.splits sum.splits option.splits)

lemma run_tenants_kept:
  assumes "rcApply rc = act" "run_tenants rc ts s w = (w', s', e)"
    and "\<And>t v v' r. t \<in> set ts \<Longrightarrow> act t (PlanTenantAction t) v = (v', Inr r) \<Longrightarrow> arDeleteCompleted r
      \<Longrightarrow> cdCatalog (rdControl (rwDb v)) = cdCatalog (rdControl (rwDb w)) \<Longrightarrow> tnID t \<in> D"
  shows "rows_kept D (rwDb w) (rwDb w')"
  using assms(2,3)
proof (induction ts arbitrary: s w)
  case Nil
  then show ?case by simp
next
  case (Cons t ts)
  obtain w1 a where a: "attempt rc t w = (w1, a)" by force
  have k1: "rows_kept D (rwDb w) (rwDb w1)"
    using attempt_kept[OF assms(1)] a unfolding io_kept_def by (metis fst_conv)
  show ?case
  proof (cases a)
    case (Inl err)
    then show ?thesis using Cons.prems(1) a k1 by simp
  next
    case (Inr x)
    obtain st r f where x: "x = (st, r, f)" by (cases x)
    obtain w2 b where b: "record_attempt rc t st r f w1 = (w2, b)" by force
    have del: "tnID t \<in> D" if d: "arDeleteCompleted (result_of r)"
    proof -
      obtain q where q: "r = Inr q" "arDeleteCompleted q"
        using d by (cases r) (simp_all add: result_of_def empty_result_def)
      obtain v v' where "act t (PlanTenantAction t) v = (v', Inr q)"
        "cdCatalog (rdControl (rwDb v)) = cdCatalog (rdControl (rwDb w))"
        using attempt_ran[of rc t w w1 st r f] a Inr x q(1) assms(1) by auto
      then show ?thesis using Cons.prems(2)[of t v v' q] q(2) by simp
    qed
    have k2: "rows_kept D (rwDb w1) (rwDb w2)"
      using record_kept[of r t D rc st f] del b unfolding io_kept_def by (metis fst_conv)
    note k = rows_kept_trans[OF k1 k2]
    show ?thesis
    proof (cases b)
      case (Inl err)
      then show ?thesis using Cons.prems(1) a b k \<open>a = Inr x\<close> x by simp
    next
      case r2: (Inr u)
      have rest: "run_tenants rc ts (count_attempt r s) w2 = (w', s', e)"
        using Cons.prems(1) a b Inr x r2 by simp
      have cat: "cdCatalog (rdControl (rwDb w2)) = cdCatalog (rdControl (rwDb w))" using k by (simp add: rows_kept_def)
      have "rows_kept D (rwDb w2) (rwDb w')"
        by (rule Cons.IH[OF rest]) (use Cons.prems(2) cat in auto)
      then show ?thesis using rows_kept_trans[OF k] by blast
    qed
  qed
qed

text \<open>
  A cycle keeps the invariant and every row, but for rows that their tenant's plan deletes.
\<close>

lemma cycle_kept:
  assumes "rcApply rc = act" "RunOnce rc w = (w', s, e)"
    and "\<And>t v v' r. t \<in> set (rdTenants (rwDb w)) \<Longrightarrow> act t (PlanTenantAction t) v = (v', Inr r) \<Longrightarrow> arDeleteCompleted r
      \<Longrightarrow> cdCatalog (rdControl (rwDb v)) = cdCatalog (rdControl (rwDb w)) \<Longrightarrow> tnID t \<in> D"
  shows "rows_kept D (rwDb w) (rwDb w')"
proof -
  obtain w1 a where a: "ListTenantInstances (rcLib rc) w = (w1, a)" by force
  have db: "rwDb w1 = rwDb w"
    using a by (auto simp: ListTenantInstances_def io_store_def io_bind_def io_tick_def split: prod.splits sum.splits)
  show ?thesis
  proof (cases a)
    case (Inl err)
    then show ?thesis using assms(2) a db by (simp add: RunOnce_def)
  next
    case (Inr ts)
    have ts: "set ts \<subseteq> set (rdTenants (rwDb w))"
      using a Inr listed_rows
      by (auto simp: ListTenantInstances_def io_store_def io_bind_def io_tick_def faulty_def lift_db_def
          q_ListTenantInstances_def result_simps dest!: listed_rows split: prod.splits sum.splits option.splits)
    have "rows_kept D (rwDb (w1\<lparr>rwTick := Suc (rwTick w1)\<rparr>)) (rwDb w')"
      by (rule run_tenants_kept[OF assms(1)])
         (use assms(2,3) a Inr ts db in \<open>auto simp: RunOnce_def io_tick_def\<close>)
    then show ?thesis using db by simp
  qed
qed

lemma cycle_keeps_wanted:
  assumes "rcApply rc = act" "RunOnce rc w = (w', s, e)" "cycle_ok (rwDb w)"
    and "x \<in> set (rdTenants (rwDb w))" "tnDesired x \<noteq> DesiredDeleted"
  shows "\<exists>y \<in> set (rdTenants (rwDb w')). same_identity x y"
proof -
  let ?D = "{tnID t | t. t \<in> set (rdTenants (rwDb w)) \<and> tnDesired t = DesiredDeleted}"
  have "rows_kept ?D (rwDb w) (rwDb w')"
    by (rule cycle_kept[OF assms(1,2)]) (use act_deletes plan_delete_iff in blast)
  moreover have "tnID x \<notin> ?D"
    using assms(3-5) same_id[of "rdTenants (rwDb w)"] by (auto simp: cycle_ok_def control_ok_def)
  ultimately show ?thesis using assms(4) unfolding rows_kept_def by blast
qed

end

interpretation noop: runtime_client noop_Apply
proof
  fix t plan show "io_rel (row_frame False (tnID t)) (noop_Apply t plan)" unfolding noop_Apply_def by (rule io_rules)
next
  fix t plan and w w' :: "'p world" and r
  assume "noop_Apply t plan w = (w', Inr r)" "arDeleteCompleted r"
  then show "plAction plan = ActionDelete"
    by (auto simp: noop_Apply_def io_return_def empty_result_def split: if_splits)
qed

interpretation coolify: runtime_client "runtime_Apply lib" for lib
proof
  fix t plan show "io_rel (row_frame False (tnID t)) (runtime_Apply lib t plan)" by (rule io_rel_Apply)
next
  fix t plan w w' r
  assume "runtime_Apply lib t plan w = (w', Inr r)" "arDeleteCompleted r"
  then show "plAction plan = ActionDelete" using Apply_deleted by blast
qed

section \<open>Counting\<close>

definition total :: "reconcile_summary \<Rightarrow> nat" where
  "total s = smApplied s + smNoop s + smDeferred s + smFailures s"

lemma count_total: "total (count_attempt r s) = Suc (total s) \<and> smScanned (count_attempt r s) = smScanned s"
  by (auto simp: total_def count_attempt_def split: sum.split)

lemma run_tenants_total:
  "run_tenants rc ts s w = (w', s', None) \<Longrightarrow> total s' = total s + length ts \<and> smScanned s' = smScanned s"
proof (induction ts arbitrary: s w)
  case (Cons t ts)
  then obtain w1 st r f w2 where "run_tenants rc ts (count_attempt r s) w2 = (w', s', None)"
    by (auto split: prod.splits sum.splits)
  then show ?case using Cons.IH count_total by fastforce
qed simp

lemma RunOnce_total: "RunOnce rc w = (w', s, None) \<Longrightarrow> total s = smScanned s"
  by (auto simp: RunOnce_def io_tick_def total_def empty_summary_def split: prod.splits sum.splits
      dest!: run_tenants_total[unfolded total_def])

lemma RunOnce_scanned:
  assumes "RunOnce rc w = (w', s, None)"
  shows "smScanned s = length (rdTenants (rwDb w))"
proof -
  obtain w1 ts where l: "ListTenantInstances (rcLib rc) w = (w1, Inr ts)"
    "smScanned s = length ts"
    using assms by (auto simp: RunOnce_def io_tick_def split: prod.splits sum.splits dest!: run_tenants_total)
  have "length ts = length (rdTenants (rwDb w))"
    using l(1) by (auto simp: ListTenantInstances_def io_store_def io_bind_def io_tick_def faulty_def lift_db_def
        q_ListTenantInstances_def result_simps dest!: listed_rows split: prod.splits sum.splits option.splits)
  then show ?thesis using l(2) by simp
qed

text \<open>The runs recorded for a tenant.\<close>

definition runs_of :: "runtime_db \<Rightarrow> uuid \<Rightarrow> nat" where
  "runs_of db i = length (filter (\<lambda>r. wrTenant r = i) (rdRuns db))"

lemma record_runs:
  assumes "record_attempt rc t s r f w = (w', Inr u)"
  shows "tnID t \<notin> tnID ` set (rdTenants (rwDb w')) \<and> (\<forall>i. i \<noteq> tnID t \<longrightarrow> runs_of (rwDb w') i = runs_of (rwDb w) i)
    \<or> (\<forall>i. runs_of (rwDb w') i = runs_of (rwDb w) i + (if i = tnID t then 1 else 0))"
proof -
  obtain inp w1 where i: "riTenant inp = tnID t" "RecordReconcileRun (rcLib rc) inp w = (w1, Inr ())"
    and rest: "(if arDeleteCompleted (result_of r) then DeleteTenantInstance (rcLib rc) (tnID t)
       else if arSkipReconcileMark (result_of r) then io_return ()
       else MarkTenantReconciled (rcLib rc) (tnID t) f (attempt_error t r)) w1 = (w', Inr u)"
  proof -
    obtain w1 where "RecordReconcileRun (rcLib rc)
         \<lparr>riTenant = tnID t, riDesired = tnDesired t,
          riObserved = clamp_some (arObserved (result_of r)) (tnRuntime t),
          riAction = action_text (plAction (PlanTenantAction t)), riStatus = attempt_status r,
          riDetails = attempt_details (PlanTenantAction t) r, riStartedAt = s, riFinishedAt = f\<rparr> w = (w1, Inr ())"
      "(if arDeleteCompleted (result_of r) then DeleteTenantInstance (rcLib rc) (tnID t)
       else if arSkipReconcileMark (result_of r) then io_return ()
       else MarkTenantReconciled (rcLib rc) (tnID t) f (attempt_error t r)) w1 = (w', Inr u)"
      using assms by (auto simp: record_attempt_def io_bind_def split: prod.splits sum.splits)
    from that[OF _ this] show thesis by simp
  qed
  have "\<exists>row. wrTenant row = tnID t \<and> rdRuns (rwDb w1) = rdRuns (rwDb w) @ [row]"
    using i by (auto simp: RecordReconcileRun_def io_store_def io_bind_def io_tick_def store_exec_def run_row_of_def
        split: option.splits sum.splits prod.splits dest!: insert_run_result)
  then have one: "runs_of (rwDb w1) i = runs_of (rwDb w) i + (if i = tnID t then 1 else 0)" for i
    by (auto simp: runs_of_def)
  have del: "tnID t \<notin> tnID ` set (rdTenants (delete_tenant (tnID t) db))"
    "i \<noteq> tnID t \<Longrightarrow> runs_of (delete_tenant (tnID t) db) i = runs_of db i" for i db
    by (auto simp: q_DeleteTenantInstance_def runs_of_def delete_tenant_def conj_commute cong: conj_cong)
  have rest': "rwDb w' = delete_tenant (tnID t) (rwDb w1) \<or> rdRuns (rwDb w') = rdRuns (rwDb w1)"
    using rest
    by (auto simp: DeleteTenantInstance_def MarkTenantReconciled_def io_store_def io_bind_def io_tick_def io_return_def
        store_exec_def split: if_splits option.splits)
  then show ?thesis
  proof
    assume d: "rwDb w' = delete_tenant (tnID t) (rwDb w1)"
    show ?thesis unfolding d using del one by simp
  next
    assume "rdRuns (rwDb w') = rdRuns (rwDb w1)"
    then have "runs_of (rwDb w') i = runs_of (rwDb w1) i" for i by (simp add: runs_of_def)
    then show ?thesis using one by simp
  qed
qed

context runtime_client
begin

lemma attempt_runs:
  assumes "rcApply rc = act" "attempt rc t w = (w1, a)"
  shows "runs_of (rwDb w1) i = runs_of (rwDb w) i"
proof -
  have "io_rel (row_frame False (tnID t)) (checkBeforeTenant rc)"
    unfolding checkBeforeTenant_def by (auto intro!: io_rules split: option.split)
  then have "io_rel (row_frame False (tnID t)) (attempt rc t)"
    unfolding attempt_def using assms(1) act_frame by (auto intro!: io_rules)
  then have "row_frame False (tnID t) (rwDb w) (rwDb w1)" using assms(2) unfolding io_rel_def by (metis fst_conv)
  then show ?thesis using row_frame_runs by (simp add: runs_of_def)
qed

lemma run_tenants_runs:
  assumes "rcApply rc = act"
  shows "run_tenants rc ts s w = (w', s', None) \<Longrightarrow> distinct (map tnID ts) \<Longrightarrow> x \<in> set (rdTenants (rwDb w'))
    \<Longrightarrow> runs_of (rwDb w') (tnID x) = runs_of (rwDb w) (tnID x) + (if tnID x \<in> tnID ` set ts then 1 else 0)"
proof (induction ts arbitrary: s w)
  case (Cons t ts)
  obtain w1 st r f w2 where a: "attempt rc t w = (w1, Inr (st, r, f))" "record_attempt rc t st r f w1 = (w2, Inr ())"
    and rest: "run_tenants rc ts (count_attempt r s) w2 = (w', s', None)"
    using Cons.prems(1) by (auto split: prod.splits sum.splits)
  have ih: "runs_of (rwDb w') (tnID x) = runs_of (rwDb w2) (tnID x) + (if tnID x \<in> tnID ` set ts then 1 else 0)"
    using Cons.IH[OF rest] Cons.prems(2,3) by simp
  have same: "runs_of (rwDb w1) i = runs_of (rwDb w) i" for i by (rule attempt_runs[OF assms a(1)])
  have "rows_kept UNIV (rwDb w2) (rwDb w')" by (rule run_tenants_kept[OF assms rest]) simp
  then obtain y where y: "y \<in> set (rdTenants (rwDb w2))" "same_identity y x" using Cons.prems(3) unfolding rows_kept_def by blast
  have id: "tnID x \<in> tnID ` set (rdTenants (rwDb w2))" using y(1) same_identity_id[OF y(2)] by auto
  from record_runs[OF a(2)] show ?case
  proof
    assume n: "tnID t \<notin> tnID ` set (rdTenants (rwDb w2)) \<and> (\<forall>i. i \<noteq> tnID t \<longrightarrow> runs_of (rwDb w2) i = runs_of (rwDb w1) i)"
    have ne: "tnID x \<noteq> tnID t" using n id by metis
    then have "runs_of (rwDb w2) (tnID x) = runs_of (rwDb w) (tnID x)" using n same by simp
    then show ?thesis using ih ne by simp
  next
    assume "\<forall>i. runs_of (rwDb w2) i = runs_of (rwDb w1) i + (if i = tnID t then 1 else 0)"
    then show ?thesis using ih same Cons.prems(2) by auto
  qed
qed simp

lemma cycle_runs:
  assumes "rcApply rc = act" "RunOnce rc w = (w', s, None)" "cycle_ok (rwDb w)" "x \<in> set (rdTenants (rwDb w'))"
  shows "runs_of (rwDb w') (tnID x) = Suc (runs_of (rwDb w) (tnID x))"
proof -
  obtain w1 ts where l: "ListTenantInstances (rcLib rc) w = (w1, Inr ts)"
    and r: "run_tenants rc ts (empty_summary\<lparr>smScanned := length ts, smLastRunAt := rlNow (rcLib rc) (rwTick w1)\<rparr>)
      (w1\<lparr>rwTick := Suc (rwTick w1)\<rparr>) = (w', s, None)"
    using assms(2) by (auto simp: RunOnce_def io_tick_def split: prod.splits sum.splits)
  have ts: "rwDb w1 = rwDb w \<and> ts = rev (rev (q_ListTenantInstances (rdTenants (rwDb w))))"
    using l by (auto simp: ListTenantInstances_def io_store_def io_bind_def io_tick_def faulty_def lift_db_def
        result_simps dest!: listed_rows split: prod.splits sum.splits option.splits)
  have d: "distinct (map tnID (rdTenants (rwDb w)))" using assms(3) by (simp add: cycle_ok_def control_ok_def tenants_ok_def)
  have ids: "distinct (map tnID ts)" using ts d by (simp add: q_ListTenantInstances_def distinct_map)
  have "rows_kept UNIV (rwDb w) (rwDb w')" by (rule cycle_kept[OF assms(1,2)]) simp
  then obtain y where y: "y \<in> set (rdTenants (rwDb w))" "same_identity y x" using assms(4) unfolding rows_kept_def by blast
  have "tnID x \<in> tnID ` set ts" using y(1) same_identity_id[OF y(2)] ts by (auto simp: q_ListTenantInstances_def)
  then show ?thesis using run_tenants_runs[OF assms(1) r ids assms(4)] ts by simp
qed

end

section \<open>Tenants of disabled services\<close>

fun run_cycles :: "'p reconciler \<Rightarrow> nat \<Rightarrow> 'p world \<Rightarrow> 'p world" where
  "run_cycles rc 0 w = w"
| "run_cycles rc (Suc n) w = run_cycles rc n (fst (RunOnce rc w))"

text \<open>Tenants that are wanted survive any number of cycles, and the tables stay consistent.\<close>

context runtime_client
begin

lemma cycles_keep:
  assumes "rcApply rc = act"
  shows "cycle_ok (rwDb w) \<Longrightarrow> cycle_ok (rwDb (run_cycles rc n w))
    \<and> (\<forall>x \<in> set (rdTenants (rwDb w)). tnDesired x \<noteq> DesiredDeleted
        \<longrightarrow> (\<exists>y \<in> set (rdTenants (rwDb (run_cycles rc n w))). same_identity x y))"
proof (induction n arbitrary: w)
  case 0
  then show ?case by (auto intro: same_identity_refl)
next
  case (Suc n)
  let ?w = "fst (RunOnce rc w)"
  obtain w' s e where o: "RunOnce rc w = (w', s, e)" by (cases "RunOnce rc w")
  have "rows_kept UNIV (rwDb w) (rwDb w')" by (rule cycle_kept[OF assms o]) simp
  then have ok: "cycle_ok (rwDb ?w)" using Suc.prems o by (simp add: rows_kept_def)
  show ?case
  proof (intro conjI ballI impI)
    show "cycle_ok (rwDb (run_cycles rc (Suc n) w))" using Suc.IH[OF ok] by simp
  next
    fix x assume x: "x \<in> set (rdTenants (rwDb w))" "tnDesired x \<noteq> DesiredDeleted"
    obtain y where y: "y \<in> set (rdTenants (rwDb ?w))" "same_identity x y"
      using cycle_keeps_wanted[OF assms o Suc.prems x] o by auto
    have "tnDesired y \<noteq> DesiredDeleted" using x(2) y(2) by (simp add: same_identity_def)
    then obtain z where "z \<in> set (rdTenants (rwDb (run_cycles rc n ?w)))" "same_identity y z" using Suc.IH[OF ok] y(1) by blast
    then show "\<exists>z \<in> set (rdTenants (rwDb (run_cycles rc (Suc n) w))). same_identity x z"
      using same_identity_trans[OF y(2)] by auto
  qed
qed

end

lemma Apply_unloaded:
  assumes "\<not> tenantRuntimeModeStaticRow t" "\<not> service_enabled (rdControl (rwDb w)) (tnService t)"
  shows "\<exists>e. snd (runtime_Apply lib t plan w) = Inl e"
proof -
  have n: "serviceByID (tnService t) = None" by (simp add: serviceByID_def DefaultCatalogV1_def)
  have "find (\<lambda>r. crID r = tnService t \<and> crEnabled r) (cdCatalog (rdControl (rwDb w))) = None"
    using assms(2) by (auto simp: service_enabled_def list_ex_iff find_None_iff)
  then show ?thesis using assms(1) n
    by (simp add: runtime_Apply_def loadService_def GetEnabledServiceCatalogEntry_def io_store_def io_bind_def io_tick_def
        faulty_def lift_db_def q_GetEnabledServiceCatalogEntry_def split: option.split)
qed

lemma unloaded_stays:
  assumes "cycle_ok (rwDb w)" "x \<in> set (rdTenants (rwDb w))" "\<not> tenantRuntimeModeStaticRow x"
    and "\<not> service_enabled (rdControl (rwDb w)) (tnService x)" "rcApply rc = runtime_Apply lib"
  shows "cycle_ok (rwDb (fst (RunOnce rc w)))
    \<and> (\<exists>y \<in> set (rdTenants (rwDb (fst (RunOnce rc w)))). same_identity x y)
    \<and> \<not> service_enabled (rdControl (rwDb (fst (RunOnce rc w)))) (tnService x)"
proof -
  obtain w' s e where o: "RunOnce rc w = (w', s, e)" by (cases "RunOnce rc w")
  let ?D = "{i. i \<noteq> tnID x}"
  have "rows_kept ?D (rwDb w) (rwDb w')"
  proof (rule coolify.cycle_kept[OF assms(5) o])
    fix t v v' r
    assume t: "t \<in> set (rdTenants (rwDb w))" and a: "runtime_Apply lib t (PlanTenantAction t) v = (v', Inr r)"
      and c: "cdCatalog (rdControl (rwDb v)) = cdCatalog (rdControl (rwDb w))"
    have "\<not> service_enabled (rdControl (rwDb v)) (tnService x)" using assms(4) c by (simp add: service_enabled_def)
    then have "t \<noteq> x" using Apply_unloaded[OF assms(3), of v lib "PlanTenantAction x"] a by (metis Inl_Inr_False snd_conv)
    then show "tnID t \<in> ?D" using same_id[of "rdTenants (rwDb w)"] t assms(1,2) by (auto simp: cycle_ok_def control_ok_def)
  qed
  then show ?thesis using assms(1,2,4) o unfolding rows_kept_def service_enabled_def by auto
qed

lemma unloaded_forever:
  assumes "cycle_ok (rwDb w)" "x \<in> set (rdTenants (rwDb w))" "\<not> tenantRuntimeModeStaticRow x"
    and "\<not> service_enabled (rdControl (rwDb w)) (tnService x)" "rcApply rc = runtime_Apply lib"
  shows "\<exists>y \<in> set (rdTenants (rwDb (run_cycles rc n w))). same_identity x y"
  using assms(1-4)
proof (induction n arbitrary: w x)
  case 0
  then show ?case by (auto intro: same_identity_refl)
next
  case (Suc n)
  let ?w = "fst (RunOnce rc w)"
  obtain y where y: "cycle_ok (rwDb ?w)" "y \<in> set (rdTenants (rwDb ?w))" "same_identity x y"
    "\<not> service_enabled (rdControl (rwDb ?w)) (tnService x)"
    using unloaded_stays[OF Suc.prems assms(5)] by blast
  have "\<not> tenantRuntimeModeStaticRow y" "\<not> service_enabled (rdControl (rwDb ?w)) (tnService y)"
    using y(3,4) Suc.prems(3) by (simp_all add: same_identity_def tenantRuntimeModeStaticRow_def)
  from Suc.IH[OF y(1,2) this] show ?case using same_identity_trans[OF y(3)] by auto
qed

section \<open>Deletion comes to an end\<close>

text \<open>
  A provider that is deleting the service \<^verbatim>\<open>u\<close>, and has removed it after at most \<^verbatim>\<open>n\<close> further questions, whether or not
  the request to delete it is repeated in between; and one that will do so once it is asked.
\<close>

fun settles :: "'p coolify_ops \<Rightarrow> string \<Rightarrow> nat \<Rightarrow> 'p \<Rightarrow> bool" where
  "settles ops u 0 p = (case snd (coGet ops p u) of Inl e \<Rightarrow> IsHTTPStatus e 404 | Inr _ \<Rightarrow> False)"
| "settles ops u (Suc n) p =
     (case coGet ops p u of
        (p1, Inl e) \<Rightarrow> IsHTTPStatus e 404
      | (p1, Inr _) \<Rightarrow>
          settles ops u n p1
          \<and> (case coDelete ops p1 u delete_everything of
               (p2, Inl e) \<Rightarrow> IsHTTPStatus e 404
             | (p2, Inr _) \<Rightarrow> settles ops u n p2))"

definition will_settle :: "'p coolify_ops \<Rightarrow> string \<Rightarrow> nat \<Rightarrow> 'p \<Rightarrow> bool" where
  "will_settle ops u n p =
     (case coGet ops p u of
        (p1, Inl e) \<Rightarrow> IsHTTPStatus e 404
      | (p1, Inr _) \<Rightarrow>
          0 < n \<and> (case coDelete ops p1 u delete_everything of
             (p2, Inl e) \<Rightarrow> IsHTTPStatus e 404
           | (p2, Inr _) \<Rightarrow> settles ops u (n - 1) p2))"

definition on_the_way :: "'p runtime_lib \<Rightarrow> tenant_row \<Rightarrow> nat \<Rightarrow> 'p \<Rightarrow> bool" where
  "on_the_way lib t n p =
     (if tnRuntime t = RuntimeDeleting then settles (rlOps lib) (tn_resource t) n p
      else will_settle (rlOps lib) (tn_resource t) n p)"

text \<open>No operation of the store fails and no check stops a cycle; what is written can be read.\<close>

definition calm :: "'p reconciler \<Rightarrow> bool" where
  "calm rc =
     ((\<forall>n. rlFault (rcLib rc) n = None) \<and> (\<forall>n. rcCheck rc n = None)
      \<and> (\<forall>j. rlJsonOk (rcLib rc) (rlJson (rcLib rc) j))
      \<and> (\<forall>t. parseSQLiteTime (rlParse (rcLib rc)) (rlFormat (rcLib rc) t) \<noteq> None))"

definition readable :: "'p runtime_lib \<Rightarrow> tenant_row \<Rightarrow> bool" where
  "readable lib t =
     (null_time_ok (rlParse lib) (tnHealthyAt t) \<and> null_time_ok (rlParse lib) (tnReconciledAt t)
      \<and> null_time_ok (rlParse lib) (tnAttestedAt t))"

definition deletable :: "'p reconciler \<Rightarrow> tenant_row \<Rightarrow> bool" where
  "deletable rc t =
     (tnDesired t = DesiredDeleted \<and> \<not> tenantRuntimeModeStaticRow t \<and> readable (rcLib rc) t)"

definition runs_fresh :: "'p reconciler \<Rightarrow> 'p world \<Rightarrow> bool" where
  "runs_fresh rc w = list_all (\<lambda>r. wrID r \<in> rlNew (rcLib rc) ` {..<rwTick w}) (rdRuns (rwDb w))"

text \<open>The state of a world with one tenant, which is being deleted.\<close>

definition deleting :: "'p reconciler \<Rightarrow> nat \<Rightarrow> 'p world \<Rightarrow> bool" where
  "deleting rc n w =
     (\<exists>t. rdTenants (rwDb w) = [t] \<and> deletable rc t \<and> tn_resource t \<noteq> []
        \<and> service_enabled (rdControl (rwDb w)) (tnService t) \<and> runs_fresh rc w
        \<and> on_the_way (rcLib rc) t n (rwNet w))"

lemma store_exec_run:
  assumes "rlFault lib (rwTick w) = None" "f (rwDb w) = Inr db"
  shows "io_store lib what (store_exec f) w = (w\<lparr>rwTick := Suc (rwTick w), rwDb := db\<rparr>, Inr ())"
  using assms by (simp add: io_store_def io_bind_def io_tick_def store_exec_def)

lemma load_run:
  assumes "rlFault lib (rwTick w) = None" "service_enabled (rdControl (rwDb w)) sid"
  shows "\<exists>svc. loadService lib sid w = (w\<lparr>rwTick := Suc (rwTick w)\<rparr>, Inr svc)"
proof -
  obtain r where "find (\<lambda>r. crID r = sid \<and> crEnabled r) (cdCatalog (rdControl (rwDb w))) = Some r"
    using assms(2) by (cases "find (\<lambda>r. crID r = sid \<and> crEnabled r) (cdCatalog (rdControl (rwDb w)))")
      (auto simp: service_enabled_def list_ex_iff find_None_iff)
  then show ?thesis using assms(1)
    by (simp add: loadService_def serviceByID_def DefaultCatalogV1_def GetEnabledServiceCatalogEntry_def io_store_def
        io_bind_def io_tick_def faulty_def lift_db_def q_GetEnabledServiceCatalogEntry_def)
qed

text \<open>One step of the deletion: it is confirmed, or it is under way and the provider is closer to the end.\<close>

lemma delete_run:
  assumes "on_the_way lib t n (rwNet w)" "tn_resource t \<noteq> []" "\<And>k. rlFault lib k = None"
  obtains w' r where "runtime_delete lib t w = (w', Inr r)" "rwTick w \<le> rwTick w' \<and> rwTick w' \<le> rwTick w + 2"
    "arDeleteCompleted r \<and> rwDb w' = rwDb w
     \<or> (\<exists>m. n = Suc m \<and> \<not> arDeleteCompleted r \<and> settles (rlOps lib) (tn_resource t) m (rwNet w')
          \<and> rwDb w' = on_tenants (update_tenant (tnID t) (status_columns (state_update t RuntimeDeleting))) (rwDb w))"
proof -
  let ?u = "tn_resource t"
  obtain p1 a where g: "coGet (rlOps lib) (rwNet w) ?u = (p1, a)" by force
  show thesis
  proof (cases a)
    case (Inl e)
    then have "IsHTTPStatus e 404" using assms(1) g
      by (cases n) (simp_all add: on_the_way_def will_settle_def split: if_splits)
    then have "runtime_delete lib t w = (w\<lparr>rwNet := p1\<rparr>, Inr (deleted_result [(''service_uuid'', JStr ?u)]))"
      using assms(2) g Inl by (simp add: runtime_delete_def io_bind_def io_try_net io_return_def)
    then show thesis by (rule that) (simp_all add: deleted_result_def)
  next
    case (Inr sv)
    then obtain m where n: "n = Suc m" using assms(1) g
      by (cases n) (simp_all add: on_the_way_def will_settle_def split: if_splits)
    obtain p2 d where d: "coDelete (rlOps lib) p1 ?u delete_everything = (p2, d)" by force
    have s: "tnRuntime t = RuntimeDeleting \<longrightarrow> settles (rlOps lib) ?u m p1"
      "(case d of Inl e \<Rightarrow> IsHTTPStatus e 404 | Inr _ \<Rightarrow> settles (rlOps lib) ?u m p2)"
      using assms(1) n g Inr d by (simp_all add: on_the_way_def will_settle_def split: if_splits)
    let ?now = "rlNow lib (rwTick w)"
    let ?rq = "tnRuntime t = RuntimeDeleting \<and> shouldRequeueDelete ?now (last_reconciled lib t)"
    let ?q = "tnRuntime t \<noteq> RuntimeDeleting \<or> ?rq"
    let ?db = "on_tenants (update_tenant (tnID t) (status_columns (state_update t RuntimeDeleting))) (rwDb w)"
    have up: "UpdateTenantRuntimeStatus lib (state_update t RuntimeDeleting) v
        = (v\<lparr>rwTick := Suc (rwTick v), rwDb := ?db\<rparr>, Inr ())" if "rwDb v = rwDb w" for v
      unfolding UpdateTenantRuntimeStatus_def
      by (subst store_exec_run[where db = ?db]) (simp_all add: assms(3) update_status_columns state_update_def that)
    show thesis
    proof (cases "?q \<and> (\<exists>e. d = Inl e)")
      case True
      then have "runtime_delete lib t w = (w\<lparr>rwNet := p2, rwTick := Suc (rwTick w)\<rparr>,
          Inr (deleted_result [(''service_uuid'', JStr ?u)]))"
        using assms(2) g Inr d s(2)
        by (auto simp: runtime_delete_def Let_def io_bind_def io_try_net io_return_def io_tick_def)
      then show thesis by (rule that) (simp_all add: deleted_result_def)
    next
      case False
      let ?p = "if ?q then p2 else p1"
      have run: "runtime_delete lib t w = (w\<lparr>rwNet := ?p, rwTick := Suc (Suc (rwTick w)), rwDb := ?db\<rparr>,
          Inr (deleting_result t ?q ?rq))"
        using assms(2) g Inr d False up
        by (cases d) (auto simp: runtime_delete_def Let_def io_bind_def io_try_net io_return_def io_tick_def)
      have m: "settles (rlOps lib) ?u m ?p" using s False by (auto split: sum.splits)
      have k: "\<not> arDeleteCompleted (deleting_result t ?q ?rq)" by (simp add: deleting_result_def empty_result_def)
      have x: "rwNet (w\<lparr>rwNet := ?p, rwTick := Suc (Suc (rwTick w)), rwDb := ?db\<rparr>) = ?p"
        "rwDb (w\<lparr>rwNet := ?p, rwTick := Suc (Suc (rwTick w)), rwDb := ?db\<rparr>) = ?db"
        "rwTick w \<le> rwTick (w\<lparr>rwNet := ?p, rwTick := Suc (Suc (rwTick w)), rwDb := ?db\<rparr>)
         \<and> rwTick (w\<lparr>rwNet := ?p, rwTick := Suc (Suc (rwTick w)), rwDb := ?db\<rparr>) \<le> rwTick w + 2" by simp_all
      show thesis
        by (rule that[OF run x(3)], rule disjI2, rule exI[of _ m]) (intro conjI n k x(2), simp only: x(1) m)
    qed
  qed
qed

lemma attempt_run:
  assumes "calm rc" "rcApply rc t (PlanTenantAction t) (w\<lparr>rwTick := rwTick w + 2\<rparr>) = (v, r)"
  shows "attempt rc t w
    = (v\<lparr>rwTick := rwTick v + 2\<rparr>, Inr (rlNow (rcLib rc) (Suc (rwTick w)), r, rlNow (rcLib rc) (rwTick v)))"
  using assms by (simp add: attempt_def checkBeforeTenant_def io_bind_def io_tick_def io_try_def io_return_def calm_def)

lemma run_recorded:
  assumes "calm rc" "runs_fresh rc w" "tenant_exists (rwDb w) (riTenant inp)"
    and "inj_on (rlNew (rcLib rc)) {..rwTick w}"
  shows "\<exists>row. wrID row = rlNew (rcLib rc) (rwTick w) \<and> RecordReconcileRun (rcLib rc) inp w
    = (w\<lparr>rwTick := rwTick w + 2, rwDb := (rwDb w)\<lparr>rdRuns := rdRuns (rwDb w) @ [row]\<rparr>\<rparr>, Inr ())"
proof -
  let ?row = "run_row_of (rcLib rc) (rlNew (rcLib rc) (rwTick w)) inp"
  have "wrID r \<noteq> wrID ?row" if r: "r \<in> set (rdRuns (rwDb w))" for r
  proof -
    obtain k where "wrID r = rlNew (rcLib rc) k" "k < rwTick w"
      using assms(2) r by (auto simp: runs_fresh_def list_all_iff)
    then show ?thesis using inj_onD[OF assms(4), of k "rwTick w"] by (auto simp: run_row_of_def)
  qed
  then have "q_InsertReconcileRun (rlJsonOk (rcLib rc)) (rwDb w) ?row = Inr ((rwDb w)\<lparr>rdRuns := rdRuns (rwDb w) @ [?row]\<rparr>)"
    using assms(1,3) by (auto simp: q_InsertReconcileRun_def calm_def run_row_of_def list_ex_iff)
  then have "RecordReconcileRun (rcLib rc) inp w
      = (w\<lparr>rwTick := rwTick w + 2, rwDb := (rwDb w)\<lparr>rdRuns := rdRuns (rwDb w) @ [?row]\<rparr>\<rparr>, Inr ())"
    using assms(1) by (simp add: RecordReconcileRun_def io_bind_def io_tick_def store_exec_run calm_def)
  then show ?thesis by (intro exI[of _ ?row]) (simp add: run_row_of_def)
qed

lemma mark_run:
  assumes "calm rc"
  shows "MarkTenantReconciled (rcLib rc) tid at err w
    = (w\<lparr>rwTick := Suc (rwTick w),
         rwDb := on_tenants (\<lambda>t. q_MarkTenantReconciled t tid (sqlNullTime (rlFormat (rcLib rc)) at) err) (rwDb w)\<rparr>, Inr ())"
  using assms by (simp add: MarkTenantReconciled_def store_exec_run calm_def)

lemma remove_run:
  assumes "calm rc"
  shows "DeleteTenantInstance (rcLib rc) tid w
    = (w\<lparr>rwTick := Suc (rwTick w), rwDb := delete_tenant tid (rwDb w)\<rparr>, Inr ())"
  using assms by (simp add: DeleteTenantInstance_def store_exec_run calm_def)

lemma list_run:
  assumes "calm rc" "rdTenants (rwDb w) = [t]" "readable (rcLib rc) t"
  shows "ListTenantInstances (rcLib rc) w = (w\<lparr>rwTick := Suc (rwTick w)\<rparr>, Inr [t])"
  using assms by (simp add: ListTenantInstances_def io_store_def io_bind_def io_tick_def faulty_def lift_db_def
      q_ListTenantInstances_def calm_def readable_def)

lemma deletion_step:
  assumes "calm rc" "rcApply rc = runtime_Apply (rcLib rc)" "deleting rc n w"
    and "inj_on (rlNew (rcLib rc)) {..<rwTick w + 12}"
  shows "rdTenants (rwDb (fst (RunOnce rc w))) = []
    \<or> (\<exists>m. n = Suc m \<and> deleting rc m (fst (RunOnce rc w)) \<and> rwTick (fst (RunOnce rc w)) \<le> rwTick w + 12)"
proof -
  let ?lib = "rcLib rc"
  obtain t where t: "rdTenants (rwDb w) = [t]" "deletable rc t" "tn_resource t \<noteq> []"
    "service_enabled (rdControl (rwDb w)) (tnService t)" "runs_fresh rc w"
    "on_the_way ?lib t n (rwNet w)"
    using assms(3) by (auto simp: deleting_def)
  have plan: "plAction (PlanTenantAction t) = ActionDelete" and st: "\<not> tenantRuntimeModeStaticRow t"
    and rd: "readable ?lib t" and des: "tnDesired t = DesiredDeleted"
    using t(2) plan_delete_iff by (auto simp: deletable_def)
  have nofault: "\<And>k. rlFault ?lib k = None" using assms(1) by (simp add: calm_def)
  let ?w2 = "w\<lparr>rwTick := rwTick w + 2\<rparr>"
  let ?v = "w\<lparr>rwTick := rwTick w + 4\<rparr>"
  obtain svc where svc: "loadService ?lib (tnService t) ?v = (w\<lparr>rwTick := rwTick w + 5\<rparr>, Inr svc)"
    using load_run[of ?lib ?v "tnService t"] nofault t(4) by auto
  let ?w5 = "w\<lparr>rwTick := rwTick w + 5\<rparr>"
  obtain v r where del: "runtime_delete ?lib t ?w5 = (v, Inr r)" "rwTick ?w5 \<le> rwTick v \<and> rwTick v \<le> rwTick ?w5 + 2"
    and out: "arDeleteCompleted r \<and> rwDb v = rwDb ?w5
     \<or> (\<exists>m. n = Suc m \<and> \<not> arDeleteCompleted r \<and> settles (rlOps ?lib) (tn_resource t) m (rwNet v)
          \<and> rwDb v = on_tenants (update_tenant (tnID t) (status_columns (state_update t RuntimeDeleting))) (rwDb ?w5))"
    by (rule delete_run[of ?lib t n ?w5, OF _ t(3) nofault]) (use t(6) in auto)
  have app: "rcApply rc t (PlanTenantAction t) ?v = (v, Inr r)"
    using svc del(1) plan st assms(2) by (simp add: runtime_Apply_def io_bind_def apply_plan_def)
  let ?v1 = "v\<lparr>rwTick := rwTick v + 2\<rparr>"
  obtain s f where att: "attempt rc t ?w2 = (?v1, Inr (s, Inr r, f))"
    using attempt_run[OF assms(1), of t ?w2 v "Inr r"] app by (auto simp: numeral_eq_Suc)
  have ten: "tenant_exists (rwDb v) (tnID t)"
    using out t(1) keeps_status_columns[of "state_update t RuntimeDeleting"]
    by (auto simp: tenant_exists_def update_tenant_def keeps_row_def)
  have runs: "rdRuns (rwDb v) = rdRuns (rwDb w)" using out by auto
  have fresh: "runs_fresh rc ?v1"
    using t(5) runs del(2) by (fastforce simp: runs_fresh_def list_all_iff)
  let ?inp = "\<lparr>riTenant = tnID t, riDesired = tnDesired t,
          riObserved = clamp_some (arObserved (result_of (Inr r))) (tnRuntime t),
          riAction = action_text (plAction (PlanTenantAction t)), riStatus = attempt_status (Inr r),
          riDetails = attempt_details (PlanTenantAction t) (Inr r), riStartedAt = s, riFinishedAt = f\<rparr>"
  have inj: "inj_on (rlNew ?lib) {..rwTick ?v1}"
    by (rule inj_on_subset[OF assms(4)]) (use del(2) in auto)
  have ten1: "tenant_exists (rwDb ?v1) (riTenant ?inp)" using ten by simp
  obtain row where row: "wrID row = rlNew ?lib (rwTick ?v1)"
    and rec: "RecordReconcileRun ?lib ?inp ?v1
      = (?v1\<lparr>rwTick := rwTick ?v1 + 2, rwDb := (rwDb v)\<lparr>rdRuns := rdRuns (rwDb v) @ [row]\<rparr>\<rparr>, Inr ())"
    using run_recorded[OF assms(1) fresh ten1 inj] by auto
  let ?v2 = "?v1\<lparr>rwTick := rwTick ?v1 + 2, rwDb := (rwDb v)\<lparr>rdRuns := rdRuns (rwDb v) @ [row]\<rparr>\<rparr>"
  have once: "fst (RunOnce rc w) = fst (record_attempt rc t s (Inr r) f ?v1)"
    using list_run[OF assms(1) t(1) rd] att
    by (simp add: RunOnce_def io_tick_def split: prod.splits sum.splits)
  have fr: "runs_fresh rc ?v2"
    using fresh row by (fastforce simp: runs_fresh_def list_all_iff)
  show ?thesis using out
  proof
    assume d: "arDeleteCompleted r \<and> rwDb v = rwDb ?w5"
    have "fst (record_attempt rc t s (Inr r) f ?v1) = ?v2\<lparr>rwTick := Suc (rwTick ?v2), rwDb := delete_tenant (tnID t) (rwDb ?v2)\<rparr>"
      using rec d remove_run[OF assms(1)] by (simp add: record_attempt_def io_bind_def result_of_def)
    then show ?thesis using once d t(1) by (simp add: q_DeleteTenantInstance_def)
  next
    assume "\<exists>m. n = Suc m \<and> \<not> arDeleteCompleted r \<and> settles (rlOps ?lib) (tn_resource t) m (rwNet v)
          \<and> rwDb v = on_tenants (update_tenant (tnID t) (status_columns (state_update t RuntimeDeleting))) (rwDb ?w5)"
    then obtain m where m: "n = Suc m" "\<not> arDeleteCompleted r" "settles (rlOps ?lib) (tn_resource t) m (rwNet v)"
      "rwDb v = on_tenants (update_tenant (tnID t) (status_columns (state_update t RuntimeDeleting))) (rwDb w)" by auto
    let ?t1 = "status_columns (state_update t RuntimeDeleting) t"
    have t1: "rdTenants (rwDb v) = [?t1]" using m(4) t(1) by (simp add: update_tenant_def)
    have same: "tnDesired ?t1 = DesiredDeleted" "tenantRuntimeModeStaticRow ?t1 = tenantRuntimeModeStaticRow t"
      "tn_resource ?t1 = tn_resource t" "tnService ?t1 = tnService t" "tnHealthyAt ?t1 = tnHealthyAt t"
      "tnReconciledAt ?t1 = tnReconciledAt t" "tnAttestedAt ?t1 = tnAttestedAt t" "tnID ?t1 = tnID t"
      "tnRuntime ?t1 = RuntimeDeleting"
      using des by (simp_all add: status_columns_def state_update_def keep_or_set_def tenantRuntimeModeStaticRow_def
          split: option.split)
    have en: "service_enabled (rdControl (rwDb v)) (tnService t)" using t(4) m(4) by (simp add: service_enabled_def)
    show ?thesis
    proof (cases "arSkipReconcileMark r")
      case True
      have "fst (record_attempt rc t s (Inr r) f ?v1) = ?v2"
        using rec True m(2) by (simp add: record_attempt_def io_bind_def result_of_def io_return_def)
      then have "deleting rc m (fst (RunOnce rc w)) \<and> rwTick (fst (RunOnce rc w)) \<le> rwTick w + 12"
        unfolding once using t1 same st rd en fr m(3) t(3) del(2)
        by (simp add: deleting_def deletable_def readable_def service_enabled_def on_the_way_def)
      then show ?thesis using m(1) by blast
    next
      case False
      let ?at = "sqlNullTime (rlFormat ?lib) f"
      let ?db = "on_tenants (\<lambda>t'. q_MarkTenantReconciled t' (tnID t) ?at (attempt_error t (Inr r))) (rwDb ?v2)"
      have f: "fst (record_attempt rc t s (Inr r) f ?v1) = ?v2\<lparr>rwTick := Suc (rwTick ?v2), rwDb := ?db\<rparr>"
        using rec False m(2) mark_run[OF assms(1)] by (simp add: record_attempt_def io_bind_def result_of_def)
      have at: "null_time_ok (rlParse ?lib) ?at"
        using assms(1) by (simp add: null_time_ok_def sqlNullTime_def calm_def)
      have "runs_fresh rc (?v2\<lparr>rwTick := Suc (rwTick ?v2), rwDb := ?db\<rparr>)"
        using fr by (fastforce simp: runs_fresh_def list_all_iff)
      then have "deleting rc m (fst (RunOnce rc w)) \<and> rwTick (fst (RunOnce rc w)) \<le> rwTick w + 12"
        unfolding once f using t1 same st rd en m(3) t(3) at del(2)
        by (simp add: deleting_def deletable_def readable_def service_enabled_def q_MarkTenantReconciled_def update_tenant_def
            tenantRuntimeModeStaticRow_def on_the_way_def)
      then show ?thesis using m(1) by blast
    qed
  qed
qed

lemma deletion_ends:
  assumes "calm rc" "rcApply rc = runtime_Apply (rcLib rc)" "deleting rc n w"
    and "inj_on (rlNew (rcLib rc)) {..<rwTick w + 12 * Suc n}"
  shows "\<exists>k \<le> Suc n. rdTenants (rwDb (run_cycles rc k w)) = []"
  using assms(3,4)
proof (induction n arbitrary: w)
  case 0
  then show ?case using deletion_step[OF assms(1,2) 0(1)] by (intro exI[of _ 1]) auto
next
  case (Suc n)
  have "inj_on (rlNew (rcLib rc)) {..<rwTick w + 12}" by (rule inj_on_subset[OF Suc.prems(2)]) auto
  from deletion_step[OF assms(1,2) Suc.prems(1) this] show ?case
  proof
    assume "rdTenants (rwDb (fst (RunOnce rc w))) = []"
    then show ?thesis by (intro exI[of _ 1]) simp
  next
    assume "\<exists>m. Suc n = Suc m \<and> deleting rc m (fst (RunOnce rc w)) \<and> rwTick (fst (RunOnce rc w)) \<le> rwTick w + 12"
    then have d: "deleting rc n (fst (RunOnce rc w))" and k: "rwTick (fst (RunOnce rc w)) \<le> rwTick w + 12" by auto
    have "inj_on (rlNew (rcLib rc)) {..<rwTick (fst (RunOnce rc w)) + 12 * Suc n}"
      by (rule inj_on_subset[OF Suc.prems(2)]) (use k in auto)
    from Suc.IH[OF d this] obtain k where "k \<le> Suc n" "rdTenants (rwDb (run_cycles rc k (fst (RunOnce rc w)))) = []" by blast
    then show ?thesis by (intro exI[of _ "Suc k"]) simp
  qed
qed

end
