(* ===== verification/RuntimeProperties.thy ===== *)
theory RuntimeProperties
  imports Reconciler Fixture
begin

text \<open>
  Properties of the runtime of tenants and of the reconciler.
\<close>

section \<open>A provider\<close>

text \<open>
  A provider for the witnesses: a service is running, or it is being removed and gone after some questions.  A probe is
  answered with the status 200.
\<close>

type_synonym rx_net = "(string \<times> nat option) list"

definition rx_gone :: call_error where
  "rx_gone = HTTPStatusError ''GET'' ''http://coolify'' 404 []"

definition rx_get :: "rx_net \<Rightarrow> string \<Rightarrow> rx_net \<times> (call_error, coolify_service) result" where
  "rx_get p u =
     (case map_of p u of
        None \<Rightarrow> (p, Inl rx_gone)
      | Some (Some 0) \<Rightarrow> (p, Inl rx_gone)
      | Some (Some (Suc n)) \<Rightarrow> (put u (Some n) p, Inr \<lparr>csUUID = u, csName = [], csDescription = [], csCompose = []\<rparr>)
      | Some None \<Rightarrow> (p, Inr \<lparr>csUUID = u, csName = [], csDescription = [], csCompose = []\<rparr>))"

definition rx_delete :: "rx_net \<Rightarrow> string \<Rightarrow> delete_options \<Rightarrow> rx_net \<times> (call_error, unit) result" where
  "rx_delete p u q = (if map_of p u = Some None then (put u (Some 1) p, Inr ()) else (p, Inr ()))"

definition rx_ops :: "rx_net coolify_ops" where
  "rx_ops =
     \<lparr>coCreate = (\<lambda>p q. (p @ [(''s1'', None)], Inr ''s1'')), coGet = rx_get, coUpdate = (\<lambda>p u q. (p, Inr ())),
      coListEnvs = (\<lambda>p u. (p, Inr [])), coUpdateEnvs = (\<lambda>p u es. (p, Inr ())), coRestart = (\<lambda>p u b. (p, Inr ())),
      coStart = (\<lambda>p u. (p, Inr ())), coStop = (\<lambda>p u b. (p, Inr ())), coDelete = rx_delete\<rparr>"

definition rx_url :: parsed_url where
  "rx_url = \<lparr>uScheme = ''http'', uHost = ''notes:80'', uHostname = ''notes'', uPort = ''80'', uPath = ''/mcp'',
     uRawQuery = [], uFragment = [], uUser = False, uAbs = True\<rparr>"

definition rx_new :: "nat \<Rightarrow> uuid" where
  "rx_new n = replicate 15 0 @ [of_nat (Suc n)]"

definition rx_lib :: "rx_net runtime_lib" where
  "rx_lib =
     \<lparr>rlOps = rx_ops, rlSecret = (\<lambda>p path. (p, Inr ''s3cret'')),
      rlProbe = (\<lambda>p u. (p, Inr \<lparr>prStatus = 200, prContentType = [], prBody = []\<rparr>)),
      rlTemplates = (\<lambda>sid. None), rlURLParse = (\<lambda>u. Some rx_url), rlURLString = (\<lambda>u. ''http://notes:80/up''),
      rlRequestOk = (\<lambda>u. True), rlNetwork = ''mcp'', rlJson = (\<lambda>j. ''{}''), rlSecretContract = (\<lambda>ds. ''[]''),
      rlIdentityContext = (\<lambda>m. ''{}''), rlSha = (\<lambda>s. ''d1''), rlJsonOk = (\<lambda>s. True),
      rlParse = \<lparr>rfc3339 = (\<lambda>_. Some 9), sqlite_layout = (\<lambda>_. None)\<rparr>, rlFormat = (\<lambda>t. ''2025-01-01T00:00:00Z''),
      rlNow = (\<lambda>n. int n), rlNew = rx_new, rlFault = (\<lambda>n. None)\<rparr>"

definition rx_rc :: "rx_net reconciler" where
  "rx_rc = \<lparr>rcLib = rx_lib, rcApply = runtime_Apply rx_lib, rcCheck = (\<lambda>n. None)\<rparr>"

definition rx_service :: "bool \<Rightarrow> catalog_row" where
  "rx_service e = \<lparr>crEntry = no_service\<lparr>ServiceID := ''notes'', InternalPort := 80, InternalUpstreamPath := ''/mcp'',
     HealthPath := ''/up''\<rparr>, crEnabled = e, crSource = ''admin''\<rparr>"

definition rx_tenant :: "tenant_desired_state \<Rightarrow> tenant_runtime_state \<Rightarrow> tenant_row" where
  "rx_tenant d r =
     \<lparr>tnID = rx_new 200, tnSubject = ''alice'', tnService = ''notes'', tnKey = ''u-a'', tnName = ''notes-u-a'',
      tnDNS = [], tnDesired = d, tnRuntime = r, tnResource = Some ''s1'', tnApplication = None, tnUpstream = None,
      tnSecretVersion = None, tnHealthyAt = None, tnReconciledAt = None, tnLastError = None, tnMetadata = JObj [],
      tnAttestation = [], tnAttestedAt = None, tnAttestationID = None, tnSpecID = None\<rparr>"

definition rx_world :: "bool \<Rightarrow> tenant_row \<Rightarrow> rx_net world" where
  "rx_world e t =
     \<lparr>rwDb = \<lparr>rdControl = \<lparr>cdCatalog = [rx_service e], cdSubjects = [], cdSources = [], cdGrants = [], cdTenants = [t]\<rparr>,
        rdSpecs = [], rdMeasurements = [], rdAttestations = [], rdRuns = []\<rparr>,
      rwNet = [(''s1'', None)], rwTick = 0\<rparr>"


lemma rx_not_static [simp]: "\<not> tenantRuntimeModeStaticRow (rx_tenant d r)"
proof -
  have "\<not> tenantRuntimeModeStatic (JObj [])" by code_simp
  then show ?thesis by (simp add: tenantRuntimeModeStaticRow_def rx_tenant_def)
qed

lemma rx_ok: "cycle_ok (rwDb (rx_world e (rx_tenant d r)))"
proof -
  have s: "service_id_ok ''notes''" by code_simp
  have "grants_inv (rdControl (rwDb (rx_world e (rx_tenant d r))))"
    by (simp add: grants_inv_def grants_match_def sources_ok_def source_ids_def rx_world_def)
  then show ?thesis using s
    by (simp add: cycle_ok_def control_ok_def tenants_ok_def tenants_refer_def runtime_refs_def summary_ok_def
        rx_world_def rx_tenant_def rx_service_def)
qed

section \<open>Readiness\<close>

text \<open>
  Property C15: a tenant becomes ready only when its health URL has been probed and answered 2xx as the last thing done
  over the network, at the upstream that its row then names, whatever the action and its outcome; and an action for an
  enabled tenant that succeeds leaves the row ready only with such a probe, even if it was ready before.
\<close>

theorem ready_only_after_probe:
  assumes "runtime_Apply lib t plan w = (w', res)"
    and "x \<in> set (rdTenants (rwDb w'))" and "tnID x = tnID t" and "tnRuntime x = RuntimeReady"
  shows "((\<exists>y \<in> set (rdTenants (rwDb w)). tnID y = tnID t \<and> tnRuntime y = RuntimeReady) \<or> probed lib t w')
    \<and> (is_ok res \<and> plan = PlanTenantAction t \<and> tnDesired t = DesiredEnabled \<and> tnRuntime t \<noteq> RuntimeDeleting
        \<longrightarrow> probed lib t w')"
proof
  from ready_Apply[of lib t plan] have "row_frame True (tnID t) (rwDb w) (rwDb w') \<or> probed lib t w'"
    using assms(1) unfolding io_ready_def by (metis fst_conv)
  then show "(\<exists>y \<in> set (rdTenants (rwDb w)). tnID y = tnID t \<and> tnRuntime y = RuntimeReady) \<or> probed lib t w'"
    using row_frame_ready[OF _ assms(2-4)] by blast
next
  show "is_ok res \<and> plan = PlanTenantAction t \<and> tnDesired t = DesiredEnabled \<and> tnRuntime t \<noteq> RuntimeDeleting
      \<longrightarrow> probed lib t w'"
    using shows_Apply[of t lib] assms by (auto simp: io_shows_def is_ok_iff)
qed

theorem ready_only_after_probe_witness:
  "probed rx_lib (rx_tenant DesiredEnabled RuntimeDegraded)
     (fst (runtime_Apply rx_lib (rx_tenant DesiredEnabled RuntimeDegraded)
        \<lparr>plAction = ActionEnable, plReason = []\<rparr> (rx_world True (rx_tenant DesiredEnabled RuntimeDegraded))))"
proof -
  let ?t = "rx_tenant DesiredEnabled RuntimeDegraded"
  let ?plan = "\<lparr>plAction = ActionEnable, plReason = []\<rparr>"
  let ?w = "rx_world True ?t"
  let ?a = "runtime_Apply rx_lib ?t ?plan ?w"
  have m: "map (\<lambda>x. (tnID x, tnRuntime x)) (rdTenants (rwDb (fst ?a))) = [(rx_new 200, RuntimeReady)]" by code_simp
  then obtain x where x: "x \<in> set (rdTenants (rwDb (fst ?a)))" "tnID x = rx_new 200" "tnRuntime x = RuntimeReady"
    by (auto simp: map_eq_Cons_conv)
  have "rdTenants (rwDb ?w) = [?t]" by (simp add: rx_world_def)
  then show ?thesis
    using ready_only_after_probe[of rx_lib ?t ?plan ?w "fst ?a" "snd ?a" x] x by (simp add: rx_tenant_def)
qed

section \<open>Deletion\<close>



text \<open>
  Property C18: no cycle of either runtime removes or changes the identity of a tenant that is wanted, and the tables
  of the control plane and of its runtime stay consistent over any number of cycles, whatever the provider answers and
  whichever operations fail.
\<close>

theorem cycles_keep_wanted:
  assumes "rcApply rc = runtime_Apply lib \<or> rcApply rc = noop_Apply" and "cycle_ok (rwDb w)"
  shows "cycle_ok (rwDb (run_cycles rc n w))
    \<and> (\<forall>x \<in> set (rdTenants (rwDb w)). tnDesired x \<noteq> DesiredDeleted
        \<longrightarrow> (\<exists>y \<in> set (rdTenants (rwDb (run_cycles rc n w))). same_identity x y))"
  using assms(1) coolify.cycles_keep[OF _ assms(2)] noop.cycles_keep[OF _ assms(2)] by blast

theorem cycles_keep_wanted_witness:
  "\<exists>y \<in> set (rdTenants (rwDb (run_cycles rx_rc 3 (rx_world True (rx_tenant DesiredEnabled RuntimeReady))))).
     same_identity (rx_tenant DesiredEnabled RuntimeReady) y"
  using cycles_keep_wanted[of rx_rc rx_lib "rx_world True (rx_tenant DesiredEnabled RuntimeReady)" 3] rx_ok
  by (simp add: rx_rc_def) (simp add: rx_world_def rx_tenant_def)

text \<open>
  Property C20: a cycle that ends without an error has counted every tenant exactly once, and has recorded one run for
  every tenant that is still there.
\<close>

theorem every_tenant_is_accounted_for:
  assumes "rcApply rc = runtime_Apply lib \<or> rcApply rc = noop_Apply" and "RunOnce rc w = (w', s, None)"
    and "cycle_ok (rwDb w)"
  shows "smApplied s + smNoop s + smDeferred s + smFailures s = length (rdTenants (rwDb w))
    \<and> (\<forall>x \<in> set (rdTenants (rwDb w')). runs_of (rwDb w') (tnID x) = Suc (runs_of (rwDb w) (tnID x)))"
  using RunOnce_total[OF assms(2)] RunOnce_scanned[OF assms(2)]
    assms(1) coolify.cycle_runs[OF _ assms(2,3)] noop.cycle_runs[OF _ assms(2,3)]
  by (auto simp: total_def)

theorem every_tenant_is_accounted_for_witness:
  "smDeferred (fst (snd (RunOnce (rx_rc\<lparr>rcApply := noop_Apply\<rparr>) (rx_world True (rx_tenant DesiredEnabled RuntimeDegraded))))) = 1
   \<and> smFailures (fst (snd (RunOnce (rx_rc\<lparr>rcApply := noop_Apply\<rparr>)
        (rx_world True (rx_tenant DesiredEnabled RuntimeDegraded))))) = 0"
proof -
  let ?w = "rx_world True (rx_tenant DesiredEnabled RuntimeDegraded)"
  let ?rc = "rx_rc\<lparr>rcApply := noop_Apply\<rparr>"
  have n: "snd (snd (RunOnce ?rc ?w)) = None" by code_simp
  have d: "smDeferred (fst (snd (RunOnce ?rc ?w))) = 1" by code_simp
  have o: "RunOnce ?rc ?w = (fst (RunOnce ?rc ?w), fst (snd (RunOnce ?rc ?w)), None)" using n by (metis prod.collapse)
  have ok: "cycle_ok (rwDb ?w)" by (rule rx_ok)
  show ?thesis using every_tenant_is_accounted_for[OF _ o ok] d by (simp add: rx_world_def)
qed





section \<open>Created services and their addresses\<close>

lemma secrets_db: "rwDb (fst (resolve_secrets lib t ds acc w)) = rwDb w"
proof (induction ds arbitrary: acc w)
  case (Cons d ds)
  obtain p r where "rlSecret lib (rwNet w) (BuildTenantSecretPath (tnKey t) (tnService t) (SecretKey d)) = (p, r)" by force
  then show ?case using Cons.IH by (cases r) (simp_all add: io_bind_def io_try_net io_fail_def)
qed (simp add: io_return_def)

lemma render_db: "renderTenant lib t svc w = (w1, Inr rd) \<Longrightarrow> rwDb w1 = rwDb w"
  using secrets_db[of lib t "SecretContract svc" "[]" w]
  by (auto simp: renderTenant_def io_bind_def io_result_def io_fail_def split: option.splits prod.splits sum.splits)

text \<open>
  A service that was created at the provider is forgotten if the next call to the provider fails.  The
  action returns the error, and the database does not name the new service, so that the next cycle creates another one.
\<close>

theorem created_service_is_forgotten:
  assumes "tn_resource t = []" and "renderTenant lib t svc w = (w1, Inr rd)"
    and "coCreate (rlOps lib) (rwNet w1) (rnCreate rd) = (p, Inr u)" and "coGet (rlOps lib) p u = (p', Inl e)"
  shows "snd (ensure lib t svc w) = Inl e \<and> rwNet (fst (ensure lib t svc w)) = p'
    \<and> rwDb (fst (ensure lib t svc w)) = rwDb w"
  using assms render_db[OF assms(2)]
  by (simp add: ensure_def io_bind_run[of "renderTenant lib t svc" w w1 rd, OF assms(2)] recorded_service_def
      create_service_def correct_service_def io_bind_def io_try_def io_net_def io_return_def)

definition rx_slow :: "rx_net runtime_lib" where
  "rx_slow = rx_lib\<lparr>rlOps := rx_ops\<lparr>coCreate := (\<lambda>p q. (p @ [(itoa_text (int (length p)), None)], Inr (itoa_text (int (length p))))),
       coGet := (\<lambda>p u. (p, Inl (CallError ''timeout'')))\<rparr>,
     rlTemplates := (\<lambda>sid. Some (\<lambda>t svc secrets. Inr
       (let q = \<lparr>crqType = [], crqName = tnName t, crqDescription = [], crqProject = [], crqEnvironmentName = [],
                crqEnvironment = [], crqServer = [], crqDestination = [], crqInstantDeploy = True, crqCompose = []\<rparr> in
        \<lparr>rnCreate = q, rnUpdate = q, rnEnvs = [], rnUpstream = buildUpstreamURL t svc\<rparr>)))\<rparr>"

definition rx_slow_world :: "rx_net world" where
  "rx_slow_world = (rx_world True ((rx_tenant DesiredEnabled RuntimeProvisioning)\<lparr>tnResource := None\<rparr>))\<lparr>rwNet := []\<rparr>"

theorem created_service_is_forgotten_witness:
  "snd (ensure rx_slow (rx_tenant DesiredEnabled RuntimeProvisioning\<lparr>tnResource := None\<rparr>) no_service rx_slow_world)
     = Inl (CallError ''timeout'')
   \<and> length (rwNet (run_cycles \<lparr>rcLib = rx_slow, rcApply = runtime_Apply rx_slow, rcCheck = (\<lambda>n. None)\<rparr> 3 rx_slow_world)) = 3"
proof
  let ?t = "rx_tenant DesiredEnabled RuntimeProvisioning\<lparr>tnResource := None\<rparr>"
  let ?r = "renderTenant rx_slow ?t no_service rx_slow_world"
  obtain rd where r: "?r = (rx_slow_world, Inr rd)"
    by (simp add: renderTenant_def rx_slow_def no_service_def io_result_def io_return_def)
  show "snd (ensure rx_slow ?t no_service rx_slow_world) = Inl (CallError ''timeout'')"
    using created_service_is_forgotten[OF _ r] by (simp add: rx_tenant_def rx_slow_def)
next
  show "length (rwNet (run_cycles \<lparr>rcLib = rx_slow, rcApply = runtime_Apply rx_slow, rcCheck = (\<lambda>n. None)\<rparr> 3 rx_slow_world)) = 3"
    by code_simp
qed

lemma itoa_text_port:
  assumes "0 < n" "n < 65536"
  shows "itoa_text n = format_int n"
proof -
  have "signed_take_bit 63 n = n" by (rule signed_take_bit_int_eq_self) (use assms in simp_all)
  then have s: "sint (word_of_int n :: 64 word) = n" by (simp add: signed_of_int)
  then show ?thesis using itoa_format[of "word_of_int n"] assms by (simp add: itoa_text_def)
qed

lemma not_blank_http: "\<not> blank (''http://'' @ x)"
proof
  assume "blank (''http://'' @ x)"
  then have "word_len space_encodings (''http://'' @ x) \<noteq> 0" by (rule blank_head) simp
  then show False by (simp add: word_len_def space_encodings_def)
qed

text \<open>
  The address that the runtime builds for a tenant passes the checks of the edge.  Once the row is ready and
  names that address, the edge resolves the tenant to it, provided that the parser of URLs takes it apart as written.
\<close>

theorem provisioned_address_is_resolved:
  assumes "q_GetTenantUpstream t sub sid = Some r" and "cache_ServiceByID cache sid = Some svc"
    and "tnDesired r = DesiredEnabled" and "tnRuntime r = RuntimeReady" and "\<not> tenantRuntimeModeStaticRow r"
    and "tnDNS r = BuildTenantInstanceName (tnService r) (tnKey r)" and "tnUpstream r = Some (buildUpstreamURL r svc)"
    and "0 < InternalPort svc" and "InternalPort svc < 65536"
    and "url_parse net (''http://'' @ tnDNS r @ '':'' @ format_int (InternalPort svc) @ InternalUpstreamPath svc) = Some u"
    and "uScheme u = ''http''" and "uHost u \<noteq> []" and "uHostname u = tnDNS r"
    and "uPort u = format_int (InternalPort svc)" and "uPath u = InternalUpstreamPath svc"
  shows "database_Resolve net cache (Inr t) sid sub = Inr \<lparr>utService = svc, utURL = u\<rparr>"
proof -
  have "itoa_text (InternalPort svc) = format_int (InternalPort svc)" by (rule itoa_text_port[OF assms(8,9)])
  then have b: "buildUpstreamURL r svc = ''http://'' @ tnDNS r @ '':'' @ format_int (InternalPort svc) @ InternalUpstreamPath svc"
    using assms(6) by (simp add: buildUpstreamURL_def)
  show ?thesis
    using assms b not_blank_http[of "tnDNS r @ '':'' @ format_int (InternalPort svc) @ InternalUpstreamPath svc"]
    by (simp add: database_Resolve_def check_upstream_url_def check_provisioned_url_def tenantRuntimeModeStaticRow_def
        guard_def)
qed

definition rx_edge :: tenant_row where
  "rx_edge = (rx_tenant DesiredEnabled RuntimeReady)\<lparr>tnDNS := ''mcp-notes-u-a'', tnUpstream := Some ''http://mcp-notes-u-a:8080/mcp''\<rparr>"

definition rx_edge_url :: parsed_url where
  "rx_edge_url = rx_url\<lparr>uHost := ''mcp-notes-u-a:8080'', uHostname := ''mcp-notes-u-a'', uPort := ''8080''\<rparr>"

theorem provisioned_address_is_resolved_witness:
  "database_Resolve \<lparr>url_parse = (\<lambda>s. if s = ''http://mcp-notes-u-a:8080/mcp'' then Some rx_edge_url else None),
      parse_ip = (\<lambda>_. None), lookup_ip = (\<lambda>_. Inr [])\<rparr> fx_cache (Inr [rx_edge]) ''notes'' ''alice''
    = Inr \<lparr>utService = fx_entry, utURL = rx_edge_url\<rparr>"
proof -
  have p: "format_int 8080 = ''8080''"
    by (simp add: format_int_def decimal.simps digit_char_def char_of_def bit_Suc_0_iff)
  have b: "buildUpstreamURL rx_edge fx_entry = ''http://mcp-notes-u-a:8080/mcp''"
  proof -
    have "itoa_text 8080 = ''8080''" by (rule itoa_text_port[of 8080, unfolded p]) simp_all
    then show ?thesis by (simp add: buildUpstreamURL_def BuildTenantInstanceName_def rx_edge_def rx_tenant_def fx_entry_def)
  qed
  have n: "\<not> tenantRuntimeModeStaticRow rx_edge"
    using rx_not_static[of DesiredEnabled RuntimeReady] by (simp add: rx_edge_def tenantRuntimeModeStaticRow_def)
  have q: "q_GetTenantUpstream [rx_edge] ''alice'' ''notes'' = Some rx_edge"
    by (simp add: q_GetTenantUpstream_def tenant_key_def rx_edge_def rx_tenant_def)
  have c: "cache_ServiceByID fx_cache ''notes'' = Some fx_entry"
    by (simp add: cache_ServiceByID_def snapshot_ServiceByID_def fx_cache_def fx_snapshot_def)
  have r: "tnDesired rx_edge = DesiredEnabled" "tnRuntime rx_edge = RuntimeReady" "tnDNS rx_edge = ''mcp-notes-u-a''"
    "tnUpstream rx_edge = Some ''http://mcp-notes-u-a:8080/mcp''"
    "BuildTenantInstanceName (tnService rx_edge) (tnKey rx_edge) = ''mcp-notes-u-a''"
    by (simp_all add: rx_edge_def rx_tenant_def BuildTenantInstanceName_def)
  have e: "InternalPort fx_entry = 8080" "InternalUpstreamPath fx_entry = ''/mcp''" by (simp_all add: fx_entry_def)
  show ?thesis
    by (rule provisioned_address_is_resolved[OF q c r(1,2) n])
       (simp_all add: r(3-5) b e p rx_edge_url_def rx_url_def)
qed

text \<open>
  \<^verbatim>\<open>itoa\<close> never runs over its buffer of 20 bytes and writes the decimal text of every 64-bit integer, but for
  the smallest one, of which it writes the sign alone.
\<close>

theorem itoa_writes_decimal:
  "itoa v = Some (if sint v = - (2 ^ 63) then ''-'' else format_int (sint v))"
  using itoa_format[of v] itoa_smallest[of v] by simp

end
