(* ===== verification/MemoryBank.thy ===== *)
theory MemoryBank
  imports Attestation
begin

text \<open>
  Projects of the memory bank and their shares (\<^verbatim>\<open>store.go\<close>, \<^verbatim>\<open>model.go\<close>, \<^verbatim>\<open>platformdb/controlplane.sql.go\<close>).  The
  owner of a tenant has projects; a share gives a collaborator access to one of them.  It is pending
  until the collaborator accepts it, and it ends when it expires or is revoked.
\<close>

section \<open>Data\<close>

record memory_project =
  mpID :: uuid
  mpOwner :: string
  mpTenant :: uuid
  mpService :: string
  mpKey :: string
  mpName :: string
  mpRoot :: string
  mpMetadata :: string
  mpArchivedAt :: "time option"
  mpCreatedAt :: time
  mpUpdatedAt :: time

record memory_share =
  msID :: uuid
  msProject :: uuid
  msOwner :: string
  msCollaborator :: string
  msPermission :: string
  msState :: string
  msSource :: string
  msCreatedBy :: string
  msAcceptedAt :: "time option"
  msRevokedAt :: "time option"
  msExpiresAt :: "time option"
  msMetadata :: string
  msCreatedAt :: time
  msUpdatedAt :: time

record project_row =
  pjID :: uuid
  pjOwner :: string
  pjTenant :: uuid
  pjService :: string
  pjKey :: string
  pjName :: string
  pjRoot :: string
  pjMetadata :: string
  pjArchivedAt :: "string option"
  pjCreatedAt :: string
  pjUpdatedAt :: string

record share_row =
  shID :: uuid
  shProject :: uuid
  shOwner :: string
  shCollaborator :: string
  shPermission :: string
  shState :: string
  shSource :: string
  shCreatedBy :: string
  shAcceptedAt :: "string option"
  shRevokedAt :: "string option"
  shExpiresAt :: "string option"
  shMetadata :: string
  shCreatedAt :: string
  shUpdatedAt :: string

record bank_db =
  bkControl :: control_db
  bkProjects :: "project_row list"
  bkShares :: "share_row list"

text \<open>
  What SQLite and the JSON package decide: valid JSON for the one and for the other, and \<^verbatim>\<open>julianday\<close>, of which
  only the order matters and which is NULL for a text that is no time.
\<close>

record bank_env =
  beJsonOk :: "string \<Rightarrow> bool"
  beValid :: "string \<Rightarrow> bool"
  beJulian :: "string \<Rightarrow> int option"
  beParse :: time_parsers

section \<open>Queries\<close>

definition subject_exists :: "control_db \<Rightarrow> string \<Rightarrow> bool" where
  "subject_exists db sub = list_ex (\<lambda>(s, _). s = sub) (cdSubjects db)"

definition project_key :: "project_row \<Rightarrow> string \<times> string \<times> string" where
  "project_key p = (pjOwner p, pjService p, pjKey p)"

text \<open>The owner, the service and the owner's tenant for that service exist.\<close>

definition project_refs_ok :: "control_db \<Rightarrow> project_row \<Rightarrow> bool" where
  "project_refs_ok db p =
     (subject_exists db (pjOwner p) \<and> list_ex (\<lambda>r. crID r = pjService p) (cdCatalog db)
      \<and> list_ex (\<lambda>t. tnID t = pjTenant p \<and> tenant_key (pjOwner p) (pjService p) t) (cdTenants db))"

text \<open>On a conflict the identifier and the creation stay, and a project that is archived stays archived.\<close>

definition q_UpsertMemoryBankProject :: "bank_env \<Rightarrow> string \<Rightarrow> bank_db \<Rightarrow> project_row \<Rightarrow> (db_error, bank_db \<times> uuid) result" where
  "q_UpsertMemoryBankProject env now db p =
     (if \<not> beJsonOk env (pjMetadata p) then Inl CheckFailed
      else case find (\<lambda>q. project_key q = project_key p) (bkProjects db) of
          Some old \<Rightarrow>
            if \<not> project_refs_ok (bkControl db) p then Inl ForeignKeyFailed
            else Inr (db\<lparr>bkProjects := map (\<lambda>q. if project_key q = project_key p
                then q\<lparr>pjTenant := pjTenant p, pjName := pjName p, pjRoot := pjRoot p, pjMetadata := pjMetadata p,
                       pjArchivedAt := or_else (pjArchivedAt p) (pjArchivedAt q), pjUpdatedAt := now\<rparr>
                else q) (bkProjects db)\<rparr>, pjID old)
        | None \<Rightarrow>
            if list_ex (\<lambda>q. pjID q = pjID p) (bkProjects db) then Inl UniqueFailed
            else if \<not> project_refs_ok (bkControl db) p then Inl ForeignKeyFailed
            else Inr (db\<lparr>bkProjects := bkProjects db @ [p\<lparr>pjCreatedAt := now, pjUpdatedAt := now\<rparr>]\<rparr>, pjID p))"

definition q_GetMemoryBankProject :: "bank_db \<Rightarrow> uuid \<Rightarrow> (db_error, project_row) result" where
  "q_GetMemoryBankProject db i =
     (case find (\<lambda>p. pjID p = i) (bkProjects db) of None \<Rightarrow> Inl NoRows | Some p \<Rightarrow> Inr p)"

definition q_GetMemoryBankProjectByOwnerKey :: "bank_db \<Rightarrow> string \<Rightarrow> string \<Rightarrow> string \<Rightarrow> (db_error, project_row) result" where
  "q_GetMemoryBankProjectByOwnerKey db owner sid k =
     (case find (\<lambda>p. project_key p = (owner, sid, k)) (bkProjects db) of None \<Rightarrow> Inl NoRows | Some p \<Rightarrow> Inr p)"

definition q_ListMemoryBankProjectsByOwner :: "bank_db \<Rightarrow> string \<Rightarrow> string \<Rightarrow> bool \<Rightarrow> project_row list" where
  "q_ListMemoryBankProjectsByOwner db owner sid archived =
     sort_key pjKey (filter (\<lambda>p. pjOwner p = owner \<and> pjService p = sid \<and> (archived \<or> pjArchivedAt p = None))
       (bkProjects db))"

definition share_open :: "share_row \<Rightarrow> bool" where
  "share_open s = (shState s = ''pending'' \<or> shState s = ''active'')"

definition before_expiry :: "bank_env \<Rightarrow> share_row \<Rightarrow> string option \<Rightarrow> bool" where
  "before_expiry env s at =
     (case shExpiresAt s of
        None \<Rightarrow> True
      | Some e \<Rightarrow> (case (beJulian env e, map_option (beJulian env) at) of (Some x, Some (Some y)) \<Rightarrow> y < x | _ \<Rightarrow> False))"

definition after_expiry :: "bank_env \<Rightarrow> share_row \<Rightarrow> string \<Rightarrow> bool" where
  "after_expiry env s now =
     (case shExpiresAt s of
        None \<Rightarrow> False
      | Some e \<Rightarrow> (case (beJulian env e, beJulian env now) of (Some x, Some y) \<Rightarrow> x \<le> y | _ \<Rightarrow> False))"

definition project_live :: "bank_db \<Rightarrow> uuid \<Rightarrow> bool" where
  "project_live db i = list_ex (\<lambda>p. pjID p = i \<and> pjArchivedAt p = None) (bkProjects db)"

definition share_states :: "string list" where
  "share_states = [''pending'', ''active'', ''revoked'', ''expired'']"

definition share_checks_ok :: "bank_env \<Rightarrow> share_row \<Rightarrow> bool" where
  "share_checks_ok env s =
     (shPermission s \<in> {''view'', ''edit''} \<and> shState s \<in> set share_states
      \<and> shSource s \<in> {''oauth_consent'', ''admin'', ''migration''} \<and> beJsonOk env (shMetadata s))"

definition share_refs_ok :: "bank_db \<Rightarrow> share_row \<Rightarrow> bool" where
  "share_refs_ok db s =
     (subject_exists (bkControl db) (shOwner s) \<and> subject_exists (bkControl db) (shCollaborator s)
      \<and> subject_exists (bkControl db) (shCreatedBy s))"

text \<open>One row for a live project of the owner, otherwise none; the number of rows is returned.\<close>

definition q_InsertMemoryBankProjectShare :: "bank_env \<Rightarrow> string \<Rightarrow> bank_db \<Rightarrow> share_row \<Rightarrow> (db_error, bank_db \<times> nat) result" where
  "q_InsertMemoryBankProjectShare env now db s =
     (if \<not> list_ex (\<lambda>p. pjID p = shProject s \<and> pjOwner p = shOwner s \<and> pjArchivedAt p = None) (bkProjects db)
      then Inr (db, 0)
      else if \<not> share_checks_ok env s then Inl CheckFailed
      else if list_ex (\<lambda>q. shID q = shID s) (bkShares db)
           \<or> share_open s \<and> list_ex (\<lambda>q. share_open q \<and> shProject q = shProject s
                \<and> shCollaborator q = shCollaborator s) (bkShares db)
      then Inl UniqueFailed
      else if \<not> share_refs_ok db s then Inl ForeignKeyFailed
      else Inr (db\<lparr>bkShares := bkShares db @ [s\<lparr>shAcceptedAt := None, shRevokedAt := None, shCreatedAt := now,
             shUpdatedAt := now\<rparr>]\<rparr>, 1))"

definition update_shares :: "(share_row \<Rightarrow> bool) \<Rightarrow> (share_row \<Rightarrow> share_row) \<Rightarrow> bank_db \<Rightarrow> bank_db \<times> nat" where
  "update_shares P f db =
     (db\<lparr>bkShares := map (\<lambda>s. if P s then f s else s) (bkShares db)\<rparr>, length (filter P (bkShares db)))"

definition q_ExpireMemoryBankProjectShares :: "bank_env \<Rightarrow> string \<Rightarrow> bank_db \<Rightarrow> string \<Rightarrow> bank_db \<times> nat" where
  "q_ExpireMemoryBankProjectShares env now db at =
     update_shares (\<lambda>s. share_open s \<and> after_expiry env s at)
       (\<lambda>s. s\<lparr>shState := ''expired'', shUpdatedAt := now\<rparr>) db"

definition q_ActivateMemoryBankProjectShare :: "bank_env \<Rightarrow> string \<Rightarrow> bank_db \<Rightarrow> string option \<Rightarrow> uuid \<Rightarrow> string
    \<Rightarrow> bank_db \<times> nat" where
  "q_ActivateMemoryBankProjectShare env now db at i collaborator =
     update_shares (\<lambda>s. shID s = i \<and> shCollaborator s = collaborator \<and> share_open s \<and> before_expiry env s at
         \<and> project_live db (shProject s))
       (\<lambda>s. s\<lparr>shState := ''active'', shAcceptedAt := at, shUpdatedAt := now\<rparr>) db"

definition q_RevokeMemoryBankProjectShare :: "string \<Rightarrow> bank_db \<Rightarrow> string option \<Rightarrow> uuid \<Rightarrow> bank_db \<times> nat" where
  "q_RevokeMemoryBankProjectShare now db at i =
     update_shares (\<lambda>s. shID s = i \<and> shState s \<noteq> ''revoked'')
       (\<lambda>s. s\<lparr>shState := ''revoked'', shRevokedAt := at, shUpdatedAt := now\<rparr>) db"

definition q_GetMemoryBankProjectShare :: "bank_db \<Rightarrow> uuid \<Rightarrow> (db_error, share_row) result" where
  "q_GetMemoryBankProjectShare db i =
     (case find (\<lambda>s. shID s = i) (bkShares db) of None \<Rightarrow> Inl NoRows | Some s \<Rightarrow> Inr s)"

text \<open>Shares of a collaborator, the latest change first; the join asks for the project.\<close>

definition share_visible :: "bank_env \<Rightarrow> bank_db \<Rightarrow> bool \<Rightarrow> string \<Rightarrow> share_row \<Rightarrow> bool" where
  "share_visible env db inactive now s =
     (inactive \<or> share_open s \<and> before_expiry env s (Some now) \<and> project_live db (shProject s))"

definition q_ListMemoryBankProjectSharesForSubject :: "bank_env \<Rightarrow> bank_db \<Rightarrow> string \<Rightarrow> bool \<Rightarrow> string \<Rightarrow> share_row list" where
  "q_ListMemoryBankProjectSharesForSubject env db collaborator inactive now =
     rev (sort_key shUpdatedAt (rev (filter (\<lambda>s. shCollaborator s = collaborator
         \<and> list_ex (\<lambda>p. pjID p = shProject s) (bkProjects db)
         \<and> share_visible env db inactive now s) (bkShares db))))"

definition q_ListMemoryBankProjectSharesForSubjectService :: "bank_env \<Rightarrow> bank_db \<Rightarrow> string \<Rightarrow> string \<Rightarrow> bool \<Rightarrow> string
    \<Rightarrow> share_row list" where
  "q_ListMemoryBankProjectSharesForSubjectService env db collaborator sid inactive now =
     rev (sort_key shUpdatedAt (rev (filter (\<lambda>s. shCollaborator s = collaborator
         \<and> list_ex (\<lambda>p. pjID p = shProject s \<and> pjService p = sid) (bkProjects db)
         \<and> share_visible env db inactive now s) (bkShares db))))"

text \<open>What goes with a tenant that is deleted (\<^verbatim>\<open>ON DELETE CASCADE\<close>).\<close>

definition bank_delete_tenant :: "uuid \<Rightarrow> bank_db \<Rightarrow> bank_db" where
  "bank_delete_tenant tid db =
     (let kept = filter (\<lambda>p. pjTenant p \<noteq> tid) (bkProjects db) in
      db\<lparr>bkControl := (bkControl db)\<lparr>cdTenants := q_DeleteTenantInstance (cdTenants (bkControl db)) tid\<rparr>,
         bkProjects := kept, bkShares := filter (\<lambda>s. list_ex (\<lambda>p. pjID p = shProject s) kept) (bkShares db)\<rparr>)"

section \<open>Operations\<close>

definition one_tenant :: "time_parsers \<Rightarrow> (store_error, tenant_row) result \<Rightarrow> (store_error, tenant_row) result" where
  "one_tenant tp r =
     (case r of
        Inl e \<Rightarrow> Inl (if e = StoreDb NoRows then ErrTenantInstanceNotFound else e)
      | Inr t \<Rightarrow> bind_result (convertTenantInstances tp [t]) (\<lambda>ts. Inr (hd ts)))"

definition GetTenantInstance :: "db_error option \<Rightarrow> time_parsers \<Rightarrow> tenant_table \<Rightarrow> uuid \<Rightarrow> (store_error, tenant_row) result" where
  "GetTenantInstance fault tp t tid = one_tenant tp (faulty fault (q_GetTenantInstance t tid))"

definition GetTenantInstanceBySubjectService :: "db_error option \<Rightarrow> time_parsers \<Rightarrow> tenant_table \<Rightarrow> string \<Rightarrow> string
    \<Rightarrow> (store_error, tenant_row) result" where
  "GetTenantInstanceBySubjectService fault tp t sub sid =
     one_tenant tp (faulty fault (q_GetTenantInstanceBySubjectService t sub sid))"

definition normalizeMemoryBankMetadata :: "bank_env \<Rightarrow> string \<Rightarrow> (store_error, string) result" where
  "normalizeMemoryBankMetadata env m =
     (if blank m then Inr ''{}''
      else if \<not> beValid env (trim_space m) then Inl ErrMemoryBankInvalidMetadata else Inr (trim_space m))"

definition project_params :: "control_clock \<Rightarrow> uuid \<Rightarrow> string \<Rightarrow> memory_project \<Rightarrow> project_row" where
  "project_params c new metadata p =
     \<lparr>pjID = or_fresh (mpID p) new, pjOwner = mpOwner p, pjTenant = mpTenant p, pjService = mpService p, pjKey = mpKey p,
      pjName = mpName p, pjRoot = mpRoot p, pjMetadata = metadata,
      pjArchivedAt = sqlNullTimePtr (cnFormat c) (mpArchivedAt p), pjCreatedAt = cnNow c, pjUpdatedAt = cnNow c\<rparr>"

text \<open>The n-th query of an operation fails if \<^verbatim>\<open>f n\<close> is an error.\<close>

definition UpsertMemoryBankProject :: "bank_env \<Rightarrow> (nat \<Rightarrow> db_error option) \<Rightarrow> control_clock \<Rightarrow> uuid \<Rightarrow> bank_db \<Rightarrow> memory_project
    \<Rightarrow> bank_db \<times> (store_error, uuid) result" where
  "UpsertMemoryBankProject env f c new db p =
     (case bind_result (GetTenantInstance (f 0) (beParse env) (cdTenants (bkControl db)) (mpTenant p)) (\<lambda>t.
             if tnSubject t \<noteq> mpOwner p \<or> tnService t \<noteq> mpService p
             then Inl (StoreError ''memory bank project owner tenant mismatch'')
             else bind_result (normalizeMemoryBankMetadata env (mpMetadata p)) (\<lambda>m.
               faulty (f 1) (q_UpsertMemoryBankProject env (cnNow c) db (project_params c new m p)))) of
        Inl e \<Rightarrow> (db, Inl e)
      | Inr (db', i) \<Rightarrow> (db', Inr i))"

text \<open>Reading back.\<close>

definition convertMemoryBankProject :: "time_parsers \<Rightarrow> project_row \<Rightarrow> (store_error, memory_project) result" where
  "convertMemoryBankProject tp r =
     (case parseSQLiteTime tp (pjCreatedAt r) of
        None \<Rightarrow> Inl (StoreError ''parse memory bank project created_at'')
      | Some created \<Rightarrow>
         (case parseSQLiteTime tp (pjUpdatedAt r) of
            None \<Rightarrow> Inl (StoreError ''parse memory bank project updated_at'')
          | Some updated \<Rightarrow>
             (case parseSQLiteNullTime tp (pjArchivedAt r) of
                None \<Rightarrow> Inl (StoreError ''parse memory bank project archived_at'')
              | Some archived \<Rightarrow> Inr
                  \<lparr>mpID = pjID r, mpOwner = pjOwner r, mpTenant = pjTenant r, mpService = pjService r, mpKey = pjKey r,
                   mpName = pjName r, mpRoot = pjRoot r, mpMetadata = pjMetadata r, mpArchivedAt = archived,
                   mpCreatedAt = created, mpUpdatedAt = updated\<rparr>)))"

definition convertMemoryBankProjectShare :: "time_parsers \<Rightarrow> share_row \<Rightarrow> (store_error, memory_share) result" where
  "convertMemoryBankProjectShare tp r =
     (case (parseSQLiteTime tp (shCreatedAt r), parseSQLiteTime tp (shUpdatedAt r)) of
        (None, _) \<Rightarrow> Inl (StoreError ''parse memory bank share created_at'')
      | (_, None) \<Rightarrow> Inl (StoreError ''parse memory bank share updated_at'')
      | (Some created, Some updated) \<Rightarrow>
         (case (parseSQLiteNullTime tp (shAcceptedAt r), parseSQLiteNullTime tp (shRevokedAt r),
                parseSQLiteNullTime tp (shExpiresAt r)) of
            (None, _) \<Rightarrow> Inl (StoreError ''parse memory bank share accepted_at'')
          | (_, None, _) \<Rightarrow> Inl (StoreError ''parse memory bank share revoked_at'')
          | (_, _, None) \<Rightarrow> Inl (StoreError ''parse memory bank share expires_at'')
          | (Some accepted, Some revoked, Some expires) \<Rightarrow> Inr
              \<lparr>msID = shID r, msProject = shProject r, msOwner = shOwner r, msCollaborator = shCollaborator r,
               msPermission = shPermission r, msState = shState r, msSource = shSource r, msCreatedBy = shCreatedBy r,
               msAcceptedAt = accepted, msRevokedAt = revoked, msExpiresAt = expires, msMetadata = shMetadata r,
               msCreatedAt = created, msUpdatedAt = updated\<rparr>))"

definition GetMemoryBankProject :: "bank_env \<Rightarrow> db_error option \<Rightarrow> bank_db \<Rightarrow> uuid \<Rightarrow> (store_error, memory_project) result" where
  "GetMemoryBankProject env fault db i =
     bind_result (faulty fault (q_GetMemoryBankProject db i)) (convertMemoryBankProject (beParse env))"

definition GetMemoryBankProjectByOwnerKey :: "bank_env \<Rightarrow> db_error option \<Rightarrow> bank_db \<Rightarrow> string \<Rightarrow> string \<Rightarrow> string
    \<Rightarrow> (store_error, memory_project) result" where
  "GetMemoryBankProjectByOwnerKey env fault db owner sid k =
     bind_result (faulty fault (q_GetMemoryBankProjectByOwnerKey db owner sid k)) (convertMemoryBankProject (beParse env))"

definition ListMemoryBankProjectsByOwner :: "bank_env \<Rightarrow> db_error option \<Rightarrow> bank_db \<Rightarrow> string \<Rightarrow> string \<Rightarrow> bool
    \<Rightarrow> (store_error, memory_project list) result" where
  "ListMemoryBankProjectsByOwner env fault db owner sid archived =
     bind_result (faulty fault (Inr (q_ListMemoryBankProjectsByOwner db owner sid archived)))
       (collect_results (convertMemoryBankProject (beParse env)))"

definition GetMemoryBankProjectShare :: "bank_env \<Rightarrow> db_error option \<Rightarrow> bank_db \<Rightarrow> uuid \<Rightarrow> (store_error, memory_share) result" where
  "GetMemoryBankProjectShare env fault db i =
     bind_result (faulty fault (q_GetMemoryBankProjectShare db i)) (convertMemoryBankProjectShare (beParse env))"

definition share_params :: "control_clock \<Rightarrow> uuid \<Rightarrow> string \<Rightarrow> memory_share \<Rightarrow> share_row" where
  "share_params c new metadata s =
     \<lparr>shID = or_fresh (msID s) new, shProject = msProject s, shOwner = msOwner s, shCollaborator = msCollaborator s,
      shPermission = msPermission s, shState = (if msState s = [] then ''pending'' else msState s),
      shSource = (if msSource s = [] then ''oauth_consent'' else msSource s), shCreatedBy = msCreatedBy s,
      shAcceptedAt = None, shRevokedAt = None, shExpiresAt = sqlNullTimePtr (cnFormat c) (msExpiresAt s),
      shMetadata = metadata, shCreatedAt = cnNow c, shUpdatedAt = cnNow c\<rparr>"

definition create_share_body :: "bank_env \<Rightarrow> control_clock \<Rightarrow> share_row \<Rightarrow> bank_db \<Rightarrow> (store_error, bank_db) result" where
  "create_share_body env c s db =
     bind_result (lift_db (q_InsertMemoryBankProjectShare env (cnNow c)
         (fst (q_ExpireMemoryBankProjectShares env (cnNow c) db (cnFormat c (cnTime c)))) s)) (\<lambda>(db', rows).
       if rows = 0 then Inl ErrMemoryBankProjectNotShareable else Inr db')"

definition CreateMemoryBankProjectShare :: "bank_env \<Rightarrow> db_error option \<Rightarrow> control_clock \<Rightarrow> uuid \<Rightarrow> bank_db \<Rightarrow> memory_share
    \<Rightarrow> bank_db \<times> (store_error, uuid) result" where
  "CreateMemoryBankProjectShare env fault c new db s =
     (if (case msExpiresAt s of None \<Rightarrow> False | Some e \<Rightarrow> e \<le> cnTime c) then (db, Inl ErrMemoryBankShareExpired)
      else case normalizeMemoryBankMetadata env (msMetadata s) of
          Inl e \<Rightarrow> (db, Inl e)
        | Inr m \<Rightarrow>
           (case with_tx fault db (create_share_body env c (share_params c new m s)) of
              (db', Inl e) \<Rightarrow> (db', Inl e)
            | (db', Inr _) \<Rightarrow> (db', Inr (or_fresh (msID s) new))))"

definition expireMemoryBankProjectShares :: "bank_env \<Rightarrow> db_error option \<Rightarrow> control_clock \<Rightarrow> bank_db \<Rightarrow> time
    \<Rightarrow> bank_db \<times> (store_error, unit) result" where
  "expireMemoryBankProjectShares env fault c db now =
     (case fault of
        Some e \<Rightarrow> (db, Inl (StoreDb e))
      | None \<Rightarrow> (fst (q_ExpireMemoryBankProjectShares env (cnNow c) db (cnFormat c (or_now c now))), Inr ()))"

definition list_shares :: "bank_env \<Rightarrow> (nat \<Rightarrow> db_error option) \<Rightarrow> control_clock \<Rightarrow> bank_db \<Rightarrow> (bank_db \<Rightarrow> share_row list)
    \<Rightarrow> bank_db \<times> (store_error, memory_share list) result" where
  "list_shares env f c db q =
     (case expireMemoryBankProjectShares env (f 0) c db (cnTime c) of
        (db', Inl e) \<Rightarrow> (db', Inl e)
      | (db', Inr _) \<Rightarrow> (db', bind_result (faulty (f 1) (Inr (q db')))
          (collect_results (convertMemoryBankProjectShare (beParse env)))))"

definition ListMemoryBankProjectSharesForSubject :: "bank_env \<Rightarrow> (nat \<Rightarrow> db_error option) \<Rightarrow> control_clock \<Rightarrow> bank_db \<Rightarrow> string
    \<Rightarrow> bool \<Rightarrow> bank_db \<times> (store_error, memory_share list) result" where
  "ListMemoryBankProjectSharesForSubject env f c db collaborator inactive =
     list_shares env f c db (\<lambda>db'.
       q_ListMemoryBankProjectSharesForSubject env db' collaborator inactive (cnFormat c (cnTime c)))"

definition ListMemoryBankProjectSharesForSubjectService :: "bank_env \<Rightarrow> (nat \<Rightarrow> db_error option) \<Rightarrow> control_clock \<Rightarrow> bank_db
    \<Rightarrow> string \<Rightarrow> string \<Rightarrow> bool \<Rightarrow> bank_db \<times> (store_error, memory_share list) result" where
  "ListMemoryBankProjectSharesForSubjectService env f c db collaborator sid inactive =
     list_shares env f c db (\<lambda>db'.
       q_ListMemoryBankProjectSharesForSubjectService env db' collaborator sid inactive (cnFormat c (cnTime c)))"

definition ActivateMemoryBankProjectShare :: "bank_env \<Rightarrow> (nat \<Rightarrow> db_error option) \<Rightarrow> control_clock \<Rightarrow> bank_db \<Rightarrow> uuid \<Rightarrow> string
    \<Rightarrow> time \<Rightarrow> bank_db \<times> (store_error, bool) result" where
  "ActivateMemoryBankProjectShare env f c db i collaborator acceptedAt =
     (case expireMemoryBankProjectShares env (f 0) c db acceptedAt of
        (db1, Inl e) \<Rightarrow> (db1, Inl e)
      | (db1, Inr _) \<Rightarrow>
         (case f 1 of
            Some e \<Rightarrow> (db1, Inl (StoreDb e))
          | None \<Rightarrow>
             (case q_ActivateMemoryBankProjectShare env (cnNow c) db1 (sqlNullTime (cnFormat c) acceptedAt) i collaborator of
                (db2, rows) \<Rightarrow> (db2, Inr (0 < rows)))))"

definition RevokeMemoryBankProjectShare :: "db_error option \<Rightarrow> control_clock \<Rightarrow> bank_db \<Rightarrow> uuid \<Rightarrow> time
    \<Rightarrow> bank_db \<times> (store_error, bool) result" where
  "RevokeMemoryBankProjectShare fault c db i revokedAt =
     (case fault of
        Some e \<Rightarrow> (db, Inl (StoreDb e))
      | None \<Rightarrow>
         (case q_RevokeMemoryBankProjectShare (cnNow c) db (sqlNullTime (cnFormat c) revokedAt) i of
            (db', rows) \<Rightarrow> (db', Inr (0 < rows))))"

section \<open>Well-formed tables\<close>

definition share_pair :: "share_row \<Rightarrow> uuid \<times> string" where
  "share_pair s = (shProject s, shCollaborator s)"

text \<open>Identifiers and keys are unique, a share is one of its owner's project, and a collaborator has at most one open share of a project.\<close>

definition bank_ok :: "bank_db \<Rightarrow> bool" where
  "bank_ok db =
     (distinct (map pjID (bkProjects db)) \<and> distinct (map project_key (bkProjects db)) \<and> distinct (map shID (bkShares db))
      \<and> list_all (\<lambda>s. shState s \<in> set share_states
          \<and> list_ex (\<lambda>p. pjID p = shProject s \<and> pjOwner p = shOwner s) (bkProjects db)) (bkShares db)
      \<and> distinct (map share_pair (filter share_open (bkShares db))))"

lemma bank_ok_control [simp]: "bank_ok (db\<lparr>bkControl := c\<rparr>) = bank_ok db"
  by (simp add: bank_ok_def)

lemma bank_ok_share: "bank_ok db \<Longrightarrow> s \<in> set (bkShares db) \<Longrightarrow> t \<in> set (bkShares db) \<Longrightarrow> shID s = shID t \<Longrightarrow> s = t"
  by (auto simp: bank_ok_def distinct_map dest: inj_onD)

lemma distinct_filter_map:
  assumes "distinct (map h (filter P xs))" "\<And>x. P (g x) \<Longrightarrow> P x" "\<And>x. h (g x) = h x"
  shows "distinct (map h (filter P (map g xs)))"
  using assms(1)
proof (induction xs)
  case (Cons x xs)
  have "h ` {y \<in> set (map g xs). P y} \<subseteq> h ` {y \<in> set xs. P y}"
    using assms(2,3) by force
  then show ?case using Cons assms(2)[of x] by (auto simp: assms(3) split: if_splits)
qed simp

section \<open>The life of a share\<close>

inductive share_step :: "share_row \<Rightarrow> share_row \<Rightarrow> bool" where
  share_expires: "share_open s \<Longrightarrow> share_step s (s\<lparr>shState := ''expired'', shUpdatedAt := now\<rparr>)"
| share_accepted: "share_open s \<Longrightarrow> share_step s (s\<lparr>shState := ''active'', shAcceptedAt := at, shUpdatedAt := now\<rparr>)"
| share_revoked: "shState s \<noteq> ''revoked'' \<Longrightarrow>
    share_step s (s\<lparr>shState := ''revoked'', shRevokedAt := at, shUpdatedAt := now\<rparr>)"

inductive_cases share_stepE: "share_step s s'"

text \<open>What no step changes.\<close>

definition share_identity :: "share_row \<Rightarrow> share_row" where
  "share_identity s = s\<lparr>shState := [], shAcceptedAt := None, shRevokedAt := None, shUpdatedAt := []\<rparr>"

lemma share_identity_columns:
  "share_identity s = share_identity t \<Longrightarrow> shID s = shID t"
  "share_identity s = share_identity t \<Longrightarrow> shProject s = shProject t"
  "share_identity s = share_identity t \<Longrightarrow> shOwner s = shOwner t"
  "share_identity s = share_identity t \<Longrightarrow> shCollaborator s = shCollaborator t"
  "share_identity s = share_identity t \<Longrightarrow> shPermission s = shPermission t"
  "share_identity s = share_identity t \<Longrightarrow> shExpiresAt s = shExpiresAt t"
  by (cases s; cases t; simp add: share_identity_def)+

lemma share_step_identity: "share_step s s' \<Longrightarrow> share_identity s' = share_identity s"
  by (erule share_stepE) (simp_all add: share_identity_def)

lemma share_step_open: "share_step s s' \<Longrightarrow> share_open s' \<Longrightarrow> share_open s"
  by (erule share_stepE) (auto simp: share_open_def)

lemma share_step_state: "share_step s s' \<Longrightarrow> shState s' \<in> set share_states"
  by (erule share_stepE) (simp_all add: share_states_def)

abbreviation share_steps :: "share_row \<Rightarrow> share_row \<Rightarrow> bool" where
  "share_steps \<equiv> share_step\<^sup>*\<^sup>*"

lemma share_steps_identity: "share_steps s s' \<Longrightarrow> share_identity s' = share_identity s"
  by (induction rule: rtranclp_induct) (simp_all add: share_step_identity)

lemma share_steps_open: "share_steps s s' \<Longrightarrow> share_open s' \<Longrightarrow> share_open s"
  by (induction rule: rtranclp_induct) (auto dest: share_step_open)

lemma share_steps_revoked: "share_steps s s' \<Longrightarrow> shState s = ''revoked'' \<Longrightarrow> s' = s"
  by (induction rule: rtranclp_induct) (auto elim: share_stepE simp: share_open_def)

text \<open>Every share lives on, and every other one began as a pending share.\<close>

definition share_born :: "bank_db \<Rightarrow> share_row \<Rightarrow> bool" where
  "share_born db s \<longleftrightarrow> shID s \<notin> shID ` set (bkShares db) \<and> (\<exists>s0. shState s0 = ''pending'' \<and> share_steps s0 s)"

definition shares_follow :: "bank_db \<Rightarrow> bank_db \<Rightarrow> bool" where
  "shares_follow db db' \<longleftrightarrow>
     (\<forall>s \<in> set (bkShares db). \<exists>s' \<in> set (bkShares db'). share_steps s s')
     \<and> (\<forall>s' \<in> set (bkShares db'). (\<exists>s \<in> set (bkShares db). share_steps s s') \<or> share_born db s')"

lemma shares_follow_same [simp]: "bkShares db' = bkShares db \<Longrightarrow> shares_follow db db'"
  by (auto simp: shares_follow_def)

lemma shares_follow_trans:
  assumes "shares_follow a b" "shares_follow b c"
  shows "shares_follow a c"
  unfolding shares_follow_def
proof (intro conjI ballI)
  fix s assume "s \<in> set (bkShares a)"
  then show "\<exists>s' \<in> set (bkShares c). share_steps s s'"
    using assms unfolding shares_follow_def by (meson rtranclp_trans)
next
  fix s' assume s': "s' \<in> set (bkShares c)"
  have same: "share_steps s t \<Longrightarrow> shID t = shID s" for s t
    by (rule share_identity_columns(1)[OF share_steps_identity])
  have ids: "shID ` set (bkShares a) \<subseteq> shID ` set (bkShares b)"
  proof
    fix i assume "i \<in> shID ` set (bkShares a)"
    then obtain s where s: "s \<in> set (bkShares a)" "i = shID s" by auto
    then obtain t where "t \<in> set (bkShares b)" "share_steps s t"
      using assms(1) unfolding shares_follow_def by blast
    then show "i \<in> shID ` set (bkShares b)" using same[of s t] s(2) by (metis imageI)
  qed
  from s' assms(2) consider t where "t \<in> set (bkShares b)" "share_steps t s'" | "share_born b s'"
    unfolding shares_follow_def by blast
  then show "(\<exists>s \<in> set (bkShares a). share_steps s s') \<or> share_born a s'"
  proof cases
    case 1
    from 1(1) assms(1) have "(\<exists>s \<in> set (bkShares a). share_steps s t) \<or> share_born a t"
      unfolding shares_follow_def by blast
    then show ?thesis
    proof
      assume "share_born a t"
      then show ?thesis using 1(2) same[OF 1(2)] unfolding share_born_def by (metis rtranclp_trans)
    qed (use 1(2) rtranclp_trans in fast)
  next
    case 2
    then show ?thesis using ids by (auto simp: share_born_def)
  qed
qed

lemma update_shares_follow:
  assumes "bank_ok db" "\<And>s. P s \<Longrightarrow> share_step s (f s)"
  shows "bank_ok (fst (update_shares P f db)) \<and> shares_follow db (fst (update_shares P f db))"
proof
  define g where "g = (\<lambda>s. if P s then f s else s)"
  have db': "fst (update_shares P f db) = db\<lparr>bkShares := map g (bkShares db)\<rparr>"
    by (simp add: update_shares_def g_def)
  have id: "share_identity (g s) = share_identity s" for s using assms(2) share_step_identity by (simp add: g_def)
  note cols [simp] = share_identity_columns[OF id]
  have "distinct (map share_pair (filter share_open (map g (bkShares db))))"
  proof (rule distinct_filter_map)
    show "distinct (map share_pair (filter share_open (bkShares db)))" using assms(1) by (simp add: bank_ok_def)
    show "share_open x" if "share_open (g x)" for x
      using that assms(2)[of x] share_step_open[of x "f x"] by (simp add: g_def split: if_splits)
  qed (simp add: share_pair_def)
  moreover have "shState (g s) \<in> set share_states" if "s \<in> set (bkShares db)" for s
    using that assms share_step_state[of s "f s"] by (simp add: g_def bank_ok_def list_all_iff)
  ultimately show "bank_ok (fst (update_shares P f db))"
    using assms(1) unfolding db' by (simp add: bank_ok_def list_all_iff comp_def)
  have "share_steps s (g s)" for s using assms(2) by (simp add: g_def r_into_rtranclp)
  then show "shares_follow db (fst (update_shares P f db))"
    unfolding db' by (auto simp: shares_follow_def)
qed

section \<open>What the operations do to the shares\<close>

definition bank_step_ok :: "bank_db \<Rightarrow> bank_db \<Rightarrow> bool" where
  "bank_step_ok db db' \<longleftrightarrow> (bank_ok db \<longrightarrow> bank_ok db' \<and> shares_follow db db')"

lemma bank_step_same [simp]: "bank_step_ok db db"
  by (simp add: bank_step_ok_def)

lemma bank_step_trans: "bank_step_ok a b \<Longrightarrow> bank_step_ok b c \<Longrightarrow> bank_step_ok a c"
  by (auto simp: bank_step_ok_def intro: shares_follow_trans)

lemma bank_step_control [simp]: "bank_step_ok db (db\<lparr>bkControl := c\<rparr>)"
  by (simp add: bank_step_ok_def)

lemma expire_step: "bank_step_ok db (fst (q_ExpireMemoryBankProjectShares env now db at))"
  unfolding bank_step_ok_def q_ExpireMemoryBankProjectShares_def
  by (intro impI update_shares_follow) (auto intro: share_expires)

lemma activate_step: "bank_step_ok db (fst (q_ActivateMemoryBankProjectShare env now db at i c))"
  unfolding bank_step_ok_def q_ActivateMemoryBankProjectShare_def
  by (intro impI update_shares_follow) (auto intro: share_accepted)

lemma revoke_step: "bank_step_ok db (fst (q_RevokeMemoryBankProjectShare now db at i))"
  unfolding bank_step_ok_def q_RevokeMemoryBankProjectShare_def
  by (intro impI update_shares_follow) (auto intro: share_revoked)

lemma insert_share_step:
  assumes "q_InsertMemoryBankProjectShare env now db s = Inr (db', n)" "shState s = ''pending''"
  shows "bank_step_ok db db'"
proof -
  let ?s = "s\<lparr>shAcceptedAt := None, shRevokedAt := None, shCreatedAt := now, shUpdatedAt := now\<rparr>"
  consider "db' = db"
    | "db' = db\<lparr>bkShares := bkShares db @ [?s]\<rparr>"
      "list_ex (\<lambda>p. pjID p = shProject s \<and> pjOwner p = shOwner s \<and> pjArchivedAt p = None) (bkProjects db)"
      "\<not> list_ex (\<lambda>q. shID q = shID s) (bkShares db)"
      "\<not> list_ex (\<lambda>q. share_open q \<and> shProject q = shProject s \<and> shCollaborator q = shCollaborator s) (bkShares db)"
    using assms by (auto simp: q_InsertMemoryBankProjectShare_def share_open_def split: if_splits)
  then show ?thesis
  proof cases
    case 2
    have "bank_ok db \<Longrightarrow> bank_ok db'"
      using 2 assms(2)
      by (auto simp: bank_ok_def list_ex_iff list_all_iff share_pair_def share_states_def share_open_def)
    moreover have "shares_follow db db'"
      using 2(1,3) assms(2) unfolding shares_follow_def share_born_def
      by (auto simp: list_ex_iff intro!: exI[of _ ?s])
    ultimately show ?thesis by (simp add: bank_step_ok_def)
  qed simp
qed

text \<open>A step is quiet if no share becomes active.\<close>

definition active_ids :: "bank_db \<Rightarrow> uuid set" where
  "active_ids db = shID ` {s \<in> set (bkShares db). shState s = ''active''}"

definition bank_quiet :: "bank_db \<Rightarrow> bank_db \<Rightarrow> bool" where
  "bank_quiet db db' \<longleftrightarrow> bank_step_ok db db' \<and> active_ids db' \<subseteq> active_ids db"

lemma bank_quiet_step: "bank_quiet db db' \<Longrightarrow> bank_step_ok db db'"
  by (simp add: bank_quiet_def)

lemma bank_quiet_same [simp]: "bank_quiet db db" "bank_quiet db (db\<lparr>bkControl := c\<rparr>)"
  by (simp_all add: bank_quiet_def active_ids_def)

lemma bank_quiet_trans: "bank_quiet a b \<Longrightarrow> bank_quiet b c \<Longrightarrow> bank_quiet a c"
  by (auto simp: bank_quiet_def intro: bank_step_trans)

lemma expire_quiet [intro]: "bank_quiet db (fst (q_ExpireMemoryBankProjectShares env now db at))"
  using expire_step[of db env now at]
  by (auto simp: bank_quiet_def active_ids_def q_ExpireMemoryBankProjectShares_def update_shares_def split: if_splits)

lemma revoke_quiet [intro]: "bank_quiet db (fst (q_RevokeMemoryBankProjectShare now db at i))"
  using revoke_step[of db now at i]
  by (auto simp: bank_quiet_def active_ids_def q_RevokeMemoryBankProjectShare_def update_shares_def split: if_splits)

lemma insert_share_quiet:
  assumes "q_InsertMemoryBankProjectShare env now db s = Inr (db', n)" "shState s = ''pending''"
  shows "bank_quiet db db'"
  using insert_share_step[OF assms] assms
  by (auto simp: bank_quiet_def active_ids_def q_InsertMemoryBankProjectShare_def split: if_splits)

lemma activate_active:
  "active_ids (fst (q_ActivateMemoryBankProjectShare env now db at i c))
     \<subseteq> active_ids db \<union> {i. \<exists>s \<in> set (bkShares db). shID s = i \<and> shCollaborator s = c} \<inter> {i}"
  by (auto simp: active_ids_def q_ActivateMemoryBankProjectShare_def update_shares_def split: if_splits)

lemma upsert_project_quiet:
  assumes "q_UpsertMemoryBankProject env now db p = Inr (db', i)"
  shows "bank_quiet db db'"
proof -
  let ?g = "\<lambda>q. if project_key q = project_key p
    then q\<lparr>pjTenant := pjTenant p, pjName := pjName p, pjRoot := pjRoot p, pjMetadata := pjMetadata p,
           pjArchivedAt := or_else (pjArchivedAt p) (pjArchivedAt q), pjUpdatedAt := now\<rparr> else q"
  define g where "g = ?g"
  have key [simp]: "pjID (g q) = pjID q" "pjOwner (g q) = pjOwner q" "project_key (g q) = project_key q" for q
    by (simp_all add: g_def project_key_def)
  let ?p = "p\<lparr>pjCreatedAt := now, pjUpdatedAt := now\<rparr>"
  consider "db' = db\<lparr>bkProjects := map g (bkProjects db)\<rparr>"
    | "db' = db\<lparr>bkProjects := bkProjects db @ [?p]\<rparr>" "\<forall>q \<in> set (bkProjects db). project_key q \<noteq> project_key p"
      "\<not> list_ex (\<lambda>q. pjID q = pjID p) (bkProjects db)"
    using assms by (auto simp: q_UpsertMemoryBankProject_def g_def find_None_iff split: if_splits option.splits)
  then show ?thesis
  proof cases
    case 1
    have "bank_ok db \<Longrightarrow> bank_ok db'"
      unfolding 1 by (simp add: bank_ok_def comp_def list_ex_iff list_all_iff)
    then show ?thesis unfolding 1 by (simp add: bank_quiet_def bank_step_ok_def active_ids_def)
  next
    case 2
    have "project_key ?p = project_key p" by (simp add: project_key_def)
    then have "bank_ok db \<Longrightarrow> bank_ok db'"
      using 2(2,3) unfolding 2(1) by (auto simp: bank_ok_def list_ex_iff list_all_iff)
    then show ?thesis unfolding 2(1) by (simp add: bank_quiet_def bank_step_ok_def active_ids_def)
  qed
qed

subsection \<open>The operations of the store\<close>

lemma UpsertMemoryBankProject_quiet: "bank_quiet db (fst (UpsertMemoryBankProject env f c new db p))"
  by (auto simp: UpsertMemoryBankProject_def bind_result_def faulty_def lift_db_def split: sum.splits option.splits
    intro: upsert_project_quiet)

lemma expireMemoryBankProjectShares_quiet: "bank_quiet db (fst (expireMemoryBankProjectShares env f c db t))"
  by (auto simp: expireMemoryBankProjectShares_def split: option.split)

lemma list_shares_quiet: "bank_quiet db (fst (list_shares env f c db q))"
  using expireMemoryBankProjectShares_quiet[of db env "f 0" c "cnTime c"]
  by (auto simp: list_shares_def split: prod.split sum.split)

lemma RevokeMemoryBankProjectShare_quiet: "bank_quiet db (fst (RevokeMemoryBankProjectShare f c db i t))"
  using revoke_quiet[of db "cnNow c" "sqlNullTime (cnFormat c) t" i]
  by (auto simp: RevokeMemoryBankProjectShare_def split: option.split prod.split)

lemma create_share_quiet:
  assumes "msState s = ''pending''"
  shows "bank_quiet db (fst (CreateMemoryBankProjectShare env f c new db s))"
proof -
  have state: "shState (share_params c new m s) = ''pending''" for m
    using assms by (simp add: share_params_def)
  have "bank_quiet db (fst (with_tx f db (create_share_body env c (share_params c new m s))))" for m
  proof (rule with_tx_keeps)
    fix db' assume "create_share_body env c (share_params c new m s) db = Inr db'"
    then obtain n where "q_InsertMemoryBankProjectShare env (cnNow c)
        (fst (q_ExpireMemoryBankProjectShares env (cnNow c) db (cnFormat c (cnTime c)))) (share_params c new m s) = Inr (db', n)"
      by (auto simp: create_share_body_def result_simps split: prod.splits if_splits)
    from insert_share_quiet[OF this state] show "bank_quiet db db'"
      using expire_quiet bank_quiet_trans by blast
  qed simp
  then have "bank_quiet db db'" if "with_tx f db (create_share_body env c (share_params c new m s)) = (db', r)" for m db' r
    using that by (metis fst_conv)
  then show ?thesis
    by (auto simp: CreateMemoryBankProjectShare_def split: sum.split prod.split)
qed

lemma ActivateMemoryBankProjectShare_step:
  "bank_step_ok db (fst (ActivateMemoryBankProjectShare env f c db i sub t))
   \<and> active_ids (fst (ActivateMemoryBankProjectShare env f c db i sub t))
       \<subseteq> active_ids db \<union> {j. j = i \<and> (\<exists>s \<in> set (bkShares db). shID s = i \<and> shCollaborator s = sub)}"
proof -
  obtain db1 r where one: "expireMemoryBankProjectShares env (f 0) c db t = (db1, r)" by force
  have q1: "bank_quiet db db1" using expireMemoryBankProjectShares_quiet[of db env "f 0" c t] one by simp
  have col: "\<exists>s \<in> set (bkShares db). shID s = i \<and> shCollaborator s = sub"
    if "s \<in> set (bkShares db1)" "shID s = i" "shCollaborator s = sub" for s
    using that one by (fastforce simp: expireMemoryBankProjectShares_def q_ExpireMemoryBankProjectShares_def
      update_shares_def split: option.splits if_splits)
  define at where "at = sqlNullTime (cnFormat c) t"
  obtain db2 n where two: "q_ActivateMemoryBankProjectShare env (cnNow c) db1 at i sub = (db2, n)" by force
  have act: "bank_step_ok db1 db2"
      "active_ids db2 \<subseteq> active_ids db1 \<union> {i. \<exists>s \<in> set (bkShares db1). shID s = i \<and> shCollaborator s = sub} \<inter> {i}"
    using activate_step[of db1 env "cnNow c" at i sub] activate_active[of env "cnNow c" db1 at i sub] two by simp_all
  have "bank_step_ok db db2" using bank_step_trans q1 act(1) bank_quiet_step by blast
  moreover have "active_ids db2 \<subseteq> active_ids db \<union> {j. j = i \<and> (\<exists>s \<in> set (bkShares db). shID s = i \<and> shCollaborator s = sub)}"
    using act(2) q1 col unfolding bank_quiet_def by blast
  ultimately show ?thesis
    using q1 one two unfolding at_def
    by (auto simp: ActivateMemoryBankProjectShare_def bank_quiet_def split: sum.split option.split)
qed

text \<open>The listed shares are the ones that can be accepted.\<close>

lemma collect_results_map:
  "(\<And>x y. f x = Inr y \<Longrightarrow> k y = h x) \<Longrightarrow> collect_results f xs = Inr ys \<Longrightarrow> map k ys = map h xs"
  by (induction xs arbitrary: ys) (auto simp: result_simps)

lemma convert_share_id: "convertMemoryBankProjectShare tp r = Inr s \<Longrightarrow> msID s = shID r"
  by (auto simp: convertMemoryBankProjectShare_def split: option.splits)

lemma listed_iff_accepted:
  assumes "cnTime c \<noteq> 0"
    and "ListMemoryBankProjectSharesForSubject env f c db sub False = (db1, Inr ms)"
    and "ActivateMemoryBankProjectShare env g c db i sub (cnTime c) = (db2, Inr accepted)"
  shows "accepted \<longleftrightarrow> (\<exists>m \<in> set ms. msID m = i)"
proof -
  let ?at = "cnFormat c (cnTime c)"
  define e where "e = fst (q_ExpireMemoryBankProjectShares env (cnNow c) db ?at)"
  have now: "or_now c (cnTime c) = cnTime c" by (simp add: or_now_def)
  have at: "sqlNullTime (cnFormat c) (cnTime c) = Some ?at" using assms(1) by (simp add: sqlNullTime_def)
  have live: "project_live e j \<Longrightarrow> list_ex (\<lambda>p. pjID p = j) (bkProjects e)" for j
    by (auto simp: project_live_def list_ex_iff)
  have ms: "map msID ms = map shID (q_ListMemoryBankProjectSharesForSubject env e sub False ?at)"
    using assms(2) unfolding e_def
    by (auto simp: ListMemoryBankProjectSharesForSubject_def list_shares_def expireMemoryBankProjectShares_def now faulty_def
      lift_db_def result_simps split: option.splits sum.splits prod.splits intro: collect_results_map convert_share_id)
  have acc: "accepted \<longleftrightarrow> 0 < snd (q_ActivateMemoryBankProjectShare env (cnNow c) e (Some ?at) i sub)"
    using assms(3) unfolding e_def
    by (auto simp: ActivateMemoryBankProjectShare_def expireMemoryBankProjectShares_def now at split: option.splits sum.splits prod.splits)
  have "(\<exists>m \<in> set ms. msID m = i) \<longleftrightarrow> i \<in> set (map msID ms)" by auto
  also have "\<dots> \<longleftrightarrow> (\<exists>s \<in> set (bkShares e). shID s = i \<and> shCollaborator s = sub \<and> share_visible env e False ?at s
      \<and> list_ex (\<lambda>p. pjID p = shProject s) (bkProjects e))"
    unfolding ms by (auto simp: q_ListMemoryBankProjectSharesForSubject_def)
  also have "\<dots> \<longleftrightarrow> accepted"
    unfolding acc q_ActivateMemoryBankProjectShare_def update_shares_def snd_conv length_greater_0_conv filter_empty_conv
      share_visible_def
    using live by blast
  finally show ?thesis by blast
qed

end
