(* ===== verification/Admin.thy ===== *)
theory Admin
  imports Runtime MemoryBank
begin

text \<open>
  The administrator's API for subjects: grants, tenants, static upstreams and the memory bank
  (\<^verbatim>\<open>internal/controlplane/grants_admin.go\<close>, \<^verbatim>\<open>memory_bank_admin.go\<close>, \<^verbatim>\<open>upstreams_admin.go\<close>).  A request is handled on
  the database and on the state \<^verbatim>\<open>'p\<close> of what is reached over the network, which only the probe of a static upstream
  uses.
\<close>

section \<open>Paths\<close>

text \<open>\<^verbatim>\<open>strings.Cut\<close> at a character and \<^verbatim>\<open>strings.Index\<close>.\<close>

definition cut_char :: "char \<Rightarrow> string \<Rightarrow> string \<times> string \<times> bool" where
  "cut_char c s = (before_char c s, tl (dropWhile (\<lambda>x. x \<noteq> c) s), contains_char s c)"

fun index_of :: "string \<Rightarrow> string \<Rightarrow> nat option" where
  "index_of sub [] = (if sub = [] then Some 0 else None)"
| "index_of sub (c # cs) = (if has_prefix (c # cs) sub then Some 0 else map_option Suc (index_of sub cs))"

definition trim_suffix :: "string \<Rightarrow> string \<Rightarrow> string" where
  "trim_suffix s suf = (if suffix suf s then take (length s - length suf) s else s)"

definition admin_separator :: "string \<Rightarrow> nat option" where
  "admin_separator rest =
     (case (index_of ''/grants'' rest, index_of ''/services/'' rest) of
        (None, services) \<Rightarrow> services
      | (Some g, Some s) \<Rightarrow> Some (if s < g then s else g)
      | (Some g, None) \<Rightarrow> Some g)"

definition parseSubjectAdminPath :: "string \<Rightarrow> (string \<times> string) option" where
  "parseSubjectAdminPath requestPath =
     (let rest = trim_prefix requestPath ''/v1/subjects/'' in
      if rest = requestPath \<or> rest = [] then None
      else case admin_separator rest of
          None \<Rightarrow> None
        | Some n \<Rightarrow>
            if n = 0 then None
            else let sub = trim_space (take n rest); tail = trim_prefix (drop n rest) [slash] in
              if sub \<noteq> [] \<and> tail \<noteq> [] then Some (sub, tail) else None)"

definition parseMemoryBankAdminTail :: "string \<Rightarrow> (string \<times> string \<times> string) option" where
  "parseMemoryBankAdminTail tail =
     (if \<not> has_prefix tail ''services/'' then None
      else case cut_char slash (trim_prefix tail ''services/'') of
          (sid, rest, ok) \<Rightarrow>
            if \<not> ok \<or> sid = [] then None
            else case cut_char slash rest of
                (resource, resourceTail, _) \<Rightarrow>
                  if resource = ''projects'' \<or> resource = ''shares'' then Some (sid, resource, resourceTail) else None)"

definition parseSubjectServiceUpstreamTail :: "string \<Rightarrow> string option" where
  "parseSubjectServiceUpstreamTail tail =
     (if \<not> has_prefix tail ''services/'' \<or> \<not> suffix ''/upstream'' tail then None
      else let sid = trim_suffix (trim_prefix tail ''services/'') ''/upstream'' in
        if sid = [] \<or> contains_char sid slash then None else Some sid)"

definition parseSubjectServiceLifecycleTail :: "string \<Rightarrow> (string \<times> string) option" where
  "parseSubjectServiceLifecycleTail tail =
     (if \<not> has_prefix tail ''services/'' then None
      else case cut_char slash (trim_prefix tail ''services/'') of
          (sid, action, ok) \<Rightarrow>
            if \<not> ok \<or> sid = [] \<or> contains_char action slash then None
            else if action = ''suspend'' \<or> action = ''resume'' then Some (sid, action) else None)"

section \<open>Requests and answers\<close>

datatype 'a body = BodyEmpty | BodyInvalid | Body 'a

record subject_body =
  sbUpstreamURL :: string
  sbSubjectKey :: string
  sbUsername :: string
  sbMail :: string
  sbDisplay :: string

record project_body =
  pbDisplay :: string
  pbRoot :: string
  pbMetadata :: string
  pbArchived :: "time option"

record share_body =
  hbCollaborator :: string
  hbPermission :: string
  hbExpires :: "time option"
  hbMetadata :: string

text \<open>What the handlers use: the token's file, the digest of a subject, the decoders of the bodies, the network.\<close>

record 'p admin_env =
  aeRead :: "string \<Rightarrow> string option"
  aeTokenPath :: string
  aeKey :: "string \<Rightarrow> string"
  aeBank :: bank_env
  aeNet :: net_lib
  aeLib :: "'p runtime_lib"
  aeGrantBody :: "string \<Rightarrow> subject_body body"
  aeUpstreamBody :: "string \<Rightarrow> subject_body body"
  aeProjectBody :: "string \<Rightarrow> project_body body"
  aeShareBody :: "string \<Rightarrow> share_body body"

text \<open>The n-th operation of the database fails if \<^verbatim>\<open>aqFault n\<close> is an error; \<^verbatim>\<open>aqNew\<close> is the fresh identifier.\<close>

record admin_request =
  aqMethod :: http_method
  aqPath :: string
  aqAuthorization :: string
  aqQuery :: "string \<Rightarrow> string"
  aqBody :: string
  aqClock :: control_clock
  aqNew :: uuid
  aqFault :: "nat \<Rightarrow> db_error option"

datatype admin_reply =
    ReplyNotFound
  | ReplyError nat string
  | ReplyDetail nat string string
  | ReplyNotAllowed "http_method list"
  | ReplyNoContent
  | ReplyGrants string "service_grant list"
  | ReplyManual string string string
  | ReplyDesired string string tenant_desired_state
  | ReplyUpstream string string string time
  | ReplyProjects string string "memory_project list"
  | ReplyProject memory_project
  | ReplyShares string string "memory_share list"
  | ReplyShare nat memory_share

definition on_control :: "(control_db \<Rightarrow> control_db \<times> 'a) \<Rightarrow> bank_db \<Rightarrow> bank_db \<times> 'a" where
  "on_control f db = (case f (bkControl db) of (c, x) \<Rightarrow> (db\<lparr>bkControl := c\<rparr>, x))"

definition trimmed_subject :: "string \<Rightarrow> subject_body \<Rightarrow> domain_subject" where
  "trimmed_subject sub b =
     \<lparr>dsSub = sub, dsKey = trim_space (sbSubjectKey b), dsPreferredUsername = trim_space (sbUsername b),
      dsEmail = trim_space (sbMail b), dsDisplayName = trim_space (sbDisplay b), dsAccountBindingID = [],
      dsAccountBindingClaim = []\<rparr>"

section \<open>Memory bank\<close>

definition validateMemoryBankProjectKey :: "string \<Rightarrow> bool" where
  "validateMemoryBankProjectKey k = service_id_ok k"

definition parseAdminBoolQuery :: "admin_request \<Rightarrow> string \<Rightarrow> bool" where
  "parseAdminBoolQuery r name =
     (trim_space (to_lower (aqQuery r name)) \<in> {''1'', ''true'', ''yes''})"

definition jsonRawMessageOrDefault :: "bank_env \<Rightarrow> string \<Rightarrow> string \<Rightarrow> (store_error, string) result" where
  "jsonRawMessageOrDefault env v d =
     (if blank v then Inr d else if \<not> beValid env v then Inl ErrMemoryBankInvalidMetadata else Inr v)"

definition handleMemoryBankProjectList :: "bank_env \<Rightarrow> bank_db \<Rightarrow> admin_request \<Rightarrow> string \<Rightarrow> string \<Rightarrow> bank_db \<times> admin_reply" where
  "handleMemoryBankProjectList env db r owner sid =
     (db, if aqMethod r \<noteq> GET then ReplyNotAllowed [GET]
          else case ListMemoryBankProjectsByOwner env (aqFault r 0) db owner sid (parseAdminBoolQuery r ''include_archived'') of
              Inl _ \<Rightarrow> ReplyError 500 ''list_memory_bank_projects_failed''
            | Inr ps \<Rightarrow> ReplyProjects owner sid ps)"

definition new_project :: "string \<Rightarrow> uuid \<Rightarrow> string \<Rightarrow> string \<Rightarrow> string \<Rightarrow> string \<Rightarrow> string \<Rightarrow> time option \<Rightarrow> memory_project" where
  "new_project owner tid sid k name root metadata archived =
     \<lparr>mpID = zero_uuid, mpOwner = owner, mpTenant = tid, mpService = sid, mpKey = k, mpName = name, mpRoot = root,
      mpMetadata = metadata, mpArchivedAt = archived, mpCreatedAt = 0, mpUpdatedAt = 0\<rparr>"

definition handleMemoryBankProjectPut :: "'p admin_env \<Rightarrow> bank_db \<Rightarrow> admin_request \<Rightarrow> string \<Rightarrow> string \<Rightarrow> string
    \<Rightarrow> bank_db \<times> admin_reply" where
  "handleMemoryBankProjectPut ae db r owner sid k =
     (if aqMethod r \<noteq> PUT then (db, ReplyNotAllowed [PUT])
      else case aeProjectBody ae (aqBody r) of
          Body q \<Rightarrow>
           (let name = trim_space (pbDisplay q); root = trim_space (pbRoot q); env = aeBank ae in
            if name = [] \<or> root = [] then (db, ReplyError 400 ''display_name_and_root_path_required'')
            else if \<not> has_prefix root [slash] \<or> sublist ''..'' root then (db, ReplyError 400 ''invalid_root_path'')
            else case GetTenantInstanceBySubjectService (aqFault r 0) (beParse env) (cdTenants (bkControl db)) owner sid of
                Inl e \<Rightarrow> (db, if e = ErrTenantInstanceNotFound then ReplyError 409 ''tenant_not_found''
                             else ReplyError 500 ''load_memory_bank_tenant_failed'')
              | Inr t \<Rightarrow>
                 (case jsonRawMessageOrDefault env (pbMetadata q) ''{}'' of
                    Inl _ \<Rightarrow> (db, ReplyError 400 ''invalid_metadata'')
                  | Inr m \<Rightarrow>
                     (case UpsertMemoryBankProject env (\<lambda>n. aqFault r (Suc n)) (aqClock r) (aqNew r) db
                             (new_project owner (tnID t) sid k name root m (pbArchived q)) of
                        (db', Inl e) \<Rightarrow> (db', if e = ErrMemoryBankInvalidMetadata then ReplyError 400 ''invalid_metadata''
                                             else ReplyError 500 ''upsert_memory_bank_project_failed'')
                      | (db', Inr i) \<Rightarrow>
                         (db', case GetMemoryBankProject env (aqFault r 3) db' i of
                             Inl _ \<Rightarrow> ReplyError 500 ''load_memory_bank_project_failed''
                           | Inr p \<Rightarrow> ReplyProject p))))
        | _ \<Rightarrow> (db, ReplyError 400 ''invalid_json''))"

definition new_share :: "uuid \<Rightarrow> string \<Rightarrow> string \<Rightarrow> string \<Rightarrow> time option \<Rightarrow> string \<Rightarrow> memory_share" where
  "new_share pid owner collaborator permission expires metadata =
     \<lparr>msID = zero_uuid, msProject = pid, msOwner = owner, msCollaborator = collaborator, msPermission = permission,
      msState = ''pending'', msSource = ''admin'', msCreatedBy = owner, msAcceptedAt = None, msRevokedAt = None,
      msExpiresAt = expires, msMetadata = metadata, msCreatedAt = 0, msUpdatedAt = 0\<rparr>"

definition bare_subject :: "(string \<Rightarrow> string) \<Rightarrow> string \<Rightarrow> domain_subject" where
  "bare_subject key sub =
     \<lparr>dsSub = sub, dsKey = key sub, dsPreferredUsername = [], dsEmail = [], dsDisplayName = [], dsAccountBindingID = [],
      dsAccountBindingClaim = []\<rparr>"

definition share_create_error :: "store_error \<Rightarrow> admin_reply" where
  "share_create_error e =
     (if e = ErrMemoryBankProjectNotShareable then ReplyError 409 ''project_archived''
      else if e = ErrMemoryBankInvalidMetadata then ReplyError 400 ''invalid_metadata''
      else if e = ErrMemoryBankShareExpired then ReplyError 400 ''share_expires_at_must_be_future''
      else ReplyError 409 ''create_memory_bank_share_failed'')"

definition handleMemoryBankProjectShareCreate :: "'p admin_env \<Rightarrow> bank_db \<Rightarrow> admin_request \<Rightarrow> string \<Rightarrow> string \<Rightarrow> string
    \<Rightarrow> bank_db \<times> admin_reply" where
  "handleMemoryBankProjectShareCreate ae db r owner sid k =
     (if aqMethod r \<noteq> POST then (db, ReplyNotAllowed [POST])
      else case aeShareBody ae (aqBody r) of
          Body q \<Rightarrow>
           (let collaborator = trim_space (hbCollaborator q); permission = trim_space (hbPermission q); env = aeBank ae in
            if collaborator = [] then (db, ReplyError 400 ''collaborator_subject_sub_required'')
            else if permission \<noteq> ''view'' \<and> permission \<noteq> ''edit'' then (db, ReplyError 400 ''invalid_permission'')
            else case GetMemoryBankProjectByOwnerKey env (aqFault r 0) db owner sid k of
                Inl e \<Rightarrow> (db, if e = StoreDb NoRows then ReplyError 404 ''project_not_found''
                             else ReplyError 500 ''load_memory_bank_project_failed'')
              | Inr p \<Rightarrow>
                  if mpArchivedAt p \<noteq> None then (db, ReplyError 409 ''project_archived'')
                  else case on_control (\<lambda>c. UpsertSubject (aqFault r 1) c (bare_subject (aeKey ae) collaborator)) db of
                      (db1, Inl _) \<Rightarrow> (db1, ReplyError 500 ''upsert_collaborator_subject_failed'')
                    | (db1, Inr _) \<Rightarrow>
                       (case jsonRawMessageOrDefault env (hbMetadata q) ''{}'' of
                          Inl _ \<Rightarrow> (db1, ReplyError 400 ''invalid_metadata'')
                        | Inr m \<Rightarrow>
                           (case CreateMemoryBankProjectShare env (aqFault r 2) (aqClock r) (aqNew r) db1
                                   (new_share (mpID p) owner collaborator permission (hbExpires q) m) of
                              (db2, Inl e) \<Rightarrow> (db2, share_create_error e)
                            | (db2, Inr i) \<Rightarrow>
                               (db2, case GetMemoryBankProjectShare env (aqFault r 3) db2 i of
                                   Inl _ \<Rightarrow> ReplyError 500 ''load_memory_bank_share_failed''
                                 | Inr s \<Rightarrow> ReplyShare 201 s))))
        | _ \<Rightarrow> (db, ReplyError 400 ''invalid_json''))"

definition handleMemoryBankProjects :: "'p admin_env \<Rightarrow> bank_db \<Rightarrow> admin_request \<Rightarrow> string \<Rightarrow> string \<Rightarrow> string
    \<Rightarrow> bank_db \<times> admin_reply" where
  "handleMemoryBankProjects ae db r owner sid tail =
     (if tail = [] then handleMemoryBankProjectList (aeBank ae) db r owner sid
      else case cut_char slash tail of
          (k, subpath, _) \<Rightarrow>
            if \<not> validateMemoryBankProjectKey k then (db, ReplyError 400 ''invalid_project_key'')
            else if subpath = [] then handleMemoryBankProjectPut ae db r owner sid k
            else if subpath = ''shares'' then handleMemoryBankProjectShareCreate ae db r owner sid k
            else (db, ReplyNotFound))"

definition accept_share :: "bank_env \<Rightarrow> bank_db \<Rightarrow> admin_request \<Rightarrow> string \<Rightarrow> uuid \<Rightarrow> bank_db \<times> admin_reply" where
  "accept_share env db r sub i =
     (case ActivateMemoryBankProjectShare env (aqFault r) (aqClock r) db i sub (cnTime (aqClock r)) of
        (db', Inl _) \<Rightarrow> (db', ReplyError 500 ''activate_memory_bank_share_failed'')
      | (db', Inr activated) \<Rightarrow>
         (db', if \<not> activated then ReplyError 404 ''share_not_found''
               else case GetMemoryBankProjectShare env (aqFault r 2) db' i of
                   Inl _ \<Rightarrow> ReplyError 500 ''load_memory_bank_share_failed''
                 | Inr s \<Rightarrow> ReplyShare 200 s))"

definition handleMemoryBankShares :: "bank_env \<Rightarrow> bank_db \<Rightarrow> admin_request \<Rightarrow> string \<Rightarrow> string \<Rightarrow> string
    \<Rightarrow> bank_db \<times> admin_reply" where
  "handleMemoryBankShares env db r sub sid tail =
     (if tail = [] then
        if aqMethod r \<noteq> GET then (db, ReplyNotAllowed [GET])
        else case ListMemoryBankProjectSharesForSubjectService env (aqFault r) (aqClock r) db sub sid
               (parseAdminBoolQuery r ''include_inactive'') of
            (db', Inl _) \<Rightarrow> (db', ReplyError 500 ''list_memory_bank_shares_failed'')
          | (db', Inr ss) \<Rightarrow> (db', ReplyShares sub sid ss)
      else case cut_char slash tail of
          (raw, action, ok) \<Rightarrow>
            if \<not> ok \<or> action \<noteq> ''accept'' then (db, ReplyNotFound)
            else if aqMethod r \<noteq> PUT then (db, ReplyNotAllowed [PUT])
            else case Parse raw of
                Inl _ \<Rightarrow> (db, ReplyError 400 ''invalid_share_id'')
              | Inr i \<Rightarrow> accept_share env db r sub i)"

definition handleMemoryBankShareDelete :: "bank_env \<Rightarrow> bank_db \<Rightarrow> admin_request \<Rightarrow> string \<Rightarrow> string \<Rightarrow> string
    \<Rightarrow> bank_db \<times> admin_reply" where
  "handleMemoryBankShareDelete env db r owner sid raw =
     (if aqMethod r \<noteq> DELETE then (db, ReplyNotAllowed [DELETE])
      else case Parse raw of
          Inl _ \<Rightarrow> (db, ReplyError 400 ''invalid_share_id'')
        | Inr i \<Rightarrow>
           (case GetMemoryBankProjectShare env (aqFault r 0) db i of
              Inl e \<Rightarrow> (db, if e = StoreDb NoRows then ReplyError 404 ''share_not_found''
                           else ReplyError 500 ''load_memory_bank_share_failed'')
            | Inr s \<Rightarrow>
                if msOwner s \<noteq> owner \<or> IsZero (msProject s) then (db, ReplyError 404 ''share_not_found'')
                else case GetMemoryBankProject env (aqFault r 1) db (msProject s) of
                    Inl _ \<Rightarrow> (db, ReplyError 404 ''share_not_found'')
                  | Inr p \<Rightarrow>
                      if mpService p \<noteq> sid then (db, ReplyError 404 ''share_not_found'')
                      else case RevokeMemoryBankProjectShare (aqFault r 2) (aqClock r) db i (cnTime (aqClock r)) of
                          (db', Inl _) \<Rightarrow> (db', ReplyError 500 ''revoke_memory_bank_share_failed'')
                        | (db', Inr revoked) \<Rightarrow>
                            (db', if revoked then ReplyNoContent else ReplyError 404 ''share_not_found'')))"

section \<open>Static upstreams\<close>

definition allowedStaticUpstreamIP :: "ip_addr option \<Rightarrow> bool" where
  "allowedStaticUpstreamIP ip =
     (case ip of
        None \<Rightarrow> True
      | Some a \<Rightarrow> \<not> ipUnspecified a \<and> \<not> ipLoopback a \<and> \<not> ipLinkLocalUnicast a
          \<and> \<not> ipLinkLocalMulticast a \<and> \<not> ipMulticast a)"

definition check_static_host :: "net_lib \<Rightarrow> string \<Rightarrow> (string, unit) result" where
  "check_static_host net host =
     (case parse_ip net host of
        Some ip \<Rightarrow> guard (allowedStaticUpstreamIP (Some ip)) ''upstream_url ip address is not allowed''
      | None \<Rightarrow>
         (case lookup_ip net host of
            Inl _ \<Rightarrow> Inl ''upstream_url host could not be resolved''
          | Inr ips \<Rightarrow>
              if ips = [] then Inl ''upstream_url host could not be resolved''
              else guard (list_all allowedStaticUpstreamIP ips) ''upstream_url resolved ip address is not allowed''))"

definition normalizeStaticUpstreamURL :: "net_lib \<Rightarrow> (parsed_url \<Rightarrow> string) \<Rightarrow> string \<Rightarrow> (string, string) result" where
  "normalizeStaticUpstreamURL net url_string rawURL =
     (if blank rawURL then Inl ''upstream_url is required''
      else case url_parse net (trim_space rawURL) of
          None \<Rightarrow> Inl ''upstream_url is invalid''
        | Some u \<Rightarrow>
            if uScheme u \<noteq> ''http'' \<and> uScheme u \<noteq> ''https'' then Inl ''upstream_url scheme must be http or https''
            else if uHost u = [] then Inl ''upstream_url host is required''
            else if uUser u then Inl ''upstream_url must not include user info''
            else bind_result (check_static_host net (uHostname u)) (\<lambda>_.
              Inr (url_string (u\<lparr>uFragment := [], uRawQuery := [], uPath := trim_right slash (uPath u)\<rparr>))))"

definition probe_tenant :: "catalog_entry \<Rightarrow> tenant_row" where
  "probe_tenant svc = (new_tenant zero_uuid [] (ServiceID svc) [])\<lparr>tnName := [], tnDNS := []\<rparr>"

definition verifyStaticUpstreamHealth :: "'p runtime_lib \<Rightarrow> 'p \<Rightarrow> time \<Rightarrow> string \<Rightarrow> catalog_entry
    \<Rightarrow> 'p \<times> (string, time) result" where
  "verifyStaticUpstreamHealth lib p now upstreamURL svc =
     (case probeTenantHealth lib p (probe_tenant svc) svc [] upstreamURL of
        (p', Inl (e, _)) \<Rightarrow> (p', Inl (error_text e))
      | (p', Inr (healthy, detail)) \<Rightarrow> (p', if healthy then Inr now else Inl detail))"

definition static_upstream_error :: "store_error \<Rightarrow> admin_reply" where
  "static_upstream_error e =
     (if e = StoreDb NoRows then ReplyError 404 ''service_not_found''
      else if e = ErrSubjectServiceGrantNotFound then ReplyError 409 ''service_not_granted''
      else ReplyError 500 ''upsert_static_upstream_failed'')"

definition handleStaticUpstreamPut :: "'p admin_env \<Rightarrow> bank_db \<times> 'p \<Rightarrow> admin_request \<Rightarrow> string \<Rightarrow> string
    \<Rightarrow> (bank_db \<times> 'p) \<times> admin_reply" where
  "handleStaticUpstreamPut ae w r sub sid =
     (case w of (db, p) \<Rightarrow>
      case aeUpstreamBody ae (aqBody r) of
        Body q \<Rightarrow>
          if sub = [] then (w, ReplyError 400 ''subject_sub is required'')
          else (case normalizeStaticUpstreamURL (aeNet ae) (rlURLString (aeLib ae)) (sbUpstreamURL q) of
            Inl msg \<Rightarrow> (w, ReplyError 400 msg)
          | Inr url \<Rightarrow>
             (case faulty (aqFault r 0) (q_GetEnabledServiceCatalogEntry (cdCatalog (bkControl db)) sid) of
                Inl e \<Rightarrow> (w, if e = StoreDb NoRows then ReplyError 404 ''service_not_found''
                            else ReplyError 500 ''load_service_failed'')
              | Inr row \<Rightarrow>
                 (case aqFault r 1 of
                    Some _ \<Rightarrow> (w, ReplyError 500 ''check_service_grant_failed'')
                  | None \<Rightarrow>
                      if \<not> SubjectServiceGranted (bkControl db) sub sid then (w, ReplyError 409 ''service_not_granted'')
                      else (case verifyStaticUpstreamHealth (aeLib ae) p (cnTime (aqClock r)) url (crEntry row) of
                          (p', Inl msg) \<Rightarrow> ((db, p'), ReplyDetail 502 ''upstream_healthcheck_failed'' msg)
                        | (p', Inr verifiedAt) \<Rightarrow>
                           (case on_control (\<lambda>c. UpsertStaticTenantUpstream (aqFault r 2) (aeKey ae) (aqClock r) (aqNew r) c
                                   (trimmed_subject sub q) sid url verifiedAt) db of
                              (db', Inl e) \<Rightarrow> ((db', p'), static_upstream_error e)
                            | (db', Inr _) \<Rightarrow> ((db', p'), ReplyUpstream sub sid url verifiedAt))))))
      | _ \<Rightarrow> (w, ReplyError 400 ''invalid_json''))"

section \<open>Grants and tenants\<close>

definition lifecycle_error :: "store_error \<Rightarrow> admin_reply" where
  "lifecycle_error e =
     (if e = ErrTenantInstanceNotFound then ReplyError 404 ''tenant_not_found''
      else if e = ErrSubjectServiceGrantNotFound then ReplyError 409 ''service_not_granted''
      else ReplyError 500 ''tenant_lifecycle_update_failed'')"

definition handleTenantLifecyclePut :: "bank_db \<Rightarrow> admin_request \<Rightarrow> string \<Rightarrow> string \<Rightarrow> string \<Rightarrow> bank_db \<times> admin_reply" where
  "handleTenantLifecyclePut db r sub sid action =
     (if action = ''suspend'' then
        (case on_control (\<lambda>c. SuspendTenantInstance (aqFault r 0) c sub sid) db of
           (db', Inl e) \<Rightarrow> (db', lifecycle_error e)
         | (db', Inr _) \<Rightarrow> (db', ReplyDesired sub sid DesiredDisabled))
      else if action = ''resume'' then
        (case on_control (\<lambda>c. ResumeTenantInstance (aqFault r 0) (aqFault r 1) c sub sid) db of
           (db', Inl e) \<Rightarrow> (db', lifecycle_error e)
         | (db', Inr _) \<Rightarrow> (db', ReplyDesired sub sid DesiredEnabled))
      else (db, ReplyNotFound))"

definition empty_body :: subject_body where
  "empty_body = \<lparr>sbUpstreamURL = [], sbSubjectKey = [], sbUsername = [], sbMail = [], sbDisplay = []\<rparr>"

definition manual_grant :: "'p admin_env \<Rightarrow> bank_db \<Rightarrow> admin_request \<Rightarrow> string \<Rightarrow> string \<Rightarrow> subject_body
    \<Rightarrow> bank_db \<times> admin_reply" where
  "manual_grant ae db r sub sid q =
     (if sub = [] then (db, ReplyError 400 ''subject_sub is required'')
      else case on_control (\<lambda>c. UpsertManualServiceGrant (aqFault r 0) (aeKey ae) (aqClock r) c (trimmed_subject sub q) sid) db of
          (db', Inl e) \<Rightarrow> (db', if e = StoreDb NoRows then ReplyError 404 ''service_not_found''
                               else ReplyError 500 ''upsert_manual_grant_failed'')
        | (db', Inr _) \<Rightarrow> (db', ReplyManual sub sid manual))"

definition handleManualGrantPut :: "'p admin_env \<Rightarrow> bank_db \<Rightarrow> admin_request \<Rightarrow> string \<Rightarrow> string \<Rightarrow> bank_db \<times> admin_reply" where
  "handleManualGrantPut ae db r sub sid =
     (case aeGrantBody ae (aqBody r) of
        BodyInvalid \<Rightarrow> (db, ReplyError 400 ''invalid_json'')
      | BodyEmpty \<Rightarrow> manual_grant ae db r sub sid empty_body
      | Body q \<Rightarrow> manual_grant ae db r sub sid q)"

text \<open>The rest of \<^verbatim>\<open>handleSubject\<close>: paths below \<^verbatim>\<open>grants/\<close>.\<close>

definition subject_grants :: "'p admin_env \<Rightarrow> bank_db \<Rightarrow> admin_request \<Rightarrow> string \<Rightarrow> string \<Rightarrow> bank_db \<times> admin_reply" where
  "subject_grants ae db r sub tail =
     (let sid = trim_prefix tail ''grants/'' in
      if sid = tail \<or> sid = [] \<or> contains_char sid slash then (db, ReplyNotFound)
      else case validateServiceID sid of
          Inl msg \<Rightarrow> (db, ReplyError 400 msg)
        | Inr _ \<Rightarrow>
            if aqMethod r = PUT then handleManualGrantPut ae db r sub sid
            else if aqMethod r = DELETE then
              (case on_control (\<lambda>c. DeleteManualServiceGrant (aqFault r 0) c sub sid) db of
                 (db', Inl _) \<Rightarrow> (db', ReplyError 500 ''delete_grant_failed'')
               | (db', Inr _) \<Rightarrow> (db', ReplyNoContent))
            else (db, ReplyNotAllowed [PUT, DELETE]))"

definition service_resource :: "'p admin_env \<Rightarrow> bank_db \<Rightarrow> admin_request \<Rightarrow> string \<Rightarrow> string \<Rightarrow> string \<Rightarrow> string
    \<Rightarrow> bank_db \<times> admin_reply" where
  "service_resource ae db r sub sid resource tail =
     (if resource = ''projects'' then handleMemoryBankProjects ae db r sub sid tail
      else if aqMethod r = DELETE \<and> tail \<noteq> [] then handleMemoryBankShareDelete (aeBank ae) db r sub sid tail
      else handleMemoryBankShares (aeBank ae) db r sub sid tail)"

definition with_service :: "'s \<Rightarrow> string \<Rightarrow> 's \<times> admin_reply \<Rightarrow> 's \<times> admin_reply" where
  "with_service w sid k = (case validateServiceID sid of Inl msg \<Rightarrow> (w, ReplyError 400 msg) | Inr _ \<Rightarrow> k)"

definition route_subject :: "'p admin_env \<Rightarrow> bank_db \<times> 'p \<Rightarrow> admin_request \<Rightarrow> string \<Rightarrow> string
    \<Rightarrow> (bank_db \<times> 'p) \<times> admin_reply" where
  "route_subject ae w r sub tail =
     (let local = (\<lambda>f. case f (fst w) of (db', ans) \<Rightarrow> ((db', snd w), ans)) in
      if tail = ''grants'' then
        (w, if aqMethod r \<noteq> GET then ReplyNotAllowed [GET]
            else case ListSubjectServiceGrants (aqFault r 0) (beParse (aeBank ae)) (bkControl (fst w)) sub of
                Inl _ \<Rightarrow> ReplyError 500 ''list_grants_failed''
              | Inr gs \<Rightarrow> ReplyGrants sub gs)
      else case parseMemoryBankAdminTail tail of
        Some (sid, resource, rest) \<Rightarrow> with_service w sid (local (\<lambda>db. service_resource ae db r sub sid resource rest))
      | None \<Rightarrow>
         (case parseSubjectServiceUpstreamTail tail of
            Some sid \<Rightarrow> with_service w sid
              (if aqMethod r \<noteq> PUT then (w, ReplyNotAllowed [PUT]) else handleStaticUpstreamPut ae w r sub sid)
          | None \<Rightarrow>
             (case parseSubjectServiceLifecycleTail tail of
                Some (sid, action) \<Rightarrow> with_service w sid
                  (if aqMethod r \<noteq> PUT then (w, ReplyNotAllowed [PUT])
                   else local (\<lambda>db. handleTenantLifecyclePut db r sub sid action))
              | None \<Rightarrow> local (\<lambda>db. subject_grants ae db r sub tail))))"

definition handleSubject :: "'p admin_env \<Rightarrow> bank_db \<times> 'p \<Rightarrow> admin_request \<Rightarrow> (bank_db \<times> 'p) \<times> admin_reply" where
  "handleSubject ae w r =
     (case requireAdminToken (aeRead ae) (aeTokenPath ae) (aqAuthorization r) of
        Some (status, code') \<Rightarrow> (w, ReplyError status code')
      | None \<Rightarrow>
         (case parseSubjectAdminPath (aqPath r) of
            None \<Rightarrow> (w, ReplyNotFound)
          | Some (sub, tail) \<Rightarrow> route_subject ae w r sub tail))"

section \<open>Sequences of requests\<close>

text \<open>
  A machine that answers one request after the other keeps an invariant, moves along a preorder, and if something comes
  about that was not there at first then one of the requests is the cause.
\<close>

locale request_run =
  fixes step :: "'s \<Rightarrow> 'r \<Rightarrow> 's" and inv :: "'s \<Rightarrow> bool" and rel :: "'s \<Rightarrow> 's \<Rightarrow> bool"
  assumes step_inv: "inv s \<Longrightarrow> inv (step s r)"
    and step_rel: "inv s \<Longrightarrow> rel s (step s r)"
    and rel_refl: "rel s s"
    and rel_trans: "rel a b \<Longrightarrow> rel b c \<Longrightarrow> rel a c"
begin

lemma run_inv: "inv s \<Longrightarrow> inv (foldl step s rs)"
  by (induction rs arbitrary: s) (simp_all add: step_inv)

lemma run_rel: "inv s \<Longrightarrow> rel s (foldl step s rs)"
proof (induction rs arbitrary: s)
  case (Cons r rs)
  then show ?case using step_inv step_rel rel_trans by (metis foldl_Cons)
qed (simp add: rel_refl)

lemma run_cause:
  assumes "\<And>s r. inv s \<Longrightarrow> Q (step s r) \<Longrightarrow> Q s \<or> C r" "inv s" "Q (foldl step s rs)"
  shows "Q s \<or> (\<exists>r \<in> set rs. C r)"
  using assms(2,3)
proof (induction rs arbitrary: s)
  case (Cons r rs)
  from Cons.IH[of "step s r"] Cons.prems show ?case using step_inv assms(1) by auto
qed simp

end

definition admin_step :: "'p admin_env \<Rightarrow> bank_db \<times> 'p \<Rightarrow> admin_request \<Rightarrow> bank_db \<times> 'p" where
  "admin_step ae w r = fst (handleSubject ae w r)"

section \<open>What requests do to the shares\<close>

named_theorems quiet

lemma on_control_quiet [quiet]: "bank_quiet db (fst (on_control f db))"
  by (simp add: on_control_def split: prod.split)

lemma quiet_of: "fst p = a \<Longrightarrow> bank_quiet db a \<Longrightarrow> bank_quiet db (fst p)"
  by simp

text \<open>The database after a result that is looked at by cases.\<close>

lemma quiet_case: "bank_quiet db (fst m) \<Longrightarrow> m = (db', x) \<Longrightarrow> bank_quiet db db'"
  by simp

lemma project_put_quiet [quiet]: "bank_quiet db (fst (handleMemoryBankProjectPut ae db r owner sid k))"
  by (auto simp: handleMemoryBankProjectPut_def Let_def split: body.split sum.split prod.split
    intro: quiet_case[OF UpsertMemoryBankProject_quiet])

lemma share_create_quiet [quiet]: "bank_quiet db (fst (handleMemoryBankProjectShareCreate ae db r owner sid k))"
proof -
  have create: "bank_quiet a b"
    if "CreateMemoryBankProjectShare env f c new a (new_share pid owner col perm ex m) = (b, x)" for env f c new a b x pid col perm ex m
    by (rule quiet_case[OF create_share_quiet that]) (simp add: new_share_def)
  show ?thesis
    by (auto simp: handleMemoryBankProjectShareCreate_def Let_def split: body.split sum.split prod.split
      intro: quiet_case[OF on_control_quiet] bank_quiet_trans[OF quiet_case[OF on_control_quiet] create])
qed

lemma projects_quiet [quiet]: "bank_quiet db (fst (handleMemoryBankProjects ae db r owner sid tail))"
  by (simp add: handleMemoryBankProjects_def handleMemoryBankProjectList_def quiet split: prod.split)

lemma share_delete_quiet [quiet]: "bank_quiet db (fst (handleMemoryBankShareDelete env db r owner sid raw))"
  by (auto simp: handleMemoryBankShareDelete_def split: sum.split prod.split
    intro: quiet_case[OF RevokeMemoryBankProjectShare_quiet])

lemma lifecycle_quiet [quiet]: "bank_quiet db (fst (handleTenantLifecyclePut db r sub sid action))"
  by (auto simp: handleTenantLifecyclePut_def split: sum.split prod.split intro: quiet_case[OF on_control_quiet])

lemma manual_grant_quiet [quiet]: "bank_quiet db (fst (manual_grant ae db r sub sid q))"
  by (auto simp: manual_grant_def split: sum.split prod.split intro: quiet_case[OF on_control_quiet])

lemma subject_grants_quiet [quiet]: "bank_quiet db (fst (subject_grants ae db r sub tail))"
  by (auto simp: subject_grants_def handleManualGrantPut_def Let_def quiet split: sum.split prod.split body.split
    intro: quiet_case[OF on_control_quiet])

lemma static_put_quiet [quiet]: "bank_quiet (fst w) (fst (fst (handleStaticUpstreamPut ae w r sub sid)))"
  by (auto simp: handleStaticUpstreamPut_def split: sum.split prod.split body.split option.split
    intro: quiet_case[OF on_control_quiet])

text \<open>The request by which the collaborator accepts a share.\<close>

definition accept_request :: "'p admin_env \<Rightarrow> admin_request \<Rightarrow> string \<Rightarrow> uuid \<Rightarrow> bool" where
  "accept_request ae r sub i \<longleftrightarrow>
     requireAdminToken (aeRead ae) (aeTokenPath ae) (aqAuthorization r) = None \<and> aqMethod r = PUT
     \<and> (\<exists>sid raw. parseSubjectAdminPath (aqPath r) = Some (sub, ''services/'' @ sid @ ''/shares/'' @ raw @ ''/accept'')
          \<and> Parse raw = Inr i)"

lemma cut_char_join: "cut_char c s = (a, b, True) \<Longrightarrow> s = a @ [c] @ b"
proof -
  assume "cut_char c s = (a, b, True)"
  then have ab: "a = takeWhile (\<lambda>x. x \<noteq> c) s" "b = tl (dropWhile (\<lambda>x. x \<noteq> c) s)" "c \<in> set s"
    by (auto simp: cut_char_def before_char_def contains_char_def)
  then have "dropWhile (\<lambda>x. x \<noteq> c) s \<noteq> []" by (auto simp: dropWhile_eq_Nil_conv)
  moreover from this have "hd (dropWhile (\<lambda>x. x \<noteq> c) s) = c" by (rule hd_dropWhile[THEN notnotD])
  ultimately show ?thesis unfolding ab by (metis append_Cons append_Nil list.collapse takeWhile_dropWhile_id)
qed

lemma bank_tail_join:
  assumes "parseMemoryBankAdminTail tail = Some (sid, resource, rest)" "rest \<noteq> []"
  shows "tail = ''services/'' @ sid @ [slash] @ resource @ [slash] @ rest"
proof -
  obtain body where t: "tail = ''services/'' @ body"
    using assms(1) by (auto simp: parseMemoryBankAdminTail_def prefix_def split: if_splits)
  have tp: "trim_prefix tail ''services/'' = body" unfolding t by (rule trim_prefix_append)
  obtain r2 where c1: "cut_char slash body = (sid, r2, True)"
    using assms(1) tp by (auto simp: parseMemoryBankAdminTail_def split: if_splits prod.splits)
  then obtain b where c2: "cut_char slash r2 = (resource, rest, b)"
    using assms(1) tp by (auto simp: parseMemoryBankAdminTail_def split: if_splits prod.splits)
  have rest: "rest = tl (dropWhile (\<lambda>x. x \<noteq> slash) r2)" using c2 by (simp add: cut_char_def)
  have "slash \<in> set r2"
  proof (rule ccontr)
    assume "slash \<notin> set r2"
    then have "dropWhile (\<lambda>x. x \<noteq> slash) r2 = []" by (subst dropWhile_eq_Nil_conv) auto
    then show False using rest assms(2) by (metis list.sel(2))
  qed
  then have "b" using c2 by (auto simp: cut_char_def contains_char_def)
  then have "r2 = resource @ [slash] @ rest" using cut_char_join[of slash r2 resource rest] c2 by simp
  then show ?thesis using cut_char_join[OF c1] unfolding t by simp
qed

lemma shares_accept:
  "bank_quiet db (fst (handleMemoryBankShares env db r sub sid tail))
   \<or> (\<exists>raw i. aqMethod r = PUT \<and> tail = raw @ ''/accept'' \<and> Parse raw = Inr i
        \<and> fst (handleMemoryBankShares env db r sub sid tail)
            = fst (ActivateMemoryBankProjectShare env (aqFault r) (aqClock r) db i sub (cnTime (aqClock r))))"
proof (cases "tail = []")
  case True
  have "bank_quiet db (fst (ListMemoryBankProjectSharesForSubjectService env f c db sub sid b))" for f c b
    by (simp add: ListMemoryBankProjectSharesForSubjectService_def list_shares_quiet)
  from quiet_case[OF this] show ?thesis
    using True by (auto simp: handleMemoryBankShares_def split: prod.splits sum.splits)
next
  case False
  obtain raw action ok where c: "cut_char slash tail = (raw, action, ok)" by (metis prod_cases3)
  show ?thesis
  proof (cases "ok \<and> action = ''accept'' \<and> aqMethod r = PUT \<and> (\<exists>i. Parse raw = Inr i)")
    case True
    then obtain i where i: "Parse raw = Inr i" by blast
    have "tail = raw @ ''/accept''" using cut_char_join[of slash tail raw action] c True by (simp add: slash_def)
    moreover have "fst (handleMemoryBankShares env db r sub sid tail) = fst (accept_share env db r sub i)"
      using True False c i by (simp add: handleMemoryBankShares_def)
    moreover have "fst (accept_share env db r sub i)
        = fst (ActivateMemoryBankProjectShare env (aqFault r) (aqClock r) db i sub (cnTime (aqClock r)))"
      by (simp add: accept_share_def split: prod.split sum.split)
    ultimately show ?thesis using True i by metis
  next
    case None: False
    then have "fst (handleMemoryBankShares env db r sub sid tail) = db"
      using False c by (cases "Parse raw") (auto simp: handleMemoryBankShares_def)
    then show ?thesis by simp
  qed
qed

lemma fst_local: "fst (fst (case f of (db', ans) \<Rightarrow> ((db', p), ans))) = fst f"
  by (simp split: prod.split)

lemma with_service_cases: "fst (with_service w sid k) \<in> {w, fst k}"
  by (simp add: with_service_def split: sum.split)

lemma bank_tail_resource: "parseMemoryBankAdminTail tail = Some (sid, resource, rest) \<Longrightarrow> resource = ''projects'' \<or> resource = ''shares''"
  by (auto simp: parseMemoryBankAdminTail_def split: if_splits prod.splits)

lemma quiet_service:
  "bank_quiet (fst w) (fst (fst k)) \<Longrightarrow> bank_quiet (fst w) (fst (fst (with_service w sid k)))"
  using with_service_cases[of w sid k] by auto

lemma route_quiet:
  assumes "\<And>sid rest. parseMemoryBankAdminTail tail = Some (sid, ''shares'', rest) \<Longrightarrow>
    bank_quiet (fst w) (fst (handleMemoryBankShares (aeBank ae) (fst w) r sub sid rest))"
  shows "bank_quiet (fst w) (fst (fst (route_subject ae w r sub tail)))"
proof (cases "tail = ''grants''")
  case False
  show ?thesis
  proof (cases "parseMemoryBankAdminTail tail")
    case (Some x)
    obtain sid resource rest where x: "x = (sid, resource, rest)" by (cases x) auto
    have "bank_quiet (fst w) (fst (service_resource ae (fst w) r sub sid resource rest))"
      using bank_tail_resource[OF Some[unfolded x]] assms Some x by (auto simp: service_resource_def quiet)
    then show ?thesis
      using False Some unfolding x by (simp add: route_subject_def quiet_service fst_local)
  next
    case None
    then show ?thesis
      using False
      by (simp add: route_subject_def quiet_service fst_local quiet split: option.split prod.split)
  qed
qed (simp add: route_subject_def)

lemma admin_step_shares:
  "bank_step_ok (fst w) (fst (admin_step ae w r))
   \<and> active_ids (fst (admin_step ae w r)) \<subseteq> active_ids (fst w)
       \<union> {i. \<exists>s \<in> set (bkShares (fst w)). shID s = i \<and> accept_request ae r (shCollaborator s) i}"
proof -
  let ?A = "{i. \<exists>s \<in> set (bkShares (fst w)). shID s = i \<and> accept_request ae r (shCollaborator s) i}"
  have q: ?thesis if "bank_quiet (fst w) (fst (admin_step ae w r))"
    using that by (auto simp: bank_quiet_def)
  show ?thesis
  proof (cases "requireAdminToken (aeRead ae) (aeTokenPath ae) (aqAuthorization r)")
    case (Some e)
    then show ?thesis by (simp add: admin_step_def handleSubject_def split: prod.split)
  next
    case admin: None
    show ?thesis
    proof (cases "parseSubjectAdminPath (aqPath r)")
      case None
      then show ?thesis using admin by (simp add: admin_step_def handleSubject_def)
    next
      case (Some st)
      then obtain sub tail where path: "parseSubjectAdminPath (aqPath r) = Some (sub, tail)" by force
      have step: "admin_step ae w r = fst (route_subject ae w r sub tail)"
        using admin path by (simp add: admin_step_def handleSubject_def)
      show ?thesis
      proof (cases "bank_quiet (fst w) (fst (fst (route_subject ae w r sub tail)))")
        case True
        then show ?thesis using q step by simp
      next
        case False
        then obtain sid rest where t: "parseMemoryBankAdminTail tail = Some (sid, ''shares'', rest)"
          and nq: "\<not> bank_quiet (fst w) (fst (handleMemoryBankShares (aeBank ae) (fst w) r sub sid rest))"
          using route_quiet by blast
        from shares_accept nq obtain raw i where put: "aqMethod r = PUT" "rest = raw @ ''/accept''" "Parse raw = Inr i"
          and act: "fst (handleMemoryBankShares (aeBank ae) (fst w) r sub sid rest)
            = fst (ActivateMemoryBankProjectShare (aeBank ae) (aqFault r) (aqClock r) (fst w) i sub (cnTime (aqClock r)))"
          by blast
        have "rest \<noteq> []" using put by simp
        from bank_tail_join[OF t this] have tail: "tail = ''services/'' @ sid @ ''/shares/'' @ raw @ ''/accept''"
          using put by (simp add: slash_def)
        from tail have tail_grants: "tail \<noteq> ''grants''" by simp
        from tail have acc: "accept_request ae r sub i"
          using admin path put unfolding accept_request_def by blast
        have ans: "fst (fst (route_subject ae w r sub tail)) \<in>
            {fst w, fst (handleMemoryBankShares (aeBank ae) (fst w) r sub sid rest)}"
          using t put(1) with_service_cases[of w sid
            "case service_resource ae (fst w) r sub sid ''shares'' rest of (db', ans) \<Rightarrow> ((db', snd w), ans)"]
          by (auto simp: route_subject_def Let_def fst_local service_resource_def tail_grants)
        from ActivateMemoryBankProjectShare_step[of "fst w" "aeBank ae" "aqFault r" "aqClock r" i sub "cnTime (aqClock r)"]
        show ?thesis using ans acc unfolding act step by auto
      qed
    qed
  qed
qed

section \<open>What requests do to grants and tenants\<close>

text \<open>All requests but one for a static upstream apply one of these operations, or none.\<close>

definition plain_step :: "(string \<Rightarrow> string) \<Rightarrow> control_db \<Rightarrow> control_db \<Rightarrow> bool" where
  "plain_step key c c' \<longleftrightarrow> c' = c \<or> (\<exists>g. c' = grant_step key c g)
     \<or> (\<exists>f sub sid. c' = fst (SuspendTenantInstance f c sub sid))
     \<or> (\<exists>f f' sub sid. c' = fst (ResumeTenantInstance f f' c sub sid))"

lemma plain_step_same [simp]: "plain_step key c c"
  by (simp add: plain_step_def)

lemma plain_step_ok: "plain_step key c c' \<Longrightarrow> control_ok c \<Longrightarrow> control_ok c'"
  using control_step_ok[of c key "ControlGrant g" for g] suspend_ok resume_ok by (auto simp: plain_step_def)

lemma on_control_fst: "on_control f db = (db', x) \<Longrightarrow> bkControl db' = fst (f (bkControl db))"
  by (auto simp: on_control_def split: prod.splits)

lemma plain_steps:
  "plain_step key c (fst (UpsertSubject f c s))"
  "plain_step key c (fst (UpsertManualServiceGrant f key cl c s sid))"
  "plain_step key c (fst (DeleteManualServiceGrant f c sub sid))"
  "plain_step key c (fst (SuspendTenantInstance f c sub sid))"
  "plain_step key c (fst (ResumeTenantInstance f f' c sub sid))"
  unfolding plain_step_def using grant_step.simps by metis+

lemma bank_ops_control [simp]:
  "bkControl (fst (UpsertMemoryBankProject env f c new db p)) = bkControl db"
  "bkControl (fst (CreateMemoryBankProjectShare env g c new db s)) = bkControl db"
  "bkControl (fst (list_shares env f c db q)) = bkControl db"
  "bkControl (fst (ActivateMemoryBankProjectShare env f c db i sub t)) = bkControl db"
  "bkControl (fst (RevokeMemoryBankProjectShare g c db i t)) = bkControl db"
proof -
  have p: "bkControl db' = bkControl db" if "q_UpsertMemoryBankProject env now db p = Inr (db', i)" for now db' p i
    using that by (auto simp: q_UpsertMemoryBankProject_def split: if_splits option.splits)
  have i: "bkControl db' = bkControl d" if "q_InsertMemoryBankProjectShare env now d s = Inr (db', i)" for now d db' s i
    using that by (auto simp: q_InsertMemoryBankProjectShare_def split: if_splits)
  have u: "bkControl (fst (update_shares P f d)) = bkControl d" for P f d by (simp add: update_shares_def)
  show "bkControl (fst (UpsertMemoryBankProject env f c new db p)) = bkControl db"
    by (auto simp: UpsertMemoryBankProject_def bind_result_def faulty_def lift_db_def p split: sum.splits option.splits)
  have e: "bkControl (fst (q_ExpireMemoryBankProjectShares env now d at)) = bkControl d" for now d at
    by (simp add: q_ExpireMemoryBankProjectShares_def u)
  have "bkControl (fst (with_tx g db (create_share_body env c s'))) = bkControl db" for s'
    by (rule with_tx_keeps[where P = "\<lambda>d. bkControl d = bkControl db"])
       (auto simp: create_share_body_def result_simps e dest!: i split: prod.splits if_splits)
  then show "bkControl (fst (CreateMemoryBankProjectShare env g c new db s)) = bkControl db"
    by (simp add: CreateMemoryBankProjectShare_def split: sum.split prod.split) (metis fst_conv)
  have x: "bkControl (fst (expireMemoryBankProjectShares env h c d t')) = bkControl d" for h d t'
    by (simp add: expireMemoryBankProjectShares_def e split: option.split)
  show "bkControl (fst (list_shares env f c db q)) = bkControl db"
    using x[of "f 0" db "cnTime c"] by (auto simp: list_shares_def split: prod.split sum.split)
  have a: "bkControl (fst (q_ActivateMemoryBankProjectShare env now d at j col)) = bkControl d" for now d at j col
    by (simp add: q_ActivateMemoryBankProjectShare_def u)
  show "bkControl (fst (ActivateMemoryBankProjectShare env f c db i sub t)) = bkControl db"
    using x[of "f 0" db t] a[of "cnNow c" _ "sqlNullTime (cnFormat c) t" i sub]
    by (auto simp: ActivateMemoryBankProjectShare_def split: prod.split sum.split option.split) (metis fst_conv)
  show "bkControl (fst (RevokeMemoryBankProjectShare g c db i t)) = bkControl db"
    by (simp add: RevokeMemoryBankProjectShare_def q_RevokeMemoryBankProjectShare_def update_shares_def split: option.split)
qed

lemma same_control: "m = (db', x) \<Longrightarrow> bkControl (fst m) = c \<Longrightarrow> bkControl db' = c"
  by simp

lemma on_control_plain:
  "on_control f db = (db', x) \<Longrightarrow> plain_step key (bkControl db) (fst (f (bkControl db)))
    \<Longrightarrow> plain_step key (bkControl db) (bkControl db')"
  by (simp add: on_control_fst)

lemma handlers_plain:
  "plain_step (aeKey ae) (bkControl db) (bkControl (fst (subject_grants ae db r sub tail)))"
  "plain_step (aeKey ae) (bkControl db) (bkControl (fst (handleTenantLifecyclePut db r sub sid action)))"
  by (auto simp: subject_grants_def handleManualGrantPut_def manual_grant_def handleTenantLifecyclePut_def Let_def
      split: sum.split prod.split body.split intro: on_control_plain plain_steps)

lemma share_create_plain:
  "plain_step (aeKey ae) (bkControl db) (bkControl (fst (handleMemoryBankProjectShareCreate ae db r owner sid k)))"
proof -
  have two: "plain_step key c (bkControl b)"
    if "CreateMemoryBankProjectShare env f cl new a s = (b, x)" "plain_step key c (bkControl a)"
    for key c env f cl new a b x s
    using that bank_ops_control(2)[of env f cl new a s] by simp
  show ?thesis
    by (auto simp: handleMemoryBankProjectShareCreate_def Let_def split: body.split sum.split prod.split
      intro: on_control_plain plain_steps two)
qed

lemma service_resource_plain:
  "plain_step (aeKey ae) (bkControl db) (bkControl (fst (service_resource ae db r sub sid resource tail)))"
proof -
  have put: "bkControl (fst (handleMemoryBankProjectPut ae db r owner sid k)) = bkControl db" for owner k
    by (auto simp: handleMemoryBankProjectPut_def Let_def split: body.split sum.split prod.split
      intro: same_control[OF _ bank_ops_control(1)])
  have del: "bkControl (fst (handleMemoryBankShareDelete env db r owner sid raw)) = bkControl db" for env owner raw
    by (auto simp: handleMemoryBankShareDelete_def split: sum.split prod.split
      intro: same_control[OF _ bank_ops_control(5)])
  have shares: "bkControl (fst (handleMemoryBankShares env db r sub sid t)) = bkControl db" for env t
    by (auto simp: handleMemoryBankShares_def accept_share_def ListMemoryBankProjectSharesForSubjectService_def
      split: sum.split prod.split intro: same_control[OF _ bank_ops_control(3)] same_control[OF _ bank_ops_control(4)])
  show ?thesis
    by (simp add: service_resource_def handleMemoryBankProjects_def handleMemoryBankProjectList_def put del shares
      share_create_plain split: prod.split)
qed

lemma plain_service:
  "plain_step key c (bkControl (fst (fst k))) \<Longrightarrow> bkControl (fst w) = c
    \<Longrightarrow> plain_step key c (bkControl (fst (fst (with_service w sid k))))"
  using with_service_cases[of w sid k] by auto

text \<open>The request that sets a static upstream: all that was checked before.\<close>

definition static_put :: "'p admin_env \<Rightarrow> bank_db \<times> 'p \<Rightarrow> admin_request \<Rightarrow> string \<Rightarrow> string \<Rightarrow> string \<Rightarrow> bool" where
  "static_put ae w r sub sid url \<longleftrightarrow>
     requireAdminToken (aeRead ae) (aeTokenPath ae) (aqAuthorization r) = None \<and> aqMethod r = PUT
     \<and> (\<exists>tail. parseSubjectAdminPath (aqPath r) = Some (sub, tail) \<and> parseSubjectServiceUpstreamTail tail = Some sid)
     \<and> (\<exists>q row h p' resp. aeUpstreamBody ae (aqBody r) = Body q
          \<and> normalizeStaticUpstreamURL (aeNet ae) (rlURLString (aeLib ae)) (sbUpstreamURL q) = Inr url
          \<and> q_GetEnabledServiceCatalogEntry (cdCatalog (bkControl (fst w))) sid = Inr row
          \<and> SubjectServiceGranted (bkControl (fst w)) sub sid
          \<and> probe_url (aeLib ae) (probe_tenant (crEntry row)) (crEntry row) [] url = Inr h
          \<and> rlProbe (aeLib ae) (snd w) h = (p', Inr resp) \<and> status_2xx (prStatus resp))"

lemma static_put_control:
  assumes "requireAdminToken (aeRead ae) (aeTokenPath ae) (aqAuthorization r) = None" "aqMethod r = PUT"
    "parseSubjectAdminPath (aqPath r) = Some (sub, tail)" "parseSubjectServiceUpstreamTail tail = Some sid"
  shows "bkControl (fst (fst (handleStaticUpstreamPut ae w r sub sid))) = bkControl (fst w)
    \<or> (\<exists>url s. static_put ae w r sub sid url \<and> dsSub s = sub
        \<and> bkControl (fst (fst (handleStaticUpstreamPut ae w r sub sid)))
            = fst (UpsertStaticTenantUpstream (aqFault r 2) (aeKey ae) (aqClock r) (aqNew r) (bkControl (fst w)) s sid url
                (cnTime (aqClock r))))"
proof -
  obtain db p where w: "w = (db, p)" by (cases w)
  have probe: "\<exists>h resp. probe_url lib (probe_tenant svc) svc [] url = Inr h \<and> rlProbe lib p h = (p', Inr resp)
      \<and> status_2xx (prStatus resp) \<and> v = now"
    if "verifyStaticUpstreamHealth lib p now url svc = (p', Inr v)" for lib and now :: time and url svc p' v
    using that by (auto simp: verifyStaticUpstreamHealth_def probeTenantHealth_def split: sum.splits prod.splits if_splits)
  show ?thesis
  proof (cases "\<exists>q url row p' v. aeUpstreamBody ae (aqBody r) = Body q \<and> sub \<noteq> []
      \<and> normalizeStaticUpstreamURL (aeNet ae) (rlURLString (aeLib ae)) (sbUpstreamURL q) = Inr url
      \<and> faulty (aqFault r 0) (q_GetEnabledServiceCatalogEntry (cdCatalog (bkControl db)) sid) = Inr row
      \<and> aqFault r 1 = None \<and> SubjectServiceGranted (bkControl db) sub sid
      \<and> verifyStaticUpstreamHealth (aeLib ae) p (cnTime (aqClock r)) url (crEntry row) = (p', Inr v)")
    case True
    then obtain q url row p' v where c: "aeUpstreamBody ae (aqBody r) = Body q" "sub \<noteq> []"
      "normalizeStaticUpstreamURL (aeNet ae) (rlURLString (aeLib ae)) (sbUpstreamURL q) = Inr url"
      "faulty (aqFault r 0) (q_GetEnabledServiceCatalogEntry (cdCatalog (bkControl db)) sid) = Inr row"
      "aqFault r 1 = None" "SubjectServiceGranted (bkControl db) sub sid"
      "verifyStaticUpstreamHealth (aeLib ae) p (cnTime (aqClock r)) url (crEntry row) = (p', Inr v)" by blast
    have row: "q_GetEnabledServiceCatalogEntry (cdCatalog (bkControl db)) sid = Inr row"
      using c(4) by (auto simp: faulty_def lift_db_def split: option.splits sum.splits)
    from probe[OF c(7)] have "static_put ae w r sub sid url"
      unfolding static_put_def w using assms c row by auto
    moreover have v: "v = cnTime (aqClock r)" using probe[OF c(7)] by blast
    have "bkControl (fst (fst (handleStaticUpstreamPut ae w r sub sid)))
        = fst (UpsertStaticTenantUpstream (aqFault r 2) (aeKey ae) (aqClock r) (aqNew r) (bkControl db) (trimmed_subject sub q)
            sid url (cnTime (aqClock r)))"
      using c(1-3,5-7) c(4) unfolding w
      by (simp add: handleStaticUpstreamPut_def v split: prod.split sum.split) (auto dest: on_control_fst)
    moreover have "dsSub (trimmed_subject sub q) = sub" by (simp add: trimmed_subject_def)
    ultimately show ?thesis unfolding w fst_conv by blast
  next
    case False
    then have "bkControl (fst (fst (handleStaticUpstreamPut ae w r sub sid))) = bkControl db"
      unfolding w handleStaticUpstreamPut_def
      by (auto split: body.split sum.split option.split prod.split)
    then show ?thesis unfolding w by simp
  qed
qed

lemma route_control:
  "plain_step (aeKey ae) (bkControl (fst w)) (bkControl (fst (fst (route_subject ae w r sub tail))))
   \<or> (\<exists>sid. parseSubjectServiceUpstreamTail tail = Some sid \<and> aqMethod r = PUT
        \<and> fst (fst (route_subject ae w r sub tail)) = fst (fst (handleStaticUpstreamPut ae w r sub sid)))"
proof (cases "tail = ''grants''")
  case False
  note simps = route_subject_def plain_service fst_local handlers_plain service_resource_plain
  show ?thesis
  proof (cases "parseMemoryBankAdminTail tail")
    case (Some x)
    obtain sid resource rest where "x = (sid, resource, rest)" by (cases x) auto
    then show ?thesis using False Some by (simp add: simps)
  next
    case none: None
    show ?thesis
    proof (cases "parseSubjectServiceUpstreamTail tail")
      case None
      then show ?thesis using False none by (simp add: simps split: option.split prod.split)
    next
      case (Some sid)
      let ?k = "if aqMethod r \<noteq> PUT then (w, ReplyNotAllowed [PUT]) else handleStaticUpstreamPut ae w r sub sid"
      have "route_subject ae w r sub tail = with_service w sid ?k"
        using False none Some by (simp add: route_subject_def)
      then show ?thesis using Some with_service_cases[of w sid ?k] by (auto split: if_splits)
    qed
  qed
qed (simp add: route_subject_def)

lemma admin_step_control:
  "plain_step (aeKey ae) (bkControl (fst w)) (bkControl (fst (admin_step ae w r)))
   \<or> (\<exists>sub sid url s. static_put ae w r sub sid url \<and> dsSub s = sub \<and> bkControl (fst (admin_step ae w r))
        = fst (UpsertStaticTenantUpstream (aqFault r 2) (aeKey ae) (aqClock r) (aqNew r) (bkControl (fst w)) s sid url
            (cnTime (aqClock r))))"
proof (cases "requireAdminToken (aeRead ae) (aeTokenPath ae) (aqAuthorization r) = None
    \<and> parseSubjectAdminPath (aqPath r) \<noteq> None")
  case True
  then obtain sub tail where path: "parseSubjectAdminPath (aqPath r) = Some (sub, tail)" by auto
  have step: "admin_step ae w r = fst (route_subject ae w r sub tail)"
    using True path by (simp add: admin_step_def handleSubject_def)
  from route_control[of ae w r sub tail] show ?thesis
  proof
    assume "\<exists>sid. parseSubjectServiceUpstreamTail tail = Some sid \<and> aqMethod r = PUT
        \<and> fst (fst (route_subject ae w r sub tail)) = fst (fst (handleStaticUpstreamPut ae w r sub sid))"
    then obtain sid where sid: "parseSubjectServiceUpstreamTail tail = Some sid" "aqMethod r = PUT"
      "fst (fst (route_subject ae w r sub tail)) = fst (fst (handleStaticUpstreamPut ae w r sub sid))" by blast
    from static_put_control[OF conjunct1[OF True] sid(2) path sid(1), of w] show ?thesis
      unfolding step sid(3) by (metis plain_step_same)
  qed (simp add: step)
next
  case False
  then show ?thesis by (auto simp: admin_step_def handleSubject_def split: option.split)
qed

lemma admin_step_control_ok:
  "control_ok (bkControl (fst w)) \<Longrightarrow> control_ok (bkControl (fst (admin_step ae w r)))"
  using admin_step_control[of ae w r] plain_step_ok
    control_step_ok[of "bkControl (fst w)" "aeKey ae" "ControlStatic f c tid s sid url v" for f c tid s sid url v]
  by auto

interpretation admin: request_run "admin_step ae" "\<lambda>w. bank_ok (fst w)" "\<lambda>a b. shares_follow (fst a) (fst b)"
  for ae :: "'p admin_env"
proof unfold_locales
  fix w :: "bank_db \<times> 'p" and r
  assume "bank_ok (fst w)"
  then show "bank_ok (fst (admin_step ae w r))" "shares_follow (fst w) (fst (admin_step ae w r))"
    using admin_step_shares[of w ae r] by (auto simp: bank_step_ok_def)
qed (auto intro: shares_follow_trans)

interpretation admin_control: request_run "admin_step ae" "\<lambda>w. control_ok (bkControl (fst w))" "\<lambda>a b. True"
  for ae :: "'p admin_env"
  by unfold_locales (auto intro: admin_step_control_ok)

definition admin_run :: "'p admin_env \<Rightarrow> bank_db \<times> 'p \<Rightarrow> admin_request list \<Rightarrow> bank_db \<times> 'p" where
  "admin_run ae w rs = foldl (admin_step ae) w rs"

lemma run_bank_ok: "bank_ok (fst w) \<Longrightarrow> bank_ok (fst (admin_run ae w rs))"
  unfolding admin_run_def by (rule admin.run_inv)

lemma run_follow: "bank_ok (fst w) \<Longrightarrow> shares_follow (fst w) (fst (admin_run ae w rs))"
  unfolding admin_run_def by (rule admin.run_rel)

lemma run_control_ok: "control_ok (bkControl (fst w)) \<Longrightarrow> control_ok (bkControl (fst (admin_run ae w rs)))"
  unfolding admin_run_def by (rule admin_control.run_inv)

text \<open>A share is active only if it was, or if its collaborator accepted it.\<close>

definition active_for :: "uuid \<Rightarrow> string \<Rightarrow> bank_db \<Rightarrow> bool" where
  "active_for i c db \<longleftrightarrow> (\<exists>s \<in> set (bkShares db). shID s = i \<and> shCollaborator s = c \<and> shState s = ''active'')"

lemma follow_collaborator:
  assumes "bank_ok a" "shares_follow a b" "s \<in> set (bkShares a)" "t \<in> set (bkShares b)" "shID s = shID t"
  shows "shCollaborator s = shCollaborator t"
proof -
  have "\<not> share_born a t" using assms(3,5) imageI[of s "set (bkShares a)" shID] by (simp add: share_born_def)
  then obtain s' where s': "s' \<in> set (bkShares a)" "share_steps s' t"
    using assms(2,4) unfolding shares_follow_def by blast
  note id = share_steps_identity[OF s'(2)]
  have "shID s' = shID t" using share_identity_columns(1)[OF id] by simp
  then have "s' = s" using bank_ok_share[OF assms(1) s'(1) assms(3)] assms(5) by simp
  then show ?thesis using share_identity_columns(4)[OF id] by simp
qed

lemma step_active_cause:
  assumes "bank_ok (fst w)" "active_for i c (fst (admin_step ae w r))"
  shows "active_for i c (fst w) \<or> accept_request ae r c i"
proof -
  obtain t where t: "t \<in> set (bkShares (fst (admin_step ae w r)))" "shID t = i" "shCollaborator t = c" "shState t = ''active''"
    using assms(2) by (auto simp: active_for_def)
  have col: "shCollaborator s = c" if "s \<in> set (bkShares (fst w))" "shID s = i" for s
    using follow_collaborator[OF assms(1) _ that(1) t(1)] that(2) t(2,3) assms(1) admin_step_shares[of w ae r]
    by (auto simp: bank_step_ok_def)
  have "i \<in> active_ids (fst (admin_step ae w r))" using t by (auto simp: active_ids_def)
  then consider "i \<in> active_ids (fst w)"
    | s where "s \<in> set (bkShares (fst w))" "shID s = i" "accept_request ae r (shCollaborator s) i"
    using admin_step_shares[of w ae r] by blast
  then show ?thesis
  proof cases
    case 1
    then show ?thesis using col by (auto simp: active_ids_def active_for_def)
  next
    case 2
    then show ?thesis using col by auto
  qed
qed

lemma run_active_cause:
  assumes "bank_ok (fst w)" "active_for i c (fst (admin_run ae w rs))"
  shows "active_for i c (fst w) \<or> (\<exists>r \<in> set rs. accept_request ae r c i)"
  using admin.run_cause[where Q = "\<lambda>w. active_for i c (fst w)" and C = "\<lambda>r. accept_request ae r c i" and ae = ae,
      OF step_active_cause] assms
  unfolding admin_run_def by blast

text \<open>A share that has ended does not come back.\<close>

lemma run_ended:
  assumes "bank_ok (fst w)" "s \<in> set (bkShares (fst w))" "\<not> share_open s"
  shows "\<exists>s' \<in> set (bkShares (fst (admin_run ae w rs))). share_identity s' = share_identity s \<and> \<not> share_open s'
    \<and> (shState s = ''revoked'' \<longrightarrow> s' = s)"
proof -
  obtain s' where "s' \<in> set (bkShares (fst (admin_run ae w rs)))" "share_steps s s'"
    using run_follow[OF assms(1)] assms(2) unfolding shares_follow_def by blast
  then show ?thesis
    using share_steps_identity share_steps_open share_steps_revoked assms(3) by blast
qed

section \<open>Upstreams of tenants\<close>

definition upstream_kept :: "control_db \<Rightarrow> tenant_row \<Rightarrow> bool" where
  "upstream_kept c t' \<longleftrightarrow> (\<exists>t \<in> set (cdTenants c). tnID t = tnID t' \<and> tnSubject t = tnSubject t'
     \<and> tnService t = tnService t' \<and> tnUpstream t = tnUpstream t')"

lemma upstream_kept_self [intro]: "t \<in> set (cdTenants c) \<Longrightarrow> upstream_kept c t"
  by (auto simp: upstream_kept_def)

lemma plain_step_upstreams:
  assumes "plain_step key c c'" "t' \<in> set (cdTenants c')"
  shows "upstream_kept c t'"
proof -
  have m: "upstream_kept c t'" if "t' \<in> set (map (\<lambda>r. if P r then r\<lparr>tnDesired := d\<rparr> else r) (cdTenants c))" for P d
    using that by (auto simp: upstream_kept_def split: if_splits)
  consider "c' = c" | g where "c' = grant_step key c g" | f sub sid where "c' = fst (SuspendTenantInstance f c sub sid)"
    | f f' sub sid where "c' = fst (ResumeTenantInstance f f' c sub sid)"
    using assms(1) unfolding plain_step_def by blast
  then show ?thesis
  proof cases
    case 3
    then show ?thesis
      using assms(2) m by (auto simp: SuspendTenantInstance_def q_MarkTenantDesiredDisabledBySubjectService_def Let_def
        simp del: set_map split: option.splits)
  next
    case 4
    then show ?thesis
      using assms(2) m by (auto simp: ResumeTenantInstance_def q_MarkTenantDesiredEnabledBySubjectServiceWithGrant_def Let_def
        simp del: set_map split: option.splits)
  qed (use assms(2) grant_step_frame in auto)
qed

lemma static_upsert_upstreams:
  assumes "tenants_ok (cdTenants c)"
    and "t' \<in> set (cdTenants (fst (UpsertStaticTenantUpstream f key cl tid c s sid url v)))"
  shows "upstream_kept c t' \<or> tnSubject t' = dsSub s \<and> tnService t' = sid \<and> tnUpstream t' = Some url"
proof -
  let ?P = "\<lambda>d. \<forall>t' \<in> set (cdTenants d). upstream_kept c t'
    \<or> tnSubject t' = dsSub s \<and> tnService t' = sid \<and> tnUpstream t' = Some url"
  have "?P (fst (UpsertStaticTenantUpstream f key cl tid c s sid url v))"
    unfolding UpsertStaticTenantUpstream_def
  proof (rule with_tx_keeps)
    fix d assume "static_body key cl tid s sid url v c = Inr d"
    then obtain t u k n h where u: "q_UpsertStaticTenantUpstream (c\<lparr>cdSubjects := t\<rparr>) tid (dsSub s) sid k n url h = Inr u"
      and d: "cdTenants d = u"
      by (auto simp: static_body_def upsert_enabled_subject_def result_simps split: if_splits)
    have cols: "tnID (static_columns k n url h r) = tnID r \<and> tnSubject (static_columns k n url h r) = tnSubject r
        \<and> tnService (static_columns k n url h r) = tnService r \<and> tnUpstream (static_columns k n url h r) = Some url" for r
      by (simp add: static_columns_def)
    show "?P d"
    proof (cases "find (tenant_key (dsSub s) sid) (cdTenants c)")
      case None
      then have "u = cdTenants c @ [static_columns k n url h (new_tenant tid (dsSub s) sid k)]"
        using u by (auto simp: q_UpsertStaticTenantUpstream_def q_InsertTenantInstance_def split: if_splits)
      then show ?thesis using d cols by auto
    next
      case (Some r)
      then have r: "r \<in> set (cdTenants c)" "tnSubject r = dsSub s" "tnService r = sid"
        by (auto simp: find_Some_iff tenant_key_def)
      have "u = cdTenants c \<or> u = map (\<lambda>q. if tnID q = tnID r then static_columns k n url h q else q) (cdTenants c)"
        using u Some by (auto simp: q_UpsertStaticTenantUpstream_def q_EnableTenantInstance_def split: option.splits if_splits)
      moreover have "upstream_kept c q" if "q \<in> set (cdTenants c)" for q using that by blast
      moreover have "tnSubject q = dsSub s \<and> tnService q = sid" if "q \<in> set (cdTenants c)" "tnID q = tnID r" for q
        using same_id[OF assms(1) r(1) that(1)] that(2) r(2,3) by simp
      ultimately show ?thesis unfolding d by (auto simp: cols split: if_splits)
    qed
  qed auto
  then show ?thesis using assms(2) by blast
qed

lemma step_upstream_cause:
  assumes "control_ok (bkControl (fst w))" "t' \<in> set (cdTenants (bkControl (fst (admin_step ae w r))))"
  shows "upstream_kept (bkControl (fst w)) t'
    \<or> (\<exists>url. tnUpstream t' = Some url \<and> static_put ae w r (tnSubject t') (tnService t') url)"
proof -
  have ok: "tenants_ok (cdTenants (bkControl (fst w)))" using assms(1) by (simp add: control_ok_def)
  from admin_step_control[of ae w r] show ?thesis
  proof (elim disjE exE conjE)
    assume "plain_step (aeKey ae) (bkControl (fst w)) (bkControl (fst (admin_step ae w r)))"
    then show ?thesis using plain_step_upstreams assms(2) by blast
  next
    fix sub sid url s
    assume put: "static_put ae w r sub sid url" "dsSub s = sub"
      and c: "bkControl (fst (admin_step ae w r)) = fst (UpsertStaticTenantUpstream (aqFault r 2) (aeKey ae) (aqClock r) (aqNew r)
        (bkControl (fst w)) s sid url (cnTime (aqClock r)))"
    from static_upsert_upstreams[OF ok assms(2)[unfolded c]] put show ?thesis by auto
  qed
qed

text \<open>The row that a successful request leaves.\<close>

definition plain_metadata :: "control_db \<Rightarrow> bool" where
  "plain_metadata c \<longleftrightarrow> (\<forall>t \<in> set (cdTenants c).
     tnMetadata t = JObj [] \<or> tnMetadata t = JObj [(''runtime_mode'', JStr ''static_upstream'')])"

lemma patched_static:
  "j = JObj [] \<or> j = JObj [(''runtime_mode'', JStr ''static_upstream'')]
    \<Longrightarrow> tenantRuntimeModeStatic (json_patch_member ''runtime_mode'' ''static_upstream'' j)"
proof -
  have "tenantRuntimeModeStatic (JObj [(''runtime_mode'', JStr ''static_upstream'')])" by code_simp
  then show "j = JObj [] \<or> j = JObj [(''runtime_mode'', JStr ''static_upstream'')] \<Longrightarrow> ?thesis"
    by (auto simp: json_patch_member_def)
qed

lemma static_upsert_row:
  assumes "UpsertStaticTenantUpstream f key cl tid c s sid url v = (c', Inr ())" "plain_metadata c"
  shows "\<exists>r. q_GetTenantUpstream (cdTenants c') (dsSub s) sid = Some r \<and> tnDesired r = DesiredEnabled
    \<and> tnRuntime r = RuntimeReady \<and> tnUpstream r = Some url \<and> tenantRuntimeModeStatic (tnMetadata r)"
proof -
  have "static_body key cl tid s sid url v c = Inr c'"
    using assms(1) by (simp add: UpsertStaticTenantUpstream_def with_tx_Inr)
  then obtain t u k n h where u: "q_UpsertStaticTenantUpstream (c\<lparr>cdSubjects := t\<rparr>) tid (dsSub s) sid k n url h = Inr u"
    and c': "cdTenants c' = u"
    by (auto simp: static_body_def upsert_enabled_subject_def result_simps split: if_splits)
  let ?f = "static_columns k n url h"
  have key: "tenant_key (dsSub s) sid (?f r) = tenant_key (dsSub s) sid r" for r
    by (simp add: static_columns_def tenant_key_def)
  have cols: "tnDesired (?f r) = DesiredEnabled" "tnRuntime (?f r) = RuntimeReady" "tnUpstream (?f r) = Some url"
    "tnMetadata (?f r) = json_patch_member ''runtime_mode'' ''static_upstream'' (tnMetadata r)" for r
    by (simp_all add: static_columns_def)
  have "\<exists>r. find (tenant_key (dsSub s) sid) u = Some (?f r) \<and> (tnMetadata r = JObj [] \<or> r \<in> set (cdTenants c))"
  proof (cases "find (tenant_key (dsSub s) sid) (cdTenants c)")
    case None
    let ?r = "new_tenant tid (dsSub s) sid k"
    have u2: "u = cdTenants c @ [?f ?r]"
      using u None by (auto simp: q_UpsertStaticTenantUpstream_def q_InsertTenantInstance_def split: if_splits)
    have "find (tenant_key (dsSub s) sid) (xs @ [?f ?r]) = Some (?f ?r)" if "find (tenant_key (dsSub s) sid) xs = None" for xs
      using that by (induction xs) (auto simp: key tenant_key_def[of _ _ ?r] split: if_splits)
    then show ?thesis using None u2 by (intro exI[of _ ?r]) (simp add: new_tenant_def)
  next
    case (Some r)
    have mem: "r \<in> set (cdTenants c)" using Some by (auto simp: find_Some_iff)
    then have "find (\<lambda>q. tnID q = tnID r) (cdTenants c) \<noteq> None" by (auto simp: find_None_iff)
    then have "u = map (\<lambda>q. if tnID q = tnID r then ?f q else q) (cdTenants c)"
      using u Some by (auto simp: q_UpsertStaticTenantUpstream_def q_EnableTenantInstance_def split: option.splits if_splits)
    then have "find (tenant_key (dsSub s) sid) u = Some (?f r)"
      using find_map_same[of "tenant_key (dsSub s) sid" "\<lambda>q. if tnID q = tnID r then ?f q else q" "cdTenants c"] key Some
      by simp
    then show ?thesis using mem by blast
  qed
  then obtain r where r: "find (tenant_key (dsSub s) sid) u = Some (?f r)" "tnMetadata r = JObj [] \<or> r \<in> set (cdTenants c)"
    by blast
  have "tenantRuntimeModeStatic (tnMetadata (?f r))"
    unfolding cols using r(2) assms(2) by (intro patched_static) (auto simp: plain_metadata_def)
  then show ?thesis using r(1) unfolding q_GetTenantUpstream_def c' by (intro exI[of _ "?f r"]) (simp add: cols)
qed

lemma static_reply:
  assumes h: "handleStaticUpstreamPut ae w r sub sid = (w', ReplyUpstream sub' sid' url v)"
  shows "\<exists>raw s. normalizeStaticUpstreamURL (aeNet ae) (rlURLString (aeLib ae)) raw = Inr url \<and> dsSub s = sub
    \<and> UpsertStaticTenantUpstream (aqFault r 2) (aeKey ae) (aqClock r) (aqNew r) (bkControl (fst w)) s sid url v
        = (bkControl (fst w'), Inr ())"
proof -
  obtain db p where w: "w = (db, p)" by (cases w)
  obtain q where q: "aeUpstreamBody ae (aqBody r) = Body q"
    using h w by (cases "aeUpstreamBody ae (aqBody r)") (auto simp: handleStaticUpstreamPut_def)
  have "normalizeStaticUpstreamURL (aeNet ae) (rlURLString (aeLib ae)) (sbUpstreamURL q) = Inr url"
    using h q w by (auto simp: handleStaticUpstreamPut_def static_upstream_error_def split: sum.splits option.splits prod.splits
      if_splits)
  moreover from this have "UpsertStaticTenantUpstream (aqFault r 2) (aeKey ae) (aqClock r) (aqNew r) (bkControl db)
      (trimmed_subject sub q) sid url v = (bkControl (fst w'), Inr ())"
    using h q w by (auto simp: handleStaticUpstreamPut_def static_upstream_error_def on_control_def
      split: sum.splits option.splits prod.splits if_splits)
  moreover have "dsSub (trimmed_subject sub q) = sub" by (simp add: trimmed_subject_def)
  ultimately show ?thesis using w by auto
qed

section \<open>Paths of subjects\<close>

lemma index_of_skip:
  assumes "\<forall>c \<in> set a. c \<noteq> hd sub" "sub \<noteq> []"
  shows "index_of sub (a @ s) = map_option (\<lambda>n. length a + n) (index_of sub s)"
  using assms
proof (induction a)
  case (Cons x a)
  have "\<not> has_prefix ((x # a) @ s) sub" using Cons.prems by (cases sub) auto
  then show ?case using Cons by (cases "index_of sub s") auto
next
  case Nil
  show ?case by (cases "index_of sub s") simp_all
qed

lemma subject_path:
  assumes "slash \<notin> set sub" "sub \<noteq> []" "trim_space sub = sub" "a = ''grants/'' \<or> a = ''services/''"
  shows "parseSubjectAdminPath (''/v1/subjects/'' @ sub @ [slash] @ a @ x) = Some (sub, a @ x)"
proof -
  have rest: "trim_prefix (''/v1/subjects/'' @ sub @ [slash] @ a @ x) ''/v1/subjects/'' = sub @ [slash] @ a @ x"
    by (rule trim_prefix_append)
  have head: "\<forall>c \<in> set sub. c \<noteq> hd ''/grants''" "\<forall>c \<in> set sub. c \<noteq> hd ''/services/''"
    using assms(1) by (auto simp: slash_def)
  have sep: "admin_separator (sub @ [slash] @ a @ x) = Some (length sub)"
    using assms(4) index_of_skip[OF head(1)] index_of_skip[OF head(2)]
    by (auto simp: admin_separator_def slash_def split: option.split)
  show ?thesis
    using assms(2,3) assms(4) sep unfolding parseSubjectAdminPath_def Let_def rest
    by (auto simp: trim_prefix_def slash_def)
qed

end
