(* ===== verification/AdminProperties.thy ===== *)
theory AdminProperties
  imports Admin Fixture
begin

text \<open>
  Properties of the administrator's API for subjects: shares of the memory bank, static upstreams, paths.
\<close>

section \<open>A small control plane\<close>

text \<open>For the witnesses: alice has a tenant and a project, which she shares with bob.\<close>

definition ax_time :: time_parsers where
  "ax_time = \<lparr>rfc3339 = (\<lambda>_. Some 9), sqlite_layout = (\<lambda>_. None)\<rparr>"

definition ax_bank :: bank_env where
  "ax_bank = \<lparr>beJsonOk = (\<lambda>_. True), beValid = (\<lambda>_. True), beJulian = (\<lambda>s. Some (int (length s))), beParse = ax_time\<rparr>"

definition ax_url :: parsed_url where
  "ax_url = \<lparr>uScheme = ''http'', uHost = ''notes.lan:80'', uHostname = ''notes.lan'', uPort = ''80'', uPath = ''/mcp'',
     uRawQuery = [], uFragment = [], uUser = False, uAbs = True\<rparr>"

definition ax_ip :: ip_addr where
  "ax_ip = \<lparr>ipLoopback = False, ipPrivate = True, ipLinkLocalUnicast = False, ipLinkLocalMulticast = False,
     ipMulticast = False, ipUnspecified = False, ipText = ''10.0.0.7''\<rparr>"

definition ax_net :: net_lib where
  "ax_net = \<lparr>url_parse = (\<lambda>_. Some ax_url), parse_ip = (\<lambda>_. None), lookup_ip = (\<lambda>_. Inr [Some ax_ip])\<rparr>"

definition ax_lib :: "unit runtime_lib" where
  "ax_lib =
     \<lparr>rlOps = \<lparr>coCreate = (\<lambda>p q. (p, Inr [])), coGet = (\<lambda>p u. (p, Inl (CallError []))), coUpdate = (\<lambda>p u q. (p, Inr ())),
        coListEnvs = (\<lambda>p u. (p, Inr [])), coUpdateEnvs = (\<lambda>p u es. (p, Inr ())), coRestart = (\<lambda>p u b. (p, Inr ())),
        coStart = (\<lambda>p u. (p, Inr ())), coStop = (\<lambda>p u b. (p, Inr ())), coDelete = (\<lambda>p u q. (p, Inr ()))\<rparr>,
      rlSecret = (\<lambda>p path. (p, Inr [])), rlProbe = (\<lambda>p u. (p, Inr \<lparr>prStatus = 200, prContentType = [], prBody = []\<rparr>)),
      rlTemplates = (\<lambda>sid. None), rlURLParse = (\<lambda>u. Some ax_url), rlURLString = (\<lambda>u. ''http://notes.lan:80'' @ uPath u),
      rlRequestOk = (\<lambda>u. True), rlNetwork = ''mcp'', rlJson = (\<lambda>j. ''{}''), rlSecretContract = (\<lambda>ds. ''[]''),
      rlIdentityContext = (\<lambda>m. ''{}''), rlSha = (\<lambda>s. ''d1''), rlJsonOk = (\<lambda>s. True), rlParse = ax_time,
      rlFormat = (\<lambda>t. ''t''), rlNow = (\<lambda>n. int n), rlNew = (\<lambda>n. []), rlFault = (\<lambda>n. None)\<rparr>"

definition ax_env :: "unit admin_env" where
  "ax_env =
     \<lparr>aeRead = (\<lambda>_. Some ''tok''), aeTokenPath = ''/t'', aeKey = (\<lambda>s. ''u-'' @ s), aeBank = ax_bank, aeNet = ax_net,
      aeLib = ax_lib, aeGrantBody = (\<lambda>_. BodyEmpty),
      aeUpstreamBody = (\<lambda>_. Body \<lparr>sbUpstreamURL = ''http://notes.lan:80/mcp/'', sbSubjectKey = [], sbUsername = [],
        sbMail = [], sbDisplay = []\<rparr>),
      aeProjectBody = (\<lambda>_. BodyInvalid),
      aeShareBody = (\<lambda>_. Body \<lparr>hbCollaborator = ''bob'', hbPermission = ''view'', hbExpires = None, hbMetadata = []\<rparr>)\<rparr>"

definition ax_id :: "byte \<Rightarrow> uuid" where
  "ax_id b = [1, 2, 3, 4, 5, 6, 0x70, 8, 0x80, 10, 11, 12, 13, 14, 15, b]"

definition ax_request :: "http_method \<Rightarrow> string \<Rightarrow> admin_request" where
  "ax_request m path =
     \<lparr>aqMethod = m, aqPath = path, aqAuthorization = ''Bearer tok'', aqQuery = (\<lambda>_. []), aqBody = [],
      aqClock = \<lparr>cnNow = ''now'', cnTime = 7, cnFormat = (\<lambda>_. ''t'')\<rparr>, aqNew = ax_id 9, aqFault = (\<lambda>_. None)\<rparr>"

definition ax_service :: catalog_row where
  "ax_service = \<lparr>crEntry = fx_entry, crEnabled = True, crSource = ''admin''\<rparr>"

definition ax_tenant :: tenant_row where
  "ax_tenant = new_tenant (ax_id 1) ''alice'' ''notes'' ''u-a''"

definition ax_control :: control_db where
  "ax_control =
     \<lparr>cdCatalog = [ax_service],
      cdSubjects = [(''alice'', subject_columns (bare_subject (\<lambda>s. ''u-a'') ''alice'')),
        (''bob'', \<lparr>sbKey = ''k7'', sbPreferredUsername = Some ''bob'', sbEmail = Some ''bob@lan'', sbDisplayName = None,
          sbAccountBindingID = Some ''b1'', sbAccountBindingClaim = None\<rparr>)],
      cdSources = [\<lparr>gsSubject = ''alice'', gsService = ''notes'', gsGroup = ''manual'', gsGrantedAt = ''t'', gsSyncedAt = ''t''\<rparr>],
      cdGrants = [\<lparr>grSubject = ''alice'', grService = ''notes'', grGroup = ''manual'', grGrantedAt = ''t'', grSyncedAt = ''t''\<rparr>],
      cdTenants = [ax_tenant]\<rparr>"

definition ax_project :: project_row where
  "ax_project =
     \<lparr>pjID = ax_id 2, pjOwner = ''alice'', pjTenant = ax_id 1, pjService = ''notes'', pjKey = ''p1'', pjName = ''P'',
      pjRoot = ''/p'', pjMetadata = ''{}'', pjArchivedAt = None, pjCreatedAt = ''t'', pjUpdatedAt = ''t''\<rparr>"

definition ax_share :: "string \<Rightarrow> share_row" where
  "ax_share st =
     \<lparr>shID = ax_id 3, shProject = ax_id 2, shOwner = ''alice'', shCollaborator = ''bob'', shPermission = ''view'',
      shState = st, shSource = ''admin'', shCreatedBy = ''alice'', shAcceptedAt = None, shRevokedAt = None,
      shExpiresAt = None, shMetadata = ''{}'', shCreatedAt = ''t'', shUpdatedAt = ''t''\<rparr>"

definition ax_state :: "share_row list \<Rightarrow> bank_db \<times> unit" where
  "ax_state ss = (\<lparr>bkControl = ax_control, bkProjects = [ax_project], bkShares = ss\<rparr>, ())"

definition ax_accept :: admin_request where
  "ax_accept = ax_request PUT
     ''/v1/subjects/bob/services/notes/shares/01020304-0506-7008-800a-0b0c0d0e0f03/accept''"

lemma ax_bank_ok: "st \<in> set share_states \<Longrightarrow> bank_ok (fst (ax_state [ax_share st]))"
  by (simp add: bank_ok_def ax_state_def ax_share_def ax_project_def)

lemma ax_token: "requireAdminToken (\<lambda>_. Some ''tok'') ''/t'' ''Bearer tok'' = None"
  by code_simp

lemma ax_accept_path:
  "parseSubjectAdminPath ''/v1/subjects/bob/services/notes/shares/01020304-0506-7008-800a-0b0c0d0e0f03/accept''
     = Some (''bob'', ''services/notes/shares/01020304-0506-7008-800a-0b0c0d0e0f03/accept'')"
  by code_simp

lemma ax_accept_tail:
  "parseMemoryBankAdminTail ''services/notes/shares/01020304-0506-7008-800a-0b0c0d0e0f03/accept''
     = Some (''notes'', ''shares'', ''01020304-0506-7008-800a-0b0c0d0e0f03/accept'')"
  "cut_char slash ''01020304-0506-7008-800a-0b0c0d0e0f03/accept''
     = (''01020304-0506-7008-800a-0b0c0d0e0f03'', ''accept'', True)"
  "validateServiceID ''notes'' = Inr ()"
  by code_simp+

lemma ax_parse: "Parse ''01020304-0506-7008-800a-0b0c0d0e0f03'' = Inr (ax_id 3)"
  by code_simp

lemma ax_accepted:
  "bkShares (fst (admin_step ax_env (ax_state [ax_share ''pending'']) ax_accept))
     = [(ax_share ''active'')\<lparr>shAcceptedAt := Some ''t'', shUpdatedAt := ''now''\<rparr>]"
proof -
  let ?b = "bkShares (fst (ActivateMemoryBankProjectShare ax_bank (aqFault ax_accept) (aqClock ax_accept)
     (fst (ax_state [ax_share ''pending''])) (ax_id 3) ''bob'' (cnTime (aqClock ax_accept))))"
  have "bkShares (fst (admin_step ax_env (ax_state [ax_share ''pending'']) ax_accept)) = ?b"
    by (simp add: admin_step_def handleSubject_def ax_env_def ax_accept_def ax_request_def ax_token ax_accept_path
      route_subject_def ax_accept_tail with_service_def service_resource_def handleMemoryBankShares_def ax_parse accept_share_def
      split: prod.split sum.split)
  also have "?b = [(ax_share ''active'')\<lparr>shAcceptedAt := Some ''t'', shUpdatedAt := ''now''\<rparr>]"
    by (simp add: ActivateMemoryBankProjectShare_def expireMemoryBankProjectShares_def q_ExpireMemoryBankProjectShares_def
      q_ActivateMemoryBankProjectShare_def update_shares_def ax_accept_def ax_request_def ax_state_def ax_share_def share_open_def
      after_expiry_def before_expiry_def project_live_def ax_project_def sqlNullTime_def)
  finally show ?thesis .
qed

section \<open>Shares\<close>

text \<open>
  Property C21: along any sequence of requests with any failures of the database, a share is active only if its
  collaborator accepted it: one of the requests carried the administrator's token and asked, for that collaborator, to
  accept that share.
\<close>

theorem share_active_only_when_accepted:
  assumes "bank_ok (fst w)" and "active_ids (fst w) = {}"
    and "s \<in> set (bkShares (fst (admin_run ae w rs)))" and "shState s = ''active''"
  shows "\<exists>r \<in> set rs. accept_request ae r (shCollaborator s) (shID s)"
proof -
  have "active_for (shID s) (shCollaborator s) (fst (admin_run ae w rs))"
    using assms(3,4) by (auto simp: active_for_def)
  moreover have "\<not> active_for (shID s) (shCollaborator s) (fst w)"
    using assms(2) by (auto simp: active_for_def active_ids_def)
  ultimately show ?thesis using run_active_cause[OF assms(1)] by blast
qed

theorem share_active_only_when_accepted_witness:
  "accept_request ax_env ax_accept ''bob'' (ax_id 3)"
proof -
  let ?s = "(ax_share ''active'')\<lparr>shAcceptedAt := Some ''t'', shUpdatedAt := ''now''\<rparr>"
  have a: "active_ids (fst (ax_state [ax_share ''pending''])) = {}"
    by (simp add: active_ids_def ax_state_def ax_share_def)
  have s: "?s \<in> set (bkShares (fst (admin_run ax_env (ax_state [ax_share ''pending'']) [ax_accept])))"
    unfolding admin_run_def by (simp add: ax_accepted)
  have "bank_ok (fst (ax_state [ax_share ''pending'']))" by (rule ax_bank_ok) (simp add: share_states_def)
  from share_active_only_when_accepted[OF this a s] show ?thesis
    by (simp add: ax_share_def)
qed

text \<open>
  Property C22: the tables of the memory bank stay well formed along any sequence of requests and failures (unique keys,
  one open share of a project and a collaborator, shares of their owners' projects), and a share that was revoked or has
  expired is never opened again: its row keeps all that identifies it, and a revoked row is never written again.
\<close>

theorem ended_share_stays_ended:
  assumes "bank_ok (fst w)" and "s \<in> set (bkShares (fst w))" and "\<not> share_open s"
  shows "bank_ok (fst (admin_run ae w rs))
    \<and> (\<exists>s' \<in> set (bkShares (fst (admin_run ae w rs))). share_identity s' = share_identity s \<and> \<not> share_open s'
         \<and> (shState s = ''revoked'' \<longrightarrow> s' = s))"
  using run_bank_ok[OF assms(1)] run_ended[OF assms] by blast

theorem ended_share_stays_ended_witness:
  "ax_share ''revoked'' \<in> set (bkShares (fst (admin_run ax_env (ax_state [ax_share ''revoked'']) [ax_accept, ax_accept])))"
proof -
  have "bank_ok (fst (ax_state [ax_share ''revoked'']))" by (rule ax_bank_ok) (simp add: share_states_def)
  moreover have "ax_share ''revoked'' \<in> set (bkShares (fst (ax_state [ax_share ''revoked''])))" by (simp add: ax_state_def)
  moreover have "\<not> share_open (ax_share ''revoked'')" by (simp add: ax_share_def share_open_def)
  ultimately have "\<exists>s' \<in> set (bkShares (fst (admin_run ax_env (ax_state [ax_share ''revoked'']) [ax_accept, ax_accept]))).
      shState (ax_share ''revoked'') = ''revoked'' \<longrightarrow> s' = ax_share ''revoked''"
    using ended_share_stays_ended by blast
  then show ?thesis by (simp add: ax_share_def)
qed

text \<open>
  The list of a collaborator's shares that leaves out the inactive ones is the list of those that can be
  accepted: accepting a share at the time of the list succeeds exactly if the share is in it.
\<close>

theorem listed_share_can_be_accepted:
  assumes "cnTime c \<noteq> 0"
    and "ListMemoryBankProjectSharesForSubject env f c db sub False = (db1, Inr ms)"
    and "ActivateMemoryBankProjectShare env g c db i sub (cnTime c) = (db2, Inr accepted)"
  shows "accepted \<longleftrightarrow> (\<exists>m \<in> set ms. msID m = i)"
  by (rule listed_iff_accepted[OF assms])

theorem listed_share_can_be_accepted_witness:
  "\<exists>db1 m db2. ListMemoryBankProjectSharesForSubject ax_bank (\<lambda>_. None) (aqClock ax_accept)
       (fst (ax_state [ax_share ''pending''])) ''bob'' False = (db1, Inr [m])
     \<and> ActivateMemoryBankProjectShare ax_bank (\<lambda>_. None) (aqClock ax_accept) (fst (ax_state [ax_share ''pending'']))
         (ax_id 3) ''bob'' 7 = (db2, Inr True) \<and> msID m = ax_id 3"
proof -
  let ?db = "fst (ax_state [ax_share ''pending''])" and ?c = "aqClock ax_accept"
  obtain db1 m where l: "ListMemoryBankProjectSharesForSubject ax_bank (\<lambda>_. None) ?c ?db ''bob'' False = (db1, Inr [m])"
    by (simp add: ListMemoryBankProjectSharesForSubject_def list_shares_def expireMemoryBankProjectShares_def faulty_def
      lift_db_def q_ExpireMemoryBankProjectShares_def update_shares_def q_ListMemoryBankProjectSharesForSubject_def
      share_visible_def convertMemoryBankProjectShare_def parseSQLiteNullTime_def parseSQLiteTime_def
      ax_accept_def ax_request_def ax_state_def ax_share_def share_open_def ax_bank_def ax_time_def
      after_expiry_def before_expiry_def project_live_def ax_project_def)
  obtain db2 b where a: "ActivateMemoryBankProjectShare ax_bank (\<lambda>_. None) ?c ?db (ax_id 3) ''bob'' (cnTime ?c) = (db2, Inr b)"
    and b: "b"
    by (simp add: ActivateMemoryBankProjectShare_def expireMemoryBankProjectShares_def q_ExpireMemoryBankProjectShares_def
      q_ActivateMemoryBankProjectShare_def update_shares_def ax_accept_def ax_request_def ax_state_def ax_share_def share_open_def
      after_expiry_def before_expiry_def project_live_def ax_project_def sqlNullTime_def)
  have t: "cnTime ?c = 7" by (simp add: ax_accept_def ax_request_def)
  have "msID m = ax_id 3" using listed_share_can_be_accepted[OF _ l a] b t by simp
  then show ?thesis using l a b unfolding t by auto
qed

text \<open>
  Sharing a project overwrites the collaborator: once the administrator has shared a project with a subject,
  everything stored about that subject is gone (its name, its address, its account binding), and its key is the derived
  one, whatever it was before.
\<close>

theorem sharing_overwrites_collaborator:
  assumes "handleMemoryBankProjectShareCreate ae db r owner sid k = (db', ReplyShare 201 m)"
    and "aeShareBody ae (aqBody r) = Body q"
  shows "map_of (cdSubjects (bkControl db')) (trim_space (hbCollaborator q))
    = Some \<lparr>sbKey = aeKey ae (trim_space (hbCollaborator q)), sbPreferredUsername = None, sbEmail = None,
            sbDisplayName = None, sbAccountBindingID = None, sbAccountBindingClaim = None\<rparr>"
proof -
  obtain db1 where one: "on_control (\<lambda>c. UpsertSubject (aqFault r 1) c (bare_subject (aeKey ae) (trim_space (hbCollaborator q)))) db
      = (db1, Inr ())" and two: "bkControl db' = bkControl db1"
    using assms bank_ops_control(2)
    by (auto simp: handleMemoryBankProjectShareCreate_def share_create_error_def Let_def
      split: if_splits sum.splits prod.splits dest: same_control[OF _ bank_ops_control(2)])
  have "map_of (cdSubjects (bkControl db1)) (trim_space (hbCollaborator q))
      = Some (subject_columns (bare_subject (aeKey ae) (trim_space (hbCollaborator q))))"
    using one by (auto simp: on_control_def UpsertSubject_def with_tx_Inr q_UpsertSubject_def bare_subject_def result_simps
      split: prod.splits if_splits)
  then show ?thesis unfolding two by (simp add: subject_columns_def bare_subject_def nullif_empty_def)
qed

text \<open>Bob had a name, an address and an account binding.\<close>

theorem sharing_overwrites_collaborator_witness:
  "map_of (cdSubjects (bkControl (fst (handleMemoryBankProjectShareCreate ax_env (fst (ax_state [])) (ax_request POST []) ''alice''
      ''notes'' ''p1'')))) ''bob''
   = Some \<lparr>sbKey = ''u-bob'', sbPreferredUsername = None, sbEmail = None, sbDisplayName = None, sbAccountBindingID = None,
       sbAccountBindingClaim = None\<rparr>"
proof -
  let ?r = "ax_request POST []"
  have t: "trim_space ''bob'' = ''bob''" "trim_space ''view'' = ''view''" "blank []" "\<not> blank ''{}''"
    "trim_space ''{}'' = ''{}''" by code_simp+
  obtain db' m where h: "handleMemoryBankProjectShareCreate ax_env (fst (ax_state [])) ?r ''alice'' ''notes'' ''p1''
      = (db', ReplyShare 201 m)"
    by (simp add: handleMemoryBankProjectShareCreate_def ax_env_def ax_request_def t Let_def GetMemoryBankProjectByOwnerKey_def
      faulty_def lift_db_def q_GetMemoryBankProjectByOwnerKey_def project_key_def ax_state_def ax_project_def
      convertMemoryBankProject_def ax_bank_def ax_time_def parseSQLiteTime_def parseSQLiteNullTime_def on_control_def
      UpsertSubject_def with_tx_def q_UpsertSubject_def key_taken_def bare_subject_def ax_control_def subject_columns_def
      jsonRawMessageOrDefault_def CreateMemoryBankProjectShare_def new_share_def normalizeMemoryBankMetadata_def
      create_share_body_def q_ExpireMemoryBankProjectShares_def update_shares_def q_InsertMemoryBankProjectShare_def
      share_params_def share_checks_ok_def share_states_def share_refs_ok_def subject_exists_def share_open_def
      sqlNullTimePtr_def GetMemoryBankProjectShare_def q_GetMemoryBankProjectShare_def convertMemoryBankProjectShare_def
      or_fresh_def)
  have q: "aeShareBody ax_env (aqBody ?r)
      = Body \<lparr>hbCollaborator = ''bob'', hbPermission = ''view'', hbExpires = None, hbMetadata = []\<rparr>"
    by (simp add: ax_env_def)
  from sharing_overwrites_collaborator[OF h q] show ?thesis using h by (simp add: t ax_env_def)
qed

section \<open>Static upstreams\<close>


definition ax_static :: admin_request where
  "ax_static = ax_request PUT ''/v1/subjects/alice/services/notes/upstream''"

definition ax_put_state :: "bank_db \<times> unit" where
  "ax_put_state = fst (handleStaticUpstreamPut ax_env (ax_state []) ax_static ''alice'' ''notes'')"



lemma ax_static_url:
  "normalizeStaticUpstreamURL ax_net (rlURLString ax_lib) ''http://notes.lan:80/mcp/'' = Inr ''http://notes.lan:80/mcp''"
proof -
  have "\<not> blank ''http://notes.lan:80/mcp/''" "trim_right slash ''/mcp'' = ''/mcp''" by code_simp+
  then show ?thesis
    by (simp add: normalizeStaticUpstreamURL_def ax_net_def ax_url_def check_static_host_def allowedStaticUpstreamIP_def ax_ip_def
      guard_def ax_lib_def)
qed

lemma ax_probe:
  "probeTenantHealth ax_lib () (probe_tenant fx_entry) fx_entry [] ''http://notes.lan:80/mcp''
     = ((), Inr (True, healthy_detail fx_entry \<lparr>prStatus = 200, prContentType = [], prBody = []\<rparr>))"
proof -
  have "\<not> blank ''/health''" "trim_space ''/health'' = ''/health''" "status_2xx 200" by code_simp+
  then show ?thesis
    by (simp add: probeTenantHealth_def probe_url_def staticUpstreamHealthURL_def ax_lib_def fx_entry_def slash_def Let_def)
qed

lemma ax_put:
  "\<exists>db'. handleStaticUpstreamPut ax_env (ax_state []) ax_static ''alice'' ''notes''
       = ((db', ()), ReplyUpstream ''alice'' ''notes'' ''http://notes.lan:80/mcp'' 7)
     \<and> (\<exists>t \<in> set (cdTenants (bkControl db')). tnSubject t = ''alice'' \<and> tnService t = ''notes''
          \<and> tnUpstream t = Some ''http://notes.lan:80/mcp'')"
proof -
  have t: "trim_space [] = []" by simp
  note defs = handleStaticUpstreamPut_def ax_env_def ax_static_url ax_static_def ax_request_def ax_state_def
    faulty_def lift_db_def q_GetEnabledServiceCatalogEntry_def ax_control_def ax_service_def fx_entry_def
    SubjectServiceGranted_def q_CountSubjectServiceGrant_def verifyStaticUpstreamHealth_def
    on_control_def UpsertStaticTenantUpstream_def with_tx_def static_body_def upsert_enabled_subject_def
    trimmed_subject_def keyed_subject_def q_UpsertSubjectPreservingMetadata_def q_GetSubject_def subject_columns_def
    bare_subject_def q_UpsertStaticTenantUpstream_def tenant_key_def ax_tenant_def new_tenant_def q_EnableTenantInstance_def
    static_columns_def
  show ?thesis
    by (simp add: defs ax_probe[unfolded fx_entry_def] Let_def)
qed


text \<open>
  The edge resolves a static upstream that the administrator has set, to the address that was probed: if the
  host still resolves as it did, the service is in the edge's catalog, and the text of a URL is parsed back to it.
\<close>

definition url_reads_back :: "net_lib \<Rightarrow> (parsed_url \<Rightarrow> string) \<Rightarrow> bool" where
  "url_reads_back net url_string \<longleftrightarrow>
     (\<forall>raw u. url_parse net raw = Some u \<and> uScheme u \<noteq> [] \<longrightarrow>
        (let v = u\<lparr>uFragment := [], uRawQuery := [], uPath := trim_right slash (uPath u)\<rparr> in
         url_parse net (url_string v) = Some v \<and> \<not> blank (url_string v)))"

theorem static_upstream_is_resolved:
  assumes "handleStaticUpstreamPut ae w r sub sid = ((db', p'), ReplyUpstream sub sid url v)"
    and "plain_metadata (bkControl (fst w))" and "cache_ServiceByID cache sid = Some svc"
    and "url_reads_back (aeNet ae) (rlURLString (aeLib ae))"
  shows "\<exists>u. url_parse (aeNet ae) url = Some u
    \<and> database_Resolve (aeNet ae) cache (Inr (cdTenants (bkControl db'))) sid sub = Inr \<lparr>utService = svc, utURL = u\<rparr>"
proof -
  obtain raw s where norm: "normalizeStaticUpstreamURL (aeNet ae) (rlURLString (aeLib ae)) raw = Inr url" and s: "dsSub s = sub"
    and up: "UpsertStaticTenantUpstream (aqFault r 2) (aeKey ae) (aqClock r) (aqNew r) (bkControl (fst w)) s sid url v
      = (bkControl db', Inr ())"
    using static_reply[OF assms(1)] by auto
  obtain t where t: "q_GetTenantUpstream (cdTenants (bkControl db')) sub sid = Some t" "tnDesired t = DesiredEnabled"
    "tnRuntime t = RuntimeReady" "tnUpstream t = Some url" "tenantRuntimeModeStatic (tnMetadata t)"
    using static_upsert_row[OF up assms(2)] s by auto
  obtain u where u: "url_parse (aeNet ae) (trim_space raw) = Some u" "uScheme u = ''http'' \<or> uScheme u = ''https''"
    "uHost u \<noteq> []" "check_static_host (aeNet ae) (uHostname u) = Inr ()"
    and url: "url = rlURLString (aeLib ae) (u\<lparr>uFragment := [], uRawQuery := [], uPath := trim_right slash (uPath u)\<rparr>)"
    using norm by (auto simp: normalizeStaticUpstreamURL_def result_simps split: if_splits option.splits)
  let ?v = "u\<lparr>uFragment := [], uRawQuery := [], uPath := trim_right slash (uPath u)\<rparr>"
  have reads: "url_parse (aeNet ae) url = Some ?v" "\<not> blank url"
    using assms(4) u(1,2) unfolding url_reads_back_def Let_def url by (metis list.distinct(1))+
  have same: "allowedStaticUpstreamIP ip = (case ip of None \<Rightarrow> True | Some a \<Rightarrow> allowedTenantUpstreamIP a)" for ip
    by (simp add: allowedStaticUpstreamIP_def allowedTenantUpstreamIP_def split: option.split)
  have "validateStaticTenantUpstreamHost (aeNet ae) (uHostname u) = Inr ()"
    using u(4) unfolding check_static_host_def validateStaticTenantUpstreamHost_def same
    by (cases "parse_ip (aeNet ae) (uHostname u)"; cases "lookup_ip (aeNet ae) (uHostname u)") (simp_all split: if_splits)
  then have "database_Resolve (aeNet ae) cache (Inr (cdTenants (bkControl db'))) sid sub = Inr \<lparr>utService = svc, utURL = ?v\<rparr>"
    using t reads u(2,3) assms(3) by (auto simp: database_Resolve_def check_upstream_url_def)
  then show ?thesis using reads(1) by blast
qed

theorem static_upstream_is_resolved_witness:
  "\<exists>db' u. database_Resolve ax_net fx_cache (Inr (cdTenants (bkControl db'))) ''notes'' ''alice''
     = Inr \<lparr>utService = fx_entry, utURL = u\<rparr>
   \<and> handleStaticUpstreamPut ax_env (ax_state []) ax_static ''alice'' ''notes''
       = ((db', ()), ReplyUpstream ''alice'' ''notes'' ''http://notes.lan:80/mcp'' 7)"
proof -
  obtain db' where h: "handleStaticUpstreamPut ax_env (ax_state []) ax_static ''alice'' ''notes''
      = ((db', ()), ReplyUpstream ''alice'' ''notes'' ''http://notes.lan:80/mcp'' 7)"
    using ax_put by blast
  have m: "plain_metadata (bkControl (fst (ax_state [])))"
    by (simp add: plain_metadata_def ax_state_def ax_control_def ax_tenant_def new_tenant_def)
  have c: "cache_ServiceByID fx_cache ''notes'' = Some fx_entry"
    by (simp add: cache_ServiceByID_def snapshot_ServiceByID_def fx_cache_def fx_snapshot_def)
  have r: "url_reads_back (aeNet ax_env) (rlURLString (aeLib ax_env))"
  proof -
    have "trim_right slash ''/mcp'' = ''/mcp''" "\<not> blank ''http://notes.lan:80/mcp''" by code_simp+
    then show ?thesis by (simp add: url_reads_back_def ax_env_def ax_net_def ax_lib_def ax_url_def)
  qed
  from static_upstream_is_resolved[OF h m c r] show ?thesis using h by (auto simp: ax_env_def)
qed

section \<open>Paths\<close>

text \<open>
  The path of a subject whose identifier holds no slash and no space at its ends is taken apart into the
  identifier and the rest of the path, and no grant or service can pass for a part of the subject.
\<close>

theorem subject_path_read_back:
  assumes "slash \<notin> set sub" and "sub \<noteq> []" and "trim_space sub = sub" and "a = ''grants/'' \<or> a = ''services/''"
  shows "parseSubjectAdminPath (''/v1/subjects/'' @ sub @ [slash] @ a @ x) = Some (sub, a @ x)"
  by (rule subject_path[OF assms])

theorem subject_path_read_back_witness:
  "parseSubjectAdminPath (''/v1/subjects/'' @ ''bob'' @ [slash] @ ''services/'' @ ''grants/grants'')
     = Some (''bob'', ''services/'' @ ''grants/grants'')"
proof -
  have "slash \<notin> set ''bob''" "trim_space ''bob'' = ''bob''" by code_simp+
  then show ?thesis by (intro subject_path_read_back) simp_all
qed

end
