(* ===== verification/CredentialBridge.thy ===== *)
theory CredentialBridge
  imports Json OAuthClients
begin

text \<open>
  The credential bridge (\<^verbatim>\<open>internal/credentialbridge/store.go\<close>, \<^verbatim>\<open>oauth.go\<close>): a local program that keeps the credential
  of one service in the keystore of the desktop, refreshes it, and adds it to requests.  The world is the state \<^verbatim>\<open>'w\<close> of
  the machine and the network; the program's tools, its files, the HTTP transport and the OAuth library act on it.
\<close>

section \<open>Data\<close>

datatype bridge_error =
    BridgeError string | NotExist | ContextDone | RetrieveError string | NetError | EndOfFile
  | URLError bridge_error | CredentialAccess bridge_error | StreamRead bridge_error

record oauth_token =
  otAccess :: string
  otType :: string
  otRefresh :: string
  otExpiry :: time

record credential =
  cbResource :: string
  cbIssuer :: string
  cbTokenEndpoint :: string
  cbClientID :: string
  cbScope :: string
  cbToken :: "oauth_token option"

record bridge_request =
  bqMethod :: http_method
  bqURL :: string
  bqHeaders :: "(string \<times> string) list"
  bqBody :: "string option"
  bqReplay :: "(bridge_error, string) result option"

record bridge_response =
  bpStatus :: nat
  bpHeaders :: "(string \<times> string) list"
  bpBody :: "(bridge_error, string) result"
  bpLines :: "string list \<times> bridge_error option"

text \<open>What was sent, for the statements: requests with a credential, and all others.\<close>

datatype sent = SentCredential bridge_request | SentPlain bridge_request

record 'w bridge_world =
  bwEnv :: 'w
  bwSent :: "sent list"

type_synonym 'w transport = "bridge_request \<Rightarrow> 'w bridge_world \<Rightarrow> 'w bridge_world \<times> (bridge_error, bridge_response) result"

text \<open>The outcome of a command: killed by its context, output, exit code with whether it wrote no message, not started.\<close>

datatype tool_result = ToolDone | ToolOk string | ToolExit int bool | ToolFail

record file_info =
  fiDir :: bool
  fiRegular :: bool
  fiPerm :: "32 word"

record protected_metadata =
  pmResource :: string
  pmIssuers :: "string list"
  pmScopes :: "string list"

record issuer_metadata =
  imIssuer :: string
  imToken :: string
  imDevice :: string
  imRegistration :: string
  imGrantTypes :: "string list"
  imAuthMethods :: "string list"

record device_grant =
  dvDeviceCode :: string
  dvUserCode :: string
  dvURI :: string
  dvURIComplete :: string
  dvExpiry :: time
  dvInterval :: int

record 'w bridge_lib =
  blNet :: net_lib
  blURLString :: "parsed_url \<Rightarrow> string"
  blEscapedPath :: "parsed_url \<Rightarrow> string"
  blLookPath :: "string \<Rightarrow> string option"
  blConfigDir :: "(bridge_error, string) result"
  blJoin :: "string \<Rightarrow> string \<Rightarrow> string"
  blMkdirAll :: "string \<Rightarrow> 'w \<Rightarrow> 'w \<times> bridge_error option"
  blLstat :: "string \<Rightarrow> 'w \<Rightarrow> (bridge_error, file_info) result"
  blSha :: "string \<Rightarrow> string"
  blOpenLock :: "string \<Rightarrow> 'w \<Rightarrow> 'w \<times> bridge_error option"
  blTryLock :: "'w \<Rightarrow> 'w \<times> (bridge_error, bool) result"
  blWait :: "'w \<Rightarrow> 'w \<times> bridge_error option"
  blUnlock :: "'w \<Rightarrow> 'w"
  blProbe :: "'w \<Rightarrow> 'w \<times> tool_result"
  blTool :: "string list \<Rightarrow> string \<Rightarrow> 'w \<Rightarrow> 'w \<times> tool_result"
  blEncode :: "credential \<Rightarrow> string option"
  blDecode :: "string \<Rightarrow> credential option"
  blNow :: "'w \<Rightarrow> time"
  blValid :: "'w \<Rightarrow> oauth_token \<Rightarrow> bool"
  blTransport :: "bridge_request \<Rightarrow> 'w \<Rightarrow> 'w \<times> (bridge_error, bridge_response) result"
  blParseQuery :: "string \<Rightarrow> (string \<times> string) list option"
  blForm :: "(string \<times> string) list \<Rightarrow> string"
  blJSON :: "json \<Rightarrow> string"
  blRefresh :: "'w transport \<Rightarrow> string \<Rightarrow> string \<Rightarrow> oauth_token \<Rightarrow> 'w bridge_world
    \<Rightarrow> 'w bridge_world \<times> (bridge_error, oauth_token) result"
  blDevicePoll :: "'w transport \<Rightarrow> string \<Rightarrow> string \<Rightarrow> string \<Rightarrow> string \<Rightarrow> device_grant \<Rightarrow> 'w bridge_world
    \<Rightarrow> 'w bridge_world \<times> (bridge_error, oauth_token) result"
  blProtected :: "string \<Rightarrow> protected_metadata option"
  blIssuer :: "string \<Rightarrow> issuer_metadata option"
  blRegistered :: "string \<Rightarrow> string option"
  blDevice :: "'w \<Rightarrow> string \<Rightarrow> device_grant option"
  blPrint :: "string \<Rightarrow> 'w \<Rightarrow> 'w \<times> bridge_error option"

record credential_store =
  csPath :: string
  csKey :: string

record bridge_client =
  bcResource :: string
  bcStore :: credential_store

definition on_env :: "('w \<Rightarrow> 'w \<times> 'a) \<Rightarrow> 'w bridge_world \<Rightarrow> 'w bridge_world \<times> 'a" where
  "on_env f w = (case f (bwEnv w) of (e, x) \<Rightarrow> (w\<lparr>bwEnv := e\<rparr>, x))"

definition set_request_header :: "string \<Rightarrow> string \<Rightarrow> (string \<times> string) list \<Rightarrow> (string \<times> string) list" where
  "set_request_header k v hs = filter (\<lambda>(k', _). k' \<noteq> k) hs @ [(k, v)]"

definition send_plain :: "'w bridge_lib \<Rightarrow> 'w transport" where
  "send_plain lib rq w = on_env (blTransport lib rq) (w\<lparr>bwSent := bwSent w @ [SentPlain rq]\<rparr>)"

definition send_credential :: "'w bridge_lib \<Rightarrow> 'w transport" where
  "send_credential lib rq w = on_env (blTransport lib rq) (w\<lparr>bwSent := bwSent w @ [SentCredential rq]\<rparr>)"

section \<open>The keystore\<close>

definition shared_bits :: "32 word \<Rightarrow> bool" where
  "shared_bits perm = (perm AND 63 \<noteq> 0)"

definition newCredentialStore :: "'w bridge_lib \<Rightarrow> string \<Rightarrow> string \<Rightarrow> 'w \<Rightarrow> 'w \<times> (bridge_error, credential_store) result" where
  "newCredentialStore lib resource directory w =
     (if blLookPath lib ''secret-tool'' = None
      then (w, Inl (BridgeError ''install libsecret-tools''))
      else if blLookPath lib ''gdbus'' = None then (w, Inl (BridgeError ''install the GLib gdbus tool''))
      else case (if directory = []
                 then bind_result (blConfigDir lib) (\<lambda>base. Inr (blJoin lib base ''mcp-edge-credential-bridge''))
                 else Inr directory) of
          Inl e \<Rightarrow> (w, Inl e)
        | Inr dir \<Rightarrow>
           (case blMkdirAll lib dir w of
              (w', Some e) \<Rightarrow> (w', Inl e)
            | (w', None) \<Rightarrow> (w',
                bind_result (blLstat lib dir w') (\<lambda>info.
                  if \<not> fiDir info \<or> shared_bits (fiPerm info)
                  then Inl (BridgeError ''bridge state directory must be private'')
                  else let path = blJoin lib dir (blSha lib resource) in
                    case blLstat lib (path @ ''.json'') w' of
                      Inr _ \<Rightarrow> Inl (BridgeError ''legacy plaintext credential file exists'')
                    | Inl e \<Rightarrow> if e = NotExist then Inr \<lparr>csPath = path, csKey = blSha lib resource\<rparr> else Inl e))))"

definition keystoreService :: string where
  "keystoreService = ''mcp-edge-credential-bridge''"

definition tool_args :: "string \<Rightarrow> string \<Rightarrow> string list" where
  "tool_args operation k =
     [operation] @ (if operation = ''store'' then [''--label=MCP Edge OAuth credential'', ''--collection=default''] else [])
       @ [''service'', keystoreService, ''resource'', k]"

definition secret :: "'w bridge_lib \<Rightarrow> credential_store \<Rightarrow> string \<Rightarrow> string \<Rightarrow> 'w \<Rightarrow> 'w \<times> (bridge_error, string) result" where
  "secret lib s operation dat w =
     (case blProbe lib w of
        (w1, ToolDone) \<Rightarrow> (w1, Inl ContextDone)
      | (w1, ToolOk out) \<Rightarrow>
          if trim_space out \<noteq> ''(<false>,)'' then (w1, Inl (BridgeError ''keystore is unavailable or locked''))
          else (case blTool lib (tool_args operation (csKey s)) dat w1 of
              (w2, ToolDone) \<Rightarrow> (w2, Inl ContextDone)
            | (w2, ToolOk result) \<Rightarrow> (w2, Inr result)
            | (w2, ToolExit code' silent) \<Rightarrow>
                (w2, Inl (if (operation = ''lookup'' \<or> operation = ''clear'') \<and> code' = 1 \<and> silent then NotExist
                          else BridgeError ''Secret Service keystore operation failed''))
            | (w2, ToolFail) \<Rightarrow> (w2, Inl (BridgeError ''Secret Service keystore operation failed'')))
      | (w1, _) \<Rightarrow> (w1, Inl (BridgeError ''keystore is unavailable or locked'')))"

definition read_credential :: "'w bridge_lib \<Rightarrow> credential_store \<Rightarrow> 'w \<Rightarrow> 'w \<times> (bridge_error, credential) result" where
  "read_credential lib s w =
     (case secret lib s ''lookup'' [] w of
        (w', Inl e) \<Rightarrow> (w', Inl e)
      | (w', Inr dat) \<Rightarrow>
          (w', case blDecode lib dat of None \<Rightarrow> Inl (BridgeError ''invalid credential in keystore'') | Some c \<Rightarrow> Inr c))"

text \<open>
  The lock is waited for during 75 seconds, with 50 milliseconds between two attempts: after the 1501st the time is over.
\<close>

fun lock_loop :: "'w bridge_lib \<Rightarrow> nat \<Rightarrow> 'w \<Rightarrow> 'w \<times> (bridge_error, unit) result" where
  "lock_loop lib 0 w = (w, Inl ContextDone)"
| "lock_loop lib (Suc n) w =
     (case blTryLock lib w of
        (w1, Inl e) \<Rightarrow> (w1, Inl e)
      | (w1, Inr locked) \<Rightarrow>
          if locked then (w1, Inr ())
          else (case blWait lib w1 of (w2, Some e) \<Rightarrow> (w2, Inl e) | (w2, None) \<Rightarrow> lock_loop lib n w2))"

definition lock_attempts :: nat where
  "lock_attempts = 1501"

definition store_lock :: "'w bridge_lib \<Rightarrow> credential_store \<Rightarrow> 'w \<Rightarrow> 'w \<times> (bridge_error, unit) result" where
  "store_lock lib s w =
     (let path = csPath s @ ''.lock'';
          ready = (case blLstat lib path w of
             Inr info \<Rightarrow> if \<not> fiRegular info \<or> shared_bits (fiPerm info)
               then Inl (BridgeError ''credential lock must be a regular owner-only file'') else Inr ()
           | Inl e \<Rightarrow> if e = NotExist then Inr () else Inl e) in
      case ready of
        Inl e \<Rightarrow> (w, Inl e)
      | Inr _ \<Rightarrow>
         (case blOpenLock lib path w of (w1, Some e) \<Rightarrow> (w1, Inl e) | (w1, None) \<Rightarrow> lock_loop lib lock_attempts w1))"

text \<open>
  A change answers with an error, or with a value and the new credential, \<^verbatim>\<open>None\<close> if it is the one that was read.
\<close>

type_synonym ('w, 'a) change =
  "credential option \<Rightarrow> 'w bridge_world \<Rightarrow> 'w bridge_world \<times> (bridge_error, credential option \<times> 'a) result"

definition store_changed :: "'w bridge_lib \<Rightarrow> credential_store \<Rightarrow> ('w, 'a) change \<Rightarrow> 'w bridge_world
    \<Rightarrow> 'w bridge_world \<times> (bridge_error, 'a) result" where
  "store_changed lib s change w =
     (case on_env (read_credential lib s) w of
        (w1, r) \<Rightarrow>
          if (case r of Inl e \<Rightarrow> e \<noteq> NotExist | Inr _ \<Rightarrow> False) then (w1, Inl (projl r))
          else (case change (case r of Inl _ \<Rightarrow> None | Inr c \<Rightarrow> Some c) w1 of
              (w2, Inl e) \<Rightarrow> (w2, Inl e)
            | (w2, Inr (None, x)) \<Rightarrow> (w2, Inr x)
            | (w2, Inr (Some c, x)) \<Rightarrow>
               (case blEncode lib c of
                  None \<Rightarrow> (w2, Inl (BridgeError ''cannot encode credential for keystore''))
                | Some dat \<Rightarrow>
                   (case on_env (secret lib s ''store'' dat) w2 of
                      (w3, Inl e) \<Rightarrow> (w3, Inl e)
                    | (w3, Inr _) \<Rightarrow> (w3, Inr x)))))"

definition store_update :: "'w bridge_lib \<Rightarrow> credential_store \<Rightarrow> ('w, 'a) change \<Rightarrow> 'w bridge_world
    \<Rightarrow> 'w bridge_world \<times> (bridge_error, 'a) result" where
  "store_update lib s change w =
     (case on_env (store_lock lib s) w of
        (w1, Inl e) \<Rightarrow> (w1, Inl e)
      | (w1, Inr _) \<Rightarrow>
         (case store_changed lib s change w1 of (w2, r) \<Rightarrow> (w2\<lparr>bwEnv := blUnlock lib (bwEnv w2)\<rparr>, r)))"

definition store_remove :: "'w bridge_lib \<Rightarrow> credential_store \<Rightarrow> 'w \<Rightarrow> 'w \<times> (bridge_error, unit) result" where
  "store_remove lib s w =
     (case store_lock lib s w of
        (w1, Inl e) \<Rightarrow> (w1, Inl e)
      | (w1, Inr _) \<Rightarrow>
         (case secret lib s ''clear'' [] w1 of
            (w2, r) \<Rightarrow> (blUnlock lib w2, case r of Inl e \<Rightarrow> if e = NotExist then Inr () else Inl e | Inr _ \<Rightarrow> Inr ())))"

section \<open>Addresses\<close>

definition secureURL :: "net_lib \<Rightarrow> string \<Rightarrow> (bridge_error, parsed_url) result" where
  "secureURL net raw =
     (case url_parse net raw of
        None \<Rightarrow> Inl (BridgeError ''expected an absolute URL without user information or fragment'')
      | Some u \<Rightarrow>
          if uHostname u = [] \<or> uUser u \<or> uFragment u \<noteq> []
          then Inl (BridgeError ''expected an absolute URL without user information or fragment'')
          else if uScheme u = ''https'' then Inr u
          else if uScheme u = ''http'' \<and> (uHostname u = ''localhost''
              \<or> (case parse_ip net (uHostname u) of None \<Rightarrow> False | Some ip \<Rightarrow> ipLoopback ip))
          then Inr u
          else Inl (BridgeError ''HTTPS is required except on loopback addresses''))"

text \<open>The resource of a client is the text of a URL, so that it is parsed without an error.\<close>

definition same_origin :: "parsed_url \<Rightarrow> parsed_url \<Rightarrow> bool" where
  "same_origin u base = (uScheme u = uScheme base \<and> equal_fold (uHost u) (uHost base))"

definition edgeURL :: "'w bridge_lib \<Rightarrow> bridge_client \<Rightarrow> string \<Rightarrow> (bridge_error, string) result" where
  "edgeURL lib c raw =
     bind_result (secureURL (blNet lib) raw) (\<lambda>u.
       case url_parse (blNet lib) (bcResource c) of
         None \<Rightarrow> Inl (BridgeError ''nil base'')
       | Some base \<Rightarrow>
           if \<not> same_origin u base then Inl (BridgeError ''MCP Edge metadata must use the service URL's origin'')
           else Inr (blURLString lib u))"

definition NewClient :: "'w bridge_lib \<Rightarrow> string \<Rightarrow> string \<Rightarrow> 'w \<Rightarrow> 'w \<times> (bridge_error, bridge_client) result" where
  "NewClient lib resource directory w =
     (case secureURL (blNet lib) resource of
        Inl e \<Rightarrow> (w, Inl e)
      | Inr u \<Rightarrow>
          if uRawQuery u \<noteq> [] then (w, Inl (BridgeError ''service URL must not include a query''))
          else let text = blURLString lib (u\<lparr>uPath := trim_right slash (uPath u)\<rparr>) in
            case newCredentialStore lib text directory w of
              (w', Inl e) \<Rightarrow> (w', Inl e)
            | (w', Inr s) \<Rightarrow> (w', Inr \<lparr>bcResource = text, bcStore = s\<rparr>))"

section \<open>Tokens\<close>

fun retrieve_code :: "bridge_error \<Rightarrow> string option" where
  "retrieve_code (RetrieveError code') = Some code'"
| "retrieve_code (URLError e) = retrieve_code e"
| "retrieve_code (CredentialAccess e) = retrieve_code e"
| "retrieve_code (StreamRead e) = retrieve_code e"
| "retrieve_code _ = None"

fun is_context :: "bridge_error \<Rightarrow> bool" where
  "is_context ContextDone = True"
| "is_context (URLError e) = is_context e"
| "is_context (CredentialAccess e) = is_context e"
| "is_context (StreamRead e) = is_context e"
| "is_context _ = False"

definition oauthError :: "string \<Rightarrow> bridge_error \<Rightarrow> bridge_error" where
  "oauthError operation e =
     (case retrieve_code e of
        Some code' \<Rightarrow>
          if code' \<in> {''authorization_pending'', ''slow_down'', ''access_denied'', ''expired_token'', ''invalid_grant'',
              ''invalid_client'', ''unauthorized_client''}
          then BridgeError (operation @ '': '' @ code' @ ''; run login again if needed'')
          else BridgeError (operation @ '': OAuth request rejected'')
      | None \<Rightarrow>
          if is_context e then e
          else BridgeError (operation @ '' failed; check connectivity and run login again''))"

definition resourceTransport :: "'w bridge_lib \<Rightarrow> string \<Rightarrow> 'w transport" where
  "resourceTransport lib resource rq w =
     (case blParseQuery lib (take 1048576 (clamp_some (bqBody rq) [])) of
        None \<Rightarrow> (w, Inl (BridgeError ''invalid form''))
      | Some form \<Rightarrow> send_plain lib
          (rq\<lparr>bqBody := Some (blForm lib (set_request_header ''resource'' resource form))\<rparr>) w)"

definition credential_matches :: "bridge_client \<Rightarrow> credential \<Rightarrow> bool" where
  "credential_matches c st =
     (cbResource st = bcResource c \<and> cbClientID st \<noteq> []
      \<and> (case cbToken st of None \<Rightarrow> False | Some t \<Rightarrow> otAccess t \<noteq> [] \<and> equal_fold (otType t) ''Bearer''))"

definition refresh_token :: "'w bridge_lib \<Rightarrow> bridge_client \<Rightarrow> credential \<Rightarrow> oauth_token
    \<Rightarrow> 'w bridge_world \<Rightarrow> 'w bridge_world \<times> (bridge_error, credential option \<times> oauth_token) result" where
  "refresh_token lib c st t w =
     (if otRefresh t = [] then (w, Inl (BridgeError ''no refresh token available; run login again''))
      else case blRefresh lib (resourceTransport lib (bcResource c)) (cbClientID st) (cbTokenEndpoint st)
             (t\<lparr>otExpiry := blNow lib (bwEnv w) - minute\<rparr>) w of
          (w', Inl e) \<Rightarrow> (w', Inl (oauthError ''refresh'' e))
        | (w', Inr fresh) \<Rightarrow>
            (w', if otAccess fresh = [] \<or> \<not> equal_fold (otType fresh) ''Bearer''
                 then Inl (BridgeError ''refresh did not return a bearer token'')
                 else Inr (Some (st\<lparr>cbToken := Some fresh\<rparr>), fresh)))"

definition token_change :: "'w bridge_lib \<Rightarrow> bridge_client \<Rightarrow> string \<Rightarrow> ('w, oauth_token) change" where
  "token_change lib c rejected stored w =
     (case stored of
        None \<Rightarrow> (w, Inl (BridgeError ''not signed in''))
      | Some st \<Rightarrow>
          if \<not> credential_matches c st
          then (w, Inl (BridgeError ''credential does not match this service; run logout and login again''))
          else case edgeURL lib c (cbIssuer st) of
              Inl e \<Rightarrow> (w, Inl e)
            | Inr _ \<Rightarrow>
               (case edgeURL lib c (cbTokenEndpoint st) of
                  Inl e \<Rightarrow> (w, Inl e)
                | Inr _ \<Rightarrow>
                    let t = the (cbToken st) in
                    if blValid lib (bwEnv w) t \<and> (rejected = [] \<or> otAccess t \<noteq> rejected) then (w, Inr (None, t))
                    else refresh_token lib c st t w))"

definition token :: "'w bridge_lib \<Rightarrow> bridge_client \<Rightarrow> string \<Rightarrow> 'w bridge_world
    \<Rightarrow> 'w bridge_world \<times> (bridge_error, oauth_token) result" where
  "token lib c rejected w = store_update lib (bcStore c) (token_change lib c rejected) w"

text \<open>\<^verbatim>\<open>authorizedTransport\<close>: the credential is sent to the resource only, and once more after a 401.\<close>

definition with_token :: "oauth_token \<Rightarrow> bool \<Rightarrow> bridge_request \<Rightarrow> (bridge_error, bridge_request) result" where
  "with_token t retry rq =
     bind_result (if retry then (case bqReplay rq of None \<Rightarrow> Inr (bqBody rq) | Some r \<Rightarrow> bind_result r (\<lambda>b. Inr (Some b)))
                  else Inr (bqBody rq)) (\<lambda>b.
       Inr (rq\<lparr>bqBody := b, bqHeaders := set_request_header ''Authorization'' (''Bearer '' @ otAccess t) (bqHeaders rq)\<rparr>))"

definition send_with :: "'w bridge_lib \<Rightarrow> oauth_token \<Rightarrow> bool \<Rightarrow> 'w transport" where
  "send_with lib t retry rq w =
     (case with_token t retry rq of Inl e \<Rightarrow> (w, Inl e) | Inr rq' \<Rightarrow> send_credential lib rq' w)"

definition authorizedTransport :: "'w bridge_lib \<Rightarrow> bridge_client \<Rightarrow> 'w transport" where
  "authorizedTransport lib c rq w =
     (if bqURL rq \<noteq> bcResource c
      then (w, Inl (BridgeError ''refusing to send a credential outside its MCP resource''))
      else case token lib c [] w of
          (w1, Inl e) \<Rightarrow> (w1, Inl (CredentialAccess e))
        | (w1, Inr t) \<Rightarrow>
           (case send_with lib t False rq w1 of
              (w2, Inl e) \<Rightarrow> (w2, Inl e)
            | (w2, Inr res) \<Rightarrow>
                if bpStatus res \<noteq> 401 \<or> bqBody rq \<noteq> None \<and> bqReplay rq = None then (w2, Inr res)
                else (case token lib c (otAccess t) w2 of
                    (w3, Inl e) \<Rightarrow> (w3, Inl (CredentialAccess e))
                  | (w3, Inr fresh) \<Rightarrow> send_with lib fresh True rq w3)))"

section \<open>Signing in\<close>

definition deviceGrant :: string where
  "deviceGrant = ''urn:ietf:params:oauth:grant-type:device_code''"

definition requestJSON :: "'w bridge_lib \<Rightarrow> ('w \<Rightarrow> string \<Rightarrow> 'a option) \<Rightarrow> http_method \<Rightarrow> string \<Rightarrow> string option \<Rightarrow> string
    \<Rightarrow> 'w bridge_world \<Rightarrow> 'w bridge_world \<times> (bridge_error, 'a) result" where
  "requestJSON lib decode m endpoint bdy contentType w =
     (let rq = \<lparr>bqMethod = m, bqURL = endpoint,
            bqHeaders = (''Accept'', ''application/json'') #
              (if contentType = [] then [] else [(''Content-Type'', contentType)]),
            bqBody = bdy, bqReplay = None\<rparr> in
      case send_plain lib rq w of
        (w', Inl e) \<Rightarrow> (w', Inl (URLError e))
      | (w', Inr res) \<Rightarrow>
          (w', if bpStatus res < 200 \<or> 300 \<le> bpStatus res then Inl (BridgeError ''OAuth request returned an HTTP error'')
               else bind_result (bpBody res) (\<lambda>b.
                 case decode (bwEnv w') (take 1048576 b) of
                   None \<Rightarrow> Inl (BridgeError ''invalid OAuth JSON response'')
                 | Some x \<Rightarrow> Inr x)))"

definition well_known :: "'w bridge_lib \<Rightarrow> string \<Rightarrow> parsed_url \<Rightarrow> string" where
  "well_known lib name u = uScheme u @ ''://'' @ uHost u @ ''/.well-known/'' @ name @ blEscapedPath lib u"

definition check_metadata :: "'w bridge_lib \<Rightarrow> bridge_client \<Rightarrow> string \<Rightarrow> issuer_metadata \<Rightarrow> (bridge_error, unit) result" where
  "check_metadata lib c issuerURL m =
     (if imIssuer m \<noteq> issuerURL \<or> deviceGrant \<notin> set (imGrantTypes m) \<or> ''none'' \<notin> set (imAuthMethods m)
      then Inl (BridgeError ''issuer mismatch or server does not support public device authorization'')
      else bind_result (edgeURL lib c (imToken m)) (\<lambda>_. bind_result (edgeURL lib c (imDevice m)) (\<lambda>_. Inr ())))"

definition discover :: "'w bridge_lib \<Rightarrow> bridge_client \<Rightarrow> 'w bridge_world
    \<Rightarrow> 'w bridge_world \<times> (bridge_error, issuer_metadata \<times> string) result" where
  "discover lib c w =
     (case url_parse (blNet lib) (bcResource c) of
        None \<Rightarrow> (w, Inl (BridgeError ''nil base''))
      | Some base \<Rightarrow>
         (case requestJSON lib (\<lambda>_. blProtected lib) GET (well_known lib ''oauth-protected-resource'' base) None [] w of
            (w1, Inl e) \<Rightarrow> (w1, Inl e)
          | (w1, Inr prm) \<Rightarrow>
              if pmResource prm \<noteq> bcResource c \<or> length (pmIssuers prm) \<noteq> 1 \<or> length (pmScopes prm) \<noteq> 1
                 \<or> \<not> has_prefix (hd (pmScopes prm)) ''mcp:''
              then (w1, Inl (BridgeError ''expected single-service MCP Edge protected resource metadata''))
              else (case edgeURL lib c (hd (pmIssuers prm)) of
                  Inl e \<Rightarrow> (w1, Inl e)
                | Inr issuerURL \<Rightarrow>
                   (case url_parse (blNet lib) issuerURL of
                      None \<Rightarrow> (w1, Inl (BridgeError ''nil issuer''))
                    | Some issuer \<Rightarrow>
                       (case requestJSON lib (\<lambda>_. blIssuer lib) GET (well_known lib ''oauth-authorization-server'' issuer) None [] w1 of
                          (w2, Inl e) \<Rightarrow> (w2, Inl e)
                        | (w2, Inr m) \<Rightarrow>
                            (w2, bind_result (check_metadata lib c issuerURL m) (\<lambda>_. Inr (m, hd (pmScopes prm)))))))))"

text \<open>The client identifier: the one given, the one of the previous credential, or a new registration.\<close>

definition known_client :: "'w bridge_lib \<Rightarrow> bridge_client \<Rightarrow> issuer_metadata \<Rightarrow> string \<Rightarrow> string
    \<Rightarrow> 'w bridge_world \<Rightarrow> 'w bridge_world \<times> (bridge_error, string) result" where
  "known_client lib c m scope clientID w =
     (if clientID \<noteq> [] then (w, Inr clientID)
      else case on_env (read_credential lib (bcStore c)) w of
          (w', Inr previous) \<Rightarrow>
            (w', Inr (if cbIssuer previous = imIssuer m \<and> cbScope previous = scope then cbClientID previous else []))
        | (w', Inl e) \<Rightarrow> (w', if e = NotExist then Inr [] else Inl e))"

definition registration_body :: "string \<Rightarrow> json" where
  "registration_body scope =
     JObj [(''client_name'', JStr ''mcp-edge-credential-bridge''),
           (''grant_types'', JArr [JStr deviceGrant, JStr ''refresh_token'']), (''redirect_uris'', JArr []),
           (''response_types'', JArr []), (''scope'', JStr scope), (''token_endpoint_auth_method'', JStr ''none'')]"

definition register_client :: "'w bridge_lib \<Rightarrow> bridge_client \<Rightarrow> issuer_metadata \<Rightarrow> string
    \<Rightarrow> 'w bridge_world \<Rightarrow> 'w bridge_world \<times> (bridge_error, string) result" where
  "register_client lib c m scope w =
     (case edgeURL lib c (imRegistration m) of
        Inl e \<Rightarrow> (w, Inl (BridgeError ''public registration is unavailable''))
      | Inr endpoint \<Rightarrow>
         (case requestJSON lib (\<lambda>_. blRegistered lib) POST endpoint (Some (blJSON lib (registration_body scope)))
                 ''application/json'' w of
            (w', Inl e) \<Rightarrow> (w', Inl (BridgeError ''public device registration failed''))
          | (w', Inr clientID) \<Rightarrow>
              (w', if clientID = [] then Inl (BridgeError ''registration did not return a client ID'') else Inr clientID)))"

definition device_ok :: "time \<Rightarrow> device_grant \<Rightarrow> bool" where
  "device_ok now d =
     (dvDeviceCode d \<noteq> [] \<and> dvUserCode d \<noteq> [] \<and> now < dvExpiry d \<and> 0 \<le> dvInterval d \<and> dvInterval d \<le> 1800)"

definition verification_page :: "net_lib \<Rightarrow> device_grant \<Rightarrow> (bridge_error, string) result" where
  "verification_page net d =
     bind_result (secureURL net (dvURI d)) (\<lambda>_.
       if dvURIComplete d = [] then Inr (dvURI d)
       else bind_result (secureURL net (dvURIComplete d)) (\<lambda>_. Inr (dvURIComplete d)))"

definition login_prompt :: "string \<Rightarrow> string \<Rightarrow> string" where
  "login_prompt page user_code =
     ''Open on any device: '' @ page @ [CHR 0x0A] @ ''User code: '' @ user_code @ [CHR 0x0A]
       @ ''Waiting for approval...'' @ [CHR 0x0A]"

text \<open>From the device grant to the stored credential.\<close>

definition login_with :: "'w bridge_lib \<Rightarrow> bridge_client \<Rightarrow> issuer_metadata \<Rightarrow> string \<Rightarrow> string
    \<Rightarrow> 'w bridge_world \<Rightarrow> 'w bridge_world \<times> (bridge_error, unit) result" where
  "login_with lib c m scope clientID w =
     (case requestJSON lib (blDevice lib) POST (imDevice m)
             (Some (blForm lib [(''client_id'', clientID), (''scope'', scope), (''resource'', bcResource c)]))
             ''application/x-www-form-urlencoded'' w of
        (w1, Inl e) \<Rightarrow> (w1, Inl e)
      | (w1, Inr d) \<Rightarrow>
          if \<not> device_ok (blNow lib (bwEnv w1)) d then (w1, Inl (BridgeError ''invalid device authorization response''))
          else (case verification_page (blNet lib) d of
              Inl e \<Rightarrow> (w1, Inl e)
            | Inr page \<Rightarrow>
               (case on_env (blPrint lib (login_prompt page (dvUserCode d))) w1 of
                  (w2, Some e) \<Rightarrow> (w2, Inl e)
                | (w2, None) \<Rightarrow>
                   (case blDevicePoll lib (send_plain lib) clientID scope (imToken m) (bcResource c) d w2 of
                      (w3, Inl e) \<Rightarrow> (w3, Inl (oauthError ''device authorization'' e))
                    | (w3, Inr t) \<Rightarrow>
                        if otAccess t = [] \<or> \<not> equal_fold (otType t) ''Bearer''
                        then (w3, Inl (BridgeError ''expected an OAuth bearer token''))
                        else (case store_update lib (bcStore c) (\<lambda>_ w'. (w', Inr (Some
                                  \<lparr>cbResource = bcResource c, cbIssuer = imIssuer m, cbTokenEndpoint = imToken m,
                                   cbClientID = clientID, cbScope = scope, cbToken = Some t\<rparr>, ()))) w3 of
                            (w4, Inl e) \<Rightarrow> (w4, Inl e)
                          | (w4, Inr _) \<Rightarrow>
                             (case on_env (blPrint lib (''Signed in. The stdio bridge is ready.'' @ [CHR 0x0A])) w4 of
                                (w5, Some e) \<Rightarrow> (w5, Inl e)
                              | (w5, None) \<Rightarrow> (w5, Inr ())))))))"

definition Login :: "'w bridge_lib \<Rightarrow> bridge_client \<Rightarrow> string \<Rightarrow> 'w bridge_world
    \<Rightarrow> 'w bridge_world \<times> (bridge_error, unit) result" where
  "Login lib c clientID w =
     (case discover lib c w of
        (w1, Inl e) \<Rightarrow> (w1, Inl e)
      | (w1, Inr (m, scope)) \<Rightarrow>
         (case known_client lib c m scope clientID w1 of
            (w2, Inl e) \<Rightarrow> (w2, Inl e)
          | (w2, Inr known) \<Rightarrow>
             (case (if known \<noteq> [] then (w2, Inr known) else register_client lib c m scope w2) of
                (w3, Inl e) \<Rightarrow> (w3, Inl e)
              | (w3, Inr i) \<Rightarrow> login_with lib c m scope i w3)))"

section \<open>Where requests go\<close>

text \<open>
  Between two worlds only requests were added that satisfy \<^verbatim>\<open>A\<close>, at most \<^verbatim>\<open>n\<close> of them with a credential.
\<close>

fun is_credential :: "sent \<Rightarrow> bool" where
  "is_credential (SentCredential q) = True"
| "is_credential (SentPlain q) = False"

definition sends :: "(sent \<Rightarrow> bool) \<Rightarrow> nat \<Rightarrow> sent list \<Rightarrow> sent list \<Rightarrow> bool" where
  "sends A n l l' \<longleftrightarrow> (\<exists>xs. l' = l @ xs \<and> list_all A xs \<and> length (filter is_credential xs) \<le> n)"

lemma sends_same [simp]: "sends A n l l"
  by (auto simp: sends_def)

lemma sends_trans: "sends A m a b \<Longrightarrow> sends A n b c \<Longrightarrow> m + n \<le> k \<Longrightarrow> sends A k a c"
  unfolding sends_def by fastforce

lemma sends_one: "A x \<Longrightarrow> (is_credential x \<Longrightarrow> 0 < n) \<Longrightarrow> sends A n l (l @ [x])"
  unfolding sends_def by (intro exI[of _ "[x]"]) auto

lemma on_env_sent [simp]: "bwSent (fst (on_env f w)) = bwSent w"
  by (simp add: on_env_def split: prod.split)

lemma on_env_case: "on_env f w = (w', x) \<Longrightarrow> bwSent w' = bwSent w \<and> f (bwEnv w) = (bwEnv w', x)"
  by (auto simp: on_env_def split: prod.splits)

text \<open>
  The OAuth library reaches the network only through the transport that it is given, at the endpoint that it is given.
\<close>

definition refresh_honest :: "'w bridge_lib \<Rightarrow> bool" where
  "refresh_honest lib \<longleftrightarrow>
     (\<forall>T P i endpoint t w. (\<forall>rq v. bqURL rq = endpoint \<longrightarrow> P (bwSent v) \<longrightarrow> P (bwSent (fst (T rq v)))) \<longrightarrow> P (bwSent w)
        \<longrightarrow> P (bwSent (fst (blRefresh lib T i endpoint t w))))"

text \<open>A request with a credential goes to the resource, any other to the origin of the resource.\<close>

fun sent_ok :: "'w bridge_lib \<Rightarrow> bridge_client \<Rightarrow> sent \<Rightarrow> bool" where
  "sent_ok lib c (SentCredential q) = (bqURL q = bcResource c)"
| "sent_ok lib c (SentPlain q) = (\<exists>text. edgeURL lib c (bqURL q) = Inr text)"

lemma resourceTransport_sends:
  "edgeURL lib c (bqURL rq) = Inr text \<Longrightarrow> sends (sent_ok lib c) 0 (bwSent w) (bwSent (fst (resourceTransport lib r rq w)))"
  by (auto simp: resourceTransport_def send_plain_def split: option.split intro!: sends_one)

lemma refresh_sends:
  assumes "refresh_honest lib" "edgeURL lib c (cbTokenEndpoint st) = Inr text"
  shows "sends (sent_ok lib c) 0 (bwSent w) (bwSent (fst (refresh_token lib c st t w)))"
proof -
  let ?t = "t\<lparr>otExpiry := blNow lib (bwEnv w) - minute\<rparr>"
  let ?T = "resourceTransport lib (bcResource c)"
  have step: "sends (sent_ok lib c) 0 (bwSent w) (bwSent (fst (?T rq v)))"
    if "bqURL rq = cbTokenEndpoint st" "sends (sent_ok lib c) 0 (bwSent w) (bwSent v)" for rq v
    using that(1) assms(2) by (intro sends_trans[OF that(2) resourceTransport_sends]) auto
  have "sends (sent_ok lib c) 0 (bwSent w) (bwSent (fst (blRefresh lib ?T (cbClientID st) (cbTokenEndpoint st) ?t w)))"
    using assms(1)[unfolded refresh_honest_def, rule_format, of "cbTokenEndpoint st" "sends (sent_ok lib c) 0 (bwSent w)" ?T] step
    by simp
  then show ?thesis by (auto simp: refresh_token_def split: prod.split sum.split)
qed

lemma token_change_sends:
  assumes "refresh_honest lib"
  shows "sends (sent_ok lib c) 0 (bwSent w) (bwSent (fst (token_change lib c rejected stored w)))"
  using refresh_sends[OF assms] by (auto simp: token_change_def Let_def split: option.split sum.split)

lemma store_update_sends:
  assumes "\<And>st v. sends A n (bwSent v) (bwSent (fst (change st v)))"
  shows "sends A n (bwSent w) (bwSent (fst (store_update lib s change w)))"
proof -
  have changed: "sends A n (bwSent v) (bwSent (fst (store_changed lib s change v)))" for v
  proof -
    obtain v1 r where one: "on_env (read_credential lib s) v = (v1, r)" by force
    let ?st = "case r of Inl _ \<Rightarrow> None | Inr c \<Rightarrow> Some c"
    obtain v2 q where two: "change ?st v1 = (v2, q)" by force
    have "sends A n (bwSent v) (bwSent v2)" using assms[of v1 ?st] two on_env_case[OF one] by simp
    then show ?thesis
      using one two on_env_case[OF one]
      by (auto simp: store_changed_def split: sum.split option.split prod.split dest: on_env_case)
  qed
  obtain w1 r where l: "on_env (store_lock lib s) w = (w1, r)" by force
  show ?thesis
    using changed[of w1] on_env_case[OF l] l
    by (auto simp: store_update_def split: sum.split prod.split)
qed

lemma token_sends:
  "refresh_honest lib \<Longrightarrow> sends (sent_ok lib c) 0 (bwSent w) (bwSent (fst (token lib c rejected w)))"
  unfolding token_def by (rule store_update_sends) (rule token_change_sends)

lemma send_with_sends:
  "bqURL rq = bcResource c \<Longrightarrow> sends (sent_ok lib c) 1 (bwSent w) (bwSent (fst (send_with lib t retry rq w)))"
  by (auto simp: send_with_def with_token_def send_credential_def result_simps split: sum.split intro!: sends_one)

lemma authorized_sends:
  assumes "refresh_honest lib"
  shows "sends (sent_ok lib c) 2 (bwSent w) (bwSent (fst (authorizedTransport lib c rq w)))"
proof (cases "bqURL rq = bcResource c")
  case True
  obtain w1 r1 where 1: "token lib c [] w = (w1, r1)" by force
  have s1: "sends (sent_ok lib c) 0 (bwSent w) (bwSent w1)" using token_sends[OF assms, of c w "[]"] 1 by simp
  show ?thesis
  proof (cases r1)
    case (Inl e)
    then show ?thesis using True 1 sends_trans[OF s1 sends_same[of _ 0]] by (simp add: authorizedTransport_def)
  next
    case (Inr t)
    obtain w2 r2 where 2: "send_with lib t False rq w1 = (w2, r2)" by force
    have s2: "sends (sent_ok lib c) 1 (bwSent w) (bwSent w2)"
      using sends_trans[OF s1 send_with_sends[OF True, of lib w1 t False]] 2 by simp
    then have s2': "sends (sent_ok lib c) 2 (bwSent w) (bwSent w2)" by (rule sends_trans[OF _ sends_same[of _ 0]]) simp
    show ?thesis
    proof (cases r2)
      case (Inl e)
      then show ?thesis using True 1 2 Inr s2' by (simp add: authorizedTransport_def)
    next
      case res: (Inr res)
      obtain w3 r3 where 3: "token lib c (otAccess t) w2 = (w3, r3)" by force
      have s3: "sends (sent_ok lib c) 1 (bwSent w) (bwSent w3)"
        using sends_trans[OF s2 token_sends[OF assms, of c w2 "otAccess t"], of 1] 3 by simp
      then have s3': "sends (sent_ok lib c) 2 (bwSent w) (bwSent w3)" by (rule sends_trans[OF _ sends_same[of _ 0]]) simp
      have s4: "sends (sent_ok lib c) 2 (bwSent w) (bwSent (fst (send_with lib f True rq w3)))" for f
        by (rule sends_trans[OF s3 send_with_sends[OF True]]) simp
      show ?thesis
        using True 1 2 3 Inr res s2' s3' s4 by (auto simp: authorizedTransport_def split: sum.split)
    qed
  qed
qed (simp add: authorizedTransport_def)

section \<open>What the keystore holds\<close>

text \<open>
  \<^verbatim>\<open>content\<close> is the secret of the key.  While the lock is held nobody else changes it; a lookup that succeeds reads it,
  and a store that succeeds writes it.  What was encoded is decoded.
\<close>

definition keystore_ok :: "'w bridge_lib \<Rightarrow> string \<Rightarrow> ('w \<Rightarrow> string option) \<Rightarrow> bool" where
  "keystore_ok lib k content \<longleftrightarrow>
     (\<forall>w. content (fst (blProbe lib w)) = content w)
     \<and> (\<forall>w d w' s. blTool lib (tool_args ''lookup'' k) d w = (w', ToolOk s) \<longrightarrow> content w = Some s \<and> content w' = Some s)
     \<and> (\<forall>w d w' s. blTool lib (tool_args ''store'' k) d w = (w', ToolOk s) \<longrightarrow> content w' = Some d)
     \<and> (\<forall>w. content (blUnlock lib w) = content w)
     \<and> (\<forall>c d. blEncode lib c = Some d \<longrightarrow> blDecode lib d = Some c)"

lemma secret_lookup:
  assumes "keystore_ok lib (csKey s) content" "secret lib s ''lookup'' [] w = (w', Inr dat)"
  shows "content w' = Some dat"
  using assms unfolding keystore_ok_def secret_def
  by (auto split: prod.splits tool_result.splits if_splits)

lemma secret_store:
  assumes "keystore_ok lib (csKey s) content" "secret lib s ''store'' dat w = (w', Inr r)"
  shows "content w' = Some dat"
proof -
  obtain w1 where "blTool lib (tool_args ''store'' (csKey s)) dat w1 = (w', ToolOk r)"
    using assms(2) unfolding secret_def by (auto split: prod.splits tool_result.splits if_splits)
  then show ?thesis using assms(1) unfolding keystore_ok_def by blast
qed

lemma token_stored:
  assumes "keystore_ok lib (csKey (bcStore c)) content" "token lib c rejected w = (w', Inr t)"
  shows "\<exists>dat st. content (bwEnv w') = Some dat \<and> blDecode lib dat = Some st \<and> cbResource st = bcResource c
    \<and> cbToken st = Some t \<and> otAccess t \<noteq> [] \<and> equal_fold (otType t) ''Bearer''"
proof -
  let ?ch = "token_change lib c rejected" and ?s = "bcStore c"
  let ?ok = "\<lambda>v. \<exists>dat st. content v = Some dat \<and> blDecode lib dat = Some st \<and> cbResource st = bcResource c
    \<and> cbToken st = Some t \<and> otAccess t \<noteq> [] \<and> equal_fold (otType t) ''Bearer''"
  obtain w1 w2 where u: "store_changed lib ?s ?ch w1 = (w2, Inr t)" "bwEnv w' = blUnlock lib (bwEnv w2)"
    using assms(2) by (auto simp: token_def store_update_def split: prod.splits sum.splits)
  obtain w3 r where r: "on_env (read_credential lib ?s) w1 = (w3, r)" by force
  obtain st where st: "r = Inr st"
    using u(1) r by (cases r) (auto simp: store_changed_def token_change_def split: if_splits prod.splits sum.splits)
  obtain dat where dat: "content (bwEnv w3) = Some dat" "blDecode lib dat = Some st"
    using r st on_env_case[OF r] secret_lookup[OF assms(1)]
    by (auto simp: read_credential_def split: prod.splits sum.splits option.splits)
  obtain w4 nx where ch: "?ch (Some st) w3 = (w4, Inr (nx, t))"
    using u(1) r st by (auto simp: store_changed_def split: prod.splits sum.splits option.splits)
  have "?ok (bwEnv w2)"
  proof (cases nx)
    case None
    have m: "credential_matches c st" "w4 = w3" "cbToken st = Some t"
      using ch None by (auto simp: token_change_def refresh_token_def Let_def credential_matches_def
        split: if_splits sum.splits prod.splits option.splits)
    have "w2 = w4" using u(1) r st ch None by (simp add: store_changed_def)
    then show ?thesis using m dat by (auto simp: credential_matches_def)
  next
    case (Some c')
    have m: "cbResource c' = bcResource c" "cbToken c' = Some t" "otAccess t \<noteq> []" "equal_fold (otType t) ''Bearer''"
      using ch Some by (auto simp: token_change_def refresh_token_def Let_def credential_matches_def
        split: if_splits sum.splits prod.splits option.splits)
    obtain d x where d: "blEncode lib c' = Some d" "on_env (secret lib ?s ''store'' d) w4 = (w2, Inr x)"
      using u(1) r st ch Some by (auto simp: store_changed_def split: option.splits prod.splits sum.splits)
    have "content (bwEnv w2) = Some d" using secret_store[OF assms(1)] on_env_case[OF d(2)] by blast
    moreover have "blDecode lib d = Some c'" using assms(1) d(1) unfolding keystore_ok_def by blast
    ultimately show ?thesis using m by blast
  qed
  moreover have "content (bwEnv w') = content (bwEnv w2)" using assms(1) u(2) unfolding keystore_ok_def by simp
  ultimately show ?thesis by simp
qed

end
