(* ===== verification/BridgeRelay.thy ===== *)
theory BridgeRelay
  imports CredentialBridge
begin

text \<open>
  The relay of the credential bridge (\<^verbatim>\<open>internal/credentialbridge/transport.go\<close>): messages from standard input are posted
  to the service, and its answers and its stream of notifications are written to standard output, one message a line.
  The parts of the state that the source guards by a mutex are changed in the steps of \<^verbatim>\<open>relay_step\<close>, so that
  any interleaving of the workers is a sequence of such steps.
\<close>

section \<open>Data\<close>

record wire_message =
  wmJSONRPC :: string
  wmID :: string
  wmMethod :: string
  wmParams :: string
  wmResult :: string

record relay =
  ryEndpoint :: string
  rySession :: string
  ryVersion :: string
  ryInitializeID :: string
  ryOutput :: "string list"
  ryListening :: bool

text \<open>
  The JSON package and standard output: what the struct of a message, of parameters (the version, and the one of the
  metadata) and of a result decode to, compact JSON, and whether a line can be written after the lines so far.
\<close>

record 'w relay_lib =
  wlBridge :: "'w bridge_lib"
  wlWire :: "string \<Rightarrow> wire_message option"
  wlParams :: "string \<Rightarrow> string \<times> string"
  wlResult :: "string \<Rightarrow> string option"
  wlCompact :: "string \<Rightarrow> string option"
  wlMediaType :: "string \<Rightarrow> string"
  wlWrite :: "string list \<Rightarrow> string \<Rightarrow> bridge_error option"
  wlCancelled :: "'w \<Rightarrow> bool"
  wlSleep :: "duration \<Rightarrow> 'w \<Rightarrow> 'w \<times> bool"

definition maxMessageBytes :: nat where
  "maxMessageBytes = 16 * 1024 * 1024"

definition response_header :: "string \<Rightarrow> bridge_response \<Rightarrow> string" where
  "response_header k res = clamp_some (map_of (bpHeaders res) k) []"

text \<open>\<^verbatim>\<open>http.Client.Do\<close> over the transport that adds the credential.\<close>

definition client_Do :: "'w relay_lib \<Rightarrow> bridge_client \<Rightarrow> 'w transport" where
  "client_Do wl c rq w =
     (case authorizedTransport (wlBridge wl) c rq w of (w', Inl e) \<Rightarrow> (w', Inl (URLError e)) | (w', Inr res) \<Rightarrow> (w', Inr res))"

section \<open>Writing\<close>

text \<open>The answer to initialize may set the version.\<close>

definition note_version :: "'w relay_lib \<Rightarrow> wire_message \<Rightarrow> relay \<Rightarrow> relay" where
  "note_version wl m r =
     (if ryInitializeID r \<noteq> [] \<and> wmMethod m = [] \<and> wmID m = ryInitializeID r
      then (case wlResult wl (wmResult m) of
          None \<Rightarrow> r
        | Some v \<Rightarrow> if v \<noteq> [] then r\<lparr>ryVersion := v\<rparr> else r)
      else r)"

definition relay_write :: "'w relay_lib \<Rightarrow> relay \<Rightarrow> string \<Rightarrow> relay \<times> (bridge_error, wire_message) result" where
  "relay_write wl r dat =
     (if maxMessageBytes < length dat then (r, Inl (BridgeError ''MCP message exceeds 16 MiB''))
      else case wlWire wl dat of
          None \<Rightarrow> (r, Inl (BridgeError ''MCP server returned invalid JSON-RPC''))
        | Some m \<Rightarrow>
            if wmJSONRPC m \<noteq> ''2.0'' then (r, Inl (BridgeError ''MCP server returned invalid JSON-RPC''))
            else let r1 = note_version wl m r in
              (case wlCompact wl dat of
                 None \<Rightarrow> (r1, Inl (BridgeError ''invalid JSON''))
               | Some compact \<Rightarrow>
                   let line = compact @ [CHR 0x0A] in
                   (case wlWrite wl (ryOutput r1) line of
                      Some e \<Rightarrow> (r1, Inl e)
                    | None \<Rightarrow> (r1\<lparr>ryOutput := ryOutput r1 @ [line]\<rparr>, Inr m))))"

section \<open>Event streams\<close>

record sse_state =
  seData :: "string list"
  seSize :: nat
  seLast :: string
  seDelivered :: bool

definition sse_start :: sse_state where
  "sse_start = \<lparr>seData = [], seSize = 0, seLast = [], seDelivered = False\<rparr>"

text \<open>A line that is not empty: a field and its value; the left answer is the error.\<close>

definition line_field :: "string \<Rightarrow> string \<times> string" where
  "line_field line =
     (before_char (CHR 0x3A) line, trim_prefix (tl (dropWhile (\<lambda>x. x \<noteq> CHR 0x3A) line)) '' '')"

definition sse_line :: "sse_state \<Rightarrow> string \<Rightarrow> (bridge_error, sse_state) result" where
  "sse_line s line =
     (case line_field line of (field, v) \<Rightarrow>
        if field = ''data'' then
          if maxMessageBytes < seSize s + length v + 1 then Inl (BridgeError ''SSE message exceeds 16 MiB'')
          else Inr (s\<lparr>seSize := seSize s + length v + 1, seData := seData s @ [v]\<rparr>)
        else if field = ''id'' \<and> \<not> contains_char v (CHR 0x00) then Inr (s\<lparr>seLast := v\<rparr>)
        else Inr s)"

definition is_response :: "string \<Rightarrow> wire_message \<Rightarrow> bool" where
  "is_response responseID m = (responseID \<noteq> [] \<and> wmMethod m = [] \<and> wmID m = responseID)"

text \<open>The lines of a body and the error of the scanner after them.\<close>

fun sse_loop :: "'w relay_lib \<Rightarrow> string \<Rightarrow> bridge_error option \<Rightarrow> string list \<Rightarrow> sse_state \<Rightarrow> relay
    \<Rightarrow> relay \<times> sse_state \<times> (bridge_error, unit) result" where
  "sse_loop wl rid err [] s r =
     (r, s, case err of
        Some e \<Rightarrow> Inl (StreamRead e)
      | None \<Rightarrow> if rid \<noteq> [] then Inl (BridgeError ''MCP response stream ended before its response'') else Inr ())"
| "sse_loop wl rid err (line # lines) s r =
     (if line = [] then
        if join [CHR 0x0A] (seData s) = [] then sse_loop wl rid err lines (s\<lparr>seData := [], seSize := 0\<rparr>) r
        else (case relay_write wl r (join [CHR 0x0A] (seData s)) of
            (r', Inl e) \<Rightarrow> (r', s, Inl e)
          | (r', Inr m) \<Rightarrow>
              if is_response rid m then (r', s\<lparr>seDelivered := True\<rparr>, Inr ())
              else sse_loop wl rid err lines (s\<lparr>seData := [], seSize := 0, seDelivered := True\<rparr>) r')
      else case sse_line s line of
          Inl e \<Rightarrow> (r, s, Inl e)
        | Inr s' \<Rightarrow> sse_loop wl rid err lines s' r)"

definition relay_sse :: "'w relay_lib \<Rightarrow> string \<Rightarrow> string list \<times> bridge_error option \<Rightarrow> relay
    \<Rightarrow> relay \<times> sse_state \<times> (bridge_error, unit) result" where
  "relay_sse wl rid body r = sse_loop wl rid (snd body) (fst body) sse_start r"

section \<open>Posting\<close>

definition relay_headers :: "relay \<Rightarrow> (string \<times> string) list \<Rightarrow> (string \<times> string) list" where
  "relay_headers r hs =
     (let hs1 = (if rySession r = [] then hs else set_request_header ''Mcp-Session-Id'' (rySession r) hs) in
      if ryVersion r = [] then hs1 else set_request_header ''MCP-Protocol-Version'' (ryVersion r) hs1)"

definition note_initialize :: "'w relay_lib \<Rightarrow> wire_message \<Rightarrow> relay \<Rightarrow> relay" where
  "note_initialize wl m r =
     (if wmMethod m = ''initialize''
      then r\<lparr>ryInitializeID := wmID m, ryVersion := fst (wlParams wl (wmParams m))\<rparr> else r)"

definition post_request :: "'w relay_lib \<Rightarrow> relay \<Rightarrow> string \<Rightarrow> wire_message \<Rightarrow> bridge_request" where
  "post_request wl r bdy m =
     (let hs = relay_headers r [(''Content-Type'', ''application/json''), (''Accept'', ''application/json, text/event-stream'')];
          metaVersion = snd (wlParams wl (wmParams m)) in
      \<lparr>bqMethod = POST, bqURL = ryEndpoint r,
       bqHeaders = (if metaVersion = [] then hs else set_request_header ''MCP-Protocol-Version'' metaVersion hs),
       bqBody = Some bdy, bqReplay = Some (Inr bdy)\<rparr>)"

definition note_session :: "string \<Rightarrow> relay \<Rightarrow> relay \<times> bridge_error option" where
  "note_session session r =
     (if session = [] then (r, None)
      else if rySession r = [] then (r\<lparr>rySession := session\<rparr>, None)
      else (r, if rySession r \<noteq> session then Some (BridgeError ''MCP server changed session ID'') else None))"

definition post_body :: "'w relay_lib \<Rightarrow> wire_message \<Rightarrow> bridge_response \<Rightarrow> relay \<Rightarrow> relay \<times> bridge_error option" where
  "post_body wl m res r =
     (let media = wlMediaType wl (response_header ''Content-Type'' res) in
      if media = ''application/json'' then
        (case bpBody res of
           Inl e \<Rightarrow> (r, Some e)
         | Inr b \<Rightarrow>
            (case relay_write wl r (take (maxMessageBytes + 1) b) of
               (r', Inl e) \<Rightarrow> (r', Some e)
             | (r', Inr _) \<Rightarrow> (r', None)))
      else if bpStatus res < 200 \<or> 300 \<le> bpStatus res then (r, Some (BridgeError ''MCP POST returned an HTTP error''))
      else if media = ''text/event-stream'' then
        (case relay_sse wl (if wmMethod m \<noteq> [] then wmID m else []) (bpLines res) r of
           (r', _, Inl e) \<Rightarrow> (r', Some e)
         | (r', _, Inr _) \<Rightarrow> (r', None))
      else if bpStatus res \<noteq> 202 \<and> bpStatus res \<noteq> 204
      then (r, Some (BridgeError ''MCP server returned neither JSON nor an SSE stream''))
      else (r, None))"

text \<open>
  \<^verbatim>\<open>listenOnce\<close>: the right answer says whether the stream of notifications is to be opened; from the version of
  2026-07-28 on it never is.
\<close>

definition start_listening :: "relay \<Rightarrow> relay \<times> bool" where
  "start_listening r =
     (r\<lparr>ryListening := True\<rparr>, \<not> ryListening r \<and> \<not> ''2026-07-28'' \<le> ryVersion r)"

definition post :: "'w relay_lib \<Rightarrow> bridge_client \<Rightarrow> relay \<Rightarrow> string \<Rightarrow> wire_message \<Rightarrow> 'w bridge_world
    \<Rightarrow> (relay \<times> 'w bridge_world) \<times> (bridge_error, bool) result" where
  "post wl c r bdy m w =
     (let r1 = note_initialize wl m r in
      case client_Do wl c (post_request wl r1 bdy m) w of
        (w', Inl e) \<Rightarrow> ((r1, w'), Inl e)
      | (w', Inr res) \<Rightarrow>
         (case note_session (response_header ''Mcp-Session-Id'' res) r1 of
            (r2, Some e) \<Rightarrow> ((r2, w'), Inl e)
          | (r2, None) \<Rightarrow>
             (case post_body wl m res r2 of
                (r3, Some e) \<Rightarrow> ((r3, w'), Inl e)
              | (r3, None) \<Rightarrow>
                  if wmMethod m = ''notifications/initialized''
                  then (case start_listening r3 of (r4, b) \<Rightarrow> ((r4, w'), Inr b))
                  else ((r3, w'), Inr False))))"

text \<open>What \<^verbatim>\<open>Serve\<close> does with a line of its input: it stops, or posts it before it reads on, or leaves it to a worker.\<close>

datatype dispatch = Refuse | InOrder wire_message | ByWorker wire_message

definition serve_line :: "'w relay_lib \<Rightarrow> string \<Rightarrow> dispatch" where
  "serve_line wl line =
     (case wlWire wl line of
        None \<Rightarrow> Refuse
      | Some m \<Rightarrow>
          if wmJSONRPC m \<noteq> ''2.0'' then Refuse
          else if wmMethod m = ''initialize'' \<or> wmMethod m = ''notifications/initialized'' then InOrder m
          else ByWorker m)"

definition closeSession :: "'w relay_lib \<Rightarrow> bridge_client \<Rightarrow> relay \<Rightarrow> 'w bridge_world \<Rightarrow> 'w bridge_world" where
  "closeSession wl c r w =
     (if rySession r = [] then w
      else fst (client_Do wl c \<lparr>bqMethod = DELETE, bqURL = ryEndpoint r, bqHeaders = relay_headers r [], bqBody = None,
             bqReplay = None\<rparr> w))"

section \<open>Listening\<close>

record listen_state =
  lsLast :: string
  lsDelay :: duration

definition listen_start :: listen_state where
  "listen_start = \<lparr>lsLast = [], lsDelay = second\<rparr>"

text \<open>The outcome of one connection: the end with an error or without, or another connection after a pause.\<close>

datatype listen_next = ListenEnd "bridge_error option" | ListenAgain listen_state

fun credential_error :: "bridge_error \<Rightarrow> bool" where
  "credential_error (CredentialAccess e) = True"
| "credential_error (URLError e) = credential_error e"
| "credential_error (StreamRead e) = credential_error e"
| "credential_error _ = False"

fun transient_error :: "bridge_error \<Rightarrow> bool" where
  "transient_error (URLError e) = (e = NetError \<or> e = EndOfFile)"
| "transient_error _ = False"

definition transient_status :: "nat \<Rightarrow> bool" where
  "transient_status s = (s \<in> {429, 500, 502, 503, 504})"

definition listen_request :: "relay \<Rightarrow> listen_state \<Rightarrow> bridge_request" where
  "listen_request r ls =
     (let hs = set_request_header ''Accept'' ''text/event-stream'' (relay_headers r []) in
      \<lparr>bqMethod = GET, bqURL = ryEndpoint r,
       bqHeaders = (if lsLast ls = [] then hs else set_request_header ''Last-Event-ID'' (lsLast ls) hs),
       bqBody = None, bqReplay = None\<rparr>)"

fun stream_read_error :: "bridge_error \<Rightarrow> bool" where
  "stream_read_error (StreamRead e) = True"
| "stream_read_error (URLError e) = stream_read_error e"
| "stream_read_error (CredentialAccess e) = stream_read_error e"
| "stream_read_error _ = False"

definition listen_stream :: "'w relay_lib \<Rightarrow> bridge_response \<Rightarrow> bool \<Rightarrow> listen_state \<Rightarrow> relay \<Rightarrow> relay \<times> listen_next" where
  "listen_stream wl res long ls r =
     (case relay_sse wl [] (bpLines res) r of
        (r', s, result) \<Rightarrow>
          let ls1 = (if seLast s = [] then ls else ls\<lparr>lsLast := seLast s\<rparr>) in
          if (case result of Inl e \<Rightarrow> \<not> stream_read_error e | Inr _ \<Rightarrow> False)
          then (r', ListenEnd (Some (projl result)))
          else (r', ListenAgain (if seDelivered s \<or> long then ls1\<lparr>lsDelay := second\<rparr> else ls1)))"

definition listen_response :: "'w relay_lib \<Rightarrow> bridge_response \<Rightarrow> bool \<Rightarrow> listen_state \<Rightarrow> relay \<Rightarrow> relay \<times> listen_next" where
  "listen_response wl res long ls r =
     (if bpStatus res = 405 then (r, ListenEnd None)
      else if transient_status (bpStatus res) then (r, ListenAgain ls)
      else if bpStatus res \<noteq> 200 \<or> wlMediaType wl (response_header ''Content-Type'' res) \<noteq> ''text/event-stream''
      then (r, ListenEnd (Some (BridgeError ''MCP notification stream returned an error or invalid content type'')))
      else listen_stream wl res long ls r)"

text \<open>\<^verbatim>\<open>long\<close> says whether the connection was open for 30 seconds, between two readings of the clock.\<close>

definition listen_connect :: "'w relay_lib \<Rightarrow> bridge_client \<Rightarrow> listen_state \<Rightarrow> relay \<times> 'w bridge_world
    \<Rightarrow> (relay \<times> 'w bridge_world) \<times> listen_next" where
  "listen_connect wl c ls rw =
     (let opened = blNow (wlBridge wl) (bwEnv (snd rw)) in
      case client_Do wl c (listen_request (fst rw) ls) (snd rw) of
        (w', Inl e) \<Rightarrow>
          ((fst rw, w'),
           if wlCancelled wl (bwEnv w') then ListenEnd (Some ContextDone)
           else if credential_error e \<or> \<not> transient_error e then ListenEnd (Some e)
           else ListenAgain ls)
      | (w', Inr res) \<Rightarrow>
         (case listen_response wl res (30 * second \<le> blNow (wlBridge wl) (bwEnv w') - opened) ls (fst rw) of
            (r', next) \<Rightarrow> ((r', w'), next)))"

text \<open>
  The loop, for at most \<^verbatim>\<open>n\<close> connections: the pauses that were made, and the error it ended with, or \<^verbatim>\<open>None\<close> if it is still
  running.
\<close>

fun listen_loop :: "nat \<Rightarrow> 'w relay_lib \<Rightarrow> bridge_client \<Rightarrow> listen_state \<Rightarrow> relay \<times> 'w bridge_world
    \<Rightarrow> (relay \<times> 'w bridge_world) \<times> duration list \<times> bridge_error option option" where
  "listen_loop 0 wl c ls rw = (rw, [], None)"
| "listen_loop (Suc n) wl c ls rw =
     (case listen_connect wl c ls rw of
        (rw1, ListenEnd e) \<Rightarrow> (rw1, [], Some e)
      | (rw1, ListenAgain ls1) \<Rightarrow>
         (case wlSleep wl (lsDelay ls1) (bwEnv (snd rw1)) of
            (env, cancelled) \<Rightarrow>
              let rw2 = (fst rw1, (snd rw1)\<lparr>bwEnv := env\<rparr>) in
              if cancelled then (rw2, [lsDelay ls1], Some (Some ContextDone))
              else case listen_loop n wl c (ls1\<lparr>lsDelay := min (lsDelay ls1 * 2) (30 * second)\<rparr>) rw2 of
                  (rw3, ds, e) \<Rightarrow> (rw3, lsDelay ls1 # ds, e)))"

section \<open>Steps of the workers\<close>

text \<open>A line of the output is one message of the service, in compact form.\<close>

definition line_ok :: "'w relay_lib \<Rightarrow> string \<Rightarrow> bool" where
  "line_ok wl line \<longleftrightarrow> (\<exists>d m c. wlWire wl d = Some m \<and> wmJSONRPC m = ''2.0'' \<and> wlCompact wl d = Some c
     \<and> length d \<le> maxMessageBytes \<and> line = c @ [CHR 0x0A])"

inductive relay_step :: "'w relay_lib \<Rightarrow> relay \<Rightarrow> relay \<Rightarrow> bool" for wl where
  step_initialize: "relay_step wl r (note_initialize wl m r)"
| step_session: "relay_step wl r (fst (note_session s r))"
| step_version: "relay_step wl r (note_version wl m r)"
| step_output: "line_ok wl line \<Longrightarrow> relay_step wl r (r\<lparr>ryOutput := ryOutput r @ [line]\<rparr>)"
| step_listening: "relay_step wl r (fst (start_listening r))"

inductive_cases relay_stepE: "relay_step wl r r'"

abbreviation relay_steps :: "'w relay_lib \<Rightarrow> relay \<Rightarrow> relay \<Rightarrow> bool" where
  "relay_steps wl \<equiv> (relay_step wl)\<^sup>*\<^sup>*"

definition relay_grows :: "'w relay_lib \<Rightarrow> relay \<Rightarrow> relay \<Rightarrow> bool" where
  "relay_grows wl r r' \<longleftrightarrow>
     ryEndpoint r' = ryEndpoint r \<and> (rySession r \<noteq> [] \<longrightarrow> rySession r' = rySession r)
     \<and> (ryListening r \<longrightarrow> ryListening r') \<and> (\<exists>ls. ryOutput r' = ryOutput r @ ls \<and> list_all (line_ok wl) ls)"

lemma relay_grows_refl [simp]: "relay_grows wl r r"
  by (simp add: relay_grows_def)

lemma relay_grows_trans: "relay_grows wl a b \<Longrightarrow> relay_grows wl b c \<Longrightarrow> relay_grows wl a c"
  unfolding relay_grows_def by force

lemma note_version_other: "ryEndpoint (note_version wl m r) = ryEndpoint r \<and> rySession (note_version wl m r) = rySession r
    \<and> ryListening (note_version wl m r) = ryListening r \<and> ryOutput (note_version wl m r) = ryOutput r"
  by (simp add: note_version_def split: option.split)

lemma relay_step_grows: "relay_step wl r r' \<Longrightarrow> relay_grows wl r r'"
  using note_version_other[of wl _ r]
  by (erule_tac relay_stepE) (auto simp: note_initialize_def note_session_def start_listening_def relay_grows_def)

lemma relay_steps_grow: "relay_steps wl r r' \<Longrightarrow> relay_grows wl r r'"
  by (induction rule: rtranclp_induct) (auto intro: relay_grows_trans relay_step_grows)

lemma line_okI:
  "wlWire wl d = Some m \<Longrightarrow> wmJSONRPC m = ''2.0'' \<Longrightarrow> wlCompact wl d = Some c \<Longrightarrow> \<not> maxMessageBytes < length d
     \<Longrightarrow> line_ok wl (c @ [CHR 0x0A])"
  unfolding line_ok_def by (intro exI[of _ d] exI[of _ m] exI[of _ c]) simp

lemma version_steps: "relay_steps wl r (note_version wl m r)"
  by (rule r_into_rtranclp) (rule step_version)

lemma write_steps: "relay_write wl r d = (r', x) \<Longrightarrow> relay_steps wl r r'"
  unfolding relay_write_def Let_def
  by (auto split: if_splits option.splits
    intro: version_steps rtranclp.rtrancl_into_rtrancl[OF version_steps step_output[OF line_okI]])

lemma sse_steps: "relay_steps wl r (fst (sse_loop wl rid err lines s r))"
proof (induction lines arbitrary: s r)
  case (Cons line lines)
  show ?case
    by (auto split: sum.split prod.split intro: Cons.IH write_steps rtranclp_trans[OF write_steps Cons.IH])
qed simp

lemma relay_sse_steps: "relay_sse wl rid body r = (r', x) \<Longrightarrow> relay_steps wl r r'"
  using sse_steps[of wl r rid "snd body" "fst body" sse_start] by (simp add: relay_sse_def)

lemma post_body_steps: "post_body wl m res r = (r', x) \<Longrightarrow> relay_steps wl r r'"
  by (auto simp: post_body_def Let_def intro: write_steps relay_sse_steps split: if_splits sum.splits prod.splits)

text \<open>A post is a sequence of such steps, whatever the service answers; so is a connection for notifications.\<close>

lemma post_steps: "post wl c r bdy m w = ((r', w'), x) \<Longrightarrow> relay_steps wl r r'"
proof -
  assume p: "post wl c r bdy m w = ((r', w'), x)"
  define r1 where "r1 = note_initialize wl m r"
  have s1: "relay_steps wl r r1" unfolding r1_def by (rule r_into_rtranclp) (rule step_initialize)
  obtain w1 a where d: "client_Do wl c (post_request wl r1 bdy m) w = (w1, a)" by force
  show ?thesis
  proof (cases a)
    case (Inl e)
    then show ?thesis using p d s1 by (simp add: post_def r1_def[symmetric])
  next
    case (Inr res)
    obtain r2 b where n: "note_session (response_header ''Mcp-Session-Id'' res) r1 = (r2, b)" by force
    have s2: "relay_steps wl r r2"
      using s1 step_session[of wl r1 "response_header ''Mcp-Session-Id'' res"] n by (simp add: rtranclp.rtrancl_into_rtrancl)
    obtain r3 e where q: "post_body wl m res r2 = (r3, e)" by force
    have s3: "relay_steps wl r r3" using s2 post_body_steps[OF q] by (rule rtranclp_trans)
    have s4: "relay_steps wl r (fst (start_listening r3))" using s3 step_listening by (rule rtranclp.rtrancl_into_rtrancl)
    show ?thesis
      using p d Inr n q s2 s3 s4
      by (auto simp: post_def r1_def[symmetric] split: option.splits prod.splits if_splits)
  qed
qed

lemma listen_connect_steps: "listen_connect wl c ls (r, w) = ((r', w'), x) \<Longrightarrow> relay_steps wl r r'"
  by (auto simp: listen_connect_def listen_response_def listen_stream_def Let_def
    dest!: relay_sse_steps split: sum.splits prod.splits if_splits)

lemma listen_loop_steps: "relay_steps wl (fst rw) (fst (fst (listen_loop n wl c ls rw)))"
proof (induction n arbitrary: ls rw)
  case (Suc n)
  obtain r w where rw: "rw = (r, w)" by (cases rw)
  obtain r1 w1 x where c: "listen_connect wl c ls (r, w) = ((r1, w1), x)" by (metis prod.exhaust)
  have s: "relay_steps wl r r1" using listen_connect_steps[OF c] .
  show ?case
  proof (cases x)
    case (ListenAgain ls1)
    obtain env b where e: "wlSleep wl (lsDelay ls1) (bwEnv w1) = (env, b)" by force
    obtain rw3 ds q where l: "listen_loop n wl c (ls1\<lparr>lsDelay := min (lsDelay ls1 * 2) (30 * second)\<rparr>) (r1, w1\<lparr>bwEnv := env\<rparr>)
        = (rw3, ds, q)" by (metis prod.exhaust)
    have "relay_steps wl r1 (fst rw3)"
      using Suc.IH[of "(r1, w1\<lparr>bwEnv := env\<rparr>)" "ls1\<lparr>lsDelay := min (lsDelay ls1 * 2) (30 * second)\<rparr>"] l by simp
    then show ?thesis using rw c ListenAgain e l s by (auto simp: Let_def)
  qed (use rw c s in simp)
qed simp

section \<open>The reference for event streams\<close>

text \<open>First the stream is cut into the payloads of its complete events, then they are written one after the other.\<close>

fun sse_events :: "string list \<Rightarrow> string list \<Rightarrow> string list" where
  "sse_events dat [] = []"
| "sse_events dat (line # lines) =
     (if line = [] then (if join [CHR 0x0A] dat = [] then [] else [join [CHR 0x0A] dat]) @ sse_events [] lines
      else sse_events (if fst (line_field line) = ''data'' then dat @ [snd (line_field line)] else dat) lines)"

fun write_events :: "'w relay_lib \<Rightarrow> string \<Rightarrow> string list \<Rightarrow> relay \<Rightarrow> relay \<times> (bridge_error, unit) result option" where
  "write_events wl rid [] r = (r, None)"
| "write_events wl rid (d # ds) r =
     (case relay_write wl r d of
        (r', Inl e) \<Rightarrow> (r', Some (Inl e))
      | (r', Inr m) \<Rightarrow> if is_response rid m then (r', Some (Inr ())) else write_events wl rid ds r')"

definition stream_end :: "string \<Rightarrow> bridge_error option \<Rightarrow> (bridge_error, unit) result" where
  "stream_end rid err =
     (case err of
        Some e \<Rightarrow> Inl (StreamRead e)
      | None \<Rightarrow> if rid \<noteq> [] then Inl (BridgeError ''MCP response stream ended before its response'') else Inr ())"

lemma line_value_length: "length (snd (line_field line)) \<le> length line"
proof -
  have t: "length (trim_prefix x p) \<le> length x" for x p :: string by (simp add: trim_prefix_def)
  have "length (tl (dropWhile P line)) \<le> length line" for P
    using length_dropWhile_le[of P line] by simp
  then show ?thesis unfolding line_field_def snd_conv using t le_trans by blast
qed

lemma sse_reference:
  assumes "seSize s + sum_list (map (\<lambda>l. Suc (length l)) lines) \<le> maxMessageBytes"
  shows "\<exists>s'. sse_loop wl rid err lines s r =
    (fst (write_events wl rid (sse_events (seData s) lines) r), s',
     clamp_some (snd (write_events wl rid (sse_events (seData s) lines) r)) (stream_end rid err))"
  using assms
proof (induction lines arbitrary: s r)
  case Nil
  then show ?case by (simp add: stream_end_def)
next
  case (Cons line lines)
  let ?join = "join [CHR 0x0A] (seData s)"
  show ?case
  proof (cases "line = []")
    case True
    have small: "seSize (s\<lparr>seData := [], seSize := 0, seDelivered := b\<rparr>) + sum_list (map (\<lambda>l. Suc (length l)) lines) \<le> maxMessageBytes"
      for b using Cons.prems by simp
    show ?thesis
    proof (cases "?join = []")
      case empty: True
      from Cons.IH[of "s\<lparr>seData := [], seSize := 0\<rparr>" r] Cons.prems show ?thesis using True empty by simp
    next
      case full: False
      obtain r1 x where w: "relay_write wl r ?join = (r1, x)" by force
      show ?thesis
      proof (cases x)
        case (Inr m)
        then show ?thesis
          using Cons.IH[OF small[of True], of r1] True full w by (cases "is_response rid m") simp_all
      qed (use True full w in simp)
    qed
  next
    case False
    obtain f v where fv: "line_field line = (f, v)" by force
    have "length v \<le> length line" using line_value_length[of line] fv by simp
    then have len: "\<not> maxMessageBytes < seSize s + length v + 1" using Cons.prems by simp
    show ?thesis
    proof (cases "f = ''data''")
      case data: True
      let ?s = "s\<lparr>seSize := seSize s + length v + 1, seData := seData s @ [v]\<rparr>"
      have "seSize ?s + sum_list (map (\<lambda>l. Suc (length l)) lines) \<le> maxMessageBytes"
        using Cons.prems \<open>length v \<le> length line\<close> by simp
      from Cons.IH[OF this, of r] show ?thesis using False fv len data by (simp add: sse_line_def)
    next
      case other: False
      define s2 where "s2 = (if f = ''id'' \<and> \<not> contains_char v (CHR 0x00) then s\<lparr>seLast := v\<rparr> else s)"
      have l: "sse_line s line = Inr s2" using fv other by (simp add: sse_line_def s2_def)
      have s2: "seSize s2 = seSize s" "seData s2 = seData s" by (simp_all add: s2_def)
      have "seSize s2 + sum_list (map (\<lambda>l. Suc (length l)) lines) \<le> maxMessageBytes"
        using Cons.prems s2 by simp
      from Cons.IH[OF this, of r] show ?thesis using False fv other l s2 by simp
    qed
  qed
qed

section \<open>Pauses\<close>

lemma listen_connect_delay:
  "listen_connect wl c ls rw = (rw', ListenAgain ls') \<Longrightarrow> lsDelay ls' = lsDelay ls \<or> lsDelay ls' = second"
  by (auto simp: listen_connect_def listen_response_def listen_stream_def Let_def split: sum.splits prod.splits if_splits)

lemma listen_loop_pauses:
  assumes "listen_loop n wl c ls rw = (rw', ds, e)" "second \<le> lsDelay ls" "lsDelay ls \<le> 30 * second"
  shows "list_all (\<lambda>d. second \<le> d \<and> d \<le> 30 * second) ds
    \<and> (ds \<noteq> [] \<longrightarrow> hd ds = lsDelay ls \<or> hd ds = second)
    \<and> (\<forall>i. Suc i < length ds \<longrightarrow> ds ! Suc i = second \<or> ds ! Suc i = min (ds ! i * 2) (30 * second))"
  using assms
proof (induction n arbitrary: ls rw ds rw' e)
  case (Suc n)
  have sec: "0 < second" by simp
  obtain rw1 x where c: "listen_connect wl c ls rw = (rw1, x)" by (metis prod.exhaust)
  show ?case
  proof (cases x)
    case (ListenEnd q)
    then show ?thesis using Suc.prems(1) c by auto
  next
    case (ListenAgain ls1)
    have d1: "lsDelay ls1 = lsDelay ls \<or> lsDelay ls1 = second" using listen_connect_delay c ListenAgain by blast
    then have b1: "second \<le> lsDelay ls1" "lsDelay ls1 \<le> 30 * second" using Suc.prems(2,3) sec by auto
    let ?d = "min (lsDelay ls1 * 2) (30 * second)"
    have b2: "second \<le> ?d" "?d \<le> 30 * second" using b1 sec by auto
    obtain env b where s: "wlSleep wl (lsDelay ls1) (bwEnv (snd rw1)) = (env, b)" by force
    show ?thesis
    proof (cases b)
      case True
      then have "ds = [lsDelay ls1]" using Suc.prems(1) c ListenAgain s by (simp add: Let_def)
      then show ?thesis using b1 d1 by simp
    next
      case False
      obtain rw3 es q where l: "listen_loop n wl c (ls1\<lparr>lsDelay := ?d\<rparr>) (fst rw1, (snd rw1)\<lparr>bwEnv := env\<rparr>) = (rw3, es, q)"
        by (metis prod.exhaust)
      have ds: "ds = lsDelay ls1 # es" using Suc.prems(1) c ListenAgain s False l by (simp add: Let_def)
      have ih: "list_all (\<lambda>d. second \<le> d \<and> d \<le> 30 * second) es" "es \<noteq> [] \<longrightarrow> hd es = ?d \<or> hd es = second"
        "\<forall>i. Suc i < length es \<longrightarrow> es ! Suc i = second \<or> es ! Suc i = min (es ! i * 2) (30 * second)"
        using Suc.IH[OF l] b2 by simp_all
      have "ds ! Suc i = second \<or> ds ! Suc i = min (ds ! i * 2) (30 * second)" if "Suc i < length ds" for i
        using that ih(2,3) unfolding ds by (cases i) (auto simp: hd_conv_nth)
      then show ?thesis using ih(1) b1 d1 unfolding ds by simp
    qed
  qed
qed simp

end
