(* ===== verification/BridgeProperties.thy ===== *)
theory BridgeProperties
  imports BridgeRelay
begin

text \<open>
  Properties of the credential bridge: where credentials go, what the keystore holds, and how messages are relayed.
\<close>

section \<open>A small machine\<close>

text \<open>
  For the witnesses: the keystore holds the credential of \<^verbatim>\<open>https://edge/notes\<close>, and is the whole state of the machine.  The
  server answers every request with one status.
\<close>

definition bx_url :: parsed_url where
  "bx_url = \<lparr>uScheme = ''https'', uHost = ''edge'', uHostname = ''edge'', uPort = [], uPath = ''/notes'',
     uRawQuery = [], uFragment = [], uUser = False, uAbs = True\<rparr>"

definition bx_token :: "string \<Rightarrow> oauth_token" where
  "bx_token a = \<lparr>otAccess = a, otType = ''bearer'', otRefresh = ''r'' @ a, otExpiry = 0\<rparr>"

definition bx_credential :: "string \<Rightarrow> credential" where
  "bx_credential a =
     \<lparr>cbResource = ''https://edge/notes'', cbIssuer = ''https://edge'', cbTokenEndpoint = ''https://edge/token'',
      cbClientID = ''c1'', cbScope = ''mcp:notes'', cbToken = Some (bx_token a)\<rparr>"

definition bx_response :: "nat \<Rightarrow> bridge_response" where
  "bx_response status = \<lparr>bpStatus = status, bpHeaders = [], bpBody = Inr [], bpLines = ([], None)\<rparr>"

definition bx_tool :: "string list \<Rightarrow> string \<Rightarrow> string option \<Rightarrow> string option \<times> tool_result" where
  "bx_tool args dat w =
     (if args = tool_args ''store'' ''k'' then (Some dat, ToolOk [])
      else if args = tool_args ''lookup'' ''k'' then (w, case w of None \<Rightarrow> ToolExit 1 True | Some s \<Rightarrow> ToolOk s)
      else (None, ToolOk []))"

definition bx_refresh :: "string option transport \<Rightarrow> string \<Rightarrow> string \<Rightarrow> oauth_token \<Rightarrow> string option bridge_world
    \<Rightarrow> string option bridge_world \<times> (bridge_error, oauth_token) result" where
  "bx_refresh T i endpoint t w =
     (case T \<lparr>bqMethod = POST, bqURL = endpoint, bqHeaders = [], bqBody = Some (otRefresh t), bqReplay = None\<rparr> w of
        (w', Inl e) \<Rightarrow> (w', Inl e)
      | (w', Inr _) \<Rightarrow> (w', Inr (bx_token ''a2'')))"

definition bx_lib :: "nat \<Rightarrow> string option bridge_lib" where
  "bx_lib status =
     \<lparr>blNet = \<lparr>url_parse = (\<lambda>_. Some bx_url), parse_ip = (\<lambda>_. None), lookup_ip = (\<lambda>_. Inr [])\<rparr>,
      blURLString = (\<lambda>u. ''https://edge'' @ uPath u), blEscapedPath = uPath, blLookPath = (\<lambda>t. Some t),
      blConfigDir = Inr ''/c'', blJoin = (\<lambda>a b. a @ ''/'' @ b), blMkdirAll = (\<lambda>d w. (w, None)),
      blLstat = (\<lambda>p w. Inl NotExist), blSha = (\<lambda>s. ''k''), blOpenLock = (\<lambda>p w. (w, None)),
      blTryLock = (\<lambda>w. (w, Inr True)), blWait = (\<lambda>w. (w, None)), blUnlock = (\<lambda>w. w),
      blProbe = (\<lambda>w. (w, ToolOk ''(<false>,)'')), blTool = bx_tool,
      blEncode = (\<lambda>c. if c = bx_credential ''a1'' then Some ''1'' else if c = bx_credential ''a2'' then Some ''2'' else None),
      blDecode = (\<lambda>s. if s = ''1'' then Some (bx_credential ''a1'') else if s = ''2'' then Some (bx_credential ''a2'') else None),
      blNow = (\<lambda>w. 0), blValid = (\<lambda>w t. True), blTransport = (\<lambda>q w. (w, Inr (bx_response status))),
      blParseQuery = (\<lambda>s. Some []), blForm = (\<lambda>f. ''f''), blJSON = (\<lambda>j. ''{}''), blRefresh = bx_refresh,
      blDevicePoll = (\<lambda>T i s e r d w. (w, Inl NetError)), blProtected = (\<lambda>s. None), blIssuer = (\<lambda>s. None),
      blRegistered = (\<lambda>s. None), blDevice = (\<lambda>w s. None), blPrint = (\<lambda>s w. (w, None))\<rparr>"

definition bx_client :: bridge_client where
  "bx_client = \<lparr>bcResource = ''https://edge/notes'', bcStore = \<lparr>csPath = ''/c/k'', csKey = ''k''\<rparr>\<rparr>"


definition bx_world :: "string option bridge_world" where
  "bx_world = \<lparr>bwEnv = Some ''1'', bwSent = []\<rparr>"


lemma bx_credentials_differ: "bx_credential ''a1'' \<noteq> bx_credential ''a2''"
  by (simp add: bx_credential_def bx_token_def)

lemma bx_keystore_ok: "keystore_ok (bx_lib status) ''k'' (\<lambda>w. w)"
  using bx_credentials_differ
  by (auto simp: keystore_ok_def bx_lib_def bx_tool_def tool_args_def split: option.splits if_splits)

lemma bx_edgeURL: "edgeURL (bx_lib status) bx_client u = Inr ''https://edge/notes''"
  by (simp add: edgeURL_def secureURL_def bx_lib_def bx_client_def bx_url_def same_origin_def equal_fold_def result_simps)

lemma bx_lock: "store_lock (bx_lib status) (bcStore bx_client) w = (w, Inr ())"
  by (simp add: store_lock_def bx_lib_def Let_def lock_attempts_def eval_nat_numeral)

lemma bx_unlocked: "trim_space ''(<false>,)'' = ''(<false>,)''"
  by code_simp

lemma bx_secret:
  "secret (bx_lib status) (bcStore bx_client) ''lookup'' [] (Some s) = (Some s, Inr s)"
  "secret (bx_lib status) (bcStore bx_client) ''store'' d w = (Some d, Inr [])"
  by (simp_all add: secret_def bx_lib_def bx_tool_def tool_args_def bx_client_def bx_unlocked)

lemma bx_read:
  "read_credential (bx_lib status) (bcStore bx_client) (Some ''1'') = (Some ''1'', Inr (bx_credential ''a1''))"
  "read_credential (bx_lib status) (bcStore bx_client) (Some ''2'') = (Some ''2'', Inr (bx_credential ''a2''))"
  by (simp_all add: read_credential_def bx_secret) (simp_all add: bx_lib_def)

lemma bx_bearer: "equal_fold ''bearer'' ''Bearer''"
  by code_simp

lemma bx_matches: "credential_matches bx_client (bx_credential a) \<longleftrightarrow> a \<noteq> []"
  by (simp add: credential_matches_def bx_client_def bx_credential_def bx_token_def bx_bearer)


definition bx_refreshing :: sent where
  "bx_refreshing = SentPlain \<lparr>bqMethod = POST, bqURL = ''https://edge/token'', bqHeaders = [], bqBody = Some ''f'', bqReplay = None\<rparr>"

lemma bx_token_refreshed:
  "token (bx_lib status) bx_client ''a1'' \<lparr>bwEnv = Some ''1'', bwSent = l\<rparr>
     = (\<lparr>bwEnv = Some ''2'', bwSent = l @ [bx_refreshing]\<rparr>, Inr (bx_token ''a2''))"
proof -
  have r: "refresh_token (bx_lib status) bx_client (bx_credential ''a1'') (bx_token ''a1'') \<lparr>bwEnv = Some ''1'', bwSent = l\<rparr>
      = (\<lparr>bwEnv = Some ''1'', bwSent = l @ [bx_refreshing]\<rparr>, Inr (Some (bx_credential ''a2''), bx_token ''a2''))"
    by (simp add: refresh_token_def bx_lib_def bx_refresh_def bx_credential_def bx_token_def resourceTransport_def send_plain_def
      on_env_def bx_refreshing_def bx_client_def bx_bearer)
  have e: "blEncode (bx_lib status) (bx_credential ''a2'') = Some ''2''" "blUnlock (bx_lib status) w = w"
    "the (cbToken (bx_credential ''a1'')) = bx_token ''a1''" "otAccess (bx_token ''a1'') = ''a1''" for w
    using bx_credentials_differ by (auto simp: bx_lib_def bx_credential_def bx_token_def)
  show ?thesis
    by (simp add: token_def store_update_def store_changed_def on_env_def bx_lock bx_read token_change_def bx_matches bx_edgeURL
      e r bx_secret)
qed




section \<open>Credentials\<close>



text \<open>
  Property C26: the token that the bridge uses is at that moment the one of the keystore, under the resource of the bridge:
  a token that was refreshed has replaced the previous one there before it is used.
\<close>

theorem token_is_kept_first:
  assumes "keystore_ok lib (csKey (bcStore c)) content" "token lib c rejected w = (w', Inr t)"
  shows "\<exists>dat st. content (bwEnv w') = Some dat \<and> blDecode lib dat = Some st \<and> cbResource st = bcResource c
    \<and> cbToken st = Some t \<and> otAccess t \<noteq> [] \<and> equal_fold (otType t) ''Bearer''"
  using token_stored[OF assms] .

theorem token_is_kept_first_witness:
  "\<exists>dat st. bwEnv \<lparr>bwEnv = Some ''2'', bwSent = [bx_refreshing]\<rparr> = Some dat \<and> blDecode (bx_lib 200) dat = Some st
     \<and> cbResource st = bcResource bx_client \<and> cbToken st = Some (bx_token ''a2'') \<and> otAccess (bx_token ''a2'') \<noteq> []
     \<and> equal_fold (otType (bx_token ''a2'')) ''Bearer''"
proof (rule token_is_kept_first)
  show "keystore_ok (bx_lib 200) (csKey (bcStore bx_client)) (\<lambda>w. w)" using bx_keystore_ok by (simp add: bx_client_def)
  show "token (bx_lib 200) bx_client ''a1'' \<lparr>bwEnv = Some ''1'', bwSent = []\<rparr>
      = (\<lparr>bwEnv = Some ''2'', bwSent = [bx_refreshing]\<rparr>, Inr (bx_token ''a2''))"
    using bx_token_refreshed[of 200 "[]"] by simp
qed

section \<open>A small relay\<close>

text \<open>
  For the witnesses: every text is one message, an answer to the request \<^verbatim>\<open>1\<close> if it is \<^verbatim>\<open>{1}\<close>, and nothing interrupts.
\<close>

definition bx_wire :: "string \<Rightarrow> wire_message" where
  "bx_wire d = \<lparr>wmJSONRPC = ''2.0'', wmID = (if d = ''{1}'' then ''1'' else []), wmMethod = (if d = ''{1}'' then [] else ''note''),
     wmParams = [], wmResult = []\<rparr>"

definition bx_relay_lib :: "nat \<Rightarrow> string option relay_lib" where
  "bx_relay_lib status =
     \<lparr>wlBridge = bx_lib status, wlWire = (\<lambda>d. Some (bx_wire d)), wlParams = (\<lambda>p. ([], [])), wlResult = (\<lambda>s. None),
      wlCompact = Some, wlMediaType = (\<lambda>t. t), wlWrite = (\<lambda>out line. None), wlCancelled = (\<lambda>w. False),
      wlSleep = (\<lambda>d w. (w, False))\<rparr>"

definition bx_relay :: relay where
  "bx_relay = \<lparr>ryEndpoint = ''https://edge/notes'', rySession = ''s1'', ryVersion = [], ryInitializeID = [], ryOutput = [],
     ryListening = False\<rparr>"




section \<open>Messages\<close>







text \<open>
  Property C30: whatever the service answers, the pauses between the connections for notifications are between one and thirty
  seconds; the first is one second, and each further one is one second or twice the previous one, up to thirty seconds.
\<close>

theorem pauses_are_bounded:
  assumes "listen_loop n wl c listen_start rw = (rw', ds, e)"
  shows "list_all (\<lambda>d. second \<le> d \<and> d \<le> 30 * second) ds \<and> (ds \<noteq> [] \<longrightarrow> hd ds = second)
    \<and> (\<forall>i. Suc i < length ds \<longrightarrow> ds ! Suc i = second \<or> ds ! Suc i = min (ds ! i * 2) (30 * second))"
  using listen_loop_pauses[OF assms] by (simp add: listen_start_def)

definition bx_busy :: "relay \<times> string option bridge_world \<Rightarrow> bool" where
  "bx_busy rw = (bwEnv (snd rw) = Some ''1'' \<and> fst rw = bx_relay)"

lemma bx_busy_connect:
  assumes "bx_busy rw"
  shows "\<exists>rw'. listen_connect (bx_relay_lib 503) bx_client ls rw = (rw', ListenAgain ls) \<and> bx_busy rw'"
proof -
  obtain l where rw: "rw = (bx_relay, \<lparr>bwEnv = Some ''1'', bwSent = l\<rparr>)"
    using assms by (cases rw, cases "snd rw") (auto simp: bx_busy_def)
  have t: "token (bx_lib 503) bx_client [] \<lparr>bwEnv = Some ''1'', bwSent = l\<rparr> = (\<lparr>bwEnv = Some ''1'', bwSent = l\<rparr>, Inr (bx_token ''a1''))"
    by (simp add: token_def store_update_def store_changed_def on_env_def bx_lock bx_read token_change_def
      bx_matches bx_edgeURL) (simp add: bx_lib_def bx_credential_def)
  have s: "\<exists>q. send_with (bx_lib 503) (bx_token ''a1'') False (listen_request bx_relay ls) \<lparr>bwEnv = Some ''1'', bwSent = l\<rparr>
      = (\<lparr>bwEnv = Some ''1'', bwSent = l @ [q]\<rparr>, Inr (bx_response 503))"
    by (simp add: send_with_def with_token_def send_credential_def on_env_def bx_lib_def result_simps)
  have u: "bqURL (listen_request bx_relay ls) = bcResource bx_client" "bpStatus (bx_response 503) = 503"
    by (simp_all add: listen_request_def bx_relay_def bx_client_def bx_response_def Let_def)
  show ?thesis
    using s t u unfolding rw listen_connect_def client_Do_def authorizedTransport_def
    by (auto simp: bx_relay_lib_def listen_response_def transient_status_def bx_busy_def)
qed

fun doubled :: "nat \<Rightarrow> duration \<Rightarrow> duration list" where
  "doubled 0 d = []"
| "doubled (Suc n) d = d # doubled n (min (d * 2) (30 * second))"

lemma bx_busy_loop:
  "bx_busy rw \<Longrightarrow> fst (snd (listen_loop n (bx_relay_lib 503) bx_client ls rw)) = doubled n (lsDelay ls)"
proof (induction n arbitrary: rw ls)
  case (Suc n)
  from bx_busy_connect[OF Suc.prems, of ls]
  obtain rw' where c: "listen_connect (bx_relay_lib 503) bx_client ls rw = (rw', ListenAgain ls)" "bx_busy rw'" by blast
  have s: "wlSleep (bx_relay_lib 503) d w = (w, False)" for d w by (simp add: bx_relay_lib_def)
  have "bx_busy (fst rw', (snd rw')\<lparr>bwEnv := bwEnv (snd rw')\<rparr>)" using c(2) by (simp add: bx_busy_def)
  moreover obtain rw2 ds e where l: "listen_loop n (bx_relay_lib 503) bx_client
      (ls\<lparr>lsDelay := min (lsDelay ls * 2) (30 * second)\<rparr>) (fst rw', (snd rw')\<lparr>bwEnv := bwEnv (snd rw')\<rparr>) = (rw2, ds, e)"
    by (metis prod.exhaust)
  ultimately have "ds = doubled n (min (lsDelay ls * 2) (30 * second))"
    using Suc.IH[of "(fst rw', (snd rw')\<lparr>bwEnv := bwEnv (snd rw')\<rparr>)" "ls\<lparr>lsDelay := min (lsDelay ls * 2) (30 * second)\<rparr>"]
    by simp
  then show ?case using c(1) s l by (simp add: Let_def)
qed simp

theorem pauses_are_bounded_witness:
  "\<exists>ds. ds = map (\<lambda>n. n * second) [1, 2, 4, 8, 16, 30, 30]
     \<and> list_all (\<lambda>d. second \<le> d \<and> d \<le> 30 * second) ds \<and> (ds \<noteq> [] \<longrightarrow> hd ds = second)
     \<and> (\<forall>i. Suc i < length ds \<longrightarrow> ds ! Suc i = second \<or> ds ! Suc i = min (ds ! i * 2) (30 * second))"
proof -
  obtain rw' ds e where l: "listen_loop 7 (bx_relay_lib 503) bx_client listen_start (bx_relay, bx_world) = (rw', ds, e)"
    by (metis prod.exhaust)
  have "bx_busy (bx_relay, bx_world)" by (simp add: bx_busy_def bx_world_def)
  from bx_busy_loop[OF this, of 7 listen_start] have "ds = map (\<lambda>n. n * second) [1, 2, 4, 8, 16, 30, 30]"
    using l by (simp add: listen_start_def eval_nat_numeral)
  then show ?thesis using pauses_are_bounded[OF l] by blast
qed

end
