(* ===== verification/Authentik.thy ===== *)
theory Authentik
  imports Json OAuthClients Coolify ControlGrants
begin

text \<open>
  The client of the identity provider (\<^verbatim>\<open>internal/controlplane/authentik_client.go\<close>): users and groups are read page by
  page, and make up the snapshot of subjects and grants that the store is synchronised with.  Answers are decoded JSON
  values, and the OIDC and OAuth libraries, the transport and net/url are parameters.
\<close>

section \<open>Decoding\<close>

text \<open>
  The fields of a struct, beside those of type string: \<^verbatim>\<open>f\<close> is what a member of that name does to the value so far,
  \<^verbatim>\<open>None\<close> an error.
\<close>

definition struct_fold :: "string \<Rightarrow> ('a \<Rightarrow> json \<Rightarrow> 'a option) \<Rightarrow> 'a \<Rightarrow> json \<Rightarrow> 'a option" where
  "struct_fold name f a j =
     (case j of
        JNull \<Rightarrow> Some a
      | JObj ms \<Rightarrow> foldl (\<lambda>acc m. if equal_fold (fst m) name then Option.bind acc (\<lambda>x. f x (snd m)) else acc) (Some a) ms
      | _ \<Rightarrow> None)"

fun digits_value :: "nat \<Rightarrow> string \<Rightarrow> nat" where
  "digits_value n [] = n"
| "digits_value n (c # cs) = digits_value (n * 10 + (of_char c - 48)) cs"

definition is_digit :: "char \<Rightarrow> bool" where
  "is_digit c = (48 \<le> (of_char c :: nat) \<and> (of_char c :: nat) \<le> 57)"

text \<open>A number as an int64: the literal has neither fraction nor exponent, and its value fits.\<close>

definition int64_literal :: "string \<Rightarrow> int option" where
  "int64_literal s =
     (let ds = trim_prefix s ''-'';
          v = (if has_prefix s ''-'' then - int (digits_value 0 ds) else int (digits_value 0 ds)) in
      if ds \<noteq> [] \<and> list_all is_digit ds \<and> - (2 ^ 63) \<le> v \<and> v < 2 ^ 63 then Some v else None)"

definition bool_field :: "bool \<Rightarrow> json \<Rightarrow> bool option" where
  "bool_field x j = (case j of JNull \<Rightarrow> Some x | JBool b \<Rightarrow> Some b | _ \<Rightarrow> None)"

definition int_field :: "int \<Rightarrow> json \<Rightarrow> int option" where
  "int_field x j = (case j of JNull \<Rightarrow> Some x | JNum s \<Rightarrow> int64_literal s | _ \<Rightarrow> None)"

definition array_field :: "json list \<Rightarrow> json \<Rightarrow> json list option" where
  "array_field x j = (case j of JNull \<Rightarrow> Some [] | JArr xs \<Rightarrow> Some xs | _ \<Rightarrow> None)"

definition map_field :: "(string \<rightharpoonup> json) \<Rightarrow> json \<Rightarrow> (string \<rightharpoonup> json) option" where
  "map_field x j = (case j of JNull \<Rightarrow> Some Map.empty | JObj ms \<Rightarrow> Some (x ++ map_of (rev ms)) | _ \<Rightarrow> None)"

record authentik_page =
  apResults :: "json list"
  apNext :: int

definition decode_page :: "json \<Rightarrow> authentik_page option" where
  "decode_page j =
     (case (struct_fold ''results'' array_field [] j, struct_fold ''pagination'' (struct_fold ''next'' int_field) 0 j) of
        (Some rs, Some n) \<Rightarrow> Some \<lparr>apResults = rs, apNext = n\<rparr>
      | _ \<Rightarrow> None)"

text \<open>The first of the listed names that is a member.\<close>

definition raw_candidate :: "(string \<times> json) list \<Rightarrow> json option" where
  "raw_candidate ms =
     (case map_of (rev ms) ''pk'' of Some j \<Rightarrow> Some j
      | None \<Rightarrow> (case map_of (rev ms) ''id'' of Some j \<Rightarrow> Some j
      | None \<Rightarrow> (case map_of (rev ms) ''uid'' of Some j \<Rightarrow> Some j
      | None \<Rightarrow> map_of (rev ms) ''uuid'')))"

lemma raw_candidate_member: "raw_candidate ms = Some j \<Longrightarrow> \<exists>k. (k, j) \<in> set ms"
  by (auto simp: raw_candidate_def split: option.splits dest!: map_of_SomeD)

lemma member_size: "(k, j) \<in> set ms \<Longrightarrow> size j < size (JObj ms)"
  by (induction ms) auto

lemma raw_candidate_size: "raw_candidate ms = Some j \<Longrightarrow> size j < size (JObj ms)"
  using raw_candidate_member member_size by blast

text \<open>\<^verbatim>\<open>None\<close>: a value that is neither text, nor an integer, nor an object with one of these members.\<close>

function jsonRawToString :: "json \<Rightarrow> string option" where
  "jsonRawToString JNull = Some []"
| "jsonRawToString (JStr s) = Some (trim_space s)"
| "jsonRawToString (JNum s) = map_option format_int (int64_literal s)"
| "jsonRawToString (JBool b) = None"
| "jsonRawToString (JArr xs) = None"
| "jsonRawToString (JObj ms) = (case raw_candidate ms of None \<Rightarrow> None | Some j \<Rightarrow> jsonRawToString j)"
  by pat_completeness auto
termination
  by (relation "measure size") (use raw_candidate_size in auto)

definition raw_text :: "json \<Rightarrow> string" where
  "raw_text j = trim_space (clamp_some (jsonRawToString j) [])"

text \<open>The texts of the values, and how many were skipped.\<close>

definition rawSliceToStrings :: "json list \<Rightarrow> string list \<times> nat" where
  "rawSliceToStrings js =
     (let vs = filter (\<lambda>v. v \<noteq> []) (map raw_text js) in (vs, length js - length vs))"

record authentik_user =
  auPK :: string
  auUID :: string
  auUsername :: string
  auName :: string
  auEmail :: string
  auActive :: bool
  auAttributes :: "string \<rightharpoonup> json"

record authentik_group =
  agPK :: string
  agName :: string
  agUsers :: "string list"
  agAttributes :: "string \<rightharpoonup> json"

text \<open>The identifier of a user or group: the member \<^verbatim>\<open>pk\<close>, which must be a text that is not empty.\<close>

definition decode_pk :: "json \<Rightarrow> string option" where
  "decode_pk j =
     (case (case struct_member ''pk'' j of None \<Rightarrow> Some [] | Some v \<Rightarrow> jsonRawToString v) of
        None \<Rightarrow> None
      | Some s \<Rightarrow> if blank s then None else Some (trim_space s))"

definition decodeAuthentikUser :: "json \<Rightarrow> authentik_user option" where
  "decodeAuthentikUser j =
     Option.bind (struct_string ''uid'' j) (\<lambda>uid.
     Option.bind (struct_string ''username'' j) (\<lambda>username.
     Option.bind (struct_string ''name'' j) (\<lambda>nm.
     Option.bind (struct_string ''email'' j) (\<lambda>email.
     Option.bind (struct_fold ''is_active'' bool_field False j) (\<lambda>active.
     Option.bind (struct_fold ''attributes'' map_field Map.empty j) (\<lambda>attributes.
     Option.bind (decode_pk j) (\<lambda>pk.
       Some \<lparr>auPK = pk, auUID = trim_space uid, auUsername = trim_space username, auName = trim_space nm,
         auEmail = trim_space email, auActive = active, auAttributes = attributes\<rparr>)))))))"

text \<open>The references to users that are skipped are only logged.\<close>

definition decodeAuthentikGroup :: "json \<Rightarrow> (authentik_group \<times> nat) option" where
  "decodeAuthentikGroup j =
     Option.bind (struct_string ''name'' j) (\<lambda>nm.
     Option.bind (struct_fold ''users'' array_field [] j) (\<lambda>users.
     Option.bind (struct_fold ''attributes'' map_field Map.empty j) (\<lambda>attributes.
     Option.bind (decode_pk j) (\<lambda>pk.
       Some (\<lparr>agPK = pk, agName = trim_space nm, agUsers = fst (rawSliceToStrings users), agAttributes = attributes\<rparr>,
         snd (rawSliceToStrings users))))))"

section \<open>Requests\<close>

record authentik_client =
  ayIssuer :: string
  ayClientID :: string
  ayClientSecret :: string
  ayBase :: string

text \<open>
  The state: everything reached over the network, the token endpoint once it was discovered, and, for the statements, the
  requests that were sent, each with its authorization.
\<close>

record 'p authentik_state =
  asNet :: 'p
  asSource :: "string option"
  asSent :: "(string \<times> string) list"

record 'p authentik_lib =
  alProvider :: "string \<Rightarrow> 'p \<Rightarrow> 'p \<times> (string, string) result"
  alToken :: "authentik_client \<Rightarrow> string \<Rightarrow> 'p \<Rightarrow> 'p \<times> (string, string) result"
  alBuild :: "string \<Rightarrow> bool"
  alDo :: "string \<Rightarrow> string \<Rightarrow> 'p \<Rightarrow> 'p \<times> (string, http_response) result"
  alParse :: "string \<Rightarrow> json option"
  alNet :: net_lib
  alQuery :: "parsed_url \<Rightarrow> (string \<times> string) list"
  alEncode :: "(string \<times> string) list \<Rightarrow> string"
  alString :: "parsed_url \<Rightarrow> string"
  alResolve :: "parsed_url \<Rightarrow> parsed_url \<Rightarrow> parsed_url"

fun before_text :: "string \<Rightarrow> string \<Rightarrow> string" where
  "before_text sub [] = []"
| "before_text sub (c # cs) = (if has_prefix (c # cs) sub then [] else c # before_text sub cs)"

definition NewAuthentikClient :: "net_lib \<Rightarrow> string \<Rightarrow> string \<Rightarrow> string \<Rightarrow> (string, authentik_client) result" where
  "NewAuthentikClient net issuerURL clientID clientSecret =
     (if blank issuerURL then Inl ''authentik issuer url is required''
      else if blank clientID then Inl ''authentik client id is required''
      else if blank clientSecret then Inl ''authentik client secret is required''
      else case url_parse net (trim_space issuerURL) of
          None \<Rightarrow> Inl ''parse authentik issuer url''
        | Some u \<Rightarrow> Inr \<lparr>ayIssuer = trim_space issuerURL, ayClientID = trim_space clientID,
            ayClientSecret = trim_space clientSecret,
            ayBase = uScheme u @ ''://'' @ uHost u @ before_text ''/application/o/'' (if suffix ''/'' (uPath u) then butlast (uPath u) else uPath u)
              @ ''/api/v3''\<rparr>)"

definition ensureTokenSource :: "'p authentik_lib \<Rightarrow> authentik_client \<Rightarrow> 'p authentik_state
    \<Rightarrow> 'p authentik_state \<times> (call_error, string) result" where
  "ensureTokenSource lib c st =
     (case asSource st of
        Some endpoint \<Rightarrow> (st, Inr endpoint)
      | None \<Rightarrow>
         (case alProvider lib (ayIssuer c) (asNet st) of
            (p, Inl e) \<Rightarrow> (st\<lparr>asNet := p\<rparr>, Inl (CallError (''discover authentik oidc provider: '' @ e)))
          | (p, Inr endpoint) \<Rightarrow>
              if blank endpoint
              then (st\<lparr>asNet := p\<rparr>, Inl (CallError ''authentik oidc provider does not expose a token endpoint''))
              else (st\<lparr>asNet := p, asSource := Some endpoint\<rparr>, Inr endpoint)))"

definition authentik_send :: "'p authentik_lib \<Rightarrow> string \<Rightarrow> string \<Rightarrow> 'p authentik_state
    \<Rightarrow> 'p authentik_state \<times> (call_error, json) result" where
  "authentik_send lib tok url st =
     (if \<not> alBuild lib url then (st, Inl (CallError (''build authentik request '' @ url)))
      else case alDo lib url (''Bearer '' @ tok) (asNet st) of
          (p, r) \<Rightarrow>
            (st\<lparr>asNet := p, asSent := asSent st @ [(url, ''Bearer '' @ tok)]\<rparr>,
             case r of
               Inl e \<Rightarrow> Inl (CallError (''perform authentik request '' @ url @ '': '' @ e))
             | Inr res \<Rightarrow>
                 if \<not> status_2xx (hrStatus res)
                 then Inl (Wrapped ''authentik request failed'' (newHTTPStatusError ''GET'' url res))
                 else case alParse lib (hrBody res) of
                     None \<Rightarrow> Inl (CallError (''decode authentik response '' @ url))
                   | Some j \<Rightarrow> Inr j))"

definition authentik_doJSON :: "'p authentik_lib \<Rightarrow> authentik_client \<Rightarrow> string \<Rightarrow> 'p authentik_state
    \<Rightarrow> 'p authentik_state \<times> (call_error, json) result" where
  "authentik_doJSON lib c url st =
     (case ensureTokenSource lib c st of
        (st1, Inl e) \<Rightarrow> (st1, Inl e)
      | (st1, Inr endpoint) \<Rightarrow>
         (case alToken lib c endpoint (asNet st1) of
            (p, Inl e) \<Rightarrow> (st1\<lparr>asNet := p\<rparr>, Inl (CallError (''fetch authentik access token: '' @ e)))
          | (p, Inr tok) \<Rightarrow> authentik_send lib tok url (st1\<lparr>asNet := p\<rparr>)))"

section \<open>Pages\<close>

definition sameOrigin :: "parsed_url \<Rightarrow> parsed_url \<Rightarrow> bool" where
  "sameOrigin left right = (equal_fold (uScheme left) (uScheme right) \<and> equal_fold (uHost left) (uHost right))"

definition empty_url :: parsed_url where
  "empty_url = \<lparr>uScheme = [], uHost = [], uHostname = [], uPort = [], uPath = [], uRawQuery = [], uFragment = [],
     uUser = False, uAbs = False\<rparr>"

definition parsedBaseURL :: "net_lib \<Rightarrow> string \<Rightarrow> parsed_url" where
  "parsedBaseURL net raw = (case url_parse net raw of None \<Rightarrow> empty_url | Some u \<Rightarrow> u)"

definition absolutizeURL :: "'p authentik_lib \<Rightarrow> string \<Rightarrow> string \<Rightarrow> (call_error, string) result" where
  "absolutizeURL lib baseURL nextURL =
     (let trimmed = trim_space nextURL in
      if trimmed = [] then Inr []
      else case url_parse (alNet lib) trimmed of
          None \<Rightarrow> Inl (CallError ''parse next page url'')
        | Some u \<Rightarrow>
            if uAbs u
            then (if \<not> sameOrigin (parsedBaseURL (alNet lib) baseURL) u
                  then Inl (CallError ''refusing cross-origin pagination url'') else Inr (alString lib u))
            else (case url_parse (alNet lib) baseURL of
                None \<Rightarrow> Inl (CallError ''parse base url'')
              | Some b \<Rightarrow>
                  let r = alResolve lib b u in
                  if \<not> sameOrigin b r then Inl (CallError ''refusing cross-origin pagination url'')
                  else Inr (alString lib r)))"

text \<open>\<^verbatim>\<open>url.Values.Set\<close>; encoding sorts by name, so that the order of the names does not matter.\<close>

definition set_query :: "string \<Rightarrow> string \<Rightarrow> (string \<times> string) list \<Rightarrow> (string \<times> string) list" where
  "set_query k v q = filter (\<lambda>(k', _). k' \<noteq> k) q @ [(k, v)]"

definition nextAuthentikPageURL :: "'p authentik_lib \<Rightarrow> string \<Rightarrow> string \<Rightarrow> int \<Rightarrow> (call_error, string) result" where
  "nextAuthentikPageURL lib apiBaseURL currentURL nextPage =
     (if nextPage \<le> 0 then Inr []
      else case url_parse (alNet lib) currentURL of
          None \<Rightarrow> Inl (CallError ''parse authentik pagination request url'')
        | Some u \<Rightarrow> absolutizeURL lib apiBaseURL (alString lib
            (u\<lparr>uRawQuery := alEncode lib (set_query ''page'' (format_int nextPage) (alQuery lib u))\<rparr>)))"

text \<open>
  The loop of \<^verbatim>\<open>ListUsers\<close> and \<^verbatim>\<open>ListGroups\<close>, for at most \<^verbatim>\<open>n\<close> pages: \<^verbatim>\<open>None\<close> if there are more.  An item that does not
  decode is logged and skipped.
\<close>

fun list_pages :: "nat \<Rightarrow> 'p authentik_lib \<Rightarrow> authentik_client \<Rightarrow> (json \<Rightarrow> 'a option) \<Rightarrow> string \<Rightarrow> 'a list
    \<Rightarrow> 'p authentik_state \<Rightarrow> 'p authentik_state \<times> (call_error, 'a list) result option" where
  "list_pages n lib c dec [] items st = (st, Some (Inr items))"
| "list_pages 0 lib c dec url items st = (st, None)"
| "list_pages (Suc n) lib c dec url items st =
     (case authentik_doJSON lib c url st of
        (st1, Inl e) \<Rightarrow> (st1, Some (Inl e))
      | (st1, Inr j) \<Rightarrow>
         (case decode_page j of
            None \<Rightarrow> (st1, Some (Inl (CallError (''decode authentik response '' @ url))))
          | Some page \<Rightarrow>
             (case nextAuthentikPageURL lib (ayBase c) url (apNext page) of
                Inl e \<Rightarrow> (st1, Some (Inl e))
              | Inr url' \<Rightarrow> list_pages n lib c dec url' (items @ List.map_filter dec (apResults page)) st1)))"

definition ListUsers :: "nat \<Rightarrow> 'p authentik_lib \<Rightarrow> authentik_client \<Rightarrow> 'p authentik_state
    \<Rightarrow> 'p authentik_state \<times> (call_error, authentik_user list) result option" where
  "ListUsers n lib c = list_pages n lib c decodeAuthentikUser (ayBase c @ ''/core/users/'') []"

definition ListGroups :: "nat \<Rightarrow> 'p authentik_lib \<Rightarrow> authentik_client \<Rightarrow> 'p authentik_state
    \<Rightarrow> 'p authentik_state \<times> (call_error, authentik_group list) result option" where
  "ListGroups n lib c = list_pages n lib c (\<lambda>j. map_option fst (decodeAuthentikGroup j)) (ayBase c @ ''/core/groups/'') []"

section \<open>The snapshot\<close>

definition SubjectSubFromAuthentikUser :: "authentik_user \<Rightarrow> string" where
  "SubjectSubFromAuthentikUser u =
     (case auAttributes u ''sub'' of
        Some (JStr s) \<Rightarrow> if \<not> blank s then trim_space s
          else if \<not> blank (auUID u) then trim_space (auUID u)
          else if \<not> blank (auPK u) then ''authentik|'' @ trim_space (auPK u) else []
      | _ \<Rightarrow> if \<not> blank (auUID u) then trim_space (auUID u)
          else if \<not> blank (auPK u) then ''authentik|'' @ trim_space (auPK u) else [])"

text \<open>
  The services that a list of groups gives, each with its group, and the groups that were ignored.  A Go map has no
  order; here its entries are in the order of their insertion.
\<close>

definition add_missing :: "string \<Rightarrow> (string \<times> string) list \<Rightarrow> string \<Rightarrow> (string \<times> string) list" where
  "add_missing grp grants sid = (if map_of grants sid = None then put sid grp grants else grants)"

definition derive_step :: "string list \<Rightarrow> (string \<times> string) list \<times> string list \<Rightarrow> string
    \<Rightarrow> (string \<times> string) list \<times> string list" where
  "derive_step supported acc raw =
     (let grp = trim_space raw; sid = trim_prefix grp ''mcp-service-'' in
      if grp = [] then acc
      else if grp = ''mcp-admin'' then (foldl (add_missing grp) (fst acc) supported, snd acc)
      else if \<not> has_prefix grp ''mcp-service-'' then acc
      else if sid = [] then acc
      else if sid \<notin> set supported then (fst acc, snd acc @ [grp])
      else (put sid grp (fst acc), snd acc))"

definition deriveServiceGrants :: "string list \<Rightarrow> string list \<Rightarrow> (string \<times> string) list \<times> string list" where
  "deriveServiceGrants groupNames supported = foldl (derive_step supported) ([], []) groupNames"

definition group_memberships :: "authentik_group list \<Rightarrow> string \<Rightarrow> string list" where
  "group_memberships groups pk = concat (map (\<lambda>g. map (\<lambda>_. agName g) (filter (\<lambda>u. u = pk) (agUsers g))) groups)"

record snapshot_state =
  ssSubjects :: "domain_subject list"
  ssGrants :: "service_grant list"
  ssSeen :: "string list"

definition grant_text_key :: "string \<Rightarrow> string \<Rightarrow> string" where
  "grant_text_key sub sid = sub @ [CHR 0x00] @ sid"

definition add_grant :: "time \<Rightarrow> string \<Rightarrow> snapshot_state \<Rightarrow> string \<times> string \<Rightarrow> snapshot_state" where
  "add_grant now sub s sg =
     (let k = grant_text_key sub (fst sg) in
      if k \<in> set (ssSeen s) then s
      else s\<lparr>ssSeen := ssSeen s @ [k], ssGrants := ssGrants s @ [\<lparr>sgSubject = sub, sgService = fst sg, sgGroup = snd sg,
        sgGrantedAt = now, sgSyncedAt = now\<rparr>]\<rparr>)"

definition subject_of_user :: "(string \<Rightarrow> string) \<Rightarrow> authentik_user \<Rightarrow> domain_subject" where
  "subject_of_user key u =
     \<lparr>dsSub = SubjectSubFromAuthentikUser u, dsKey = key (SubjectSubFromAuthentikUser u), dsPreferredUsername = auUsername u,
      dsEmail = auEmail u, dsDisplayName = auName u, dsAccountBindingID = [], dsAccountBindingClaim = []\<rparr>"

text \<open>\<^verbatim>\<open>key\<close> is \<^const>\<open>DeriveSubjectKey\<close>, and \<^verbatim>\<open>members\<close> the map from users to the names of their groups.\<close>

definition add_user :: "(string \<Rightarrow> string) \<Rightarrow> time \<Rightarrow> (string \<Rightarrow> string list) \<Rightarrow> string list \<Rightarrow> snapshot_state
    \<Rightarrow> authentik_user \<Rightarrow> snapshot_state" where
  "add_user key now members supported s u =
     (let sub = SubjectSubFromAuthentikUser u in
      if sub = [] \<or> sub \<in> set (map dsSub (ssSubjects s)) then s
      else let s1 = s\<lparr>ssSubjects := ssSubjects s @ [subject_of_user key u]\<rparr> in
        if \<not> auActive u then s1
        else foldl (add_grant now sub) s1 (fst (deriveServiceGrants (members (auPK u)) supported)))"

definition snapshot_of :: "(string \<Rightarrow> string) \<Rightarrow> time \<Rightarrow> authentik_group list \<Rightarrow> string list \<Rightarrow> authentik_user list
    \<Rightarrow> snapshot_state" where
  "snapshot_of key now groups supported users =
     foldl (add_user key now (group_memberships groups) supported) \<lparr>ssSubjects = [], ssGrants = [], ssSeen = []\<rparr> users"

definition buildGrantSnapshot :: "nat \<Rightarrow> 'p authentik_lib \<Rightarrow> authentik_client \<Rightarrow> (string \<Rightarrow> string) \<Rightarrow> time \<Rightarrow> string list
    \<Rightarrow> 'p authentik_state \<Rightarrow> 'p authentik_state \<times> (call_error, domain_subject list \<times> service_grant list) result option" where
  "buildGrantSnapshot n lib c key now supported st =
     (case ListUsers n lib c st of
        (st1, None) \<Rightarrow> (st1, None)
      | (st1, Some (Inl e)) \<Rightarrow> (st1, Some (Inl e))
      | (st1, Some (Inr users)) \<Rightarrow>
         (case ListGroups n lib c st1 of
            (st2, None) \<Rightarrow> (st2, None)
          | (st2, Some (Inl e)) \<Rightarrow> (st2, Some (Inl e))
          | (st2, Some (Inr groups)) \<Rightarrow>
              (st2, Some (Inr (ssSubjects (snapshot_of key now groups supported users),
                 ssGrants (snapshot_of key now groups supported users))))))"

text \<open>The outcomes: the listing of the services fails, the client, or the store.\<close>

datatype sync_error = SyncCall call_error | SyncStoreError store_error

definition SyncStore :: "nat \<Rightarrow> 'p authentik_lib \<Rightarrow> authentik_client \<Rightarrow> (string \<Rightarrow> string) \<Rightarrow> db_error option \<Rightarrow> db_error option
    \<Rightarrow> control_clock \<Rightarrow> control_db \<times> 'p authentik_state
    \<Rightarrow> (control_db \<times> 'p authentik_state) \<times> (sync_error, unit) result option" where
  "SyncStore n lib c key listing fault clock s =
     (case listing of
        Some e \<Rightarrow> (s, Some (Inl (SyncStoreError (StoreDb e))))
      | None \<Rightarrow>
         (case buildGrantSnapshot n lib c key (cnTime clock) (q_ListEnabledServiceIDs (cdCatalog (fst s))) (snd s) of
            (st, None) \<Rightarrow> ((fst s, st), None)
          | (st, Some (Inl e)) \<Rightarrow> ((fst s, st), Some (Inl (SyncCall e)))
          | (st, Some (Inr (subjects, grants))) \<Rightarrow>
             (case SyncSubjectGrantSnapshot fault clock (fst s) subjects grants of
                (db, Inl e) \<Rightarrow> ((db, st), Some (Inl (SyncStoreError e)))
              | (db, Inr _) \<Rightarrow> ((db, st), Some (Inr ())))))"

section \<open>Where requests go\<close>

text \<open>A request goes to the first page of a list, or to an address of the same origin.\<close>

definition page_url :: "'p authentik_lib \<Rightarrow> authentik_client \<Rightarrow> string \<Rightarrow> bool" where
  "page_url lib c url \<longleftrightarrow> url \<in> {ayBase c @ ''/core/users/'', ayBase c @ ''/core/groups/''}
     \<or> (\<exists>u. url = alString lib u \<and> sameOrigin (parsedBaseURL (alNet lib) (ayBase c)) u)"

definition pages_only :: "'p authentik_lib \<Rightarrow> authentik_client \<Rightarrow> 'p authentik_state \<Rightarrow> 'p authentik_state \<Rightarrow> bool" where
  "pages_only lib c st st' \<longleftrightarrow> (\<exists>xs. asSent st' = asSent st @ xs \<and> list_all (\<lambda>x. page_url lib c (fst x)) xs)"

lemma pages_only_refl [simp]: "pages_only lib c st st"
  by (simp add: pages_only_def)

lemma pages_only_trans: "pages_only lib c a b \<Longrightarrow> pages_only lib c b d \<Longrightarrow> pages_only lib c a d"
  unfolding pages_only_def by force

lemma ensureTokenSource_sent: "asSent (fst (ensureTokenSource lib c st)) = asSent st"
  by (auto simp: ensureTokenSource_def split: option.split prod.split sum.split)

lemma authentik_send_pages: "page_url lib c url \<Longrightarrow> pages_only lib c st (fst (authentik_send lib tok url st))"
  by (auto simp: authentik_send_def pages_only_def split: prod.split)

lemma pages_only_sent: "asSent w = asSent st \<Longrightarrow> pages_only lib c w v \<Longrightarrow> pages_only lib c st v"
  by (simp add: pages_only_def)

lemma doJSON_pages:
  assumes "page_url lib c url"
  shows "pages_only lib c st (fst (authentik_doJSON lib c url st))"
proof -
  obtain st1 r where e: "ensureTokenSource lib c st = (st1, r)" by force
  have s: "asSent st1 = asSent st" using ensureTokenSource_sent[of lib c st] e by simp
  have "pages_only lib c st (fst (authentik_send lib tok url (st1\<lparr>asNet := p\<rparr>)))" for tok p
    by (rule pages_only_sent[OF _ authentik_send_pages[OF assms]]) (simp add: s)
  moreover have "pages_only lib c st st1" "pages_only lib c st (st1\<lparr>asNet := p\<rparr>)" for p using s by (simp_all add: pages_only_def)
  ultimately show ?thesis using e by (auto simp: authentik_doJSON_def split: sum.split prod.split)
qed

lemma next_page_url: "nextAuthentikPageURL lib (ayBase c) url k = Inr url' \<Longrightarrow> url' \<noteq> [] \<Longrightarrow> page_url lib c url'"
  unfolding nextAuthentikPageURL_def absolutizeURL_def page_url_def Let_def
  by (auto simp: parsedBaseURL_def split: if_splits option.splits)

lemma list_pages_only:
  "url = [] \<or> page_url lib c url \<Longrightarrow> pages_only lib c st (fst (list_pages n lib c dec url items st))"
proof (induction n lib c dec url items st rule: list_pages.induct)
  case (3 n lib c dec v va items st)
  let ?url = "v # va"
  have p: "page_url lib c ?url" using 3(2) by simp
  obtain st1 r where d: "authentik_doJSON lib c ?url st = (st1, r)" by force
  have s1: "pages_only lib c st st1" using doJSON_pages[OF p, of st] d by simp
  show ?case
  proof (cases r)
    case (Inr j)
    show ?thesis
    proof (cases "decode_page j")
      case (Some page)
      show ?thesis
      proof (cases "nextAuthentikPageURL lib (ayBase c) ?url (apNext page)")
        case (Inr url')
        have "url' = [] \<or> page_url lib c url'" using next_page_url[OF Inr] by blast
        then have "pages_only lib c st1 (fst (list_pages n lib c dec url' (items @ List.map_filter dec (apResults page)) st1))"
          using 3(1)[OF d[symmetric] \<open>r = Inr j\<close> Some Inr] by blast
        then show ?thesis using d \<open>r = Inr j\<close> Some Inr pages_only_trans[OF s1] by simp
      qed (use d Inr Some s1 in simp)
    qed (use d Inr s1 in simp)
  qed (use d s1 in simp)
qed simp_all

lemma lists_pages_only:
  "pages_only lib c st (fst (ListUsers n lib c st))" "pages_only lib c st (fst (ListGroups n lib c st))"
  unfolding ListUsers_def ListGroups_def by (rule list_pages_only, simp add: page_url_def)+

lemma buildGrantSnapshot_pages: "pages_only lib c st (fst (buildGrantSnapshot n lib c key now supported st))"
proof -
  obtain st1 r where u: "ListUsers n lib c st = (st1, r)" by force
  obtain st2 q where g: "ListGroups n lib c st1 = (st2, q)" by force
  have "pages_only lib c st st1" "pages_only lib c st1 st2"
    using lists_pages_only(1)[of lib c st n] lists_pages_only(2)[of lib c st1 n] u g by simp_all
  then show ?thesis
    using u g pages_only_trans by (auto simp: buildGrantSnapshot_def split: option.split sum.split)
qed

text \<open>More fuel changes nothing once a list is complete.\<close>

lemma list_pages_more:
  "list_pages n lib c dec url items st = (st', Some r) \<Longrightarrow> n \<le> m \<Longrightarrow> list_pages m lib c dec url items st = (st', Some r)"
proof (induction n lib c dec url items st arbitrary: m rule: list_pages.induct)
  case (1 n lib c dec items st)
  then show ?case by (cases m) simp_all
next
  case (3 n lib c dec v va items st)
  obtain m' where m: "m = Suc m'" "n \<le> m'" using 3(3) by (cases m) auto
  show ?case
    using 3(2) 3(1)[OF _ _ _ _ _ m(2)] unfolding m
    by (auto split: prod.splits sum.splits option.splits)
qed simp

section \<open>Who is granted what\<close>

text \<open>The abstract rule: a service is given by its own group, or by the group of administrators if it is supported.\<close>

definition group_gives :: "string list \<Rightarrow> string \<Rightarrow> bool" where
  "group_gives names sid \<longleftrightarrow>
     (\<exists>g \<in> set names. trim_space g = ''mcp-admin'' \<or> sid \<noteq> [] \<and> trim_space g = ''mcp-service-'' @ sid)"

lemma add_missing_keys: "map_of (foldl (add_missing g) grants ids) sid = None \<longleftrightarrow> map_of grants sid = None \<and> sid \<notin> set ids"
  by (induction ids arbitrary: grants) (auto simp: add_missing_def)

lemma add_missing_distinct: "distinct (map fst grants) \<Longrightarrow> distinct (map fst (foldl (add_missing g) grants ids))"
  by (induction ids arbitrary: grants) (auto simp: add_missing_def distinct_put)

lemma derive_step_keys:
  "map_of (fst (derive_step supported acc raw)) sid = None \<longleftrightarrow> map_of (fst acc) sid = None
     \<and> \<not> (sid \<in> set supported \<and> (trim_space raw = ''mcp-admin'' \<or> sid \<noteq> [] \<and> trim_space raw = ''mcp-service-'' @ sid))"
  unfolding derive_step_def Let_def by (auto simp: add_missing_keys trim_prefix_def prefix_def)

lemma derive_keys:
  "map_of (fst (foldl (derive_step supported) acc names)) sid = None \<longleftrightarrow> map_of (fst acc) sid = None
     \<and> \<not> (sid \<in> set supported \<and> group_gives names sid)"
  by (induction names arbitrary: acc) (auto simp: derive_step_keys group_gives_def)

lemma derive_distinct: "distinct (map fst (fst acc)) \<Longrightarrow> distinct (map fst (fst (foldl (derive_step supported) acc names)))"
proof (induction names arbitrary: acc)
  case (Cons raw names)
  have "distinct (map fst (fst (derive_step supported acc raw)))"
    using Cons.prems by (auto simp: derive_step_def Let_def add_missing_distinct distinct_put)
  then show ?case using Cons.IH by simp
qed simp

text \<open>The services that a user is given are the supported ones that a group gives, each once.\<close>

lemma derived_services:
  "fst ` set (fst (deriveServiceGrants names supported)) = {sid \<in> set supported. group_gives names sid}"
  "distinct (map fst (fst (deriveServiceGrants names supported)))"
proof -
  have "sid \<in> fst ` set (fst (deriveServiceGrants names supported)) \<longleftrightarrow> sid \<in> set supported \<and> group_gives names sid" for sid
    using derive_keys[of supported "([], [])" names sid] by (simp add: deriveServiceGrants_def map_of_eq_None_iff) blast
  then show "fst ` set (fst (deriveServiceGrants names supported)) = {sid \<in> set supported. group_gives names sid}" by blast
  show "distinct (map fst (fst (deriveServiceGrants names supported)))"
    using derive_distinct[of "([], [])"] by (simp add: deriveServiceGrants_def)
qed

lemma grant_text_key_inject:
  assumes "CHR 0x00 \<notin> set s1" "CHR 0x00 \<notin> set s2" "grant_text_key a s1 = grant_text_key b s2"
  shows "a = b \<and> s1 = s2"
proof -
  have cut: "takeWhile (\<lambda>c. c \<noteq> CHR 0x00) (rev (grant_text_key x s)) = rev s" if "CHR 0x00 \<notin> set s" for x s
    using that by (auto simp: grant_text_key_def takeWhile_append)
  have "s1 = s2" using cut[OF assms(1), of a] cut[OF assms(2), of b] assms(3) by simp
  then show ?thesis using assms(3) by (simp add: grant_text_key_def)
qed

abbreviation new_grant :: "time \<Rightarrow> string \<Rightarrow> string \<times> string \<Rightarrow> service_grant" where
  "new_grant now sub sg \<equiv> \<lparr>sgSubject = sub, sgService = fst sg, sgGroup = snd sg, sgGrantedAt = now, sgSyncedAt = now\<rparr>"

definition seen_ok :: "snapshot_state \<Rightarrow> bool" where
  "seen_ok s \<longleftrightarrow> ssSeen s = map (\<lambda>g. grant_text_key (sgSubject g) (sgService g)) (ssGrants s)
     \<and> (\<forall>g \<in> set (ssGrants s). CHR 0x00 \<notin> set (sgService g))"

lemma add_grants:
  assumes "seen_ok s" "distinct (map fst sgs)" "\<forall>sg \<in> set sgs. CHR 0x00 \<notin> set (fst sg)"
    "\<forall>g \<in> set (ssGrants s). sgSubject g = sub \<longrightarrow> sgService g \<notin> fst ` set sgs"
  shows "seen_ok (foldl (add_grant now sub) s sgs)
    \<and> ssGrants (foldl (add_grant now sub) s sgs) = ssGrants s @ map (new_grant now sub) sgs
    \<and> ssSubjects (foldl (add_grant now sub) s sgs) = ssSubjects s"
  using assms
proof (induction sgs arbitrary: s)
  case (Cons sg sgs)
  let ?s = "add_grant now sub s sg"
  have "grant_text_key sub (fst sg) \<notin> set (ssSeen s)"
  proof
    assume "grant_text_key sub (fst sg) \<in> set (ssSeen s)"
    then obtain g where g: "g \<in> set (ssGrants s)" "grant_text_key sub (fst sg) = grant_text_key (sgSubject g) (sgService g)"
      using Cons.prems(1) by (auto simp: seen_ok_def)
    then have "sub = sgSubject g \<and> fst sg = sgService g"
      using grant_text_key_inject Cons.prems(1,3) by (metis list.set_intros(1) seen_ok_def)
    then show False using Cons.prems(4) g(1) by auto
  qed
  then have s: "?s = s\<lparr>ssSeen := ssSeen s @ [grant_text_key sub (fst sg)], ssGrants := ssGrants s @ [new_grant now sub sg]\<rparr>"
    by (simp add: add_grant_def)
  have "seen_ok ?s" using Cons.prems(1,3) unfolding s by (simp add: seen_ok_def)
  moreover have "\<forall>g \<in> set (ssGrants ?s). sgSubject g = sub \<longrightarrow> sgService g \<notin> fst ` set sgs"
    using Cons.prems(2,4) unfolding s by auto
  ultimately show ?case using Cons.IH[of ?s] Cons.prems(2,3) s by simp
qed simp

text \<open>
  The abstract rule of the snapshot: the first user with an identifier decides, and is given something only if active.
\<close>

definition provider_grants :: "(string \<Rightarrow> string list) \<Rightarrow> authentik_user list \<Rightarrow> string \<Rightarrow> string \<Rightarrow> bool" where
  "provider_grants members users sub sid \<longleftrightarrow>
     sub \<noteq> [] \<and> (case find (\<lambda>u. SubjectSubFromAuthentikUser u = sub) users of
        None \<Rightarrow> False
      | Some u \<Rightarrow> auActive u \<and> group_gives (members (auPK u)) sid)"

definition snapshot_ok :: "(string \<Rightarrow> string list) \<Rightarrow> string list \<Rightarrow> authentik_user list \<Rightarrow> snapshot_state \<Rightarrow> bool" where
  "snapshot_ok members supported users s \<longleftrightarrow>
     seen_ok s \<and> distinct (map dsSub (ssSubjects s))
     \<and> dsSub ` set (ssSubjects s) = SubjectSubFromAuthentikUser ` set users - {[]}
     \<and> (\<forall>sub sid. (\<exists>g \<in> set (ssGrants s). sgSubject g = sub \<and> sgService g = sid)
          \<longleftrightarrow> sid \<in> set supported \<and> provider_grants members users sub sid)"

lemma find_snoc: "find P (xs @ [x]) = (case find P xs of None \<Rightarrow> if P x then Some x else None | Some y \<Rightarrow> Some y)"
  by (induction xs) auto

lemma add_user_ok:
  assumes "snapshot_ok members supported users s" "\<forall>sid \<in> set supported. CHR 0x00 \<notin> set sid"
  shows "snapshot_ok members supported (users @ [u]) (add_user key now members supported s u)"
proof -
  let ?sub = "SubjectSubFromAuthentikUser u"
  let ?find = "\<lambda>sub us. find (\<lambda>u. SubjectSubFromAuthentikUser u = sub) us"
  have subs: "dsSub ` set (ssSubjects s) = SubjectSubFromAuthentikUser ` set users - {[]}"
    using assms(1) by (simp add: snapshot_ok_def)
  show ?thesis
  proof (cases "?sub = [] \<or> ?sub \<in> SubjectSubFromAuthentikUser ` set users")
    case True
    have same: "add_user key now members supported s u = s" using True subs by (auto simp: add_user_def Let_def)
    have "provider_grants members (users @ [u]) sub sid = provider_grants members users sub sid" for sub sid
    proof (cases "?sub = sub \<and> sub \<noteq> []")
      case t: True
      then have "?find sub users \<noteq> None" using True by (auto simp: find_None_iff)
      then show ?thesis by (auto simp: provider_grants_def find_snoc)
    qed (auto simp: provider_grants_def find_snoc split: option.split)
    then show ?thesis using assms(1) subs True unfolding same snapshot_ok_def by auto
  next
    case False
    let ?sgs = "if auActive u then fst (deriveServiceGrants (members (auPK u)) supported) else []"
    let ?s1 = "s\<lparr>ssSubjects := ssSubjects s @ [subject_of_user key u]\<rparr>"
    have step: "add_user key now members supported s u = foldl (add_grant now ?sub) ?s1 ?sgs"
      using False subs by (auto simp: add_user_def Let_def)
    have "\<not> (\<exists>v. v \<in> set users \<and> SubjectSubFromAuthentikUser v = ?sub)" using False by (metis image_eqI)
    then have new: "?find ?sub users = None" by (simp add: find_None_iff)
    have none: "sgSubject g \<noteq> ?sub" if "g \<in> set (ssGrants s)" for g
    proof
      assume "sgSubject g = ?sub"
      then have "provider_grants members users ?sub (sgService g)" using assms(1) that unfolding snapshot_ok_def by blast
      then show False using new by (simp add: provider_grants_def)
    qed
    define F where "F = foldl (add_grant now ?sub) ?s1 ?sgs"
    have f: "seen_ok F \<and> ssGrants F = ssGrants ?s1 @ map (new_grant now ?sub) ?sgs \<and> ssSubjects F = ssSubjects ?s1"
      unfolding F_def
    proof (rule add_grants)
      show "seen_ok ?s1" using assms(1) by (simp add: snapshot_ok_def seen_ok_def)
      show "distinct (map fst ?sgs)" using derived_services(2) by simp
      show "\<forall>sg \<in> set ?sgs. CHR 0x00 \<notin> set (fst sg)" using derived_services(1) assms(2) by force
      show "\<forall>g \<in> set (ssGrants ?s1). sgSubject g = ?sub \<longrightarrow> sgService g \<notin> fst ` set ?sgs" using none by simp
    qed
    have given: "(\<exists>g \<in> set (map (new_grant now ?sub) ?sgs). sgSubject g = sub \<and> sgService g = sid)
        \<longleftrightarrow> sub = ?sub \<and> auActive u \<and> sid \<in> set supported \<and> group_gives (members (auPK u)) sid" for sub sid
    proof -
      have "(\<exists>b. (sid, b) \<in> set xs) \<longleftrightarrow> sid \<in> fst ` set xs" for xs :: "(string \<times> string) list" by force
      then show ?thesis using derived_services(1)[of "members (auPK u)" supported] by auto
    qed
    have rule: "provider_grants members (users @ [u]) sub sid \<longleftrightarrow> provider_grants members users sub sid
        \<or> sub = ?sub \<and> auActive u \<and> group_gives (members (auPK u)) sid" for sub sid
      using new False by (auto simp: provider_grants_def find_snoc split: option.split)
    have old: "(\<exists>g \<in> set (ssGrants s). sgSubject g = sub \<and> sgService g = sid)
        \<longleftrightarrow> sid \<in> set supported \<and> provider_grants members users sub sid" for sub sid
      using assms(1) by (simp add: snapshot_ok_def)
    have "(\<exists>g \<in> set (ssGrants F). sgSubject g = sub \<and> sgService g = sid)
        \<longleftrightarrow> sid \<in> set supported \<and> provider_grants members (users @ [u]) sub sid" for sub sid
    proof -
      have "set (ssGrants F) = set (ssGrants s) \<union> set (map (new_grant now ?sub) ?sgs)" using f by simp
      then have "(\<exists>g \<in> set (ssGrants F). sgSubject g = sub \<and> sgService g = sid)
          \<longleftrightarrow> (\<exists>g \<in> set (ssGrants s). sgSubject g = sub \<and> sgService g = sid)
            \<or> (\<exists>g \<in> set (map (new_grant now ?sub) ?sgs). sgSubject g = sub \<and> sgService g = sid)"
        by (simp only: bex_Un)
      then show ?thesis unfolding old given rule by blast
    qed
    moreover have "ssSubjects F = ssSubjects s @ [subject_of_user key u]" using f by simp
    moreover have "dsSub (subject_of_user key u) = ?sub" by (simp add: subject_of_user_def)
    ultimately show ?thesis
      using assms(1) f False subs unfolding step F_def[symmetric] snapshot_ok_def by auto
  qed
qed

lemma snapshot_of_ok:
  assumes "\<forall>sid \<in> set supported. CHR 0x00 \<notin> set sid"
  shows "snapshot_ok (group_memberships groups) supported users (snapshot_of key now groups supported users)"
proof (induction users rule: rev_induct)
  case Nil
  then show ?case by (simp add: snapshot_ok_def snapshot_of_def seen_ok_def provider_grants_def)
next
  case (snoc u users)
  from add_user_ok[OF this assms] show ?case by (simp add: snapshot_of_def)
qed

lemma member_of_group: "g \<in> set (group_memberships groups pk) \<longleftrightarrow> (\<exists>a \<in> set groups. agName a = g \<and> pk \<in> set (agUsers a))"
  by (auto simp: group_memberships_def)

end
