(* ===== verification/ControlServer.thy ===== *)
theory ControlServer
  imports Authentik Leases Reconciler
begin

text \<open>
  The control plane as a program (\<^verbatim>\<open>internal/controlplane/server.go\<close>): its cycle over the parts of the other theories, the
  questions for the lease before each of them, its health and readiness, its start and its loops.  Other goroutines and
  other instances act on the shared tables and on the lock in between; \<^verbatim>\<open>svOthers\<close> is what they do before each question.
\<close>

section \<open>Health\<close>

record health_state =
  hsReady :: bool
  hsDatabaseOK :: bool
  hsDatabaseError :: string
  hsReconcileError :: string
  hsLastReconcileAt :: "time option"
  hsLastSummary :: reconcile_summary

definition health_start :: health_state where
  "health_start = \<lparr>hsReady = False, hsDatabaseOK = False, hsDatabaseError = [], hsReconcileError = [],
     hsLastReconcileAt = None, hsLastSummary = empty_summary\<rparr>"

text \<open>The text of the error, if there was one.\<close>

definition setDatabaseStatus :: "string option \<Rightarrow> health_state \<Rightarrow> health_state" where
  "setDatabaseStatus err h =
     (case err of
        Some e \<Rightarrow> h\<lparr>hsDatabaseOK := False, hsDatabaseError := e, hsReady := False\<rparr>
      | None \<Rightarrow> h\<lparr>hsDatabaseOK := True, hsDatabaseError := [], hsReady := (hsReconcileError h = [])\<rparr>)"

definition setReconcileResult :: "reconcile_summary \<Rightarrow> string option \<Rightarrow> health_state \<Rightarrow> health_state" where
  "setReconcileResult summary err h =
     (let h1 = h\<lparr>hsLastSummary := summary\<rparr>;
          h2 = (if smLastRunAt summary = 0 then h1 else h1\<lparr>hsLastReconcileAt := Some (smLastRunAt summary)\<rparr>) in
      case err of
        Some e \<Rightarrow> h2\<lparr>hsReconcileError := e, hsReady := False\<rparr>
      | None \<Rightarrow> h2\<lparr>hsReconcileError := [], hsReady := hsDatabaseOK h2\<rparr>)"

definition currentError :: "health_state \<Rightarrow> string" where
  "currentError h = (if hsReconcileError h \<noteq> [] then hsReconcileError h else hsDatabaseError h)"

section \<open>The cycle\<close>

datatype app_error = NotLeader | ContextEnded string | ProviderFailed sync_error | TenantsFailed store_error | RunFailed call_error

text \<open>What a cycle did, for the statements.\<close>

datatype cycle_event = Asked bool | ProviderSynced | TenantsReconciled | CycleRun

record ('p, 'q) control_state =
  ctWorld :: "'p world"
  ctProvider :: "'q authentik_state"
  ctLeases :: lease_table
  ctLock :: "lease_lock option"
  ctHealth :: health_state
  ctAsked :: nat
  ctLog :: "cycle_event list"

text \<open>
  The parameters: the parts that were configured, the outcome of the n-th question, and of the operations of the store.
\<close>

record ('p, 'q) control_env =
  svLib :: "'q authentik_lib"
  svClient :: "authentik_client option"
  svPages :: nat
  svRc :: "'p reconciler"
  svDeps :: bool
  svRuntime :: bool
  svKey :: "string \<Rightarrow> string"
  svOthers :: "nat \<Rightarrow> runtime_db \<times> lease_table \<times> lease_lock option \<Rightarrow> runtime_db \<times> lease_table \<times> lease_lock option"
  svNow :: "nat \<Rightarrow> time"
  svFault :: "nat \<Rightarrow> query_fault"
  svContext :: "nat \<Rightarrow> string option"
  svClock :: "nat \<Rightarrow> control_clock"
  svListing :: "nat \<Rightarrow> db_error option"
  svSync :: "nat \<Rightarrow> db_error option"
  svTenants :: "nat \<Rightarrow> db_error option"
  svParsers :: time_parsers
  svDraw :: "nat \<Rightarrow> string \<Rightarrow> uuid"
  svText :: "app_error \<Rightarrow> string"

definition others_act :: "('p, 'q) control_env \<Rightarrow> ('p, 'q) control_state \<Rightarrow> ('p, 'q) control_state" where
  "others_act env s =
     (case svOthers env (ctAsked s) (rwDb (ctWorld s), ctLeases s, ctLock s) of
        (db, t, l) \<Rightarrow> s\<lparr>ctWorld := (ctWorld s)\<lparr>rwDb := db\<rparr>, ctLeases := t, ctLock := l\<rparr>)"

definition hasLeadership :: "('p, 'q) control_env \<Rightarrow> ('p, 'q) control_state \<Rightarrow> ('p, 'q) control_state \<times> bool" where
  "hasLeadership env s =
     (let s1 = others_act env s; n = ctAsked s in
      case lock_Held (ctLeases s1) (ctLock s1) (svNow env n) (svFault env n) of
        ((t, l), b) \<Rightarrow> (s1\<lparr>ctLeases := t, ctLock := l, ctAsked := Suc n, ctLog := ctLog s1 @ [Asked b]\<rparr>, b))"

definition requireLeadership :: "('p, 'q) control_env \<Rightarrow> ('p, 'q) control_state \<Rightarrow> ('p, 'q) control_state \<times> app_error option" where
  "requireLeadership env s =
     (case svContext env (ctAsked s) of
        Some e \<Rightarrow> (s, Some (ContextEnded e))
      | None \<Rightarrow> (case hasLeadership env s of (s1, b) \<Rightarrow> (s1, if b then None else Some NotLeader)))"

type_synonym cycle_result = "(app_error, reconcile_summary) result"

definition fail_cycle :: "('p, 'q) control_env \<Rightarrow> app_error \<Rightarrow> ('p, 'q) control_state
    \<Rightarrow> ('p, 'q) control_state \<times> cycle_result option" where
  "fail_cycle env e s =
     (s\<lparr>ctHealth := setReconcileResult empty_summary (Some (svText env e)) (ctHealth s)\<rparr>, Some (Inl e))"

definition set_control :: "control_db \<Rightarrow> ('p, 'q) control_state \<Rightarrow> ('p, 'q) control_state" where
  "set_control db s = s\<lparr>ctWorld := (ctWorld s)\<lparr>rwDb := (rwDb (ctWorld s))\<lparr>rdControl := db\<rparr>\<rparr>\<rparr>"

text \<open>The parts of the cycle; each is called with the state after the question before it.\<close>

definition run_tenant_cycle :: "('p, 'q) control_env \<Rightarrow> ('p, 'q) control_state
    \<Rightarrow> ('p, 'q) control_state \<times> cycle_result option" where
  "run_tenant_cycle env s =
     (case RunOnce (svRc env) (ctWorld s) of
        (w, summary, e) \<Rightarrow>
          (s\<lparr>ctWorld := w, ctLog := ctLog s @ [CycleRun],
             ctHealth := setReconcileResult summary (map_option (\<lambda>x. svText env (RunFailed x)) e) (ctHealth s)\<rparr>,
           Some (case e of Some x \<Rightarrow> Inl (RunFailed x) | None \<Rightarrow> Inr summary)))"

definition reconcile_tenants :: "('p, 'q) control_env \<Rightarrow> ('p, 'q) control_state
    \<Rightarrow> ('p, 'q) control_state \<times> cycle_result option" where
  "reconcile_tenants env s =
     (let n = ctAsked s in
      case ReconcileDesiredTenants (svTenants env n) (svParsers env) (svDraw env n) (rdControl (rwDb (ctWorld s))) of
        (db, r) \<Rightarrow>
          let s1 = (set_control db s)\<lparr>ctLog := ctLog s @ [TenantsReconciled]\<rparr> in
          case r of
            Inl e \<Rightarrow> fail_cycle env (TenantsFailed e) s1
          | Inr _ \<Rightarrow>
             (case requireLeadership env s1 of
                (s2, Some e) \<Rightarrow> fail_cycle env e s2
              | (s2, None) \<Rightarrow> run_tenant_cycle env s2))"

definition sync_provider :: "('p, 'q) control_env \<Rightarrow> authentik_client \<Rightarrow> ('p, 'q) control_state
    \<Rightarrow> ('p, 'q) control_state \<times> cycle_result option" where
  "sync_provider env c s =
     (let n = ctAsked s in
      case SyncStore (svPages env) (svLib env) c (svKey env) (svListing env n) (svSync env n) (svClock env n)
             (rdControl (rwDb (ctWorld s)), ctProvider s) of
        ((db, p), r) \<Rightarrow>
          let s1 = (set_control db s)\<lparr>ctProvider := p, ctLog := ctLog s @ [ProviderSynced]\<rparr> in
          case r of
            None \<Rightarrow> (s1, None)
          | Some (Inl e) \<Rightarrow> fail_cycle env (ProviderFailed e) s1
          | Some (Inr _) \<Rightarrow>
             (case requireLeadership env s1 of
                (s2, Some e) \<Rightarrow> fail_cycle env e s2
              | (s2, None) \<Rightarrow> reconcile_tenants env s2))"

definition runReconcileCycle :: "('p, 'q) control_env \<Rightarrow> ('p, 'q) control_state
    \<Rightarrow> ('p, 'q) control_state \<times> cycle_result option" where
  "runReconcileCycle env s =
     (case hasLeadership env s of
        (s1, False) \<Rightarrow> fail_cycle env NotLeader s1
      | (s1, True) \<Rightarrow> (case svClient env of None \<Rightarrow> reconcile_tenants env s1 | Some c \<Rightarrow> sync_provider env c s1))"

section \<open>Start, loops, pages\<close>

text \<open>\<^verbatim>\<open>runHealthProbe\<close>, with the text of the error of the ping.\<close>

definition runHealthProbe :: "string option \<Rightarrow> ('p, 'q) control_state \<Rightarrow> ('p, 'q) control_state" where
  "runHealthProbe err s = s\<lparr>ctHealth := setDatabaseStatus err (ctHealth s)\<rparr>"

text \<open>The start: the left answer is the error that ends the program; a failed first cycle does not.\<close>

definition runStartupSequence :: "('p, 'q) control_env \<Rightarrow> string option \<Rightarrow> ('p, 'q) control_state
    \<Rightarrow> ('p, 'q) control_state \<times> string option" where
  "runStartupSequence env ping s =
     (case SeedServiceCatalog (cdCatalog (rdControl (rwDb (ctWorld s)))) of
        (t, seeded) \<Rightarrow>
          let s1 = set_control ((rdControl (rwDb (ctWorld s)))\<lparr>cdCatalog := t\<rparr>) s in
          case seeded of
            Inl e \<Rightarrow> (s1, Some ''seed service catalog'')
          | Inr _ \<Rightarrow>
              let s2 = runHealthProbe ping s1 in
              (case ping of
                 Some e \<Rightarrow> (s2, Some e)
               | None \<Rightarrow> (fst (runReconcileCycle env s2), None)))"

text \<open>The loop that renews the lease, for \<^verbatim>\<open>n\<close> ticks; true if it cancels the program.\<close>

fun runLeaseRenewalLoop :: "nat \<Rightarrow> ('p, 'q) control_env \<Rightarrow> ('p, 'q) control_state \<Rightarrow> ('p, 'q) control_state \<times> bool" where
  "runLeaseRenewalLoop 0 env s = (s, False)"
| "runLeaseRenewalLoop (Suc n) env s =
     (case hasLeadership env s of (s1, b) \<Rightarrow> if b then runLeaseRenewalLoop n env s1 else (s1, True))"

datatype loop_tick = ReconcileTick | HealthTick "string option"

fun loop_step :: "('p, 'q) control_env \<Rightarrow> ('p, 'q) control_state \<Rightarrow> loop_tick \<Rightarrow> ('p, 'q) control_state" where
  "loop_step env s ReconcileTick = fst (runReconcileCycle env s)"
| "loop_step env s (HealthTick err) = runHealthProbe err s"

definition runLoops :: "('p, 'q) control_env \<Rightarrow> ('p, 'q) control_state \<Rightarrow> loop_tick list \<Rightarrow> ('p, 'q) control_state" where
  "runLoops env s ticks = foldl (loop_step env) s ticks"

record readiness =
  rdyCode :: nat
  rdyStatus :: string
  rdyDatabaseOK :: bool
  rdyLeader :: bool
  rdyDeps :: bool
  rdyRuntime :: bool
  rdyLastError :: string
  rdyLastReconcileAt :: "time option"
  rdyLastSummary :: reconcile_summary

definition handleReadiness :: "('p, 'q) control_env \<Rightarrow> ('p, 'q) control_state \<Rightarrow> ('p, 'q) control_state \<times> readiness" where
  "handleReadiness env s =
     (case hasLeadership env s of
        (s1, leader) \<Rightarrow>
          let ok = (hsReady (ctHealth s) \<and> leader \<and> svDeps env \<and> svRuntime env) in
          (s1, \<lparr>rdyCode = (if ok then 200 else 503), rdyStatus = (if ok then ''ready'' else ''not_ready''),
             rdyDatabaseOK = hsDatabaseOK (ctHealth s), rdyLeader = leader, rdyDeps = svDeps env, rdyRuntime = svRuntime env,
             rdyLastError = currentError (ctHealth s), rdyLastReconcileAt = hsLastReconcileAt (ctHealth s),
             rdyLastSummary = hsLastSummary (ctHealth s)\<rparr>))"

section \<open>Every part of a cycle follows a question\<close>

fun is_write :: "cycle_event \<Rightarrow> bool" where
  "is_write (Asked b) = False"
| "is_write _ = True"

text \<open>
  Whether in a list of events every part is preceded immediately by a question whose answer was yes; the flag says whether the
  event before the list was one.
\<close>

fun led :: "bool \<Rightarrow> cycle_event list \<Rightarrow> bool" where
  "led p [] = True"
| "led p (Asked b # xs) = led b xs"
| "led p (x # xs) = (p \<and> led False xs)"

definition adds :: "('p, 'q) control_state \<Rightarrow> ('p, 'q) control_state \<Rightarrow> bool \<Rightarrow> nat \<Rightarrow> bool" where
  "adds s s' p n \<longleftrightarrow> (\<exists>xs. ctLog s' = ctLog s @ xs \<and> led p xs \<and> length xs \<le> n)"

lemma others_act_log [simp]: "ctLog (others_act env s) = ctLog s" "ctHealth (others_act env s) = ctHealth s"
  "ctProvider (others_act env s) = ctProvider s" "ctAsked (others_act env s) = ctAsked s"
  by (simp_all add: others_act_def split: prod.split)

lemma hasLeadership_log: "hasLeadership env s = (s1, b) \<Longrightarrow> ctLog s1 = ctLog s @ [Asked b] \<and> ctHealth s1 = ctHealth s
    \<and> ctProvider s1 = ctProvider s \<and> ctWorld s1 = ctWorld (others_act env s)"
  by (auto simp: hasLeadership_def Let_def split: prod.splits)

lemma requireLeadership_log:
  "requireLeadership env s = (s1, e) \<Longrightarrow> ctLog s1 = ctLog s @ (case svContext env (ctAsked s) of Some _ \<Rightarrow> [] | None \<Rightarrow> [Asked (e = None)])
     \<and> ctHealth s1 = ctHealth s \<and> (svContext env (ctAsked s) \<noteq> None \<longrightarrow> e \<noteq> None)"
  by (auto simp: requireLeadership_def dest: hasLeadership_log split: option.splits prod.splits)

lemma set_control_log [simp]: "ctLog (set_control db s) = ctLog s" "ctHealth (set_control db s) = ctHealth s"
  by (simp_all add: set_control_def)

lemma fail_cycle_log [simp]: "ctLog (fst (fail_cycle env e s)) = ctLog s"
  by (simp add: fail_cycle_def)

lemma run_tenant_cycle_log [simp]: "ctLog (fst (run_tenant_cycle env s)) = ctLog s @ [CycleRun]"
  by (simp add: run_tenant_cycle_def split: prod.split)

lemma reconcile_tenants_log: "adds s (fst (reconcile_tenants env s)) True 3"
proof -
  obtain db r where r: "ReconcileDesiredTenants (svTenants env (ctAsked s)) (svParsers env) (svDraw env (ctAsked s))
      (rdControl (rwDb (ctWorld s))) = (db, r)" by force
  let ?s1 = "(set_control db s)\<lparr>ctLog := ctLog s @ [TenantsReconciled]\<rparr>"
  obtain s2 e where q: "requireLeadership env ?s1 = (s2, e)" by force
  show ?thesis
    using r q requireLeadership_log[OF q]
    by (auto simp: reconcile_tenants_def Let_def adds_def split: sum.split option.splits)
qed

lemma sync_provider_log: "adds s (fst (sync_provider env c s)) True 5"
proof -
  obtain db p r where r: "SyncStore (svPages env) (svLib env) c (svKey env) (svListing env (ctAsked s)) (svSync env (ctAsked s))
      (svClock env (ctAsked s)) (rdControl (rwDb (ctWorld s)), ctProvider s) = ((db, p), r)" by (metis prod.exhaust)
  let ?s1 = "(set_control db s)\<lparr>ctProvider := p, ctLog := ctLog s @ [ProviderSynced]\<rparr>"
  obtain s2 e where q: "requireLeadership env ?s1 = (s2, e)" by force
  obtain xs where xs: "ctLog (fst (reconcile_tenants env s2)) = ctLog s2 @ xs" "led True xs" "length xs \<le> 3"
    using reconcile_tenants_log[of s2 env] by (auto simp: adds_def)
  show ?thesis
    using r q requireLeadership_log[OF q] xs
    by (auto simp: sync_provider_def Let_def adds_def split: sum.split option.splits)
qed

lemma cycle_log: "adds s (fst (runReconcileCycle env s)) False 6"
proof -
  obtain s1 b where h: "hasLeadership env s = (s1, b)" by force
  have l: "ctLog s1 = ctLog s @ [Asked b]" using hasLeadership_log[OF h] by simp
  obtain xs where xs: "ctLog (fst (reconcile_tenants env s1)) = ctLog s1 @ xs" "led True xs" "length xs \<le> 3"
    using reconcile_tenants_log[of s1 env] by (auto simp: adds_def)
  have "\<exists>ys. ctLog (fst (sync_provider env c s1)) = ctLog s1 @ ys \<and> led True ys \<and> length ys \<le> 5" for c
    using sync_provider_log[of s1 env c] by (simp add: adds_def)
  then show ?thesis
    using h l xs by (cases b; cases "svClient env") (fastforce simp: runReconcileCycle_def adds_def)+
qed

section \<open>What the health says\<close>

text \<open>
  The events of the health, and the reference: ready is that the last ping succeeded and no cycle has failed since the last
  one that succeeded.
\<close>

datatype health_event = Pinged "string option" | Cycled reconcile_summary "string option"

fun health_step :: "health_state \<Rightarrow> health_event \<Rightarrow> health_state" where
  "health_step h (Pinged e) = setDatabaseStatus e h"
| "health_step h (Cycled sm e) = setReconcileResult sm e h"

definition last_ping_ok :: "health_event list \<Rightarrow> bool" where
  "last_ping_ok es = (case [e. Pinged e \<leftarrow> rev es] of [] \<Rightarrow> False | e # _ \<Rightarrow> e = None)"

definition last_cycle_ok :: "health_event list \<Rightarrow> bool" where
  "last_cycle_ok es = (case [e. Cycled sm e \<leftarrow> rev es] of [] \<Rightarrow> True | e # _ \<Rightarrow> e = None)"

fun has_text :: "health_event \<Rightarrow> bool" where
  "has_text (Pinged e) = True"
| "has_text (Cycled sm e) = (e \<noteq> Some [])"

lemma health_reference:
  "list_all has_text es \<Longrightarrow> let h = foldl health_step health_start es in
     hsDatabaseOK h = last_ping_ok es \<and> (hsReconcileError h = [] \<longleftrightarrow> last_cycle_ok es)
     \<and> (hsReady h \<longleftrightarrow> last_ping_ok es \<and> last_cycle_ok es)"
proof (induction es rule: rev_induct)
  case (snoc x es)
  then show ?case
    by (cases x) (auto simp: Let_def last_ping_ok_def last_cycle_ok_def setDatabaseStatus_def setReconcileResult_def
      split: option.split)
qed (simp add: last_ping_ok_def last_cycle_ok_def health_start_def)

text \<open>
  What a cycle reports of its result: with the health before it, its error with the text, or its summary.
\<close>

definition reports :: "('p, 'q) control_env \<Rightarrow> health_state \<Rightarrow> ('p, 'q) control_state \<times> cycle_result option \<Rightarrow> bool" where
  "reports env h x \<longleftrightarrow> (case snd x of
       None \<Rightarrow> ctHealth (fst x) = h
     | Some (Inl e) \<Rightarrow> (\<exists>summary. ctHealth (fst x) = setReconcileResult summary (Some (svText env e)) h)
     | Some (Inr summary) \<Rightarrow> ctHealth (fst x) = setReconcileResult summary None h)"

lemma reports_None [simp]: "reports env h (s, None) \<longleftrightarrow> ctHealth s = h"
  by (simp add: reports_def)

lemma fail_cycle_reports [simp]: "ctHealth s = h \<Longrightarrow> reports env h (fail_cycle env e s)"
  by (auto simp: fail_cycle_def reports_def)

lemma run_tenant_cycle_reports [simp]: "ctHealth s = h \<Longrightarrow> reports env h (run_tenant_cycle env s)"
  by (auto simp: run_tenant_cycle_def reports_def split: prod.split option.split)

lemma reconcile_tenants_reports [simp]: "ctHealth s = h \<Longrightarrow> reports env h (reconcile_tenants env s)"
  by (auto simp: reconcile_tenants_def Let_def split: prod.split sum.split option.split dest!: requireLeadership_log)

lemma sync_provider_reports [simp]: "ctHealth s = h \<Longrightarrow> reports env h (sync_provider env c s)"
  by (auto simp: sync_provider_def Let_def split: prod.split sum.split option.split dest!: requireLeadership_log)

lemma cycle_reports: "reports env (ctHealth s) (runReconcileCycle env s)"
  by (auto simp: runReconcileCycle_def split: prod.split bool.split option.split dest!: hasLeadership_log)

text \<open>An instance that is not the leader does nothing.\<close>

lemma unled_cycle:
  assumes "hasLeadership env s = (s1, False)"
  shows "ctWorld (fst (runReconcileCycle env s)) = ctWorld (others_act env s)
    \<and> ctProvider (fst (runReconcileCycle env s)) = ctProvider s \<and> snd (runReconcileCycle env s) = Some (Inl NotLeader)"
  using assms hasLeadership_log[OF assms] by (simp add: runReconcileCycle_def fail_cycle_def)

text \<open>Renewing stops exactly at the first question that is answered with no.\<close>

lemma renewal_stops: "snd (runLeaseRenewalLoop n env s) \<Longrightarrow> last (ctLog (fst (runLeaseRenewalLoop n env s))) = Asked False"
proof (induction n arbitrary: s)
  case (Suc n)
  obtain s1 b where h: "hasLeadership env s = (s1, b)" by force
  show ?case using Suc.prems Suc.IH[of s1] h hasLeadership_log[OF h] by (cases b) auto
qed simp

text \<open>A question answered with yes renewed the lease, for the holder of the lock.\<close>

lemma acquired_row:
  assumes "q_AcquireControlPlaneLease t nm holder expires now = (t', Some h)"
  shows "h = holder \<and> \<lparr>leName = nm, leHolder = holder, leExpires = expires, leUpdated = now\<rparr> \<in> set t'"
proof (cases "find (\<lambda>r. leName r = nm) t")
  case None
  then show ?thesis using assms by (auto simp: q_AcquireControlPlaneLease_def)
next
  case (Some r)
  then have "r \<in> set t \<and> leName r = nm" by (induction t) (auto split: if_splits)
  then show ?thesis using assms Some by (auto simp: q_AcquireControlPlaneLease_def Let_def split: if_splits)
qed

lemma confirmed_lease:
  assumes "hasLeadership env s = (s1, True)"
  shows "\<exists>lk r. ctLock s1 = Some lk \<and> r \<in> set (ctLeases s1) \<and> leName r = controlPlaneLeaseName \<and> leHolder r = lkHolder lk
    \<and> leExpires r = svNow env (ctAsked s) + controlPlaneLeaseTTL"
proof -
  let ?s = "others_act env s"
  obtain t l where h: "lock_Held (ctLeases ?s) (ctLock ?s) (svNow env (ctAsked s)) (svFault env (ctAsked s)) = ((t, l), True)"
    "s1 = ?s\<lparr>ctLeases := t, ctLock := l, ctAsked := Suc (ctAsked s), ctLog := ctLog ?s @ [Asked True]\<rparr>"
    using assms by (auto simp: hasLeadership_def Let_def split: prod.splits)
  then obtain lk where lk: "ctLock ?s = Some lk" "l = Some lk" "\<not> lkReleased lk"
    and q: "q_answer (svFault env (ctAsked s)) (ctLeases ?s) (q_AcquireControlPlaneLease (ctLeases ?s) controlPlaneLeaseName (lkHolder lk)
        (svNow env (ctAsked s) + controlPlaneLeaseTTL) (svNow env (ctAsked s))) = (t, Some (Some (lkHolder lk)))"
    by (auto simp: lock_Held_def split: option.splits if_splits prod.splits)
  have "q_AcquireControlPlaneLease (ctLeases ?s) controlPlaneLeaseName (lkHolder lk)
      (svNow env (ctAsked s) + controlPlaneLeaseTTL) (svNow env (ctAsked s)) = (t, Some (lkHolder lk))"
    using q by (cases "svFault env (ctAsked s)"; cases "q_AcquireControlPlaneLease (ctLeases ?s) controlPlaneLeaseName (lkHolder lk)
      (svNow env (ctAsked s) + controlPlaneLeaseTTL) (svNow env (ctAsked s))") auto
  from acquired_row[OF this] show ?thesis using h(2) lk by force
qed

end
