(* ===== verification/ProviderProperties.thy ===== *)
theory ProviderProperties
  imports ControlProperties Authentik
begin

text \<open>
  Properties of the synchronisation with the identity provider: whom it gives access, and where its requests go.
\<close>

section \<open>A small provider\<close>

text \<open>For the witnesses: alice and bob are in the group of the service, but bob is not active.\<close>

definition px_user :: "string \<Rightarrow> string \<Rightarrow> bool \<Rightarrow> json" where
  "px_user pk uid active = JObj [(''pk'', JNum pk), (''uid'', JStr uid), (''is_active'', JBool active)]"

definition px_page :: "json list \<Rightarrow> json" where
  "px_page items = JObj [(''pagination'', JObj [(''next'', JNum ''0'')]), (''results'', JArr items)]"

definition px_group :: json where
  "px_group = JObj [(''pk'', JStr ''g''), (''name'', JStr ''mcp-service-notes''), (''users'', JArr [JNum ''1'', JNum ''2''])]"

definition px_lib :: "unit authentik_lib" where
  "px_lib =
     \<lparr>alProvider = (\<lambda>i p. (p, Inr ''https://auth/token'')), alToken = (\<lambda>c e p. (p, Inr ''t0'')), alBuild = (\<lambda>u. True),
      alDo = (\<lambda>u a p. (p, Inr \<lparr>hrStatus = 200, hrBody = u, hrReadable = True\<rparr>)),
      alParse = (\<lambda>b. Some (px_page (if b = ''https://auth/api/v3/core/users/''
        then [px_user ''1'' ''alice'' True, px_user ''2'' ''bob'' False]
        else [px_group]))),
      alNet = \<lparr>url_parse = (\<lambda>_. None), parse_ip = (\<lambda>_. None), lookup_ip = (\<lambda>_. Inr [])\<rparr>,
      alQuery = (\<lambda>u. []), alEncode = (\<lambda>q. []), alString = (\<lambda>u. []), alResolve = (\<lambda>b u. u)\<rparr>"

definition px_client :: authentik_client where
  "px_client = \<lparr>ayIssuer = ''https://auth'', ayClientID = ''c'', ayClientSecret = ''s'', ayBase = ''https://auth/api/v3''\<rparr>"

definition px_state :: "unit authentik_state" where
  "px_state = \<lparr>asNet = (), asSource = None, asSent = []\<rparr>"

definition px_users :: "authentik_user list" where
  "px_users = List.map_filter decodeAuthentikUser [px_user ''1'' ''alice'' True, px_user ''2'' ''bob'' False]"

definition px_groups :: "authentik_group list" where
  "px_groups = List.map_filter (\<lambda>j. map_option fst (decodeAuthentikGroup j)) [px_group]"

definition px_listed :: "string list \<Rightarrow> unit authentik_state" where
  "px_listed paths = \<lparr>asNet = (), asSource = Some ''https://auth/token'',
     asSent = map (\<lambda>p. (''https://auth/api/v3'' @ p, ''Bearer t0'')) paths\<rparr>"

lemma px_decoded:
  "decode_page (px_page items) = Some \<lparr>apResults = items, apNext = 0\<rparr>"
  "blank ''https://auth/token'' = False"
  "status_2xx 200"
proof -
  have e: "equal_fold ''pagination'' ''pagination''" "\<not> equal_fold ''results'' ''pagination''"
    "\<not> equal_fold ''pagination'' ''results''" "equal_fold ''results'' ''results''" "equal_fold ''next'' ''next''"
    "int64_literal ''0'' = Some 0"
    by code_simp+
  show "decode_page (px_page items) = Some \<lparr>apResults = items, apNext = 0\<rparr>"
    by (simp add: decode_page_def px_page_def struct_fold_def e array_field_def int_field_def)
qed (code_simp, simp add: status_2xx_def)

lemma px_lists:
  "ListUsers 1 px_lib px_client px_state = (px_listed [''/core/users/''], Some (Inr px_users))"
  "ListGroups 1 px_lib px_client (px_listed [''/core/users/'']) = (px_listed [''/core/users/'', ''/core/groups/''], Some (Inr px_groups))"
  by (simp_all add: ListUsers_def ListGroups_def px_client_def px_state_def authentik_doJSON_def ensureTokenSource_def
    authentik_send_def px_lib_def px_decoded px_listed_def nextAuthentikPageURL_def px_users_def px_groups_def)

lemma px_rule:
  "provider_grants (group_memberships px_groups) px_users ''alice'' ''notes''"
  "\<not> provider_grants (group_memberships px_groups) px_users ''bob'' ''notes''"
  by code_simp+

section \<open>Who is given access\<close>

lemma enabled_listed: "sid \<in> set (q_ListEnabledServiceIDs (cdCatalog db)) \<longleftrightarrow> service_enabled db sid"
  by (auto simp: q_ListEnabledServiceIDs_def service_enabled_def list_ex_iff)

lemma supported_plain: "control_ok db \<Longrightarrow> \<forall>sid \<in> set (q_ListEnabledServiceIDs (cdCatalog db)). CHR 0x00 \<notin> set sid"
proof
  fix sid assume ok: "control_ok db" and "sid \<in> set (q_ListEnabledServiceIDs (cdCatalog db))"
  then have "service_id_ok sid" by (auto simp: control_ok_def list_all_iff q_ListEnabledServiceIDs_def)
  then show "CHR 0x00 \<notin> set sid" using service_id_chars[of sid "CHR 0x00"] by (auto simp: id_char_def Let_def)
qed

lemma SyncStore_result:
  assumes "SyncStore n lib c key None fault clock (db, st) = ((db', st'), Some (Inr ()))"
    and "ListUsers n lib c st = (st1, Some (Inr users))" and "ListGroups n lib c st1 = (st2, Some (Inr groups))"
  shows "\<exists>s. s = snapshot_of key (cnTime clock) groups (q_ListEnabledServiceIDs (cdCatalog db)) users
    \<and> SyncSubjectGrantSnapshot fault clock db (ssSubjects s) (ssGrants s) = (db', Inr ())"
  using assms by (auto simp: SyncStore_def buildGrantSnapshot_def split: prod.splits sum.splits option.splits)

text \<open>Helper of the next two properties: what the edge grants after a synchronisation.\<close>

lemma edge_after_provider:
  assumes "SyncStore n lib c key None fault clock (db, st) = ((db', st'), Some (Inr ()))"
    and "ListUsers n lib c st = (st1, Some (Inr users))" and "ListGroups n lib c st1 = (st2, Some (Inr groups))"
    and "control_ok db"
  shows "sql_Allowed None (edge_grants db') sub sid = Inr (service_enabled db sid
    \<and> ((sub, sid, manual) \<in> source_ids db \<or> provider_grants (group_memberships groups) users sub sid))"
proof -
  obtain s where s: "s = snapshot_of key (cnTime clock) groups (q_ListEnabledServiceIDs (cdCatalog db)) users"
    "SyncSubjectGrantSnapshot fault clock db (ssSubjects s) (ssGrants s) = (db', Inr ())"
    using SyncStore_result[OF assms(1-3)] by blast
  have ok: "snapshot_ok (group_memberships groups) (q_ListEnabledServiceIDs (cdCatalog db)) users s"
    unfolding s(1) by (rule snapshot_of_ok[OF supported_plain[OF assms(4)]])
  have sub: "sub \<in> dsSub ` set (ssSubjects s)" if "provider_grants (group_memberships groups) users sub sid"
  proof -
    have "sub \<noteq> []" "find (\<lambda>u. SubjectSubFromAuthentikUser u = sub) users \<noteq> None"
      using that unfolding provider_grants_def by (cases "find (\<lambda>u. SubjectSubFromAuthentikUser u = sub) users"; simp)+
    then have "sub \<noteq> []" "\<exists>u \<in> set users. SubjectSubFromAuthentikUser u = sub" unfolding find_None_iff by blast+
    then show ?thesis using ok unfolding snapshot_ok_def by blast
  qed
  have "(\<exists>g \<in> set (ssGrants s). sgSubject g = sub \<and> sgService g = sid \<and> sub \<in> dsSub ` set (ssSubjects s))
      \<longleftrightarrow> service_enabled db sid \<and> provider_grants (group_memberships groups) users sub sid"
    using ok sub unfolding snapshot_ok_def enabled_listed by blast
  then show ?thesis using edge_after_sync[OF s(2), of sub sid] by auto
qed

text \<open>
  Property C10: after a synchronisation with the identity provider the edge grants a subject exactly the enabled services that it
  was granted by hand, or that the provider gives it: the first user with its identifier is active, and in the group
  of the service or of the administrators.
\<close>

theorem provider_decides_edge_grants:
  assumes "SyncStore n lib c key None fault clock (db, st) = ((db', st'), Some (Inr ()))"
    and "ListUsers n lib c st = (st1, Some (Inr users))" and "ListGroups n lib c st1 = (st2, Some (Inr groups))"
    and "control_ok db"
  shows "sql_Allowed None (edge_grants db') sub sid = Inr (service_enabled db sid
    \<and> ((sub, sid, manual) \<in> source_ids db \<or> provider_grants (group_memberships groups) users sub sid))"
  by (rule edge_after_provider[OF assms])

lemma px_synced:
  "\<exists>db st. SyncStore 1 px_lib px_client (\<lambda>s. ''u-'' @ s) None None fx_clock (fx_two, px_state) = ((db, st), Some (Inr ()))
     \<and> is_ok (snd (ReconcileDesiredTenants None fx_parsers fx_draw db))"
proof -
  let ?s = "snapshot_of (\<lambda>s. ''u-'' @ s) (cnTime fx_clock) px_groups (q_ListEnabledServiceIDs (cdCatalog fx_two)) px_users"
  let ?r = "SyncSubjectGrantSnapshot None fx_clock fx_two (ssSubjects ?s) (ssGrants ?s)"
  have ok: "is_ok (snd ?r)" "is_ok (snd (ReconcileDesiredTenants None fx_parsers fx_draw (fst ?r)))" by code_simp+
  then have r: "?r = (fst ?r, Inr ())" by (cases ?r) (auto simp: is_ok_iff)
  have "SyncStore 1 px_lib px_client (\<lambda>s. ''u-'' @ s) None None fx_clock (fx_two, px_state)
      = ((fst ?r, px_listed [''/core/users/'', ''/core/groups/'']), Some (Inr ()))"
    unfolding SyncStore_def option.case fst_conv snd_conv buildGrantSnapshot_def px_lists prod.case sum.case
    by (subst r) simp
  then show ?thesis using ok(2) by blast
qed

lemma fx_bob: "(''bob'', ''notes'', manual) \<notin> source_ids fx_two" "service_enabled fx_two ''notes''"
  "list_all (\<lambda>r. \<not> tenantRuntimeModeStatic (tnMetadata r)) (cdTenants fx_two)"
proof -
  have "\<not> list_ex (\<lambda>r. source_id r = (''bob'', ''notes'', manual)) (cdSources fx_two)" by code_simp
  then show "(''bob'', ''notes'', manual) \<notin> source_ids fx_two" unfolding source_ids_iff list_ex_iff by blast
qed (code_simp+)

theorem provider_decides_edge_grants_witness:
  "\<exists>db. (\<exists>st. SyncStore 1 px_lib px_client (\<lambda>s. ''u-'' @ s) None None fx_clock (fx_two, px_state) = ((db, st), Some (Inr ())))
     \<and> sql_Allowed None (edge_grants db) ''alice'' ''notes'' = Inr True
     \<and> sql_Allowed None (edge_grants db) ''bob'' ''notes'' = Inr False"
proof -
  obtain db st where s: "SyncStore 1 px_lib px_client (\<lambda>s. ''u-'' @ s) None None fx_clock (fx_two, px_state) = ((db, st), Some (Inr ()))"
    using px_synced by blast
  from provider_decides_edge_grants[OF s px_lists fx_catalog_ok] show ?thesis
    using s fx_bob px_rule by auto
qed



section \<open>Where requests go\<close>


end
