(* ===== verification/ServerProperties.thy ===== *)
theory ServerProperties
  imports ControlServer RuntimeProperties ProviderProperties
begin

text \<open>
  Properties of the control plane as a program: its cycle works only as the leader, and its health says what happened.
\<close>

section \<open>A small control plane\<close>

definition sx_env :: "bool \<Rightarrow> (rx_net, unit) control_env" where
  "sx_env healthy =
     \<lparr>svLib = px_lib, svClient = Some px_client, svPages = 1, svRc = rx_rc, svDeps = True, svRuntime = True,
      svKey = (\<lambda>s. ''u-'' @ s), svOthers = (\<lambda>n x. x), svNow = (\<lambda>n. int n), svFault = (\<lambda>n. QueryOk),
      svContext = (\<lambda>n. None), svClock = (\<lambda>n. fx_clock),
      svListing = (\<lambda>n. if healthy then None else Some NoRows), svSync = (\<lambda>n. None), svTenants = (\<lambda>n. None),
      svParsers = fx_parsers, svDraw = (\<lambda>n. fx_draw), svText = (\<lambda>e. ''failed'')\<rparr>"

definition sx_state :: "bool \<Rightarrow> (rx_net, unit) control_state" where
  "sx_state leader =
     \<lparr>ctWorld = rx_world True (rx_tenant DesiredEnabled RuntimeReady), ctProvider = px_state, ctLeases = [],
      ctLock = (if leader then Some \<lparr>lkHolder = ''a'', lkReleased = False\<rparr> else None), ctHealth = health_start,
      ctAsked = 0, ctLog = []\<rparr>"

lemma sx_leads: "snd (hasLeadership (sx_env h) (sx_state True))"
  by (simp add: hasLeadership_def sx_env_def sx_state_def others_act_def lock_Held_def q_AcquireControlPlaneLease_def)

lemma sx_unled: "\<not> snd (hasLeadership (sx_env h) (sx_state False))"
  by (simp add: hasLeadership_def sx_env_def sx_state_def others_act_def lock_Held_def)

section \<open>The cycle\<close>

text \<open>
  Property C12: the synchronisation, the reconciliation of the tenants and the run of the runtime each follow immediately
  upon a question for the lease that was answered with yes, which renewed the lease for two minutes; an
  instance that is not the leader changes nothing and asks the identity provider nothing.
\<close>

theorem cycle_works_as_leader:
  shows "(\<exists>xs. ctLog (fst (runReconcileCycle env s)) = ctLog s @ xs \<and> led False xs)
    \<and> (snd (hasLeadership env s) \<longrightarrow> (\<exists>lk r. ctLock (fst (hasLeadership env s)) = Some lk
          \<and> r \<in> set (ctLeases (fst (hasLeadership env s))) \<and> leHolder r = lkHolder lk
          \<and> leExpires r = svNow env (ctAsked s) + controlPlaneLeaseTTL))
    \<and> (\<not> snd (hasLeadership env s) \<longrightarrow> ctWorld (fst (runReconcileCycle env s)) = ctWorld (others_act env s)
          \<and> ctProvider (fst (runReconcileCycle env s)) = ctProvider s
          \<and> snd (runReconcileCycle env s) = Some (Inl NotLeader))"
proof -
  obtain s1 b where h: "hasLeadership env s = (s1, b)" by force
  have "\<exists>xs. ctLog (fst (runReconcileCycle env s)) = ctLog s @ xs \<and> led False xs"
    using cycle_log[of s env] by (auto simp: adds_def)
  moreover have "\<exists>lk r. ctLock s1 = Some lk \<and> r \<in> set (ctLeases s1) \<and> leHolder r = lkHolder lk
      \<and> leExpires r = svNow env (ctAsked s) + controlPlaneLeaseTTL" if b
    using confirmed_lease[of env s s1] h that by auto
  moreover have "ctWorld (fst (runReconcileCycle env s)) = ctWorld (others_act env s)
      \<and> ctProvider (fst (runReconcileCycle env s)) = ctProvider s \<and> snd (runReconcileCycle env s) = Some (Inl NotLeader)" if "\<not> b"
    using unled_cycle[of env s s1] h that by simp
  ultimately show ?thesis unfolding h fst_conv snd_conv by blast
qed

theorem cycle_works_as_leader_witness:
  "ctWorld (fst (runReconcileCycle (sx_env True) (sx_state False))) = rx_world True (rx_tenant DesiredEnabled RuntimeReady)
   \<and> (\<exists>lk. ctLock (fst (hasLeadership (sx_env True) (sx_state True))) = Some lk)"
  using cycle_works_as_leader[of "sx_env True" "sx_state False"] cycle_works_as_leader[of "sx_env True" "sx_state True"]
    sx_leads[of True] sx_unled[of True]
  by (auto simp: others_act_def sx_env_def sx_state_def)

text \<open>
  A cycle reports its result: one that fails leaves the control plane not ready, with the text of its error, until a
  cycle succeeds; one that succeeds leaves its summary, and the control plane ready exactly if the database answers.
\<close>

theorem cycle_reports_result:
  "case snd (runReconcileCycle env s) of
     None \<Rightarrow> ctHealth (fst (runReconcileCycle env s)) = ctHealth s
   | Some (Inl e) \<Rightarrow> \<not> hsReady (ctHealth (fst (runReconcileCycle env s)))
       \<and> hsReconcileError (ctHealth (fst (runReconcileCycle env s))) = svText env e
   | Some (Inr summary) \<Rightarrow> hsLastSummary (ctHealth (fst (runReconcileCycle env s))) = summary
       \<and> hsReady (ctHealth (fst (runReconcileCycle env s))) = hsDatabaseOK (ctHealth s)
       \<and> hsReconcileError (ctHealth (fst (runReconcileCycle env s))) = []"
  using cycle_reports[of env s]
  by (auto simp: reports_def setReconcileResult_def Let_def split: option.splits sum.splits)

section \<open>Readiness\<close>

text \<open>
  Property C13: after any sequence of pings and cycles, whose errors have a text, the readiness page answers 200 exactly if the
  last ping succeeded, the last cycle, if there was one, succeeded, the instance is the leader, and its
  clients and the target of the runtime are configured; otherwise it answers 503.
\<close>

theorem ready_iff_last_succeeded:
  assumes "list_all has_text es" "ctHealth s = foldl health_step health_start es"
  shows "rdyCode (snd (handleReadiness env s)) =
    (if last_ping_ok es \<and> last_cycle_ok es \<and> snd (hasLeadership env s) \<and> svDeps env \<and> svRuntime env then 200 else 503)"
  using health_reference[OF assms(1)] assms(2) by (simp add: handleReadiness_def Let_def split: prod.split)

theorem ready_iff_last_succeeded_witness:
  "rdyCode (snd (handleReadiness (sx_env True) ((sx_state True)\<lparr>ctHealth := foldl health_step health_start
      [Pinged None, Cycled empty_summary (Some ''down''), Cycled empty_summary None]\<rparr>))) = 200
   \<and> rdyCode (snd (handleReadiness (sx_env True) ((sx_state True)\<lparr>ctHealth := foldl health_step health_start
      [Cycled empty_summary (Some ''down''), Pinged None]\<rparr>))) = 503"
proof -
  let ?a = "[Pinged None, Cycled empty_summary (Some ''down''), Cycled empty_summary None]"
  let ?b = "[Cycled empty_summary (Some ''down''), Pinged None]"
  have l: "snd (hasLeadership (sx_env True) ((sx_state True)\<lparr>ctHealth := h\<rparr>))" for h
    by (simp add: hasLeadership_def sx_env_def sx_state_def others_act_def lock_Held_def q_AcquireControlPlaneLease_def)
  have e: "last_ping_ok ?a" "last_cycle_ok ?a" "\<not> last_cycle_ok ?b" by (simp_all add: last_ping_ok_def last_cycle_ok_def)
  have t: "list_all has_text ?a" "list_all has_text ?b" by simp_all
  have c: "svDeps (sx_env True)" "svRuntime (sx_env True)" by (simp_all add: sx_env_def)
  show ?thesis
    using ready_iff_last_succeeded[OF t(1), of "(sx_state True)\<lparr>ctHealth := foldl health_step health_start ?a\<rparr>" "sx_env True"]
      ready_iff_last_succeeded[OF t(2), of "(sx_state True)\<lparr>ctHealth := foldl health_step health_start ?b\<rparr>" "sx_env True"] l e c
    by simp
qed

end
